(* ===== verification/Prelude.thy ===== *)
theory Prelude
  imports Main "HOL-Library.Word"
begin

text \<open>
  Shared vocabulary of the development: Go's machine integers, byte strings, instants and
  durations, big-endian encodings, and the list lemmas several components use.

  A Go \<open>string\<close> and a Go \<open>[]byte\<close> are both sequences of bytes; both are modelled as HOL
  \<open>string\<close> (a \<open>char\<close> is one byte), so the conversions \<open>[]byte(s)\<close> and \<open>string(b)\<close> are the
  identity. A \<open>uuid.UUID\<close> is a 16-byte array, modelled as a 128-bit word; a \<open>[32]byte\<close> (a key, a pepper, a
  digest) is modelled as a 256-bit word, whose value 0 is the zero array.
  A \<open>time.Duration\<close> is a signed 64-bit count of nanoseconds, modelled as \<open>int\<close>; where the code
  computes with it, the wrap-around is written out by \<open>wrap64\<close>.
  A \<open>time.Time\<close> is the \<open>int\<close> of nanoseconds since the Unix epoch.
\<close>

named_theorems byte_simps "encodings of numbers as bytes"
named_theorems range_simps "bounds of machine integers"

type_synonym bytes = string
type_synonym uuid = "128 word"
type_synonym key256 = "256 word"
type_synonym duration = int
type_synonym instant = int

abbreviation uuid_nil :: uuid where "uuid_nil \<equiv> 0"

section \<open>Machine integers\<close>

text \<open>The value an \<open>int\<close> takes when stored in a signed 64-, 32- or 16-bit variable.\<close>

definition wrap64 :: "int \<Rightarrow> int" where
  "wrap64 x = (x + 2 ^ 63) mod 2 ^ 64 - 2 ^ 63"

definition wrap32 :: "int \<Rightarrow> int" where
  "wrap32 x = (x + 2 ^ 31) mod 2 ^ 32 - 2 ^ 31"

definition wrap16 :: "int \<Rightarrow> int" where
  "wrap16 x = (x + 2 ^ 15) mod 2 ^ 16 - 2 ^ 15"

definition max_int64 :: int where "max_int64 = 2 ^ 63 - 1"
definition min_int64 :: int where "min_int64 = - (2 ^ 63)"

definition in_int64 :: "int \<Rightarrow> bool" where
  "in_int64 x \<longleftrightarrow> - (2 ^ 63) \<le> x \<and> x < 2 ^ 63"

definition in_int16 :: "int \<Rightarrow> bool" where
  "in_int16 x \<longleftrightarrow> - (2 ^ 15) \<le> x \<and> x < 2 ^ 15"

lemma wrap64_id [simp]: "in_int64 x \<Longrightarrow> wrap64 x = x"
  by (simp add: in_int64_def wrap64_def)

lemma wrap16_id [simp]: "in_int16 x \<Longrightarrow> wrap16 x = x"
  by (simp add: in_int16_def wrap16_def)

lemma wrap16_add: "wrap16 (x + 65536) = wrap16 x"
  using mod_add_self2 [of "x + 32768" 65536] by (simp add: wrap16_def add.assoc)

lemma wrap64_range [range_simps]: "in_int64 (wrap64 x)"
proof -
  have "0 \<le> (x + 2 ^ 63) mod 2 ^ 64" and "(x + 2 ^ 63) mod 2 ^ 64 < 2 ^ 64" by simp_all
  then show ?thesis by (simp add: in_int64_def wrap64_def)
qed

text \<open>Go's integer division truncates towards zero.\<close>

definition go_div :: "int \<Rightarrow> int \<Rightarrow> int" where
  "go_div a b = sgn a * sgn b * (\<bar>a\<bar> div \<bar>b\<bar>)"

definition go_rem :: "int \<Rightarrow> int \<Rightarrow> int" where
  "go_rem a b = a - b * go_div a b"

lemma go_div_nonneg [simp]: "0 \<le> a \<Longrightarrow> 0 < b \<Longrightarrow> go_div a b = a div b"
  by (cases "a = 0") (simp_all add: go_div_def)

lemma go_rem_nonneg [simp]: "0 \<le> a \<Longrightarrow> 0 < b \<Longrightarrow> go_rem a b = a mod b"
  by (simp add: go_rem_def minus_mult_div_eq_mod)

section \<open>Durations and instants\<close>

definition nanosecond :: duration where "nanosecond = 1"
definition millisecond :: duration where "millisecond = 1000000"
definition second :: duration where "second = 1000000000"
definition minute :: duration where "minute = 60 * 1000000000"
definition hour :: duration where "hour = 3600 * 1000000000"

lemmas duration_defs = nanosecond_def millisecond_def second_def minute_def hour_def

text \<open>
  The zero \<open>time.Time\<close> is 1 January of year 1, 62135596800 seconds before the Unix epoch.
  \<open>t.Sub(u)\<close> saturates at the ends of the duration range; \<open>t.UnixNano()\<close> wraps;
  \<open>t.Unix()\<close> rounds towards minus infinity.
\<close>

definition zero_time :: instant where
  "zero_time = - 62135596800 * 1000000000"

definition time_sub :: "instant \<Rightarrow> instant \<Rightarrow> duration" where
  "time_sub a b = max min_int64 (min max_int64 (a - b))"

definition time_unix :: "instant \<Rightarrow> int" where
  "time_unix t = t div 1000000000"

definition unix_nano :: "instant \<Rightarrow> int" where
  "unix_nano t = wrap64 t"

section \<open>Bytes\<close>

definition byte_val :: "char \<Rightarrow> nat" where
  "byte_val c = of_char c"

definition byte_of :: "nat \<Rightarrow> char" where
  "byte_of n = char_of n"

lemma byte_val_less [simp]: "byte_val c < 256"
  by (simp add: byte_val_def)

lemma byte_val_Char [simp]:
  "byte_val (Char b0 b1 b2 b3 b4 b5 b6 b7) = of_char (Char b0 b1 b2 b3 b4 b5 b6 b7)"
  by (simp add: byte_val_def)

lemma byte_of_val [simp]: "byte_of (byte_val c) = c"
  by (simp add: byte_val_def byte_of_def)

lemma byte_val_of [simp]: "byte_val (byte_of n) = n mod 256"
  by (simp add: byte_val_def byte_of_def)

lemma byte_val_inj [simp]: "byte_val a = byte_val b \<longleftrightarrow> a = b"
  by (metis byte_of_val)

lemma byte_of_eq: "byte_of n = c \<longleftrightarrow> n mod 256 = byte_val c"
  by (metis byte_of_val byte_val_inj byte_val_of)

text \<open>The \<open>k\<close>-byte big-endian encoding of a number, and its value.\<close>

primrec be_bytes :: "nat \<Rightarrow> nat \<Rightarrow> bytes" where
  "be_bytes 0 n = []"
| "be_bytes (Suc k) n = be_bytes k (n div 256) @ [byte_of n]"

definition be_val :: "bytes \<Rightarrow> nat" where
  "be_val bs = foldl (\<lambda>a c. 256 * a + byte_val c) 0 bs"

lemma length_be_bytes [simp]: "length (be_bytes k n) = k"
  by (induction k arbitrary: n) simp_all

lemma be_val_snoc [byte_simps]: "be_val (bs @ [c]) = 256 * be_val bs + byte_val c"
  by (simp add: be_val_def)

lemma be_val_Nil [byte_simps]: "be_val [] = 0"
  by (simp add: be_val_def)

lemma be_val_be_bytes [byte_simps]: "be_val (be_bytes k n) = n mod 256 ^ k"
proof (induction k arbitrary: n)
  case 0
  then show ?case by (simp add: byte_simps)
next
  case (Suc k)
  have "be_val (be_bytes (Suc k) n) = 256 * ((n div 256) mod 256 ^ k) + n mod 256"
    by (simp add: byte_simps Suc)
  also have "\<dots> = n mod (256 * 256 ^ k)"
    by (simp add: mod_mult2_eq)
  finally show ?case by simp
qed

lemma be_bytes_be_val [byte_simps]: "be_bytes (length bs) (be_val bs) = bs"
proof (induction bs rule: rev_induct)
  case Nil
  then show ?case by simp
next
  case (snoc c bs)
  have "(256 * be_val bs + byte_val c) div 256 = be_val bs" by simp
  moreover have "byte_of (256 * be_val bs + byte_val c) = c"
    by (metis byte_of_val byte_val_inj byte_val_of mod_mult_self2 byte_val_less mod_less add.commute)
  ultimately show ?case by (simp add: byte_simps snoc)
qed

lemma be_bytes_inj:
  assumes "m < 256 ^ k" and "n < 256 ^ k" and "be_bytes k m = be_bytes k n"
  shows "m = n"
  using arg_cong [OF assms(3), of be_val] assms(1,2) by (simp add: byte_simps)

text \<open>The 16 bytes of a UUID.\<close>

definition uuid_bytes :: "uuid \<Rightarrow> bytes" where
  "uuid_bytes u = be_bytes 16 (unat u)"

definition uuid_of_bytes :: "bytes \<Rightarrow> uuid" where
  "uuid_of_bytes bs = of_nat (be_val bs)"

lemma length_uuid_bytes [simp]: "length (uuid_bytes u) = 16"
  by (simp add: uuid_bytes_def)

lemma uuid_of_uuid_bytes [simp]: "uuid_of_bytes (uuid_bytes u) = u"
proof -
  have "unat u < 256 ^ 16" using unsigned_less [of u] by simp
  then show ?thesis by (simp add: uuid_of_bytes_def uuid_bytes_def byte_simps)
qed

lemma uuid_bytes_inj [simp]: "uuid_bytes u = uuid_bytes v \<longleftrightarrow> u = v"
  by (metis uuid_of_uuid_bytes)

text \<open>The 32 bytes of a key.\<close>

definition key_bytes :: "key256 \<Rightarrow> bytes" where
  "key_bytes k = be_bytes 32 (unat k)"

definition key_of_bytes :: "bytes \<Rightarrow> key256" where
  "key_of_bytes bs = of_nat (be_val bs)"

lemma length_key_bytes [simp]: "length (key_bytes k) = 32"
  by (simp add: key_bytes_def)

lemma key_of_key_bytes [simp]: "key_of_bytes (key_bytes k) = k"
proof -
  have "unat k < 256 ^ 32" using unsigned_less [of k] by simp
  then show ?thesis by (simp add: key_of_bytes_def key_bytes_def byte_simps)
qed

lemma be_val_less: "be_val bs < 256 ^ length bs"
  by (metis be_bytes_be_val be_val_be_bytes length_be_bytes mod_less_divisor zero_less_numeral
      zero_less_power)

lemma key_bytes_of_bytes: "length bs = 32 \<Longrightarrow> key_bytes (key_of_bytes bs) = bs"
proof -
  assume "length bs = 32"
  with be_val_less [of bs] have "be_val bs < 2 ^ LENGTH(256)" by simp
  then have "unat (of_nat (be_val bs) :: key256) = be_val bs"
    by (simp add: unsigned_of_nat take_bit_nat_eq_self)
  then show ?thesis using \<open>length bs = 32\<close> be_bytes_be_val [of bs]
    by (simp add: key_bytes_def key_of_bytes_def)
qed

lemma uuid_bytes_of_bytes: "length bs = 16 \<Longrightarrow> uuid_bytes (uuid_of_bytes bs) = bs"
proof -
  assume "length bs = 16"
  with be_val_less [of bs] have "be_val bs < 2 ^ LENGTH(128)" by simp
  then have "unat (of_nat (be_val bs) :: uuid) = be_val bs"
    by (simp add: unsigned_of_nat take_bit_nat_eq_self)
  then show ?thesis using \<open>length bs = 16\<close> be_bytes_be_val [of bs]
    by (simp add: uuid_bytes_def uuid_of_bytes_def)
qed

lemma key_bytes_inj [simp]: "key_bytes u = key_bytes v \<longleftrightarrow> u = v"
  by (metis key_of_key_bytes)

section \<open>Lists\<close>

lemma take_append_exact: "length xs = n \<Longrightarrow> take n (xs @ ys) = xs"
  by simp

lemma drop_append_exact: "length xs = n \<Longrightarrow> drop n (xs @ ys) = ys"
  by simp

lemma sum_list_map_le_member:
  fixes f :: "'a \<Rightarrow> nat"
  assumes "x \<in> set xs"
  shows "f x \<le> sum_list (map f xs)"
  using assms by (induction xs) auto

text \<open>
  \<open>UPDATE t SET f WHERE P\<close> on a table of rows, and the number of rows it changes.
\<close>

definition update_where :: "('a \<Rightarrow> bool) \<Rightarrow> ('a \<Rightarrow> 'a) \<Rightarrow> 'a list \<Rightarrow> 'a list" where
  "update_where P f xs = map (\<lambda>x. if P x then f x else x) xs"

definition count_where :: "('a \<Rightarrow> bool) \<Rightarrow> 'a list \<Rightarrow> nat" where
  "count_where P xs = length (filter P xs)"

lemma update_where_Nil [simp]: "update_where P f [] = []"
  by (simp add: update_where_def)

lemma update_where_Cons [simp]:
  "update_where P f (x # xs) = (if P x then f x else x) # update_where P f xs"
  by (simp add: update_where_def)

lemma length_update_where [simp]: "length (update_where P f xs) = length xs"
  by (simp add: update_where_def)

lemma update_where_none: "\<forall>x\<in>set xs. \<not> P x \<Longrightarrow> update_where P f xs = xs"
  by (simp add: update_where_def map_idI)

lemma count_where_0: "count_where P xs = 0 \<longleftrightarrow> (\<forall>x\<in>set xs. \<not> P x)"
  by (simp add: count_where_def filter_empty_conv)

lemma filter_single: "distinct xs \<Longrightarrow> a \<in> set xs \<Longrightarrow> filter (\<lambda>b. b = a) xs = [a]"
  by (induction xs) (auto simp: filter_empty_conv)

end
