(* ===== verification/Go_Strings.thy ===== *)
theory Go_Strings
  imports Prelude
begin

text \<open>
  The functions of Go's packages \<open>strings\<close>, \<open>strconv\<close> and \<open>unicode/utf8\<close> that the program
  calls, on byte strings.
\<close>

section \<open>Prefixes, splitting\<close>

definition has_prefix :: "string \<Rightarrow> string \<Rightarrow> bool" where
  "has_prefix p s \<longleftrightarrow> take (length p) s = p"

definition has_suffix :: "string \<Rightarrow> string \<Rightarrow> bool" where
  "has_suffix p s \<longleftrightarrow> has_prefix (rev p) (rev s)"

definition trim_prefix :: "string \<Rightarrow> string \<Rightarrow> string" where
  "trim_prefix p s = (if has_prefix p s then drop (length p) s else s)"

definition trim_suffix :: "string \<Rightarrow> string \<Rightarrow> string" where
  "trim_suffix p s = (if has_suffix p s then take (length s - length p) s else s)"

definition cut_prefix :: "string \<Rightarrow> string \<Rightarrow> string \<times> bool" where
  "cut_prefix p s = (if has_prefix p s then (drop (length p) s, True) else (s, False))"

lemma has_prefix_append [simp]: "has_prefix p (p @ s)"
  by (simp add: has_prefix_def)

lemma has_prefix_iff: "has_prefix p s \<longleftrightarrow> (\<exists>r. s = p @ r)"
  by (metis append_eq_conv_conj has_prefix_def append_take_drop_id)

lemma cut_prefix_append [simp]: "cut_prefix p (p @ s) = (s, True)"
  by (simp add: cut_prefix_def)

lemma cut_prefix_True: "cut_prefix p s = (r, True) \<longleftrightarrow> s = p @ r"
  by (auto simp: cut_prefix_def has_prefix_iff split: if_splits)

fun contains_string :: "string \<Rightarrow> string \<Rightarrow> bool" where
  "contains_string p [] = (p = [])"
| "contains_string p (c # s) = (has_prefix p (c # s) \<or> contains_string p s)"

text \<open>\<open>strings.Split\<close> and \<open>strings.SplitN\<close> with a one-byte separator.\<close>

fun split_on :: "char \<Rightarrow> string \<Rightarrow> string list" where
  "split_on c [] = [[]]"
| "split_on c (x # xs) =
     (if x = c then [] # split_on c xs
      else (x # hd (split_on c xs)) # tl (split_on c xs))"

fun split_n :: "nat \<Rightarrow> char \<Rightarrow> string \<Rightarrow> string list" where
  "split_n 0 c s = []"
| "split_n (Suc 0) c s = [s]"
| "split_n (Suc (Suc n)) c s =
     (let p = takeWhile (\<lambda>x. x \<noteq> c) s
      in if length p = length s then [s]
         else p # split_n (Suc n) c (drop (Suc (length p)) s))"

primrec join_with :: "string \<Rightarrow> string list \<Rightarrow> string" where
  "join_with sep [] = []"
| "join_with sep (x # xs) = (if xs = [] then x else x @ sep @ join_with sep xs)"

lemma split_on_not_Nil [simp]: "split_on c s \<noteq> []"
  by (cases s) auto

lemma split_on_no_sep: "c \<notin> set s \<Longrightarrow> split_on c s = [s]"
  by (induction s) auto

lemma split_on_append:
  "c \<notin> set p \<Longrightarrow> split_on c (p @ c # s) = p # split_on c s"
  by (induction p) auto

lemma join_split: "join_with [c] (split_on c s) = s"
proof (induction s)
  case (Cons x s)
  show ?case
    by (cases "split_on c s") (use Cons in \<open>auto\<close>)
qed simp

lemma split_on_join:
  assumes "xs \<noteq> []" and "\<And>x. x \<in> set xs \<Longrightarrow> c \<notin> set x"
  shows "split_on c (join_with [c] xs) = xs"
  using assms by (induction xs) (auto simp: split_on_no_sep split_on_append)

lemma split_on_member_no_sep: "p \<in> set (split_on c s) \<Longrightarrow> c \<notin> set p"
proof (induction s arbitrary: p)
  case (Cons x s)
  obtain h t where st: "split_on c s = h # t" by (cases "split_on c s") auto
  show ?case using Cons.prems Cons.IH by (auto simp: st split: if_splits)
qed simp

lemma split_n_sep:
  "c \<notin> set p \<Longrightarrow> split_n (Suc (Suc n)) c (p @ c # s) = p # split_n (Suc n) c s"
proof -
  assume "c \<notin> set p"
  then have "takeWhile (\<lambda>x. x \<noteq> c) (p @ c # s) = p"
    by (induction p) auto
  then show ?thesis by simp
qed

section \<open>TrimSpace\<close>

text \<open>
  The UTF-8 encodings of the code points \<open>unicode.IsSpace\<close> accepts. A prefix or a suffix of a
  string that is one of them is exactly what \<open>DecodeRuneInString\<close> or
  \<open>DecodeLastRuneInString\<close> would decode there.
\<close>

definition space_encodings :: "string list" where
  "space_encodings =
     map (map byte_of)
       ([[9], [10], [11], [12], [13], [32], [0xC2, 0x85], [0xC2, 0xA0], [0xE1, 0x9A, 0x80]]
        @ map (\<lambda>k. [0xE2, 0x80, 0x80 + k]) [0..<11]
        @ [[0xE2, 0x80, 0xA8], [0xE2, 0x80, 0xA9], [0xE2, 0x80, 0xAF], [0xE2, 0x81, 0x9F],
           [0xE3, 0x80, 0x80]])"

definition leading_space :: "string list \<Rightarrow> string \<Rightarrow> nat" where
  "leading_space encs s =
     (case List.find (\<lambda>e. has_prefix e s) encs of None \<Rightarrow> 0 | Some e \<Rightarrow> length e)"

function trim_left_by :: "string list \<Rightarrow> string \<Rightarrow> string" where
  "trim_left_by encs s =
     (let n = leading_space encs s in if n = 0 \<or> s = [] then s else trim_left_by encs (drop n s))"
  by pat_completeness auto
termination
  by (relation "measure (\<lambda>(encs, s). length s)") auto

declare trim_left_by.simps [simp del]

definition trim_space :: "string \<Rightarrow> string" where
  "trim_space s =
     rev (trim_left_by (map rev space_encodings) (rev (trim_left_by space_encodings s)))"

lemma trim_left_by_suffix: "\<exists>k. trim_left_by encs s = drop k s"
proof (induction encs s rule: trim_left_by.induct)
  case (1 encs s)
  show ?case
  proof (cases "leading_space encs s = 0 \<or> s = []")
    case True
    then have "trim_left_by encs s = drop 0 s" by (subst trim_left_by.simps) auto
    then show ?thesis ..
  next
    case False
    then have "trim_left_by encs s = trim_left_by encs (drop (leading_space encs s) s)"
      by (subst trim_left_by.simps) (auto simp: Let_def)
    with 1 False show ?thesis by (auto simp: Let_def)
  qed
qed

lemma trim_left_by_fixed:
  "leading_space encs s = 0 \<Longrightarrow> trim_left_by encs s = s"
  by (subst trim_left_by.simps) (simp add: Let_def)

lemma trim_left_by_result: "leading_space encs (trim_left_by encs s) = 0 \<or> trim_left_by encs s = []"
proof (induction encs s rule: trim_left_by.induct)
  case (1 encs s)
  show ?case
  proof (cases "leading_space encs s = 0 \<or> s = []")
    case True
    then have "trim_left_by encs s = s" by (subst trim_left_by.simps) (auto simp: Let_def)
    with True show ?thesis by auto
  next
    case False
    then have "trim_left_by encs s = trim_left_by encs (drop (leading_space encs s) s)"
      by (subst trim_left_by.simps) (auto simp: Let_def)
    with 1 False show ?thesis by (auto simp: Let_def)
  qed
qed

text \<open>A string of ASCII letters, digits and punctuation at both ends is its own trimming.\<close>

definition plain_char :: "char \<Rightarrow> bool" where
  "plain_char c \<longleftrightarrow> 32 < byte_val c \<and> byte_val c < 128"

lemma space_encodings_first:
  assumes "e \<in> set space_encodings"
  shows "e \<noteq> [] \<and> \<not> plain_char (hd e) \<and> \<not> plain_char (last e)"
  using assms by (auto simp: space_encodings_def plain_char_def upt_rec)

lemma leading_space_plain:
  assumes "plain_char c"
  shows "leading_space space_encodings (c # s) = 0"
    and "leading_space (map rev space_encodings) (c # s) = 0"
proof -
  have "\<not> has_prefix e (c # s)" if "e \<in> set space_encodings" for e
    using space_encodings_first [OF that] assms
    by (cases e) (auto simp: has_prefix_def)
  then show "leading_space space_encodings (c # s) = 0"
    by (auto simp: leading_space_def find_None_iff split: option.split dest!: sym [of None] intro: find_None_iff [THEN iffD2] dest: find_Some_iff [THEN iffD1])
  have "\<not> has_prefix (rev e) (c # s)" if "e \<in> set space_encodings" for e
    using space_encodings_first [OF that] assms
    by (cases e rule: rev_cases) (auto simp: has_prefix_def)
  then show "leading_space (map rev space_encodings) (c # s) = 0"
    by (auto simp: leading_space_def split: option.split dest!: find_Some_iff [THEN iffD1])
qed

lemma trim_space_plain:
  assumes "s = [] \<or> plain_char (hd s) \<and> plain_char (last s)"
  shows "trim_space s = s"
proof (cases s)
  case Nil
  then show ?thesis by (simp add: trim_space_def trim_left_by.simps)
next
  case (Cons c r)
  have "trim_left_by space_encodings s = s"
    using assms Cons by (auto intro!: trim_left_by_fixed leading_space_plain)
  moreover obtain d q where "rev s = d # q" and "d = last s"
    using Cons by (metis last_rev list.sel(1) rev_is_Nil_conv list.exhaust hd_rev list.distinct(1))
  ultimately show ?thesis
    using assms Cons leading_space_plain(2) [of d q]
    by (auto simp: trim_space_def trim_left_by_fixed)
       (metis list.distinct(1) rev.simps(2) rev_rev_ident trim_left_by_fixed)
qed

section \<open>Decimal numbers\<close>

text \<open>\<open>strconv.Itoa\<close> and \<open>strconv.FormatInt\<close> in base 10.\<close>

definition digit_char :: "nat \<Rightarrow> char" where
  "digit_char d = byte_of (48 + d)"

definition is_digit :: "char \<Rightarrow> bool" where
  "is_digit c \<longleftrightarrow> 48 \<le> byte_val c \<and> byte_val c \<le> 57"

fun dec_nat :: "nat \<Rightarrow> string" where
  "dec_nat n = (if n < 10 then [digit_char n] else dec_nat (n div 10) @ [digit_char (n mod 10)])"

declare dec_nat.simps [simp del]

definition format_int :: "int \<Rightarrow> string" where
  "format_int i = (if i < 0 then CHR ''-'' # dec_nat (nat (- i)) else dec_nat (nat i))"

text \<open>
  \<open>strconv.ParseInt(s, 10, bits)\<close>: an optional sign, then at least one digit and nothing else,
  and a value in the range of the width; every other input is an error.
\<close>

definition digits_val :: "string \<Rightarrow> nat" where
  "digits_val s = foldl (\<lambda>a c. 10 * a + (byte_val c - 48)) 0 s"

definition parse_digits :: "string \<Rightarrow> nat option" where
  "parse_digits s = (if s = [] \<or> \<not> list_all is_digit s then None else Some (digits_val s))"

definition parse_int :: "nat \<Rightarrow> string \<Rightarrow> int option" where
  "parse_int bits s =
     (let neg = (s \<noteq> [] \<and> hd s = CHR ''-'');
          body = (if s \<noteq> [] \<and> (hd s = CHR ''-'' \<or> hd s = CHR ''+'') then tl s else s)
      in case parse_digits body of
           None \<Rightarrow> None
         | Some n \<Rightarrow>
             if neg then (if n \<le> 2 ^ (bits - 1) then Some (- int n) else None)
             else (if n < 2 ^ (bits - 1) then Some (int n) else None))"

abbreviation atoi :: "string \<Rightarrow> int option" where "atoi \<equiv> parse_int 64"

lemma digits_val_snoc: "digits_val (s @ [c]) = 10 * digits_val s + (byte_val c - 48)"
  by (simp add: digits_val_def)

lemma is_digit_digit_char: "d < 10 \<Longrightarrow> is_digit (digit_char d)"
  by (simp add: is_digit_def digit_char_def)

lemma dec_nat_digits: "list_all is_digit (dec_nat n)"
  by (induction n rule: dec_nat.induct)
     (subst dec_nat.simps, auto simp: is_digit_digit_char)

lemma dec_nat_not_Nil [simp]: "dec_nat n \<noteq> []"
  by (subst dec_nat.simps) simp

lemma digits_val_dec_nat: "digits_val (dec_nat n) = n"
proof (induction n rule: dec_nat.induct)
  case (1 n)
  show ?case
  proof (cases "n < 10")
    case True
    then show ?thesis
      by (subst dec_nat.simps) (simp add: digits_val_def digit_char_def)
  next
    case False
    then have "digits_val (dec_nat n) = 10 * (n div 10) + n mod 10"
      by (subst dec_nat.simps) (simp add: digits_val_snoc 1 digit_char_def)
    then show ?thesis by simp
  qed
qed

lemma parse_digits_dec_nat: "parse_digits (dec_nat n) = Some n"
  by (simp add: parse_digits_def dec_nat_digits digits_val_dec_nat)

lemma dec_nat_inj: "dec_nat m = dec_nat n \<longleftrightarrow> m = n"
  by (metis digits_val_dec_nat)

lemma digit_not_sign: "is_digit c \<Longrightarrow> c \<noteq> CHR ''-'' \<and> c \<noteq> CHR ''+''"
  by (auto simp: is_digit_def byte_val_def)

lemma hd_dec_nat: "is_digit (hd (dec_nat n))"
  using dec_nat_digits [of n] by (cases "dec_nat n") auto

lemma parse_format_int:
  assumes "in_int64 i"
  shows "parse_int 64 (format_int i) = Some i"
proof (cases "i < 0")
  case True
  with assms show ?thesis
    by (simp add: parse_int_def format_int_def parse_digits_dec_nat in_int64_def nat_le_iff)
next
  case False
  then have "nat i < 2 ^ 63" using assms by (simp add: in_int64_def nat_less_iff)
  with False show ?thesis
    using digit_not_sign [OF hd_dec_nat [of "nat i"]]
    by (simp add: parse_int_def format_int_def parse_digits_dec_nat)
qed

lemma parse_int_range:
  assumes "parse_int 64 s = Some i"
  shows "in_int64 i"
  using assms
  by (auto simp: parse_int_def Let_def in_int64_def split: option.splits if_splits)

lemma format_int_inj: "format_int i = format_int j \<longleftrightarrow> i = j"
proof
  assume "format_int i = format_int j"
  then show "i = j"
    using digit_not_sign [OF hd_dec_nat [of "nat i"]] digit_not_sign [OF hd_dec_nat [of "nat j"]]
    by (auto simp: format_int_def dec_nat_inj split: if_splits)
       (metis list.sel(1))+
qed simp

lemma format_int_chars: "c \<in> set (format_int i) \<Longrightarrow> is_digit c \<or> c = CHR ''-''"
  using dec_nat_digits by (auto simp: format_int_def list_all_iff split: if_splits)

section \<open>Characters\<close>

definition ascii_lower :: "char \<Rightarrow> char" where
  "ascii_lower c = (if 65 \<le> byte_val c \<and> byte_val c \<le> 90 then byte_of (byte_val c + 32) else c)"

text \<open>
  \<open>strings.ToLower\<close>: ASCII letters are mapped here; the Unicode tables that a string with other
  bytes needs are the argument \<open>unicode_lower\<close>.
\<close>

definition to_lower :: "(string \<Rightarrow> string) \<Rightarrow> string \<Rightarrow> string" where
  "to_lower unicode_lower s =
     (if list_all (\<lambda>c. byte_val c < 128) s then map ascii_lower s else unicode_lower s)"

text \<open>
  Whether \<open>unicode.IsControl\<close> holds of a rune of the string: a C0 byte, DEL, or the two bytes of a
  C1 character. (\<open>0xC2\<close> is never a continuation byte, so wherever it stands a rune begins.)
\<close>

fun has_control_rune :: "nat list \<Rightarrow> bool" where
  "has_control_rune [] = False"
| "has_control_rune (a # r) =
     (a < 32 \<or> a = 127 \<or> (a = 0xC2 \<and> r \<noteq> [] \<and> 0x80 \<le> hd r \<and> hd r < 0xA0) \<or> has_control_rune r)"

definition has_control :: "string \<Rightarrow> bool" where
  "has_control s = has_control_rune (map byte_val s)"

text \<open>\<open>utf8.ValidString\<close>: the number of continuation bytes a lead byte needs, and their ranges.\<close>

definition utf8_tail_ok :: "nat \<Rightarrow> nat list \<Rightarrow> bool" where
  "utf8_tail_ok a r =
     (let cont = (\<lambda>x. 0x80 \<le> x \<and> x \<le> 0xBF);
          lo = (if a = 0xE0 then 0xA0 else if a = 0xF0 then 0x90 else 0x80);
          hi = (if a = 0xED then 0x9F else if a = 0xF4 then 0x8F else 0xBF)
      in r \<noteq> [] \<and> lo \<le> hd r \<and> hd r \<le> hi \<and> list_all cont (tl r))"

definition utf8_need :: "nat \<Rightarrow> nat" where
  "utf8_need a =
     (if 0xC2 \<le> a \<and> a \<le> 0xDF then 1 else if 0xE0 \<le> a \<and> a \<le> 0xEF then 2
      else if 0xF0 \<le> a \<and> a \<le> 0xF4 then 3 else 0)"

function utf8_valid :: "nat list \<Rightarrow> bool" where
  "utf8_valid [] = True"
| "utf8_valid (a # r) =
     (if a < 128 then utf8_valid r
      else utf8_need a \<noteq> 0 \<and> utf8_need a \<le> length r \<and> utf8_tail_ok a (take (utf8_need a) r)
           \<and> utf8_valid (drop (utf8_need a) r))"
  by pat_completeness auto
termination by (relation "measure length") auto

definition valid_utf8 :: "string \<Rightarrow> bool" where
  "valid_utf8 s = utf8_valid (map byte_val s)"

end
