(* ===== verification/Go_Base64.thy ===== *)
theory Go_Base64
  imports Prelude
begin

text \<open>
  \<open>base64.RawURLEncoding\<close>: the URL alphabet without padding. \<open>EncodeToString\<close>, and
  \<open>DecodeString\<close> with and without \<open>Strict()\<close>. Go's decoder skips carriage returns and line
  feeds wherever they stand, in strict mode too; strict mode only refuses non-zero trailing bits.
\<close>

definition b64_char :: "nat \<Rightarrow> char" where
  "b64_char n =
     (if n < 26 then byte_of (65 + n)
      else if n < 52 then byte_of (71 + n)
      else if n < 62 then byte_of (n - 4)
      else if n = 62 then byte_of 45 else byte_of 95)"

definition b64_val :: "char \<Rightarrow> nat option" where
  "b64_val c =
     (let v = byte_val c
      in if 65 \<le> v \<and> v \<le> 90 then Some (v - 65)
         else if 97 \<le> v \<and> v \<le> 122 then Some (v - 71)
         else if 48 \<le> v \<and> v \<le> 57 then Some (v + 4)
         else if v = 45 then Some 62
         else if v = 95 then Some 63
         else None)"

fun b64_sextets :: "nat list \<Rightarrow> nat list" where
  "b64_sextets [] = []"
| "b64_sextets [a] = [a div 4, (a mod 4) * 16]"
| "b64_sextets [a, b] = [a div 4, (a mod 4) * 16 + b div 16, (b mod 16) * 4]"
| "b64_sextets (a # b # c # r) =
     (a div 4) # ((a mod 4) * 16 + b div 16) # ((b mod 16) * 4 + c div 64) # (c mod 64) # b64_sextets r"

definition b64_encode :: "bytes \<Rightarrow> string" where
  "b64_encode bs = map b64_char (b64_sextets (map byte_val bs))"

fun b64_octets :: "bool \<Rightarrow> nat list \<Rightarrow> nat list option" where
  "b64_octets strict [] = Some []"
| "b64_octets strict [a] = None"
| "b64_octets strict [a, b] =
     (if strict \<and> b mod 16 \<noteq> 0 then None else Some [a * 4 + b div 16])"
| "b64_octets strict [a, b, c] =
     (if strict \<and> c mod 4 \<noteq> 0 then None
      else Some [a * 4 + b div 16, (b mod 16) * 16 + c div 4])"
| "b64_octets strict (a # b # c # d # r) =
     (case b64_octets strict r of
        None \<Rightarrow> None
      | Some t \<Rightarrow> Some ((a * 4 + b div 16) # ((b mod 16) * 16 + c div 4) # ((c mod 4) * 64 + d) # t))"

primrec b64_vals :: "string \<Rightarrow> nat list option" where
  "b64_vals [] = Some []"
| "b64_vals (c # s) =
     (case b64_val c of
        None \<Rightarrow> None
      | Some v \<Rightarrow> (case b64_vals s of None \<Rightarrow> None | Some t \<Rightarrow> Some (v # t)))"

definition skip_newlines :: "string \<Rightarrow> string" where
  "skip_newlines = filter (\<lambda>c. byte_val c \<noteq> 10 \<and> byte_val c \<noteq> 13)"

definition b64_decode_with :: "bool \<Rightarrow> string \<Rightarrow> bytes option" where
  "b64_decode_with strict s =
     (case b64_vals (skip_newlines s) of
        None \<Rightarrow> None
      | Some vs \<Rightarrow> map_option (map byte_of) (b64_octets strict vs))"

abbreviation b64_decode :: "string \<Rightarrow> bytes option" where
  "b64_decode \<equiv> b64_decode_with False"

abbreviation b64_decode_strict :: "string \<Rightarrow> bytes option" where
  "b64_decode_strict \<equiv> b64_decode_with True"

section \<open>The alphabet\<close>

lemma b64_val_char: "n < 64 \<Longrightarrow> b64_val (b64_char n) = Some n"
  by (auto simp: b64_val_def b64_char_def Let_def)

lemma b64_char_val: "b64_val c = Some n \<Longrightarrow> b64_char n = c \<and> n < 64"
proof -
  assume h: "b64_val c = Some n"
  obtain v where v: "v < 256" "c = byte_of v" by (metis byte_of_val byte_val_less)
  show ?thesis
    using h v by (auto simp: b64_val_def b64_char_def Let_def split: if_splits)
qed

lemma b64_char_not_newline: "n < 64 \<Longrightarrow> byte_val (b64_char n) \<noteq> 10 \<and> byte_val (b64_char n) \<noteq> 13"
  by (auto simp: b64_char_def)

lemma b64_vals_map: "(\<And>v. v \<in> set vs \<Longrightarrow> v < 64) \<Longrightarrow> b64_vals (map b64_char vs) = Some vs"
  by (induction vs) (auto simp: b64_val_char)

lemma b64_vals_Some: "b64_vals s = Some vs \<Longrightarrow> s = map b64_char vs \<and> (\<forall>v\<in>set vs. v < 64)"
  by (induction s arbitrary: vs) (auto dest: b64_char_val split: option.splits)

lemma pack_div [simp]: "y < k \<Longrightarrow> (x * k + y) div k = (x::nat)"
  by simp

lemma pack_mod [simp]: "y < k \<Longrightarrow> (x * k + y) mod k = (y::nat)"
  by simp

lemma pack_less: "x < m \<Longrightarrow> y < k \<Longrightarrow> x * k + y < m * (k::nat)"
proof -
  assume "x < m" and y: "y < k"
  then have "(x + 1) * k \<le> m * k" by (intro mult_le_mono1) simp
  with y show ?thesis by simp
qed

lemma div_less_by: "a < m * k \<Longrightarrow> a div k < (m::nat)"
  by (simp add: less_mult_imp_div_less)

lemma b64_sextets_range:
  "\<forall>a\<in>set xs. a < 256 \<Longrightarrow> \<forall>v\<in>set (b64_sextets xs). v < 64"
proof (induction xs rule: b64_sextets.induct)
  case (4 a b c r)
  have "a mod 4 * 16 + b div 16 < 4 * 16" "b mod 16 * 4 + c div 64 < 16 * 4"
    by (rule pack_less; use 4 in \<open>simp add: div_less_by\<close>)+
  with 4 show ?case by (simp add: div_less_by)
next
  case (3 a b)
  have "a mod 4 * 16 + b div 16 < 4 * 16" "b mod 16 * 4 + 0 < 16 * 4"
    by (rule pack_less; use 3 in \<open>simp add: div_less_by\<close>)+
  with 3 show ?case by (simp add: div_less_by)
next
  case (2 a)
  have "a mod 4 * 16 + 0 < 4 * 16" by (rule pack_less) simp_all
  with 2 show ?case by (simp add: div_less_by)
qed simp

lemma b64_sextets_bytes: "v \<in> set (b64_sextets (map byte_val bs)) \<Longrightarrow> v < 64"
  using b64_sextets_range [of "map byte_val bs"] by simp

section \<open>Round trips\<close>

lemma b64_octets_sextets:
  "\<forall>a\<in>set xs. a < 256 \<Longrightarrow> b64_octets strict (b64_sextets xs) = Some xs"
proof (induction xs rule: b64_sextets.induct)
  case (3 a b)
  then have "b div 16 < 16" by (simp add: div_less_by)
  then show ?case by (simp add: div_mult_mod_eq)
next
  case (4 a b c r)
  then have "b div 16 < 16" "c div 64 < 4" by (simp_all add: div_less_by)
  with 4 show ?case by (simp add: div_mult_mod_eq)
qed (simp_all add: div_mult_mod_eq)

lemma b64_sextets_octets:
  "\<forall>v\<in>set vs. v < 64 \<Longrightarrow> b64_octets True vs = Some xs \<Longrightarrow>
     b64_sextets xs = vs \<and> (\<forall>x\<in>set xs. x < 256)"
proof (induction True vs arbitrary: xs rule: b64_octets.induct)
  case (3 a b)
  then have z: "b mod 16 = 0" and xs: "xs = [a * 4 + b div 16]" by (auto split: if_splits)
  have d: "b div 16 < 4" using 3 by (simp add: div_less_by)
  have "a * 4 + b div 16 < 64 * 4" by (rule pack_less) (use 3 d in auto)
  moreover have "b div 16 * 16 = b" using z by (simp add: mod_eq_0_iff_dvd)
  ultimately show ?case using d by (simp add: xs)
next
  case (4 a b c)
  then have z: "c mod 4 = 0" and xs: "xs = [a * 4 + b div 16, b mod 16 * 16 + c div 4]"
    by (auto split: if_splits)
  have d: "b div 16 < 4" "c div 4 < 16" using 4 by (simp_all add: div_less_by)
  have "a * 4 + b div 16 < 64 * 4" "b mod 16 * 16 + c div 4 < 16 * 16"
    by (rule pack_less; use 4 d in simp)+
  moreover have "c div 4 * 4 = c" using z by (simp add: mod_eq_0_iff_dvd)
  ultimately show ?case using d by (simp add: xs div_mult_mod_eq)
next
  case (5 a b c d r)
  then obtain t where t: "b64_octets True r = Some t"
    and xs: "xs = (a * 4 + b div 16) # (b mod 16 * 16 + c div 4) # (c mod 4 * 64 + d) # t"
    by (auto split: option.splits)
  have e: "b div 16 < 4" "c div 4 < 16" using 5 by (simp_all add: div_less_by)
  have "a * 4 + b div 16 < 64 * 4" "b mod 16 * 16 + c div 4 < 16 * 16" "c mod 4 * 64 + d < 4 * 64"
    by (rule pack_less; use 5 e in simp)+
  moreover have "b64_sextets t = r" "\<forall>x\<in>set t. x < 256" using 5 t by auto
  ultimately show ?case using e 5 by (simp add: xs div_mult_mod_eq)
qed auto

lemma skip_newlines_encode: "skip_newlines (b64_encode bs) = b64_encode bs"
  by (auto simp: skip_newlines_def b64_encode_def intro!: filter_True
      dest!: b64_sextets_bytes dest: b64_char_not_newline)

lemma b64_decode_encode [simp]: "b64_decode_with strict (b64_encode bs) = Some bs"
proof -
  have "b64_vals (b64_encode bs) = Some (b64_sextets (map byte_val bs))"
    by (simp add: b64_encode_def b64_vals_map b64_sextets_bytes)
  moreover have "b64_octets strict (b64_sextets (map byte_val bs)) = Some (map byte_val bs)"
    by (rule b64_octets_sextets) auto
  ultimately show ?thesis
    by (simp add: b64_decode_with_def skip_newlines_encode o_def)
qed

text \<open>A strictly decoded string is the encoding of the result, newlines apart.\<close>

lemma b64_decode_strict_canonical:
  assumes "b64_decode_strict s = Some bs"
  shows "b64_encode bs = skip_newlines s"
proof -
  from assms obtain vs xs where vs: "b64_vals (skip_newlines s) = Some vs"
    and xs: "b64_octets True vs = Some xs" and bs: "bs = map byte_of xs"
    by (auto simp: b64_decode_with_def split: option.splits)
  from b64_vals_Some [OF vs] have s: "skip_newlines s = map b64_char vs" and "\<forall>v\<in>set vs. v < 64"
    by auto
  from b64_sextets_octets [OF this(2) xs] have "b64_sextets xs = vs" and "\<forall>x\<in>set xs. x < 256" by auto
  then have "map byte_val bs = xs" by (auto simp: bs intro!: map_idI)
  with \<open>b64_sextets xs = vs\<close> s show ?thesis by (simp add: b64_encode_def)
qed

lemma b64_encode_inj [simp]: "b64_encode a = b64_encode b \<longleftrightarrow> a = b"
  by (metis b64_decode_encode option.inject)

lemma length_b64_sextets: "length (b64_sextets xs) = (4 * length xs + 2) div 3"
  by (induction xs rule: b64_sextets.induct) auto

lemma length_b64_encode: "length (b64_encode bs) = (4 * length bs + 2) div 3"
  by (simp add: b64_encode_def length_b64_sextets)

lemma b64_encode_Nil [simp]: "b64_encode bs = [] \<longleftrightarrow> bs = []"
proof
  assume "b64_encode bs = []"
  then have "(4 * length bs + 2) div 3 = 0" by (metis length_b64_encode list.size(3))
  then show "bs = []" by (cases bs) auto
qed (simp add: b64_encode_def)

lemma b64_encode_chars:
  assumes "c \<in> set (b64_encode bs)" shows "b64_val c \<noteq> None"
proof -
  from assms obtain v where "c = b64_char v" and "v \<in> set (b64_sextets (map byte_val bs))"
    by (auto simp: b64_encode_def)
  then show ?thesis using b64_sextets_bytes [of v bs] by (auto simp: b64_val_char)
qed

end
