(* ===== verification/Go_Crypto.thy ===== *)
theory Go_Crypto
  imports Prelude
begin

unbundle bit_operations_syntax

text \<open>
  The parts of Go's \<open>crypto\<close> packages the program uses, as executable functions on byte
  strings: SHA-256 (\<open>crypto/sha256\<close>, FIPS 180-4), HMAC (\<open>crypto/hmac\<close>, RFC 2104), and AES-256 in
  Galois/Counter mode with a 12-byte nonce and a 16-byte tag (\<open>crypto/aes\<close>, \<open>crypto/cipher\<close>,
  FIPS 197 and SP 800-38D).
  Two locales state what the rest of the program relies on: a \<open>mac\<close> of fixed length, and an
  \<open>aead\<close> whose opening of a sealed text returns it.
\<close>

section \<open>SHA-256\<close>

definition w32 :: "nat \<Rightarrow> 32 word" where "w32 n = of_nat n"

definition sha_k :: "32 word list" where
  "sha_k = [
  1116352408, 1899447441, 3049323471, 3921009573, 961987163, 1508970993, 2453635748, 2870763221,
  3624381080, 310598401, 607225278, 1426881987, 1925078388, 2162078206, 2614888103, 3248222580,
  3835390401, 4022224774, 264347078, 604807628, 770255983, 1249150122, 1555081692, 1996064986,
  2554220882, 2821834349, 2952996808, 3210313671, 3336571891, 3584528711, 113926993, 338241895,
  666307205, 773529912, 1294757372, 1396182291, 1695183700, 1986661051, 2177026350, 2456956037,
  2730485921, 2820302411, 3259730800, 3345764771, 3516065817, 3600352804, 4094571909, 275423344,
  430227734, 506948616, 659060556, 883997877, 958139571, 1322822218, 1537002063, 1747873779,
  1955562222, 2024104815, 2227730452, 2361852424, 2428436474, 2756734187, 3204031479, 3329325298]"

definition sha_h0 :: "32 word list" where
  "sha_h0 = [0x6a09e667, 0xbb67ae85, 0x3c6ef372, 0xa54ff53a, 0x510e527f, 0x9b05688c, 0x1f83d9ab,
             0x5be0cd19]"

definition rotr32 :: "nat \<Rightarrow> 32 word \<Rightarrow> 32 word" where
  "rotr32 n x = (drop_bit n x) OR (push_bit (32 - n) x)"

fun words_of :: "bytes \<Rightarrow> 32 word list" where
  "words_of (a # b # c # d # r) = w32 (be_val [a, b, c, d]) # words_of r"
| "words_of r = []"

text \<open>The message schedule, newest word first.\<close>

primrec sha_extend :: "nat \<Rightarrow> 32 word list \<Rightarrow> 32 word list" where
  "sha_extend 0 ws = ws"
| "sha_extend (Suc n) ws =
     (let w15 = ws ! 14; w2 = ws ! 1;
          s0 = rotr32 7 w15 XOR rotr32 18 w15 XOR drop_bit 3 w15;
          s1 = rotr32 17 w2 XOR rotr32 19 w2 XOR drop_bit 10 w2
      in sha_extend n ((ws ! 15 + s0 + ws ! 6 + s1) # ws))"

definition sha_round :: "32 word \<times> 32 word \<Rightarrow> 32 word list \<Rightarrow> 32 word list" where
  "sha_round kw st =
     (let a = st ! 0; b = st ! 1; c = st ! 2; d = st ! 3; e = st ! 4; f = st ! 5; g = st ! 6; h = st ! 7;
          s1 = rotr32 6 e XOR rotr32 11 e XOR rotr32 25 e;
          ch = (e AND f) XOR ((NOT e) AND g);
          t1 = h + s1 + ch + fst kw + snd kw;
          s0 = rotr32 2 a XOR rotr32 13 a XOR rotr32 22 a;
          mj = (a AND b) XOR (a AND c) XOR (b AND c);
          t2 = s0 + mj
      in [t1 + t2, a, b, c, d + t1, e, f, g])"

definition sha_block :: "bytes \<Rightarrow> 32 word list \<Rightarrow> 32 word list" where
  "sha_block blk st =
     map2 (+) st (fold sha_round (zip sha_k (rev (sha_extend 48 (rev (words_of blk))))) st)"

definition sha_pad :: "bytes \<Rightarrow> bytes" where
  "sha_pad m =
     (let z = (119 - length m mod 64) mod 64
      in m @ [byte_of 128] @ replicate z (byte_of 0) @ be_bytes 8 (8 * length m))"

function sha_blocks :: "bytes \<Rightarrow> 32 word list \<Rightarrow> 32 word list" where
  "sha_blocks m st = (if length m < 64 then st else sha_blocks (drop 64 m) (sha_block (take 64 m) st))"
  by pat_completeness auto
termination by (relation "measure (\<lambda>(m, st). length m)") auto

declare sha_blocks.simps [simp del]

definition sha256 :: "bytes \<Rightarrow> bytes" where
  "sha256 m = concat (map (\<lambda>w. be_bytes 4 (unat w)) (sha_blocks (sha_pad m) sha_h0))"

lemma length_sha_block: "length (fold sha_round xs st) = 8" if "length st = 8" for xs st
  using that by (induction xs arbitrary: st) (auto simp: sha_round_def Let_def)

lemma length_sha_blocks: "length st = 8 \<Longrightarrow> length (sha_blocks m st) = 8"
proof (induction m st rule: sha_blocks.induct)
  case (1 m st)
  then show ?case
    by (subst sha_blocks.simps) (auto simp: sha_block_def length_sha_block)
qed

lemma length_sha256 [simp]: "length (sha256 m) = 32"
proof -
  have "length (concat (map (\<lambda>w. be_bytes 4 (unat (w :: 32 word))) ws)) = 4 * length ws" for ws
    by (induction ws) auto
  then show ?thesis by (simp add: sha256_def length_sha_blocks sha_h0_def)
qed

section \<open>HMAC\<close>

definition xor_byte :: "char \<Rightarrow> char \<Rightarrow> char" where
  "xor_byte a b = byte_of (byte_val a XOR byte_val b)"

definition hmac_key :: "bytes \<Rightarrow> bytes" where
  "hmac_key k = (let k' = (if length k > 64 then sha256 k else k)
                 in k' @ replicate (64 - length k') (byte_of 0))"

definition hmac_sha256 :: "bytes \<Rightarrow> bytes \<Rightarrow> bytes" where
  "hmac_sha256 k m =
     sha256 (map (xor_byte (byte_of 0x5c)) (hmac_key k)
             @ sha256 (map (xor_byte (byte_of 0x36)) (hmac_key k) @ m))"

lemma length_hmac [simp]: "length (hmac_sha256 k m) = 32"
  by (simp add: hmac_sha256_def)

section \<open>AES-256\<close>

type_synonym block = "nat list"

definition xtime :: "nat \<Rightarrow> nat" where
  "xtime a = (if a < 128 then 2 * a else (2 * a - 256) XOR 0x1b)"

primrec gmul8 :: "nat \<Rightarrow> nat \<Rightarrow> nat \<Rightarrow> nat" where
  "gmul8 0 a b = 0"
| "gmul8 (Suc n) a b = (if odd b then a else 0) XOR gmul8 n (xtime a) (b div 2)"

abbreviation gmul :: "nat \<Rightarrow> nat \<Rightarrow> nat" where "gmul \<equiv> gmul8 8"

text \<open>The S-box: inversion in the field (the 254th power), then the affine map.\<close>

definition ginv :: "nat \<Rightarrow> nat" where
  "ginv a = (let a2 = gmul a a; a4 = gmul a2 a2; a8 = gmul a4 a4; a16 = gmul a8 a8;
                 a32 = gmul a16 a16; a64 = gmul a32 a32; a128 = gmul a64 a64
             in gmul a128 (gmul a64 (gmul a32 (gmul a16 (gmul a8 (gmul a4 a2))))))"

definition rotl8 :: "nat \<Rightarrow> nat \<Rightarrow> nat" where
  "rotl8 k a = (a * 2 ^ k) mod 256 + (a * 2 ^ k) div 256"

definition sbox :: "nat \<Rightarrow> nat" where
  "sbox a = (let b = ginv a in b XOR rotl8 1 b XOR rotl8 2 b XOR rotl8 3 b XOR rotl8 4 b XOR 0x63)"

definition xor_list :: "nat list \<Rightarrow> nat list \<Rightarrow> nat list" where
  "xor_list = map2 (XOR)"

text \<open>The key schedule produces 60 four-byte words; \<open>ws\<close> holds them newest first.\<close>

primrec aes_expand :: "nat \<Rightarrow> nat \<Rightarrow> nat \<Rightarrow> nat list list \<Rightarrow> nat list list" where
  "aes_expand 0 i rcon ws = ws"
| "aes_expand (Suc n) i rcon ws =
     (let t = hd ws;
          t' = (if i mod 8 = 0
                then xor_list (map sbox (rotate1 t)) [rcon, 0, 0, 0]
                else if i mod 8 = 4 then map sbox t else t)
      in aes_expand n (Suc i) (if i mod 8 = 0 then xtime rcon else rcon)
           (xor_list (ws ! 7) t' # ws))"

fun chunks :: "nat \<Rightarrow> 'a list \<Rightarrow> 'a list list" where
  "chunks k xs = (if k = 0 \<or> xs = [] then [] else take k xs # chunks k (drop k xs))"

declare chunks.simps [simp del]

definition aes_round_keys :: "bytes \<Rightarrow> block list" where
  "aes_round_keys key =
     map concat (chunks 4 (rev (aes_expand 52 8 1 (rev (chunks 4 (map byte_val key))))))"

definition shift_rows :: "block \<Rightarrow> block" where
  "shift_rows s = map (\<lambda>i. s ! ((i + 4 * (i mod 4)) mod 16)) [0..<16]"

definition mix_column :: "nat list \<Rightarrow> nat list" where
  "mix_column c =
     (let a = c ! 0; b = c ! 1; d = c ! 2; e = c ! 3
      in [gmul 2 a XOR gmul 3 b XOR d XOR e, a XOR gmul 2 b XOR gmul 3 d XOR e,
          a XOR b XOR gmul 2 d XOR gmul 3 e, gmul 3 a XOR b XOR d XOR gmul 2 e])"

definition aes_round :: "block \<Rightarrow> block \<Rightarrow> block" where
  "aes_round rk s = xor_list rk (concat (map mix_column (chunks 4 (shift_rows (map sbox s)))))"

definition aes_encrypt :: "bytes \<Rightarrow> block \<Rightarrow> block" where
  "aes_encrypt key s =
     (let rks = aes_round_keys key;
          s0 = xor_list (hd rks) s;
          s13 = fold aes_round (butlast (tl rks)) s0
      in xor_list (last rks) (shift_rows (map sbox s13)))"

section \<open>Galois/Counter mode\<close>

definition block_val :: "block \<Rightarrow> nat" where
  "block_val b = foldl (\<lambda>a x. 256 * a + x) 0 b"

definition val_block :: "nat \<Rightarrow> block" where
  "val_block n = map byte_val (be_bytes 16 n)"

text \<open>Multiplication in the field of GHASH, on the numbers whose most significant bit is \<open>x\<^sup>0\<close>.\<close>

primrec gf_loop :: "nat \<Rightarrow> nat \<Rightarrow> nat \<Rightarrow> nat \<Rightarrow> nat" where
  "gf_loop 0 x v z = z"
| "gf_loop (Suc n) x v z =
     gf_loop n x (if odd v then (v div 2) XOR (0xe1 * 2 ^ 120) else v div 2)
       (if odd (x div 2 ^ n) then z XOR v else z)"

definition gf_mult :: "nat \<Rightarrow> nat \<Rightarrow> nat" where
  "gf_mult x y = gf_loop 128 x y 0"

definition pad16 :: "nat list \<Rightarrow> nat list" where
  "pad16 b = b @ replicate ((16 - length b mod 16) mod 16) 0"

definition ghash :: "nat \<Rightarrow> nat list \<Rightarrow> nat" where
  "ghash h m = fold (\<lambda>b y. gf_mult (y XOR block_val b) h) (chunks 16 m) 0"

definition ctr_block :: "bytes \<Rightarrow> nat \<Rightarrow> block" where
  "ctr_block nonce i = map byte_val (nonce @ be_bytes 4 i)"

definition key_stream :: "bytes \<Rightarrow> bytes \<Rightarrow> nat \<Rightarrow> bytes" where
  "key_stream key nonce n =
     take n (map byte_of (concat (map (\<lambda>i. aes_encrypt key (ctr_block nonce (i + 2))) [0..<(n + 15) div 16])))"

definition gcm_crypt :: "bytes \<Rightarrow> bytes \<Rightarrow> bytes \<Rightarrow> bytes" where
  "gcm_crypt key nonce m = map2 xor_byte m (key_stream key nonce (length m))"

definition gcm_tag :: "bytes \<Rightarrow> bytes \<Rightarrow> bytes \<Rightarrow> bytes \<Rightarrow> bytes" where
  "gcm_tag key nonce aad ct =
     (let h = block_val (aes_encrypt key (replicate 16 0));
          m = pad16 (map byte_val aad) @ pad16 (map byte_val ct)
              @ map byte_val (be_bytes 8 (8 * length aad) @ be_bytes 8 (8 * length ct));
          s = ghash h m
      in be_bytes 16 (s XOR block_val (aes_encrypt key (ctr_block nonce 1))))"

text \<open>\<open>gcm.Seal(nil, nonce, plaintext, aad)\<close> and \<open>gcm.Open(nil, nonce, ciphertext, aad)\<close>.\<close>

definition gcm_seal :: "bytes \<Rightarrow> bytes \<Rightarrow> bytes \<Rightarrow> bytes \<Rightarrow> bytes" where
  "gcm_seal key nonce m aad =
     (let ct = gcm_crypt key nonce m in ct @ gcm_tag key nonce aad ct)"

definition gcm_open :: "bytes \<Rightarrow> bytes \<Rightarrow> bytes \<Rightarrow> bytes \<Rightarrow> bytes option" where
  "gcm_open key nonce c aad =
     (if length c < 16 then None
      else let ct = take (length c - 16) c
           in if drop (length c - 16) c = gcm_tag key nonce aad ct
              then Some (gcm_crypt key nonce ct) else None)"

section \<open>Interfaces\<close>

text \<open>A message authentication code with a 32-byte result.\<close>

locale mac =
  fixes mac :: "bytes \<Rightarrow> bytes \<Rightarrow> bytes"
  assumes length_mac: "length (mac k m) = 32"
begin

text \<open>A message tagged with its code checks, and a tagged message determines its text.\<close>

definition tagged :: "bytes \<Rightarrow> bytes \<Rightarrow> bytes" where
  "tagged k m = m @ mac k m"

definition untag :: "bytes \<Rightarrow> nat \<Rightarrow> bytes \<Rightarrow> bytes option" where
  "untag k n b =
     (if length b = n + 32 \<and> drop n b = mac k (take n b) then Some (take n b) else None)"

lemma untag_tagged: "length m = n \<Longrightarrow> untag k n (tagged k m) = Some m"
  by (simp add: untag_def tagged_def length_mac)

lemma untag_Some: "untag k n b = Some m \<Longrightarrow> b = tagged k m \<and> length m = n"
  by (auto simp: untag_def tagged_def min_def split: if_splits) (metis append_take_drop_id)

lemma length_tagged: "length (tagged k m) = length m + 32"
  by (simp add: tagged_def length_mac)

lemma untag_iff: "untag k n b = Some m \<longleftrightarrow> b = tagged k m \<and> length m = n"
  using untag_tagged untag_Some by blast

end

text \<open>
  Authenticated encryption: opening reverses sealing, and nothing else opens. The second law says
  that a text that opens is the sealing of its result under the same nonce and associated data.
\<close>

locale aead =
  fixes seal :: "bytes \<Rightarrow> bytes \<Rightarrow> bytes \<Rightarrow> bytes \<Rightarrow> bytes"
    and unseal :: "bytes \<Rightarrow> bytes \<Rightarrow> bytes \<Rightarrow> bytes \<Rightarrow> bytes option"
  assumes unseal_seal: "length k = 32 \<Longrightarrow> unseal k n (seal k n m a) a = Some m"
    and unseal_only: "length k = 32 \<Longrightarrow> unseal k n c a = Some m \<Longrightarrow> c = seal k n m a"
    and length_seal: "length k = 32 \<Longrightarrow> length (seal k n m a) = length m + 16"
begin

lemma unseal_iff: "length k = 32 \<Longrightarrow> unseal k n c a = Some m \<longleftrightarrow> c = seal k n m a"
  using unseal_seal unseal_only by blast

lemma unseal_length:
  "length k = 32 \<Longrightarrow> unseal k n c a = Some m \<Longrightarrow> length c = length m + 16"
  by (simp add: unseal_iff length_seal)

lemma seal_inj: "length k = 32 \<Longrightarrow> seal k n m a = seal k n m' a \<Longrightarrow> m = m'"
  by (metis option.inject unseal_seal)

end

section \<open>HMAC and GCM meet the interfaces\<close>

interpretation hmac: mac hmac_sha256
  by unfold_locales simp

lemma chunks_exact:
  assumes "0 < k" and "k dvd length xs"
  shows "(\<forall>c\<in>set (chunks k xs). length c = k \<and> set c \<subseteq> set xs) \<and> (xs \<noteq> [] \<longrightarrow> chunks k xs \<noteq> [])"
  using assms
proof (induction k xs rule: chunks.induct)
  case (1 k xs)
  show ?case
  proof (cases "xs = []")
    case True
    then show ?thesis by (simp add: chunks.simps)
  next
    case False
    with 1(2,3) have le: "k \<le> length xs" by (simp add: dvd_imp_le)
    have "k dvd length (drop k xs)" using 1(3) le by (simp add: dvd_diff_nat)
    with 1 False have "\<forall>c\<in>set (chunks k (drop k xs)). length c = k \<and> set c \<subseteq> set (drop k xs)"
      by blast
    then have "\<forall>c\<in>set (chunks k (drop k xs)). length c = k \<and> set c \<subseteq> set xs"
      by (blast dest: in_set_dropD)
    moreover have "length (take k xs) = k" "set (take k xs) \<subseteq> set xs"
      using le by (auto dest: in_set_takeD)
    moreover have "chunks k xs = take k xs # chunks k (drop k xs)"
      using False 1(2) by (subst chunks.simps) simp
    ultimately show ?thesis by (metis list.distinct(1) set_ConsD)
  qed
qed

lemma length_chunks:
  assumes "0 < k" and "k dvd length xs"
  shows "length (chunks k xs) = length xs div k"
  using assms
proof (induction k xs rule: chunks.induct)
  case (1 k xs)
  show ?case
  proof (cases "xs = []")
    case True
    then show ?thesis by (simp add: chunks.simps)
  next
    case False
    with 1(2,3) have le: "k \<le> length xs" by (simp add: dvd_imp_le)
    have "chunks k xs = take k xs # chunks k (drop k xs)"
      using False 1(2) by (subst chunks.simps) simp
    with 1 False le show ?thesis by (simp add: le_div_geq dvd_diff_nat)
  qed
qed

lemma length_aes_expand: "length (aes_expand n i rc ws) = n + length ws"
  by (induction n arbitrary: i rc ws) (simp_all add: Let_def)

lemma aes_expand_words:
  assumes "8 \<le> length ws" and "\<forall>w\<in>set ws. length w = 4"
  shows "\<forall>w\<in>set (aes_expand n i rc ws). length w = 4"
  using assms
proof (induction n arbitrary: i rc ws)
  case (Suc n)
  have "ws \<noteq> []" using Suc.prems(1) by auto
  then have l: "length (hd ws) = 4" "length (ws ! 7) = 4" using Suc.prems by auto
  let ?t = "if i mod 8 = 0 then xor_list (map sbox (rotate1 (hd ws))) [rc, 0, 0, 0]
            else if i mod 8 = 4 then map sbox (hd ws) else hd ws"
  have "length (xor_list (ws ! 7) ?t) = 4" using l by (simp add: xor_list_def)
  then have "8 \<le> length (xor_list (ws ! 7) ?t # ws)"
    and "\<forall>w\<in>set (xor_list (ws ! 7) ?t # ws). length w = 4"
    using Suc.prems by (simp, metis set_ConsD)
  then show ?case unfolding aes_expand.simps Let_def by (rule Suc.IH)
qed simp

lemma length_concat_const: "\<forall>x\<in>set xs. length x = k \<Longrightarrow> length (concat xs) = k * length xs"
  by (induction xs) auto

lemma length_last_round_key:
  assumes "length key = 32"
  shows "length (last (aes_round_keys key)) = 16"
proof -
  let ?w = "rev (chunks 4 (map byte_val key))"
  let ?ws = "rev (aes_expand 52 8 1 ?w)"
  have four: "\<forall>w\<in>set ?w. length w = 4"
    using chunks_exact [of 4 "map byte_val key"] assms by auto
  have "length ?w = 8"
    using length_chunks [of 4 "map byte_val key"] assms by simp
  then have ws4: "\<forall>w\<in>set ?ws. length w = 4" and len: "length ?ws = 60"
    using aes_expand_words [OF _ four, of 52 8 1] by (simp_all add: length_aes_expand)
  have ch: "\<forall>c\<in>set (chunks 4 ?ws). length c = 4 \<and> set c \<subseteq> set ?ws" "chunks 4 ?ws \<noteq> []"
  proof -
    have "?ws \<noteq> []" using len by (metis list.size(3) zero_neq_numeral)
    moreover have "0 < (4::nat)" "4 dvd length ?ws" using len by simp_all
    ultimately show "\<forall>c\<in>set (chunks 4 ?ws). length c = 4 \<and> set c \<subseteq> set ?ws" "chunks 4 ?ws \<noteq> []"
      using chunks_exact [of 4 ?ws] by blast+
  qed
  have "length (concat c) = 16" if "c \<in> set (chunks 4 ?ws)" for c
  proof -
    have "\<forall>w\<in>set c. length w = 4" using ch(1) that ws4 by blast
    from length_concat_const [OF this] show ?thesis using ch(1) that by simp
  qed
  moreover note ch(2)
  ultimately show ?thesis by (simp add: aes_round_keys_def last_map)
qed

lemma length_aes_encrypt: "length key = 32 \<Longrightarrow> length (aes_encrypt key b) = 16"
  by (simp add: aes_encrypt_def Let_def xor_list_def length_last_round_key shift_rows_def)

lemma length_key_stream: "length key = 32 \<Longrightarrow> length (key_stream key nonce n) = n"
proof -
  assume "length key = 32"
  then have "length (concat (map (\<lambda>i. aes_encrypt key (ctr_block nonce (i + 2))) [0..<(n + 15) div 16]))
        = 16 * ((n + 15) div 16)"
    by (subst length_concat_const [where k = 16]) (auto simp: length_aes_encrypt)
  moreover have "n \<le> 16 * ((n + 15) div 16)" by presburger
  ultimately show ?thesis by (simp add: key_stream_def)
qed

lemma xor_less_256:
  assumes "a < 256" and "b < 256"
  shows "a XOR b < (256::nat)"
proof -
  have "take_bit 8 a = a" "take_bit 8 b = b"
    using assms by (simp_all add: take_bit_nat_eq_self_iff)
  then have "take_bit 8 (a XOR b) = a XOR b" by simp
  then have "a XOR b < 2 ^ 8" by (simp only: take_bit_nat_eq_self_iff)
  then show ?thesis by simp
qed

lemma xor_byte_cancel [simp]: "xor_byte (xor_byte a b) b = a"
  by (simp add: xor_byte_def xor_less_256 xor.assoc)

lemma map2_xor_cancel: "length a = length b \<Longrightarrow> map2 xor_byte (map2 xor_byte a b) b = a"
  by (induction a b rule: list_induct2) auto

lemma length_gcm_crypt: "length key = 32 \<Longrightarrow> length (gcm_crypt key nonce m) = length m"
  by (simp add: gcm_crypt_def length_key_stream)

lemma gcm_crypt_involution:
  "length key = 32 \<Longrightarrow> gcm_crypt key nonce (gcm_crypt key nonce m) = m"
  by (simp add: gcm_crypt_def length_key_stream map2_xor_cancel)

lemma length_gcm_tag [simp]: "length (gcm_tag key nonce aad ct) = 16"
  by (simp add: gcm_tag_def Let_def)

interpretation gcm: aead gcm_seal gcm_open
proof unfold_locales
  fix k n m a assume "length (k::bytes) = 32"
  then show "gcm_open k n (gcm_seal k n m a) a = Some m"
    by (simp add: gcm_open_def gcm_seal_def Let_def length_gcm_crypt gcm_crypt_involution)
next
  fix k n c a m assume k: "length (k::bytes) = 32" and o: "gcm_open k n c a = Some m"
  let ?ct = "take (length c - 16) c"
  from o have "c = ?ct @ gcm_tag k n a ?ct" and "m = gcm_crypt k n ?ct"
    by (auto simp: gcm_open_def Let_def split: if_splits) (metis append_take_drop_id)
  then show "c = gcm_seal k n m a"
    using k by (simp add: gcm_seal_def Let_def gcm_crypt_involution)
next
  fix k n m a assume "length (k::bytes) = 32"
  then show "length (gcm_seal k n m a) = length m + 16"
    by (simp add: gcm_seal_def Let_def length_gcm_crypt)
qed

end
