(* ===== verification/Signing.thy ===== *)
theory Signing
  imports Go_Strings Go_Base64 Go_Crypto
begin

text \<open>
  \<open>internal/signing/signing.go\<close>: the canonical text of a delivery, its HMAC signature, the
  signature header, and the receiver's verification.
\<close>

datatype signing_error = Err_signature_invalid

definition canonical :: "int \<Rightarrow> string \<Rightarrow> string \<Rightarrow> string \<Rightarrow> bytes \<Rightarrow> bytes" where
  "canonical timestamp eventID deliveryID keyID body =
     ''v1'' @ [byte_of 10] @ format_int timestamp @ [byte_of 10] @ eventID @ [byte_of 10]
     @ deliveryID @ [byte_of 10] @ keyID @ [byte_of 10] @ body"

definition sign :: "bytes \<Rightarrow> int \<Rightarrow> string \<Rightarrow> string \<Rightarrow> string \<Rightarrow> bytes \<Rightarrow> string" where
  "sign secret timestamp eventID deliveryID keyID body =
     b64_encode (hmac_sha256 secret (canonical timestamp eventID deliveryID keyID body))"

definition header_value :: "string \<Rightarrow> string \<Rightarrow> string" where
  "header_value keyID signature = ''key_id='' @ keyID @ '',v1='' @ signature"

primrec find_signature :: "string \<Rightarrow> string list \<Rightarrow> string option" where
  "find_signature keyID [] = None"
| "find_signature keyID (entry # rest) =
     (let parts = split_on (CHR '','') (trim_space entry)
      in if length parts \<noteq> 2 then find_signature keyID rest
         else
           let (kid, ok1) = cut_prefix ''key_id='' (parts ! 0);
               (sig, ok2) = cut_prefix ''v1='' (parts ! 1)
           in if ok1 \<and> ok2 \<and> kid = keyID \<and> kid \<noteq> [] \<and> sig \<noteq> [] then Some sig
              else find_signature keyID rest)"

definition signature_for_key :: "string \<Rightarrow> string \<Rightarrow> string option" where
  "signature_for_key value keyID = find_signature keyID (split_on (CHR '';'') value)"

text \<open>
  \<open>time.Unix(s, 0)\<close> counts seconds from year 1 in 64 bits, so the sum with the distance of the
  epochs wraps.
\<close>

definition time_of_unix :: "int \<Rightarrow> instant" where
  "time_of_unix s = (wrap64 (s + 62135596800) - 62135596800) * 1000000000"

definition verify ::
    "bytes \<Rightarrow> instant \<Rightarrow> duration \<Rightarrow> string \<Rightarrow> string \<Rightarrow> string \<Rightarrow> string \<Rightarrow> string \<Rightarrow> bytes
      \<Rightarrow> signing_error + unit" where
  "verify secret now maxSkew timestamp eventID deliveryID keyID signatureHeader body =
     (if maxSkew \<le> 0 \<or> maxSkew > 15 * minute then Inl Err_signature_invalid
      else case parse_int 64 timestamp of
        None \<Rightarrow> Inl Err_signature_invalid
      | Some seconds \<Rightarrow>
          let delta0 = time_sub now (time_of_unix seconds);
              delta = (if delta0 < 0 then wrap64 (- delta0) else delta0)
          in if delta > maxSkew then Inl Err_signature_invalid
             else case signature_for_key signatureHeader keyID of
               None \<Rightarrow> Inl Err_signature_invalid
             | Some signature \<Rightarrow>
                 (case b64_decode_strict signature of
                    None \<Rightarrow> Inl Err_signature_invalid
                  | Some decoded \<Rightarrow>
                      if length decoded \<noteq> 32 then Inl Err_signature_invalid
                      else
                        let expected = sign secret seconds eventID deliveryID keyID body
                        in if b64_decode expected \<noteq> Some decoded then Inl Err_signature_invalid
                           else Inr ()))"

section \<open>The canonical text\<close>

lemma newline_split:
  assumes "nl \<notin> set a" and "nl \<notin> set b" and "a @ nl # x = b @ nl # y"
  shows "a = b \<and> x = y"
  using assms
proof (induction a arbitrary: b)
  case Nil
  then show ?case by (cases b) auto
next
  case (Cons c a)
  then show ?case by (cases b) auto
qed

lemma format_int_no_newline: "byte_of 10 \<notin> set (format_int i)"
  using format_int_chars [of "byte_of 10" i] by (auto simp: is_digit_def byte_of_eq)

lemma canonical_inj_aux:
  assumes "\<forall>s\<in>{ev, dl, k, ev', dl', k'}. byte_of 10 \<notin> set s"
    and "canonical t ev dl k b = canonical t' ev' dl' k' b'"
  shows "t = t' \<and> ev = ev' \<and> dl = dl' \<and> k = k' \<and> b = b'"
proof -
  note split = newline_split [of "byte_of 10"]
  from assms(2) have
    "format_int t @ byte_of 10 # ev @ byte_of 10 # dl @ byte_of 10 # k @ byte_of 10 # b
     = format_int t' @ byte_of 10 # ev' @ byte_of 10 # dl' @ byte_of 10 # k' @ byte_of 10 # b'"
    by (simp add: canonical_def)
  from split [OF format_int_no_newline format_int_no_newline this]
  have t: "t = t'" and
    r: "ev @ byte_of 10 # dl @ byte_of 10 # k @ byte_of 10 # b
        = ev' @ byte_of 10 # dl' @ byte_of 10 # k' @ byte_of 10 # b'"
    by (auto simp: format_int_inj)
  from split [OF _ _ r] assms(1)
  have ev: "ev = ev'" and r: "dl @ byte_of 10 # k @ byte_of 10 # b = dl' @ byte_of 10 # k' @ byte_of 10 # b'"
    by auto
  from split [OF _ _ r] assms(1)
  have dl: "dl = dl'" and r: "k @ byte_of 10 # b = k' @ byte_of 10 # b'" by auto
  from split [OF _ _ r] assms(1) t ev dl show ?thesis by auto
qed

section \<open>The header\<close>

definition key_id_ok :: "string \<Rightarrow> bool" where
  "key_id_ok k \<longleftrightarrow> k \<noteq> [] \<and> CHR '','' \<notin> set k \<and> CHR '';'' \<notin> set k"

lemma b64_encode_no:
  assumes "b64_val c = None" shows "c \<notin> set (b64_encode bs)"
  using b64_encode_chars assms by blast

lemma b64_sep: "CHR '';'' \<notin> set (b64_encode bs)" "CHR '','' \<notin> set (b64_encode bs)"
  by (rule b64_encode_no, simp add: b64_val_def byte_val_def)+

lemma b64_plain:
  assumes "c \<in> set (b64_encode bs)" shows "plain_char c"
  using b64_encode_chars [OF assms]
  by (auto simp: b64_val_def plain_char_def Let_def split: if_splits)

lemma sign_not_Nil [simp]: "sign secret t ev dl k body \<noteq> []"
proof -
  have "hmac_sha256 secret (canonical t ev dl k body) \<noteq> []"
    by (metis hmac.length_mac list.size(3) zero_neq_numeral)
  then show ?thesis by (simp add: sign_def)
qed

lemma header_value_plain:
  "plain_char (hd (header_value k (b64_encode bs))) \<and>
   (bs \<noteq> [] \<longrightarrow> plain_char (last (header_value k (b64_encode bs))))"
proof -
  have "plain_char (last (b64_encode bs))" if "bs \<noteq> []"
    using that by (intro b64_plain [of _ bs] last_in_set) simp
  then show ?thesis
    by (auto simp: header_value_def plain_char_def byte_val_def)
qed

lemma find_signature_hit:
  assumes "key_id_ok k" and "bs \<noteq> []"
  shows "find_signature k (header_value k (b64_encode bs) # r) = Some (b64_encode bs)"
proof -
  have t: "trim_space (header_value k (b64_encode bs)) = header_value k (b64_encode bs)"
    using header_value_plain [of k bs] assms(2) by (intro trim_space_plain) auto
  have "split_on (CHR '','') ((''key_id='' @ k) @ CHR '','' # ''v1='' @ b64_encode bs)
        = [''key_id='' @ k, ''v1='' @ b64_encode bs]"
    using assms(1) b64_sep by (subst split_on_append) (auto simp: key_id_ok_def split_on_no_sep)
  then have "split_on (CHR '','') (header_value k (b64_encode bs))
        = [''key_id='' @ k, ''v1='' @ b64_encode bs]"
    by (simp add: header_value_def)
  with t show ?thesis
    using assms cut_prefix_append [of "''key_id=''" k] cut_prefix_append [of "''v1=''" "b64_encode bs"]
    by (simp add: key_id_ok_def Let_def del: cut_prefix_append)
qed

lemma find_signature_miss:
  assumes "key_id_ok k'" and "k' \<noteq> k" and "bs \<noteq> []"
  shows "find_signature k (header_value k' (b64_encode bs) # r) = find_signature k r"
proof -
  have t: "trim_space (header_value k' (b64_encode bs)) = header_value k' (b64_encode bs)"
    using header_value_plain [of k' bs] assms(3) by (intro trim_space_plain) auto
  have "split_on (CHR '','') ((''key_id='' @ k') @ CHR '','' # ''v1='' @ b64_encode bs)
        = [''key_id='' @ k', ''v1='' @ b64_encode bs]"
    using assms(1) b64_sep by (subst split_on_append) (auto simp: key_id_ok_def split_on_no_sep)
  then have "split_on (CHR '','') (header_value k' (b64_encode bs))
        = [''key_id='' @ k', ''v1='' @ b64_encode bs]"
    by (simp add: header_value_def)
  with t show ?thesis
    using assms cut_prefix_append [of "''key_id=''" k'] cut_prefix_append [of "''v1=''" "b64_encode bs"]
    by (simp add: key_id_ok_def Let_def del: cut_prefix_append)
qed

lemma header_value_no_sep:
  "key_id_ok k \<Longrightarrow> CHR '';'' \<notin> set (header_value k (b64_encode bs))"
  using b64_sep by (simp add: header_value_def key_id_ok_def)

text \<open>What the receiver's verification computes.\<close>

lemma b64_decode_sign:
  "b64_decode (sign secret t ev dl k body) = Some (hmac_sha256 secret (canonical t ev dl k body))"
  by (simp add: sign_def)

lemma verify_iff:
  "verify secret now maxSkew timestamp ev dl k hdr body = Inr () \<longleftrightarrow>
     (0 < maxSkew \<and> maxSkew \<le> 15 * minute \<and>
      (\<exists>s sig. parse_int 64 timestamp = Some s \<and>
         (let d = time_sub now (time_of_unix s)
          in (if d < 0 then wrap64 (- d) else d) \<le> maxSkew) \<and>
         signature_for_key hdr k = Some sig \<and>
         b64_decode_strict sig = Some (hmac_sha256 secret (canonical s ev dl k body))))"
  by (auto simp: verify_def Let_def b64_decode_sign not_le not_less
      split: option.splits if_splits)

lemma time_sub_small:
  "in_int64 (a - b) \<Longrightarrow> time_sub a b = a - b"
  by (simp add: time_sub_def in_int64_def max_int64_def min_int64_def)

lemma time_of_unix_exact:
  "in_int64 (s + 62135596800) \<Longrightarrow> time_of_unix s = s * 1000000000"
  by (simp add: time_of_unix_def)

lemma find_signature_keys:
  assumes "\<forall>(k, sec)\<in>set keys. key_id_ok k" and "distinct (map fst keys)"
    and "(k, sec) \<in> set keys"
  shows "find_signature k (map (\<lambda>(k, sec). header_value k (sign sec t ev dl k body)) keys)
         = Some (sign sec t ev dl k body)"
  using assms
proof (induction keys)
  case (Cons p keys)
  obtain k' sec' where p: "p = (k', sec')" by (cases p)
  have ne: "hmac_sha256 sec' (canonical t ev dl k' body) \<noteq> []"
    by (metis hmac.length_mac list.size(3) zero_neq_numeral)
  show ?case
  proof (cases "k' = k")
    case True
    with Cons.prems p have "sec = sec'" by (auto simp: image_iff)
    with True Cons.prems p ne show ?thesis by (simp add: sign_def find_signature_hit del: find_signature.simps)
  next
    case False
    with Cons p ne show ?thesis by (simp add: sign_def find_signature_miss del: find_signature.simps)
  qed
qed simp

text \<open>
  The skew test. \<open>delta = -delta\<close> leaves the least duration negative, so a difference that
  saturates there passes.
\<close>

lemma skew_bound:
  assumes "let d = time_sub now w in (if d < 0 then wrap64 (- d) else d) \<le> maxSkew"
    and "0 < maxSkew" and "maxSkew \<le> 15 * minute"
  shows "now - w \<le> maxSkew \<and> (w - now \<le> maxSkew \<or> 2 ^ 63 \<le> w - now)"
proof -
  consider (low) "now - w \<le> min_int64" | (mid) "min_int64 < now - w" "now - w \<le> max_int64"
    | (high) "max_int64 < now - w" by linarith
  then show ?thesis
  proof cases
    case low
    then show ?thesis using assms(2) by (simp add: min_int64_def)
  next
    case mid
    then have "time_sub now w = now - w" and "in_int64 (- (now - w))"
      by (auto simp: time_sub_def in_int64_def min_int64_def max_int64_def)
    then show ?thesis using assms(1,2) by (auto simp: Let_def split: if_splits)
  next
    case high
    then have "time_sub now w = max_int64"
      by (simp add: time_sub_def min_int64_def max_int64_def)
    then show ?thesis using assms by (simp add: max_int64_def minute_def)
  qed
qed

lemma skew_saturated:
  "2 ^ 63 \<le> w - now \<Longrightarrow> (let d = time_sub now w in if d < 0 then wrap64 (- d) else d) = min_int64"
  by (simp add: time_sub_def min_int64_def max_int64_def wrap64_def)

section \<open>Properties\<close>

text \<open>Two deliveries have the same canonical text only if they agree on the timestamp, on
  every identifier and on the body: no field can run into the next one.\<close>
theorem canonical_unambiguous:
  assumes "\<forall>s\<in>{ev, dl, k, ev', dl', k'}. byte_of 10 \<notin> set s"
    and "canonical t ev dl k b = canonical t' ev' dl' k' b'"
  shows "t = t' \<and> ev = ev' \<and> dl = dl' \<and> k = k' \<and> b = b'"
  using assms by (rule canonical_inj_aux)

theorem canonical_unambiguous_witness:
  "(7::int) = 7 \<and> ''e'' = ''e'' \<and> ''d'' = ''d'' \<and> ''k'' = ''k'' \<and> ''b'' = ''b''"
  by (rule canonical_unambiguous [of "''e''" "''d''" "''k''" "''e''" "''d''" "''k''" 7 "''b''" 7 "''b''"])
     (simp_all add: byte_of_eq)

lemma verify_signed:
  assumes "\<forall>(k, sec)\<in>set keys. key_id_ok k" and "distinct (map fst keys)"
    and "(k, sec) \<in> set keys"
    and "0 < maxSkew" and "maxSkew \<le> 15 * minute"
    and "- (2 ^ 63) \<le> t" and "t < 2 ^ 63 - 62135596800" and "\<bar>now - t * 1000000000\<bar> \<le> maxSkew"
  shows "verify sec now maxSkew (format_int t) ev dl k
           (join_with '';'' (map (\<lambda>(k, sec). header_value k (sign sec t ev dl k body)) keys)) body
         = Inr ()"
proof -
  let ?hs = "map (\<lambda>(k, sec). header_value k (sign sec t ev dl k body)) keys"
  have d: "in_int64 (now - t * 1000000000)" "in_int64 (- (now - t * 1000000000))"
    using assms(5,8) by (auto simp: in_int64_def minute_def)
  have p: "parse_int 64 (format_int t) = Some t" and u: "time_of_unix t = t * 1000000000"
    using assms(6,7) by (auto simp: in_int64_def intro!: parse_format_int time_of_unix_exact)
  have "split_on (CHR '';'') (join_with '';'' ?hs) = ?hs"
  proof (rule split_on_join)
    show "?hs \<noteq> []" using assms(3) by auto
    show "CHR '';'' \<notin> set h" if "h \<in> set ?hs" for h
      using that assms(1) by (auto simp: sign_def header_value_no_sep)
  qed
  then have "signature_for_key (join_with '';'' ?hs) k = Some (sign sec t ev dl k body)"
    using find_signature_keys [OF assms(1-3)] by (simp add: signature_for_key_def)
  moreover have "b64_decode_strict (sign sec t ev dl k body) = Some (hmac_sha256 sec (canonical t ev dl k body))"
    by (simp add: sign_def)
  ultimately show ?thesis
    using assms(4,5,8) d p u
    by (auto simp: verify_iff time_sub_small)
qed

text \<open>C1. A receiver that holds the secret of any key of a signed delivery accepts it while the
  clocks agree within the allowed skew, whichever other keys (a retiring one) sign it too.\<close>
theorem verify_accepts_signed:
  assumes "\<forall>(k, sec)\<in>set keys. key_id_ok k" and "distinct (map fst keys)"
    and "(k, sec) \<in> set keys"
    and "0 < maxSkew" and "maxSkew \<le> 15 * minute"
    and "- (2 ^ 63) \<le> t" and "t < 2 ^ 63 - 62135596800" and "\<bar>now - t * 1000000000\<bar> \<le> maxSkew"
  shows "verify sec now maxSkew (format_int t) ev dl k
           (join_with '';'' (map (\<lambda>(k, sec). header_value k (sign sec t ev dl k body)) keys)) body
         = Inr ()"
  using assms by (rule verify_signed)

theorem verify_accepts_signed_witness:
  "verify ''s2'' 1000000000000 minute ''970'' ''e'' ''d'' ''k2''
     (join_with '';'' (map (\<lambda>(k, sec). header_value k (sign sec 970 ''e'' ''d'' k ''{}''))
                        [(''k1'', ''s1''), (''k2'', ''s2'')])) ''{}'' = Inr ()"
proof -
  have "format_int 970 = ''970''"
    by (simp add: format_int_def dec_nat.simps digit_char_def byte_of_eq)
  then show ?thesis
    using verify_accepts_signed [of "[(''k1'', ''s1''), (''k2'', ''s2'')]" "''k2''" "''s2''" minute 970
        "1000000000000" "''e''" "''d''" "''{}''"]
    by (simp add: key_id_ok_def minute_def)
qed

text \<open>C2. Whatever verification accepts carries, under the receiver's key, the HMAC of exactly
  this timestamp, event, delivery, key and body; the message is not older than the allowed skew,
  and it is not newer either, unless it lies so far ahead (more than 292 years) that Go's
  difference of instants saturates.\<close>
theorem verify_sound:
  assumes "verify secret now maxSkew timestamp ev dl k hdr body = Inr ()"
  shows "\<exists>s sig. parse_int 64 timestamp = Some s \<and> signature_for_key hdr k = Some sig
           \<and> skip_newlines sig = sign secret s ev dl k body
           \<and> now - time_of_unix s \<le> maxSkew \<and> maxSkew \<le> 15 * minute
           \<and> (time_of_unix s - now \<le> maxSkew \<or> 2 ^ 63 \<le> time_of_unix s - now)"
proof -
  from assms obtain s sig where s: "parse_int 64 timestamp = Some s"
    and sig: "signature_for_key hdr k = Some sig"
    and dec: "b64_decode_strict sig = Some (hmac_sha256 secret (canonical s ev dl k body))"
    and d: "(let d = time_sub now (time_of_unix s) in (if d < 0 then wrap64 (- d) else d) \<le> maxSkew)"
    and m: "0 < maxSkew" "maxSkew \<le> 15 * minute"
    by (auto simp: verify_iff)
  have "skip_newlines sig = sign secret s ev dl k body"
    using b64_decode_strict_canonical [OF dec] by (simp add: sign_def)
  moreover have "now - time_of_unix s \<le> maxSkew
      \<and> (time_of_unix s - now \<le> maxSkew \<or> 2 ^ 63 \<le> time_of_unix s - now)"
    using skew_bound [OF d m] .
  ultimately show ?thesis using s sig m by blast
qed

theorem verify_sound_witness:
  "\<exists>s sig. parse_int 64 ''970'' = Some s
     \<and> signature_for_key (header_value ''k2'' (sign ''s2'' 970 ''e'' ''d'' ''k2'' ''{}'')) ''k2'' = Some sig
     \<and> skip_newlines sig = sign ''s2'' s ''e'' ''d'' ''k2'' ''{}''
     \<and> 1000000000000 - time_of_unix s \<le> minute \<and> minute \<le> 15 * minute
     \<and> (time_of_unix s - 1000000000000 \<le> minute \<or> 2 ^ 63 \<le> time_of_unix s - 1000000000000)"
proof (rule verify_sound)
  have "find_signature ''k2'' [header_value ''k2'' (sign ''s2'' 970 ''e'' ''d'' ''k2'' ''{}'')]
        = Some (sign ''s2'' 970 ''e'' ''d'' ''k2'' ''{}'')"
    using find_signature_keys [of "[(''k2'', ''s2'')]" "''k2''" "''s2''" 970 "''e''" "''d''" "''{}''"]
    by (simp add: key_id_ok_def)
  moreover have "CHR '';'' \<notin> set (header_value ''k2'' (sign ''s2'' 970 ''e'' ''d'' ''k2'' ''{}''))"
    by (simp add: sign_def header_value_no_sep key_id_ok_def)
  ultimately have "signature_for_key (header_value ''k2'' (sign ''s2'' 970 ''e'' ''d'' ''k2'' ''{}'')) ''k2''
        = Some (sign ''s2'' 970 ''e'' ''d'' ''k2'' ''{}'')"
    by (simp add: signature_for_key_def split_on_no_sep)
  moreover have "parse_int 64 ''970'' = Some 970"
    by (simp add: parse_int_def parse_digits_def is_digit_def digits_val_def)
  ultimately show "verify ''s2'' 1000000000000 minute ''970'' ''e'' ''d'' ''k2''
     (header_value ''k2'' (sign ''s2'' 970 ''e'' ''d'' ''k2'' ''{}'')) ''{}'' = Inr ()"
    by (simp add: verify_iff sign_def time_of_unix_exact in_int64_def time_sub_def minute_def
        max_int64_def min_int64_def)
qed

text \<open>The skew limit has a hole: a correctly signed delivery dated more than \<open>2 ^ 63\<close>
  nanoseconds (292 years) after the receiver's clock is accepted whatever the limit, because the
  saturated difference stays negative when it is negated.\<close>
theorem verify_far_future_accepted:
  assumes "key_id_ok k" and "0 < maxSkew" and "maxSkew \<le> 15 * minute"
    and "- (2 ^ 63) \<le> t" and "t < 2 ^ 63 - 62135596800" and "2 ^ 63 \<le> t * 1000000000 - now"
  shows "verify sec now maxSkew (format_int t) ev dl k
           (header_value k (sign sec t ev dl k body)) body = Inr ()"
proof -
  have p: "parse_int 64 (format_int t) = Some t" and u: "time_of_unix t = t * 1000000000"
    using assms(4,5) by (auto simp: in_int64_def intro!: parse_format_int time_of_unix_exact)
  have "signature_for_key (header_value k (sign sec t ev dl k body)) k = Some (sign sec t ev dl k body)"
    using find_signature_keys [of "[(k, sec)]" k sec] assms(1)
    by (simp add: signature_for_key_def split_on_no_sep sign_def header_value_no_sep)
  moreover have "b64_decode_strict (sign sec t ev dl k body) = Some (hmac_sha256 sec (canonical t ev dl k body))"
    by (simp add: sign_def)
  ultimately show ?thesis
    using assms(2,3) p u skew_saturated [OF assms(6)]
    by (auto simp: verify_iff min_int64_def minute_def Let_def)
qed

theorem verify_far_future_accepted_witness:
  "verify ''s'' 1700000000000000000 minute (format_int 20000000000) ''e'' ''d'' ''k''
     (header_value ''k'' (sign ''s'' 20000000000 ''e'' ''d'' ''k'' ''{}'')) ''{}'' = Inr ()"
  by (rule verify_far_future_accepted) (simp_all add: key_id_ok_def minute_def)

end
