(* ===== verification/Retry.thy ===== *)
theory Retry
  imports Go_Strings
begin

text \<open>
  \<open>internal/delivery/retry.go\<close>: the exponential back-off of delivery retries
  (\<open>RetryPolicy.Delay\<close>) and of queue polling (\<open>PollPolicy.Delay\<close>).
\<close>

text \<open>
  A jitter is a draw in a range. The default one calls \<open>rand.Int64N\<close>, whose result the program
  does not control: the draw is the parameter \<open>rnd\<close>.
\<close>

record retry_policy =
  rp_base :: duration
  rp_cap :: duration
  rp_jitter :: "(duration \<Rightarrow> duration) option"

definition default_jitter :: "(int \<Rightarrow> int) \<Rightarrow> duration \<Rightarrow> duration" where
  "default_jitter rnd mx = (if mx \<le> 0 then 0 else rnd (wrap64 (mx + 1)))"

definition default_retry_policy :: "(int \<Rightarrow> int) \<Rightarrow> retry_policy" where
  "default_retry_policy rnd =
     \<lparr>rp_base = second, rp_cap = 15 * minute, rp_jitter = Some (default_jitter rnd)\<rparr>"

text \<open>
  The doubling loop both \<open>Delay\<close> methods contain. \<open>current\<close> is an \<open>int16\<close> that stays below
  \<open>attempt\<close>, itself an \<open>int16\<close>, so its increment cannot wrap; the doubling of the 64-bit
  \<open>ceiling\<close> is written with its wrap-around.
\<close>

function backoff_loop :: "duration \<Rightarrow> int \<Rightarrow> int \<Rightarrow> duration \<Rightarrow> duration" where
  "backoff_loop cap current attempt ceiling =
     (if current < attempt \<and> ceiling < cap
      then if ceiling > go_div cap 2 then cap
           else backoff_loop cap (current + 1) attempt (wrap64 (ceiling * 2))
      else ceiling)"
  by pat_completeness auto
termination
  by (relation "measure (\<lambda>(cap, current, attempt, ceiling). nat (attempt - current))") auto

declare backoff_loop.simps [simp del]

definition retry_delay :: "(int \<Rightarrow> int) \<Rightarrow> retry_policy \<Rightarrow> int \<Rightarrow> duration \<Rightarrow> duration" where
  "retry_delay rnd p attempt serverDelay =
     (if rp_base p \<le> 0 \<or> rp_cap p \<le> 0 then 0
      else
        let ceiling0 = backoff_loop (rp_cap p) 1 attempt (rp_base p);
            ceiling = (if ceiling0 > rp_cap p then rp_cap p else ceiling0);
            jitter = (case rp_jitter p of None \<Rightarrow> default_jitter rnd | Some j \<Rightarrow> j);
            delay0 = jitter ceiling;
            delay1 = (if delay0 < 0 then 0 else delay0);
            delay2 = (if delay1 > ceiling then ceiling else delay1)
        in if serverDelay > delay2 \<and> serverDelay \<le> rp_cap p then serverDelay else delay2)"

text \<open>
  \<open>retryAfter\<close> reads a \<open>Retry-After\<close> header: a number of seconds or an HTTP date.
  \<open>http.ParseTime\<close> is the parameter \<open>parse_time\<close>, of which nothing is assumed.
\<close>

definition retry_after ::
    "(string \<Rightarrow> instant option) \<Rightarrow> string \<Rightarrow> instant \<Rightarrow> duration \<Rightarrow> duration" where
  "retry_after parse_time value now cap =
     (let v = trim_space value
      in if v = [] then 0
         else case parse_int 32 v of
           Some seconds \<Rightarrow>
             if seconds \<le> 0 \<or> cap \<le> 0 \<or> seconds > go_div cap second then 0
             else wrap64 (seconds * second)
         | None \<Rightarrow>
             (case parse_time v of
                None \<Rightarrow> 0
              | Some when \<Rightarrow>
                  if \<not> when > now then 0
                  else let delay = time_sub when now in if delay > cap then 0 else delay))"

record poll_policy =
  pp_base :: duration
  pp_cap :: duration
  pp_jitter :: "duration \<Rightarrow> duration"

definition default_poll_policy ::
    "(int \<Rightarrow> int) \<Rightarrow> duration \<Rightarrow> (duration \<Rightarrow> duration) option \<Rightarrow> poll_policy" where
  "default_poll_policy rnd base jitter =
     (let cap0 = wrap64 (base * 16);
          cap = (if cap0 > 10 * second then 10 * second else cap0)
      in \<lparr>pp_base = base, pp_cap = cap,
          pp_jitter = (case jitter of None \<Rightarrow> default_jitter rnd | Some j \<Rightarrow> j)\<rparr>)"

definition poll_delay :: "poll_policy \<Rightarrow> int \<Rightarrow> duration" where
  "poll_delay p emptyPolls =
     (let ceiling0 = backoff_loop (pp_cap p) 1 emptyPolls (pp_base p);
          ceiling = (if ceiling0 > pp_cap p then pp_cap p else ceiling0);
          floor = go_div ceiling 2;
          jitter0 = pp_jitter p (ceiling - floor);
          jitter1 = (if jitter0 < 0 then 0 else jitter0);
          jitter2 = (if jitter1 > ceiling - floor then ceiling - floor else jitter1)
      in floor + jitter2)"

section \<open>The doubling loop is exact and never wraps\<close>

lemma halving_guard: "(c::int) > cap div 2 \<longleftrightarrow> 2 * c > cap"
  by presburger

lemma backoff_loop_eq:
  assumes "0 < c" and "c \<le> cap" and "in_int64 cap"
  shows "backoff_loop cap i n c = min cap (c * 2 ^ nat (n - i))"
  using assms
proof (induction cap i n c rule: backoff_loop.induct)
  case (1 cap i n c)
  show ?case
  proof (cases "i < n \<and> c < cap")
    case False
    have "c \<le> c * 2 ^ nat (n - i)" using "1.prems" by simp
    with False "1.prems" show ?thesis
      by (auto simp: backoff_loop.simps [of cap i n c])
  next
    case run: True
    then have exp: "nat (n - i) = Suc (nat (n - (i + 1)))" by arith
    show ?thesis
    proof (cases "c > cap div 2")
      case True
      have "cap \<le> c * 2 ^ nat (n - i)"
      proof -
        have "cap \<le> c * 2" using True halving_guard by force
        also have "\<dots> \<le> (c * 2) * 2 ^ nat (n - (i + 1))" using "1.prems" by simp
        finally show ?thesis by (simp add: exp)
      qed
      with run True "1.prems" show ?thesis
        by (simp add: backoff_loop.simps [of cap i n c])
    next
      case False
      then have le: "c * 2 \<le> cap" using halving_guard by force
      with "1.prems" have "wrap64 (c * 2) = c * 2" by (simp add: in_int64_def)
      with run False le "1.prems" "1.IH" show ?thesis
        by (simp add: backoff_loop.simps [of cap i n c] exp)
    qed
  qed
qed

lemma backoff_loop_above:
  "cap \<le> c \<Longrightarrow> backoff_loop cap i n c = c"
  by (simp add: backoff_loop.simps)

lemma backoff_ceiling:
  assumes "0 < base" and "0 < cap" and "in_int64 cap"
  shows "min cap (backoff_loop cap 1 n base) = min cap (base * 2 ^ nat (n - 1))"
proof (cases "base \<le> cap")
  case True
  with assms show ?thesis by (simp add: backoff_loop_eq)
next
  case False
  moreover have "base \<le> base * 2 ^ nat (n - 1)" using assms(1) by simp
  ultimately show ?thesis by (simp add: backoff_loop_above)
qed

lemma retry_delay_eq:
  assumes "0 < rp_base p" and "0 < rp_cap p" and "in_int64 (rp_cap p)"
  shows "retry_delay rnd p n s =
     (let c = min (rp_cap p) (rp_base p * 2 ^ nat (n - 1));
          j = (case rp_jitter p of None \<Rightarrow> default_jitter rnd | Some j \<Rightarrow> j);
          d = max 0 (min c (j c))
      in if d < s \<and> s \<le> rp_cap p then s else d)"
proof -
  define c where "c = min (rp_cap p) (rp_base p * 2 ^ nat (n - 1))"
  have e: "(if backoff_loop (rp_cap p) 1 n (rp_base p) > rp_cap p then rp_cap p
         else backoff_loop (rp_cap p) 1 n (rp_base p)) = c"
    unfolding c_def using backoff_ceiling [OF assms, of n] by (auto simp: min_def split: if_splits)
  have "0 < c" using assms by (simp add: c_def)
  then show ?thesis using assms(1,2)
    unfolding retry_delay_def Let_def e c_def [symmetric] by (simp add: max_def min_def)
qed

lemma retry_after_range: "0 \<le> retry_after pt v now cap \<and> retry_after pt v now cap \<le> max 0 cap"
proof -
  have "0 \<le> wrap64 (k * second) \<and> wrap64 (k * second) \<le> cap"
    if "0 < k" "0 < cap" "k \<le> cap div second" "k < 2 ^ 31" for k
  proof -
    have "k * second \<le> cap"
    proof -
      have "k * second \<le> (cap div second) * second"
        using that by (intro mult_right_mono) (simp_all add: second_def)
      also have "\<dots> \<le> cap"
        using div_mult_mod_eq [of cap second] by (simp add: second_def)
      finally show ?thesis .
    qed
    moreover have "in_int64 (k * second)" using that by (simp add: in_int64_def second_def)
    ultimately show ?thesis using that by (simp add: second_def)
  qed
  moreover have "k < 2 ^ 31" if "parse_int 32 w = Some k" for w k
    using that by (auto simp: parse_int_def Let_def split: option.splits if_splits)
  moreover have "0 < second" by (simp add: second_def)
  ultimately show ?thesis
    by (auto simp: retry_after_def Let_def not_le not_less max_def time_sub_def max_int64_def
        min_int64_def split: option.splits)
qed

section \<open>Properties\<close>

text \<open>The delay before a retry is computed without wrap-around: with \<open>c\<close> the exact
  exponential \<open>base * 2 ^ (attempt - 1)\<close> limited by the cap, it is the jitter's draw clamped to
  \<open>0 .. c\<close>, unless the server asked for a longer delay that is still within the cap.\<close>
theorem retry_delay_exact:
  assumes "0 < rp_base p" and "0 < rp_cap p" and "in_int64 (rp_cap p)"
  shows "retry_delay rnd p n s =
     (let c = min (rp_cap p) (rp_base p * 2 ^ nat (n - 1));
          j = (case rp_jitter p of None \<Rightarrow> default_jitter rnd | Some j \<Rightarrow> j);
          d = max 0 (min c (j c))
      in if d < s \<and> s \<le> rp_cap p then s else d)"
  using assms by (rule retry_delay_eq)

theorem retry_delay_exact_witness:
  "retry_delay (\<lambda>n. n - 1) (default_retry_policy (\<lambda>n. n - 1)) 4 0 = 8 * second"
  using retry_delay_exact [of "default_retry_policy (\<lambda>n. n - 1)" "\<lambda>n. n - 1" 4 0]
  by (simp add: default_retry_policy_def default_jitter_def duration_defs in_int64_def)

text \<open>Whatever the jitter draws and whatever a server answers, a retry is scheduled between
  now and the cap, and never before the delay \<open>retryAfter\<close> read from the server's answer.\<close>
theorem retry_delay_bounds:
  assumes "in_int64 (rp_cap p)" and "0 < rp_base p" and "0 < rp_cap p"
  shows "0 \<le> retry_delay rnd p n (retry_after pt v now (rp_cap p))
    \<and> retry_after pt v now (rp_cap p) \<le> retry_delay rnd p n (retry_after pt v now (rp_cap p))
    \<and> retry_delay rnd p n (retry_after pt v now (rp_cap p)) \<le> rp_cap p"
  using assms retry_after_range [of pt v now "rp_cap p"] by (auto simp: retry_delay_eq Let_def intro: min.coboundedI1)

theorem retry_delay_bounds_witness:
  "120 * second \<le> retry_delay id (default_retry_policy id) 1 (retry_after (\<lambda>_. None) ''120'' 0 (15 * minute))"
proof -
  have s: "trim_space ''120'' = ''120''"
    by (rule trim_space_plain) (simp add: plain_char_def)
  have "retry_after (\<lambda>_. None) ''120'' 0 (15 * minute) = 120 * second"
    by (simp add: retry_after_def s parse_int_def parse_digits_def is_digit_def digits_val_def
        duration_defs in_int64_def)
  with retry_delay_bounds [of "default_retry_policy id" id 1 "\<lambda>_. None" "''120''" 0]
  show ?thesis by (simp add: default_retry_policy_def duration_defs in_int64_def)
qed

lemma poll_ceiling:
  assumes "0 < pp_base p" and "0 < pp_cap p" and "in_int64 (pp_cap p)"
  shows "(if backoff_loop (pp_cap p) 1 n (pp_base p) > pp_cap p then pp_cap p
          else backoff_loop (pp_cap p) 1 n (pp_base p))
       = min (pp_cap p) (pp_base p * 2 ^ nat (n - 1))"
  using backoff_ceiling [OF assms, of n] by (auto simp: min_def split: if_splits)

text \<open>After \<open>n\<close> empty polls the worker sleeps between half of and the whole of
  \<open>min cap (base * 2 ^ (n - 1))\<close>, whatever the jitter function returns.\<close>
theorem poll_delay_bounds:
  assumes "0 < pp_base p" and "0 < pp_cap p" and "in_int64 (pp_cap p)"
  shows "min (pp_cap p) (pp_base p * 2 ^ nat (n - 1)) div 2 \<le> poll_delay p n
    \<and> poll_delay p n \<le> min (pp_cap p) (pp_base p * 2 ^ nat (n - 1))"
proof -
  define c where "c = min (pp_cap p) (pp_base p * 2 ^ nat (n - 1))"
  have "0 < c" using assms by (simp add: c_def)
  then show ?thesis
    unfolding poll_delay_def poll_ceiling [OF assms] Let_def c_def [symmetric] by auto
qed

theorem poll_delay_bounds_witness:
  "250 * millisecond \<le> poll_delay (default_poll_policy id (250 * millisecond) None) 2
   \<and> poll_delay (default_poll_policy id (250 * millisecond) None) 2 \<le> 500 * millisecond"
  using poll_delay_bounds [of "default_poll_policy id (250 * millisecond) None" 2]
  by (simp add: default_poll_policy_def duration_defs wrap64_def in_int64_def)

end
