(* ===== verification/Cursors.thy ===== *)
theory Cursors
  imports Go_Base64 Go_Crypto
begin

text \<open>
  The pagination cursors of \<open>internal/delivery/list.go\<close> and \<open>internal/endpoint/list.go\<close>: a
  version byte, the workspace, the creation time in nanoseconds and the identifier of the last
  row, tagged by an HMAC under the cursor pepper and bound to the list by a domain prefix.
  The two files spell the same format out separately; both are modelled as they are written.
\<close>

record list_cursor =
  lc_created_at :: instant
  lc_id :: uuid

definition zero_cursor :: list_cursor where
  "zero_cursor = \<lparr>lc_created_at = zero_time, lc_id = uuid_nil\<rparr>"

datatype list_error = Err_invalid_list | Err_list_store | Err_list_open

text \<open>\<open>binary.BigEndian.PutUint64(b, uint64(x))\<close> and \<open>int64(binary.BigEndian.Uint64(b))\<close>.\<close>

definition put_uint64 :: "int \<Rightarrow> bytes" where
  "put_uint64 x = be_bytes 8 (nat (x mod 2 ^ 64))"

definition get_int64 :: "bytes \<Rightarrow> int" where
  "get_int64 bs = wrap64 (int (be_val bs))"

definition cursor_payload :: "uuid \<Rightarrow> list_cursor \<Rightarrow> bytes" where
  "cursor_payload ws c =
     [byte_of 1] @ uuid_bytes ws @ put_uint64 (unix_nano (lc_created_at c)) @ uuid_bytes (lc_id c)"

section \<open>Delivery cursors\<close>

definition cursor_mac :: "key256 \<Rightarrow> bytes \<Rightarrow> bytes" where
  "cursor_mac key payload =
     hmac_sha256 (key_bytes key) (''delivery-cursor:v1'' @ [byte_of 10] @ payload)"

definition encode_cursor :: "key256 \<Rightarrow> uuid \<Rightarrow> list_cursor \<Rightarrow> list_error + string" where
  "encode_cursor key ws c =
     (if key = 0 \<or> ws = uuid_nil \<or> lc_id c = uuid_nil \<or> lc_created_at c = zero_time
      then Inl Err_invalid_list
      else let payload = cursor_payload ws c
           in Inr (b64_encode (payload @ cursor_mac key payload)))"

definition decode_cursor :: "key256 \<Rightarrow> uuid \<Rightarrow> string \<Rightarrow> list_error + list_cursor" where
  "decode_cursor key ws raw =
     (if raw = [] then Inr zero_cursor
      else if key = 0 \<or> ws = uuid_nil \<or> length raw > 256 then Inl Err_invalid_list
      else case b64_decode_strict raw of
        None \<Rightarrow> Inl Err_invalid_list
      | Some decoded \<Rightarrow>
          if length decoded \<noteq> 41 + 32 \<or> decoded ! 0 \<noteq> byte_of 1 then Inl Err_invalid_list
          else
            let payload = take 41 decoded; supplied = drop 41 decoded
            in if supplied \<noteq> cursor_mac key payload
                  \<or> take 16 (drop 1 payload) \<noteq> uuid_bytes ws
               then Inl Err_invalid_list
               else
                 let value = \<lparr>lc_created_at = get_int64 (take 8 (drop 17 payload)),
                              lc_id = uuid_of_bytes (take 16 (drop 25 payload))\<rparr>
                 in if lc_id value = uuid_nil \<or> lc_created_at value = zero_time
                    then Inl Err_invalid_list else Inr value)"

section \<open>Endpoint cursors\<close>

definition endpoint_cursor_mac :: "key256 \<Rightarrow> bytes \<Rightarrow> bytes" where
  "endpoint_cursor_mac key payload =
     hmac_sha256 (key_bytes key) (''endpoint-cursor:v1'' @ [byte_of 10] @ payload)"

definition encode_list_cursor :: "key256 \<Rightarrow> uuid \<Rightarrow> list_cursor \<Rightarrow> list_error + string" where
  "encode_list_cursor key ws c =
     (if key = 0 \<or> ws = uuid_nil \<or> lc_id c = uuid_nil \<or> lc_created_at c = zero_time
      then Inl Err_invalid_list
      else let payload = cursor_payload ws c
           in Inr (b64_encode (payload @ endpoint_cursor_mac key payload)))"

definition decode_list_cursor :: "key256 \<Rightarrow> uuid \<Rightarrow> string \<Rightarrow> list_error + list_cursor" where
  "decode_list_cursor key ws raw =
     (if raw = [] then Inr zero_cursor
      else case b64_decode_strict raw of
        None \<Rightarrow> Inl Err_invalid_list
      | Some decoded \<Rightarrow>
          if length decoded \<noteq> 73 \<or> decoded ! 0 \<noteq> byte_of 1 \<or> key = 0 \<or> ws = uuid_nil
          then Inl Err_invalid_list
          else
            if endpoint_cursor_mac key (take 41 decoded) \<noteq> drop 41 decoded
               \<or> take 16 (drop 1 decoded) \<noteq> uuid_bytes ws
            then Inl Err_invalid_list
            else
              let value = \<lparr>lc_created_at = get_int64 (take 8 (drop 17 decoded)),
                           lc_id = uuid_of_bytes (take 16 (drop 25 decoded))\<rparr>
              in if lc_id value = uuid_nil \<or> lc_created_at value = zero_time
                 then Inl Err_invalid_list else Inr value)"

section \<open>The payload\<close>

lemma length_put_uint64 [simp]: "length (put_uint64 x) = 8"
  by (simp add: put_uint64_def)

lemma get_put_int64: "in_int64 x \<Longrightarrow> get_int64 (put_uint64 x) = x"
proof -
  assume x: "in_int64 x"
  have "nat (x mod 2 ^ 64) < 256 ^ 8" by (simp add: nat_less_iff)
  then have "int (be_val (put_uint64 x)) = x mod 2 ^ 64"
    by (simp add: put_uint64_def byte_simps)
  then have "get_int64 (put_uint64 x) = wrap64 x"
    by (simp add: get_int64_def wrap64_def mod_simps)
  with x show ?thesis by simp
qed

lemma put_get_int64:
  assumes "length bs = 8" shows "put_uint64 (get_int64 bs) = bs"
proof -
  have "be_val bs < 2 ^ 64" using be_val_less [of bs] assms by simp
  then have "get_int64 bs mod 2 ^ 64 = int (be_val bs)"
    by (simp add: get_int64_def wrap64_def mod_simps)
  then show ?thesis using be_bytes_be_val [of bs] assms by (simp add: put_uint64_def)
qed

lemma get_int64_range: "in_int64 (get_int64 bs)"
  by (simp add: get_int64_def range_simps)

lemma length_cursor_payload [simp]: "length (cursor_payload ws c) = 41"
  by (simp add: cursor_payload_def)

lemma cursor_payload_parts:
  "cursor_payload ws c ! 0 = byte_of 1"
  "take 16 (drop 1 (cursor_payload ws c)) = uuid_bytes ws"
  "take 8 (drop 17 (cursor_payload ws c)) = put_uint64 (unix_nano (lc_created_at c))"
  "take 16 (drop 25 (cursor_payload ws c)) = uuid_bytes (lc_id c)"
  by (simp_all add: cursor_payload_def)

lemma split_41:
  assumes "length (p::bytes) = 41" and "p ! 0 = byte_of 1"
  shows "p = [byte_of 1] @ take 16 (drop 1 p) @ take 8 (drop 17 p) @ take 16 (drop 25 p)"
proof -
  have "p = take 1 p @ take 16 (drop 1 p) @ take 8 (drop 17 p) @ drop 25 p"
    using append_take_drop_id [of 1 p] append_take_drop_id [of 16 "drop 1 p"]
      append_take_drop_id [of 8 "drop 17 p"] by simp
  moreover have "take 1 p = [byte_of 1]"
    using assms by (cases p) auto
  ultimately show ?thesis using assms by simp
qed

text \<open>The cursors both decoders accept, seen through the \<open>mac\<close> interface.\<close>

lemma payload_of_parts:
  assumes "length p = 41" and "p ! 0 = byte_of 1" and "take 16 (drop 1 p) = uuid_bytes ws"
  shows "p = cursor_payload ws \<lparr>lc_created_at = get_int64 (take 8 (drop 17 p)),
                              lc_id = uuid_of_bytes (take 16 (drop 25 p))\<rparr>"
proof -
  have "unix_nano (get_int64 (take 8 (drop 17 p))) = get_int64 (take 8 (drop 17 p))"
    by (simp add: unix_nano_def get_int64_range)
  with split_41 [OF assms(1,2)] assms show ?thesis
    by (simp add: cursor_payload_def put_get_int64 uuid_bytes_of_bytes)
qed

lemma decode_cursor_iff:
  assumes "raw \<noteq> []"
  shows "decode_cursor key ws raw = Inr c \<longleftrightarrow>
    key \<noteq> 0 \<and> ws \<noteq> uuid_nil \<and> length raw \<le> 256 \<and> lc_id c \<noteq> uuid_nil \<and> lc_created_at c \<noteq> zero_time
    \<and> in_int64 (lc_created_at c)
    \<and> b64_decode_strict raw = Some (cursor_payload ws c @ cursor_mac key (cursor_payload ws c))"
  (is "?L \<longleftrightarrow> ?R")
proof
  assume ?L
  then obtain d where d: "b64_decode_strict raw = Some d" and len: "length d = 73"
    and v: "d ! 0 = byte_of 1" and mac: "drop 41 d = cursor_mac key (take 41 d)"
    and w: "take 16 (drop 1 (take 41 d)) = uuid_bytes ws"
    and c: "c = \<lparr>lc_created_at = get_int64 (take 8 (drop 17 (take 41 d))),
                lc_id = uuid_of_bytes (take 16 (drop 25 (take 41 d)))\<rparr>"
    and g: "key \<noteq> 0" "ws \<noteq> uuid_nil" "length raw \<le> 256" "lc_id c \<noteq> uuid_nil"
      "lc_created_at c \<noteq> zero_time"
    using assms by (auto simp: decode_cursor_def Let_def not_less split: option.splits if_splits)
  have "take 41 d = cursor_payload ws c"
    unfolding c by (rule payload_of_parts) (use len v w in simp_all)
  moreover have "d = take 41 d @ drop 41 d" by simp
  ultimately show ?R using d mac g by (simp add: c get_int64_range)
next
  assume ?R
  then show ?L using assms cursor_payload_parts [of ws c]
    by (simp add: decode_cursor_def Let_def cursor_mac_def hmac.length_mac
        nth_append unix_nano_def get_put_int64)
qed

lemma decode_list_cursor_iff:
  assumes "raw \<noteq> []"
  shows "decode_list_cursor key ws raw = Inr c \<longleftrightarrow>
    key \<noteq> 0 \<and> ws \<noteq> uuid_nil \<and> lc_id c \<noteq> uuid_nil \<and> lc_created_at c \<noteq> zero_time
    \<and> in_int64 (lc_created_at c)
    \<and> b64_decode_strict raw
        = Some (cursor_payload ws c @ endpoint_cursor_mac key (cursor_payload ws c))"
  (is "?L \<longleftrightarrow> ?R")
proof
  assume ?L
  then obtain d where d: "b64_decode_strict raw = Some d" and len: "length d = 73"
    and v: "d ! 0 = byte_of 1" and mac: "drop 41 d = endpoint_cursor_mac key (take 41 d)"
    and w: "take 16 (drop 1 d) = uuid_bytes ws"
    and c: "c = \<lparr>lc_created_at = get_int64 (take 8 (drop 17 d)),
                lc_id = uuid_of_bytes (take 16 (drop 25 d))\<rparr>"
    and g: "key \<noteq> 0" "ws \<noteq> uuid_nil" "lc_id c \<noteq> uuid_nil" "lc_created_at c \<noteq> zero_time"
    using assms by (auto simp: decode_list_cursor_def Let_def split: option.splits if_splits)
  have "take 41 d = cursor_payload ws c"
    using payload_of_parts [of "take 41 d" ws] len v w by (simp add: c drop_take)
  moreover have "d = take 41 d @ drop 41 d" by simp
  ultimately show ?R using d mac g by (simp add: c get_int64_range)
next
  assume ?R
  then show ?L using assms cursor_payload_parts [of ws c]
    by (simp add: decode_list_cursor_def Let_def endpoint_cursor_mac_def hmac.length_mac
        nth_append unix_nano_def get_put_int64)
qed

section \<open>Properties\<close>

lemma length_raw_cursor:
  "length (b64_encode (cursor_payload ws c @ cursor_mac key p)) = 98"
  by (simp add: length_b64_encode cursor_mac_def hmac.length_mac)

lemma cursor_not_Nil [simp]: "cursor_payload ws c \<noteq> []"
  by (metis length_cursor_payload list.size(3) zero_neq_numeral)

lemma cursor_back:
  assumes "in_int64 (lc_created_at c)"
  shows "(encode_cursor key ws c = Inr raw \<longrightarrow> raw \<noteq> [] \<and> decode_cursor key ws raw = Inr c)
    \<and> (encode_list_cursor key ws c = Inr raw' \<longrightarrow> raw' \<noteq> [] \<and> decode_list_cursor key ws raw' = Inr c)"
  using assms
  by (auto simp: encode_cursor_def encode_list_cursor_def Let_def decode_cursor_iff
      decode_list_cursor_iff length_b64_encode cursor_mac_def
      endpoint_cursor_mac_def hmac.length_mac split: if_splits)

text \<open>A cursor handed out for a page is read back as the same position, for the workspace it was
  made for, for every creation time that fits in 64 bits of nanoseconds; this holds of both lists.\<close>
theorem cursor_roundtrip:
  assumes "in_int64 (lc_created_at c)"
  shows "(encode_cursor key ws c = Inr raw \<longrightarrow> raw \<noteq> [] \<and> decode_cursor key ws raw = Inr c)
    \<and> (encode_list_cursor key ws c = Inr raw' \<longrightarrow> raw' \<noteq> [] \<and> decode_list_cursor key ws raw' = Inr c)"
  using assms by (rule cursor_back)

theorem cursor_roundtrip_witness:
  "\<exists>raw. encode_cursor 9 5 \<lparr>lc_created_at = 1700000000000000000, lc_id = 3\<rparr> = Inr raw
     \<and> decode_cursor 9 5 raw = Inr \<lparr>lc_created_at = 1700000000000000000, lc_id = 3\<rparr>"
proof -
  let ?c = "\<lparr>lc_created_at = 1700000000000000000, lc_id = 3\<rparr>"
  obtain raw where raw: "encode_cursor 9 5 ?c = Inr raw"
    by (simp add: encode_cursor_def zero_time_def Let_def)
  have "in_int64 (lc_created_at ?c)" by (simp add: in_int64_def)
  from cursor_roundtrip [OF this, of 9 5 raw] raw show ?thesis by blast
qed

text \<open>A cursor that decodes is, newlines apart, the one the server encodes for that position and
  that workspace: its tag is the HMAC of its content, and no other workspace can use it.\<close>
theorem cursor_bound:
  assumes "raw \<noteq> []" and "ws' \<noteq> ws"
  shows "(decode_cursor key ws raw = Inr c \<longrightarrow>
            encode_cursor key ws c = Inr (skip_newlines raw) \<and> decode_cursor key ws' raw = Inl Err_invalid_list)
    \<and> (decode_list_cursor key ws raw = Inr c \<longrightarrow>
            encode_list_cursor key ws c = Inr (skip_newlines raw)
            \<and> decode_list_cursor key ws' raw = Inl Err_invalid_list)"
proof -
  have ws: "take 16 (drop 1 (cursor_payload ws c @ t)) \<noteq> uuid_bytes ws'" for t
    using cursor_payload_parts(2) [of ws c] assms(2) by simp
  have inl: "x = Inl Err_invalid_list" if "\<And>d. x \<noteq> Inr d" "\<And>e. x = Inl e \<Longrightarrow> e = Err_invalid_list"
    for x :: "list_error + list_cursor"
    using that by (cases x) auto
  have "decode_cursor key ws' raw = Inl Err_invalid_list" if "decode_cursor key ws raw = Inr c"
  proof (rule inl)
    show "decode_cursor key ws' raw \<noteq> Inr d" for d
      using that ws uuid_bytes_inj assms by (auto simp: decode_cursor_iff cursor_payload_def)
    show "decode_cursor key ws' raw = Inl e \<Longrightarrow> e = Err_invalid_list" for e
      by (auto simp: decode_cursor_def Let_def split: if_splits option.splits)
  qed
  moreover have "decode_list_cursor key ws' raw = Inl Err_invalid_list"
    if "decode_list_cursor key ws raw = Inr c"
  proof (rule inl)
    show "decode_list_cursor key ws' raw \<noteq> Inr d" for d
      using that ws uuid_bytes_inj assms by (auto simp: decode_list_cursor_iff cursor_payload_def)
    show "decode_list_cursor key ws' raw = Inl e \<Longrightarrow> e = Err_invalid_list" for e
      by (auto simp: decode_list_cursor_def Let_def split: if_splits option.splits)
  qed
  ultimately show ?thesis using assms
    by (auto simp: decode_cursor_iff decode_list_cursor_iff encode_cursor_def encode_list_cursor_def
        Let_def dest: b64_decode_strict_canonical)
qed

theorem cursor_bound_witness:
  "\<exists>raw c. decode_cursor 9 5 raw = Inr c \<and> decode_cursor 9 6 raw = Inl Err_invalid_list"
proof -
  let ?c = "\<lparr>lc_created_at = 1700000000000000000, lc_id = 3\<rparr>"
  let ?raw = "b64_encode (cursor_payload 5 ?c @ cursor_mac 9 (cursor_payload 5 ?c))"
  have ne: "?raw \<noteq> []" using length_raw_cursor by (metis list.size(3) zero_neq_numeral)
  then have "decode_cursor 9 5 ?raw = Inr ?c"
    by (simp add: decode_cursor_iff length_raw_cursor in_int64_def zero_time_def)
  with cursor_bound [OF ne, of 6 5 9 ?c] show ?thesis by auto
qed

end
