(* ===== verification/Cryptobox.thy ===== *)
theory Cryptobox
  imports Go_Strings Go_Base64 Go_Crypto
begin

text \<open>
  \<open>internal/platform/cryptobox\<close>: envelopes sealed under a versioned keyring, the unambiguous
  associated data, and the loading of peppers and keyrings.
  The random nonce is an argument (\<open>None\<close> when \<open>rand.Read\<close> fails); the content of mounted
  files is a table of directory entries; the JSON decoder of the keyring document, which belongs
  to \<open>encoding/json\<close>, is an argument of which nothing is assumed.
\<close>

datatype crypto_error =
    Err_primary_unavailable | Err_generate_nonce | Err_invalid_envelope | Err_key_unavailable
  | Err_authentication_failed | Err_invalid_keyring | Err_duplicate_version | Err_duplicate_material
  | Err_missing_primary | Err_invalid_key | Err_read_pepper | Err_invalid_pepper | Err_read_keyring
  | Err_payload_unavailable | Err_signing_unavailable
  | Err_unsafe_file | Err_unsafe_owner | Err_open_file | Err_file_changed | Err_secret_size

section \<open>Envelopes\<close>

definition legacy_format_version :: int where "legacy_format_version = 1"
definition format_version :: int where "format_version = 2"

record envelope =
  env_format :: int
  env_kek :: int
  env_nonce :: bytes
  env_ciphertext :: bytes

record keyring =
  kr_primary :: int
  kr_keys :: "int \<rightharpoonup> key256"

text \<open>A \<open>cipher.AEAD\<close> is represented by its key; \<open>aes.NewCipher\<close> does not fail on 32 bytes.\<close>

definition primary_cipher :: "keyring \<Rightarrow> crypto_error + (key256 \<times> int)" where
  "primary_cipher kr =
     (case kr_keys kr (kr_primary kr) of
        None \<Rightarrow> Inl Err_primary_unavailable
      | Some key \<Rightarrow> Inr (key, kr_primary kr))"

definition seal_envelope ::
    "keyring \<Rightarrow> bytes option \<Rightarrow> bytes \<Rightarrow> bytes \<Rightarrow> crypto_error + envelope" where
  "seal_envelope kr rnd plaintext aad =
     (case primary_cipher kr of
        Inl e \<Rightarrow> Inl e
      | Inr (key, keyVersion) \<Rightarrow>
          (case rnd of
             None \<Rightarrow> Inl Err_generate_nonce
           | Some nonce \<Rightarrow>
               Inr \<lparr>env_format = format_version, env_kek = keyVersion, env_nonce = nonce,
                    env_ciphertext = gcm_seal (key_bytes key) nonce plaintext aad\<rparr>))"

definition envelope_valid :: "envelope \<Rightarrow> bool" where
  "envelope_valid e \<longleftrightarrow>
     \<not> ((env_format e \<noteq> legacy_format_version \<and> env_format e \<noteq> format_version)
        \<or> env_kek e \<le> 0 \<or> length (env_nonce e) \<noteq> 12 \<or> length (env_ciphertext e) < 16)"

definition open_envelope :: "keyring \<Rightarrow> envelope \<Rightarrow> bytes \<Rightarrow> crypto_error + bytes" where
  "open_envelope kr e aad =
     (if \<not> envelope_valid e then Inl Err_invalid_envelope
      else case kr_keys kr (env_kek e) of
        None \<Rightarrow> Inl Err_key_unavailable
      | Some key \<Rightarrow>
          (case gcm_open (key_bytes key) (env_nonce e) (env_ciphertext e) aad of
             None \<Rightarrow> Inl Err_authentication_failed
           | Some plaintext \<Rightarrow> Inr plaintext))"

text \<open>\<open>AAD(parts...)\<close>: every part preceded by its length in four big-endian bytes.\<close>

definition aad :: "string list \<Rightarrow> bytes" where
  "aad parts = concat (map (\<lambda>p. be_bytes 4 (length p) @ p) parts)"

lemma aad_inj_aux:
  assumes "\<forall>p\<in>set ps. length p < 2 ^ 32" and "\<forall>q\<in>set qs. length q < 2 ^ 32"
    and "aad ps = aad qs"
  shows "ps = qs"
  using assms
proof (induction ps arbitrary: qs)
  case Nil
  then show ?case by (cases qs) (auto simp: aad_def dest: arg_cong [of _ _ length])
next
  case (Cons p ps)
  then obtain q qs' where qs: "qs = q # qs'"
    by (cases qs) (auto simp: aad_def dest: arg_cong [of _ _ length])
  have e: "be_bytes 4 (length p) @ (p @ aad ps) = be_bytes 4 (length q) @ (q @ aad qs')"
    using Cons.prems(3) by (simp add: qs aad_def)
  then have "be_bytes 4 (length p) = be_bytes 4 (length q)" and r: "p @ aad ps = q @ aad qs'"
    by (simp_all add: append_eq_append_conv)
  then have "length p = length q"
    using Cons.prems(1,2) by (intro be_bytes_inj [of _ 4]) (auto simp: qs)
  with r have "p = q" and "aad ps = aad qs'" by auto
  with Cons qs show ?case by auto
qed

section \<open>Secret files\<close>

text \<open>
  What \<open>os.Lstat\<close>, \<open>os.Open\<close> and \<open>file.Stat\<close> report of a path. \<open>fe_same\<close> says whether the
  opened file is the one that was examined; \<open>fe_raw\<close> is the content, \<open>None\<close> if it cannot be read.
\<close>

record file_entry =
  fe_symlink :: bool
  fe_regular :: bool
  fe_perm :: nat
  fe_owner :: "nat option"
  fe_opens :: bool
  fe_same :: bool
  fe_raw :: "bytes option"

definition secure_read ::
    "nat \<Rightarrow> (string \<rightharpoonup> file_entry) \<Rightarrow> string \<Rightarrow> crypto_error + bytes" where
  "secure_read euid fs path =
     (case fs path of
        None \<Rightarrow> Inl Err_unsafe_file
      | Some f \<Rightarrow>
          if fe_symlink f \<or> \<not> fe_regular f \<or> fe_perm f mod 64 \<noteq> 0 then Inl Err_unsafe_file
          else if fe_owner f \<noteq> Some euid then Inl Err_unsafe_owner
          else if \<not> fe_opens f then Inl Err_open_file
          else if \<not> fe_same f then Inl Err_file_changed
          else case fe_raw f of
            None \<Rightarrow> Inl Err_secret_size
          | Some content \<Rightarrow>
              let raw = take (65536 + 1) content
              in if length raw = 0 \<or> length raw > 65536 then Inl Err_secret_size else Inr raw)"

section \<open>Peppers and keyrings\<close>

record materials =
  m_auth_pepper :: key256
  m_idempotency_pepper :: key256
  m_fingerprint_pepper :: key256
  m_rate_limit_pepper :: key256
  m_cursor_pepper :: key256
  m_session_pepper :: key256
  m_csrf_pepper :: key256
  m_payload :: keyring
  m_signing :: keyring

record key_entry =
  ke_version :: int
  ke_material :: string

record keyring_document =
  kd_format_version :: int
  kd_primary_key_version :: int
  kd_keys :: "key_entry list"

definition materials_ready :: "materials \<Rightarrow> crypto_error + unit" where
  "materials_ready m =
     (if kr_keys (m_payload m) (kr_primary (m_payload m)) = None \<or> kr_primary (m_payload m) \<le> 0
      then Inl Err_payload_unavailable
      else if kr_keys (m_signing m) (kr_primary (m_signing m)) = None \<or> kr_primary (m_signing m) \<le> 0
      then Inl Err_signing_unavailable
      else Inr ())"

definition dev_key :: "string \<Rightarrow> key256" where
  "dev_key label = key_of_bytes (sha256 (''wde-local-only:'' @ label))"

definition development_materials :: materials where
  "development_materials =
     \<lparr>m_auth_pepper = dev_key ''auth'', m_idempotency_pepper = dev_key ''idempotency'',
      m_fingerprint_pepper = dev_key ''fingerprint'', m_rate_limit_pepper = dev_key ''rate-limit'',
      m_cursor_pepper = dev_key ''cursor'', m_session_pepper = dev_key ''console-session'',
      m_csrf_pepper = dev_key ''console-csrf'',
      m_payload = \<lparr>kr_primary = 1, kr_keys = [1 \<mapsto> dev_key ''payload-kek'']\<rparr>,
      m_signing = \<lparr>kr_primary = 1, kr_keys = [1 \<mapsto> dev_key ''signing-kek'']\<rparr>\<rparr>"

definition trim_v1 :: "string \<Rightarrow> string" where
  "trim_v1 value =
     (let v = rev (dropWhile (\<lambda>c. byte_val c = 10 \<or> byte_val c = 13 \<or> byte_val c = 32) (rev value))
      in if length v \<ge> 3 \<and> take 3 v = ''v1:'' then drop 3 v else [])"

definition read_pepper ::
    "nat \<Rightarrow> (string \<rightharpoonup> file_entry) \<Rightarrow> string \<Rightarrow> crypto_error + key256" where
  "read_pepper euid fs path =
     (case secure_read euid fs path of
        Inl e \<Rightarrow> Inl Err_read_pepper
      | Inr raw \<Rightarrow>
          (case b64_decode_strict (trim_v1 raw) of
             None \<Rightarrow> Inl Err_invalid_pepper
           | Some decoded \<Rightarrow>
               if length decoded \<noteq> 32 then Inl Err_invalid_pepper else Inr (key_of_bytes decoded)))"

definition decode_key :: "int \<Rightarrow> string \<Rightarrow> crypto_error + key256" where
  "decode_key version material =
     (case b64_decode_strict material of
        None \<Rightarrow> Inl Err_invalid_key
      | Some decoded \<Rightarrow>
          if length decoded \<noteq> 32 \<or> version \<le> 0 \<or> version > 32767 then Inl Err_invalid_key
          else Inr (key_of_bytes decoded))"

text \<open>
  \<open>decodeKeyring\<close>: \<open>decode\<close> stands for decoding the document with unknown fields refused and
  nothing after it.
\<close>

definition decode_keyring ::
    "(bytes \<Rightarrow> keyring_document option) \<Rightarrow> bytes \<Rightarrow> crypto_error + keyring_document" where
  "decode_keyring decode raw =
     (case decode raw of
        None \<Rightarrow> Inl Err_invalid_keyring
      | Some d \<Rightarrow>
          if kd_format_version d \<noteq> 1 \<or> length (kd_keys d) < 1 \<or> length (kd_keys d) > 8
          then Inl Err_invalid_keyring else Inr d)"

primrec add_keys :: "key_entry list \<Rightarrow> (int \<rightharpoonup> key256) \<Rightarrow> key256 set \<Rightarrow> crypto_error + (int \<rightharpoonup> key256)" where
  "add_keys [] keys seen = Inr keys"
| "add_keys (entry # rest) keys seen =
     (case decode_key (ke_version entry) (ke_material entry) of
        Inl e \<Rightarrow> Inl e
      | Inr key \<Rightarrow>
          if keys (wrap16 (ke_version entry)) \<noteq> None then Inl Err_duplicate_version
          else if key \<in> seen then Inl Err_duplicate_material
          else add_keys rest (keys(wrap16 (ke_version entry) \<mapsto> key)) (insert key seen))"

definition document_keyring :: "keyring_document \<Rightarrow> crypto_error + keyring" where
  "document_keyring d =
     (let primary = wrap16 (kd_primary_key_version d)
      in case add_keys (kd_keys d) Map.empty {} of
           Inl e \<Rightarrow> Inl e
         | Inr keys \<Rightarrow>
             if keys primary = None then Inl Err_missing_primary
             else Inr \<lparr>kr_primary = primary, kr_keys = keys\<rparr>)"

definition read_keyring ::
    "(bytes \<Rightarrow> keyring_document option) \<Rightarrow> nat \<Rightarrow> (string \<rightharpoonup> file_entry) \<Rightarrow> string \<Rightarrow> crypto_error + keyring"
where
  "read_keyring decode euid fs path =
     (case secure_read euid fs path of
        Inl e \<Rightarrow> Inl Err_read_keyring
      | Inr raw \<Rightarrow>
          (case decode_keyring decode raw of
             Inl e \<Rightarrow> Inl e
           | Inr d \<Rightarrow> document_keyring d))"

record secret_files =
  sf_auth_pepper :: string
  sf_idempotency_pepper :: string
  sf_fingerprint_pepper :: string
  sf_rate_limit_pepper :: string
  sf_cursor_pepper :: string
  sf_session_pepper :: string
  sf_csrf_pepper :: string
  sf_payload_keyring :: string
  sf_signing_keyring :: string

definition zero_materials :: materials where
  "zero_materials =
     \<lparr>m_auth_pepper = 0, m_idempotency_pepper = 0, m_fingerprint_pepper = 0, m_rate_limit_pepper = 0,
      m_cursor_pepper = 0, m_session_pepper = 0, m_csrf_pepper = 0,
      m_payload = \<lparr>kr_primary = 0, kr_keys = Map.empty\<rparr>,
      m_signing = \<lparr>kr_primary = 0, kr_keys = Map.empty\<rparr>\<rparr>"

primrec read_pepper_list ::
    "nat \<Rightarrow> (string \<rightharpoonup> file_entry) \<Rightarrow> (string \<times> (key256 \<Rightarrow> materials \<Rightarrow> materials)) list \<Rightarrow> materials
      \<Rightarrow> crypto_error + materials" where
  "read_pepper_list euid fs [] m = Inr m"
| "read_pepper_list euid fs (pt # rest) m =
     (case read_pepper euid fs (fst pt) of
        Inl e \<Rightarrow> Inl e
      | Inr pepper \<Rightarrow> read_pepper_list euid fs rest (snd pt pepper m))"

definition read_peppers ::
    "nat \<Rightarrow> (string \<rightharpoonup> file_entry) \<Rightarrow> secret_files \<Rightarrow> crypto_error + materials" where
  "read_peppers euid fs files =
     (if sf_auth_pepper files = [] \<and> sf_idempotency_pepper files = []
         \<and> sf_fingerprint_pepper files = [] \<and> sf_rate_limit_pepper files = []
         \<and> sf_cursor_pepper files = []
      then Inr zero_materials
      else
        read_pepper_list euid fs
          ([(sf_auth_pepper files, \<lambda>k. m_auth_pepper_update (\<lambda>_. k)),
            (sf_idempotency_pepper files, \<lambda>k. m_idempotency_pepper_update (\<lambda>_. k)),
            (sf_fingerprint_pepper files, \<lambda>k. m_fingerprint_pepper_update (\<lambda>_. k)),
            (sf_rate_limit_pepper files, \<lambda>k. m_rate_limit_pepper_update (\<lambda>_. k)),
            (sf_cursor_pepper files, \<lambda>k. m_cursor_pepper_update (\<lambda>_. k))]
           @ (if sf_session_pepper files \<noteq> []
              then [(sf_session_pepper files, \<lambda>k. m_session_pepper_update (\<lambda>_. k))] else [])
           @ (if sf_csrf_pepper files \<noteq> []
              then [(sf_csrf_pepper files, \<lambda>k. m_csrf_pepper_update (\<lambda>_. k))] else []))
          zero_materials)"

definition load_materials ::
    "(bytes \<Rightarrow> keyring_document option) \<Rightarrow> nat \<Rightarrow> (string \<rightharpoonup> file_entry) \<Rightarrow> bool \<Rightarrow> secret_files
      \<Rightarrow> crypto_error + materials" where
  "load_materials decode euid fs production files =
     (if \<not> production then Inr development_materials
      else case read_peppers euid fs files of
        Inl e \<Rightarrow> Inl e
      | Inr peppers \<Rightarrow>
          (case read_keyring decode euid fs (sf_payload_keyring files) of
             Inl e \<Rightarrow> Inl e
           | Inr payload \<Rightarrow>
               (case read_keyring decode euid fs (sf_signing_keyring files) of
                  Inl e \<Rightarrow> Inl e
                | Inr signing \<Rightarrow> Inr (peppers\<lparr>m_payload := payload, m_signing := signing\<rparr>))))"

section \<open>What envelopes promise\<close>

lemma open_envelope_iff:
  "open_envelope kr e a = Inr m \<longleftrightarrow>
     envelope_valid e \<and> (\<exists>key. kr_keys kr (env_kek e) = Some key
        \<and> env_ciphertext e = gcm_seal (key_bytes key) (env_nonce e) m a)"
  unfolding gcm.unseal_iff [OF length_key_bytes, symmetric]
  by (auto simp: open_envelope_def split: option.splits)

lemma seal_envelope_iff:
  "seal_envelope kr rnd m a = Inr e \<longleftrightarrow>
     (\<exists>key nonce. kr_keys kr (kr_primary kr) = Some key \<and> rnd = Some nonce
        \<and> e = \<lparr>env_format = format_version, env_kek = kr_primary kr, env_nonce = nonce,
               env_ciphertext = gcm_seal (key_bytes key) nonce m a\<rparr>)"
  by (auto simp: seal_envelope_def primary_cipher_def split: option.splits)

lemma seal_envelope_valid:
  assumes "seal_envelope kr (Some nonce) m a = Inr e" and "length nonce = 12" and "0 < kr_primary kr"
  shows "envelope_valid e"
  using assms by (auto simp: seal_envelope_iff envelope_valid_def gcm.length_seal)

lemma open_seal_envelope:
  assumes "seal_envelope kr (Some nonce) m a = Inr e" and "length nonce = 12" and "0 < kr_primary kr"
    and "kr_keys kr' (kr_primary kr) = kr_keys kr (kr_primary kr)"
  shows "open_envelope kr' e a = Inr m"
  using seal_envelope_valid [OF assms(1-3)] assms(1,4)
  by (auto simp: open_envelope_iff seal_envelope_iff)

text \<open>The keys a document yields: versions in the 16-bit range, every key of a different material.\<close>

lemma decode_key_Inr:
  "decode_key v s = Inr k \<Longrightarrow>
     0 < v \<and> v \<le> 32767 \<and> wrap16 v = v \<and> b64_encode (key_bytes k) = skip_newlines s"
  by (auto simp: decode_key_def in_int16_def key_bytes_of_bytes b64_decode_strict_canonical
      split: option.splits if_splits)

lemma add_keys_Inr:
  assumes "add_keys es keys seen = Inr keys'" and "ran keys = seen" and "inj_on keys (dom keys)"
    and "\<forall>v\<in>dom keys. 0 < v \<and> v \<le> 32767"
  shows "inj_on keys' (dom keys') \<and> (\<forall>v\<in>dom keys'. 0 < v \<and> v \<le> 32767)
    \<and> dom keys' = dom keys \<union> ke_version ` set es \<and> distinct (map ke_version es)
    \<and> (\<forall>e\<in>set es. ke_version e \<notin> dom keys
         \<and> (\<exists>k. keys' (ke_version e) = Some k \<and> b64_encode (key_bytes k) = skip_newlines (ke_material e)))
    \<and> (\<forall>v\<in>dom keys. keys' v = keys v)"
  using assms
proof (induction es arbitrary: keys seen)
  case (Cons e es)
  from Cons.prems(1) obtain k where k: "decode_key (ke_version e) (ke_material e) = Inr k"
    by (auto split: sum.splits)
  note d = decode_key_Inr [OF k]
  let ?v = "ke_version e"
  have new: "keys ?v = None" "k \<notin> seen" and rest: "add_keys es (keys(?v \<mapsto> k)) (insert k seen) = Inr keys'"
    using Cons.prems(1) k d by (auto split: if_splits)
  have "ran (keys(?v \<mapsto> k)) = insert k seen" using new Cons.prems(2) by simp
  moreover have "inj_on (keys(?v \<mapsto> k)) (dom (keys(?v \<mapsto> k)))"
    using new Cons.prems(2,3) by (auto simp: inj_on_def ran_def)
  moreover have "\<forall>v\<in>dom (keys(?v \<mapsto> k)). 0 < v \<and> v \<le> 32767" using Cons.prems(4) d by auto
  ultimately have ih: "inj_on keys' (dom keys') \<and> (\<forall>v\<in>dom keys'. 0 < v \<and> v \<le> 32767)
    \<and> dom keys' = dom (keys(?v \<mapsto> k)) \<union> ke_version ` set es \<and> distinct (map ke_version es)
    \<and> (\<forall>e\<in>set es. ke_version e \<notin> dom (keys(?v \<mapsto> k))
         \<and> (\<exists>k. keys' (ke_version e) = Some k \<and> b64_encode (key_bytes k) = skip_newlines (ke_material e)))
    \<and> (\<forall>v\<in>dom (keys(?v \<mapsto> k)). keys' v = (keys(?v \<mapsto> k)) v)"
    using Cons.IH [OF rest] by blast
  then have "keys' ?v = Some k" by auto
  with ih d new show ?case by (auto split: if_splits)
qed auto

lemma document_keyring_Inr:
  assumes "document_keyring d = Inr kr"
  shows "inj_on (kr_keys kr) (dom (kr_keys kr)) \<and> (\<forall>v\<in>dom (kr_keys kr). 0 < v \<and> v \<le> 32767)
    \<and> dom (kr_keys kr) = ke_version ` set (kd_keys d) \<and> distinct (map ke_version (kd_keys d))
    \<and> (\<forall>e\<in>set (kd_keys d). \<exists>k. kr_keys kr (ke_version e) = Some k
          \<and> b64_encode (key_bytes k) = skip_newlines (ke_material e))
    \<and> kr_primary kr = wrap16 (kd_primary_key_version d) \<and> kr_primary kr \<in> dom (kr_keys kr)"
proof -
  from assms obtain keys where keys: "add_keys (kd_keys d) Map.empty {} = Inr keys"
    and kr: "kr = \<lparr>kr_primary = wrap16 (kd_primary_key_version d), kr_keys = keys\<rparr>"
    and pr: "keys (wrap16 (kd_primary_key_version d)) \<noteq> None"
    by (auto simp: document_keyring_def Let_def split: sum.splits if_splits)
  from add_keys_Inr [OF keys] show ?thesis by (auto simp: kr pr[unfolded not_None_eq])
qed

section \<open>Properties\<close>

text \<open>C7. What \<open>Seal\<close> produces under a keyring, \<open>Open\<close> returns under the same associated data, and
  so does every later keyring that still holds the sealing key under its version: rotating the
  primary key does not lose data.\<close>
theorem open_seal_roundtrip:
  assumes "seal_envelope kr (Some nonce) m a = Inr e" and "length nonce = 12" and "0 < kr_primary kr"
    and "kr_keys kr' (kr_primary kr) = kr_keys kr (kr_primary kr)"
  shows "envelope_valid e \<and> open_envelope kr' e a = Inr m"
  using open_seal_envelope [OF assms] seal_envelope_valid [OF assms(1-3)] by blast

theorem open_seal_roundtrip_witness:
  "\<exists>e. open_envelope \<lparr>kr_primary = 2, kr_keys = [1 \<mapsto> 5, 2 \<mapsto> 6]\<rparr> e ''aad'' = Inr ''text''
     \<and> env_kek e = 1"
proof -
  obtain e where e: "seal_envelope \<lparr>kr_primary = 1, kr_keys = [1 \<mapsto> 5]\<rparr> (Some ''0123456789ab'') ''text'' ''aad''
      = Inr e" and "env_kek e = 1"
    by (simp add: seal_envelope_def primary_cipher_def)
  with open_seal_roundtrip [OF e, of "\<lparr>kr_primary = 2, kr_keys = [1 \<mapsto> 5, 2 \<mapsto> 6]\<rparr>"]
  show ?thesis by auto
qed

text \<open>C8. Whatever opens is the sealing of its result: the envelope is well formed, the keyring
  holds its key version, and the ciphertext is what \<open>gcm.Seal\<close> gives for that key, nonce, text and
  associated data.\<close>
theorem open_envelope_sound:
  assumes "open_envelope kr e a = Inr m"
  shows "envelope_valid e \<and> (\<exists>key. kr_keys kr (env_kek e) = Some key
           \<and> env_ciphertext e = gcm_seal (key_bytes key) (env_nonce e) m a
           \<and> length (env_ciphertext e) = length m + 16)"
  using assms by (auto simp: open_envelope_iff gcm.length_seal)

theorem open_envelope_sound_witness:
  "length (gcm_seal (key_bytes 5) ''0123456789ab'' ''text'' ''aad'') = length ''text'' + 16"
proof -
  have "open_envelope \<lparr>kr_primary = 1, kr_keys = [1 \<mapsto> 5]\<rparr>
      \<lparr>env_format = 2, env_kek = 1, env_nonce = ''0123456789ab'',
       env_ciphertext = gcm_seal (key_bytes 5) ''0123456789ab'' ''text'' ''aad''\<rparr> ''aad'' = Inr ''text''"
    by (simp add: open_envelope_iff envelope_valid_def format_version_def gcm.length_seal)
  from open_envelope_sound [OF this] show ?thesis by auto
qed

text \<open>The associated data is unambiguous: two lists of parts (each shorter than \<open>2 ^ 32\<close> bytes)
  give the same bytes only if they are the same list.\<close>
theorem aad_injective:
  assumes "\<forall>p\<in>set ps. length p < 2 ^ 32" and "\<forall>q\<in>set qs. length q < 2 ^ 32"
    and "aad ps = aad qs"
  shows "ps = qs"
  using assms by (rule aad_inj_aux)

theorem aad_injective_witness: "[''2'', ''ws''] = [''2'', ''ws'']"
  by (rule aad_injective) simp_all

text \<open>A keyring read from a document has exactly the document's versions, all in 1..32767 and
  all distinct, each with the 32 bytes its entry encodes; no two versions share a key, and the
  primary version is one of them.\<close>
theorem document_keyring_wellformed:
  assumes "document_keyring d = Inr kr"
  shows "dom (kr_keys kr) = ke_version ` set (kd_keys d) \<and> distinct (map ke_version (kd_keys d))
    \<and> (\<forall>v\<in>dom (kr_keys kr). 0 < v \<and> v \<le> 32767) \<and> inj_on (kr_keys kr) (dom (kr_keys kr))
    \<and> (\<forall>e\<in>set (kd_keys d). \<exists>k. kr_keys kr (ke_version e) = Some k
          \<and> b64_encode (key_bytes k) = skip_newlines (ke_material e))
    \<and> kr_primary kr \<in> dom (kr_keys kr)"
  using document_keyring_Inr [OF assms] by blast

text \<open>The primary version is truncated to 16 bits before it is looked up: a document that names
  a primary version \<open>65536 + v\<close> which none of its keys has loads with \<open>v\<close> as its primary key.\<close>
theorem keyring_primary_truncated:
  assumes "document_keyring d = Inr kr" and "kd_primary_key_version d = kr_primary kr"
  shows "document_keyring (d\<lparr>kd_primary_key_version := kr_primary kr + 65536\<rparr>) = Inr kr"
proof -
  have "wrap16 (kr_primary kr + 65536) = wrap16 (kr_primary kr)"
    by (rule wrap16_add)
  then show ?thesis using assms by (simp add: document_keyring_def split: sum.splits)
qed

theorem keyring_primary_truncated_witness:
  "document_keyring \<lparr>kd_format_version = 1, kd_primary_key_version = 1 + 65536,
      kd_keys = [\<lparr>ke_version = 1, ke_material = b64_encode (key_bytes 7)\<rparr>]\<rparr>
    = Inr \<lparr>kr_primary = 1, kr_keys = [1 \<mapsto> 7]\<rparr>"
  using keyring_primary_truncated [of "\<lparr>kd_format_version = 1, kd_primary_key_version = 1,
      kd_keys = [\<lparr>ke_version = 1, ke_material = b64_encode (key_bytes 7)\<rparr>]\<rparr>"
      "\<lparr>kr_primary = 1, kr_keys = [1 \<mapsto> 7]\<rparr>"]
  by (simp add: document_keyring_def decode_key_def in_int16_def)

theorem document_keyring_wellformed_witness:
  "(1::int) \<in> dom [1 \<mapsto> (7::key256)]"
proof -
  have "document_keyring \<lparr>kd_format_version = 1, kd_primary_key_version = 1,
      kd_keys = [\<lparr>ke_version = 1, ke_material = b64_encode (key_bytes 7)\<rparr>]\<rparr>
    = Inr \<lparr>kr_primary = 1, kr_keys = [1 \<mapsto> 7]\<rparr>"
    by (simp add: document_keyring_def decode_key_def in_int16_def)
  from document_keyring_wellformed [OF this] show ?thesis by simp
qed

end
