(* ===== verification/Queue_Db.thy ===== *)
theory Queue_Db
  imports Cryptobox "HOL-Library.Product_Lexorder"
begin

text \<open>
  The delivery queue as the SQL functions of \<open>db/migrations\<close> implement it: claiming with leases
  and fencing tokens, finalisation, recovery of exhausted deliveries, replay, the purge of expired
  payloads and the restore quarantine. A table is a list of rows; \<open>UPDATE ... WHERE\<close> is
  \<open>update_where\<close>; \<open>RAISE EXCEPTION\<close> is \<open>Inl\<close> with the message, and leaves the database as it was.
  \<open>statement_timestamp()\<close> and \<open>transaction_timestamp()\<close> are the argument \<open>st\<close>; successive readings of
  \<open>clock_timestamp()\<close> are \<open>clk 0\<close>, \<open>clk 1\<close>, ..., of which nothing is assumed. Rows that
  \<open>SKIP LOCKED\<close> passes over because another transaction holds them are given by \<open>locked\<close>.
\<close>

section \<open>Tables\<close>

datatype delivery_status =
  Pending | Processing | Retry_scheduled | Succeeded | Failed_permanent | Dead_letter

record delivery_row =
  dr_ws :: uuid
  dr_id :: uuid
  dr_event :: uuid
  dr_endpoint :: uuid
  dr_status :: delivery_status
  dr_run :: int
  dr_attempts :: int
  dr_seq :: int
  dr_max :: int
  dr_next :: instant
  dr_owner :: "uuid option"
  dr_lease :: "instant option"
  dr_token :: int
  dr_error :: "string option"
  dr_succeeded :: "instant option"
  dr_terminal :: "instant option"
  dr_created :: instant
  dr_updated :: instant

datatype attempt_state = Started | Completed | Abandoned

record attempt_row =
  at_ws :: uuid
  at_delivery :: uuid
  at_id :: uuid
  at_run :: int
  at_number :: int
  at_seq :: int
  at_token :: int
  at_state :: attempt_state
  at_outcome :: "string option"
  at_http :: "int option"
  at_duration :: "int option"
  at_error :: "string option"
  at_started :: instant
  at_finished :: "instant option"

record endpoint_row =
  ep_ws :: uuid
  ep_id :: uuid
  ep_status :: string
  ep_max_concurrency :: nat
  ep_scheme :: string
  ep_host :: string
  ep_port :: int
  ep_target :: envelope
  ep_created :: instant

abbreviation ep_active :: "endpoint_row \<Rightarrow> bool" where
  "ep_active e \<equiv> ep_status e = ''active''"

record workspace_row =
  wr_id :: uuid
  wr_active :: bool
  wr_last_seq :: int

record runtime_row =
  rt_ws :: uuid
  rt_endpoint :: uuid
  rt_last_seq :: int

record event_row =
  er_ws :: uuid
  er_id :: uuid
  er_type :: string
  er_key_hash :: bytes
  er_fingerprint :: bytes
  er_fingerprint_version :: int
  er_payload :: "envelope option"
  er_expires :: instant
  er_purged :: "instant option"

datatype secret_state = Secret_active | Secret_retiring | Secret_purged

record secret_row =
  sr_ws :: uuid
  sr_endpoint :: uuid
  sr_id :: uuid
  sr_key_id :: string
  sr_state :: secret_state
  sr_secret :: "envelope option"
  sr_retire_at :: "instant option"

record replay_row =
  rc_id :: uuid
  rc_ws :: uuid
  rc_delivery :: uuid
  rc_key_hash :: bytes
  rc_fingerprint :: bytes
  rc_fingerprint_version :: int
  rc_new_run :: int
  rc_reason :: string

record db =
  db_workspaces :: "workspace_row list"
  db_endpoints :: "endpoint_row list"
  db_runtime :: "runtime_row list"
  db_events :: "event_row list"
  db_secrets :: "secret_row list"
  db_deliveries :: "delivery_row list"
  db_attempts :: "attempt_row list"
  db_replays :: "replay_row list"
  db_claim_seq :: int

type_synonym row_key = "uuid \<times> uuid"

definition dkey :: "delivery_row \<Rightarrow> row_key" where "dkey d = (dr_ws d, dr_id d)"
definition akey :: "attempt_row \<Rightarrow> row_key" where "akey a = (at_ws a, at_delivery a)"

text \<open>What \<open>claim_deliveries\<close> returns for one delivery.\<close>

record claim_row =
  cr_ws :: uuid
  cr_delivery :: uuid
  cr_event :: uuid
  cr_endpoint :: uuid
  cr_token :: int
  cr_attempt :: int
  cr_max :: int
  cr_scheme :: string
  cr_host :: string
  cr_port :: int
  cr_target :: envelope
  cr_event_type :: string
  cr_payload :: envelope
  cr_key_id :: string
  cr_secret_id :: uuid
  cr_secret :: envelope
  cr_retiring :: "(string \<times> uuid \<times> envelope) option"

section \<open>Claiming\<close>

definition lease_expired :: "instant \<Rightarrow> delivery_row \<Rightarrow> bool" where
  "lease_expired t d = (case dr_lease d of None \<Rightarrow> False | Some l \<Rightarrow> l \<le> t)"

definition lease_live :: "instant \<Rightarrow> delivery_row \<Rightarrow> bool" where
  "lease_live t d = (case dr_lease d of None \<Rightarrow> False | Some l \<Rightarrow> t < l)"

definition ready_at :: "instant \<Rightarrow> delivery_row \<Rightarrow> bool" where
  "ready_at t d \<longleftrightarrow>
     ((dr_status d = Pending \<or> dr_status d = Retry_scheduled) \<and> dr_next d \<le> t)
     \<or> (dr_status d = Processing \<and> lease_expired t d)"

definition find_endpoint :: "db \<Rightarrow> uuid \<Rightarrow> uuid \<Rightarrow> endpoint_row option" where
  "find_endpoint s ws ep =
     List.find (\<lambda>e. ep_ws e = ws \<and> ep_id e = ep \<and> ep_active e) (db_endpoints s)"

definition find_event :: "db \<Rightarrow> uuid \<Rightarrow> uuid \<Rightarrow> event_row option" where
  "find_event s ws ev =
     List.find (\<lambda>e. er_ws e = ws \<and> er_id e = ev \<and> er_payload e \<noteq> None) (db_events s)"

definition find_secret :: "db \<Rightarrow> uuid \<Rightarrow> uuid \<Rightarrow> secret_row option" where
  "find_secret s ws ep =
     List.find (\<lambda>v. sr_ws v = ws \<and> sr_endpoint v = ep \<and> sr_state v = Secret_active
                   \<and> sr_secret v \<noteq> None) (db_secrets s)"

definition find_workspace :: "db \<Rightarrow> uuid \<Rightarrow> workspace_row option" where
  "find_workspace s ws = List.find (\<lambda>w. wr_id w = ws \<and> wr_active w) (db_workspaces s)"

definition find_runtime :: "db \<Rightarrow> uuid \<Rightarrow> uuid \<Rightarrow> runtime_row option" where
  "find_runtime s ws ep =
     List.find (\<lambda>r. rt_ws r = ws \<and> rt_endpoint r = ep) (db_runtime s)"

definition active_count :: "db \<Rightarrow> uuid \<Rightarrow> uuid \<Rightarrow> instant \<Rightarrow> nat" where
  "active_count s ws ep t =
     count_where (\<lambda>d. dr_ws d = ws \<and> dr_endpoint d = ep \<and> dr_status d = Processing \<and> lease_live t d)
       (db_deliveries s)"

definition candidate_ok ::
    "db \<Rightarrow> instant \<Rightarrow> instant \<Rightarrow> (uuid \<Rightarrow> bool) \<Rightarrow> nat \<Rightarrow> nat \<Rightarrow> (uuid \<Rightarrow> nat) \<Rightarrow> (row_key \<Rightarrow> nat)
      \<Rightarrow> delivery_row \<Rightarrow> bool" where
  "candidate_ok s st now locked wl el wc ec d \<longleftrightarrow>
     ready_at st d \<and> dr_attempts d < dr_max d
     \<and> find_workspace s (dr_ws d) \<noteq> None
     \<and> (case find_endpoint s (dr_ws d) (dr_endpoint d) of
          None \<Rightarrow> False
        | Some ep \<Rightarrow> active_count s (dr_ws d) (dr_endpoint d) now < ep_max_concurrency ep)
     \<and> find_runtime s (dr_ws d) (dr_endpoint d) \<noteq> None
     \<and> find_event s (dr_ws d) (dr_event d) \<noteq> None
     \<and> find_secret s (dr_ws d) (dr_endpoint d) \<noteq> None
     \<and> wc (dr_ws d) < wl \<and> ec (dr_ws d, dr_endpoint d) < el
     \<and> \<not> locked (dr_id d)"

definition last_workspace_seq :: "db \<Rightarrow> uuid \<Rightarrow> int" where
  "last_workspace_seq s ws = (case find_workspace s ws of None \<Rightarrow> 0 | Some w \<Rightarrow> wr_last_seq w)"

definition last_runtime_seq :: "db \<Rightarrow> uuid \<Rightarrow> uuid \<Rightarrow> int" where
  "last_runtime_seq s ws ep = (case find_runtime s ws ep of None \<Rightarrow> 0 | Some r \<Rightarrow> rt_last_seq r)"

definition candidate_order ::
    "db \<Rightarrow> delivery_row \<Rightarrow> int \<times> int \<times> instant \<times> instant \<times> uuid \<times> uuid \<times> uuid" where
  "candidate_order s d =
     (last_workspace_seq s (dr_ws d), last_runtime_seq s (dr_ws d) (dr_endpoint d),
      dr_next d, dr_created d, dr_ws d, dr_endpoint d, dr_id d)"

definition select_delivery_candidate ::
    "db \<Rightarrow> instant \<Rightarrow> instant \<Rightarrow> (uuid \<Rightarrow> bool) \<Rightarrow> nat \<Rightarrow> nat \<Rightarrow> (uuid \<Rightarrow> nat) \<Rightarrow> (row_key \<Rightarrow> nat)
      \<Rightarrow> delivery_row option" where
  "select_delivery_candidate s st now locked wl el wc ec =
     (case sort_key (candidate_order s)
             (filter (candidate_ok s st now locked wl el wc ec) (db_deliveries s)) of
        [] \<Rightarrow> None
      | d # _ \<Rightarrow> Some d)"

definition claim_delivery_row :: "uuid \<Rightarrow> instant \<Rightarrow> duration \<Rightarrow> delivery_row \<Rightarrow> delivery_row" where
  "claim_delivery_row worker now ttl d =
     d\<lparr>dr_status := Processing, dr_owner := Some worker, dr_lease := Some (now + ttl),
       dr_token := dr_token d + 1, dr_attempts := dr_attempts d + 1, dr_seq := dr_seq d + 1,
       dr_updated := now\<rparr>"

definition abandon_attempt :: "instant \<Rightarrow> string \<Rightarrow> attempt_row \<Rightarrow> attempt_row" where
  "abandon_attempt now category a =
     a\<lparr>at_state := Abandoned, at_outcome := Some ''stale'', at_finished := Some now,
       at_error := Some category\<rparr>"

definition new_attempt :: "delivery_row \<Rightarrow> uuid \<Rightarrow> instant \<Rightarrow> attempt_row" where
  "new_attempt d attempt now =
     \<lparr>at_ws = dr_ws d, at_delivery = dr_id d, at_id = attempt, at_run = dr_run d,
      at_number = dr_attempts d, at_seq = dr_seq d, at_token = dr_token d, at_state = Started,
      at_outcome = None, at_http = None, at_duration = None, at_error = None,
      at_started = now, at_finished = None\<rparr>"

definition claim_result ::
    "delivery_row \<Rightarrow> endpoint_row \<Rightarrow> event_row \<Rightarrow> secret_row \<Rightarrow> claim_row" where
  "claim_result d ep ev sv =
     \<lparr>cr_ws = dr_ws d, cr_delivery = dr_id d, cr_event = dr_event d, cr_endpoint = dr_endpoint d,
      cr_token = dr_token d, cr_attempt = dr_attempts d, cr_max = dr_max d,
      cr_scheme = ep_scheme ep, cr_host = ep_host ep, cr_port = ep_port ep, cr_target = ep_target ep,
      cr_event_type = er_type ev, cr_payload = the (er_payload ev),
      cr_key_id = sr_key_id sv, cr_secret_id = sr_id sv, cr_secret = the (sr_secret sv),
      cr_retiring = None\<rparr>"

definition claim_one_delivery ::
    "uuid \<Rightarrow> uuid \<Rightarrow> duration \<Rightarrow> instant \<Rightarrow> (nat \<Rightarrow> instant) \<Rightarrow> (uuid \<Rightarrow> bool) \<Rightarrow> nat \<Rightarrow> nat
      \<Rightarrow> (uuid \<Rightarrow> nat) \<Rightarrow> (row_key \<Rightarrow> nat) \<Rightarrow> db \<Rightarrow> claim_row option \<times> db" where
  "claim_one_delivery worker attempt ttl st clk locked wl el wc ec s =
     (case select_delivery_candidate s st (clk 0) locked wl el wc ec of
        None \<Rightarrow> (None, s)
      | Some c \<Rightarrow>
          (case (find_endpoint s (dr_ws c) (dr_endpoint c), find_event s (dr_ws c) (dr_event c),
                 find_secret s (dr_ws c) (dr_endpoint c)) of
             (Some ep, Some ev, Some sv) \<Rightarrow>
               if active_count s (dr_ws c) (dr_endpoint c) (clk 1) \<ge> ep_max_concurrency ep then (None, s)
               else
                 let P = (\<lambda>d. dkey d = dkey c \<and> dr_attempts d < dr_max d \<and> ready_at (clk 2) d)
                 in if count_where P (db_deliveries s) = 0 then (None, s)
                    else
                      let c' = claim_delivery_row worker (clk 2) ttl c;
                          ds = update_where P (claim_delivery_row worker (clk 2) ttl) (db_deliveries s);
                          as1 = (if dr_status c = Processing
                                 then update_where (\<lambda>a. akey a = dkey c \<and> at_token a = dr_token c
                                                       \<and> at_state a = Started)
                                        (abandon_attempt (clk 3) ''lease_expired'') (db_attempts s)
                                 else db_attempts s);
                          as2 = as1 @ [new_attempt c' attempt (clk 4)];
                          n = db_claim_seq s + 1
                      in (Some (claim_result c' ep ev sv),
                          s\<lparr>db_deliveries := ds, db_attempts := as2, db_claim_seq := n,
                            db_workspaces := update_where (\<lambda>w. wr_id w = dr_ws c)
                               (\<lambda>w. w\<lparr>wr_last_seq := n\<rparr>) (db_workspaces s),
                            db_runtime := update_where
                               (\<lambda>r. rt_ws r = dr_ws c \<and> rt_endpoint r = dr_endpoint c)
                               (\<lambda>r. r\<lparr>rt_last_seq := n\<rparr>) (db_runtime s)\<rparr>)
           | _ \<Rightarrow> (None, s)))"

section \<open>Recovery of exhausted deliveries\<close>

definition exhausted_row :: "instant \<Rightarrow> (uuid \<Rightarrow> bool) \<Rightarrow> delivery_row \<Rightarrow> bool" where
  "exhausted_row st locked d \<longleftrightarrow>
     dr_attempts d \<ge> dr_max d \<and> ready_at st d \<and> \<not> locked (dr_id d)"

definition dead_letter_row :: "instant \<Rightarrow> delivery_row \<Rightarrow> delivery_row" where
  "dead_letter_row now d =
     d\<lparr>dr_status := Dead_letter, dr_owner := None, dr_lease := None,
       dr_error := (case dr_error d of None \<Rightarrow> Some ''attempts_exhausted'' | Some e \<Rightarrow> Some e),
       dr_terminal := Some now, dr_updated := now\<rparr>"

definition recover_one :: "(nat \<Rightarrow> instant) \<Rightarrow> delivery_row \<Rightarrow> db \<Rightarrow> db" where
  "recover_one clk x s =
     s\<lparr>db_attempts := update_where
          (\<lambda>a. akey a = dkey x \<and> at_token a = dr_token x \<and> at_state a = Started)
          (abandon_attempt (clk 0) ''lease_expired'') (db_attempts s),
       db_deliveries := update_where (\<lambda>d. dr_id d = dr_id x) (dead_letter_row (clk 1))
          (db_deliveries s)\<rparr>"

definition recover_exhausted ::
    "nat \<Rightarrow> instant \<Rightarrow> (nat \<Rightarrow> instant) \<Rightarrow> (uuid \<Rightarrow> bool) \<Rightarrow> db \<Rightarrow> string + (nat \<times> db)" where
  "recover_exhausted lim st clk locked s =
     (if lim < 1 \<or> lim > 100 then Inl ''invalid recovery limit''
      else
        let rows = take lim (sort_key (\<lambda>d. (dr_next d, dr_created d, dr_id d))
                               (filter (exhausted_row st locked) (db_deliveries s)))
        in Inr (length rows, fold (recover_one clk) rows s))"

section \<open>The claim entry point\<close>

fun claim_loop ::
    "nat \<Rightarrow> nat \<Rightarrow> uuid \<Rightarrow> uuid list \<Rightarrow> duration \<Rightarrow> instant \<Rightarrow> (nat \<Rightarrow> nat \<Rightarrow> instant)
      \<Rightarrow> (nat \<Rightarrow> uuid \<Rightarrow> bool) \<Rightarrow> nat \<Rightarrow> nat \<Rightarrow> (uuid \<Rightarrow> nat) \<Rightarrow> (row_key \<Rightarrow> nat) \<Rightarrow> nat \<Rightarrow> db
      \<Rightarrow> claim_row list \<times> db" where
  "claim_loop round misses worker [] ttl st clk locked wl el wc ec lim s = ([], s)"
| "claim_loop round 0 worker (a # as) ttl st clk locked wl el wc ec lim s = ([], s)"
| "claim_loop round (Suc misses) worker (a # as) ttl st clk locked wl el wc ec lim s =
     (case claim_one_delivery worker a ttl st (clk round) (locked round) wl el wc ec s of
        (None, s') \<Rightarrow>
          claim_loop (Suc round) misses worker (a # as) ttl st clk locked wl el wc ec lim s'
      | (Some c, s') \<Rightarrow>
          (let wc' = wc(cr_ws c := wc (cr_ws c) + 1);
               ec' = ec((cr_ws c, cr_endpoint c) := ec (cr_ws c, cr_endpoint c) + 1);
               (cs, s'') = claim_loop (Suc round) lim worker as ttl st clk locked wl el wc' ec' lim s'
           in (c # cs, s'')))"

definition retiring_secret :: "db \<Rightarrow> instant \<Rightarrow> uuid \<Rightarrow> uuid \<Rightarrow> (string \<times> uuid \<times> envelope) option" where
  "retiring_secret s st ws ep =
     (case rev (sort_key (\<lambda>v. (the (sr_retire_at v), sr_id v))
             (filter (\<lambda>v. sr_ws v = ws \<and> sr_endpoint v = ep \<and> sr_state v = Secret_retiring
                         \<and> (case sr_retire_at v of None \<Rightarrow> False | Some t \<Rightarrow> t > st)) (db_secrets s))) of
        [] \<Rightarrow> None
      | v # _ \<Rightarrow> map_option (\<lambda>e. (sr_key_id v, sr_id v, e)) (sr_secret v))"

definition claim_deliveries ::
    "uuid \<Rightarrow> uuid list \<Rightarrow> duration \<Rightarrow> int \<Rightarrow> int \<Rightarrow> int \<Rightarrow> instant \<Rightarrow> (nat \<Rightarrow> nat \<Rightarrow> instant)
      \<Rightarrow> (nat \<Rightarrow> uuid \<Rightarrow> bool) \<Rightarrow> db \<Rightarrow> string + (claim_row list \<times> db)" where
  "claim_deliveries worker attempts ttl lim wl el st clk locked s =
     (if worker = uuid_nil then Inl ''invalid worker id''
      else if ttl < 20 * second \<or> ttl > 2 * minute then Inl ''invalid lease ttl''
      else if lim < 1 \<or> lim > 100 \<or> int (length attempts) \<noteq> lim then Inl ''invalid claim limit''
      else if wl < 1 \<or> wl > lim \<or> el < 1 \<or> el > lim then Inl ''invalid fairness limit''
      else if uuid_nil \<in> set attempts \<or> \<not> distinct attempts then Inl ''invalid attempt ids''
      else case recover_exhausted (nat lim) st (clk 0) (locked 0) s of
        Inl e \<Rightarrow> Inl e
      | Inr (_, s1) \<Rightarrow>
          (case claim_loop 1 3 worker attempts ttl st clk locked (nat wl) (nat el) (\<lambda>_. 0) (\<lambda>_. 0) 3 s1 of
             (cs, s2) \<Rightarrow>
               Inr (map (\<lambda>c. c\<lparr>cr_retiring := retiring_secret s2 st (cr_ws c) (cr_endpoint c)\<rparr>) cs, s2)))"

section \<open>Finalisation\<close>

definition finalize_row ::
    "instant \<Rightarrow> string \<Rightarrow> string \<Rightarrow> duration \<Rightarrow> delivery_row \<Rightarrow> delivery_row" where
  "finalize_row now disposition category delay d =
     d\<lparr>dr_status :=
          (if disposition = ''success'' then Succeeded
           else if disposition = ''permanent_failure'' then Failed_permanent
           else if dr_attempts d \<ge> dr_max d then Dead_letter else Retry_scheduled),
       dr_next := (if disposition = ''retry'' \<and> dr_attempts d < dr_max d then now + delay else dr_next d),
       dr_owner := None, dr_lease := None,
       dr_error := (if disposition = ''success'' then None else Some (take 64 category)),
       dr_succeeded := (if disposition = ''success'' then Some now else None),
       dr_terminal :=
          (if disposition = ''success'' \<or> disposition = ''permanent_failure'' \<or> dr_attempts d \<ge> dr_max d
           then Some now else None),
       dr_updated := now\<rparr>"

definition complete_attempt ::
    "instant \<Rightarrow> string \<Rightarrow> int option \<Rightarrow> int \<Rightarrow> string \<Rightarrow> attempt_row \<Rightarrow> attempt_row" where
  "complete_attempt now disposition http durationMS category a =
     a\<lparr>at_state := Completed, at_outcome := Some disposition, at_http := http,
       at_duration := Some (max durationMS 0),
       at_error := (if disposition = ''success'' then None else Some (take 64 category)),
       at_finished := Some now\<rparr>"

definition held_by :: "row_key \<Rightarrow> uuid \<Rightarrow> int \<Rightarrow> instant \<Rightarrow> delivery_row \<Rightarrow> bool" where
  "held_by k worker token now d \<longleftrightarrow>
     dkey d = k \<and> dr_status d = Processing \<and> dr_owner d = Some worker \<and> dr_token d = token
     \<and> lease_live now d"

definition finalize_delivery ::
    "row_key \<Rightarrow> uuid \<Rightarrow> int \<Rightarrow> string \<Rightarrow> int option \<Rightarrow> int \<Rightarrow> string \<Rightarrow> duration option
      \<Rightarrow> (nat \<Rightarrow> instant) \<Rightarrow> db \<Rightarrow> string + (bool \<times> db)" where
  "finalize_delivery k worker token disposition0 http0 durationMS category0 delay0 clk s =
     (let bad = (case http0 of None \<Rightarrow> False | Some h \<Rightarrow> h < 100 \<or> h > 599);
          http = (if bad then None else http0);
          disposition = (if bad then ''permanent_failure'' else disposition0);
          category = (if bad then ''invalid_http_status'' else category0);
          delay = (if bad then None else delay0)
      in if disposition \<notin> {''success'', ''retry'', ''permanent_failure''} then Inl ''invalid disposition''
         else if disposition = ''retry''
              \<and> (case delay of None \<Rightarrow> True | Some r \<Rightarrow> r < 0 \<or> r > 15 * minute)
         then Inl ''invalid retry delay''
         else
           let P = held_by k worker token (clk 0)
           in if count_where P (db_deliveries s) = 0 then Inr (False, s)
              else
                let ds = update_where P
                           (finalize_row (clk 0) disposition category (case delay of None \<Rightarrow> 0 | Some r \<Rightarrow> r))
                           (db_deliveries s);
                    Q = (\<lambda>a. akey a = k \<and> at_token a = token \<and> at_state a = Started)
                in if count_where Q (db_attempts s) \<noteq> 1 then Inl ''delivery attempt invariant violated''
                   else Inr (True, s\<lparr>db_deliveries := ds,
                          db_attempts := update_where Q
                            (complete_attempt (clk 1) disposition http durationMS category)
                            (db_attempts s)\<rparr>))"

section \<open>Replay\<close>

text \<open>The arguments' lengths and characters are checked by \<open>replay_args_ok\<close>.\<close>

record replay_command =
  rq_command :: uuid
  rq_ws :: uuid
  rq_delivery :: uuid
  rq_actor :: string
  rq_key_hash :: bytes
  rq_fingerprint :: bytes
  rq_fingerprint_version :: int
  rq_reason :: string
  rq_request_id :: string

definition replay_args_ok :: "replay_command \<Rightarrow> bool" where
  "replay_args_ok c \<longleftrightarrow>
     1 \<le> length (rq_actor c) \<and> length (rq_actor c) \<le> 128 \<and> length (rq_key_hash c) = 32
     \<and> length (rq_fingerprint c) = 32 \<and> rq_fingerprint_version c = 1
     \<and> 1 \<le> length (rq_reason c) \<and> length (rq_reason c) \<le> 500
     \<and> list_all (\<lambda>ch. 32 \<le> byte_val ch \<and> byte_val ch \<noteq> 127) (rq_reason c)
     \<and> 1 \<le> length (rq_request_id c) \<and> length (rq_request_id c) \<le> 128"

definition replay_row_update :: "instant \<Rightarrow> int \<Rightarrow> delivery_row \<Rightarrow> delivery_row" where
  "replay_row_update now run d =
     d\<lparr>dr_status := Pending, dr_run := run, dr_attempts := 0, dr_next := now, dr_owner := None,
       dr_lease := None, dr_error := None, dr_succeeded := None, dr_terminal := None,
       dr_updated := now\<rparr>"

definition request_replay ::
    "replay_command \<Rightarrow> (nat \<Rightarrow> instant) \<Rightarrow> db \<Rightarrow> string + ((uuid \<times> int \<times> bool) \<times> db)" where
  "request_replay c clk s =
     (if \<not> replay_args_ok c then Inl ''replay_invalid''
      else case List.find (\<lambda>r. rc_ws r = rq_ws c \<and> rc_key_hash r = rq_key_hash c) (db_replays s) of
        Some prior \<Rightarrow>
          if rc_delivery prior \<noteq> rq_delivery c \<or> rc_fingerprint_version prior \<noteq> rq_fingerprint_version c
             \<or> rc_fingerprint prior \<noteq> rq_fingerprint c
          then Inl ''replay_conflict''
          else Inr ((rc_id prior, rc_new_run prior, True), s)
      | None \<Rightarrow>
          (case List.find (\<lambda>d. dkey d = (rq_ws c, rq_delivery c)
                             \<and> list_ex (\<lambda>e. er_ws e = dr_ws d \<and> er_id e = dr_event d) (db_events s))
                  (db_deliveries s) of
             None \<Rightarrow> Inl ''replay_not_found''
           | Some d \<Rightarrow>
               if list_ex (\<lambda>e. er_ws e = dr_ws d \<and> er_id e = dr_event d
                              \<and> (er_payload e = None \<or> er_purged e \<noteq> None)) (db_events s)
               then Inl ''replay_payload_purged''
               else if dr_status d \<noteq> Failed_permanent \<and> dr_status d \<noteq> Dead_letter
               then Inl ''replay_invalid_transition''
               else if dr_run d = 2147483647 then Inl ''replay_invalid_transition''
               else
                 let next = dr_run d + 1
                 in Inr ((rq_command c, next, False),
                      s\<lparr>db_replays := db_replays s @
                           [\<lparr>rc_id = rq_command c, rc_ws = rq_ws c, rc_delivery = rq_delivery c,
                             rc_key_hash = rq_key_hash c, rc_fingerprint = rq_fingerprint c,
                             rc_fingerprint_version = rq_fingerprint_version c, rc_new_run = next,
                             rc_reason = rq_reason c\<rparr>],
                        db_deliveries := update_where (\<lambda>x. dkey x = (rq_ws c, rq_delivery c))
                           (replay_row_update (clk 0) next) (db_deliveries s)\<rparr>)))"

section \<open>Retention and quarantine\<close>

definition live_status :: "delivery_row \<Rightarrow> bool" where
  "live_status d \<longleftrightarrow> dr_status d \<in> {Pending, Processing, Retry_scheduled}"

definition fail_row :: "instant \<Rightarrow> string \<Rightarrow> delivery_row \<Rightarrow> delivery_row" where
  "fail_row st category d =
     d\<lparr>dr_status := Failed_permanent, dr_token := dr_token d + 1, dr_owner := None, dr_lease := None,
       dr_error := Some category, dr_terminal := Some st, dr_updated := st\<rparr>"

definition purge_expired_payloads ::
    "int \<Rightarrow> instant \<Rightarrow> (uuid \<Rightarrow> bool) \<Rightarrow> db \<Rightarrow> string + (nat \<times> db)" where
  "purge_expired_payloads batch st locked s =
     (if batch < 1 \<or> batch > 1000 then Inl ''invalid purge batch''
      else
        let es = take (nat batch) (sort_key (\<lambda>e. (er_expires e, er_id e))
                   (filter (\<lambda>e. er_payload e \<noteq> None \<and> er_expires e \<le> st \<and> \<not> locked (er_id e)) (db_events s)));
            ev = (\<lambda>ws i. list_ex (\<lambda>e. er_ws e = ws \<and> er_id e = i) es);
            doomed = (\<lambda>k. list_ex (\<lambda>d. dkey d = k \<and> ev (dr_ws d) (dr_event d)) (db_deliveries s))
        in Inr (length es,
             s\<lparr>db_attempts := update_where (\<lambda>a. at_state a = Started \<and> doomed (akey a))
                  (abandon_attempt st ''payload_expired'') (db_attempts s),
               db_deliveries := update_where (\<lambda>d. ev (dr_ws d) (dr_event d) \<and> live_status d)
                  (fail_row st ''payload_expired'') (db_deliveries s),
               db_events := update_where (\<lambda>e. ev (er_ws e) (er_id e))
                  (\<lambda>e. e\<lparr>er_payload := None, er_purged := Some st\<rparr>) (db_events s)\<rparr>))"

definition purge_secret_row :: "secret_row \<Rightarrow> secret_row" where
  "purge_secret_row v = v\<lparr>sr_state := Secret_purged, sr_secret := None\<rparr>"

definition purge_retired_secrets ::
    "int \<Rightarrow> instant \<Rightarrow> (uuid \<Rightarrow> bool) \<Rightarrow> db \<Rightarrow> string + (nat \<times> db)" where
  "purge_retired_secrets batch st locked s =
     (if batch < 1 \<or> batch > 1000 then Inl ''invalid purge batch''
      else
        let vs = take (nat batch) (sort_key (\<lambda>v. (the (sr_retire_at v), sr_id v))
                   (filter (\<lambda>v. sr_state v = Secret_retiring \<and> \<not> locked (sr_id v)
                        \<and> (case sr_retire_at v of None \<Rightarrow> False | Some t \<Rightarrow> t \<le> st)) (db_secrets s)))
        in Inr (length vs,
             s\<lparr>db_secrets := update_where
                  (\<lambda>v. list_ex (\<lambda>x. sr_ws x = sr_ws v \<and> sr_id x = sr_id v) vs)
                  purge_secret_row (db_secrets s)\<rparr>))"

text \<open>The part of \<open>enter_restore_quarantine\<close> that touches the queue and its secrets.\<close>

definition quarantine_queue :: "instant \<Rightarrow> db \<Rightarrow> db" where
  "quarantine_queue st s =
     s\<lparr>db_secrets := update_where (\<lambda>v. sr_state v \<noteq> Secret_purged)
          (\<lambda>v. (purge_secret_row v)\<lparr>sr_retire_at := None\<rparr>) (db_secrets s),
       db_endpoints := update_where (\<lambda>e. ep_status e \<noteq> ''disabled'')
          (\<lambda>e. e\<lparr>ep_status := ''disabled''\<rparr>) (db_endpoints s),
       db_attempts := update_where (\<lambda>a. at_state a = Started)
          (abandon_attempt st ''restore_quarantine'') (db_attempts s),
       db_deliveries := update_where live_status (fail_row st ''restore_quarantine'') (db_deliveries s),
       db_workspaces := update_where wr_active (\<lambda>w. w\<lparr>wr_active := False\<rparr>) (db_workspaces s)\<rparr>"

section \<open>Publication\<close>

text \<open>The row \<open>INSERT INTO wde.deliveries\<close> of a publication makes, with the column defaults.\<close>

definition new_delivery :: "uuid \<Rightarrow> uuid \<Rightarrow> uuid \<Rightarrow> uuid \<Rightarrow> int \<Rightarrow> instant \<Rightarrow> delivery_row" where
  "new_delivery ws i ev ep mx now =
     \<lparr>dr_ws = ws, dr_id = i, dr_event = ev, dr_endpoint = ep, dr_status = Pending, dr_run = 1,
      dr_attempts = 0, dr_seq = 0, dr_max = mx, dr_next = now, dr_owner = None, dr_lease = None,
      dr_token = 0, dr_error = None, dr_succeeded = None, dr_terminal = None, dr_created = now,
      dr_updated = now\<rparr>"

definition insert_delivery :: "delivery_row \<Rightarrow> db \<Rightarrow> string + db" where
  "insert_delivery d s =
     (if list_ex (\<lambda>x. dr_id x = dr_id d) (db_deliveries s) then Inl ''duplicate key''
      else if dr_max d < 1 \<or> dr_max d > 100 then Inl ''check violation''
      else Inr (s\<lparr>db_deliveries := db_deliveries s @ [d]\<rparr>))"

end
