(* ===== verification/Queue_Inv.thy ===== *)
theory Queue_Inv
  imports Queue_Db
begin

text \<open>
  The queue as a state machine: the transactions that make, claim, finalise, replay or fail deliveries
  are the steps of \<open>qstep\<close> (those that delete rows are added in \<open>Queue_System\<close>), and the invariant
  \<open>queue_inv\<close> (the CHECK constraints of the tables and the relation between a delivery, its fencing
  token and its attempts) holds in every reachable state. On it rest the
  fencing of stale workers, the single outcome of every attempt and the bound on attempts.
\<close>

section \<open>The invariant\<close>

definition row_ok :: "delivery_row \<Rightarrow> bool" where
  "row_ok d \<longleftrightarrow>
     1 \<le> dr_run d \<and> 0 \<le> dr_attempts d \<and> dr_attempts d \<le> dr_max d \<and> 1 \<le> dr_max d \<and> dr_max d \<le> 100
     \<and> dr_attempts d \<le> dr_seq d \<and> 0 \<le> dr_token d
     \<and> (dr_status d = Processing \<longleftrightarrow> dr_owner d \<noteq> None)
     \<and> (dr_status d = Processing \<longleftrightarrow> dr_lease d \<noteq> None)
     \<and> (dr_status d = Succeeded \<longleftrightarrow> dr_succeeded d \<noteq> None)
     \<and> (dr_status d \<in> {Succeeded, Failed_permanent, Dead_letter} \<longleftrightarrow> dr_terminal d \<noteq> None)"

definition attempt_ok :: "attempt_row \<Rightarrow> bool" where
  "attempt_ok a \<longleftrightarrow>
     1 \<le> at_token a \<and> 1 \<le> at_seq a \<and> 1 \<le> at_number a \<and> at_number a \<le> 100 \<and> 1 \<le> at_run a
     \<and> (at_state a = Started \<longleftrightarrow> at_outcome a = None)
     \<and> (at_state a = Started \<longleftrightarrow> at_finished a = None)
     \<and> (case at_http a of None \<Rightarrow> True | Some h \<Rightarrow> 100 \<le> h \<and> h \<le> 599)"

text \<open>
  A delivery and its attempts: the tokens of the attempts are distinct and not above the
  delivery's; the attempts of the current run have distinct numbers from 1 up to what the delivery
  counts (the rows of old attempts may have been purged); an attempt is open exactly while its
  delivery is being processed under its token.
\<close>

definition attempts_base :: "delivery_row \<Rightarrow> attempt_row list \<Rightarrow> bool" where
  "attempts_base d as \<longleftrightarrow>
     (\<forall>a\<in>set as. attempt_ok a \<and> at_token a \<le> dr_token d \<and> at_seq a \<le> dr_seq d \<and> at_run a \<le> dr_run d
          \<and> (at_run a = dr_run d \<longrightarrow> at_number a \<le> dr_attempts d))
     \<and> distinct (map at_token as) \<and> distinct (map at_seq as)
     \<and> distinct (map (\<lambda>a. (at_run a, at_number a)) as)"

definition none_started :: "attempt_row list \<Rightarrow> bool" where
  "none_started as \<longleftrightarrow> (\<forall>a\<in>set as. at_state a \<noteq> Started)"

definition attempts_ok :: "delivery_row \<Rightarrow> attempt_row list \<Rightarrow> bool" where
  "attempts_ok d as \<longleftrightarrow>
     attempts_base d as
     \<and> (if dr_status d = Processing
        then (\<exists>a\<in>set as. at_state a = Started \<and> at_token a = dr_token d)
             \<and> (\<forall>a\<in>set as. at_state a = Started \<longrightarrow> at_token a = dr_token d)
        else none_started as)"

definition attempts_of :: "row_key \<Rightarrow> attempt_row list \<Rightarrow> attempt_row list" where
  "attempts_of k as = filter (\<lambda>a. akey a = k) as"

definition queue_inv :: "delivery_row list \<Rightarrow> attempt_row list \<Rightarrow> bool" where
  "queue_inv ds as \<longleftrightarrow>
     distinct (map dr_id ds)
     \<and> (\<forall>d\<in>set ds. row_ok d \<and> attempts_ok d (attempts_of (dkey d) as))
     \<and> (\<forall>a\<in>set as. \<exists>d\<in>set ds. dkey d = akey a)"

abbreviation db_inv :: "db \<Rightarrow> bool" where
  "db_inv s \<equiv> queue_inv (db_deliveries s) (db_attempts s)"

lemma queue_invI:
  assumes "distinct (map dr_id ds)"
    and "\<And>d. d \<in> set ds \<Longrightarrow> row_ok d \<and> attempts_ok d (attempts_of (dkey d) as)"
    and "\<And>a. a \<in> set as \<Longrightarrow> \<exists>d\<in>set ds. dkey d = akey a"
  shows "queue_inv ds as"
  using assms by (auto simp: queue_inv_def)

lemma dkey_unique:
  assumes "queue_inv ds as" and "d \<in> set ds" and "d' \<in> set ds" and "dr_id d = dr_id d'"
  shows "d = d'"
  using assms by (auto simp: queue_inv_def distinct_map inj_on_def)

lemma attempts_of_map:
  assumes "\<forall>a\<in>set as. akey (g a) = akey a"
  shows "attempts_of k (map g as) = map g (attempts_of k as)"
  using assms by (induction as) (auto simp: attempts_of_def)

lemma attempts_of_append [simp]: "attempts_of k (as @ bs) = attempts_of k as @ attempts_of k bs"
  by (simp add: attempts_of_def)

text \<open>Rewriting every delivery and every attempt, each on its own, keeps the invariant if it does
  so for each delivery with its attempts.\<close>

lemma queue_inv_map:
  assumes inv: "queue_inv ds as"
    and f: "\<And>d. d \<in> set ds \<Longrightarrow> dr_id (f d) = dr_id d \<and> dkey (f d) = dkey d"
    and g: "\<And>a. a \<in> set as \<Longrightarrow> akey (g a) = akey a"
    and step: "\<And>d. d \<in> set ds \<Longrightarrow> row_ok d \<Longrightarrow> attempts_ok d (attempts_of (dkey d) as) \<Longrightarrow>
                 row_ok (f d) \<and> attempts_ok (f d) (map g (attempts_of (dkey d) as))"
  shows "queue_inv (map f ds) (map g as)"
proof (rule queue_invI)
  have "map dr_id (map f ds) = map dr_id ds" using f by simp
  then show "distinct (map dr_id (map f ds))" using inv by (simp only: queue_inv_def)
next
  fix d' assume "d' \<in> set (map f ds)"
  then obtain d where d: "d \<in> set ds" "d' = f d" by auto
  have "attempts_of (dkey d') (map g as) = map g (attempts_of (dkey d) as)"
    using f [OF d(1)] g d(2) by (simp add: attempts_of_map)
  then show "row_ok d' \<and> attempts_ok d' (attempts_of (dkey d') (map g as))"
    using step [OF d(1)] inv d by (simp add: queue_inv_def)
next
  fix a' assume "a' \<in> set (map g as)"
  then obtain a where "a \<in> set as" "a' = g a" by auto
  then obtain d where "d \<in> set ds" "dkey d = akey a" using inv by (auto simp: queue_inv_def)
  then show "\<exists>d\<in>set (map f ds). dkey d = akey a'"
    using f g \<open>a \<in> set as\<close> \<open>a' = g a\<close> by (intro bexI [of _ "f d"]) auto
qed

lemma queue_inv_snoc_attempt:
  assumes inv: "\<And>d. d \<in> set ds \<Longrightarrow> dkey d \<noteq> akey a \<Longrightarrow> row_ok d \<and> attempts_ok d (attempts_of (dkey d) as)"
    and "distinct (map dr_id ds)" and "\<forall>b\<in>set as. \<exists>d\<in>set ds. dkey d = akey b"
    and "\<exists>d\<in>set ds. dkey d = akey a"
    and "\<And>d. d \<in> set ds \<Longrightarrow> dkey d = akey a \<Longrightarrow> row_ok d \<and> attempts_ok d (attempts_of (dkey d) as @ [a])"
  shows "queue_inv ds (as @ [a])"
proof (rule queue_invI)
  fix d assume "d \<in> set ds"
  then show "row_ok d \<and> attempts_ok d (attempts_of (dkey d) (as @ [a]))"
    using inv assms(5) by (cases "dkey d = akey a") (auto simp: attempts_of_def)
qed (use assms in auto)

section \<open>Rows\<close>

lemma dkey_updates [simp]:
  "dkey (claim_delivery_row w t l d) = dkey d" "dr_id (claim_delivery_row w t l d) = dr_id d"
  "dkey (dead_letter_row t d) = dkey d" "dr_id (dead_letter_row t d) = dr_id d"
  "dkey (finalize_row t p c r d) = dkey d" "dr_id (finalize_row t p c r d) = dr_id d"
  "dkey (replay_row_update t n d) = dkey d" "dr_id (replay_row_update t n d) = dr_id d"
  "dkey (fail_row t c d) = dkey d" "dr_id (fail_row t c d) = dr_id d"
  by (simp_all add: dkey_def claim_delivery_row_def dead_letter_row_def finalize_row_def
      replay_row_update_def fail_row_def)

lemma akey_updates [simp]:
  "akey (abandon_attempt t c a) = akey a" "akey (complete_attempt t p h m c a) = akey a"
  by (simp_all add: akey_def abandon_attempt_def complete_attempt_def)

lemma attempt_fields [simp]:
  "at_token (abandon_attempt t c a) = at_token a" "at_seq (abandon_attempt t c a) = at_seq a"
  "at_run (abandon_attempt t c a) = at_run a" "at_number (abandon_attempt t c a) = at_number a"
  "at_state (abandon_attempt t c a) = Abandoned" "at_id (abandon_attempt t c a) = at_id a"
  "at_token (complete_attempt t p h m c a) = at_token a"
  "at_seq (complete_attempt t p h m c a) = at_seq a"
  "at_run (complete_attempt t p h m c a) = at_run a"
  "at_number (complete_attempt t p h m c a) = at_number a"
  "at_state (complete_attempt t p h m c a) = Completed"
  "at_id (complete_attempt t p h m c a) = at_id a"
  by (simp_all add: abandon_attempt_def complete_attempt_def)

lemma attempt_ok_abandon: "attempt_ok a \<Longrightarrow> attempt_ok (abandon_attempt t c a)"
  by (simp add: attempt_ok_def abandon_attempt_def split: option.splits)

lemma attempt_ok_complete:
  "attempt_ok a \<Longrightarrow> (case h of None \<Rightarrow> True | Some x \<Rightarrow> 100 \<le> x \<and> x \<le> 599) \<Longrightarrow>
     attempt_ok (complete_attempt t p h m c a)"
  by (simp add: attempt_ok_def complete_attempt_def)

text \<open>Closing attempts keeps everything but their state.\<close>

definition keeps_numbers :: "(attempt_row \<Rightarrow> attempt_row) \<Rightarrow> bool" where
  "keeps_numbers g \<longleftrightarrow> (\<forall>a. at_token (g a) = at_token a \<and> at_seq (g a) = at_seq a
      \<and> at_run (g a) = at_run a \<and> at_number (g a) = at_number a \<and> akey (g a) = akey a
      \<and> at_state (g a) \<noteq> Started)"

lemma keeps_numbers_updates [simp]:
  "keeps_numbers (abandon_attempt t c)" "keeps_numbers (complete_attempt t p h m e)"
  by (simp_all add: keeps_numbers_def)

lemma map_update_where_same:
  "(\<And>a. h (g a) = h a) \<Longrightarrow> map h (update_where Q g as) = map h as"
  by (induction as) auto

lemma set_update_where: "set (update_where Q g as) = (\<lambda>a. if Q a then g a else a) ` set as"
  by (simp add: update_where_def)

lemma attempts_base_update:
  assumes base: "attempts_base d as" and g: "keeps_numbers g" and ok: "\<And>a. attempt_ok a \<Longrightarrow> attempt_ok (g a)"
  shows "attempts_base d (update_where Q g as)"
proof -
  have e: "at_token (g a) = at_token a" "at_seq (g a) = at_seq a" "at_run (g a) = at_run a"
    "at_number (g a) = at_number a" for a using g by (simp_all add: keeps_numbers_def)
  have "map at_token (update_where Q g as) = map at_token as"
    "map at_seq (update_where Q g as) = map at_seq as"
    "map (\<lambda>a. (at_run a, at_number a)) (update_where Q g as) = map (\<lambda>a. (at_run a, at_number a)) as"
    by (simp_all add: map_update_where_same e)
  with base show ?thesis
    by (auto simp: attempts_base_def set_update_where e ok)
qed

lemma attempts_base_mono:
  assumes "attempts_base d as" and "dr_token d \<le> dr_token d'" and "dr_seq d' = dr_seq d"
    and "dr_run d' = dr_run d" and "dr_attempts d' = dr_attempts d"
  shows "attempts_base d' as"
  using assms by (auto simp: attempts_base_def)

lemma none_started_update:
  assumes "keeps_numbers g" and "\<And>a. a \<in> set as \<Longrightarrow> at_state a = Started \<Longrightarrow> Q a"
  shows "none_started (update_where Q g as)"
  using assms by (auto simp: none_started_def set_update_where keeps_numbers_def)

lemma attempts_ok_close:
  assumes "attempts_ok d as" and "keeps_numbers g" and "\<And>a. attempt_ok a \<Longrightarrow> attempt_ok (g a)"
    and "\<And>a. a \<in> set as \<Longrightarrow> at_state a = Started \<Longrightarrow> Q a"
    and "dr_token d \<le> dr_token d'" "dr_seq d' = dr_seq d" "dr_run d' = dr_run d"
      "dr_attempts d' = dr_attempts d" "dr_status d' \<noteq> Processing"
  shows "attempts_ok d' (update_where Q g as)"
  using assms attempts_base_mono [of d "update_where Q g as" d'] attempts_base_update [of d as g Q]
    none_started_update [of g as Q]
  by (simp add: attempts_ok_def)

lemma attempts_ok_started:
  "attempts_ok d as \<Longrightarrow> a \<in> set as \<Longrightarrow> at_state a = Started \<Longrightarrow>
     dr_status d = Processing \<and> at_token a = dr_token d"
  by (auto simp: attempts_ok_def none_started_def split: if_splits)

lemma attempts_ok_unchanged:
  assumes "attempts_ok d as" and "\<And>a. a \<in> set as \<Longrightarrow> \<not> Q a"
  shows "attempts_ok d (update_where Q g as)"
  using assms by (simp add: update_where_none)

text \<open>The attempt a claim opens.\<close>

lemma attempts_base_claim:
  assumes base: "attempts_base d as" and ok: "row_ok d" and lt: "dr_attempts d < dr_max d"
  shows "attempts_base (claim_delivery_row w t ttl d)
           (as @ [new_attempt (claim_delivery_row w t ttl d) i t'])"
proof -
  let ?d = "claim_delivery_row w t ttl d"
  have "attempt_ok (new_attempt ?d i t')"
    using ok lt by (auto simp: attempt_ok_def new_attempt_def claim_delivery_row_def row_ok_def)
  moreover have "at_token (new_attempt ?d i t') \<notin> at_token ` set as"
    "at_seq (new_attempt ?d i t') \<notin> at_seq ` set as"
    "(at_run (new_attempt ?d i t'), at_number (new_attempt ?d i t')) \<notin> (\<lambda>a. (at_run a, at_number a)) ` set as"
    using base by (fastforce simp: attempts_base_def new_attempt_def claim_delivery_row_def)+
  ultimately show ?thesis
    using base by (auto simp: attempts_base_def new_attempt_def claim_delivery_row_def)
qed

lemma attempts_base_replay:
  assumes "attempts_base d as"
  shows "attempts_base (replay_row_update t (dr_run d + 1) d) as"
  using assms by (fastforce simp: attempts_base_def replay_row_update_def)

section \<open>Every operation keeps the invariant\<close>

lemma attempts_of_update_where:
  "keeps_numbers g \<Longrightarrow> attempts_of k (update_where Q g as) = update_where Q g (attempts_of k as)"
  by (induction as) (auto simp: attempts_of_def keeps_numbers_def)

lemma queue_inv_update:
  assumes inv: "queue_inv ds as"
    and f: "\<And>d. dr_id (f d) = dr_id d \<and> dkey (f d) = dkey d" and g: "keeps_numbers g"
    and yes: "\<And>d. d \<in> set ds \<Longrightarrow> P d \<Longrightarrow> row_ok d \<Longrightarrow> attempts_ok d (attempts_of (dkey d) as) \<Longrightarrow>
       row_ok (f d) \<and> attempts_ok (f d) (update_where Q g (attempts_of (dkey d) as))"
    and no: "\<And>d a. d \<in> set ds \<Longrightarrow> \<not> P d \<Longrightarrow> a \<in> set as \<Longrightarrow> akey a = dkey d \<Longrightarrow> \<not> Q a"
  shows "queue_inv (update_where P f ds) (update_where Q g as)"
  unfolding update_where_def
proof (rule queue_inv_map [OF inv])
  fix d assume d: "d \<in> set ds" "row_ok d" "attempts_ok d (attempts_of (dkey d) as)"
  show "row_ok (if P d then f d else d)
      \<and> attempts_ok (if P d then f d else d) (map (\<lambda>a. if Q a then g a else a) (attempts_of (dkey d) as))"
  proof (cases "P d")
    case True
    then show ?thesis using yes [OF d(1) True d(2,3)] by (simp add: update_where_def)
  next
    case False
    have "\<not> Q a" if "a \<in> set (attempts_of (dkey d) as)" for a
      using that no [OF d(1) False] by (auto simp: attempts_of_def)
    then show ?thesis using False d attempts_ok_unchanged [OF d(3)] by (simp add: update_where_def)
  qed
qed (use f g in \<open>auto simp: keeps_numbers_def\<close>)

lemma count_where_pos: "count_where P xs \<noteq> 0 \<Longrightarrow> \<exists>x\<in>set xs. P x"
  by (simp add: count_where_0)

lemma dkey_inj:
  assumes "queue_inv ds as" and "d \<in> set ds" and "d' \<in> set ds" and "dkey d = dkey d'"
  shows "d = d'"
  using assms by (auto simp: dkey_def intro: dkey_unique)

lemma inv_row:
  assumes "queue_inv ds as" and "d \<in> set ds"
  shows "row_ok d" and "attempts_ok d (attempts_of (dkey d) as)"
  using assms by (simp_all add: queue_inv_def)

text \<open>A processing delivery has exactly one open attempt, and it carries its token.\<close>

lemma one_open_attempt:
  assumes inv: "queue_inv ds as" and d: "d \<in> set ds" and p: "dr_status d = Processing"
  shows "count_where (\<lambda>a. akey a = dkey d \<and> at_token a = dr_token d \<and> at_state a = Started) as = 1"
proof -
  let ?as = "attempts_of (dkey d) as"
  have ok: "attempts_ok d ?as" using inv d by (rule inv_row)
  then obtain a where a: "a \<in> set ?as" "at_state a = Started" "at_token a = dr_token d"
    using p by (auto simp: attempts_ok_def)
  have dist: "distinct (map at_token ?as)" using ok by (simp add: attempts_ok_def attempts_base_def)
  have "filter (\<lambda>b. at_token b = dr_token d \<and> at_state b = Started) ?as = [a]"
  proof -
    have "\<forall>b\<in>set ?as. (at_token b = dr_token d \<and> at_state b = Started) = (b = a)"
      using a dist by (auto simp: distinct_map inj_on_def)
    then have "filter (\<lambda>b. at_token b = dr_token d \<and> at_state b = Started) ?as = filter (\<lambda>b. b = a) ?as"
      by (intro filter_cong) auto
    moreover have "distinct ?as" using dist by (simp add: distinct_map)
    ultimately show ?thesis
      using a(1) by (simp add: filter_single)
  qed
  moreover have "filter (\<lambda>a. akey a = dkey d \<and> at_token a = dr_token d \<and> at_state a = Started) as
      = filter (\<lambda>b. at_token b = dr_token d \<and> at_state b = Started) ?as"
    by (simp add: attempts_of_def conj_commute conj_left_commute)
  ultimately show ?thesis by (simp add: count_where_def)
qed

lemma attempts_owned:
  assumes inv: "queue_inv ds as" and f: "\<And>d. dkey (f d) = dkey d" and g: "keeps_numbers g"
  shows "\<forall>b\<in>set (update_where Q g as). \<exists>d\<in>set (update_where P f ds). dkey d = akey b"
proof
  fix b assume "b \<in> set (update_where Q g as)"
  then obtain a where "a \<in> set as" "akey b = akey a"
    using g by (auto simp: set_update_where keeps_numbers_def split: if_splits)
  then obtain d where "d \<in> set ds" "dkey d = akey b" using inv by (auto simp: queue_inv_def)
  then show "\<exists>d\<in>set (update_where P f ds). dkey d = akey b"
    using f by (intro bexI [of _ "if P d then f d else d"]) (auto simp: set_update_where)
qed

subsection \<open>Claiming\<close>

lemma select_candidate_Some:
  assumes "select_delivery_candidate s st now locked wl el wc ec = Some d"
  shows "d \<in> set (db_deliveries s) \<and> candidate_ok s st now locked wl el wc ec d"
proof -
  obtain r where "sort_key (candidate_order s)
          (filter (candidate_ok s st now locked wl el wc ec) (db_deliveries s)) = d # r"
    using assms by (auto simp: select_delivery_candidate_def split: list.splits)
  then have "d \<in> set (sort_key (candidate_order s)
          (filter (candidate_ok s st now locked wl el wc ec) (db_deliveries s)))"
    by (metis list.set_intros(1))
  then show ?thesis by simp
qed

text \<open>What a successful \<open>claim_one_delivery\<close> did.\<close>

lemma claim_one_Some:
  assumes inv: "db_inv s"
    and res: "claim_one_delivery w i ttl st clk locked wl el wc ec s = (Some r, s')"
  shows "\<exists>c ep ev sv. c \<in> set (db_deliveries s) \<and> candidate_ok s st (clk 0) locked wl el wc ec c
    \<and> find_endpoint s (dr_ws c) (dr_endpoint c) = Some ep
    \<and> find_event s (dr_ws c) (dr_event c) = Some ev
    \<and> find_secret s (dr_ws c) (dr_endpoint c) = Some sv
    \<and> active_count s (dr_ws c) (dr_endpoint c) (clk 1) < ep_max_concurrency ep
    \<and> ready_at (clk 2) c \<and> dr_attempts c < dr_max c
    \<and> r = claim_result (claim_delivery_row w (clk 2) ttl c) ep ev sv
    \<and> db_deliveries s' = update_where (\<lambda>d. dkey d = dkey c) (claim_delivery_row w (clk 2) ttl) (db_deliveries s)
    \<and> db_attempts s' = update_where (\<lambda>a. dr_status c = Processing \<and> akey a = dkey c
            \<and> at_token a = dr_token c \<and> at_state a = Started) (abandon_attempt (clk 3) ''lease_expired'') (db_attempts s)
          @ [new_attempt (claim_delivery_row w (clk 2) ttl c) i (clk 4)]
    \<and> db_events s' = db_events s \<and> db_secrets s' = db_secrets s \<and> db_endpoints s' = db_endpoints s
    \<and> db_replays s' = db_replays s"
proof -
  obtain c where c: "select_delivery_candidate s st (clk 0) locked wl el wc ec = Some c"
    using res by (auto simp: claim_one_delivery_def split: option.splits)
  note cand = select_candidate_Some [OF c]
  obtain ep ev sv where e: "find_endpoint s (dr_ws c) (dr_endpoint c) = Some ep"
      "find_event s (dr_ws c) (dr_event c) = Some ev" "find_secret s (dr_ws c) (dr_endpoint c) = Some sv"
    using res c by (auto simp: claim_one_delivery_def split: option.splits)
  let ?P = "\<lambda>d. dkey d = dkey c \<and> dr_attempts d < dr_max d \<and> ready_at (clk 2) d"
  have n: "\<not> active_count s (dr_ws c) (dr_endpoint c) (clk 1) \<ge> ep_max_concurrency ep"
    and p: "count_where ?P (db_deliveries s) \<noteq> 0"
    using res c e by (auto simp: claim_one_delivery_def Let_def split: if_splits)
  from count_where_pos [OF p] cand inv have pc: "?P c" using dkey_inj by blast
  have P: "update_where ?P f (db_deliveries s) = update_where (\<lambda>d. dkey d = dkey c) f (db_deliveries s)" for f
    unfolding update_where_def
  proof (rule map_cong [OF refl])
    fix d assume "d \<in> set (db_deliveries s)"
    then show "(if ?P d then f d else d) = (if dkey d = dkey c then f d else d)"
      using pc cand dkey_inj [OF inv, of d c] by auto
  qed
  have Q: "update_where (\<lambda>a. dr_status c = Processing \<and> R a) g as
         = (if dr_status c = Processing then update_where R g as else as)" for R g as
    by (simp add: update_where_none)
  show ?thesis
    using res c e n p cand pc
    by (intro exI [of _ c] exI [of _ ep] exI [of _ ev] exI [of _ sv])
       (auto simp: claim_one_delivery_def Let_def P Q)
qed

lemma ready_not_terminal:
  "ready_at t d \<Longrightarrow> dr_status d \<noteq> Succeeded \<and> dr_status d \<noteq> Failed_permanent \<and> dr_status d \<noteq> Dead_letter"
  by (auto simp: ready_at_def)

lemma row_ok_claim:
  "row_ok d \<Longrightarrow> dr_attempts d < dr_max d \<Longrightarrow> ready_at t d \<Longrightarrow> row_ok (claim_delivery_row w now ttl d)"
  using ready_not_terminal [of t d] by (auto simp: row_ok_def claim_delivery_row_def)

lemma claim_one_inv:
  assumes inv: "db_inv s"
    and res: "claim_one_delivery w i ttl st clk locked wl el wc ec s = (r, s')"
  shows "db_inv s'"
proof (cases r)
  case None
  then have "s' = s" using res
    by (auto simp: claim_one_delivery_def Let_def split: option.splits if_splits)
  with inv show ?thesis by simp
next
  case (Some r')
  from claim_one_Some [OF inv res [unfolded Some]] obtain c where c: "c \<in> set (db_deliveries s)"
    and rdy: "ready_at (clk 2) c" and lt: "dr_attempts c < dr_max c"
    and ds: "db_deliveries s' = update_where (\<lambda>d. dkey d = dkey c) (claim_delivery_row w (clk 2) ttl) (db_deliveries s)"
    and as: "db_attempts s' = update_where (\<lambda>a. dr_status c = Processing \<and> akey a = dkey c
            \<and> at_token a = dr_token c \<and> at_state a = Started) (abandon_attempt (clk 3) ''lease_expired'') (db_attempts s)
          @ [new_attempt (claim_delivery_row w (clk 2) ttl c) i (clk 4)]"
    by blast
  let ?c = "claim_delivery_row w (clk 2) ttl c"
  let ?Q = "\<lambda>a. dr_status c = Processing \<and> akey a = dkey c \<and> at_token a = dr_token c \<and> at_state a = Started"
  let ?g = "abandon_attempt (clk 3) ''lease_expired''"
  let ?as = "update_where ?Q ?g (db_attempts s)"
  have key: "akey (new_attempt ?c i (clk 4)) = dkey c"
    by (simp add: akey_def new_attempt_def dkey_def claim_delivery_row_def)
  have of: "attempts_of k ?as = update_where ?Q ?g (attempts_of k (db_attempts s))" for k
    by (simp add: attempts_of_update_where)
  have cok: "row_ok c" "attempts_ok c (attempts_of (dkey c) (db_attempts s))"
    using inv c by (rule inv_row)+
  have closed: "none_started (attempts_of (dkey c) ?as)"
    unfolding of
  proof (rule none_started_update)
    fix a assume "a \<in> set (attempts_of (dkey c) (db_attempts s))" "at_state a = Started"
    with attempts_ok_started [OF cok(2)] show "?Q a" by (auto simp: attempts_of_def)
  qed simp
  have base: "attempts_base c (attempts_of (dkey c) ?as)"
    unfolding of using cok(2) by (intro attempts_base_update) (simp_all add: attempts_ok_def attempt_ok_abandon)
  from attempts_base_claim [OF this cok(1) lt]
  have new: "attempts_ok ?c (attempts_of (dkey c) ?as @ [new_attempt ?c i (clk 4)])"
    using closed by (auto simp: attempts_ok_def none_started_def new_attempt_def claim_delivery_row_def)
  show ?thesis unfolding ds as
  proof (rule queue_inv_snoc_attempt)
    fix d assume "d \<in> set (update_where (\<lambda>d. dkey d = dkey c) (claim_delivery_row w (clk 2) ttl) (db_deliveries s))"
      and nk: "dkey d \<noteq> akey (new_attempt ?c i (clk 4))"
    then have d: "d \<in> set (db_deliveries s)" by (auto simp: set_update_where key split: if_splits)
    have "attempts_ok d (attempts_of (dkey d) ?as)"
      unfolding of using inv_row(2) [OF inv d] nk
      by (intro attempts_ok_unchanged) (auto simp: attempts_of_def key)
    then show "row_ok d \<and> attempts_ok d (attempts_of (dkey d) ?as)" using inv_row(1) [OF inv d] by simp
  next
    fix d assume "d \<in> set (update_where (\<lambda>d. dkey d = dkey c) (claim_delivery_row w (clk 2) ttl) (db_deliveries s))"
      and "dkey d = akey (new_attempt ?c i (clk 4))"
    then have "d = ?c" using dkey_inj [OF inv _ c] by (auto simp: set_update_where key split: if_splits)
    then show "row_ok d \<and> attempts_ok d (attempts_of (dkey d) ?as @ [new_attempt ?c i (clk 4)])"
      using new row_ok_claim [OF cok(1) lt rdy] by simp
  next
    show "distinct (map dr_id (update_where (\<lambda>d. dkey d = dkey c) (claim_delivery_row w (clk 2) ttl) (db_deliveries s)))"
      using inv by (simp add: queue_inv_def map_update_where_same)
  next
    show "\<forall>b\<in>set ?as. \<exists>d\<in>set (update_where (\<lambda>d. dkey d = dkey c) (claim_delivery_row w (clk 2) ttl) (db_deliveries s)).
            dkey d = akey b"
      by (rule attempts_owned [OF inv]) simp_all
    show "\<exists>d\<in>set (update_where (\<lambda>d. dkey d = dkey c) (claim_delivery_row w (clk 2) ttl) (db_deliveries s)).
            dkey d = akey (new_attempt ?c i (clk 4))"
      using c by (intro bexI [of _ ?c]) (auto simp: set_update_where key)
  qed
qed

subsection \<open>Recovery\<close>

lemma row_ok_dead_letter:
  "row_ok d \<Longrightarrow> ready_at t d \<Longrightarrow> row_ok (dead_letter_row now d)"
  using ready_not_terminal [of t d] by (auto simp: row_ok_def dead_letter_row_def)

lemma recover_one_fields:
  "db_deliveries (recover_one clk x s)
   = update_where (\<lambda>d. dr_id d = dr_id x) (dead_letter_row (clk 1)) (db_deliveries s)"
  "db_attempts (recover_one clk x s)
   = update_where (\<lambda>a. akey a = dkey x \<and> at_token a = dr_token x \<and> at_state a = Started)
       (abandon_attempt (clk 0) ''lease_expired'') (db_attempts s)"
  by (simp_all add: recover_one_def)

lemma recover_one_inv:
  assumes inv: "db_inv s" and x: "x \<in> set (db_deliveries s)" and rdy: "ready_at st x"
  shows "db_inv (recover_one clk x s)"
proof -
  have id: "dr_id d = dr_id x \<longleftrightarrow> d = x" if "d \<in> set (db_deliveries s)" for d
    using that x dkey_unique [OF inv] by blast
  show ?thesis unfolding recover_one_fields
  proof (rule queue_inv_update [OF inv])
    fix d assume d: "d \<in> set (db_deliveries s)" "dr_id d = dr_id x" "row_ok d"
      "attempts_ok d (attempts_of (dkey d) (db_attempts s))"
    then have [simp]: "d = x" using id by blast
    have "attempts_ok (dead_letter_row (clk 1) x)
        (update_where (\<lambda>a. akey a = dkey x \<and> at_token a = dr_token x \<and> at_state a = Started)
          (abandon_attempt (clk 0) ''lease_expired'') (attempts_of (dkey x) (db_attempts s)))"
    proof (rule attempts_ok_close)
      show "attempts_ok x (attempts_of (dkey x) (db_attempts s))" using d(4) by simp
      then show "akey a = dkey x \<and> at_token a = dr_token x \<and> at_state a = Started"
        if "a \<in> set (attempts_of (dkey x) (db_attempts s))" "at_state a = Started" for a
        using that attempts_ok_started by (auto simp: attempts_of_def)
    qed (simp_all add: attempt_ok_abandon dead_letter_row_def)
    then show "row_ok (dead_letter_row (clk 1) d) \<and> attempts_ok (dead_letter_row (clk 1) d)
        (update_where (\<lambda>a. akey a = dkey x \<and> at_token a = dr_token x \<and> at_state a = Started)
          (abandon_attempt (clk 0) ''lease_expired'') (attempts_of (dkey d) (db_attempts s)))"
      using row_ok_dead_letter [OF d(3), of st] rdy by simp
  next
    fix d a assume "d \<in> set (db_deliveries s)" "dr_id d \<noteq> dr_id x" "akey a = dkey d"
    then show "\<not> (akey a = dkey x \<and> at_token a = dr_token x \<and> at_state a = Started)"
      by (auto simp: dkey_def)
  qed simp_all
qed

lemma recover_fold_inv:
  assumes "db_inv s" and "set rows \<subseteq> set (db_deliveries s)" and "distinct rows"
    and "\<forall>x\<in>set rows. ready_at st x"
  shows "db_inv (fold (recover_one clk) rows s)"
  using assms
proof (induction rows arbitrary: s)
  case (Cons x rows)
  have x: "x \<in> set (db_deliveries s)" "ready_at st x" using Cons.prems by auto
  have "set rows \<subseteq> set (db_deliveries (recover_one clk x s))"
  proof
    fix y assume y: "y \<in> set rows"
    with Cons.prems have "y \<in> set (db_deliveries s)" "y \<noteq> x" by auto
    with x dkey_unique [OF Cons.prems(1)] have "dr_id y \<noteq> dr_id x" by blast
    with \<open>y \<in> set (db_deliveries s)\<close> show "y \<in> set (db_deliveries (recover_one clk x s))"
      by (auto simp: recover_one_def set_update_where intro!: image_eqI [of _ _ y])
  qed
  with Cons recover_one_inv [OF Cons.prems(1) x] show ?case by simp
qed simp

lemma recover_exhausted_inv:
  assumes inv: "db_inv s" and res: "recover_exhausted lim st clk locked s = Inr (n, s')"
  shows "db_inv s'"
proof -
  let ?xs = "sort_key (\<lambda>d. (dr_next d, dr_created d, dr_id d)) (filter (exhausted_row st locked) (db_deliveries s))"
  have s': "s' = fold (recover_one clk) (take lim ?xs) s"
    using res by (auto simp: recover_exhausted_def Let_def split: if_splits)
  have sub: "set (take lim ?xs) \<subseteq> set (filter (exhausted_row st locked) (db_deliveries s))"
    using set_take_subset [of lim ?xs] by simp
  have "distinct (db_deliveries s)" using inv by (simp add: queue_inv_def distinct_map)
  then have "distinct (take lim ?xs)" by simp
  then show ?thesis unfolding s'
    using sub by (intro recover_fold_inv [OF inv, of _ st]) (auto simp: exhausted_row_def)
qed

lemma claim_loop_inv:
  "db_inv s \<Longrightarrow> claim_loop rnd m w is ttl st clk locked wl el wc ec lim s = (cs, s') \<Longrightarrow> db_inv s'"
proof (induction rnd m w "is" ttl st clk locked wl el wc ec lim s arbitrary: cs s' rule: claim_loop.induct)
  case (3 rnd m w a as ttl st clk locked wl el wc ec lim s)
  obtain r s1 where r: "claim_one_delivery w a ttl st (clk rnd) (locked rnd) wl el wc ec s = (r, s1)"
    by (cases "claim_one_delivery w a ttl st (clk rnd) (locked rnd) wl el wc ec s") auto
  have inv: "db_inv s1" using claim_one_inv [OF "3.prems"(1) r] .
  show ?case
  proof (cases r)
    case None
    with r "3.prems"(2) have "claim_loop (Suc rnd) m w (a # as) ttl st clk locked wl el wc ec lim s1 = (cs, s')"
      by simp
    with "3.IH"(1) [OF r [symmetric] None inv] show ?thesis by blast
  next
    case (Some c)
    obtain cs1 s2 where l: "claim_loop (Suc rnd) lim w as ttl st clk locked wl el
        (wc(cr_ws c := wc (cr_ws c) + 1)) (ec((cr_ws c, cr_endpoint c) := ec (cr_ws c, cr_endpoint c) + 1)) lim s1 = (cs1, s2)"
      by fastforce
    with r Some "3.prems"(2) have "s' = s2" by simp
    with "3.IH"(2) [OF r [symmetric] Some refl refl inv l] show ?thesis by simp
  qed
qed auto

lemma claim_deliveries_inv:
  assumes inv: "db_inv s"
    and res: "claim_deliveries w is ttl lim wl el st clk locked s = Inr (cs, s')"
  shows "db_inv s'"
proof -
  from res obtain n s1 cs1 where r: "recover_exhausted (nat lim) st (clk 0) (locked 0) s = Inr (n, s1)"
    and l: "claim_loop 1 3 w is ttl st clk locked (nat wl) (nat el) (\<lambda>_. 0) (\<lambda>_. 0) 3 s1 = (cs1, s')"
    by (auto simp: claim_deliveries_def split: if_splits sum.splits prod.splits)
  from claim_loop_inv [OF recover_exhausted_inv [OF inv r] l] show ?thesis .
qed

subsection \<open>Finalisation\<close>

text \<open>What \<open>finalize_delivery\<close> does when it answers true, and that it never finds the attempts of a
  processing delivery in disorder.\<close>

lemma finalize_cases:
  assumes inv: "db_inv s"
  shows "(\<exists>e. finalize_delivery k w t dp h ms cat dl clk s = Inl e
            \<and> (e = ''invalid disposition'' \<or> e = ''invalid retry delay''))
    \<or> (finalize_delivery k w t dp h ms cat dl clk s = Inr (False, s)
        \<and> (\<forall>d\<in>set (db_deliveries s). \<not> held_by k w t (clk 0) d))
    \<or> (\<exists>d dp' h' cat' dl'. d \<in> set (db_deliveries s) \<and> held_by k w t (clk 0) d
        \<and> dp' \<in> {''success'', ''retry'', ''permanent_failure''}
        \<and> (case h' of None \<Rightarrow> True | Some x \<Rightarrow> 100 \<le> x \<and> x \<le> 599)
        \<and> ((case h of None \<Rightarrow> True | Some x \<Rightarrow> 100 \<le> x \<and> x \<le> 599) \<longrightarrow> dp' = dp \<and> h' = h \<and> cat' = cat)
        \<and> finalize_delivery k w t dp h ms cat dl clk s
          = Inr (True, s\<lparr>db_deliveries := update_where (\<lambda>x. x = d) (finalize_row (clk 0) dp' cat' dl') (db_deliveries s),
                db_attempts := update_where (\<lambda>a. akey a = k \<and> at_token a = t \<and> at_state a = Started)
                   (complete_attempt (clk 1) dp' h' ms cat') (db_attempts s)\<rparr>))"
    (is "?A \<or> ?B \<or> ?C")
proof -
  define bad where "bad = (case h of None \<Rightarrow> False | Some h \<Rightarrow> h < 100 \<or> h > 599)"
  define h' where "h' = (if bad then None else h)"
  define dp' where "dp' = (if bad then ''permanent_failure'' else dp)"
  define cat' where "cat' = (if bad then ''invalid_http_status'' else cat)"
  define dly where "dly = (if bad then None else dl)"
  let ?r = "finalize_delivery k w t dp h ms cat dl clk s"
  have unf: "?r = (if dp' \<notin> {''success'', ''retry'', ''permanent_failure''} then Inl ''invalid disposition''
         else if dp' = ''retry'' \<and> (case dly of None \<Rightarrow> True | Some r \<Rightarrow> r < 0 \<or> r > 15 * minute)
         then Inl ''invalid retry delay''
         else let P = held_by k w t (clk 0)
           in if count_where P (db_deliveries s) = 0 then Inr (False, s)
              else let ds = update_where P (finalize_row (clk 0) dp' cat' (case dly of None \<Rightarrow> 0 | Some r \<Rightarrow> r)) (db_deliveries s);
                    Q = (\<lambda>a. akey a = k \<and> at_token a = t \<and> at_state a = Started)
                in if count_where Q (db_attempts s) \<noteq> 1 then Inl ''delivery attempt invariant violated''
                   else Inr (True, s\<lparr>db_deliveries := ds,
                          db_attempts := update_where Q (complete_attempt (clk 1) dp' h' ms cat') (db_attempts s)\<rparr>))"
    unfolding finalize_delivery_def bad_def [symmetric] Let_def h'_def dp'_def cat'_def dly_def ..
  have hok: "case h' of None \<Rightarrow> True | Some x \<Rightarrow> 100 \<le> x \<and> x \<le> 599"
    by (auto simp: h'_def bad_def split: option.splits)
  have same: "(case h of None \<Rightarrow> True | Some x \<Rightarrow> 100 \<le> x \<and> x \<le> 599) \<longrightarrow> dp' = dp \<and> h' = h \<and> cat' = cat"
    by (auto simp: h'_def dp'_def cat'_def bad_def split: option.splits)
  show ?thesis
  proof (cases "dp' \<in> {''success'', ''retry'', ''permanent_failure''}
      \<and> \<not> (dp' = ''retry'' \<and> (case dly of None \<Rightarrow> True | Some r \<Rightarrow> r < 0 \<or> r > 15 * minute))
      \<and> count_where (held_by k w t (clk 0)) (db_deliveries s) \<noteq> 0")
    case False
    then show ?thesis unfolding unf by (auto simp: count_where_0)
  next
    case True
    then obtain d where d: "d \<in> set (db_deliveries s)" "held_by k w t (clk 0) d"
      using count_where_pos by blast
    have one: "count_where (\<lambda>a. akey a = k \<and> at_token a = t \<and> at_state a = Started) (db_attempts s) = 1"
      using one_open_attempt [OF inv d(1)] d(2) by (auto simp: held_by_def)
    have P: "update_where (held_by k w t (clk 0)) f (db_deliveries s) = update_where (\<lambda>x. x = d) f (db_deliveries s)" for f
      unfolding update_where_def
    proof (rule map_cong [OF refl])
      fix x assume "x \<in> set (db_deliveries s)"
      then have "held_by k w t (clk 0) x \<longleftrightarrow> x = d"
        using d dkey_inj [OF inv, of x d] unfolding held_by_def by metis
      then show "(if held_by k w t (clk 0) x then f x else x) = (if x = d then f x else x)" by simp
    qed
    have ?C
      unfolding unf using True one d hok same
      by (intro exI [of _ d] exI [of _ dp'] exI [of _ h'] exI [of _ cat']
          exI [of _ "case dly of None \<Rightarrow> 0 | Some r \<Rightarrow> r"]) (simp add: P Let_def)
    then show ?thesis by blast
  qed
qed

lemma row_ok_finalize:
  "row_ok d \<Longrightarrow> dr_status d = Processing \<Longrightarrow> p \<in> {''success'', ''retry'', ''permanent_failure''} \<Longrightarrow>
     row_ok (finalize_row t p c r d)"
  by (auto simp: row_ok_def finalize_row_def)

lemma finalize_inv:
  assumes inv: "db_inv s" and res: "finalize_delivery k w t dp h ms cat dl clk s = Inr (b, s')"
  shows "db_inv s'"
  using finalize_cases [OF inv, of k w t dp h ms cat dl clk]
proof (elim disjE exE conjE)
  fix d dp' h' cat' dl'
  let ?Q = "\<lambda>a. akey a = k \<and> at_token a = t \<and> at_state a = Started"
  let ?f = "finalize_row (clk 0) dp' cat' dl'" and ?g = "complete_attempt (clk 1) dp' h' ms cat'"
  assume d: "d \<in> set (db_deliveries s)" "held_by k w t (clk 0) d"
    and p: "dp' \<in> {''success'', ''retry'', ''permanent_failure''}"
    and h: "case h' of None \<Rightarrow> True | Some x \<Rightarrow> 100 \<le> x \<and> x \<le> 599"
    and e: "finalize_delivery k w t dp h ms cat dl clk s
          = Inr (True, s\<lparr>db_deliveries := update_where (\<lambda>x. x = d) ?f (db_deliveries s),
                db_attempts := update_where ?Q ?g (db_attempts s)\<rparr>)"
  have "queue_inv (update_where (\<lambda>x. x = d) ?f (db_deliveries s)) (update_where ?Q ?g (db_attempts s))"
  proof (rule queue_inv_update [OF inv])
    fix x assume x: "x \<in> set (db_deliveries s)" "x = d" "row_ok x"
      "attempts_ok x (attempts_of (dkey x) (db_attempts s))"
    have "attempts_ok (?f d) (update_where ?Q ?g (attempts_of (dkey d) (db_attempts s)))"
    proof (rule attempts_ok_close)
      show ok: "attempts_ok d (attempts_of (dkey d) (db_attempts s))" using x by simp
      show "?Q a" if "a \<in> set (attempts_of (dkey d) (db_attempts s))" "at_state a = Started" for a
        using that attempts_ok_started [OF ok] d(2) by (auto simp: attempts_of_def held_by_def)
    qed (use p h in \<open>auto simp: attempt_ok_complete finalize_row_def\<close>)
    then show "row_ok (?f x) \<and> attempts_ok (?f x) (update_where ?Q ?g (attempts_of (dkey x) (db_attempts s)))"
      using row_ok_finalize x p d(2) by (simp add: held_by_def)
  next
    fix x a assume "x \<in> set (db_deliveries s)" "x \<noteq> d" "akey a = dkey x"
    then show "\<not> ?Q a" using d dkey_inj [OF inv, of x d] by (auto simp: held_by_def)
  qed simp_all
  then show ?thesis using res e by auto
qed (use res inv in auto)

subsection \<open>Replay, retention, quarantine, publication\<close>

lemma row_ok_replay:
  "row_ok d \<Longrightarrow> row_ok (replay_row_update t (dr_run d + 1) d)"
  by (auto simp: row_ok_def replay_row_update_def)

lemma replay_inv:
  assumes inv: "db_inv s" and res: "request_replay c clk s = Inr (r, s')"
  shows "db_inv s'"
proof (cases "s' = s")
  case True
  with inv show ?thesis by simp
next
  case False
  with res obtain d where f: "List.find (\<lambda>d. dkey d = (rq_ws c, rq_delivery c)
        \<and> list_ex (\<lambda>e. er_ws e = dr_ws d \<and> er_id e = dr_event d) (db_events s)) (db_deliveries s) = Some d"
    and st: "dr_status d = Failed_permanent \<or> dr_status d = Dead_letter"
    and ds: "db_deliveries s' = update_where (\<lambda>x. dkey x = (rq_ws c, rq_delivery c))
               (replay_row_update (clk 0) (dr_run d + 1)) (db_deliveries s)"
    and as: "db_attempts s' = db_attempts s"
    by (auto simp: request_replay_def Let_def split: option.splits if_splits)
  from f have d: "d \<in> set (db_deliveries s)" "dkey d = (rq_ws c, rq_delivery c)"
    by (auto simp: find_Some_iff)
  have "queue_inv (update_where (\<lambda>x. dkey x = dkey d) (replay_row_update (clk 0) (dr_run d + 1)) (db_deliveries s))
          (update_where (\<lambda>a. False) (abandon_attempt 0 []) (db_attempts s))"
  proof (rule queue_inv_update [OF inv])
    fix x assume x: "x \<in> set (db_deliveries s)" "dkey x = dkey d" "row_ok x"
      "attempts_ok x (attempts_of (dkey x) (db_attempts s))"
    then have [simp]: "x = d" using dkey_inj [OF inv] d by blast
    have "attempts_ok (replay_row_update (clk 0) (dr_run d + 1) d) (attempts_of (dkey d) (db_attempts s))"
      using x(4) st attempts_base_replay [of d] by (auto simp: attempts_ok_def replay_row_update_def)
    then show "row_ok (replay_row_update (clk 0) (dr_run d + 1) x)
        \<and> attempts_ok (replay_row_update (clk 0) (dr_run d + 1) x)
            (update_where (\<lambda>a. False) (abandon_attempt 0 []) (attempts_of (dkey x) (db_attempts s)))"
      using row_ok_replay x(3) by (simp add: update_where_none)
  qed simp_all
  then show ?thesis by (simp add: ds as d(2) update_where_none)
qed

lemma row_ok_fail: "row_ok d \<Longrightarrow> live_status d \<Longrightarrow> row_ok (fail_row t c d)"
  by (auto simp: row_ok_def fail_row_def live_status_def)

text \<open>Failing a set of live deliveries whose open attempts are abandoned.\<close>

lemma fail_rows_inv:
  assumes inv: "queue_inv ds as"
    and Q: "\<And>d a. d \<in> set ds \<Longrightarrow> a \<in> set as \<Longrightarrow> akey a = dkey d \<Longrightarrow> at_state a = Started \<Longrightarrow>
              Q a \<longleftrightarrow> P d"
    and Q': "\<And>a. Q a \<Longrightarrow> at_state a = Started"
    and P: "\<And>d. P d \<Longrightarrow> live_status d"
  shows "queue_inv (update_where P (fail_row t c) ds) (update_where Q (abandon_attempt t c') as)"
proof (rule queue_inv_update [OF inv])
  fix d assume d: "d \<in> set ds" "P d" "row_ok d" "attempts_ok d (attempts_of (dkey d) as)"
  have "attempts_ok (fail_row t c d) (update_where Q (abandon_attempt t c') (attempts_of (dkey d) as))"
  proof (rule attempts_ok_close [OF d(4)])
    show "Q a" if "a \<in> set (attempts_of (dkey d) as)" "at_state a = Started" for a
      using that Q [OF d(1), of a] d(2) by (auto simp: attempts_of_def)
  qed (simp_all add: attempt_ok_abandon fail_row_def)
  then show "row_ok (fail_row t c d)
      \<and> attempts_ok (fail_row t c d) (update_where Q (abandon_attempt t c') (attempts_of (dkey d) as))"
    using row_ok_fail d P by simp
next
  fix d a assume "d \<in> set ds" "\<not> P d" "a \<in> set as" "akey a = dkey d"
  then show "\<not> Q a" using Q [of d a] Q' by blast
qed simp_all

lemma started_live:
  assumes "queue_inv ds as" and "d \<in> set ds" and "a \<in> set as" and "akey a = dkey d"
    and "at_state a = Started"
  shows "live_status d"
  using attempts_ok_started [OF inv_row(2) [OF assms(1,2)]] assms(3-5)
  by (auto simp: attempts_of_def live_status_def)

lemma purge_payloads_inv:
  assumes inv: "db_inv s" and res: "purge_expired_payloads n st locked s = Inr (m, s')"
  shows "db_inv s'"
proof -
  define es where "es = take (nat n) (sort_key (\<lambda>e. (er_expires e, er_id e))
      (filter (\<lambda>e. er_payload e \<noteq> None \<and> er_expires e \<le> st \<and> \<not> locked (er_id e)) (db_events s)))"
  have ds: "db_deliveries s' = update_where (\<lambda>d. list_ex (\<lambda>e. er_ws e = dr_ws d \<and> er_id e = dr_event d) es \<and> live_status d)
           (fail_row st ''payload_expired'') (db_deliveries s)"
    and as: "db_attempts s' = update_where (\<lambda>a. at_state a = Started \<and>
           list_ex (\<lambda>d. dkey d = akey a \<and> list_ex (\<lambda>e. er_ws e = dr_ws d \<and> er_id e = dr_event d) es) (db_deliveries s))
           (abandon_attempt st ''payload_expired'') (db_attempts s)"
    using res unfolding purge_expired_payloads_def Let_def es_def [symmetric]
    by (auto split: if_splits)
  show ?thesis unfolding ds as
  proof (rule fail_rows_inv [OF inv])
    fix d a assume "d \<in> set (db_deliveries s)" "a \<in> set (db_attempts s)" "akey a = dkey d" "at_state a = Started"
    then show "(at_state a = Started \<and>
           list_ex (\<lambda>d. dkey d = akey a \<and> list_ex (\<lambda>e. er_ws e = dr_ws d \<and> er_id e = dr_event d) es) (db_deliveries s))
        \<longleftrightarrow> (list_ex (\<lambda>e. er_ws e = dr_ws d \<and> er_id e = dr_event d) es \<and> live_status d)"
      using dkey_inj [OF inv] started_live [OF inv] unfolding list_ex_iff by metis
  qed auto
qed

lemma quarantine_inv:
  assumes inv: "db_inv s"
  shows "db_inv (quarantine_queue st s)"
proof -
  have "queue_inv (update_where live_status (fail_row st ''restore_quarantine'') (db_deliveries s))
          (update_where (\<lambda>a. at_state a = Started) (abandon_attempt st ''restore_quarantine'') (db_attempts s))"
    by (rule fail_rows_inv [OF inv]) (use started_live [OF inv] in auto)
  then show ?thesis by (simp add: quarantine_queue_def)
qed

lemma insert_delivery_inv:
  assumes inv: "db_inv s" and res: "insert_delivery (new_delivery ws i ev ep mx now) s = Inr s'"
  shows "db_inv s'"
proof -
  let ?d = "new_delivery ws i ev ep mx now"
  have new: "\<forall>x\<in>set (db_deliveries s). dr_id x \<noteq> i" and mx: "1 \<le> mx" "mx \<le> 100"
    and s': "s' = s\<lparr>db_deliveries := db_deliveries s @ [?d]\<rparr>"
    using res by (auto simp: insert_delivery_def new_delivery_def list_ex_iff split: if_splits)
  have "attempts_of (dkey ?d) (db_attempts s) = []"
    using new inv by (fastforce simp: attempts_of_def filter_empty_conv queue_inv_def dkey_def new_delivery_def)
  then have "attempts_ok ?d (attempts_of (dkey ?d) (db_attempts s))"
    by (simp add: attempts_ok_def attempts_base_def none_started_def new_delivery_def)
  moreover have "row_ok ?d" using mx by (simp add: row_ok_def new_delivery_def)
  moreover have "dr_id ?d = i" by (simp add: new_delivery_def)
  ultimately show ?thesis using inv new by (auto simp: queue_inv_def s')
qed

section \<open>The state machine\<close>

text \<open>One committed transaction of an API server, a worker, the purge of payloads or secrets, or a quarantine. The purge of
  expired metadata and the purge of a workspace, which delete rows, are steps of \<open>Queue_System.system_step\<close>.\<close>

inductive qstep :: "db \<Rightarrow> db \<Rightarrow> bool" where
  q_publish: "insert_delivery (new_delivery ws i ev ep mx now) s = Inr s' \<Longrightarrow> qstep s s'"
| q_claim: "claim_deliveries w is ttl lim wl el st clk locked s = Inr (cs, s') \<Longrightarrow> qstep s s'"
| q_finalize: "finalize_delivery k w t p h ms cat dl clk' s = Inr (b, s') \<Longrightarrow> qstep s s'"
| q_replay: "request_replay c clk' s = Inr (r, s') \<Longrightarrow> qstep s s'"
| q_purge: "purge_expired_payloads n st lk s = Inr (m, s') \<Longrightarrow> qstep s s'"
| q_purge_secrets: "purge_retired_secrets n st lk s = Inr (m, s') \<Longrightarrow> qstep s s'"
| q_quarantine: "qstep s (quarantine_queue st s)"

inductive_cases qstepE: "qstep s s'"

lemma purge_secrets_same:
  "purge_retired_secrets n st lk s = Inr (m, s') \<Longrightarrow>
     db_deliveries s' = db_deliveries s \<and> db_attempts s' = db_attempts s"
  by (auto simp: purge_retired_secrets_def Let_def split: if_splits)

lemma qstep_inv: "qstep s s' \<Longrightarrow> db_inv s \<Longrightarrow> db_inv s'"
proof (induction rule: qstep.induct)
  case (q_purge_secrets n st lk s m s')
  then show ?case using purge_secrets_same [OF q_purge_secrets(1)] by simp
qed (blast intro: insert_delivery_inv claim_deliveries_inv finalize_inv replay_inv purge_payloads_inv
    quarantine_inv)+

abbreviation qsteps :: "db \<Rightarrow> db \<Rightarrow> bool" where "qsteps \<equiv> qstep\<^sup>*\<^sup>*"

lemma qsteps_inv: "qsteps s s' \<Longrightarrow> db_inv s \<Longrightarrow> db_inv s'"
  by (induction rule: rtranclp_induct) (auto intro: qstep_inv)

end
