(* ===== verification/Queue_Fencing.thy ===== *)
theory Queue_Fencing
  imports Queue_Inv
begin

text \<open>
  What the queue promises its workers: fencing tokens never go back, a token that has been
  finalised or superseded is closed for good, a batch is fair and disjoint, and attempts are
  bounded.
\<close>

section \<open>Tokens only move forward\<close>

definition row_step :: "delivery_row \<Rightarrow> delivery_row \<Rightarrow> bool" where
  "row_step d d' \<longleftrightarrow>
     dkey d' = dkey d \<and> dr_token d \<le> dr_token d' \<and> dr_run d \<le> dr_run d'
     \<and> (dr_token d' = dr_token d \<longrightarrow> dr_status d \<noteq> Processing \<longrightarrow> dr_status d' \<noteq> Processing)"

definition rows_step :: "delivery_row list \<Rightarrow> delivery_row list \<Rightarrow> bool" where
  "rows_step ds ds' \<longleftrightarrow> (\<forall>d\<in>set ds. \<exists>d'\<in>set ds'. row_step d d')"

lemma row_step_refl [simp]: "row_step d d"
  by (simp add: row_step_def)

lemma row_step_trans: "row_step a b \<Longrightarrow> row_step b c \<Longrightarrow> row_step a c"
  by (auto simp: row_step_def)

lemma rows_step_append [simp]: "rows_step ds (ds @ xs)"
  unfolding rows_step_def set_append using row_step_refl by blast

lemma rows_step_refl [simp]: "rows_step ds ds"
  using rows_step_append [of ds "[]"] by simp

lemma rows_step_trans: "rows_step a b \<Longrightarrow> rows_step b c \<Longrightarrow> rows_step a c"
  by (meson rows_step_def row_step_trans)

lemma rows_step_update:
  assumes "\<And>d. d \<in> set ds \<Longrightarrow> P d \<Longrightarrow> row_step d (f d)"
  shows "rows_step ds (update_where P f ds)"
  unfolding rows_step_def
proof
  fix d assume "d \<in> set ds"
  then show "\<exists>d'\<in>set (update_where P f ds). row_step d d'"
    using assms by (intro bexI [of _ "if P d then f d else d"]) (auto simp: set_update_where)
qed

lemma row_steps [simp]:
  "row_step d (claim_delivery_row w t l d)" "row_step d (dead_letter_row t d)"
  "row_step d (finalize_row t p c r d)" "row_step d (fail_row t c d)"
  by (auto simp: row_step_def claim_delivery_row_def dead_letter_row_def finalize_row_def fail_row_def
      dkey_def)

lemma claim_one_rows:
  assumes "db_inv s" and "claim_one_delivery w i ttl st clk locked wl el wc ec s = (r, s')"
  shows "rows_step (db_deliveries s) (db_deliveries s')"
proof (cases r)
  case None
  then have "s' = s" using assms(2)
    by (auto simp: claim_one_delivery_def Let_def split: option.splits if_splits)
  then show ?thesis by simp
next
  case (Some r')
  from claim_one_Some [OF assms(1) assms(2) [unfolded Some]] obtain c where
    "db_deliveries s' = update_where (\<lambda>d. dkey d = dkey c) (claim_delivery_row w (clk 2) ttl) (db_deliveries s)"
    by blast
  then show ?thesis by (simp add: rows_step_update)
qed

lemma recover_rows:
  "rows_step (db_deliveries s) (db_deliveries (fold (recover_one clk) rows s))"
proof (induction rows arbitrary: s)
  case (Cons x rows)
  have "rows_step (db_deliveries s) (db_deliveries (recover_one clk x s))"
    by (simp add: recover_one_fields rows_step_update)
  with Cons [of "recover_one clk x s"] show ?case by (auto intro: rows_step_trans)
qed simp

lemma claim_loop_rows:
  "db_inv s \<Longrightarrow> claim_loop rnd m w is ttl st clk locked wl el wc ec lim s = (cs, s') \<Longrightarrow>
     rows_step (db_deliveries s) (db_deliveries s')"
proof (induction rnd m w "is" ttl st clk locked wl el wc ec lim s arbitrary: cs s' rule: claim_loop.induct)
  case (3 rnd m w a as ttl st clk locked wl el wc ec lim s)
  obtain r s1 where r: "claim_one_delivery w a ttl st (clk rnd) (locked rnd) wl el wc ec s = (r, s1)"
    by (cases "claim_one_delivery w a ttl st (clk rnd) (locked rnd) wl el wc ec s") auto
  have inv: "db_inv s1" using claim_one_inv [OF "3.prems"(1) r] .
  have first: "rows_step (db_deliveries s) (db_deliveries s1)" using claim_one_rows [OF "3.prems"(1) r] .
  show ?case
  proof (cases r)
    case None
    with r "3.prems"(2) have "claim_loop (Suc rnd) m w (a # as) ttl st clk locked wl el wc ec lim s1 = (cs, s')"
      by simp
    with "3.IH"(1) [OF r [symmetric] None inv] first show ?thesis by (blast intro: rows_step_trans)
  next
    case (Some c)
    obtain cs1 s2 where l: "claim_loop (Suc rnd) lim w as ttl st clk locked wl el
        (wc(cr_ws c := wc (cr_ws c) + 1)) (ec((cr_ws c, cr_endpoint c) := ec (cr_ws c, cr_endpoint c) + 1)) lim s1 = (cs1, s2)"
      by fastforce
    with r Some "3.prems"(2) have "s' = s2" by simp
    with "3.IH"(2) [OF r [symmetric] Some refl refl inv l] first show ?thesis by (blast intro: rows_step_trans)
  qed
qed auto

text \<open>The two halves of a batch.\<close>

lemma claim_deliveries_parts:
  assumes inv: "db_inv s" and res: "claim_deliveries w is ttl lim wl el st clk locked s = Inr (cs, s')"
  obtains s1 cs1 where "db_inv s1" and "rows_step (db_deliveries s) (db_deliveries s1)"
    and "claim_loop 1 3 w is ttl st clk locked (nat wl) (nat el) (\<lambda>_. 0) (\<lambda>_. 0) 3 s1 = (cs1, s')"
    and "cs = map (\<lambda>c. c\<lparr>cr_retiring := retiring_secret s' st (cr_ws c) (cr_endpoint c)\<rparr>) cs1"
    and "w \<noteq> uuid_nil" and "20 * second \<le> ttl" and "ttl \<le> 2 * minute" and "1 \<le> lim" and "lim \<le> 100"
    and "int (length is) = lim" and "1 \<le> wl" and "wl \<le> lim" and "1 \<le> el" and "el \<le> lim"
proof -
  from res obtain n s1 cs1 where r: "recover_exhausted (nat lim) st (clk 0) (locked 0) s = Inr (n, s1)"
    and l: "claim_loop 1 3 w is ttl st clk locked (nat wl) (nat el) (\<lambda>_. 0) (\<lambda>_. 0) 3 s1 = (cs1, s')"
    and c: "cs = map (\<lambda>c. c\<lparr>cr_retiring := retiring_secret s' st (cr_ws c) (cr_endpoint c)\<rparr>) cs1"
    and g: "w \<noteq> uuid_nil" "20 * second \<le> ttl" "ttl \<le> 2 * minute" "1 \<le> lim" "lim \<le> 100"
      "int (length is) = lim" "1 \<le> wl" "wl \<le> lim" "1 \<le> el" "el \<le> lim"
    by (auto simp: claim_deliveries_def not_less split: if_splits sum.splits prod.splits)
  have "rows_step (db_deliveries s) (db_deliveries s1)"
    using r by (auto simp: recover_exhausted_def Let_def recover_rows split: if_splits)
  from that [OF recover_exhausted_inv [OF inv r] this l c g] show thesis .
qed

lemma qstep_rows:
  assumes "qstep s s'" and inv: "db_inv s"
  shows "rows_step (db_deliveries s) (db_deliveries s')"
  using assms(1)
proof (cases rule: qstep.cases)
  case (q_publish ws i ev ep mx now)
  then show ?thesis by (auto simp: insert_delivery_def split: if_splits)
next
  case (q_claim w "is" ttl lim wl el st clk locked cs)
  obtain s1 cs1 where "db_inv s1" "rows_step (db_deliveries s) (db_deliveries s1)"
    and l: "claim_loop 1 3 w is ttl st clk locked (nat wl) (nat el) (\<lambda>_. 0) (\<lambda>_. 0) 3 s1 = (cs1, s')"
    by (rule claim_deliveries_parts [OF inv q_claim])
  from claim_loop_rows [OF this(1) l] this(2) show ?thesis by (blast intro: rows_step_trans)
next
  case (q_finalize k w t p h ms cat dl clk b)
  then show ?thesis
    using finalize_cases [OF inv, of k w t p h ms cat dl clk] by (auto simp: rows_step_update)
next
  case (q_replay c clk r)
  show ?thesis
  proof (cases "s' = s")
    case False
    with q_replay obtain d where f: "List.find (\<lambda>d. dkey d = (rq_ws c, rq_delivery c)
          \<and> list_ex (\<lambda>e. er_ws e = dr_ws d \<and> er_id e = dr_event d) (db_events s)) (db_deliveries s) = Some d"
      and st: "dr_status d = Failed_permanent \<or> dr_status d = Dead_letter"
      and ds: "db_deliveries s' = update_where (\<lambda>x. dkey x = (rq_ws c, rq_delivery c))
                 (replay_row_update (clk 0) (dr_run d + 1)) (db_deliveries s)"
      by (auto simp: request_replay_def Let_def split: option.splits if_splits)
    from f have d: "d \<in> set (db_deliveries s)" "dkey d = (rq_ws c, rq_delivery c)"
      by (auto simp: find_Some_iff)
    have "row_step x (replay_row_update (clk 0) (dr_run d + 1) x)"
      if "x \<in> set (db_deliveries s)" "dkey x = (rq_ws c, rq_delivery c)" for x
    proof -
      have "x = d" using dkey_inj [OF inv that(1) d(1)] that(2) d(2) by simp
      then show ?thesis by (simp add: row_step_def replay_row_update_def dkey_def)
    qed
    then show ?thesis unfolding ds by (rule rows_step_update)
  qed simp
next
  case (q_purge n st lk m)
  then show ?thesis
    by (auto simp: purge_expired_payloads_def Let_def rows_step_update split: if_splits)
next
  case (q_purge_secrets n st lk m)
  then show ?thesis using purge_secrets_same by fastforce
next
  case (q_quarantine st)
  then show ?thesis by (simp add: quarantine_queue_def rows_step_update)
qed

lemma qsteps_rows:
  "qsteps s s' \<Longrightarrow> db_inv s \<Longrightarrow> rows_step (db_deliveries s) (db_deliveries s')"
proof (induction rule: rtranclp_induct)
  case (step y z)
  then show ?case using qstep_rows qsteps_inv by (blast intro: rows_step_trans)
qed simp

section \<open>Closed tokens\<close>

definition token_closed :: "row_key \<Rightarrow> int \<Rightarrow> db \<Rightarrow> bool" where
  "token_closed k t s \<longleftrightarrow>
     (\<exists>d\<in>set (db_deliveries s). dkey d = k
        \<and> (t < dr_token d \<or> (t = dr_token d \<and> dr_status d \<noteq> Processing)))"

lemma token_closed_stays:
  assumes "token_closed k t s" and "qsteps s s'" and "db_inv s"
  shows "token_closed k t s'"
proof -
  from assms(1) obtain d where "d \<in> set (db_deliveries s)" "dkey d = k"
      "t < dr_token d \<or> (t = dr_token d \<and> dr_status d \<noteq> Processing)"
    by (auto simp: token_closed_def)
  moreover from this qsteps_rows [OF assms(2,3)] obtain d' where "d' \<in> set (db_deliveries s')" "row_step d d'"
    by (auto simp: rows_step_def)
  ultimately show ?thesis
    unfolding token_closed_def by (intro bexI [of _ d']) (auto simp: row_step_def)
qed

lemma closed_not_held:
  assumes "token_closed k t s" and "db_inv s" and "d \<in> set (db_deliveries s)"
  shows "\<not> held_by k w t now d"
proof
  assume h: "held_by k w t now d"
  from assms(1) obtain x where x: "x \<in> set (db_deliveries s)" "dkey x = k"
      "t < dr_token x \<or> (t = dr_token x \<and> dr_status x \<noteq> Processing)"
    by (auto simp: token_closed_def)
  moreover have "x = d" using dkey_inj [OF assms(2) x(1) assms(3)] x(2) h by (simp add: held_by_def)
  ultimately show False using h by (auto simp: held_by_def)
qed

lemma closed_not_finalized:
  assumes "token_closed k t s" and "db_inv s"
  shows "finalize_delivery k w t p h ms cat dl clk s \<noteq> Inr (True, s')"
  using finalize_cases [OF assms(2), of k w t p h ms cat dl clk] closed_not_held [OF assms]
  by (elim disjE exE conjE) auto

lemma finalized_closes:
  assumes "finalize_delivery k w t p h ms cat dl clk s = Inr (True, s')" and inv: "db_inv s"
  shows "token_closed k t s'"
  using finalize_cases [OF inv, of k w t p h ms cat dl clk]
proof (elim disjE exE conjE)
  fix d dp' h' cat' dl'
  let ?f = "finalize_row (clk 0) dp' cat' dl'"
  assume d: "d \<in> set (db_deliveries s)" "held_by k w t (clk 0) d"
    and e: "finalize_delivery k w t p h ms cat dl clk s
        = Inr (True, s\<lparr>db_deliveries := update_where (\<lambda>x. x = d) ?f (db_deliveries s),
            db_attempts := update_where (\<lambda>a. akey a = k \<and> at_token a = t \<and> at_state a = Started)
              (complete_attempt (clk 1) dp' h' ms cat') (db_attempts s)\<rparr>)"
  have "?f d \<in> set (update_where (\<lambda>x. x = d) ?f (db_deliveries s))"
    using d(1) by (force simp: set_update_where)
  moreover have "dkey (?f d) = k" "dr_token (?f d) = t" "dr_status (?f d) \<noteq> Processing"
    using d(2) by (auto simp: held_by_def dkey_def finalize_row_def)
  moreover have "db_deliveries s' = update_where (\<lambda>x. x = d) ?f (db_deliveries s)"
    using assms(1) e by auto
  ultimately show ?thesis
    unfolding token_closed_def by (intro bexI [of _ "?f d"]) auto
qed (use assms in auto)

section \<open>Batches\<close>

text \<open>
  What the holder of a claim sees: its delivery is being processed for it, under the claim's token,
  with a lease past the start of the statement. Within one batch no later claim takes it away,
  because its lease has not expired and its delivery is not a candidate.
\<close>

definition claim_key :: "claim_row \<Rightarrow> row_key" where
  "claim_key c = (cr_ws c, cr_delivery c)"

definition holds_claim :: "delivery_row list \<Rightarrow> uuid \<Rightarrow> instant \<Rightarrow> claim_row \<Rightarrow> bool" where
  "holds_claim ds w st c \<longleftrightarrow>
     (\<exists>d\<in>set ds. dkey d = claim_key c \<and> dr_endpoint d = cr_endpoint c \<and> dr_status d = Processing
        \<and> dr_owner d = Some w \<and> dr_token d = cr_token c \<and> lease_live st d)"

lemma claim_key_result [simp]:
  "claim_key (claim_result d ep ev sv) = dkey d" "cr_ws (claim_result d ep ev sv) = dr_ws d"
  "cr_endpoint (claim_result d ep ev sv) = dr_endpoint d" "cr_token (claim_result d ep ev sv) = dr_token d"
  by (simp_all add: claim_key_def claim_result_def dkey_def)

lemma claim_one_holds:
  assumes inv: "db_inv s" and res: "claim_one_delivery w i ttl st clk locked wl el wc ec s = (r, s')"
    and clk: "st \<le> clk 2" and ttl: "0 < ttl"
  shows "(\<forall>c. holds_claim (db_deliveries s) w st c \<longrightarrow>
            holds_claim (db_deliveries s') w st c \<and> (\<forall>r'. r = Some r' \<longrightarrow> claim_key r' \<noteq> claim_key c))
    \<and> (\<forall>r'. r = Some r' \<longrightarrow> holds_claim (db_deliveries s') w st r'
          \<and> wc (cr_ws r') < wl \<and> ec (cr_ws r', cr_endpoint r') < el)"
proof (cases r)
  case None
  then have "s' = s" using res
    by (auto simp: claim_one_delivery_def Let_def split: option.splits if_splits)
  with None show ?thesis by simp
next
  case (Some r')
  from claim_one_Some [OF inv res [unfolded Some]] obtain c ep ev sv where c: "c \<in> set (db_deliveries s)"
    and ok: "candidate_ok s st (clk 0) locked wl el wc ec c"
    and r': "r' = claim_result (claim_delivery_row w (clk 2) ttl c) ep ev sv"
    and ds: "db_deliveries s' = update_where (\<lambda>d. dkey d = dkey c) (claim_delivery_row w (clk 2) ttl) (db_deliveries s)"
    by blast
  have e: "dr_endpoint (claim_delivery_row w (clk 2) ttl c) = dr_endpoint c"
    "dr_ws (claim_delivery_row w (clk 2) ttl c) = dr_ws c" by (simp_all add: claim_delivery_row_def)
  have new: "holds_claim (db_deliveries s') w st r'"
    unfolding holds_claim_def ds
    by (rule bexI [of _ "claim_delivery_row w (clk 2) ttl c"])
       (use c clk ttl in \<open>auto simp: r' claim_delivery_row_def lease_live_def set_update_where\<close>)
  have old: "holds_claim (db_deliveries s') w st x \<and> claim_key r' \<noteq> claim_key x"
    if x: "holds_claim (db_deliveries s) w st x" for x
  proof -
    from x obtain d where d: "d \<in> set (db_deliveries s)" "dkey d = claim_key x"
        "dr_status d = Processing" "lease_live st d" and
      d': "dr_endpoint d = cr_endpoint x" "dr_owner d = Some w" "dr_token d = cr_token x"
      by (auto simp: holds_claim_def)
    have "\<not> ready_at st d" using d by (auto simp: ready_at_def lease_expired_def lease_live_def split: option.splits)
    then have "d \<noteq> c" using ok by (auto simp: candidate_ok_def)
    then have nk: "dkey d \<noteq> dkey c" using dkey_inj [OF inv d(1) c] by blast
    then have "d \<in> set (db_deliveries s')" using d(1) by (force simp: ds set_update_where)
    with d d' nk show ?thesis by (auto simp: holds_claim_def r')
  qed
  from ok have "wc (cr_ws r') < wl \<and> ec (cr_ws r', cr_endpoint r') < el"
    by (simp add: candidate_ok_def r' e)
  with new old Some show ?thesis by simp
qed

lemma claim_loop_batch:
  assumes "db_inv s" and "claim_loop rnd m w is ttl st clk locked wl el wc ec lim s = (cs, s')"
    and "\<forall>r. st \<le> clk r 2" and "0 < ttl"
  shows "length cs \<le> length is
    \<and> (\<forall>c. holds_claim (db_deliveries s) w st c \<longrightarrow>
          holds_claim (db_deliveries s') w st c \<and> claim_key c \<notin> claim_key ` set cs)
    \<and> (\<forall>c\<in>set cs. holds_claim (db_deliveries s') w st c) \<and> distinct (map claim_key cs)
    \<and> (\<forall>ws. wc ws \<le> wl \<longrightarrow> wc ws + count_where (\<lambda>c. cr_ws c = ws) cs \<le> wl)
    \<and> (\<forall>k. ec k \<le> el \<longrightarrow> ec k + count_where (\<lambda>c. (cr_ws c, cr_endpoint c) = k) cs \<le> el)"
  using assms
proof (induction rnd m w "is" ttl st clk locked wl el wc ec lim s arbitrary: cs s' rule: claim_loop.induct)
  case (3 rnd m w a as ttl st clk locked wl el wc ec lim s)
  obtain r s1 where r: "claim_one_delivery w a ttl st (clk rnd) (locked rnd) wl el wc ec s = (r, s1)"
    by (cases "claim_one_delivery w a ttl st (clk rnd) (locked rnd) wl el wc ec s") auto
  have inv: "db_inv s1" using claim_one_inv [OF "3.prems"(1) r] .
  have one: "(\<forall>c. holds_claim (db_deliveries s) w st c \<longrightarrow>
            holds_claim (db_deliveries s1) w st c \<and> (\<forall>r'. r = Some r' \<longrightarrow> claim_key r' \<noteq> claim_key c))
    \<and> (\<forall>r'. r = Some r' \<longrightarrow> holds_claim (db_deliveries s1) w st r'
          \<and> wc (cr_ws r') < wl \<and> ec (cr_ws r', cr_endpoint r') < el)"
    using claim_one_holds [OF "3.prems"(1) r _ "3.prems"(4)] "3.prems"(3) by blast
  show ?case
  proof (cases r)
    case None
    with r "3.prems"(2) have "claim_loop (Suc rnd) m w (a # as) ttl st clk locked wl el wc ec lim s1 = (cs, s')"
      by simp
    from "3.IH"(1) [OF r [symmetric] None inv this "3.prems"(3,4)] one show ?thesis by blast
  next
    case (Some c)
    let ?wc = "wc(cr_ws c := wc (cr_ws c) + 1)"
    let ?ec = "ec((cr_ws c, cr_endpoint c) := ec (cr_ws c, cr_endpoint c) + 1)"
    obtain cs1 s2 where l: "claim_loop (Suc rnd) lim w as ttl st clk locked wl el ?wc ?ec lim s1 = (cs1, s2)"
      by fastforce
    with r Some "3.prems"(2) have cs: "cs = c # cs1" "s' = s2" by simp_all
    note ih = "3.IH"(2) [OF r [symmetric] Some refl refl inv l "3.prems"(3,4)]
    from one Some have c: "holds_claim (db_deliveries s1) w st c" "wc (cr_ws c) < wl"
        "ec (cr_ws c, cr_endpoint c) < el" by auto
    have "wc ws + count_where (\<lambda>c. cr_ws c = ws) cs \<le> wl" if "wc ws \<le> wl" for ws
    proof -
      have "?wc ws \<le> wl" using that c(2) by simp
      with ih have "?wc ws + count_where (\<lambda>c. cr_ws c = ws) cs1 \<le> wl" by blast
      then show ?thesis by (simp add: cs count_where_def split: if_splits)
    qed
    moreover have "ec k + count_where (\<lambda>c. (cr_ws c, cr_endpoint c) = k) cs \<le> el" if "ec k \<le> el" for k
    proof -
      have "?ec k \<le> el" using that c(3) by simp
      with ih have "?ec k + count_where (\<lambda>c. (cr_ws c, cr_endpoint c) = k) cs1 \<le> el" by blast
      then show ?thesis by (auto simp: cs count_where_def split: if_splits)
    qed
    moreover have "length cs \<le> length (a # as)" using ih by (simp add: cs)
    moreover have "\<forall>c\<in>set cs. holds_claim (db_deliveries s') w st c" "distinct (map claim_key cs)"
      using ih c(1) by (auto simp: cs)
    moreover have "holds_claim (db_deliveries s') w st x \<and> claim_key x \<notin> claim_key ` set cs"
      if "holds_claim (db_deliveries s) w st x" for x
    proof -
      have "holds_claim (db_deliveries s1) w st x" "claim_key c \<noteq> claim_key x" using one that Some by auto
      with ih show ?thesis by (simp add: cs)
    qed
    ultimately show ?thesis by blast
  qed
qed (simp_all add: count_where_def)

section \<open>Replay commands are kept\<close>

lemma find_append:
  "List.find P (xs @ ys) = (case List.find P xs of None \<Rightarrow> List.find P ys | Some x \<Rightarrow> Some x)"
  by (induction xs) auto

text \<open>What every single claim keeps, and what holds of every claimed row, holds of the loop.\<close>

lemma claim_loop_induct:
  assumes "claim_loop rnd m w is ttl st clk locked wl el wc ec lim s = (cs, s')"
    and "\<And>i clk locked wc ec s. g (snd (claim_one_delivery w i ttl st clk locked wl el wc ec s)) = g s"
    and "\<And>i clk locked wc ec s c. fst (claim_one_delivery w i ttl st clk locked wl el wc ec s) = Some c \<Longrightarrow> R (g s) c"
  shows "g s' = g s \<and> (\<forall>c\<in>set cs. R (g s) c)"
  using assms
proof (induction rnd m w "is" ttl st clk locked wl el wc ec lim s arbitrary: cs s' rule: claim_loop.induct)
  case (3 rnd m w a as ttl st clk locked wl el wc ec lim s)
  obtain r s1 where r: "claim_one_delivery w a ttl st (clk rnd) (locked rnd) wl el wc ec s = (r, s1)"
    by (cases "claim_one_delivery w a ttl st (clk rnd) (locked rnd) wl el wc ec s") auto
  have same: "g s1 = g s" using "3.prems"(2) [of a "clk rnd" "locked rnd" wc ec s] r by simp
  show ?case
  proof (cases r)
    case None
    with r "3.prems"(1) have "claim_loop (Suc rnd) m w (a # as) ttl st clk locked wl el wc ec lim s1 = (cs, s')"
      by simp
    from "3.IH"(1) [OF r [symmetric] None this "3.prems"(2,3)] same show ?thesis by simp
  next
    case (Some c)
    obtain cs1 s2 where l: "claim_loop (Suc rnd) lim w as ttl st clk locked wl el
        (wc(cr_ws c := wc (cr_ws c) + 1)) (ec((cr_ws c, cr_endpoint c) := ec (cr_ws c, cr_endpoint c) + 1)) lim s1 = (cs1, s2)"
      by fastforce
    with r Some "3.prems"(1) have cs: "s' = s2" "cs = c # cs1" by simp_all
    have "R (g s) c" using "3.prems"(3) [of a "clk rnd" "locked rnd" wc ec s c] r Some by simp
    with "3.IH"(2) [OF r [symmetric] Some refl refl l "3.prems"(2,3)] same cs show ?thesis by simp
  qed
qed auto

lemma claim_one_same:
  "db_replays (snd (claim_one_delivery w i ttl st clk locked wl el wc ec s)) = db_replays s"
  "db_events (snd (claim_one_delivery w i ttl st clk locked wl el wc ec s)) = db_events s"
  "db_endpoints (snd (claim_one_delivery w i ttl st clk locked wl el wc ec s)) = db_endpoints s"
  "db_secrets (snd (claim_one_delivery w i ttl st clk locked wl el wc ec s)) = db_secrets s"
  by (auto simp: claim_one_delivery_def Let_def split: option.splits)

lemma recover_replays: "db_replays (fold (recover_one clk) rows s) = db_replays s"
  by (induction rows arbitrary: s) (simp_all add: recover_one_def)

lemma claim_loop_replays:
  "claim_loop rnd m w is ttl st clk locked wl el wc ec lim s = (cs, s') \<Longrightarrow> db_replays s' = db_replays s"
  by (drule claim_loop_induct [where g = db_replays and R = "\<lambda>_ _. True"]) (simp_all add: claim_one_same)

lemma claim_deliveries_replays:
  "claim_deliveries w is ttl lim wl el st clk locked s = Inr (cs, s') \<Longrightarrow> db_replays s' = db_replays s"
  by (auto simp: claim_deliveries_def recover_exhausted_def Let_def recover_replays
      dest!: claim_loop_replays split: if_splits sum.splits prod.splits)

text \<open>A command found under a key is found there for ever.\<close>

lemma replays_step:
  assumes "qstep s s'" and "List.find P (db_replays s) = Some r"
  shows "List.find P (db_replays s') = Some r"
  using assms(1)
proof (cases rule: qstep.cases)
  case (q_replay c clk x)
  then show ?thesis using assms(2)
    by (auto simp: request_replay_def Let_def find_append split: option.splits if_splits)
next
  case (q_claim w "is" ttl lim wl el st clk locked cs)
  then show ?thesis using assms(2) claim_deliveries_replays by metis
qed (use assms(2) in \<open>auto simp: insert_delivery_def finalize_delivery_def purge_expired_payloads_def
      purge_retired_secrets_def quarantine_queue_def Let_def split: if_splits\<close>)

lemma replays_kept:
  "qsteps s s' \<Longrightarrow> db_inv s \<Longrightarrow> \<forall>P r. List.find P (db_replays s) = Some r \<longrightarrow> List.find P (db_replays s') = Some r"
  by (induction rule: rtranclp_induct) (auto dest: replays_step)

lemma completed_once:
  assumes ok: "attempts_ok d (attempts_of (dkey d) as)" and k: "dkey d = k" and t: "dr_token d = t"
    and one: "count_where (\<lambda>a. akey a = k \<and> at_token a = t \<and> at_state a = Started) as = 1"
  shows "count_where (\<lambda>a. akey a = k \<and> at_token a = t \<and> at_state a = Completed \<and> at_outcome a = Some p
                        \<and> at_http a = h)
      (update_where (\<lambda>a. akey a = k \<and> at_token a = t \<and> at_state a = Started)
         (complete_attempt now p h ms cat) as) = 1"
proof -
  let ?Q = "\<lambda>a. akey a = k \<and> at_token a = t \<and> at_state a = Started"
  let ?g = "complete_attempt now p h ms cat"
  let ?C = "\<lambda>a. akey a = k \<and> at_token a = t \<and> at_state a = Completed \<and> at_outcome a = Some p \<and> at_http a = h"
  have dist: "distinct (map at_token (attempts_of k as))"
    using ok k by (simp add: attempts_ok_def attempts_base_def)
  obtain a where a: "filter ?Q as = [a]"
    using one by (auto simp: count_where_def length_Suc_conv)
  then have am: "a \<in> set as" "?Q a" by (auto simp: filter_eq_Cons_iff)
  have none: "\<not> ?C b" if "b \<in> set as" "\<not> ?Q b" for b
  proof
    assume "?C b"
    with that am dist have "b = a" by (auto simp: attempts_of_def distinct_map inj_on_def)
    with am that show False by simp
  qed
  have "filter ?C (update_where ?Q ?g as) = map ?g (filter ?Q as)"
    using none
  proof (induction as)
    case (Cons b as)
    then show ?case by (auto simp: complete_attempt_def akey_def)
  qed simp
  then show ?thesis by (simp add: count_where_def a)
qed

text \<open>What the invariant says of a delivery.\<close>

lemma current_run_attempts:
  assumes "attempts_base d as" shows "int (length (filter (\<lambda>a. at_run a = dr_run d) as)) \<le> max 0 (dr_attempts d)"
proof -
  let ?as = "filter (\<lambda>a. at_run a = dr_run d) as"
  have "distinct (map (\<lambda>a. (at_run a, at_number a)) ?as)"
    using assms by (auto simp: attempts_base_def distinct_map inj_on_def)
  then have "distinct (map at_number ?as)" by (auto simp: distinct_map inj_on_def)
  then have "length ?as = card (at_number ` set ?as)" by (metis distinct_card length_map set_map)
  also have "\<dots> \<le> card {1..dr_attempts d}"
    by (rule card_mono) (use assms in \<open>auto simp: attempts_base_def attempt_ok_def\<close>)
  finally show ?thesis by simp
qed

lemma db_inv_delivery:
  assumes inv: "db_inv s" and d: "d \<in> set (db_deliveries s)"
  shows "row_ok d
    \<and> int (length (filter (\<lambda>a. at_run a = dr_run d) (attempts_of (dkey d) (db_attempts s)))) \<le> dr_attempts d
    \<and> length (filter (\<lambda>a. at_state a = Started) (attempts_of (dkey d) (db_attempts s)))
        = (if dr_status d = Processing then 1 else 0)
    \<and> (\<forall>a\<in>set (attempts_of (dkey d) (db_attempts s)).
         at_state a = Started \<longrightarrow> dr_status d = Processing \<and> at_token a = dr_token d)"
proof -
  let ?as = "attempts_of (dkey d) (db_attempts s)"
  have ok: "row_ok d" "attempts_ok d ?as" using inv_row [OF inv d] by auto
  have st: "\<forall>a\<in>set ?as. at_state a = Started \<longrightarrow> dr_status d = Processing \<and> at_token a = dr_token d"
    using attempts_ok_started [OF ok(2)] by blast
  have "length (filter (\<lambda>a. at_state a = Started) ?as) = (if dr_status d = Processing then 1 else 0)"
  proof (cases "dr_status d = Processing")
    case True
    have "filter (\<lambda>a. at_state a = Started) ?as
        = filter (\<lambda>a. akey a = dkey d \<and> at_token a = dr_token d \<and> at_state a = Started) (db_attempts s)"
      unfolding attempts_of_def filter_filter
      by (rule filter_cong) (use st in \<open>auto simp: attempts_of_def\<close>)
    then show ?thesis using one_open_attempt [OF inv d True] True by (simp add: count_where_def)
  next
    case False
    then show ?thesis using ok(2) by (auto simp: attempts_ok_def none_started_def filter_empty_conv)
  qed
  moreover have "int (length (filter (\<lambda>a. at_run a = dr_run d) ?as)) \<le> dr_attempts d"
    using current_run_attempts [of d ?as] ok by (simp add: attempts_ok_def row_ok_def)
  ultimately show ?thesis using ok(1) st by blast
qed

text \<open>A small database: one workspace, one endpoint, one event.\<close>

definition demo_envelope :: envelope where
  "demo_envelope = \<lparr>env_format = 2, env_kek = 1, env_nonce = ''0123456789ab'',
                    env_ciphertext = ''0123456789abcdef''\<rparr>"

definition demo_db :: db where
  "demo_db =
     \<lparr>db_workspaces = [\<lparr>wr_id = 1, wr_active = True, wr_last_seq = 0\<rparr>],
      db_endpoints = [\<lparr>ep_ws = 1, ep_id = 2, ep_status = ''active'', ep_max_concurrency = 5,
                       ep_scheme = ''https'', ep_host = ''example.com'', ep_port = 443,
                       ep_target = demo_envelope, ep_created = 0\<rparr>],
      db_runtime = [\<lparr>rt_ws = 1, rt_endpoint = 2, rt_last_seq = 0\<rparr>],
      db_events = [\<lparr>er_ws = 1, er_id = 3, er_type = ''order.created'', er_key_hash = [],
                    er_fingerprint = [], er_fingerprint_version = 1, er_payload = Some demo_envelope,
                    er_expires = 30 * 24 * hour, er_purged = None\<rparr>],
      db_secrets = [\<lparr>sr_ws = 1, sr_endpoint = 2, sr_id = 4, sr_key_id = ''kid_00000001'',
                     sr_state = Secret_active, sr_secret = Some demo_envelope, sr_retire_at = None\<rparr>],
      db_deliveries = [], db_attempts = [], db_replays = [], db_claim_seq = 0\<rparr>"

definition demo_row :: delivery_row where
  "demo_row = new_delivery 1 10 3 2 10 0"

definition demo_db1 :: db where
  "demo_db1 = demo_db\<lparr>db_deliveries := [demo_row]\<rparr>"

lemma demo_publish: "insert_delivery demo_row demo_db = Inr demo_db1"
  by (simp add: insert_delivery_def demo_db_def demo_db1_def demo_row_def new_delivery_def)

text \<open>Worker 7 claims the delivery at time 1.\<close>

definition demo_claimed :: delivery_row where
  "demo_claimed = claim_delivery_row 7 1 (30 * second) demo_row"

definition demo_db2 :: db where
  "demo_db2 = demo_db1\<lparr>db_deliveries := [demo_claimed], db_attempts := [new_attempt demo_claimed 20 1],
     db_claim_seq := 1, db_workspaces := [\<lparr>wr_id = 1, wr_active = True, wr_last_seq = 1\<rparr>],
     db_runtime := [\<lparr>rt_ws = 1, rt_endpoint = 2, rt_last_seq = 1\<rparr>]\<rparr>"

lemmas demo_defs = demo_db2_def demo_db1_def demo_db_def demo_claimed_def demo_row_def
  new_delivery_def claim_delivery_row_def new_attempt_def duration_defs

lemma demo_claim:
  "\<exists>c. claim_deliveries 7 [20] (30 * second) 1 1 1 1 (\<lambda>_ _. 1) (\<lambda>_ _. False) demo_db1 = Inr ([c], demo_db2)
     \<and> cr_token c = 1 \<and> claim_key c = (1, 10)"
  by (simp add: claim_deliveries_def recover_exhausted_def exhausted_row_def demo_defs ready_at_def
      claim_one_delivery_def select_delivery_candidate_def candidate_ok_def find_workspace_def
      find_endpoint_def find_runtime_def find_event_def find_secret_def active_count_def count_where_def
      Let_def dkey_def claim_result_def claim_key_def retiring_secret_def numeral_3_eq_3)

lemma demo_steps: "qsteps demo_db demo_db2"
proof -
  have "qstep demo_db demo_db1" using demo_publish unfolding demo_row_def by (rule q_publish)
  moreover have "qstep demo_db1 demo_db2" using demo_claim q_claim by blast
  ultimately show ?thesis by (meson r_into_rtranclp rtranclp_trans)
qed

section \<open>Properties\<close>

text \<open>C10. An attempt is finalised at most once: after a worker has finalised a delivery under a token,
  no worker can finalise it under that token again, after any publications, claims, finalisations, replays, purges of payloads
  and secrets, and quarantines (the transactions of \<open>qstep\<close>; a delivery that the purge of expired metadata or of its
  workspace deletes is not covered).\<close>
theorem finalize_at_most_once:
  assumes "db_inv s" and "finalize_delivery k w t p h ms cat dl clk s = Inr (True, s1)"
    and "qsteps s1 s2"
  shows "finalize_delivery k w' t p' h' ms' cat' dl' clk' s2 \<noteq> Inr (True, s3)"
proof -
  have inv1: "db_inv s1" using finalize_inv [OF assms(1,2)] .
  have "token_closed k t s2"
    by (rule token_closed_stays [OF finalized_closes [OF assms(2,1)] assms(3) inv1])
  from closed_not_finalized [OF this qsteps_inv [OF assms(3) inv1]] show ?thesis .
qed

definition demo_db3 :: db where
  "demo_db3 = demo_db2\<lparr>
     db_deliveries := [finalize_row 2 ''success'' [] 0 demo_claimed],
     db_attempts := [complete_attempt 2 ''success'' (Some 200) 5 [] (new_attempt demo_claimed 20 1)]\<rparr>"

lemma demo_finalize:
  "finalize_delivery (1, 10) 7 1 ''success'' (Some 200) 5 [] None (\<lambda>_. 2) demo_db2 = Inr (True, demo_db3)"
  by (simp add: finalize_delivery_def demo_db3_def demo_defs held_by_def dkey_def lease_live_def
      count_where_def akey_def Let_def)

lemma demo_inv: "db_inv demo_db2"
proof -
  have "qstep demo_db demo_db1" using demo_publish unfolding demo_row_def by (rule q_publish)
  moreover have "qstep demo_db1 demo_db2" using demo_claim q_claim by blast
  moreover have "db_inv demo_db" by (simp add: queue_inv_def demo_db_def)
  ultimately show ?thesis by (blast intro: qstep_inv)
qed

theorem finalize_at_most_once_witness:
  "finalize_delivery (1, 10) 7 1 ''success'' (Some 200) 5 [] None (\<lambda>_. 3) demo_db3 \<noteq> Inr (True, demo_db3)"
  by (rule finalize_at_most_once [OF demo_inv demo_finalize rtranclp.rtrancl_refl])

text \<open>C11. Claims of one batch: at most as many as attempt identifiers were given, of distinct
  deliveries, never more than the limits for one workspace and for one endpoint; each is held by the
  worker under the claim's token, and every older token of a claimed delivery is dead: a worker whose
  lease was lost cannot finalise, now or after any further transactions of the queue (\<open>qstep\<close>).\<close>
theorem claim_batch_fair_and_fenced:
  assumes "db_inv s" and "claim_deliveries w is ttl lim wl el st clk locked s = Inr (cs, s')"
    and "\<forall>r. st \<le> clk r 2"
  shows "int (length cs) \<le> lim \<and> distinct (map claim_key cs)
    \<and> (\<forall>ws. int (count_where (\<lambda>c. cr_ws c = ws) cs) \<le> wl)
    \<and> (\<forall>e. int (count_where (\<lambda>c. (cr_ws c, cr_endpoint c) = e) cs) \<le> el)
    \<and> (\<forall>c\<in>set cs. holds_claim (db_deliveries s') w st c
        \<and> (\<forall>t s2 w' p h ms cat dl clk' s3. t < cr_token c \<longrightarrow> qsteps s' s2 \<longrightarrow>
             finalize_delivery (claim_key c) w' t p h ms cat dl clk' s2 \<noteq> Inr (True, s3)))"
proof -
  obtain s1 cs1 where inv1: "db_inv s1"
    and l: "claim_loop 1 3 w is ttl st clk locked (nat wl) (nat el) (\<lambda>_. 0) (\<lambda>_. 0) 3 s1 = (cs1, s')"
    and cs: "cs = map (\<lambda>c. c\<lparr>cr_retiring := retiring_secret s' st (cr_ws c) (cr_endpoint c)\<rparr>) cs1"
    and g: "20 * second \<le> ttl" "int (length is) = lim" "1 \<le> wl" "1 \<le> el"
    by (rule claim_deliveries_parts [OF assms(1,2)])
  let ?r = "\<lambda>c. c\<lparr>cr_retiring := retiring_secret s' st (cr_ws c) (cr_endpoint c)\<rparr>"
  have keep: "claim_key (?r c) = claim_key c" "cr_ws (?r c) = cr_ws c" "cr_endpoint (?r c) = cr_endpoint c"
      "cr_token (?r c) = cr_token c" "holds_claim ds w st (?r c) = holds_claim ds w st c" for c ds
    by (simp_all add: claim_key_def holds_claim_def)
  have "0 < ttl" using g(1) by (simp add: second_def)
  note b = claim_loop_batch [OF inv1 l assms(3) this]
  have cnt: "count_where Q (map ?r cs1) = count_where Q cs1" if "\<And>c. Q (?r c) = Q c" for Q
    by (simp add: count_where_def filter_map o_def that)
  have "count_where (\<lambda>c. cr_ws c = ws) cs1 \<le> nat wl" "count_where (\<lambda>c. (cr_ws c, cr_endpoint c) = e) cs1 \<le> nat el"
    for ws e using b by (simp, cases e) simp
  then have fair: "int (count_where (\<lambda>c. cr_ws c = ws) cs) \<le> wl"
      "int (count_where (\<lambda>c. (cr_ws c, cr_endpoint c) = e) cs) \<le> el" for ws e
    using g by (simp_all add: cs cnt le_nat_iff)
  have keys: "map claim_key cs = map claim_key cs1" by (simp add: cs o_def keep)
  have holds: "\<forall>c\<in>set cs. holds_claim (db_deliveries s') w st c" using b by (auto simp: cs keep)
  have inv': "db_inv s'" using claim_deliveries_inv [OF assms(1,2)] .
  have "finalize_delivery (claim_key c) w' t p h ms cat dl clk' s2 \<noteq> Inr (True, s3)"
    if "c \<in> set cs" "t < cr_token c" "qsteps s' s2" for c t s2 w' p h ms cat dl clk' s3
  proof -
    from holds that(1) obtain d where "d \<in> set (db_deliveries s')" "dkey d = claim_key c" "dr_token d = cr_token c"
      by (auto simp: holds_claim_def)
    with that(2) have "token_closed (claim_key c) t s'" by (auto simp: token_closed_def)
    from closed_not_finalized [OF token_closed_stays [OF this that(3) inv'] qsteps_inv [OF that(3) inv']]
    show ?thesis .
  qed
  moreover have "int (length cs) \<le> lim" using b g(2) by (simp add: cs)
  moreover have "distinct (map claim_key cs)" using b unfolding keys by blast
  ultimately show ?thesis using fair holds by blast
qed

theorem claim_batch_fair_and_fenced_witness:
  "finalize_delivery (1, 10) 9 0 ''success'' None 5 [] None (\<lambda>_. 3) demo_db2 \<noteq> Inr (True, demo_db2)"
proof -
  obtain c where c: "claim_deliveries 7 [20] (30 * second) 1 1 1 1 (\<lambda>_ _. 1) (\<lambda>_ _. False) demo_db1 = Inr ([c], demo_db2)"
    "cr_token c = 1" "claim_key c = (1, 10)" using demo_claim by blast
  have "qstep demo_db demo_db1" using demo_publish unfolding demo_row_def by (rule q_publish)
  then have "db_inv demo_db1" by (rule qstep_inv) (simp add: queue_inv_def demo_db_def)
  from claim_batch_fair_and_fenced [OF this c(1)] have
    "\<forall>t s2 w' p h ms cat dl clk' s3. t < 1 \<longrightarrow> qsteps demo_db2 s2 \<longrightarrow>
             finalize_delivery (1, 10) w' t p h ms cat dl clk' s2 \<noteq> Inr (True, s3)"
    using c(2,3) by simp
  then show ?thesis using rtranclp.rtrancl_refl by fastforce
qed

lemma finalize_held:
  assumes "db_inv s" and "d \<in> set (db_deliveries s)" and "held_by k w t (clk 0) d"
    and "p \<in> {''success'', ''retry'', ''permanent_failure''}"
    and "case h of None \<Rightarrow> True | Some x \<Rightarrow> 100 \<le> x \<and> x \<le> 599"
    and "p = ''retry'' \<longrightarrow> (\<exists>r. dl = Some r \<and> 0 \<le> r \<and> r \<le> 15 * minute)"
  shows "\<exists>s' d'. finalize_delivery k w t p h ms cat dl clk s = Inr (True, s')
    \<and> db_deliveries s' = update_where (\<lambda>x. x = d) (\<lambda>_. d') (db_deliveries s)
    \<and> dr_status d' = (if p = ''success'' then Succeeded else if p = ''permanent_failure'' then Failed_permanent
                      else if dr_attempts d = dr_max d then Dead_letter else Retry_scheduled)
    \<and> (dr_status d' = Retry_scheduled \<longrightarrow> dr_next d' = clk 0 + the dl \<and> dr_attempts d' < dr_max d')
    \<and> dr_owner d' = None \<and> dr_token d' = t
    \<and> count_where (\<lambda>a. akey a = k \<and> at_token a = t \<and> at_state a = Completed \<and> at_outcome a = Some p
                      \<and> at_http a = h) (db_attempts s') = 1"
proof -
  have bad: "(case h of None \<Rightarrow> False | Some h \<Rightarrow> h < 100 \<or> h > 599) = False"
    using assms(5) by (cases h) auto
  have dk: "dkey d = k" "dr_status d = Processing" "dr_token d = t" using assms(3) by (auto simp: held_by_def)
  have one: "count_where (\<lambda>a. akey a = k \<and> at_token a = t \<and> at_state a = Started) (db_attempts s) = 1"
    using one_open_attempt [OF assms(1,2) dk(2)] dk by simp
  have H: "held_by k w t (clk 0) x \<longleftrightarrow> x = d" if "x \<in> set (db_deliveries s)" for x
    using that assms(2,3) dkey_inj [OF assms(1), of x d] unfolding held_by_def by metis
  let ?r = "case dl of None \<Rightarrow> 0 | Some r \<Rightarrow> r"
  let ?d = "finalize_row (clk 0) p cat ?r d"
  let ?Q = "\<lambda>a. akey a = k \<and> at_token a = t \<and> at_state a = Started"
  let ?g = "complete_attempt (clk 1) p h ms cat"
  let ?s = "s\<lparr>db_deliveries := update_where (\<lambda>x. x = d) (\<lambda>_. ?d) (db_deliveries s),
              db_attempts := update_where ?Q ?g (db_attempts s)\<rparr>"
  have P: "update_where (held_by k w t (clk 0)) (finalize_row (clk 0) p cat ?r) (db_deliveries s)
      = update_where (\<lambda>x. x = d) (\<lambda>_. ?d) (db_deliveries s)"
    unfolding update_where_def by (rule map_cong [OF refl]) (simp add: H)
  have n: "count_where (held_by k w t (clk 0)) (db_deliveries s) \<noteq> 0"
    using assms(2,3) by (auto simp: count_where_0)
  have res: "finalize_delivery k w t p h ms cat dl clk s = Inr (True, ?s)"
    unfolding finalize_delivery_def bad Let_def if_False
    using assms(4,6) n one by (auto simp: P)
  have ok: "row_ok d" "attempts_ok d (attempts_of (dkey d) (db_attempts s))"
    using inv_row [OF assms(1,2)] by auto
  have "count_where (\<lambda>a. akey a = k \<and> at_token a = t \<and> at_state a = Completed \<and> at_outcome a = Some p \<and> at_http a = h)
          (update_where ?Q ?g (db_attempts s)) = 1"
    by (rule completed_once [OF ok(2) dk(1,3) one])
  then show ?thesis
    using res ok(1) assms(4,6) dk
    by (intro exI [of _ ?s] exI [of _ ?d]) (auto simp: finalize_row_def row_ok_def)
qed

text \<open>Finalising a held claim with a valid result succeeds, touches only that delivery, and gives
  it the status the result calls for: a retry is scheduled after the asked delay while attempts
  remain, and becomes a dead letter on the last one. The internal \<open>attempt invariant violated\<close>
  exception is unreachable.\<close>
theorem finalize_outcome:
  assumes "db_inv s" and "d \<in> set (db_deliveries s)" and "held_by k w t (clk 0) d"
    and "p \<in> {''success'', ''retry'', ''permanent_failure''}"
    and "case h of None \<Rightarrow> True | Some x \<Rightarrow> 100 \<le> x \<and> x \<le> 599"
    and "p = ''retry'' \<longrightarrow> (\<exists>r. dl = Some r \<and> 0 \<le> r \<and> r \<le> 15 * minute)"
  shows "\<exists>s' d'. finalize_delivery k w t p h ms cat dl clk s = Inr (True, s')
    \<and> db_deliveries s' = update_where (\<lambda>x. x = d) (\<lambda>_. d') (db_deliveries s)
    \<and> dr_status d' = (if p = ''success'' then Succeeded else if p = ''permanent_failure'' then Failed_permanent
                      else if dr_attempts d = dr_max d then Dead_letter else Retry_scheduled)
    \<and> (dr_status d' = Retry_scheduled \<longrightarrow> dr_next d' = clk 0 + the dl \<and> dr_attempts d' < dr_max d')
    \<and> dr_owner d' = None \<and> dr_token d' = t
    \<and> count_where (\<lambda>a. akey a = k \<and> at_token a = t \<and> at_state a = Completed \<and> at_outcome a = Some p
                      \<and> at_http a = h) (db_attempts s') = 1"
  using assms by (rule finalize_held)

theorem finalize_outcome_witness:
  "\<exists>s'. \<exists>d'::delivery_row. finalize_delivery (1, 10) 7 1 ''retry'' (Some 503) 5 ''http_retryable'' (Some second) (\<lambda>_. 2) demo_db2
      = Inr (True, s') \<and> dr_status d' = Retry_scheduled \<and> dr_next d' = 2 + second"
proof -
  have "demo_claimed \<in> set (db_deliveries demo_db2)" "held_by (1, 10) 7 1 2 demo_claimed"
    "dr_attempts demo_claimed \<noteq> dr_max demo_claimed"
    by (simp_all add: demo_defs held_by_def dkey_def lease_live_def)
  with finalize_outcome [OF demo_inv this(1), of "(1, 10)" 7 1 "\<lambda>_. 2" "''retry''" "Some 503" "Some second" 5
      "''http_retryable''"]
  show ?thesis by (simp add: duration_defs) blast
qed

lemma replay_again:
  assumes "db_inv s" and "request_replay c clk s = Inr ((cmd, run, False), s1)" and "qsteps s1 s2"
    and "rq_ws c' = rq_ws c" and "rq_key_hash c' = rq_key_hash c" and "replay_args_ok c'"
  shows "request_replay c' clk' s2 =
           (if rq_delivery c' = rq_delivery c \<and> rq_fingerprint c' = rq_fingerprint c
               \<and> rq_fingerprint_version c' = rq_fingerprint_version c
            then Inr ((cmd, run, True), s2) else Inl ''replay_conflict'')
    \<and> (\<exists>d\<in>set (db_deliveries s). \<exists>d'\<in>set (db_deliveries s1). dkey d = (rq_ws c, rq_delivery c)
        \<and> dr_status d \<in> {Failed_permanent, Dead_letter} \<and> dkey d' = dkey d \<and> dr_status d' = Pending
        \<and> dr_run d' = run \<and> run = dr_run d + 1 \<and> dr_attempts d' = 0 \<and> dr_token d' = dr_token d)"
proof -
  define new where "new = \<lparr>rc_id = rq_command c, rc_ws = rq_ws c, rc_delivery = rq_delivery c,
       rc_key_hash = rq_key_hash c, rc_fingerprint = rq_fingerprint c,
       rc_fingerprint_version = rq_fingerprint_version c, rc_new_run = run, rc_reason = rq_reason c\<rparr>"
  have args: "replay_args_ok c"
    using assms(2) by (simp add: request_replay_def split: if_splits)
  have none: "List.find (\<lambda>r. rc_ws r = rq_ws c \<and> rc_key_hash r = rq_key_hash c) (db_replays s) = None"
  proof (rule ccontr)
    assume "\<not> ?thesis"
    then obtain r where "List.find (\<lambda>r. rc_ws r = rq_ws c \<and> rc_key_hash r = rq_key_hash c) (db_replays s) = Some r"
      by blast
    with assms(2) args show False by (simp add: request_replay_def split: if_splits)
  qed
  obtain d where f: "List.find (\<lambda>d. dkey d = (rq_ws c, rq_delivery c)
        \<and> list_ex (\<lambda>e. er_ws e = dr_ws d \<and> er_id e = dr_event d) (db_events s)) (db_deliveries s) = Some d"
    using assms(2) args none by (simp add: request_replay_def split: option.splits)
  note r = assms(2) [unfolded request_replay_def Let_def none f option.case]
  have st: "dr_status d = Failed_permanent \<or> dr_status d = Dead_letter"
    and run: "run = dr_run d + 1" and cmd: "cmd = rq_command c"
    using r args by (auto split: if_splits)
  have ds: "db_deliveries s1 = update_where (\<lambda>x. dkey x = (rq_ws c, rq_delivery c))
               (replay_row_update (clk 0) run) (db_deliveries s)"
    and reps: "db_replays s1 = db_replays s @ [new]"
    using r args by (simp_all add: new_def split: if_splits) auto
  from f have d: "d \<in> set (db_deliveries s)" "dkey d = (rq_ws c, rq_delivery c)"
    by (auto simp: find_Some_iff)
  have "List.find (\<lambda>r. rc_ws r = rq_ws c \<and> rc_key_hash r = rq_key_hash c) (db_replays s1) = Some new"
    using none by (simp add: reps find_append new_def)
  then have "List.find (\<lambda>r. rc_ws r = rq_ws c' \<and> rc_key_hash r = rq_key_hash c') (db_replays s2) = Some new"
    using replays_kept [OF assms(3) replay_inv [OF assms(1,2)]] assms(4,5) by auto
  then have "request_replay c' clk' s2 =
           (if rq_delivery c' = rq_delivery c \<and> rq_fingerprint c' = rq_fingerprint c
               \<and> rq_fingerprint_version c' = rq_fingerprint_version c
            then Inr ((cmd, run, True), s2) else Inl ''replay_conflict'')"
    using assms(6) by (auto simp: request_replay_def new_def cmd)
  moreover have "replay_row_update (clk 0) run d \<in> set (db_deliveries s1)"
    using d by (force simp: ds set_update_where)
  ultimately show ?thesis using d st run
    by (intro conjI bexI [of _ d] bexI [of _ "replay_row_update (clk 0) run d"])
       (auto simp: replay_row_update_def dkey_def)
qed

text \<open>Replay is idempotent on its key: once a replay is accepted, every later request with the same
  key, delivery and fingerprint returns the same command and run and changes nothing, and one with
  another delivery or fingerprint is refused as a conflict, whatever transactions of the queue (\<open>qstep\<close>) ran in between. An accepted
  replay starts a new run with no attempts, from a terminal failure only, and its payload is there.\<close>
theorem replay_idempotent:
  assumes "db_inv s" and "request_replay c clk s = Inr ((cmd, run, False), s1)" and "qsteps s1 s2"
    and "rq_ws c' = rq_ws c" and "rq_key_hash c' = rq_key_hash c" and "replay_args_ok c'"
  shows "request_replay c' clk' s2 =
           (if rq_delivery c' = rq_delivery c \<and> rq_fingerprint c' = rq_fingerprint c
               \<and> rq_fingerprint_version c' = rq_fingerprint_version c
            then Inr ((cmd, run, True), s2) else Inl ''replay_conflict'')
    \<and> (\<exists>d\<in>set (db_deliveries s). \<exists>d'\<in>set (db_deliveries s1). dkey d = (rq_ws c, rq_delivery c)
        \<and> dr_status d \<in> {Failed_permanent, Dead_letter} \<and> dkey d' = dkey d \<and> dr_status d' = Pending
        \<and> dr_run d' = run \<and> run = dr_run d + 1 \<and> dr_attempts d' = 0 \<and> dr_token d' = dr_token d)"
  using assms by (rule replay_again)

definition demo_command :: "uuid \<Rightarrow> replay_command" where
  "demo_command i = \<lparr>rq_command = i, rq_ws = 1, rq_delivery = 10, rq_actor = ''key'',
     rq_key_hash = replicate 32 (CHR ''k''), rq_fingerprint = replicate 32 (CHR ''f''),
     rq_fingerprint_version = 1, rq_reason = ''operator'', rq_request_id = ''req''\<rparr>"

definition demo_db4 :: db where
  "demo_db4 = demo_db2\<lparr>
     db_deliveries := [finalize_row 2 ''permanent_failure'' ''http_permanent'' 0 demo_claimed],
     db_attempts := [complete_attempt 2 ''permanent_failure'' (Some 404) 5 ''http_permanent''
                       (new_attempt demo_claimed 20 1)]\<rparr>"

theorem replay_idempotent_witness:
  "\<exists>s1. request_replay (demo_command 50) (\<lambda>_. 3) demo_db4 = Inr ((50, 2, False), s1)
     \<and> request_replay (demo_command 51) (\<lambda>_. 4) s1 = Inr ((50, 2, True), s1)"
proof -
  have fin: "finalize_delivery (1, 10) 7 1 ''permanent_failure'' (Some 404) 5 ''http_permanent'' None (\<lambda>_. 2) demo_db2
      = Inr (True, demo_db4)"
    by (simp add: finalize_delivery_def demo_db4_def demo_defs held_by_def dkey_def lease_live_def
        count_where_def akey_def Let_def)
  have ok: "replay_args_ok (demo_command 51)" "replay_args_ok (demo_command 50)"
    by (simp_all add: replay_args_ok_def demo_command_def)
  obtain s1 where s1: "request_replay (demo_command 50) (\<lambda>_. 3) demo_db4 = Inr ((50, 2, False), s1)"
    using ok(2) by (simp add: request_replay_def demo_command_def demo_db4_def demo_defs finalize_row_def
        dkey_def Let_def)
  from replay_idempotent [OF finalize_inv [OF demo_inv fin] s1 rtranclp.rtrancl_refl _ _ ok(1)] s1
  show ?thesis by (simp add: demo_command_def)
qed

end
