(* ===== verification/Delivery_Store.thy ===== *)
theory Delivery_Store
  imports Queue_Fencing Cursors Retry
begin

text \<open>
  \<open>internal/delivery/postgres.go\<close>, \<open>types.go\<close>, \<open>replay_postgres.go\<close> and \<open>views_postgres.go\<close>: the
  Go side of the queue, on top of the SQL functions. Identifiers drawn from \<open>uuid.NewV7\<close> are
  arguments (\<open>None\<close> when the draw fails); a database failure other than a raised message is not a
  value of the SQL model and is left to its caller as \<open>Err_database\<close>.
  The locale \<open>claim_source\<close> states what the scheduler relies on.
\<close>

section \<open>Types\<close>

datatype store_error =
    Err_invalid_claim_request | Err_uuid | Err_database string | Err_index_panic
  | Err_not_found | Err_invalid_replay | Err_replay_conflict | Err_invalid_transition
  | Err_payload_purged

record claim_secret =
  cs_key_id :: string
  cs_version_id :: uuid
  cs_envelope :: envelope

record claim =
  cl_ws :: uuid
  cl_delivery :: uuid
  cl_event :: uuid
  cl_endpoint :: uuid
  cl_attempt_id :: uuid
  cl_token :: int
  cl_attempt :: int
  cl_max_attempts :: int
  cl_scheme :: string
  cl_host :: string
  cl_port :: int
  cl_target :: envelope
  cl_event_type :: string
  cl_payload :: envelope
  cl_key_id :: string
  cl_secret_id :: uuid
  cl_secret :: envelope
  cl_retiring :: "claim_secret option"

record delivery_result =
  re_disposition :: string
  re_http :: "int option"
  re_duration :: int
  re_category :: string
  re_retry_after :: duration

record claim_request =
  rr_worker :: uuid
  rr_lease_ttl :: duration
  rr_limit :: int
  rr_workspace_limit :: int
  rr_endpoint_limit :: int

definition claim_request_valid :: "claim_request \<Rightarrow> bool" where
  "claim_request_valid r \<longleftrightarrow>
     \<not> (rr_worker r = uuid_nil \<or> rr_lease_ttl r < 20 * second \<or> rr_lease_ttl r > 2 * minute
        \<or> rr_limit r < 1 \<or> rr_limit r > 100 \<or> rr_workspace_limit r < 1
        \<or> rr_workspace_limit r > rr_limit r \<or> rr_endpoint_limit r < 1
        \<or> rr_endpoint_limit r > rr_limit r)"

section \<open>ClaimBatch\<close>

definition scan_claim :: "claim_row \<Rightarrow> claim" where
  "scan_claim c =
     \<lparr>cl_ws = cr_ws c, cl_delivery = cr_delivery c, cl_event = cr_event c, cl_endpoint = cr_endpoint c,
      cl_attempt_id = uuid_nil, cl_token = cr_token c, cl_attempt = cr_attempt c,
      cl_max_attempts = cr_max c, cl_scheme = cr_scheme c, cl_host = cr_host c, cl_port = cr_port c,
      cl_target = cr_target c, cl_event_type = cr_event_type c, cl_payload = cr_payload c,
      cl_key_id = cr_key_id c, cl_secret_id = cr_secret_id c, cl_secret = cr_secret c,
      cl_retiring = (case cr_retiring c of None \<Rightarrow> None
        | Some (k, i, e) \<Rightarrow> Some \<lparr>cs_key_id = k, cs_version_id = i, cs_envelope = e\<rparr>)\<rparr>"

text \<open>The loop over the rows: \<open>attemptIDs[len(claims)]\<close> panics past the end of the slice.\<close>

fun scan_rows :: "uuid list \<Rightarrow> claim list \<Rightarrow> claim_row list \<Rightarrow> store_error + claim list" where
  "scan_rows attemptIDs claims [] = Inr claims"
| "scan_rows attemptIDs claims (row # rows) =
     (if length claims < length attemptIDs
      then scan_rows attemptIDs
             (claims @ [(scan_claim row)\<lparr>cl_attempt_id := attemptIDs ! length claims\<rparr>]) rows
      else Inl Err_index_panic)"

fun draw_ids :: "(nat \<Rightarrow> uuid option) \<Rightarrow> nat \<Rightarrow> uuid list option" where
  "draw_ids new 0 = Some []"
| "draw_ids new (Suc n) =
     (case draw_ids new n of
        None \<Rightarrow> None
      | Some xs \<Rightarrow> (case new n of None \<Rightarrow> None | Some i \<Rightarrow> Some (xs @ [i])))"

definition claim_batch ::
    "(nat \<Rightarrow> uuid option) \<Rightarrow> instant \<Rightarrow> (nat \<Rightarrow> nat \<Rightarrow> instant) \<Rightarrow> (nat \<Rightarrow> uuid \<Rightarrow> bool)
      \<Rightarrow> claim_request \<Rightarrow> db \<Rightarrow> store_error + (claim list \<times> db)" where
  "claim_batch new st clk locked r s =
     (if \<not> claim_request_valid r then Inl Err_invalid_claim_request
      else case draw_ids new (nat (rr_limit r)) of
        None \<Rightarrow> Inl Err_uuid
      | Some ids \<Rightarrow>
          (case claim_deliveries (rr_worker r) ids (rr_lease_ttl r) (rr_limit r)
                  (rr_workspace_limit r) (rr_endpoint_limit r) st clk locked s of
             Inl e \<Rightarrow> Inl (Err_database e)
           | Inr (rows, s') \<Rightarrow>
               (case scan_rows ids [] rows of
                  Inl e \<Rightarrow> Inl e
                | Inr claims \<Rightarrow> Inr (claims, s'))))"

section \<open>Finalize\<close>

definition normalize_result :: "delivery_result \<Rightarrow> delivery_result" where
  "normalize_result r =
     (if (case re_http r of None \<Rightarrow> True | Some h \<Rightarrow> h \<ge> 100 \<and> h \<le> 599) then r
      else r\<lparr>re_http := None, re_disposition := ''permanent_failure'',
             re_category := ''invalid_http_status'', re_retry_after := 0\<rparr>)"

definition store_finalize ::
    "claim \<Rightarrow> uuid \<Rightarrow> delivery_result \<Rightarrow> (nat \<Rightarrow> instant) \<Rightarrow> db \<Rightarrow> store_error + (bool \<times> db)" where
  "store_finalize c worker result clk s =
     (let r = normalize_result result;
          retryDelay = (if re_disposition r = ''retry'' then Some (re_retry_after r) else None)
      in case finalize_delivery (cl_ws c, cl_delivery c) worker (cl_token c) (re_disposition r) (re_http r)
                (re_duration r) (re_category r) retryDelay clk s of
           Inl e \<Rightarrow> Inl (Err_database e)
         | Inr x \<Rightarrow> Inr x)"

section \<open>RequestReplay\<close>

definition replay_error :: "string \<Rightarrow> store_error" where
  "replay_error m =
     (if m = ''replay_invalid'' then Err_invalid_replay
      else if m = ''replay_conflict'' then Err_replay_conflict
      else if m = ''replay_not_found'' then Err_not_found
      else if m = ''replay_payload_purged'' then Err_payload_purged
      else if m = ''replay_invalid_transition'' then Err_invalid_transition
      else Err_database m)"

record replay_result =
  rp_command_id :: uuid
  rp_delivery_id :: uuid
  rp_run_number :: int
  rp_duplicate :: bool

definition store_request_replay ::
    "replay_command \<Rightarrow> (nat \<Rightarrow> instant) \<Rightarrow> db \<Rightarrow> store_error + (replay_result \<times> db)" where
  "store_request_replay c clk s =
     (case request_replay c clk s of
        Inl m \<Rightarrow> Inl (replay_error m)
      | Inr ((cmd, run, dup), s') \<Rightarrow>
          Inr (\<lparr>rp_command_id = cmd, rp_delivery_id = rq_delivery c, rp_run_number = run,
                rp_duplicate = dup\<rparr>, s'))"

section \<open>Claims never run past their identifiers\<close>

lemma length_draw_ids: "draw_ids new n = Some ids \<Longrightarrow> length ids = n"
  by (induction n arbitrary: ids) (auto split: option.splits)

lemma scan_rows_Inr:
  "length claims + length rows \<le> length ids \<Longrightarrow>
     scan_rows ids claims rows
     = Inr (claims @ map (\<lambda>(r, i). (scan_claim r)\<lparr>cl_attempt_id := i\<rparr>) (zip rows (drop (length claims) ids)))"
proof (induction ids claims rows rule: scan_rows.induct)
  case (2 ids claims row rows)
  then have l: "length claims < length ids" by simp
  then have "drop (length claims) ids = ids ! length claims # drop (Suc (length claims)) ids"
    by (rule Cons_nth_drop_Suc [symmetric])
  with 2 l show ?case by simp
qed simp

lemma claim_loop_length:
  "claim_loop rnd m w is ttl st clk locked wl el wc ec lim s = (cs, s') \<Longrightarrow> length cs \<le> length is"
proof (induction rnd m w "is" ttl st clk locked wl el wc ec lim s arbitrary: cs s' rule: claim_loop.induct)
  case (3 rnd m w a as ttl st clk locked wl el wc ec lim s)
  obtain r s1 where r: "claim_one_delivery w a ttl st (clk rnd) (locked rnd) wl el wc ec s = (r, s1)"
    by (cases "claim_one_delivery w a ttl st (clk rnd) (locked rnd) wl el wc ec s") auto
  show ?case
  proof (cases r)
    case None
    with r "3.prems" have "claim_loop (Suc rnd) m w (a # as) ttl st clk locked wl el wc ec lim s1 = (cs, s')"
      by simp
    from "3.IH"(1) [OF r [symmetric] None this] show ?thesis .
  next
    case (Some c)
    obtain cs1 s2 where l: "claim_loop (Suc rnd) lim w as ttl st clk locked wl el
        (wc(cr_ws c := wc (cr_ws c) + 1)) (ec((cr_ws c, cr_endpoint c) := ec (cr_ws c, cr_endpoint c) + 1)) lim s1 = (cs1, s2)"
      by fastforce
    with r Some "3.prems" have "cs = c # cs1" by simp
    with "3.IH"(2) [OF r [symmetric] Some refl refl l] show ?thesis by simp
  qed
qed auto

lemma claim_deliveries_length:
  "claim_deliveries w is ttl lim wl el st clk locked s = Inr (cs, s') \<Longrightarrow> length cs \<le> length is"
  by (auto simp: claim_deliveries_def dest!: claim_loop_length split: if_splits sum.splits prod.splits)

lemma claim_batch_Inr:
  assumes "claim_batch new st clk locked r s = Inr (claims, s')"
  obtains ids rows where "draw_ids new (nat (rr_limit r)) = Some ids"
    and "claim_deliveries (rr_worker r) ids (rr_lease_ttl r) (rr_limit r) (rr_workspace_limit r)
           (rr_endpoint_limit r) st clk locked s = Inr (rows, s')"
    and "claims = map (\<lambda>(r, i). (scan_claim r)\<lparr>cl_attempt_id := i\<rparr>) (zip rows ids)"
    and "length rows \<le> length ids" and "length ids = nat (rr_limit r)" and "claim_request_valid r"
proof -
  from assms obtain ids rows where a: "claim_request_valid r" "draw_ids new (nat (rr_limit r)) = Some ids"
    "claim_deliveries (rr_worker r) ids (rr_lease_ttl r) (rr_limit r) (rr_workspace_limit r)
           (rr_endpoint_limit r) st clk locked s = Inr (rows, s')"
    "scan_rows ids [] rows = Inr claims"
    by (auto simp: claim_batch_def split: if_splits option.splits sum.splits)
  moreover have "length rows \<le> length ids" using claim_deliveries_length [OF a(3)] .
  ultimately show thesis using that scan_rows_Inr [of "[]" rows ids] length_draw_ids by auto
qed

section \<open>What the scheduler relies on\<close>

text \<open>A source of claims never returns more than it was asked for.\<close>

locale claim_source =
  fixes fetch :: "int \<Rightarrow> 's \<Rightarrow> 'e + ('c list \<times> 's)"
  assumes fetch_length: "fetch n s = Inr (cs, s') \<Longrightarrow> int (length cs) \<le> n"
begin

lemma fetch_fits: "fetch n s = Inr (cs, s') \<Longrightarrow> a + n \<le> m \<Longrightarrow> a + int (length cs) \<le> m"
  using fetch_length [of n s cs s'] by linarith

end

text \<open>\<open>ClaimBatch\<close>, asked for \<open>n\<close> claims by a worker, is such a source.\<close>

definition worker_fetch ::
    "(nat \<Rightarrow> uuid option) \<Rightarrow> instant \<Rightarrow> (nat \<Rightarrow> nat \<Rightarrow> instant) \<Rightarrow> (nat \<Rightarrow> uuid \<Rightarrow> bool)
      \<Rightarrow> uuid \<Rightarrow> duration \<Rightarrow> int \<Rightarrow> int \<Rightarrow> int \<Rightarrow> db \<Rightarrow> store_error + (claim list \<times> db)" where
  "worker_fetch new st clk locked worker ttl wl el n =
     claim_batch new st clk locked
       \<lparr>rr_worker = worker, rr_lease_ttl = ttl, rr_limit = n,
        rr_workspace_limit = min wl n, rr_endpoint_limit = min el n\<rparr>"

interpretation pg: claim_source "worker_fetch new st clk locked worker ttl wl el"
proof
  fix n s cs s'
  assume "worker_fetch new st clk locked worker ttl wl el n s = Inr (cs, s')"
  then obtain ids rows where "cs = map (\<lambda>(r, i). (scan_claim r)\<lparr>cl_attempt_id := i\<rparr>) (zip rows ids)"
      "length ids = nat n" "1 \<le> n"
    by (auto simp: worker_fetch_def claim_request_valid_def elim!: claim_batch_Inr)
  then show "int (length cs) \<le> n" by simp
qed

end
