(* ===== verification/Scheduler.thy ===== *)
theory Scheduler
  imports Delivery_Store
begin

text \<open>
  \<open>internal/delivery/scheduler.go\<close>: the worker's loop. The state is what \<open>Run\<close> keeps (\<open>active\<close>, the
  two back-off counters, the timer, the buffered channel \<open>done\<close>) together with the jobs that run in
  goroutines; an event is one communication the loop or a goroutine may take part in. Any sequence
  of events is considered, so nothing is assumed of scheduling, timing or the choice \<open>select\<close> makes.
  \<open>sc_dropped\<close> counts the completions that the non-blocking send of \<open>startJob\<close> would lose.
  The observer only receives signals and is left out.
\<close>

datatype job_error = Job_panic | Job_canceled | Job_failed

datatype sched_phase =
    Sched_running
  | Sched_draining "job_error list"
  | Sched_returned "job_error list"

record sched =
  sc_active :: int
  sc_empty :: int
  sc_failure :: int
  sc_timer :: "duration option"
  sc_done :: "job_error option list"
  sc_jobs :: nat
  sc_dropped :: nat
  sc_work_cancelled :: bool
  sc_force_armed :: bool
  sc_phase :: sched_phase

record runner =
  rn_poll :: poll_policy
  rn_concurrency :: int
  rn_batch_size :: int
  rn_shutdown :: duration

text \<open>How a call of \<open>claimResponsive\<close> ends: a store result, a panic of the store, or \<open>ctx\<close> cancelled.\<close>

datatype claim_failure = Claim_store_error | Claim_panicked | Claim_ctx_done

datatype sched_event =
    Ev_ctx_done
  | Ev_done
  | Ev_tick "claim_failure option"
  | Ev_job_end "job_error option"
  | Ev_force
  | Ev_deadline

definition next_backoff_step :: "int \<Rightarrow> int" where
  "next_backoff_step current = (if current < 32767 then current + 1 else current)"

definition sched_start :: sched where
  "sched_start =
     \<lparr>sc_active = 0, sc_empty = 0, sc_failure = 0, sc_timer = Some 0, sc_done = [], sc_jobs = 0,
      sc_dropped = 0, sc_work_cancelled = False, sc_force_armed = False, sc_phase = Sched_running\<rparr>"

text \<open>Entering \<open>drain\<close>: it returns at once when nothing is active.\<close>

definition enter_drain :: "job_error list \<Rightarrow> sched \<Rightarrow> sched" where
  "enter_drain result s =
     (if sc_active s = 0
      then s\<lparr>sc_work_cancelled := True, sc_phase := Sched_returned result\<rparr>
      else s\<lparr>sc_force_armed := True, sc_phase := Sched_draining result\<rparr>)"

text \<open>The goroutine of \<open>startJob\<close> ends: \<open>select { case done <- err: default: }\<close>.\<close>

definition job_end :: "runner \<Rightarrow> job_error option \<Rightarrow> sched \<Rightarrow> sched" where
  "job_end r err s =
     (if sc_jobs s = 0 then s
      else if int (length (sc_done s)) < rn_concurrency r
      then s\<lparr>sc_jobs := sc_jobs s - 1, sc_done := sc_done s @ [err]\<rparr>
      else s\<lparr>sc_jobs := sc_jobs s - 1, sc_dropped := sc_dropped s + 1\<rparr>)"

definition recv_running :: "runner \<Rightarrow> job_error option \<Rightarrow> sched \<Rightarrow> sched" where
  "recv_running r err s0 =
     (let s = s0\<lparr>sc_active := sc_active s0 - 1\<rparr>
      in case err of
           Some Job_panic \<Rightarrow> enter_drain [Job_panic] (s\<lparr>sc_work_cancelled := True\<rparr>)
         | Some _ \<Rightarrow>
             let n = next_backoff_step (sc_failure s)
             in s\<lparr>sc_failure := n, sc_timer := Some (poll_delay (rn_poll r) n)\<rparr>
         | None \<Rightarrow> s\<lparr>sc_failure := 0\<rparr>)"

definition recv_draining :: "job_error list \<Rightarrow> job_error option \<Rightarrow> sched \<Rightarrow> sched" where
  "recv_draining result err s0 =
     (let s = s0\<lparr>sc_active := sc_active s0 - 1\<rparr>;
          result' = (case err of None \<Rightarrow> result
                     | Some e \<Rightarrow> if e = Job_canceled then result else result @ [e])
      in if sc_active s > 0 then s\<lparr>sc_phase := Sched_draining result'\<rparr>
         else s\<lparr>sc_work_cancelled := True, sc_phase := Sched_returned result'\<rparr>)"

text \<open>The limit of a claim, and what the loop does with the claims.\<close>

definition claim_limit :: "runner \<Rightarrow> sched \<Rightarrow> int" where
  "claim_limit r s = min (rn_concurrency r - sc_active s) (rn_batch_size r)"

definition after_claim :: "runner \<Rightarrow> nat \<Rightarrow> sched \<Rightarrow> sched" where
  "after_claim r n s0 =
     (let s = s0\<lparr>sc_active := sc_active s0 + int n, sc_jobs := sc_jobs s0 + n\<rparr>
      in if n = 0 then
           let e = next_backoff_step (sc_empty s)
           in s\<lparr>sc_failure := 0, sc_empty := e, sc_timer := Some (poll_delay (rn_poll r) e)\<rparr>
         else if sc_active s \<ge> rn_concurrency r
         then s\<lparr>sc_empty := 0, sc_timer := Some (poll_delay (rn_poll r) 0)\<rparr>
         else s\<lparr>sc_empty := 0, sc_timer := Some 0\<rparr>)"

definition tick ::
    "runner \<Rightarrow> (int \<Rightarrow> 's \<Rightarrow> 'e + ('c list \<times> 's)) \<Rightarrow> claim_failure option \<Rightarrow> sched \<times> 's \<Rightarrow> sched \<times> 's"
where
  "tick r fetch failure sd =
     (let (s, d) = sd
      in if rn_concurrency r - sc_active s \<le> 0
         then (s\<lparr>sc_timer := Some (poll_delay (rn_poll r) 0)\<rparr>, d)
         else
           let failed = (let n = next_backoff_step (sc_failure s)
                         in s\<lparr>sc_failure := n, sc_timer := Some (poll_delay (rn_poll r) n)\<rparr>)
           in case failure of
                Some Claim_ctx_done \<Rightarrow> (enter_drain [] s, d)
              | Some Claim_panicked \<Rightarrow> (enter_drain [Job_panic] (s\<lparr>sc_work_cancelled := True\<rparr>), d)
              | Some Claim_store_error \<Rightarrow> (failed, d)
              | None \<Rightarrow>
                  (case fetch (claim_limit r s) d of
                     Inl e \<Rightarrow> (failed, d)
                   | Inr (claims, d') \<Rightarrow> (after_claim r (length claims) s, d')))"

text \<open>One event; an event the state does not admit changes nothing.\<close>

fun sched_step ::
    "runner \<Rightarrow> (int \<Rightarrow> 's \<Rightarrow> 'e + ('c list \<times> 's)) \<Rightarrow> sched_event \<Rightarrow> sched \<times> 's \<Rightarrow> sched \<times> 's" where
  "sched_step r fetch Ev_ctx_done (s, d) =
     (case sc_phase s of Sched_running \<Rightarrow> (enter_drain [] s, d) | _ \<Rightarrow> (s, d))"
| "sched_step r fetch Ev_done (s, d) =
     (case sc_done s of
        [] \<Rightarrow> (s, d)
      | err # rest \<Rightarrow>
          (case sc_phase s of
             Sched_running \<Rightarrow> (recv_running r err (s\<lparr>sc_done := rest\<rparr>), d)
           | Sched_draining result \<Rightarrow> (recv_draining result err (s\<lparr>sc_done := rest\<rparr>), d)
           | Sched_returned _ \<Rightarrow> (s, d)))"
| "sched_step r fetch (Ev_tick failure) (s, d) =
     (case sc_phase s of Sched_running \<Rightarrow> tick r fetch failure (s, d) | _ \<Rightarrow> (s, d))"
| "sched_step r fetch (Ev_job_end err) (s, d) = (job_end r err s, d)"
| "sched_step r fetch Ev_force (s, d) =
     (case sc_phase s of
        Sched_draining result \<Rightarrow>
          (if sc_force_armed s then s\<lparr>sc_work_cancelled := True, sc_force_armed := False\<rparr> else s, d)
      | _ \<Rightarrow> (s, d))"
| "sched_step r fetch Ev_deadline (s, d) =
     (case sc_phase s of
        Sched_draining result \<Rightarrow> (s\<lparr>sc_work_cancelled := True, sc_phase := Sched_returned result\<rparr>, d)
      | _ \<Rightarrow> (s, d))"

definition sched_run ::
    "runner \<Rightarrow> (int \<Rightarrow> 's \<Rightarrow> 'e + ('c list \<times> 's)) \<Rightarrow> sched_event list \<Rightarrow> sched \<times> 's \<Rightarrow> sched \<times> 's" where
  "sched_run r fetch evs sd = foldl (\<lambda>sd ev. sched_step r fetch ev sd) sd evs"

text \<open>\<open>drain\<close>'s first timer: the running work is cancelled five seconds before the deadline.\<close>

definition force_after :: "runner \<Rightarrow> duration" where
  "force_after r =
     (let f = wrap64 (rn_shutdown r - 5 * second)
      in if f \<le> 0 then go_div (rn_shutdown r) 2 else f)"

section \<open>The invariant of the loop\<close>

text \<open>
  Every active slot is a running job or a completion waiting in the channel, so the channel never
  overflows; the counters stay 16-bit values.
\<close>

definition sched_inv :: "runner \<Rightarrow> sched \<Rightarrow> bool" where
  "sched_inv r s \<longleftrightarrow>
     sc_active s = int (sc_jobs s) + int (length (sc_done s)) \<and> sc_active s \<le> rn_concurrency r
     \<and> sc_dropped s = 0
     \<and> 0 \<le> sc_empty s \<and> sc_empty s \<le> 32767 \<and> 0 \<le> sc_failure s \<and> sc_failure s \<le> 32767
     \<and> (case sc_phase s of Sched_draining _ \<Rightarrow> 0 < sc_active s | _ \<Rightarrow> True)"

lemma next_backoff_range: "0 \<le> n \<Longrightarrow> n \<le> 32767 \<Longrightarrow> 0 \<le> next_backoff_step n \<and> next_backoff_step n \<le> 32767"
  by (simp add: next_backoff_step_def)

lemma sched_inv_start: "0 \<le> rn_concurrency r \<Longrightarrow> sched_inv r sched_start"
  by (simp add: sched_inv_def sched_start_def)

lemma sched_inv_drain:
  "sched_inv r s \<Longrightarrow> sc_phase s = Sched_running \<Longrightarrow> sched_inv r (enter_drain res s)"
  by (auto simp: sched_inv_def enter_drain_def)

lemma sched_inv_job_end: "sched_inv r s \<Longrightarrow> sched_inv r (job_end r err s)"
  by (auto simp: sched_inv_def job_end_def split: sched_phase.splits)

lemma sched_inv_recv_running:
  assumes "sched_inv r s" and "sc_phase s = Sched_running" and "sc_done s = err # rest"
  shows "sched_inv r (recv_running r err (s\<lparr>sc_done := rest\<rparr>))"
proof -
  let ?s = "s\<lparr>sc_done := rest, sc_active := sc_active s - 1\<rparr>"
  have inv: "sched_inv r ?s" using assms by (simp add: sched_inv_def)
  then have "sched_inv r (enter_drain [Job_panic] (?s\<lparr>sc_work_cancelled := True\<rparr>))"
    by (intro sched_inv_drain) (simp_all add: sched_inv_def assms(2))
  moreover have "sched_inv r (?s\<lparr>sc_failure := n, sc_timer := t\<rparr>)" if "0 \<le> n" "n \<le> 32767" for n t
    using inv that assms(2) by (simp add: sched_inv_def)
  moreover have "sched_inv r (?s\<lparr>sc_failure := 0\<rparr>)"
    using inv assms(2) by (simp add: sched_inv_def)
  moreover have "0 \<le> next_backoff_step (sc_failure s) \<and> next_backoff_step (sc_failure s) \<le> 32767"
    using assms(1) by (intro next_backoff_range) (simp_all add: sched_inv_def)
  ultimately show ?thesis
    by (simp add: recv_running_def Let_def split: option.split job_error.split)
qed

lemma sched_inv_recv_draining:
  assumes "sched_inv r s" and "sc_phase s = Sched_draining res" and "sc_done s = err # rest"
  shows "sched_inv r (recv_draining res err (s\<lparr>sc_done := rest\<rparr>))"
  using assms by (auto simp: recv_draining_def Let_def sched_inv_def)

lemma sched_inv_after_claim:
  assumes "sched_inv r s" and "sc_phase s = Sched_running" and "sc_active s + int n \<le> rn_concurrency r"
  shows "sched_inv r (after_claim r n s)"
  using assms next_backoff_range [of "sc_empty s"]
  by (auto simp: after_claim_def Let_def sched_inv_def)

context claim_source
begin

lemma sched_inv_tick:
  assumes "sched_inv r s" and "sc_phase s = Sched_running"
  shows "sched_inv r (fst (tick r fetch failure (s, d)))"
proof -
  have failed: "sched_inv r (s\<lparr>sc_failure := next_backoff_step (sc_failure s), sc_timer := t\<rparr>)" for t
    using assms next_backoff_range [of "sc_failure s"] by (auto simp: sched_inv_def)
  have "sched_inv r (enter_drain [] s)" using assms by (rule sched_inv_drain)
  moreover have "sched_inv r (s\<lparr>sc_timer := t\<rparr>)" for t using assms by (simp add: sched_inv_def)
  moreover have "sched_inv r (enter_drain [Job_panic] (s\<lparr>sc_work_cancelled := True\<rparr>))"
    using assms by (intro sched_inv_drain) (simp_all add: sched_inv_def)
  moreover have "sched_inv r (after_claim r (length cs) s)"
    if "fetch (claim_limit r s) d = Inr (cs, d')" for cs d'
    using assms fetch_fits [OF that, of "sc_active s" "rn_concurrency r"]
    by (intro sched_inv_after_claim) (simp_all add: claim_limit_def)
  ultimately show ?thesis using failed
    by (auto simp: tick_def Let_def split: option.split claim_failure.split sum.split)
qed

lemma sched_inv_step: "sched_inv r s \<Longrightarrow> sched_inv r (fst (sched_step r fetch ev (s, d)))"
proof (cases ev)
  case Ev_done
  assume inv: "sched_inv r s"
  show ?thesis
  proof (cases "sc_done s")
    case (Cons err rest)
    with inv Ev_done sched_inv_recv_running [OF inv _ Cons] sched_inv_recv_draining [OF inv _ Cons]
    show ?thesis by (auto split: sched_phase.split)
  qed (use inv Ev_done in simp)
next
  case (Ev_tick failure)
  assume "sched_inv r s"
  then show ?thesis using Ev_tick sched_inv_tick by (auto split: sched_phase.split)
next
  case Ev_ctx_done
  assume "sched_inv r s"
  then show ?thesis using Ev_ctx_done sched_inv_drain by (auto split: sched_phase.split)
next
  case (Ev_job_end err)
  assume "sched_inv r s"
  then show ?thesis using Ev_job_end sched_inv_job_end by simp
qed (auto simp: sched_inv_def split: sched_phase.splits)

lemma sched_inv_run: "sched_inv r (fst sd) \<Longrightarrow> sched_inv r (fst (sched_run r fetch evs sd))"
  unfolding sched_run_def
proof (induction evs arbitrary: sd)
  case (Cons ev evs)
  then show ?case using sched_inv_step [of r "fst sd" ev "snd sd"] by simp
qed simp

end

section \<open>Draining\<close>

definition job_errors :: "job_error option list \<Rightarrow> job_error list" where
  "job_errors es = map the (filter (\<lambda>e. e \<noteq> None \<and> e \<noteq> Some Job_canceled) es)"

lemma job_errors_simps [simp]:
  "job_errors [] = []"
  "job_errors (e # es) = (case e of None \<Rightarrow> [] | Some x \<Rightarrow> if x = Job_canceled then [] else [x]) @ job_errors es"
  by (simp_all add: job_errors_def split: option.split)

lemma sched_run_Cons [simp]:
  "sched_run r fetch (ev # evs) sd = sched_run r fetch evs (sched_step r fetch ev sd)"
  "sched_run r fetch [] sd = sd"
  by (simp_all add: sched_run_def)

lemma sched_run_append:
  "sched_run r fetch (es @ fs) sd = sched_run r fetch fs (sched_run r fetch es sd)"
  by (simp add: sched_run_def)

lemma job_end_room:
  assumes "sched_inv r s" and "0 < sc_jobs s"
  shows "job_end r e s = s\<lparr>sc_jobs := sc_jobs s - 1, sc_done := sc_done s @ [e]\<rparr>"
  using assms by (auto simp: job_end_def sched_inv_def)

lemma drain_job_ends:
  "sched_inv r s \<Longrightarrow> length es = sc_jobs s \<Longrightarrow>
     sched_run r fetch (map Ev_job_end es) (s, d) = (s\<lparr>sc_jobs := 0, sc_done := sc_done s @ es\<rparr>, d)"
proof (induction es arbitrary: s)
  case (Cons e es)
  let ?s = "job_end r e s"
  have s1: "?s = s\<lparr>sc_jobs := sc_jobs s - 1, sc_done := sc_done s @ [e]\<rparr>"
    using Cons.prems by (intro job_end_room) auto
  have "sched_inv r ?s" using Cons.prems(1) by (rule sched_inv_job_end)
  from Cons.IH [OF this] Cons.prems(2) show ?case by (simp add: s1)
qed simp

lemma drain_reads:
  "sc_done s = es \<Longrightarrow> es \<noteq> [] \<Longrightarrow> sc_phase s = Sched_draining res \<Longrightarrow> sc_active s = int (length es) \<Longrightarrow>
     sc_phase (fst (sched_run r fetch (replicate (length es) Ev_done) (s, d))) = Sched_returned (res @ job_errors es)"
proof (induction es arbitrary: s res)
  case (Cons err rest)
  let ?res = "case err of None \<Rightarrow> res | Some e \<Rightarrow> if e = Job_canceled then res else res @ [e]"
  let ?s = "recv_draining res err (s\<lparr>sc_done := rest\<rparr>)"
  have res: "?res @ job_errors rest = res @ job_errors (err # rest)" by (simp split: option.split)
  show ?case
  proof (cases "rest = []")
    case True
    with Cons.prems res show ?thesis by (simp add: recv_draining_def Let_def)
  next
    case False
    with Cons.prems have "sc_phase ?s = Sched_draining ?res" "sc_done ?s = rest" "sc_active ?s = int (length rest)"
      by (simp_all add: recv_draining_def Let_def)
    from Cons.IH [OF this(2) False this(1,3)] Cons.prems res show ?thesis by simp
  qed
qed simp

section \<open>Properties\<close>

lemma sched_run_worker_inv:
  "0 \<le> rn_concurrency r \<Longrightarrow>
     sched_inv r (fst (sched_run r (worker_fetch new st clk locked worker ttl wl el) evs (sched_start, s)))"
  using pg.sched_inv_run [of r "(sched_start, s)"] sched_inv_start by simp

text \<open>C12. However events interleave, the worker never runs more deliveries than its concurrency: every
  active slot is a job still running or a completion still in the channel, no completion is ever lost
  by the non-blocking send, and the back-off counters never wrap.\<close>
theorem scheduler_bounded:
  assumes "0 \<le> rn_concurrency r"
    and "sched_run r (worker_fetch new st clk locked worker ttl wl el) evs (sched_start, d) = (s', d')"
  shows "int (sc_jobs s') + int (length (sc_done s')) = sc_active s' \<and> sc_active s' \<le> rn_concurrency r
    \<and> sc_dropped s' = 0 \<and> sc_empty s' \<in> {0..32767} \<and> sc_failure s' \<in> {0..32767}"
  using sched_run_worker_inv [OF assms(1), of new st clk locked worker ttl wl el evs d] assms(2)
  by (simp add: sched_inv_def)

definition demo_runner :: runner where
  "demo_runner = \<lparr>rn_poll = default_poll_policy id (250 * millisecond) None, rn_concurrency = 2,
                  rn_batch_size = 8, rn_shutdown = 30 * second\<rparr>"

definition demo_run :: "sched_event list \<Rightarrow> sched \<times> db" where
  "demo_run evs = sched_run demo_runner
     (worker_fetch (\<lambda>n. Some (of_nat n + 20)) 1 (\<lambda>_ _. 1) (\<lambda>_ _. False) 7 (30 * second) 2 2) evs
     (sched_start, demo_db1)"

theorem scheduler_bounded_witness:
  "sc_active (fst (demo_run [Ev_tick None, Ev_job_end None, Ev_done])) \<le> 2"
proof -
  obtain s' d' where "demo_run [Ev_tick None, Ev_job_end None, Ev_done] = (s', d')" by fastforce
  with scheduler_bounded [of demo_runner "\<lambda>n. Some (of_nat n + 20)" 1 "\<lambda>_ _. 1" "\<lambda>_ _. False" 7 "30 * second" 2 2
      "[Ev_tick None, Ev_job_end None, Ev_done]" demo_db1 s' d']
  show ?thesis by (simp add: demo_run_def demo_runner_def)
qed

text \<open>C13. Shutdown loses nothing: from any reachable state that is draining, once the running jobs end
  and their completions are read, \<open>Run\<close> returns, with every failure of a job that is not a
  cancellation, in order.\<close>
theorem drain_returns:
  assumes "0 \<le> rn_concurrency r"
    and "sched_run r (worker_fetch new st clk locked worker ttl wl el) evs (sched_start, d) = (s, d')"
    and "sc_phase s = Sched_draining res" and "length es = sc_jobs s"
  shows "sc_phase (fst (sched_run r (worker_fetch new st clk locked worker ttl wl el)
             (map Ev_job_end es @ replicate (nat (sc_active s)) Ev_done) (s, d')))
    = Sched_returned (res @ job_errors (sc_done s @ es))"
proof -
  have inv: "sched_inv r s"
    using sched_run_worker_inv [OF assms(1), of new st clk locked worker ttl wl el evs d] assms(2) by simp
  let ?s = "s\<lparr>sc_jobs := 0, sc_done := sc_done s @ es\<rparr>"
  have "sc_active s = int (length (sc_done s @ es))" "0 < sc_active s"
    using inv assms(3,4) by (simp_all add: sched_inv_def)
  moreover from this have "sc_done s @ es \<noteq> []" by auto
  ultimately show ?thesis
    using drain_reads [of ?s "sc_done s @ es" res] assms(3)
    by (simp add: sched_run_append drain_job_ends [OF inv assms(4)] nat_int_add)
qed

definition demo_sched :: sched where
  "demo_sched = fst (demo_run [Ev_tick None, Ev_ctx_done])"

lemma draw_ids_2:
  "draw_ids new 2 = (case new 0 of None \<Rightarrow> None | Some a \<Rightarrow> (case new 1 of None \<Rightarrow> None | Some b \<Rightarrow> Some [a, b]))"
  by (simp add: numeral_2_eq_2 split: option.split)

lemma demo_fetch:
  "\<exists>c. worker_fetch (\<lambda>n. Some (of_nat n + 20)) 1 (\<lambda>_ _. 1) (\<lambda>_ _. False) 7 (30 * second) 2 2 2 demo_db1
     = Inr ([c], demo_db2)"
  by (simp add: worker_fetch_def claim_batch_def claim_request_valid_def
      claim_deliveries_def recover_exhausted_def exhausted_row_def demo_defs ready_at_def
      claim_one_delivery_def select_delivery_candidate_def candidate_ok_def find_workspace_def
      find_endpoint_def find_runtime_def find_event_def find_secret_def active_count_def count_where_def
      Let_def dkey_def claim_result_def claim_key_def retiring_secret_def numeral_3_eq_3 draw_ids_2
      lease_expired_def lease_live_def)

lemma demo_sched: "demo_sched = sched_start\<lparr>sc_active := 1, sc_jobs := 1, sc_force_armed := True,
    sc_phase := Sched_draining []\<rparr>"
proof -
  obtain c where "worker_fetch (\<lambda>n. Some (of_nat n + 20)) 1 (\<lambda>_ _. 1) (\<lambda>_ _. False) 7 (30 * second) 2 2 2 demo_db1
     = Inr ([c], demo_db2)" using demo_fetch by blast
  then show ?thesis
    by (simp add: demo_sched_def demo_run_def tick_def claim_limit_def demo_runner_def sched_start_def
        after_claim_def enter_drain_def Let_def)
qed

theorem drain_returns_witness:
  "sc_phase (fst (demo_run ([Ev_tick None, Ev_ctx_done] @ [Ev_job_end (Some Job_failed), Ev_done])))
   = Sched_returned [Job_failed]"
proof -
  obtain d' where d': "demo_run [Ev_tick None, Ev_ctx_done] = (demo_sched, d')"
    by (metis demo_sched_def prod.collapse)
  let ?fetch = "worker_fetch (\<lambda>n. Some (of_nat n + 20)) 1 (\<lambda>_ _. 1) (\<lambda>_ _. False) 7 (30 * second) 2 2"
  have run: "sched_run demo_runner ?fetch [Ev_tick None, Ev_ctx_done] (sched_start, demo_db1) = (demo_sched, d')"
    using d' unfolding demo_run_def .
  have "sc_phase (fst (sched_run demo_runner ?fetch
          (map Ev_job_end [Some Job_failed] @ replicate (nat (sc_active demo_sched)) Ev_done) (demo_sched, d')))
      = Sched_returned ([] @ job_errors (sc_done demo_sched @ [Some Job_failed]))"
    by (rule drain_returns [OF _ run]) (simp_all add: demo_sched sched_start_def demo_runner_def)
  moreover have "map Ev_job_end [Some Job_failed] @ replicate (nat (sc_active demo_sched)) Ev_done
      = [Ev_job_end (Some Job_failed), Ev_done]" by (simp add: demo_sched)
  moreover have "[] @ job_errors (sc_done demo_sched @ [Some Job_failed]) = [Job_failed]"
    by (simp add: demo_sched sched_start_def)
  ultimately show ?thesis
    unfolding demo_run_def sched_run_append [of _ _ "[Ev_tick None, Ev_ctx_done]"] run by (simp only:)
qed

end
