(* ===== verification/Outbound.thy ===== *)
theory Outbound
  imports Go_Strings
begin

text \<open>
  \<open>internal/outboundhttp\<close>: which addresses the worker may connect to, how a destination is parsed,
  and the dialer that pins a connection to the addresses the policy examined.
  \<open>netip.ParseAddr\<close>, \<open>Addr.String\<close>, \<open>url.ParseRequestURI\<close>, the DNS resolver, the IDNA profile and
  the network are arguments; no theorem assumes anything of them.
\<close>

section \<open>Addresses and prefixes\<close>

text \<open>A \<open>netip.Addr\<close>: the zero value, an IPv4 address, or an IPv6 address with its zone.\<close>

datatype addr = Addr_invalid | Addr4 "32 word" | Addr6 "128 word" string

definition is_4in6 :: "addr \<Rightarrow> bool" where
  "is_4in6 a = (case a of Addr6 w z \<Rightarrow> drop_bit 32 w = 0xffff | _ \<Rightarrow> False)"

definition unmap :: "addr \<Rightarrow> addr" where
  "unmap a = (case a of Addr6 w z \<Rightarrow> if is_4in6 a then Addr4 (ucast w) else a | _ \<Rightarrow> a)"

definition addr_zone :: "addr \<Rightarrow> string" where
  "addr_zone a = (case a of Addr6 w z \<Rightarrow> z | _ \<Rightarrow> [])"

definition is_loopback :: "addr \<Rightarrow> bool" where
  "is_loopback a =
     (case a of Addr4 w \<Rightarrow> drop_bit 24 w = 127 | Addr6 w z \<Rightarrow> w = 1 | Addr_invalid \<Rightarrow> False)"

definition is_multicast4 :: "32 word \<Rightarrow> bool" where "is_multicast4 w \<longleftrightarrow> drop_bit 28 w = 0xe"
definition is_link_local4 :: "32 word \<Rightarrow> bool" where "is_link_local4 w \<longleftrightarrow> drop_bit 16 w = 0xa9fe"

text \<open>\<open>IsGlobalUnicast\<close> of an IPv4 address.\<close>

definition is_global_unicast4 :: "32 word \<Rightarrow> bool" where
  "is_global_unicast4 w \<longleftrightarrow>
     w \<noteq> 0 \<and> w \<noteq> 0xffffffff \<and> drop_bit 24 w \<noteq> 127 \<and> \<not> is_multicast4 w \<and> \<not> is_link_local4 w"

type_synonym prefix4 = "32 word \<times> nat"
type_synonym prefix6 = "128 word \<times> nat"

definition contains4 :: "prefix4 list \<Rightarrow> 32 word \<Rightarrow> bool" where
  "contains4 ps w = list_ex (\<lambda>(p, n). drop_bit (32 - n) w = drop_bit (32 - n) p) ps"

definition contains6 :: "prefix6 list \<Rightarrow> addr \<Rightarrow> bool" where
  "contains6 ps a =
     (case a of
        Addr6 w z \<Rightarrow> z = [] \<and> list_ex (\<lambda>(p, n). drop_bit (128 - n) w = drop_bit (128 - n) p) ps
      | _ \<Rightarrow> False)"

text \<open>Dotted quads and the leading 16-bit groups of an IPv6 prefix.\<close>

definition ip4 :: "nat \<Rightarrow> nat \<Rightarrow> nat \<Rightarrow> nat \<Rightarrow> 32 word" where
  "ip4 a b c d = of_nat (((a * 256 + b) * 256 + c) * 256 + d)"

definition ip6 :: "nat list \<Rightarrow> 128 word" where
  "ip6 gs = of_nat (foldl (\<lambda>v g. v * 65536 + g) 0 gs * 65536 ^ (8 - length gs))"

definition allocated_ipv6 :: "prefix6 list" where
  "allocated_ipv6 =
     [(ip6 [0x2001], 23), (ip6 [0x2001, 0x200], 23), (ip6 [0x2001, 0x400], 23),
      (ip6 [0x2001, 0x600], 23), (ip6 [0x2001, 0x800], 22), (ip6 [0x2001, 0xc00], 23),
      (ip6 [0x2001, 0xe00], 23), (ip6 [0x2001, 0x1200], 23), (ip6 [0x2001, 0x1400], 22),
      (ip6 [0x2001, 0x1800], 23), (ip6 [0x2001, 0x1a00], 23), (ip6 [0x2001, 0x1c00], 22),
      (ip6 [0x2001, 0x2000], 19), (ip6 [0x2001, 0x4000], 23), (ip6 [0x2001, 0x4200], 23),
      (ip6 [0x2001, 0x4400], 23), (ip6 [0x2001, 0x4600], 23), (ip6 [0x2001, 0x4800], 23),
      (ip6 [0x2001, 0x4a00], 23), (ip6 [0x2001, 0x4c00], 23), (ip6 [0x2001, 0x5000], 20),
      (ip6 [0x2001, 0x8000], 19), (ip6 [0x2001, 0xa000], 20), (ip6 [0x2001, 0xb000], 20),
      (ip6 [0x2002], 16), (ip6 [0x2003], 18), (ip6 [0x2400], 12), (ip6 [0x2410], 12),
      (ip6 [0x2600], 12), (ip6 [0x2610], 23), (ip6 [0x2620], 23), (ip6 [0x2630], 12),
      (ip6 [0x2800], 12), (ip6 [0x2a00], 12), (ip6 [0x2a10], 12), (ip6 [0x2c00], 12)]"

definition global_special_ipv4 :: "prefix4 list" where
  "global_special_ipv4 = [(ip4 192 0 0 9, 32), (ip4 192 0 0 10, 32)]"

definition global_special_ipv6 :: "prefix6 list" where
  "global_special_ipv6 =
     [(ip6 [0x2001, 1, 0, 0, 0, 0, 0, 1], 128), (ip6 [0x2001, 1, 0, 0, 0, 0, 0, 2], 128),
      (ip6 [0x2001, 1, 0, 0, 0, 0, 0, 3], 128), (ip6 [0x2001, 3], 32), (ip6 [0x2001, 4, 0x112], 48),
      (ip6 [0x2001, 0x20], 28), (ip6 [0x2001, 0x30], 28)]"

definition non_global_ipv4 :: "prefix4 list" where
  "non_global_ipv4 =
     [(ip4 0 0 0 0, 8), (ip4 100 64 0 0, 10), (ip4 192 0 0 0, 24), (ip4 192 0 2 0, 24),
      (ip4 10 0 0 0, 8), (ip4 127 0 0 0, 8), (ip4 169 254 0 0, 16), (ip4 172 16 0 0, 12),
      (ip4 192 88 99 0, 24), (ip4 192 168 0 0, 16), (ip4 198 18 0 0, 15), (ip4 198 51 100 0, 24),
      (ip4 203 0 113 0, 24), (ip4 224 0 0 0, 4), (ip4 240 0 0 0, 4)]"

definition non_global_ipv6 :: "prefix6 list" where
  "non_global_ipv6 =
     [(ip6 [0x2001], 23), (ip6 [0x2001, 0xdb8], 32), (ip6 [0x2002], 16), (ip6 [0x3fff], 20)]"

section \<open>The policy\<close>

datatype profile = Local | Test | Production | Profile_other string

definition allowed :: "profile \<Rightarrow> addr \<Rightarrow> bool" where
  "allowed p a0 =
     (if is_4in6 a0 then False
      else let a = unmap a0
           in if a = Addr_invalid then False
              else if is_loopback a then p \<noteq> Production
              else case a of
                Addr4 w \<Rightarrow> is_global_unicast4 w
                           \<and> (contains4 global_special_ipv4 w \<or> \<not> contains4 non_global_ipv4 w)
              | _ \<Rightarrow> contains6 allocated_ipv6 a
                     \<and> (contains6 global_special_ipv6 a \<or> \<not> contains6 non_global_ipv6 a))"

datatype policy_error = Err_policy | Err_dial

fun resolve_addrs :: "profile \<Rightarrow> addr list \<Rightarrow> addr list \<Rightarrow> policy_error + addr list" where
  "resolve_addrs p result [] = Inr result"
| "resolve_addrs p result (a # as) =
     (if a = Addr_invalid \<or> addr_zone a \<noteq> [] \<or> is_4in6 a then Inl Err_policy
      else let a' = unmap a
           in if \<not> allowed p a' then Inl Err_policy
              else resolve_addrs p (if a' \<in> set result then result else result @ [a']) as)"

definition resolve ::
    "(string \<Rightarrow> addr option) \<Rightarrow> (string \<Rightarrow> addr list option) \<Rightarrow> profile \<Rightarrow> string
      \<Rightarrow> policy_error + addr list" where
  "resolve parse_addr lookup p host =
     (case parse_addr host of
        Some literal \<Rightarrow> if \<not> allowed p literal then Inl Err_policy else Inr [unmap literal]
      | None \<Rightarrow>
          (case lookup host of
             None \<Rightarrow> Inl Err_policy
           | Some addresses \<Rightarrow>
               if addresses = [] then Inl Err_policy else resolve_addrs p [] addresses))"

text \<open>
  \<open>DialContext\<close> after \<open>net.SplitHostPort\<close> (\<open>None\<close> when it fails). The result is the connection's
  address, and the list of addresses that were dialled, in order.
\<close>

fun dial_first :: "(addr \<Rightarrow> bool) \<Rightarrow> addr list \<Rightarrow> addr option \<times> addr list" where
  "dial_first dial [] = (None, [])"
| "dial_first dial (a # as) =
     (if dial a then (Some a, [a])
      else let (r, tried) = dial_first dial as in (r, a # tried))"

definition dial_context ::
    "(string \<Rightarrow> addr option) \<Rightarrow> (string \<Rightarrow> addr list option) \<Rightarrow> (addr \<Rightarrow> bool) \<Rightarrow> profile
      \<Rightarrow> string option \<Rightarrow> (policy_error + addr) \<times> addr list" where
  "dial_context parse_addr lookup dial p host =
     (case host of
        None \<Rightarrow> (Inl Err_policy, [])
      | Some h \<Rightarrow>
          (case resolve parse_addr lookup p h of
             Inl e \<Rightarrow> (Inl e, [])
           | Inr addresses \<Rightarrow>
               (case dial_first dial addresses of
                  (None, tried) \<Rightarrow> (Inl Err_dial, tried)
                | (Some a, tried) \<Rightarrow> (Inr a, tried))))"

text \<open>\<open>Authority\<close>; \<open>net.JoinHostPort\<close> brackets a host that contains a colon or a percent sign.\<close>

definition join_host_port :: "string \<Rightarrow> string \<Rightarrow> string" where
  "join_host_port host port =
     (if CHR '':'' \<in> set host \<or> CHR ''%'' \<in> set host then ''['' @ host @ '']:'' @ port
      else host @ '':'' @ port)"

definition authority :: "(string \<Rightarrow> addr option) \<Rightarrow> string \<Rightarrow> int \<Rightarrow> string \<Rightarrow> string" where
  "authority parse_addr host port scheme =
     (if (scheme = ''https'' \<and> port = 443) \<or> (scheme = ''http'' \<and> port = 80)
      then (case parse_addr host of Some (Addr6 w z) \<Rightarrow> ''['' @ host @ '']'' | _ \<Rightarrow> host)
      else join_host_port host (format_int port))"

section \<open>Parsing a destination\<close>

record parsed_url =
  pu_abs :: bool
  pu_scheme :: string
  pu_opaque :: string
  pu_user :: bool
  pu_hostname :: string
  pu_port :: string
  pu_raw_query :: string
  pu_force_query :: bool
  pu_fragment :: string
  pu_escaped_path :: string

record destination =
  de_scheme :: string
  de_host :: string
  de_path :: string
  de_port :: int

record url_env =
  ue_parse_uri :: "string \<Rightarrow> parsed_url option"
  ue_parse_addr :: "string \<Rightarrow> addr option"
  ue_addr_string :: "addr \<Rightarrow> string"
  ue_is_ip :: "string \<Rightarrow> bool"
  ue_idna :: "string \<Rightarrow> string option"
  ue_lower :: "string \<Rightarrow> string"

definition canonical_host :: "url_env \<Rightarrow> string \<Rightarrow> policy_error + string" where
  "canonical_host u raw =
     (if CHR ''%'' \<in> set raw \<or> has_prefix ''.'' raw then Inl Err_policy
      else
        let v = to_lower (ue_lower u) (trim_suffix ''.'' raw)
        in if v = [] \<or> length v > 253 then Inl Err_policy
           else case ue_parse_addr u v of
             Some a \<Rightarrow> if addr_zone a \<noteq> [] \<or> is_4in6 a then Inl Err_policy else Inr (ue_addr_string u a)
           | None \<Rightarrow>
               if list_all (\<lambda>c. is_digit c \<or> c = CHR ''.'') v then Inl Err_policy
               else case ue_idna u v of
                 None \<Rightarrow> Inl Err_policy
               | Some ascii \<Rightarrow>
                   if ascii = [] \<or> length ascii > 253 \<or> ue_is_ip u ascii then Inl Err_policy
                   else Inr (to_lower (ue_lower u) ascii))"

definition is_loopback_literal_or_name :: "url_env \<Rightarrow> string \<Rightarrow> bool" where
  "is_loopback_literal_or_name u host =
     (if host = ''localhost'' then True
      else case ue_parse_addr u host of None \<Rightarrow> False | Some a \<Rightarrow> is_loopback (unmap a))"

definition parse_destination ::
    "url_env \<Rightarrow> profile \<Rightarrow> bool \<Rightarrow> string \<Rightarrow> policy_error + destination" where
  "parse_destination u p allowHTTP raw =
     (if raw = [] \<or> CHR ''#'' \<in> set raw \<or> has_control raw then Inl Err_policy
      else case ue_parse_uri u raw of
        None \<Rightarrow> Inl Err_policy
      | Some q \<Rightarrow>
          if \<not> pu_abs q \<or> pu_opaque q \<noteq> [] \<or> pu_user q \<or> pu_hostname q = [] \<or> pu_raw_query q \<noteq> []
             \<or> pu_force_query q \<or> pu_fragment q \<noteq> []
          then Inl Err_policy
          else
            let scheme = to_lower (ue_lower u) (pu_scheme q)
            in if scheme \<noteq> ''https'' \<and> \<not> (scheme = ''http'' \<and> p \<noteq> Production \<and> allowHTTP)
               then Inl Err_policy
               else case canonical_host u (pu_hostname q) of
                 Inl e \<Rightarrow> Inl e
               | Inr host \<Rightarrow>
                   (let port0 = (if scheme = ''http'' then 80 else 443);
                        port = (if pu_port q = [] then Some port0
                                else case atoi (pu_port q) of
                                  None \<Rightarrow> None
                                | Some n \<Rightarrow> if n < 1 \<or> n > 65535 then None else Some n)
                    in case port of
                         None \<Rightarrow> Inl Err_policy
                       | Some n \<Rightarrow>
                           if scheme = ''http'' \<and> \<not> is_loopback_literal_or_name u host then Inl Err_policy
                           else
                             let path = (if pu_escaped_path q = [] then ''/'' else pu_escaped_path q)
                             in Inr \<lparr>de_scheme = scheme, de_host = host, de_path = path, de_port = n\<rparr>))"

section \<open>Prefixes are intervals\<close>

lemma drop_bit_eq_iff_div: "drop_bit k (w :: 'a::len word) = drop_bit k p \<longleftrightarrow> unat w div 2 ^ k = unat p div 2 ^ k"
  by (simp only: word_unat_eq_iff unat_drop_bit_eq drop_bit_eq_div [where ?'a = nat])

lemma ip4_bound: "a < 256 \<Longrightarrow> b < 256 \<Longrightarrow> c < 256 \<Longrightarrow> d < 256 \<Longrightarrow>
    ((a * 256 + b) * 256 + c) * 256 + d < (2::nat) ^ 32"
  by simp

lemma unat_ip4:
  assumes "a < 256" "b < 256" "c < 256" "d < 256"
  shows "unat (ip4 a b c d) = ((a * 256 + b) * 256 + c) * 256 + d"
  unfolding ip4_def using ip4_bound [OF assms]
  by (simp only: unat_of_nat take_bit_nat_eq_self len_bit0 len_num1) (simp add: take_bit_nat_eq_self)

lemma octet_div:
  assumes "a < 256" "b < 256" "c < 256" "d < (256::nat)"
  defines "n \<equiv> ((a * 256 + b) * 256 + c) * 256 + d"
  shows "n div 2 ^ 24 = a" "n div 2 ^ 16 = a * 256 + b" "n div 2 ^ 8 = (a * 256 + b) * 256 + c"
    "n div 2 ^ 22 = a * 4 + b div 64" "n div 2 ^ 20 = a * 16 + b div 16"
    "n div 2 ^ 17 = a * 128 + b div 2" "n div 2 ^ 28 = a div 16"
proof -
  show d8: "n div 2 ^ 8 = (a * 256 + b) * 256 + c" using assms(4) unfolding n_def by simp
  have "n div 2 ^ 16 = n div 2 ^ 8 div 2 ^ 8" by (simp add: div_mult2_eq [symmetric])
  also have "\<dots> = a * 256 + b" unfolding d8 using assms(3) by simp
  finally show d16: "n div 2 ^ 16 = a * 256 + b" .
  have e: "n div 2 ^ (16 + k) = (a * 256 + b) div 2 ^ k" for k
    by (simp add: power_add div_mult2_eq d16 [simplified])
  show "n div 2 ^ 24 = a" using e [of 8] assms(2) by simp
  show "n div 2 ^ 22 = a * 4 + b div 64" using e [of 6] by simp
  show "n div 2 ^ 20 = a * 16 + b div 16" using e [of 4] by simp
  show "n div 2 ^ 17 = a * 128 + b div 2" using e [of 1] by simp
  show "n div 2 ^ 28 = a div 16" using e [of 12] assms(2) by simp
qed

text \<open>The public IPv4 addresses, octet by octet: the reference the prefix tables are compared with.\<close>

definition public_ipv4 :: "nat \<Rightarrow> nat \<Rightarrow> nat \<Rightarrow> nat \<Rightarrow> bool" where
  "public_ipv4 a b c d \<longleftrightarrow>
     a \<noteq> 0 \<and> a \<noteq> 10 \<and> a \<noteq> 127 \<and> a < 224
     \<and> \<not> (a = 100 \<and> 64 \<le> b \<and> b < 128)
     \<and> \<not> (a = 169 \<and> b = 254)
     \<and> \<not> (a = 172 \<and> 16 \<le> b \<and> b < 32)
     \<and> \<not> (a = 192 \<and> (b = 168 \<or> b = 0 \<and> (c = 2 \<or> c = 0 \<and> d \<noteq> 9 \<and> d \<noteq> 10) \<or> b = 88 \<and> c = 99))
     \<and> \<not> (a = 198 \<and> (b = 18 \<or> b = 19 \<or> b = 51 \<and> c = 100))
     \<and> \<not> (a = 203 \<and> b = 0 \<and> c = 113)"

lemma contains4_ip4:
  assumes "a < 256" "b < 256" "c < 256" "d < 256"
  shows "contains4 non_global_ipv4 (ip4 a b c d) \<longleftrightarrow>
     a = 0 \<or> a * 4 + b div 64 = 401 \<or> (a * 256 + b) * 256 + c = 12582912
     \<or> (a * 256 + b) * 256 + c = 12582914 \<or> a = 10 \<or> a = 127 \<or> a * 256 + b = 43518
     \<or> a * 16 + b div 16 = 2753 \<or> (a * 256 + b) * 256 + c = 12605539 \<or> a * 256 + b = 49320
     \<or> a * 128 + b div 2 = 25353 \<or> (a * 256 + b) * 256 + c = 12989284
     \<or> (a * 256 + b) * 256 + c = 13303921 \<or> a div 16 = 14 \<or> a div 16 = 15"
  unfolding contains4_def non_global_ipv4_def
  using assms by (simp add: drop_bit_eq_iff_div unat_ip4 octet_div [simplified] del: add_mult_distrib)

lemma digit_eq: "x < 256 \<Longrightarrow> y < 256 \<Longrightarrow> p * 256 + x = q * 256 + y \<longleftrightarrow> p = q \<and> x = (y::nat)"
  by (metis add.commute add_diff_cancel_left' mod_less mod_mult_self1 mult.commute nonzero_mult_div_cancel_left
      zero_neq_numeral)

lemma octets_eq:
  assumes "b < 256" "c < 256" "y < 256" "z < (256::nat)"
  shows "(a * 256 + b) * 256 + c = (x * 256 + y) * 256 + z \<longleftrightarrow> a = x \<and> b = y \<and> c = z"
  using assms by (simp only: digit_eq conj_assoc)

lemma quad_eq:
  assumes "b < 256" "c < 256" "d < 256" "y < 256" "z < 256" "w < (256::nat)"
  shows "((a * 256 + b) * 256 + c) * 256 + d = ((x * 256 + y) * 256 + z) * 256 + w \<longleftrightarrow>
     a = x \<and> b = y \<and> c = z \<and> d = w"
  using assms by (simp only: digit_eq conj_assoc)

lemma contains4_special_ip4:
  assumes "a < 256" "b < 256" "c < 256" "d < 256"
  shows "contains4 global_special_ipv4 (ip4 a b c d) \<longleftrightarrow> a = 192 \<and> b = 0 \<and> c = 0 \<and> (d = 9 \<or> d = 10)"
proof -
  have "contains4 global_special_ipv4 (ip4 a b c d) \<longleftrightarrow>
      ((a * 256 + b) * 256 + c) * 256 + d = 3221225481 \<or> ((a * 256 + b) * 256 + c) * 256 + d = 3221225482"
    unfolding contains4_def global_special_ipv4_def
    using assms by (simp add: word_unat_eq_iff unat_ip4)
  then show ?thesis using quad_eq [of b c d 0 0 9 a 192] quad_eq [of b c d 0 0 10 a 192] assms by auto
qed

lemma is_global_unicast4_ip4:
  assumes "a < 256" "b < 256" "c < 256" "d < 256"
  shows "is_global_unicast4 (ip4 a b c d) \<longleftrightarrow>
     ((a * 256 + b) * 256 + c) * 256 + d \<noteq> 0 \<and> ((a * 256 + b) * 256 + c) * 256 + d \<noteq> 4294967295
     \<and> a \<noteq> 127 \<and> a div 16 \<noteq> 14 \<and> a * 256 + b \<noteq> 43518"
proof -
  have u: "unat (drop_bit k (ip4 a b c d)) = (((a * 256 + b) * 256 + c) * 256 + d) div 2 ^ k" for k
    using assms by (simp only: unat_drop_bit_eq drop_bit_eq_div [where ?'a = nat] unat_ip4)
  show ?thesis
    unfolding is_global_unicast4_def is_multicast4_def is_link_local4_def word_unat_eq_iff u
      octet_div [OF assms] unat_ip4 [OF assms] by simp
qed

lemma is_loopback_ip4:
  assumes "a < 256" "b < 256" "c < 256" "d < 256"
  shows "is_loopback (Addr4 (ip4 a b c d)) \<longleftrightarrow> a = 127"
proof -
  have u: "unat (drop_bit k (ip4 a b c d)) = (((a * 256 + b) * 256 + c) * 256 + d) div 2 ^ k" for k
    using assms by (simp only: unat_drop_bit_eq drop_bit_eq_div [where ?'a = nat] unat_ip4)
  show ?thesis unfolding is_loopback_def addr.case word_unat_eq_iff u octet_div [OF assms] by simp
qed

text \<open>C14. In production the worker may connect to an IPv4 address exactly when it is public: the
  prefix tables together exclude this-network, private, shared, loopback, link-local, documentation,
  benchmarking, 6to4-relay, multicast and reserved space, and the two anycast service addresses of
  192.0.0.0/24 are the only exceptions.\<close>

theorem production_egress_ipv4:
  assumes "a < 256" "b < 256" "c < 256" "d < 256"
  shows "allowed Production (Addr4 (ip4 a b c d)) = public_ipv4 a b c d"
proof -
  have g: "b div 64 = 1 \<longleftrightarrow> 64 \<le> b \<and> b < 128" "b div 16 = 1 \<longleftrightarrow> 16 \<le> b \<and> b < 32"
    "b div 2 = 9 \<longleftrightarrow> b = 18 \<or> b = 19" "b div 64 < 4" "b div 16 < 16" "b div 2 < 128"
    using assms(2) by auto
  have div: "a div 16 = 14 \<or> a div 16 = 15 \<longleftrightarrow> 224 \<le> a" using assms(1) by auto
  have h: "q < 4 \<Longrightarrow> a * 4 + q = 401 \<longleftrightarrow> a = 100 \<and> q = 1"
    "q < 16 \<Longrightarrow> a * 16 + q = 2753 \<longleftrightarrow> a = 172 \<and> q = 1"
    "q < 128 \<Longrightarrow> a * 128 + q = 25353 \<longleftrightarrow> a = 198 \<and> q = 9" for q
    by presburger+
  have net: "a * 4 + b div 64 = 401 \<longleftrightarrow> a = 100 \<and> 64 \<le> b \<and> b < 128"
    "a * 16 + b div 16 = 2753 \<longleftrightarrow> a = 172 \<and> 16 \<le> b \<and> b < 32"
    "a * 128 + b div 2 = 25353 \<longleftrightarrow> a = 198 \<and> (b = 18 \<or> b = 19)"
    unfolding g(1-3) [symmetric] by (rule h g(4-6))+
  have pair: "a * 256 + b = 43518 \<longleftrightarrow> a = 169 \<and> b = 254" "a * 256 + b = 49320 \<longleftrightarrow> a = 192 \<and> b = 168"
    using digit_eq [of b 254 a 169] digit_eq [of b 168 a 192] assms by simp_all
  note triple = octets_eq [OF assms(2,3), of _ _ a]
  have t: "(a * 256 + b) * 256 + c = 12582912 \<longleftrightarrow> a = 192 \<and> b = 0 \<and> c = 0"
    "(a * 256 + b) * 256 + c = 12582914 \<longleftrightarrow> a = 192 \<and> b = 0 \<and> c = 2"
    "(a * 256 + b) * 256 + c = 12605539 \<longleftrightarrow> a = 192 \<and> b = 88 \<and> c = 99"
    "(a * 256 + b) * 256 + c = 12989284 \<longleftrightarrow> a = 198 \<and> b = 51 \<and> c = 100"
    "(a * 256 + b) * 256 + c = 13303921 \<longleftrightarrow> a = 203 \<and> b = 0 \<and> c = 113"
    using triple [of 0 0 192] triple [of 0 2 192] triple [of 88 99 192] triple [of 51 100 198]
      triple [of 0 113 203] by simp_all
  have quad: "((a * 256 + b) * 256 + c) * 256 + d = 0 \<longrightarrow> a = 0"
    "((a * 256 + b) * 256 + c) * 256 + d = 4294967295 \<longrightarrow> 224 \<le> a"
    using quad_eq [OF assms(2-4), of 255 255 255 a 255] by simp_all
  have mc: "a div 16 = 14 \<longrightarrow> 224 \<le> a" by presburger
  have "allowed Production (Addr4 (ip4 a b c d)) \<longleftrightarrow>
      a \<noteq> 127 \<and> is_global_unicast4 (ip4 a b c d)
      \<and> (contains4 global_special_ipv4 (ip4 a b c d) \<or> \<not> contains4 non_global_ipv4 (ip4 a b c d))"
    using is_loopback_ip4 [OF assms] by (cases "a = 127") (simp_all add: allowed_def is_4in6_def unmap_def)
  then have e: "allowed Production (Addr4 (ip4 a b c d)) \<longleftrightarrow>
      a \<noteq> 0 \<and> a < 224 \<and> a \<noteq> 127 \<and> \<not> (a = 169 \<and> b = 254)
      \<and> (a = 192 \<and> b = 0 \<and> c = 0 \<and> (d = 9 \<or> d = 10)
          \<or> \<not> (a = 100 \<and> 64 \<le> b \<and> b < 128 \<or> a = 192 \<and> b = 0 \<and> c = 0 \<or> a = 192 \<and> b = 0 \<and> c = 2
             \<or> a = 10 \<or> a = 172 \<and> 16 \<le> b \<and> b < 32 \<or> a = 192 \<and> b = 88 \<and> c = 99
             \<or> a = 192 \<and> b = 168 \<or> a = 198 \<and> (b = 18 \<or> b = 19) \<or> a = 198 \<and> b = 51 \<and> c = 100
             \<or> a = 203 \<and> b = 0 \<and> c = 113))"
    unfolding contains4_ip4 [OF assms] contains4_special_ip4 [OF assms]
      is_global_unicast4_ip4 [OF assms] div net pair t
    using quad mc by (cases "a = 0"; cases "224 \<le> a"; cases "a = 192"; simp add: not_le) blast
  show ?thesis unfolding e public_ipv4_def
    by (cases "a = 192"; cases "b = 0"; cases "c = 0"; simp) auto
qed

lemma production_egress_ipv4_witness:
  "allowed Production (Addr4 (ip4 8 8 8 8)) \<and> \<not> allowed Production (Addr4 (ip4 192 168 0 1))"
  using production_egress_ipv4 [of 8 8 8 8] production_egress_ipv4 [of 192 168 0 1]
  by (simp add: public_ipv4_def)

text \<open>An IPv6 prefix is the interval of the addresses between its first and its last.\<close>

definition prefix6_low :: "prefix6 \<Rightarrow> nat" where
  "prefix6_low q = unat (fst q) div 2 ^ (128 - snd q) * 2 ^ (128 - snd q)"

definition prefix6_high :: "prefix6 \<Rightarrow> nat" where
  "prefix6_high q = prefix6_low q + 2 ^ (128 - snd q)"

lemma prefix6_interval:
  assumes "drop_bit (128 - n) w = drop_bit (128 - n) p"
  shows "prefix6_low (p, n) \<le> unat w" "unat w < prefix6_high (p, n)"
proof -
  let ?s = "2 ^ (128 - n) :: nat"
  have e: "unat p div ?s = unat w div ?s" using assms by (simp only: drop_bit_eq_iff_div)
  have l: "unat w div ?s * ?s + unat w mod ?s = unat w" by (rule div_mult_mod_eq)
  have m: "unat w mod ?s < ?s" by simp
  show "prefix6_low (p, n) \<le> unat w" unfolding prefix6_low_def fst_conv snd_conv e using l by linarith
  show "unat w < prefix6_high (p, n)"
    unfolding prefix6_high_def prefix6_low_def fst_conv snd_conv e using l m by linarith
qed

definition within6 :: "nat \<Rightarrow> nat \<Rightarrow> prefix6 list \<Rightarrow> bool" where
  "within6 lo hi ps = list_all (\<lambda>q. lo \<le> prefix6_low q \<and> prefix6_high q \<le> hi) ps"

lemma contains6_within:
  assumes "contains6 ps (Addr6 w z)" "within6 lo hi ps"
  shows "z = []" "lo \<le> unat w" "unat w < hi"
proof -
  obtain p n where q: "(p, n) \<in> set ps" "drop_bit (128 - n) w = drop_bit (128 - n) p" and z: "z = []"
    using assms(1) by (auto simp: contains6_def list_ex_iff)
  show "z = []" by (rule z)
  have "lo \<le> prefix6_low (p, n)" "prefix6_high (p, n) \<le> hi"
    using assms(2) q(1) by (auto simp: within6_def list_all_iff)
  then show "lo \<le> unat w" "unat w < hi" using prefix6_interval [OF q(2)] by linarith+
qed

lemma allocated_ipv6_within: "within6 (0x2001 * 2 ^ 112) (0x2c10 * 2 ^ 112) allocated_ipv6"
  by (simp add: within6_def allocated_ipv6_def prefix6_low_def prefix6_high_def ip6_def)

lemma global_special_ipv6_within: "within6 (0x20010001 * 2 ^ 96) (0x20010040 * 2 ^ 96) global_special_ipv6"
  by (simp add: within6_def global_special_ipv6_def prefix6_low_def prefix6_high_def ip6_def)

lemma contains6_iff:
  "contains6 ps (Addr6 w z) \<longleftrightarrow> z = [] \<and> (\<exists>q\<in>set ps. drop_bit (128 - snd q) w = drop_bit (128 - snd q) (fst q))"
  by (force simp: contains6_def list_ex_iff case_prod_unfold)

lemma allowed_ipv6_iff:
  "allowed Production (Addr6 w z) \<longleftrightarrow>
     drop_bit 32 w \<noteq> 0xffff \<and> w \<noteq> 1 \<and> contains6 allocated_ipv6 (Addr6 w z)
     \<and> (contains6 global_special_ipv6 (Addr6 w z) \<or> \<not> contains6 non_global_ipv6 (Addr6 w z))"
  by (auto simp: allowed_def is_4in6_def unmap_def is_loopback_def Let_def)

lemma special_block_cases:
  assumes "contains6 global_special_ipv6 (Addr6 w z) \<or> \<not> contains6 non_global_ipv6 (Addr6 w z)" "z = []"
  shows "unat w \<in> {0x20010001 * 2 ^ 96 ..< 0x20010040 * 2 ^ 96} \<or>
    drop_bit 105 w \<noteq> drop_bit 105 (ip6 [0x2001]) \<and> drop_bit 96 w \<noteq> drop_bit 96 (ip6 [0x2001, 0xdb8])
    \<and> drop_bit 112 w \<noteq> drop_bit 112 (ip6 [0x2002]) \<and> drop_bit 108 w \<noteq> drop_bit 108 (ip6 [0x3fff])"
  using assms contains6_within [OF _ global_special_ipv6_within, of w z]
  by (auto simp: contains6_iff non_global_ipv6_def)

text \<open>In production an IPv6 destination the worker may connect to has no zone and lies in allocated
  global unicast space: it is at or above 2001:: and below 2c10::, so it is never loopback, mapped,
  unique-local, link-local or multicast; it is no 6to4 address and in no documentation prefix, and
  below 2001:200:: it is in one of the special blocks that are globally reachable.\<close>

theorem production_egress_ipv6:
  assumes "allowed Production (Addr6 w z)"
  shows "z = [] \<and> 0x2001 * 2 ^ 112 \<le> unat w \<and> unat w < 0x2c10 * 2 ^ 112
    \<and> unat w div 2 ^ 112 \<noteq> 0x2002 \<and> unat w div 2 ^ 96 \<noteq> 0x20010db8
    \<and> (unat w < 0x20010200 * 2 ^ 96 \<longrightarrow> 0x20010001 * 2 ^ 96 \<le> unat w \<and> unat w < 0x20010040 * 2 ^ 96)"
proof -
  from assms have a: "contains6 allocated_ipv6 (Addr6 w z)"
    "contains6 global_special_ipv6 (Addr6 w z) \<or> \<not> contains6 non_global_ipv6 (Addr6 w z)"
    by (simp_all add: allowed_ipv6_iff)
  note r = contains6_within [OF a(1) allocated_ipv6_within]
  have "unat w \<in> {0x20010001 * 2 ^ 96 ..< 0x20010040 * 2 ^ 96} \<or>
      unat w div 2 ^ 105 \<noteq> 0x2001 * 2 ^ 7 \<and> unat w div 2 ^ 96 \<noteq> 0x20010db8 \<and> unat w div 2 ^ 112 \<noteq> 0x2002"
    using special_block_cases [OF a(2) r(1)] unfolding drop_bit_eq_iff_div by (auto simp: ip6_def)
  moreover have "unat w div 2 ^ 105 = 0x2001 * 2 ^ 7"
    if "unat w < 0x20010200 * 2 ^ 96" using that r(2) by (simp add: div_nat_eqI)
  ultimately show ?thesis using r by auto
qed

lemma production_egress_ipv6_witness:
  "allowed Production (Addr6 (ip6 [0x2606, 0x4700]) []) \<and> unat (ip6 [0x2606, 0x4700]) < 0x2c10 * 2 ^ 112"
proof -
  have a: "allowed Production (Addr6 (ip6 [0x2606, 0x4700]) [])"
    by (simp add: allowed_ipv6_iff contains6_def allocated_ipv6_def global_special_ipv6_def
        non_global_ipv6_def ip6_def drop_bit_eq_iff_div)
  with production_egress_ipv6 [OF a] show ?thesis by blast
qed

section \<open>Dialing\<close>

lemma unmap_id [simp]: "\<not> is_4in6 a \<Longrightarrow> unmap a = a"
  by (auto simp: unmap_def split: addr.split)

lemma allowed_not_mapped: "allowed p a \<Longrightarrow> \<not> is_4in6 a"
  by (auto simp: allowed_def split: if_splits)

lemma resolve_addrs_Inr:
  "resolve_addrs p result as = Inr out \<Longrightarrow>
     (\<forall>a\<in>set as. allowed p a) \<and> set out = set result \<union> set as \<and> (distinct result \<longrightarrow> distinct out)"
  by (induction p result as rule: resolve_addrs.induct) (auto simp: Let_def split: if_splits)

lemma resolve_addrs_Inl: "resolve_addrs p result as = Inl e \<Longrightarrow> e = Err_policy"
  by (induction p result as rule: resolve_addrs.induct) (auto simp: Let_def split: if_splits)

lemma resolve_Inl: "resolve pa lookup p h = Inl e \<Longrightarrow> e = Err_policy"
  by (auto simp: resolve_def split: option.splits if_splits dest: resolve_addrs_Inl)

lemma resolve_Inr:
  assumes "resolve pa lookup p h = Inr out"
  shows "(\<forall>a\<in>set out. allowed p a) \<and> distinct out \<and> out \<noteq> []"
proof (cases "pa h")
  case (Some a)
  with assms have "allowed p a" "out = [unmap a]" by (auto simp: resolve_def split: if_splits)
  with allowed_not_mapped [of p a] show ?thesis by simp
next
  case None
  with assms obtain as where "lookup h = Some as" "as \<noteq> []" "resolve_addrs p [] as = Inr out"
    by (auto simp: resolve_def split: option.splits if_splits)
  with resolve_addrs_Inr [of p "[]" as out] show ?thesis by auto
qed

lemma dial_first_spec:
  "dial_first dial as = (r, tried) \<Longrightarrow> \<exists>rest. as = tried @ rest
     \<and> (case r of None \<Rightarrow> rest = [] \<and> (\<forall>a\<in>set as. \<not> dial a)
        | Some a \<Rightarrow> \<exists>before. tried = before @ [a] \<and> dial a \<and> (\<forall>b\<in>set before. \<not> dial b))"
proof (induction as arbitrary: r tried)
  case (Cons a as)
  show ?case
  proof (cases "dial a")
    case False
    obtain r' t' where d: "dial_first dial as = (r', t')" by fastforce
    with False Cons.prems have e: "r = r'" "tried = a # t'" by auto
    from Cons.IH [OF d] False show ?thesis unfolding e
      by (fastforce simp: Cons_eq_append_conv split: option.splits)
  qed (use Cons.prems in auto)
qed auto

text \<open>C15. The dialer connects only to addresses the policy allowed in the same call, each at most once,
  and returns the connection of the last one it tried. A name with a single refused address among
  its answers is refused as a whole, before anything is dialled.\<close>

theorem dial_only_allowed:
  assumes "dial_context parse_addr lookup dial p host = (r, tried)"
  shows "(\<forall>a\<in>set tried. allowed p a) \<and> distinct tried
    \<and> (case r of Inr a \<Rightarrow> (\<exists>before. tried = before @ [a] \<and> dial a \<and> (\<forall>b\<in>set before. \<not> dial b))
       | Inl e \<Rightarrow> (\<forall>b\<in>set tried. \<not> dial b) \<and> (e = Err_policy \<longleftrightarrow> tried = []))
    \<and> (\<forall>h as a. host = Some h \<longrightarrow> parse_addr h = None \<longrightarrow> lookup h = Some as \<longrightarrow> a \<in> set as
         \<longrightarrow> \<not> allowed p a \<longrightarrow> r = Inl Err_policy \<and> tried = [])"
proof (cases host)
  case None
  with assms show ?thesis by (auto simp: dial_context_def)
next
  case (Some h)
  show ?thesis
  proof (cases "resolve parse_addr lookup p h")
    case (Inl e)
    with assms Some resolve_Inl [OF Inl] show ?thesis by (auto simp: dial_context_def)
  next
    case (Inr out)
    obtain r' t' where d: "dial_first dial out = (r', t')" by fastforce
    with assms Some Inr have e: "tried = t'" "r = (case r' of None \<Rightarrow> Inl Err_dial | Some a \<Rightarrow> Inr a)"
      by (auto simp: dial_context_def split: option.splits)
    have "\<forall>a\<in>set as. allowed p a" if "parse_addr h = None" "lookup h = Some as" for as
      using Inr that resolve_addrs_Inr [of p "[]" as out] by (auto simp: resolve_def split: if_splits)
    then show ?thesis using dial_first_spec [OF d] resolve_Inr [OF Inr] Some unfolding e
      by (auto split: option.splits)
  qed
qed

lemma dial_only_allowed_witness:
  "dial_context (\<lambda>_. None) (\<lambda>_. Some [Addr4 (ip4 8 8 8 8), Addr4 (ip4 10 0 0 1)]) (\<lambda>_. True) Production
     (Some ''example.com'') = (Inl Err_policy, [])"
proof -
  have "\<not> allowed Production (Addr4 (ip4 10 0 0 1))"
    by (simp add: allowed_def is_4in6_def unmap_def is_loopback_ip4 contains4_ip4 contains4_special_ip4)
  moreover obtain r tried where d: "dial_context (\<lambda>_. None) (\<lambda>_. Some [Addr4 (ip4 8 8 8 8), Addr4 (ip4 10 0 0 1)])
      (\<lambda>_. True) Production (Some ''example.com'') = (r, tried)" by fastforce
  ultimately have "r = Inl Err_policy \<and> tried = []"
    using dial_only_allowed [OF d] by (metis list.set_intros)
  with d show ?thesis by simp
qed

section \<open>What is parsed\<close>

lemma canonical_host_Inr:
  assumes "canonical_host u raw = Inr h"
  shows "(\<exists>v a. ue_parse_addr u v = Some a \<and> addr_zone a = [] \<and> \<not> is_4in6 a \<and> h = ue_addr_string u a)
    \<or> (\<exists>v ascii. ue_parse_addr u v = None \<and> ue_idna u v = Some ascii \<and> ascii \<noteq> [] \<and> length ascii \<le> 253
         \<and> \<not> ue_is_ip u ascii \<and> h = to_lower (ue_lower u) ascii \<and> \<not> list_all (\<lambda>c. is_digit c \<or> c = CHR ''.'') v)"
  using assms by (force simp: canonical_host_def Let_def split: if_splits option.splits)

text \<open>C16. A destination that parses is https, or http to a loopback name outside production where that is
  enabled; its port lies in 1..65535, its path is not empty, the text has no fragment and no control
  character, and its host is either the canonical text of an address without zone that is not a mapped
  one, or a name the IDNA profile accepts, of at most 253 bytes, that is no address in another guise.\<close>

theorem parse_destination_sound:
  assumes "parse_destination u p allowHTTP raw = Inr d"
  shows "(de_scheme d = ''https'' \<or> de_scheme d = ''http'' \<and> p \<noteq> Production \<and> allowHTTP
            \<and> is_loopback_literal_or_name u (de_host d))
    \<and> 1 \<le> de_port d \<and> de_port d \<le> 65535 \<and> de_path d \<noteq> [] \<and> CHR ''#'' \<notin> set raw \<and> \<not> has_control raw
    \<and> ((\<exists>a. addr_zone a = [] \<and> \<not> is_4in6 a \<and> de_host d = ue_addr_string u a)
       \<or> (\<exists>v ascii. ue_idna u v = Some ascii \<and> ascii \<noteq> [] \<and> length ascii \<le> 253 \<and> \<not> ue_is_ip u ascii
            \<and> de_host d = to_lower (ue_lower u) ascii))"
proof -
  from assms obtain q where q: "ue_parse_uri u raw = Some q" "CHR ''#'' \<notin> set raw" "\<not> has_control raw"
    by (auto simp: parse_destination_def split: if_splits option.splits)
  from assms q obtain host where h: "canonical_host u (pu_hostname q) = Inr host"
    by (auto simp: parse_destination_def Let_def split: if_splits option.splits sum.splits)
  from assms q(1) h have "(de_scheme d = ''https'' \<or> de_scheme d = ''http'' \<and> p \<noteq> Production \<and> allowHTTP
            \<and> is_loopback_literal_or_name u (de_host d))
    \<and> 1 \<le> de_port d \<and> de_port d \<le> 65535 \<and> de_path d \<noteq> [] \<and> de_host d = host"
    by (auto simp: parse_destination_def Let_def split: if_splits option.splits)
  moreover from canonical_host_Inr [OF h]
  have "(\<exists>a. addr_zone a = [] \<and> \<not> is_4in6 a \<and> host = ue_addr_string u a)
       \<or> (\<exists>v ascii. ue_idna u v = Some ascii \<and> ascii \<noteq> [] \<and> length ascii \<le> 253 \<and> \<not> ue_is_ip u ascii
            \<and> host = to_lower (ue_lower u) ascii)" by blast
  ultimately show ?thesis using q(2,3) by blast
qed

definition demo_url_env :: url_env where
  "demo_url_env = \<lparr>
     ue_parse_uri = (\<lambda>r. if r = ''https://a.example/h''
        then Some \<lparr>pu_abs = True, pu_scheme = ''https'', pu_opaque = [], pu_user = False, pu_hostname = ''a.example'',
               pu_port = [], pu_raw_query = [], pu_force_query = False, pu_fragment = [],
               pu_escaped_path = ''/h''\<rparr>
        else None),
     ue_parse_addr = (\<lambda>_. None), ue_addr_string = (\<lambda>_. ''''), ue_is_ip = (\<lambda>_. False),
     ue_idna = (\<lambda>s. Some s), ue_lower = id\<rparr>"

lemma parse_destination_sound_witness:
  "\<exists>d. parse_destination demo_url_env Production False ''https://a.example/h'' = Inr d
     \<and> de_scheme d = ''https'' \<and> de_port d \<le> 65535"
proof -
  have "parse_destination demo_url_env Production False ''https://a.example/h''
      = Inr \<lparr>de_scheme = ''https'', de_host = ''a.example'', de_path = ''/h'', de_port = 443\<rparr>"
    by (simp add: parse_destination_def demo_url_env_def canonical_host_def to_lower_def has_control_def
        has_prefix_def trim_suffix_def has_suffix_def is_digit_def ascii_lower_def)
  with parse_destination_sound show ?thesis by fast
qed

end
