(* ===== verification/Deliver.thy ===== *)
theory Deliver
  imports Scheduler Signing Outbound
begin

text \<open>
  One delivery attempt of the worker: \<open>internal/delivery/delivery.go\<close>, \<open>outbound.go\<close> and
  \<open>claim_crypto.go\<close>. The HTTP client, the URL parser, the request constructor, the trace propagator,
  \<open>uuid.UUID.String\<close> and the readings of the clock are fields of \<open>worker_env\<close>. Observers only receive
  signals and are left out.
\<close>

section \<open>Options of a runner\<close>

record runner_options =
  ro_poll :: duration
  ro_claim_timeout :: duration
  ro_request_timeout :: duration
  ro_lease_ttl :: duration
  ro_shutdown :: duration
  ro_concurrency :: int
  ro_batch_size :: int
  ro_workspace_limit :: int
  ro_endpoint_limit :: int
  ro_retry :: retry_policy
  ro_poll_jitter :: "(duration \<Rightarrow> duration) option"

record worker =
  wk_materials :: materials
  wk_profile :: profile
  wk_allow_http :: bool
  wk_id :: uuid
  wk_poll :: poll_policy
  wk_claim_timeout :: duration
  wk_request_timeout :: duration
  wk_lease_ttl :: duration
  wk_shutdown :: duration
  wk_concurrency :: int
  wk_batch_size :: int
  wk_workspace_limit :: int
  wk_endpoint_limit :: int
  wk_retry :: retry_policy

definition merge_runner_options :: "runner_options \<Rightarrow> runner_options \<Rightarrow> runner_options" where
  "merge_runner_options target override =
     \<lparr>ro_poll = (if ro_poll override > 0 then ro_poll override else ro_poll target),
      ro_claim_timeout = (if ro_claim_timeout override > 0 then ro_claim_timeout override
                          else ro_claim_timeout target),
      ro_request_timeout = (if ro_request_timeout override > 0 then ro_request_timeout override
                            else ro_request_timeout target),
      ro_lease_ttl = (if ro_lease_ttl override > 0 then ro_lease_ttl override else ro_lease_ttl target),
      ro_shutdown = (if ro_shutdown override > 0 then ro_shutdown override else ro_shutdown target),
      ro_concurrency = (if ro_concurrency override > 0 then ro_concurrency override else ro_concurrency target),
      ro_batch_size = (if ro_batch_size override > 0 then ro_batch_size override else ro_batch_size target),
      ro_workspace_limit = (if ro_workspace_limit override > 0 then ro_workspace_limit override
                            else ro_workspace_limit target),
      ro_endpoint_limit = (if ro_endpoint_limit override > 0 then ro_endpoint_limit override
                           else ro_endpoint_limit target),
      ro_retry = (if rp_base (ro_retry override) > 0 then ro_retry override else ro_retry target),
      ro_poll_jitter = ro_poll_jitter target\<rparr>"

definition default_runner_options :: "(int \<Rightarrow> int) \<Rightarrow> runner_options" where
  "default_runner_options rnd =
     \<lparr>ro_poll = 250 * millisecond, ro_claim_timeout = 200 * millisecond, ro_request_timeout = 10 * second,
      ro_lease_ttl = 30 * second, ro_shutdown = 30 * second, ro_concurrency = 8, ro_batch_size = 8,
      ro_workspace_limit = 2, ro_endpoint_limit = 2, ro_retry = default_retry_policy rnd,
      ro_poll_jitter = None\<rparr>"

definition new_runner_with_options ::
    "(int \<Rightarrow> int) \<Rightarrow> materials \<Rightarrow> profile \<Rightarrow> bool \<Rightarrow> uuid \<Rightarrow> runner_options \<Rightarrow> worker" where
  "new_runner_with_options rnd m p allowHTTP workerID opts =
     (let d0 = merge_runner_options (default_runner_options rnd) opts;
          d = (if ro_shutdown d0 > 30 * second then d0\<lparr>ro_shutdown := 30 * second\<rparr> else d0)
      in \<lparr>wk_materials = m, wk_profile = p, wk_allow_http = allowHTTP, wk_id = workerID,
          wk_poll = default_poll_policy rnd (ro_poll d) (ro_poll_jitter opts),
          wk_claim_timeout = ro_claim_timeout d, wk_request_timeout = ro_request_timeout d,
          wk_lease_ttl = ro_lease_ttl d, wk_shutdown = ro_shutdown d,
          wk_concurrency = ro_concurrency d, wk_batch_size = ro_batch_size d,
          wk_workspace_limit = ro_workspace_limit d, wk_endpoint_limit = ro_endpoint_limit d,
          wk_retry = ro_retry d\<rparr>)"

text \<open>The part of a runner that the loop of the scheduler reads.\<close>

definition loop_of :: "worker \<Rightarrow> runner" where
  "loop_of w = \<lparr>rn_poll = wk_poll w, rn_concurrency = wk_concurrency w, rn_batch_size = wk_batch_size w,
                rn_shutdown = wk_shutdown w\<rparr>"

definition runner_claim_request :: "worker \<Rightarrow> int \<Rightarrow> claim_request" where
  "runner_claim_request w limit =
     \<lparr>rr_worker = wk_id w, rr_lease_ttl = wk_lease_ttl w, rr_limit = limit,
      rr_workspace_limit = min (wk_workspace_limit w) limit,
      rr_endpoint_limit = min (wk_endpoint_limit w) limit\<rparr>"

section \<open>Opening a claim\<close>

type_synonym uuid_text = "uuid \<Rightarrow> string"

record opened_claim =
  oc_path :: bytes
  oc_payload :: bytes
  oc_secret :: bytes
  oc_retiring :: bytes

definition target_aad :: "uuid_text \<Rightarrow> claim \<Rightarrow> bytes" where
  "target_aad us c =
     (if env_format (cl_target c) = legacy_format_version
      then aad [''1'', us (cl_ws c), us (cl_endpoint c), cl_scheme c, cl_host c, format_int (cl_port c)]
      else aad [''2'', us (cl_ws c), ''endpoint_target'', us (cl_endpoint c), cl_scheme c, cl_host c,
                format_int (cl_port c)])"

definition payload_aad :: "uuid_text \<Rightarrow> claim \<Rightarrow> bytes" where
  "payload_aad us c =
     (if env_format (cl_payload c) = legacy_format_version
      then aad [''1'', us (cl_ws c), us (cl_event c), cl_event_type c]
      else aad [''2'', us (cl_ws c), ''event_payload'', us (cl_event c), cl_event_type c])"

definition secret_envelope_aad :: "uuid_text \<Rightarrow> int \<Rightarrow> uuid \<Rightarrow> uuid \<Rightarrow> uuid \<Rightarrow> string \<Rightarrow> bytes" where
  "secret_envelope_aad us version ws endpoint secret keyID =
     (if version = legacy_format_version
      then aad [''1'', us ws, us endpoint, us secret, keyID]
      else aad [''2'', us ws, ''signing_secret'', us endpoint, us secret, keyID])"

definition secret_aad :: "uuid_text \<Rightarrow> claim \<Rightarrow> bytes" where
  "secret_aad us c =
     secret_envelope_aad us (env_format (cl_secret c)) (cl_ws c) (cl_endpoint c) (cl_secret_id c) (cl_key_id c)"

definition open_claim :: "uuid_text \<Rightarrow> materials \<Rightarrow> claim \<Rightarrow> string + opened_claim" where
  "open_claim us m c =
     (case open_envelope (m_signing m) (cl_target c) (target_aad us c) of
        Inl _ \<Rightarrow> Inl ''decrypt_target''
      | Inr path \<Rightarrow>
     (case open_envelope (m_payload m) (cl_payload c) (payload_aad us c) of
        Inl _ \<Rightarrow> Inl ''decrypt_payload''
      | Inr payload \<Rightarrow>
     (case open_envelope (m_signing m) (cl_secret c) (secret_aad us c) of
        Inl _ \<Rightarrow> Inl ''decrypt_secret''
      | Inr secret \<Rightarrow>
     (case cl_retiring c of
        None \<Rightarrow> Inr \<lparr>oc_path = path, oc_payload = payload, oc_secret = secret, oc_retiring = []\<rparr>
      | Some r \<Rightarrow>
     (case open_envelope (m_signing m) (cs_envelope r)
             (secret_envelope_aad us (env_format (cs_envelope r)) (cl_ws c) (cl_endpoint c)
                (cs_version_id r) (cs_key_id r)) of
        Inl _ \<Rightarrow> Inl ''decrypt_secret''
      | Inr retiring \<Rightarrow>
          Inr \<lparr>oc_path = path, oc_payload = payload, oc_secret = secret, oc_retiring = retiring\<rparr>)))))"

section \<open>The request\<close>

text \<open>
  Header names stand for their canonical form (\<open>http.Header.Set\<close> and \<open>Get\<close> canonicalise both sides).
\<close>

record http_request =
  hq_target :: string
  hq_header :: "string \<rightharpoonup> string"
  hq_body :: bytes

text \<open>
  How \<open>Client.Do\<close> fails: the tests \<open>execute\<close> makes on the error (an error may pass several), and the
  status of the response that accompanies it. A response's body is a number of bytes that are
  followed by the end of the stream or by a read error.
\<close>

record client_error =
  ce_redirect :: bool
  ce_policy :: bool
  ce_deadline :: bool
  ce_canceled :: bool
  ce_net_timeout :: bool
  ce_status :: "int option"

record http_response =
  hr_status :: int
  hr_body_length :: nat
  hr_body_fails :: bool
  hr_retry_after :: string

record worker_env =
  we_client :: "http_request \<Rightarrow> client_error + http_response"
  we_parse_uri :: "string \<Rightarrow> bool"
  we_new_request :: "string \<Rightarrow> bool"
  we_inject :: "(string \<rightharpoonup> string) \<Rightarrow> (string \<rightharpoonup> string)"
  we_uuid :: uuid_text
  we_parse_addr :: "string \<Rightarrow> addr option"
  we_parse_time :: "string \<Rightarrow> instant option"
  we_rnd :: "int \<Rightarrow> int"
  we_started :: instant
  we_signed :: instant
  we_answered :: instant
  we_finished :: instant

definition elapsed :: "instant \<Rightarrow> instant \<Rightarrow> int" where
  "elapsed start fin =
     (let v = go_div (time_sub fin start) millisecond
      in if v < 0 then 0 else if v > max_int64 then max_int64 else v)"

definition retry_result :: "int option \<Rightarrow> string \<Rightarrow> duration \<Rightarrow> delivery_result" where
  "retry_result status category serverDelay =
     \<lparr>re_disposition = ''retry'', re_http = status, re_duration = 0, re_category = category,
      re_retry_after = serverDelay\<rparr>"

definition permanent_result :: "int option \<Rightarrow> int \<Rightarrow> string \<Rightarrow> delivery_result" where
  "permanent_result status dur category =
     \<lparr>re_disposition = ''permanent_failure'', re_http = status, re_duration = dur, re_category = category,
      re_retry_after = 0\<rparr>"

definition destination_policy :: "worker \<Rightarrow> claim \<Rightarrow> string" where
  "destination_policy w c =
     (if cl_scheme c = ''http'' \<and> \<not> wk_allow_http w then ''http_destination_disabled''
      else if cl_scheme c \<noteq> ''https'' \<and> cl_scheme c \<noteq> ''http'' then ''ssrf_policy''
      else if cl_scheme c = ''http'' \<and> wk_profile w = Production then ''ssrf_policy''
      else '''')"

definition target_url :: "worker_env \<Rightarrow> claim \<Rightarrow> bytes \<Rightarrow> string + string" where
  "target_url e c path =
     (let target = cl_scheme c @ ''://'' @ authority (we_parse_addr e) (cl_host c) (cl_port c) (cl_scheme c) @ path
      in if we_parse_uri e target then Inr target else Inl ''invalid_target'')"

definition build_request :: "worker_env \<Rightarrow> string \<Rightarrow> claim \<Rightarrow> opened_claim \<Rightarrow> string + http_request" where
  "build_request e target c opened =
     (if \<not> we_new_request e target then Inl ''request_build''
      else
        let timestamp = time_unix (we_signed e);
            event = we_uuid e (cl_event c);
            delivery = we_uuid e (cl_delivery c);
            values0 = [header_value (cl_key_id c)
                         (sign (oc_secret opened) timestamp event delivery (cl_key_id c) (oc_payload opened))];
            values = (case cl_retiring c of
                        None \<Rightarrow> values0
                      | Some r \<Rightarrow> values0 @ [header_value (cs_key_id r)
                          (sign (oc_retiring opened) timestamp event delivery (cs_key_id r) (oc_payload opened))])
        in Inr \<lparr>hq_target = target,
                hq_header = we_inject e
                  [''Content-Type'' \<mapsto> ''application/json'', ''WDE-Signature-Version'' \<mapsto> ''v1'',
                   ''WDE-Timestamp'' \<mapsto> format_int timestamp, ''WDE-Event-ID'' \<mapsto> event,
                   ''WDE-Delivery-ID'' \<mapsto> delivery, ''WDE-Signature'' \<mapsto> join_with '';'' values],
                hq_body = oc_payload opened\<rparr>)"

section \<open>The exchange\<close>

definition retryable_status :: "int \<Rightarrow> bool" where
  "retryable_status status \<longleftrightarrow>
     status = 408 \<or> status = 425 \<or> status = 429 \<or> status \<ge> 500 \<and> status \<le> 599"

definition execute :: "worker_env \<Rightarrow> worker \<Rightarrow> http_request \<Rightarrow> delivery_result" where
  "execute e w request =
     (case we_client e request of
        Inl err \<Rightarrow>
          if ce_redirect err then permanent_result (map_option wrap16 (ce_status err)) 0 ''redirect''
          else if ce_policy err then permanent_result None 0 ''ssrf_policy''
          else if ce_deadline err then retry_result None ''timeout'' 0
          else if ce_canceled err then retry_result None ''cancelled'' 0
          else if ce_net_timeout err then retry_result None ''timeout'' 0
          else retry_result None ''network'' 0
      | Inr r \<Rightarrow>
          let limit = 65536 + 1;
              read = min (hr_body_length r) limit
          in if hr_body_fails r \<and> hr_body_length r < limit then retry_result None ''response_read'' 0
             else if read > 65536 then permanent_result None 0 ''response_too_large''
             else if hr_status r < 100 \<or> hr_status r > 599 then permanent_result None 0 ''invalid_http_status''
             else
               let status = Some (wrap16 (hr_status r))
               in if hr_status r \<ge> 200 \<and> hr_status r < 300
                  then \<lparr>re_disposition = ''success'', re_http = status, re_duration = 0, re_category = '''',
                        re_retry_after = 0\<rparr>
                  else if retryable_status (hr_status r)
                  then retry_result status ''http_retryable''
                         (retry_after (we_parse_time e) (hr_retry_after r) (we_answered e) (rp_cap (wk_retry w)))
                  else permanent_result status 0 ''http_permanent'')"

definition deliver :: "worker_env \<Rightarrow> worker \<Rightarrow> claim \<Rightarrow> delivery_result" where
  "deliver e w c =
     (let category = destination_policy w c
      in if category \<noteq> '''' then permanent_result None 0 category
         else
     (let ms = elapsed (we_started e) (we_finished e)
      in case open_claim (we_uuid e) (wk_materials w) c of
           Inl category \<Rightarrow> permanent_result None ms category
         | Inr opened \<Rightarrow>
     (case target_url e c (oc_path opened) of
        Inl category \<Rightarrow> permanent_result None ms category
      | Inr target \<Rightarrow>
     (case build_request e target c opened of
        Inl category \<Rightarrow> permanent_result None ms category
      | Inr request \<Rightarrow> (execute e w request)\<lparr>re_duration := ms\<rparr>))))"

definition process_claim ::
    "worker_env \<Rightarrow> worker \<Rightarrow> (nat \<Rightarrow> instant) \<Rightarrow> claim \<Rightarrow> db \<Rightarrow> store_error + (bool \<times> db)" where
  "process_claim e w clk c s =
     (let result0 = deliver e w c;
          result = (if re_disposition result0 = ''retry''
                    then result0\<lparr>re_retry_after :=
                           retry_delay (we_rnd e) (wk_retry w) (cl_attempt c) (re_retry_after result0)\<rparr>
                    else result0)
      in store_finalize c (wk_id w) result clk s)"

text \<open>\<open>ProcessOne\<close>: the claim and the delivery are two transactions; the flag says whether one was claimed.\<close>

definition process_one ::
    "worker_env \<Rightarrow> worker \<Rightarrow> (nat \<Rightarrow> uuid option) \<Rightarrow> instant \<Rightarrow> (nat \<Rightarrow> nat \<Rightarrow> instant) \<Rightarrow> (nat \<Rightarrow> uuid \<Rightarrow> bool)
      \<Rightarrow> (nat \<Rightarrow> instant) \<Rightarrow> db \<Rightarrow> bool \<times> store_error option \<times> db" where
  "process_one e w new st clk locked fin s =
     (case claim_batch new st clk locked (runner_claim_request w 1) s of
        Inl err \<Rightarrow> (False, Some err, s)
      | Inr ([], s1) \<Rightarrow> (False, None, s1)
      | Inr (c # cs, s1) \<Rightarrow>
          (case process_claim e w fin c s1 of
             Inl err \<Rightarrow> (True, Some err, s1)
           | Inr (changed, s2) \<Rightarrow> (True, None, s2)))"

section \<open>The runner's requests\<close>

lemma worker_fetch_runner:
  "worker_fetch new st clk locked (wk_id w) (wk_lease_ttl w) (wk_workspace_limit w) (wk_endpoint_limit w) n
   = claim_batch new st clk locked (runner_claim_request w n)"
  by (rule ext) (simp add: worker_fetch_def runner_claim_request_def)

lemma new_runner_positive:
  "let w = new_runner_with_options rnd m p http i opts in
    1 \<le> wk_concurrency w \<and> 1 \<le> wk_batch_size w \<and> 1 \<le> wk_workspace_limit w \<and> 1 \<le> wk_endpoint_limit w
    \<and> 0 < wk_shutdown w \<and> wk_shutdown w \<le> 30 * second \<and> 0 < wk_lease_ttl w \<and> 0 < wk_claim_timeout w
    \<and> 0 < wk_request_timeout w \<and> 0 < rp_base (wk_retry w) \<and> 0 < pp_base (wk_poll w) \<and> wk_id w = i"
  by (simp add: new_runner_with_options_def merge_runner_options_def default_runner_options_def
      default_retry_policy_def default_poll_policy_def Let_def duration_defs)

text \<open>Whatever options a runner is made with, its concurrency, batch size, limits and timeouts are
  positive and its shutdown budget is at most thirty seconds; and while the lease it was given (if any)
  lies in the store's range and the batch is at most 100, every claim its loop makes in any state with
  a free slot passes the store's validation.\<close>

theorem runner_claims_valid:
  assumes "i \<noteq> uuid_nil" and "ro_lease_ttl opts \<le> 0 \<or> 20 * second \<le> ro_lease_ttl opts \<and> ro_lease_ttl opts \<le> 2 * minute"
    and "ro_batch_size opts \<le> 100" and "sc_active s < wk_concurrency w"
    and "w = new_runner_with_options rnd m p http i opts"
  shows "claim_request_valid (runner_claim_request w (claim_limit (loop_of w) s))
    \<and> 0 < wk_shutdown w \<and> wk_shutdown w \<le> 30 * second \<and> 1 \<le> wk_concurrency w \<and> 0 < wk_request_timeout w"
proof -
  have lease: "20 * second \<le> wk_lease_ttl w" "wk_lease_ttl w \<le> 2 * minute" and batch: "wk_batch_size w \<le> 100"
    using assms(2,3) by (auto simp: assms(5) new_runner_with_options_def merge_runner_options_def
        default_runner_options_def Let_def duration_defs)
  have w: "1 \<le> wk_batch_size w" "1 \<le> wk_workspace_limit w" "1 \<le> wk_endpoint_limit w" "wk_id w = i"
    using new_runner_positive [of rnd m p http i opts] unfolding assms(5) by (simp_all add: Let_def)
  have "1 \<le> claim_limit (loop_of w) s" "claim_limit (loop_of w) s \<le> 100"
    using assms(4) w(1) batch by (simp_all add: claim_limit_def loop_of_def)
  then have "claim_request_valid (runner_claim_request w (claim_limit (loop_of w) s))"
    using assms(1) w lease by (simp add: claim_request_valid_def runner_claim_request_def not_less)
  then show ?thesis using new_runner_positive [of rnd m p http i opts] assms(5) by (simp add: Let_def)
qed

definition demo_options :: runner_options where
  "demo_options = \<lparr>ro_poll = 0, ro_claim_timeout = 0, ro_request_timeout = 0, ro_lease_ttl = minute,
     ro_shutdown = minute, ro_concurrency = 3, ro_batch_size = 0, ro_workspace_limit = 0, ro_endpoint_limit = 0,
     ro_retry = default_retry_policy id, ro_poll_jitter = None\<rparr>"

definition demo_worker :: worker where
  "demo_worker = new_runner_with_options id development_materials Local False 7 demo_options"

lemma runner_claims_valid_witness:
  "claim_request_valid (runner_claim_request demo_worker (claim_limit (loop_of demo_worker) sched_start))
   \<and> wk_shutdown demo_worker \<le> 30 * second"
proof -
  have "sc_active sched_start < wk_concurrency demo_worker"
    using new_runner_positive [of id development_materials Local False 7 demo_options]
    by (simp add: sched_start_def demo_worker_def Let_def)
  then show ?thesis
    using runner_claims_valid [of 7 demo_options sched_start demo_worker id development_materials Local False]
    by (simp add: demo_options_def demo_worker_def duration_defs)
qed

section \<open>The outcome of an exchange\<close>

lemma wrap16_http: "100 \<le> h \<Longrightarrow> h \<le> 599 \<Longrightarrow> wrap16 h = h"
  by (rule wrap16_id) (simp add: in_int16_def)

definition body_read :: "http_response \<Rightarrow> bool" where
  "body_read r \<longleftrightarrow> hr_body_length r \<le> 65536 \<and> \<not> hr_body_fails r"

lemma execute_Inl:
  "we_client e q = Inl err \<Longrightarrow> re_disposition (execute e w q)
     = (if ce_redirect err \<or> ce_policy err then ''permanent_failure'' else ''retry'')"
  by (simp add: execute_def permanent_result_def retry_result_def)

lemma execute_Inr:
  "we_client e q = Inr r \<Longrightarrow> re_disposition (execute e w q)
     = (if hr_body_fails r \<and> hr_body_length r \<le> 65536 then ''retry''
        else if 65536 < hr_body_length r then ''permanent_failure''
        else if 200 \<le> hr_status r \<and> hr_status r < 300 then ''success''
        else if retryable_status (hr_status r) then ''retry'' else ''permanent_failure'')"
  by (auto simp: execute_def permanent_result_def retry_result_def Let_def retryable_status_def)

lemma execute_http_range:
  "re_http (execute e w q) = Some h \<Longrightarrow> re_category (execute e w q) \<noteq> ''redirect'' \<Longrightarrow> 100 \<le> h \<and> h \<le> 599"
  by (auto simp: execute_def permanent_result_def retry_result_def Let_def wrap16_http
      split: sum.splits if_splits)

text \<open>What an exchange means: it succeeds exactly when the endpoint answers 2xx with a body of at most
  64 KiB that is read to its end; it is retried exactly when the transport failed without the policy or
  a redirect being the reason, when the body could not be read, or on 408, 425, 429 and 5xx; everything
  else is permanent. A status is reported only for an answer, and outside redirects it is a valid one.\<close>

theorem execute_outcome:
  "(re_disposition (execute e w q) = ''success'' \<longleftrightarrow>
      (\<exists>r. we_client e q = Inr r \<and> body_read r \<and> 200 \<le> hr_status r \<and> hr_status r < 300))
   \<and> (re_disposition (execute e w q) = ''retry'' \<longleftrightarrow>
      (\<exists>err. we_client e q = Inl err \<and> \<not> ce_redirect err \<and> \<not> ce_policy err)
      \<or> (\<exists>r. we_client e q = Inr r \<and> (hr_body_fails r \<and> hr_body_length r \<le> 65536
               \<or> body_read r \<and> hr_status r \<in> {408, 425, 429} \<union> {500..599})))
   \<and> re_disposition (execute e w q) \<in> {''success'', ''retry'', ''permanent_failure''}
   \<and> (re_http (execute e w q) = None \<or> re_category (execute e w q) = ''redirect''
      \<or> (\<exists>h\<in>{100..599}. re_http (execute e w q) = Some h))"
proof (intro conjI)
  show "re_disposition (execute e w q) = ''success'' \<longleftrightarrow>
      (\<exists>r. we_client e q = Inr r \<and> body_read r \<and> 200 \<le> hr_status r \<and> hr_status r < 300)"
    by (cases "we_client e q") (auto simp: execute_Inl execute_Inr body_read_def)
  show "re_disposition (execute e w q) = ''retry'' \<longleftrightarrow>
      (\<exists>err. we_client e q = Inl err \<and> \<not> ce_redirect err \<and> \<not> ce_policy err)
      \<or> (\<exists>r. we_client e q = Inr r \<and> (hr_body_fails r \<and> hr_body_length r \<le> 65536
               \<or> body_read r \<and> hr_status r \<in> {408, 425, 429} \<union> {500..599}))"
    by (cases "we_client e q") (auto simp: execute_Inl execute_Inr body_read_def retryable_status_def)
  show "re_disposition (execute e w q) \<in> {''success'', ''retry'', ''permanent_failure''}"
    by (cases "we_client e q") (auto simp: execute_Inl execute_Inr)
  show "re_http (execute e w q) = None \<or> re_category (execute e w q) = ''redirect''
      \<or> (\<exists>h\<in>{100..599}. re_http (execute e w q) = Some h)"
    using execute_http_range [of e w q] by (cases "re_http (execute e w q)") auto
qed

section \<open>The result is always finalised\<close>

lemma retry_delay_le:
  assumes "rp_cap p \<le> 15 * minute"
  shows "0 \<le> retry_delay rnd p n s \<and> retry_delay rnd p n s \<le> 15 * minute"
proof (cases "0 < rp_base p \<and> 0 < rp_cap p")
  case True
  then have "in_int64 (rp_cap p)" using assms by (simp add: in_int64_def minute_def)
  with True have e: "retry_delay rnd p n s =
     (let c = min (rp_cap p) (rp_base p * 2 ^ nat (n - 1));
          j = (case rp_jitter p of None \<Rightarrow> default_jitter rnd | Some j \<Rightarrow> j);
          d = max 0 (min c (j c))
      in if d < s \<and> s \<le> rp_cap p then s else d)" by (intro retry_delay_eq) auto
  show ?thesis unfolding e Let_def using True assms by (auto simp: min_le_iff_disj minute_def)
next
  case False
  then have "retry_delay rnd p n s = 0" by (auto simp: retry_delay_def)
  then show ?thesis by (simp add: minute_def)
qed

lemma re_disposition_deliver:
  "re_disposition (deliver e w c) \<in> {''success'', ''retry'', ''permanent_failure''}"
proof -
  have "re_disposition (execute e w q) \<in> {''success'', ''retry'', ''permanent_failure''}" for q
    by (cases "we_client e q") (auto simp: execute_Inl execute_Inr)
  then show ?thesis
    by (simp add: deliver_def permanent_result_def Let_def split: sum.split)
qed

text \<open>The status a delivery moves to, from the result of the attempt.\<close>

definition status_after :: "delivery_result \<Rightarrow> delivery_row \<Rightarrow> delivery_status" where
  "status_after r d =
     (if re_disposition (normalize_result r) = ''success'' then Succeeded
      else if re_disposition (normalize_result r) = ''permanent_failure'' then Failed_permanent
      else if dr_attempts d = dr_max d then Dead_letter else Retry_scheduled)"

lemma normalize_disposition_cong:
  "re_disposition r = re_disposition r' \<Longrightarrow> re_http r = re_http r' \<Longrightarrow>
     re_disposition (normalize_result r) = re_disposition (normalize_result r')
     \<and> re_http (normalize_result r) = re_http (normalize_result r')"
  by (simp add: normalize_result_def)

lemma normalize_http:
  "case re_http (normalize_result r) of None \<Rightarrow> True | Some x \<Rightarrow> 100 \<le> x \<and> x \<le> 599"
  by (auto simp: normalize_result_def split: option.split)

lemma normalize_disposition:
  "re_disposition r \<in> D \<Longrightarrow> ''permanent_failure'' \<in> D \<Longrightarrow> re_disposition (normalize_result r) \<in> D"
  by (simp add: normalize_result_def)

text \<open>C17. The worker and the database agree on what a result may be: with a retry cap of at most fifteen
  minutes, processing a claim whose lease is still live is never refused. It moves exactly that
  delivery, to the status that the attempt calls for, frees it, and schedules a retry between now and
  fifteen minutes from now while attempts remain.\<close>

theorem process_claim_finalizes:
  assumes "db_inv s" and "d \<in> set (db_deliveries s)"
    and "held_by (cl_ws c, cl_delivery c) (wk_id w) (cl_token c) (clk 0) d" and "rp_cap (wk_retry w) \<le> 15 * minute"
  shows "\<exists>s' d'. process_claim e w clk c s = Inr (True, s')
    \<and> db_deliveries s' = update_where (\<lambda>x. x = d) (\<lambda>_. d') (db_deliveries s)
    \<and> dr_status d' = status_after (deliver e w c) d \<and> dr_owner d' = None \<and> dr_token d' = cl_token c
    \<and> (dr_status d' = Retry_scheduled \<longrightarrow> clk 0 \<le> dr_next d' \<and> dr_next d' \<le> clk 0 + 15 * minute
         \<and> dr_attempts d' < dr_max d')"
proof -
  define r where "r = (if re_disposition (deliver e w c) = ''retry''
        then (deliver e w c)\<lparr>re_retry_after :=
          retry_delay (we_rnd e) (wk_retry w) (cl_attempt c) (re_retry_after (deliver e w c))\<rparr>
        else deliver e w c)"
  define n where "n = normalize_result r"
  define dl where "dl = (if re_disposition n = ''retry'' then Some (re_retry_after n) else None)"
  have p: "re_disposition n \<in> {''success'', ''retry'', ''permanent_failure''}"
    unfolding n_def by (rule normalize_disposition) (use re_disposition_deliver [of e w c] in \<open>auto simp: r_def\<close>)
  have h: "case re_http n of None \<Rightarrow> True | Some x \<Rightarrow> 100 \<le> x \<and> x \<le> 599"
    unfolding n_def by (rule normalize_http)
  have delay: "re_disposition n = ''retry'' \<longrightarrow> (\<exists>r. dl = Some r \<and> 0 \<le> r \<and> r \<le> 15 * minute)"
    using retry_delay_le [OF assms(4)] by (auto simp: dl_def n_def r_def normalize_result_def split: if_splits)
  have same: "re_disposition n = re_disposition (normalize_result (deliver e w c))"
    unfolding n_def by (rule normalize_disposition_cong [THEN conjunct1]) (simp_all add: r_def)
  from finalize_held [OF assms(1,2), of _ _ _ clk "re_disposition n" "re_http n" dl "re_duration n" "re_category n",
      OF assms(3) p h delay]
  obtain s' d' where f: "finalize_delivery (cl_ws c, cl_delivery c) (wk_id w) (cl_token c) (re_disposition n)
        (re_http n) (re_duration n) (re_category n) dl clk s = Inr (True, s')"
    and r: "db_deliveries s' = update_where (\<lambda>x. x = d) (\<lambda>_. d') (db_deliveries s)"
      "dr_status d' = (if re_disposition n = ''success'' then Succeeded
          else if re_disposition n = ''permanent_failure'' then Failed_permanent
          else if dr_attempts d = dr_max d then Dead_letter else Retry_scheduled)"
      "dr_status d' = Retry_scheduled \<longrightarrow> dr_next d' = clk 0 + the dl \<and> dr_attempts d' < dr_max d'"
      "dr_owner d' = None" "dr_token d' = cl_token c" by blast
  have "process_claim e w clk c s = Inr (True, s')"
    using f unfolding process_claim_def store_finalize_def Let_def r_def [symmetric] n_def [symmetric] dl_def [symmetric]
    by simp
  moreover have "dr_status d' = Retry_scheduled \<longrightarrow> clk 0 \<le> dr_next d' \<and> dr_next d' \<le> clk 0 + 15 * minute"
    using r(2,3) delay p by (auto split: if_splits)
  ultimately show ?thesis using r same by (auto simp: status_after_def)
qed

definition demo_claim :: claim where
  "demo_claim = \<lparr>cl_ws = 1, cl_delivery = 10, cl_event = 5, cl_endpoint = 3, cl_attempt_id = 20, cl_token = 1,
     cl_attempt = 1, cl_max_attempts = 3, cl_scheme = ''https'', cl_host = ''a.example'', cl_port = 443,
     cl_target = demo_envelope, cl_event_type = ''t'', cl_payload = demo_envelope, cl_key_id = ''k1'',
     cl_secret_id = 4, cl_secret = demo_envelope, cl_retiring = None\<rparr>"

definition demo_env :: worker_env where
  "demo_env = \<lparr>we_client = (\<lambda>_. Inr \<lparr>hr_status = 503, hr_body_length = 0, hr_body_fails = False, hr_retry_after = []\<rparr>),
     we_parse_uri = (\<lambda>_. True), we_new_request = (\<lambda>_. True), we_inject = id, we_uuid = (\<lambda>u. ''u''),
     we_parse_addr = (\<lambda>_. None), we_parse_time = (\<lambda>_. None), we_rnd = id, we_started = 0,
     we_signed = 970 * second, we_answered = 0, we_finished = 0\<rparr>"

lemma process_claim_finalizes_witness:
  "\<exists>s'. process_claim demo_env demo_worker (\<lambda>_. 2) demo_claim demo_db2 = Inr (True, s')"
proof -
  have d: "demo_claimed \<in> set (db_deliveries demo_db2)" "held_by (1, 10) 7 1 2 demo_claimed"
    by (simp_all add: demo_defs held_by_def dkey_def lease_live_def)
  have "wk_id demo_worker = 7" "rp_cap (wk_retry demo_worker) \<le> 15 * minute"
    by (simp_all add: demo_worker_def new_runner_with_options_def merge_runner_options_def demo_options_def
        default_retry_policy_def default_runner_options_def Let_def duration_defs)
  with process_claim_finalizes [OF demo_inv d(1), of demo_claim demo_worker "\<lambda>_. 2" demo_env] d(2)
  show ?thesis by (auto simp: demo_claim_def)
qed

section \<open>The request a receiver can verify\<close>

definition wde_headers :: "string set" where
  "wde_headers = {''WDE-Timestamp'', ''WDE-Event-ID'', ''WDE-Delivery-ID'', ''WDE-Signature''}"

text \<open>The keys a claim is signed with, each with its opened secret.\<close>

definition signing_keys :: "claim \<Rightarrow> opened_claim \<Rightarrow> (string \<times> bytes) list" where
  "signing_keys c opened =
     (cl_key_id c, oc_secret opened) # (case cl_retiring c of None \<Rightarrow> [] | Some r \<Rightarrow> [(cs_key_id r, oc_retiring opened)])"

lemma build_request_signature:
  assumes "build_request e target c opened = Inr q" and "\<forall>h. \<forall>k\<in>wde_headers. we_inject e h k = h k"
  defines "t \<equiv> time_unix (we_signed e)" and "ev \<equiv> we_uuid e (cl_event c)" and "dl \<equiv> we_uuid e (cl_delivery c)"
  shows "hq_header q ''WDE-Timestamp'' = Some (format_int t) \<and> hq_header q ''WDE-Event-ID'' = Some ev
    \<and> hq_header q ''WDE-Delivery-ID'' = Some dl \<and> hq_body q = oc_payload opened \<and> hq_target q = target
    \<and> hq_header q ''WDE-Signature'' = Some (join_with '';'' (map (\<lambda>(k, sec). header_value k
          (sign sec t ev dl k (oc_payload opened))) (signing_keys c opened)))"
  using assms by (auto simp: build_request_def wde_headers_def signing_keys_def Let_def split: if_splits option.splits)

text \<open>C18. Every request the worker sends verifies: a receiver that holds the secret of the delivery's key,
  or of the retiring key while a rotation is under way, and that feeds the request's headers and body to
  \<open>Verify\<close>, accepts it as long as the clocks agree within the skew it allows.\<close>

theorem worker_request_verifies:
  assumes "build_request e target c opened = Inr q" and "\<forall>h. \<forall>k\<in>wde_headers. we_inject e h k = h k"
    and "(k, sec) \<in> set (signing_keys c opened)"
    and "\<forall>(k, sec)\<in>set (signing_keys c opened). key_id_ok k" and "distinct (map fst (signing_keys c opened))"
    and "0 < maxSkew" and "maxSkew \<le> 15 * minute"
    and "- (2 ^ 63) \<le> time_unix (we_signed e)" and "time_unix (we_signed e) < 2 ^ 63 - 62135596800"
    and "\<bar>now - time_unix (we_signed e) * 1000000000\<bar> \<le> maxSkew"
  shows "\<exists>ts ev dl sg. hq_header q ''WDE-Timestamp'' = Some ts \<and> hq_header q ''WDE-Event-ID'' = Some ev
    \<and> hq_header q ''WDE-Delivery-ID'' = Some dl \<and> hq_header q ''WDE-Signature'' = Some sg
    \<and> verify sec now maxSkew ts ev dl k sg (hq_body q) = Inr ()"
  using build_request_signature [OF assms(1,2)] verify_signed [OF assms(4,5,3,6-10)] by auto

lemma worker_request_verifies_witness:
  "\<exists>q sg. build_request demo_env ''https://a.example/'' demo_claim
        \<lparr>oc_path = ''/'', oc_payload = ''{}'', oc_secret = ''s'', oc_retiring = []\<rparr> = Inr q
     \<and> hq_header q ''WDE-Signature'' = Some sg
     \<and> verify ''s'' (980 * second) minute (format_int 970) ''u'' ''u'' ''k1'' sg ''{}'' = Inr ()"
proof -
  let ?o = "\<lparr>oc_path = ''/'', oc_payload = ''{}'', oc_secret = ''s'', oc_retiring = []\<rparr>"
  obtain q where q: "build_request demo_env ''https://a.example/'' demo_claim ?o = Inr q"
    by (simp add: build_request_def demo_env_def demo_claim_def Let_def)
  have i: "\<forall>h. \<forall>k\<in>wde_headers. we_inject demo_env h k = h k" by (simp add: demo_env_def)
  have t: "time_unix (we_signed demo_env) = 970" by (simp add: demo_env_def time_unix_def second_def)
  have u: "we_uuid demo_env x = ''u''" for x by (simp add: demo_env_def)
  from worker_request_verifies [OF q i, of "''k1''" "''s''" minute "980 * second"]
    build_request_signature [OF q i]
  show ?thesis using q
    by (auto simp: signing_keys_def demo_claim_def key_id_ok_def t u duration_defs)
qed

section \<open>What an envelope is bound to\<close>

definition texts_short :: "uuid_text \<Rightarrow> claim \<Rightarrow> bool" where
  "texts_short us c \<longleftrightarrow>
     (\<forall>t\<in>{us (cl_ws c), us (cl_endpoint c), us (cl_event c), us (cl_secret_id c), cl_scheme c, cl_host c,
           format_int (cl_port c), cl_event_type c, cl_key_id c}. length t < 2 ^ 32)"

definition target_parts :: "uuid_text \<Rightarrow> claim \<Rightarrow> string list" where
  "target_parts us c =
     (if env_format (cl_target c) = legacy_format_version
      then [''1'', us (cl_ws c), us (cl_endpoint c), cl_scheme c, cl_host c, format_int (cl_port c)]
      else [''2'', us (cl_ws c), ''endpoint_target'', us (cl_endpoint c), cl_scheme c, cl_host c, format_int (cl_port c)])"

definition payload_parts :: "uuid_text \<Rightarrow> claim \<Rightarrow> string list" where
  "payload_parts us c =
     (if env_format (cl_payload c) = legacy_format_version
      then [''1'', us (cl_ws c), us (cl_event c), cl_event_type c]
      else [''2'', us (cl_ws c), ''event_payload'', us (cl_event c), cl_event_type c])"

definition secret_parts :: "uuid_text \<Rightarrow> claim \<Rightarrow> string list" where
  "secret_parts us c =
     (if env_format (cl_secret c) = legacy_format_version
      then [''1'', us (cl_ws c), us (cl_endpoint c), us (cl_secret_id c), cl_key_id c]
      else [''2'', us (cl_ws c), ''signing_secret'', us (cl_endpoint c), us (cl_secret_id c), cl_key_id c])"

lemma claim_aads:
  "target_aad us c = aad (target_parts us c)" "payload_aad us c = aad (payload_parts us c)"
  "secret_aad us c = aad (secret_parts us c)"
  by (simp_all add: target_aad_def target_parts_def payload_aad_def payload_parts_def secret_aad_def
      secret_envelope_aad_def secret_parts_def)

lemma claim_parts_short:
  assumes "texts_short us c"
  shows "\<forall>p\<in>set (target_parts us c). length p < 2 ^ 32" "\<forall>p\<in>set (payload_parts us c). length p < 2 ^ 32"
    "\<forall>p\<in>set (secret_parts us c). length p < 2 ^ 32"
  using assms by (auto simp: texts_short_def target_parts_def payload_parts_def secret_parts_def)

text \<open>An envelope of a claim opens only as what it was sealed as: the associated data of a target, of a
  payload and of a signing secret never coincide, in either format and for any two claims, and equal data
  mean the same workspace and the same endpoint and destination, event and type, or endpoint, version and
  key. (The text of an identifier determines it.)\<close>

theorem aad_domains_separate:
  assumes "texts_short us c" and "texts_short us c'" and "inj us"
  shows "target_aad us c \<noteq> payload_aad us c' \<and> target_aad us c \<noteq> secret_aad us c' \<and> payload_aad us c \<noteq> secret_aad us c'
    \<and> (target_aad us c = target_aad us c' \<longrightarrow> cl_ws c = cl_ws c' \<and> cl_endpoint c = cl_endpoint c'
         \<and> cl_scheme c = cl_scheme c' \<and> cl_host c = cl_host c' \<and> cl_port c = cl_port c')
    \<and> (payload_aad us c = payload_aad us c' \<longrightarrow> cl_ws c = cl_ws c' \<and> cl_event c = cl_event c'
         \<and> cl_event_type c = cl_event_type c')
    \<and> (secret_aad us c = secret_aad us c' \<longrightarrow> cl_ws c = cl_ws c' \<and> cl_endpoint c = cl_endpoint c'
         \<and> cl_secret_id c = cl_secret_id c' \<and> cl_key_id c = cl_key_id c')"
proof -
  note short = claim_parts_short [OF assms(1)] claim_parts_short [OF assms(2)]
  have u: "us x = us y \<longleftrightarrow> x = y" for x y using assms(3) by (auto simp: inj_def)
  have diff: "target_parts us c \<noteq> payload_parts us c'" "target_parts us c \<noteq> secret_parts us c'"
    "payload_parts us c \<noteq> secret_parts us c'"
    by (simp_all add: target_parts_def payload_parts_def secret_parts_def)
  have t: "target_aad us c = target_aad us c' \<longrightarrow> target_parts us c = target_parts us c'"
    "payload_aad us c = payload_aad us c' \<longrightarrow> payload_parts us c = payload_parts us c'"
    "secret_aad us c = secret_aad us c' \<longrightarrow> secret_parts us c = secret_parts us c'"
    unfolding claim_aads using aad_inj_aux short by blast+
  have d: "target_aad us c \<noteq> payload_aad us c'" "target_aad us c \<noteq> secret_aad us c'" "payload_aad us c \<noteq> secret_aad us c'"
    unfolding claim_aads using aad_inj_aux short diff by blast+
  show ?thesis using d t u
    by (auto simp: target_parts_def payload_parts_def secret_parts_def format_int_inj split: if_splits)
qed

lemma aad_domains_separate_witness:
  "target_aad (\<lambda>u. uuid_bytes u) demo_claim \<noteq> payload_aad (\<lambda>u. uuid_bytes u) demo_claim"
proof -
  have "length (format_int 443) < 2 ^ 32" by (simp add: format_int_def dec_nat.simps)
  then have "texts_short (\<lambda>u. uuid_bytes u) demo_claim" by (simp add: texts_short_def demo_claim_def)
  then show ?thesis using aad_domains_separate [of "\<lambda>u. uuid_bytes u" demo_claim demo_claim] by (simp add: inj_def)
qed

end
