(* ===== verification/Problem.thy ===== *)
theory Problem
  imports Go_Strings Go_Base64
begin

text \<open>
  \<open>internal/platform/problem/problem.go\<close>: problem responses, the recovery of panics and the request
  identifier; and the shape of a request and of a response that the handlers of every package share.
  A handler that panics has no response (\<open>None\<close>).
\<close>

record 'p request =
  hx_header :: "string \<Rightarrow> string"
  hx_path_value :: "string \<Rightarrow> string"
  hx_query :: "(string \<times> string list) list"
  hx_body :: bytes
  hx_remote :: string
  hx_principal :: "'p option"
  hx_request_id :: string

record problem_details =
  pd_type :: string
  pd_title :: string
  pd_status :: int
  pd_code :: string
  pd_request_id :: string

datatype 'a reply = Problem problem_details | Reply (reply_status: int) (reply_body: 'a)

definition write_problem :: "'p request \<Rightarrow> int \<Rightarrow> string \<Rightarrow> string \<Rightarrow> 'a reply" where
  "write_problem r status code title =
     Problem \<lparr>pd_type = ''about:blank'', pd_title = title, pd_status = status, pd_code = code,
              pd_request_id = hx_request_id r\<rparr>"

definition status_of :: "'a reply \<Rightarrow> int" where
  "status_of a = (case a of Problem d \<Rightarrow> pd_status d | Reply s b \<Rightarrow> s)"

definition code_of :: "'a reply \<Rightarrow> string" where
  "code_of a = (case a of Problem d \<Rightarrow> pd_code d | Reply s b \<Rightarrow> [])"

definition not_found_handler :: "'p request \<Rightarrow> 'a reply option" where
  "not_found_handler r = Some (write_problem r 404 ''not_found'' ''Resource not found'')"

definition internal_error :: "'p request \<Rightarrow> 'a reply" where
  "internal_error r = write_problem r 500 ''internal_error'' ''Internal server error''"

definition recover_handler :: "('p request \<Rightarrow> 'a reply option) \<Rightarrow> 'p request \<Rightarrow> 'a reply option" where
  "recover_handler next r =
     (case next r of None \<Rightarrow> Some (internal_error r) | Some a \<Rightarrow> Some a)"

definition new_request_id :: "bytes option \<Rightarrow> string option" where
  "new_request_id raw = map_option (\<lambda>bs. ''req_'' @ b64_encode bs) raw"

text \<open>The result carries the value of the response header \<open>X-Request-ID\<close>.\<close>

definition identify_request :: "bytes option \<Rightarrow> 'p request \<Rightarrow> string \<times> 'p request" where
  "identify_request raw r =
     (let i = (case new_request_id raw of None \<Rightarrow> ''unavailable'' | Some i \<Rightarrow> i) in (i, r\<lparr>hx_request_id := i\<rparr>))"

definition with_request_id ::
    "bytes option \<Rightarrow> ('p request \<Rightarrow> 'a reply option) \<Rightarrow> 'p request \<Rightarrow> string \<times> 'a reply option" where
  "with_request_id raw next r =
     (let (i, r') = identify_request raw r in (i, next r'))"

lemma status_code_write [simp]:
  "status_of (write_problem r s c t) = s" "code_of (write_problem r s c t) = c"
  "status_of (Reply s b) = s" "code_of (Reply s b) = []"
  by (simp_all add: status_of_def code_of_def write_problem_def)

lemma write_problem_not_Reply [simp]: "write_problem r s c t \<noteq> Reply s' b"
  by (simp add: write_problem_def)

end
