(* ===== verification/Auth.thy ===== *)
theory Auth
  imports Problem Go_Crypto Cryptobox
begin

text \<open>
  \<open>internal/auth\<close>: API keys, their verification, the authentication and authorisation middleware,
  and the administrative bootstrap and revocation (\<open>auth.go\<close>, \<open>postgres.go\<close>, \<open>admin.go\<close>) with the
  SQL function \<open>authenticate_key\<close>. Random bytes, fresh identifiers, the clock and the outcome of a
  commit are arguments.
\<close>

datatype auth_error = Err_unauthorized | Err_already_bootstrapped | Err_credential_sink | Err_auth_other

record principal =
  pr_api_key :: uuid
  pr_workspace :: uuid
  pr_scopes :: "string set"

record auth_record =
  ar_api_key :: uuid
  ar_workspace :: uuid
  ar_verifier :: bytes
  ar_status :: string
  ar_workspace_status :: string
  ar_expires :: "instant option"
  ar_scopes :: "string list"

section \<open>Tokens\<close>

definition hex_char :: "nat \<Rightarrow> char" where
  "hex_char n = byte_of (if n < 10 then 48 + n else 87 + n)"

definition hex_encode :: "bytes \<Rightarrow> string" where
  "hex_encode bs = concat (map (\<lambda>b. [hex_char (byte_val b div 16), hex_char (byte_val b mod 16)]) bs)"

definition is_hex :: "char \<Rightarrow> bool" where
  "is_hex c \<longleftrightarrow> is_digit c \<or> 97 \<le> byte_val c \<and> byte_val c \<le> 102 \<or> 65 \<le> byte_val c \<and> byte_val c \<le> 70"

definition hex_valid :: "string \<Rightarrow> bool" where
  "hex_valid s \<longleftrightarrow> list_all is_hex s \<and> even (length s)"

definition verifier :: "key256 \<Rightarrow> string \<Rightarrow> bytes" where
  "verifier pepper token = hmac_sha256 (key_bytes pepper) token"

definition dummy_token :: string where
  "dummy_token = ''wde_test_0000000000000000_AAAAAAAAAAAAAAAAAAAAAAAAAAAAAAAAAAAAAAAAAAA''"

definition token_prefix :: "string \<Rightarrow> string option" where
  "token_prefix token =
     (if length token > 249 then None
      else
        let parts = split_n 4 (CHR ''_'') token
        in if length parts \<noteq> 4 \<or> parts ! 0 \<noteq> ''wde''
              \<or> parts ! 1 \<noteq> ''test'' \<and> parts ! 1 \<noteq> ''live'' \<or> length (parts ! 2) \<noteq> 16
           then None
           else if \<not> hex_valid (parts ! 2) then None
           else case b64_decode_strict (parts ! 3) of
                  None \<Rightarrow> None
                | Some secret \<Rightarrow> if length secret \<noteq> 32 then None else Some (parts ! 2))"

definition bearer :: "string \<Rightarrow> string \<times> string \<times> bool" where
  "bearer hdr =
     (if length hdr > 256 \<or> \<not> has_prefix ''Bearer '' hdr then ([], [], False)
      else
        let token = trim_prefix ''Bearer '' hdr
        in (case token_prefix token of None \<Rightarrow> (token, [], False) | Some p \<Rightarrow> (token, p, True)))"

definition presented_prefix :: "string \<Rightarrow> string option" where
  "presented_prefix hdr = (let (t, p, ok) = bearer hdr in if ok then Some p else None)"

definition presented_token_prefix :: "string \<Rightarrow> string option" where
  "presented_token_prefix token = token_prefix (trim_space token)"

definition generate_token ::
    "bool \<Rightarrow> key256 \<Rightarrow> bytes option \<Rightarrow> bytes option \<Rightarrow> auth_error + (string \<times> string \<times> bytes)" where
  "generate_token test pepper prefixRaw secret =
     (case prefixRaw of
        None \<Rightarrow> Inl Err_auth_other
      | Some pre \<Rightarrow>
     (case secret of
        None \<Rightarrow> Inl Err_auth_other
      | Some sec \<Rightarrow>
          let prefix = hex_encode pre;
              environment = (if test then ''test'' else ''live'');
              token = ''wde_'' @ environment @ ''_'' @ prefix @ ''_'' @ b64_encode sec
          in Inr (token, prefix, verifier pepper token)))"

section \<open>Authentication and authorisation\<close>

text \<open>\<open>LookupKey\<close> fails, finds nothing, or finds a record.\<close>

type_synonym key_lookup = "string \<Rightarrow> auth_error + auth_record option"

definition authenticate_token ::
    "key_lookup \<Rightarrow> key256 \<Rightarrow> instant \<Rightarrow> string \<Rightarrow> auth_error + principal" where
  "authenticate_token lookup pepper now token =
     (case token_prefix token of
        None \<Rightarrow> Inl Err_unauthorized
      | Some prefix \<Rightarrow>
     (case lookup prefix of
        Inl e \<Rightarrow> Inl Err_unauthorized
      | Inr found \<Rightarrow>
          let candidate = verifier pepper token;
              expected = (case found of None \<Rightarrow> verifier pepper dummy_token | Some r \<Rightarrow> ar_verifier r);
              valid = (length expected = 32 \<and> candidate = expected)
          in (case found of
                None \<Rightarrow> Inl Err_unauthorized
              | Some r \<Rightarrow>
                  if \<not> valid \<or> ar_status r \<noteq> ''active'' \<or> ar_workspace_status r \<noteq> ''active''
                     \<or> (case ar_expires r of None \<Rightarrow> False | Some e \<Rightarrow> \<not> e > now)
                  then Inl Err_unauthorized
                  else Inr \<lparr>pr_api_key = ar_api_key r, pr_workspace = ar_workspace r,
                            pr_scopes = set (ar_scopes r)\<rparr>)))"

text \<open>
  A middleware refuses the request with a problem, or hands it on: the request it hands on, and the handler around a
  \<open>next\<close> one.
\<close>

definition authenticate_request ::
    "key_lookup \<Rightarrow> key256 \<Rightarrow> instant \<Rightarrow> principal request \<Rightarrow> 'a reply + principal request" where
  "authenticate_request lookup pepper now r =
     (let (token, p, ok) = bearer (hx_header r ''Authorization'')
      in if \<not> ok then Inl (write_problem r 401 ''unauthorized'' ''Authentication required'')
         else case authenticate_token lookup pepper now token of
                Inl e \<Rightarrow> Inl (write_problem r 401 ''unauthorized'' ''Authentication required'')
              | Inr who \<Rightarrow> Inr (r\<lparr>hx_principal := Some who\<rparr>))"

definition authenticate_handler ::
    "key_lookup \<Rightarrow> key256 \<Rightarrow> instant \<Rightarrow> (principal request \<Rightarrow> 'a reply option) \<Rightarrow> principal request \<Rightarrow> 'a reply option"
where
  "authenticate_handler lookup pepper now next r =
     (case authenticate_request lookup pepper now r of Inl a \<Rightarrow> Some a | Inr r' \<Rightarrow> next r')"

definition authorize_request :: "string \<Rightarrow> principal request \<Rightarrow> 'a reply + principal request" where
  "authorize_request scope r =
     (case hx_principal r of
        None \<Rightarrow> Inl (write_problem r 401 ''unauthorized'' ''Authentication required'')
      | Some p \<Rightarrow>
          if scope \<notin> pr_scopes p then Inl (write_problem r 403 ''insufficient_scope'' ''Insufficient scope'')
          else Inr r)"

definition authorize_handler ::
    "string \<Rightarrow> (principal request \<Rightarrow> 'a reply option) \<Rightarrow> principal request \<Rightarrow> 'a reply option" where
  "authorize_handler scope next r =
     (case authorize_request scope r of Inl a \<Rightarrow> Some a | Inr r' \<Rightarrow> next r')"

definition auth_middleware ::
    "key_lookup \<Rightarrow> key256 \<Rightarrow> instant \<Rightarrow> string \<Rightarrow> (principal request \<Rightarrow> 'a reply option)
      \<Rightarrow> principal request \<Rightarrow> 'a reply option" where
  "auth_middleware lookup pepper now scope next =
     authenticate_handler lookup pepper now (authorize_handler scope next)"

section \<open>The tables of credentials\<close>

record auth_workspace =
  aw_id :: uuid
  aw_name :: string
  aw_status :: string

record api_key =
  ak_id :: uuid
  ak_workspace :: uuid
  ak_prefix :: string
  ak_verifier :: bytes
  ak_status :: string
  ak_expires :: "instant option"
  ak_revoked :: "instant option"

record audit_event =
  ae_id :: uuid
  ae_workspace :: uuid
  ae_action :: string
  ae_resource :: uuid
  ae_outcome :: string

record auth_db =
  ad_workspaces :: "auth_workspace list"
  ad_keys :: "api_key list"
  ad_scopes :: "(uuid \<times> uuid \<times> string) list"
  ad_audits :: "audit_event list"

text \<open>
  \<open>authenticate_key\<close>: the join of key and workspace. (Its scopes are ordered by their text; the caller
  makes a set of them, so the order is left as the table's.)
\<close>

definition authenticate_key :: "auth_db \<Rightarrow> string \<Rightarrow> auth_record option" where
  "authenticate_key s prefix =
     (if length prefix < 8 \<or> length prefix > 32 then None
      else case find (\<lambda>k. ak_prefix k = prefix) (ad_keys s) of
        None \<Rightarrow> None
      | Some k \<Rightarrow>
     (case find (\<lambda>w. aw_id w = ak_workspace k) (ad_workspaces s) of
        None \<Rightarrow> None
      | Some w \<Rightarrow>
          Some \<lparr>ar_api_key = ak_id k, ar_workspace = ak_workspace k, ar_verifier = ak_verifier k,
                ar_status = ak_status k, ar_workspace_status = aw_status w, ar_expires = ak_expires k,
                ar_scopes = map (\<lambda>(_, _, sc). sc)
                  (filter (\<lambda>(ws, kid, _). ws = ak_workspace k \<and> kid = ak_id k) (ad_scopes s))\<rparr>))"

definition db_lookup :: "auth_db \<Rightarrow> key_lookup" where
  "db_lookup s prefix = Inr (authenticate_key s prefix)"

section \<open>Administration\<close>

record bootstrap_result =
  bt_workspace :: uuid
  bt_api_key :: uuid
  bt_token :: string

text \<open>
  The draws of a bootstrap, whether the lock and the count, the inserts and the commit succeed, and what the credential
  sink does: \<open>None\<close> refuses; otherwise the credential is written, with a cleanup that removes it or not.
\<close>

record bootstrap_env =
  be_test :: bool
  be_pepper :: key256
  be_workspace_id :: "uuid option"
  be_key_id :: "uuid option"
  be_audit_id :: "uuid option"
  be_prefix_raw :: "bytes option"
  be_secret :: "bytes option"
  be_exec :: bool
  be_insert :: bool
  be_sink :: "(bootstrap_result \<Rightarrow> bool option) option"
  be_commit :: bool

definition bootstrap_scopes :: "string list" where
  "bootstrap_scopes = [''deliveries:read'', ''deliveries:retry'', ''endpoints:write'', ''events:write'']"

definition bootstrap_insert ::
    "uuid \<Rightarrow> uuid \<Rightarrow> uuid \<Rightarrow> string \<Rightarrow> string \<Rightarrow> bytes \<Rightarrow> auth_db \<Rightarrow> auth_db" where
  "bootstrap_insert ws key audit name prefix ver s =
     s\<lparr>ad_workspaces := ad_workspaces s @ [\<lparr>aw_id = ws, aw_name = name, aw_status = ''active''\<rparr>],
       ad_keys := ad_keys s @ [\<lparr>ak_id = key, ak_workspace = ws, ak_prefix = prefix, ak_verifier = ver,
                                ak_status = ''active'', ak_expires = None, ak_revoked = None\<rparr>],
       ad_scopes := ad_scopes s @ map (\<lambda>sc. (ws, key, sc)) bootstrap_scopes,
       ad_audits := ad_audits s @ [\<lparr>ae_id = audit, ae_workspace = ws, ae_action = ''credential.bootstrap'',
                                    ae_resource = ws, ae_outcome = ''accepted''\<rparr>]\<rparr>"

text \<open>The result, the database, and the credential that the sink still holds afterwards.\<close>

definition bootstrap ::
    "bootstrap_env \<Rightarrow> string \<Rightarrow> auth_db \<Rightarrow> (auth_error + bootstrap_result) \<times> auth_db \<times> bootstrap_result option" where
  "bootstrap e name s =
     (if length name < 1 \<or> length name > 120 \<or> be_sink e = None then (Inl Err_credential_sink, s, None)
      else if \<not> be_exec e then (Inl Err_auth_other, s, None)
      else if ad_workspaces s \<noteq> [] then (Inl Err_already_bootstrapped, s, None)
      else case (be_workspace_id e, be_key_id e,
                 generate_token (be_test e) (be_pepper e) (be_prefix_raw e) (be_secret e), be_audit_id e) of
        (Some ws, Some key, Inr (token, prefix, ver), Some audit) \<Rightarrow>
          let result = \<lparr>bt_workspace = ws, bt_api_key = key, bt_token = token\<rparr>
          in (if \<not> be_insert e then (Inl Err_auth_other, s, None) else case the (be_sink e) result of
                None \<Rightarrow> (Inl Err_auth_other, s, None)
              | Some cleanup \<Rightarrow>
                  if be_commit e then (Inr result, bootstrap_insert ws key audit name prefix ver s, Some result)
                  else (Inl Err_auth_other, s, if cleanup then None else Some result))
      | _ \<Rightarrow> (Inl Err_auth_other, s, None))"

definition revoke ::
    "string \<Rightarrow> instant \<Rightarrow> uuid option \<Rightarrow> bool \<Rightarrow> auth_db \<Rightarrow> (auth_error + bool) \<times> auth_db" where
  "revoke prefix now auditID commit s =
     (case find (\<lambda>k. ak_prefix k = prefix \<and> ak_status k = ''active'') (ad_keys s) of
        None \<Rightarrow> (Inr False, s)
      | Some k \<Rightarrow>
     (case auditID of
        None \<Rightarrow> (Inl Err_auth_other, s)
      | Some audit \<Rightarrow>
          if \<not> commit then (Inl Err_auth_other, s)
          else (Inr True, s\<lparr>ad_keys := update_where (\<lambda>x. ak_id x = ak_id k)
                               (\<lambda>x. x\<lparr>ak_status := ''revoked'', ak_revoked := Some now\<rparr>) (ad_keys s),
                             ad_audits := ad_audits s @ [\<lparr>ae_id = audit, ae_workspace = ak_workspace k,
                               ae_action = ''credential.revoke'', ae_resource = ak_id k,
                               ae_outcome = ''revoked''\<rparr>]\<rparr>)))"

section \<open>Tokens that are generated are recognised\<close>

lemma is_hex_char: "n < 16 \<Longrightarrow> is_hex (hex_char n) \<and> hex_char n \<noteq> CHR ''_''"
  by (auto simp: is_hex_def hex_char_def is_digit_def byte_of_eq)

lemma hex_encode_chars: "c \<in> set (hex_encode bs) \<Longrightarrow> is_hex c \<and> c \<noteq> CHR ''_''"
proof -
  assume "c \<in> set (hex_encode bs)"
  then obtain b where "c = hex_char (byte_val b div 16) \<or> c = hex_char (byte_val b mod 16)"
    by (auto simp: hex_encode_def)
  moreover have "byte_val b div 16 < 16" by (rule less_mult_imp_div_less) simp
  moreover have "byte_val b mod 16 < 16" by simp
  ultimately show ?thesis using is_hex_char [of "byte_val b div 16"] is_hex_char [of "byte_val b mod 16"] by (elim disjE) simp_all
qed

lemma length_hex_encode [simp]: "length (hex_encode bs) = 2 * length bs"
  by (induction bs) (simp_all add: hex_encode_def)

lemma hex_encode_valid: "hex_valid (hex_encode bs)"
  by (auto simp: hex_valid_def list_all_iff hex_encode_chars)

lemma split_token:
  assumes "env \<in> {''test'', ''live''}" and "CHR ''_'' \<notin> set prefix"
  shows "split_n 4 (CHR ''_'') (''wde_'' @ env @ ''_'' @ prefix @ ''_'' @ secret) = [''wde'', env, prefix, secret]"
proof -
  have "CHR ''_'' \<notin> set env" using assms(1) by auto
  then show ?thesis
    using split_n_sep [of "CHR ''_''" "''wde''" 2 "env @ ''_'' @ prefix @ ''_'' @ secret"]
      split_n_sep [of "CHR ''_''" env 1 "prefix @ ''_'' @ secret"] split_n_sep [of "CHR ''_''" prefix 0 secret] assms(2)
    by (simp add: numeral_eq_Suc del: split_n.simps(3))
qed

lemma token_prefix_generated:
  assumes "generate_token test pepper (Some pre) (Some sec) = Inr (token, prefix, ver)"
    and "length pre = 8" and "length sec = 32"
  shows "token_prefix token = Some prefix \<and> length token = 69 \<and> ver = verifier pepper token
    \<and> prefix = hex_encode pre"
proof -
  let ?env = "if test then ''test'' else ''live''"
  have t: "token = ''wde_'' @ ?env @ ''_'' @ prefix @ ''_'' @ b64_encode sec" "prefix = hex_encode pre"
    "ver = verifier pepper token"
    using assms(1) by (auto simp: generate_token_def Let_def)
  have s: "split_n 4 (CHR ''_'') token = [''wde'', ?env, prefix, b64_encode sec]"
    unfolding t(1) using hex_encode_chars [of "CHR ''_''" pre] by (intro split_token) (auto simp: t(2))
  have l: "length token = 69" unfolding t using assms(2,3) by (simp add: length_b64_encode)
  show ?thesis using l s hex_encode_valid [of pre] assms(2,3) t(2,3) by (simp add: token_prefix_def)
qed

lemma bearer_generated:
  "token_prefix token = Some prefix \<Longrightarrow> length token \<le> 249 \<Longrightarrow> bearer (''Bearer '' @ token) = (token, prefix, True)"
  by (simp add: bearer_def trim_prefix_def has_prefix_def)

section \<open>Properties\<close>

text \<open>The key a request presents: its token is well formed, and the record stored under the token's prefix has its keyed
  digest, is active in an active workspace and has not expired.\<close>

definition presents_key :: "key_lookup \<Rightarrow> key256 \<Rightarrow> instant \<Rightarrow> 'p request \<Rightarrow> auth_record \<Rightarrow> bool" where
  "presents_key lookup pepper now r rec \<longleftrightarrow>
     length (hx_header r ''Authorization'') \<le> 256
     \<and> (\<exists>token prefix. hx_header r ''Authorization'' = ''Bearer '' @ token \<and> token_prefix token = Some prefix
        \<and> lookup prefix = Inr (Some rec) \<and> ar_verifier rec = hmac_sha256 (key_bytes pepper) token
        \<and> ar_status rec = ''active'' \<and> ar_workspace_status rec = ''active''
        \<and> (case ar_expires rec of None \<Rightarrow> True | Some e \<Rightarrow> now < e))"

definition principal_of :: "auth_record \<Rightarrow> principal" where
  "principal_of rec = \<lparr>pr_api_key = ar_api_key rec, pr_workspace = ar_workspace rec, pr_scopes = set (ar_scopes rec)\<rparr>"

lemma authenticate_request_cases:
  obtains (refused) "(authenticate_request lookup pepper now r :: 'a reply + principal request)
      = Inl (write_problem r 401 ''unauthorized'' ''Authentication required'')"
  | (known) rec where "presents_key lookup pepper now r rec"
      "(authenticate_request lookup pepper now r :: 'a reply + principal request)
         = Inr (r\<lparr>hx_principal := Some (principal_of rec)\<rparr>)"
proof -
  obtain token p ok where b: "bearer (hx_header r ''Authorization'') = (token, p, ok)" by (metis prod_cases3)
  show ?thesis
  proof (cases "ok \<and> (\<exists>who. authenticate_token lookup pepper now token = Inr who)")
    case False
    then have "(authenticate_request lookup pepper now r :: 'a reply + principal request)
        = Inl (write_problem r 401 ''unauthorized'' ''Authentication required'')"
      using b by (auto simp: authenticate_request_def split: sum.split)
    then show ?thesis by (rule refused)
  next
    case True
    then obtain who where who: "ok" "authenticate_token lookup pepper now token = Inr who" by blast
    have h: "hx_header r ''Authorization'' = ''Bearer '' @ token" "length (hx_header r ''Authorization'') \<le> 256"
      using b who(1) by (auto simp: bearer_def Let_def has_prefix_iff trim_prefix_def split: if_splits option.splits)
    from who(2) obtain prefix rec where t: "token_prefix token = Some prefix" "lookup prefix = Inr (Some rec)"
      "ar_verifier rec = verifier pepper token" "ar_status rec = ''active''" "ar_workspace_status rec = ''active''"
      "case ar_expires rec of None \<Rightarrow> True | Some e \<Rightarrow> now < e" "who = principal_of rec"
      by (auto simp: authenticate_token_def principal_of_def Let_def split: option.splits sum.splits if_splits)
    show ?thesis
      by (rule known [of rec]) (use t h b who in \<open>auto simp: presents_key_def authenticate_request_def verifier_def\<close>)
  qed
qed

lemma authorize_request_cases:
  obtains (refused) c t where "(authorize_request scope r :: 'a reply + principal request)
      = Inl (write_problem r (if hx_principal r = None then 401 else 403) c t)"
  | (granted) p where "hx_principal r = Some p" "scope \<in> pr_scopes p"
      "(authorize_request scope r :: 'a reply + principal request) = Inr r"
proof (cases "hx_principal r")
  case None
  show ?thesis by (rule refused) (simp add: authorize_request_def None)
next
  case (Some p)
  then show ?thesis
    by (cases "scope \<in> pr_scopes p") (rule granted refused, simp_all add: authorize_request_def)+
qed

text \<open>Authentication lets in only what it should: a handler behind the middleware runs only for the principal of a key that
  the request presents and that has the route's scope.\<close>

theorem middleware_admits_only:
  assumes "auth_middleware lookup pepper now scope next r = Some a"
  shows "status_of a = 401 \<or> status_of a = 403
    \<or> (\<exists>rec. presents_key lookup pepper now r rec \<and> scope \<in> set (ar_scopes rec)
        \<and> next (r\<lparr>hx_principal := Some (principal_of rec)\<rparr>) = Some a)"
proof (cases rule: authenticate_request_cases [of lookup pepper now r, where 'a = 'a])
  case refused
  then show ?thesis using assms by (auto simp: auth_middleware_def authenticate_handler_def)
next
  case (known rec)
  then have "authorize_handler scope next (r\<lparr>hx_principal := Some (principal_of rec)\<rparr>) = Some a"
    using assms by (simp add: auth_middleware_def authenticate_handler_def)
  then show ?thesis using known(1)
    by (auto simp: authorize_handler_def authorize_request_def principal_of_def split: if_splits)
qed

lemma middleware_admits_only_witness:
  "status_of (the (auth_middleware (\<lambda>_. Inr None) 5 0 ''events:write'' (\<lambda>_. Some (Reply 200 ()))
     \<lparr>hx_header = (\<lambda>_. ''''), hx_path_value = (\<lambda>_. ''''), hx_query = [], hx_body = [], hx_remote = [],
      hx_principal = None, hx_request_id = []\<rparr>)) \<in> {401, 403}"
proof -
  let ?r = "\<lparr>hx_header = (\<lambda>_. ''''), hx_path_value = (\<lambda>_. ''''), hx_query = [], hx_body = [], hx_remote = [],
      hx_principal = None, hx_request_id = []\<rparr> :: principal request"
  have "auth_middleware (\<lambda>_. Inr None) 5 0 ''events:write'' (\<lambda>_. Some (Reply 200 ())) ?r
      = Some (write_problem ?r 401 ''unauthorized'' ''Authentication required'')"
    by (simp add: auth_middleware_def authenticate_handler_def authenticate_request_def bearer_def has_prefix_def)
  from this middleware_admits_only [OF this] show ?thesis by auto
qed

lemma authenticate_db:
  assumes "token_prefix token = Some prefix" and "authenticate_key s prefix = Some r"
    and "ar_verifier r = verifier pepper token"
  shows "authenticate_token (db_lookup s) pepper now token =
    (if ar_status r = ''active'' \<and> ar_workspace_status r = ''active''
        \<and> (case ar_expires r of None \<Rightarrow> True | Some e \<Rightarrow> now < e)
     then Inr \<lparr>pr_api_key = ar_api_key r, pr_workspace = ar_workspace r, pr_scopes = set (ar_scopes r)\<rparr>
     else Inl Err_unauthorized)"
  using assms by (auto simp: authenticate_token_def db_lookup_def Let_def verifier_def split: option.splits)

lemma bootstrap_Inr:
  assumes "bootstrap e name s = (Inr b, s', f)"
  obtains pre sec audit prefix ver where
    "ad_workspaces s = []" "be_workspace_id e = Some (bt_workspace b)" "be_key_id e = Some (bt_api_key b)"
    "be_prefix_raw e = Some pre" "be_secret e = Some sec"
    "generate_token (be_test e) (be_pepper e) (Some pre) (Some sec) = Inr (bt_token b, prefix, ver)"
    "s' = bootstrap_insert (bt_workspace b) (bt_api_key b) audit name prefix ver s" "f = Some b"
  using assms
  by (auto simp: bootstrap_def Let_def generate_token_def split: if_splits option.splits prod.splits)

text \<open>C19. The first credential works and stays the only one made this way: after a bootstrap of an empty
  database the credential handed to the sink authenticates as the new workspace with exactly the four
  scopes, at any time; a second bootstrap is refused and changes nothing; and once the key is revoked the
  token authenticates no more.\<close>

theorem bootstrap_then_revoke:
  assumes "bootstrap e name s = (Inr b, s', f)" and "ad_keys s = []" and "ad_scopes s = []"
    and "\<forall>bs. be_prefix_raw e = Some bs \<longrightarrow> length bs = 8" and "\<forall>bs. be_secret e = Some bs \<longrightarrow> length bs = 32"
    and "token_prefix (bt_token b) = Some prefix" and "revoke prefix t audit True s' = (Inr True, s'')"
  shows "f = Some b
    \<and> authenticate_token (db_lookup s') (be_pepper e) now (bt_token b)
        = Inr \<lparr>pr_api_key = bt_api_key b, pr_workspace = bt_workspace b, pr_scopes = set bootstrap_scopes\<rparr>
    \<and> (\<forall>e' name' r s3 g. bootstrap e' name' s' = (r, s3, g) \<longrightarrow> s3 = s' \<and> g = None \<and> (\<exists>err. r = Inl err))
    \<and> authenticate_token (db_lookup s'') (be_pepper e) now (bt_token b) = Inl Err_unauthorized"
proof -
  from assms(1) obtain pre sec aud prefix' ver where b: "be_prefix_raw e = Some pre" "be_secret e = Some sec"
    "ad_workspaces s = []"
    "generate_token (be_test e) (be_pepper e) (Some pre) (Some sec) = Inr (bt_token b, prefix', ver)"
    "s' = bootstrap_insert (bt_workspace b) (bt_api_key b) aud name prefix' ver s" "f = Some b"
    by (rule bootstrap_Inr)
  have len: "length pre = 8" "length sec = 32" using assms(4,5) b by auto
  from token_prefix_generated [OF b(4) len] assms(6)
  have p: "prefix' = prefix" "token_prefix (bt_token b) = Some prefix" "ver = verifier (be_pepper e) (bt_token b)"
    "length prefix = 16" using len by auto
  have k: "ad_keys s' = [\<lparr>ak_id = bt_api_key b, ak_workspace = bt_workspace b, ak_prefix = prefix,
      ak_verifier = ver, ak_status = ''active'', ak_expires = None, ak_revoked = None\<rparr>]"
    "ad_workspaces s' = [\<lparr>aw_id = bt_workspace b, aw_name = name, aw_status = ''active''\<rparr>]"
    "ad_scopes s' = map (\<lambda>sc. (bt_workspace b, bt_api_key b, sc)) bootstrap_scopes"
    using b(3,5) assms(2,3) p(1) by (simp_all add: bootstrap_insert_def)
  have r: "ad_keys s'' = map (\<lambda>x. x\<lparr>ak_status := ''revoked'', ak_revoked := Some t\<rparr>) (ad_keys s')"
    "ad_workspaces s'' = ad_workspaces s'"
    using assms(7) k by (auto simp: revoke_def update_where_def split: option.splits)
  have f: "authenticate_key s' prefix = Some \<lparr>ar_api_key = bt_api_key b, ar_workspace = bt_workspace b, ar_verifier = ver,
      ar_status = ''active'', ar_workspace_status = ''active'', ar_expires = None, ar_scopes = bootstrap_scopes\<rparr>"
    "authenticate_key s'' prefix = Some \<lparr>ar_api_key = bt_api_key b, ar_workspace = bt_workspace b, ar_verifier = ver,
      ar_status = ''revoked'', ar_workspace_status = ''active'', ar_expires = None,
      ar_scopes = map (\<lambda>(_, _, sc). sc) (filter (\<lambda>(ws, kid, _). ws = bt_workspace b \<and> kid = bt_api_key b) (ad_scopes s''))\<rparr>"
    by (simp_all add: authenticate_key_def k r p(4) comp_def)
  have "authenticate_token (db_lookup s') (be_pepper e) now (bt_token b)
        = Inr \<lparr>pr_api_key = bt_api_key b, pr_workspace = bt_workspace b, pr_scopes = set bootstrap_scopes\<rparr>"
    using authenticate_db [OF p(2) f(1)] p(3) by simp
  moreover have "authenticate_token (db_lookup s'') (be_pepper e) now (bt_token b) = Inl Err_unauthorized"
    using authenticate_db [OF p(2) f(2)] p(3) by simp
  moreover have "s3 = s' \<and> g = None \<and> (\<exists>err. q = Inl err)" if "bootstrap e' name' s' = (q, s3, g)" for e' name' q s3 g
    using that k(2) by (auto simp: bootstrap_def split: if_splits)
  ultimately show ?thesis using b(6) by blast
qed

definition demo_bootstrap_env :: bootstrap_env where
  "demo_bootstrap_env = \<lparr>be_test = True, be_pepper = 5, be_workspace_id = Some 1, be_key_id = Some 2, be_audit_id = Some 3,
     be_prefix_raw = Some ''01234567'', be_secret = Some (replicate 32 CHR ''s''), be_exec = True, be_insert = True,
     be_sink = Some (\<lambda>_. Some True), be_commit = True\<rparr>"

definition empty_auth_db :: auth_db where
  "empty_auth_db = \<lparr>ad_workspaces = [], ad_keys = [], ad_scopes = [], ad_audits = []\<rparr>"

lemma bootstrap_then_revoke_witness:
  "\<exists>b s' s''. bootstrap demo_bootstrap_env ''ws'' empty_auth_db = (Inr b, s', Some b)
     \<and> authenticate_token (db_lookup s') 5 99 (bt_token b)
         = Inr \<lparr>pr_api_key = 2, pr_workspace = 1, pr_scopes = set bootstrap_scopes\<rparr>
     \<and> authenticate_token (db_lookup s'') 5 99 (bt_token b) = Inl Err_unauthorized"
proof -
  obtain token prefix ver where g: "generate_token True 5 (Some ''01234567'') (Some (replicate 32 CHR ''s''))
      = Inr (token, prefix, ver)" by (simp add: generate_token_def Let_def)
  let ?b = "\<lparr>bt_workspace = 1, bt_api_key = 2, bt_token = token\<rparr>"
  let ?s = "bootstrap_insert 1 2 3 ''ws'' prefix ver empty_auth_db"
  have boot: "bootstrap demo_bootstrap_env ''ws'' empty_auth_db = (Inr ?b, ?s, Some ?b)"
    using g by (simp add: bootstrap_def demo_bootstrap_env_def empty_auth_db_def Let_def)
  have p: "token_prefix token = Some prefix" using token_prefix_generated [OF g] by simp
  obtain s'' where rv: "revoke prefix 50 (Some 9) True ?s = (Inr True, s'')"
    by (simp add: revoke_def bootstrap_insert_def empty_auth_db_def)
  have pre: "ad_keys empty_auth_db = []" "ad_scopes empty_auth_db = []"
    "\<forall>bs. be_prefix_raw demo_bootstrap_env = Some bs \<longrightarrow> length bs = 8"
    "\<forall>bs. be_secret demo_bootstrap_env = Some bs \<longrightarrow> length bs = 32"
    by (simp_all add: empty_auth_db_def demo_bootstrap_env_def)
  have t: "token_prefix (bt_token ?b) = Some prefix" using p by simp
  from bootstrap_then_revoke [OF boot pre t rv, of 99] boot
  show ?thesis by (intro exI [of _ ?b] exI [of _ ?s] exI [of _ s'']) (simp add: demo_bootstrap_env_def)
qed

end
