(* ===== verification/Paging.thy ===== *)
theory Paging
  imports Go_Strings "HOL-Library.Product_Lexorder"
begin

text \<open>
  Keyset pagination: the query both lists of the API run (\<open>ORDER BY created_at DESC, id DESC\<close> after a
  cursor, limited), and the contract of a list whose pages are walked by their cursors.
\<close>

type_synonym position = "instant \<times> uuid"

definition newest_first :: "('r \<Rightarrow> position) \<Rightarrow> 'r list \<Rightarrow> 'r list" where
  "newest_first key rows = rev (sort_key key rows)"

definition keyset_query :: "('r \<Rightarrow> position) \<Rightarrow> position option \<Rightarrow> nat \<Rightarrow> 'r list \<Rightarrow> 'r list" where
  "keyset_query key after n rows =
     take n (newest_first key (filter (\<lambda>r. case after of None \<Rightarrow> True | Some p \<Rightarrow> key r < p) rows))"

lemma newest_first_filter: "newest_first key (filter P rows) = filter P (newest_first key rows)"
  unfolding newest_first_def filter_sort [symmetric] rev_filter ..

lemma set_newest_first [simp]: "set (newest_first key rows) = set rows"
  by (simp add: newest_first_def)

lemma length_newest_first [simp]: "length (newest_first key rows) = length rows"
  by (simp add: newest_first_def)

lemma newest_first_sorted:
  assumes "distinct (map key rows)"
  shows "sorted_wrt (\<lambda>a b. key b < key a) (newest_first key rows)"
proof -
  have "distinct (map key (sort_key key rows))"
    using assms by (simp add: distinct_map)
  then have "sorted_wrt (<) (map key (sort_key key rows))" by (simp add: strict_sorted_iff)
  then show ?thesis by (simp add: newest_first_def sorted_wrt_rev sorted_wrt_map)
qed

lemma filter_after:
  assumes "sorted_wrt (\<lambda>a b. key b < (key a :: position)) xs" and "0 < n" and "n \<le> length xs"
  shows "filter (\<lambda>r. key r < key (xs ! (n - 1))) xs = drop n xs"
  using assms
proof (induction xs arbitrary: n)
  case (Cons x xs)
  show ?case
  proof (cases "n = 1")
    case True
    then show ?thesis using Cons.prems by (auto intro!: filter_True)
  next
    case False
    with Cons.prems obtain m where n: "n = Suc (Suc m)" "Suc m \<le> length xs"
      by (metis One_nat_def Suc_le_mono gr0_implies_Suc length_Cons neq0_conv)
    have "key (xs ! m) < key x" using Cons.prems n by simp
    then have "\<not> key x < key (xs ! m)" by (rule less_not_sym)
    then show ?thesis using Cons.IH [of "Suc m"] Cons.prems n by simp
  qed
qed simp

lemma keyset_query_at:
  assumes "distinct (map key rows)" and "n \<le> length rows"
  shows "keyset_query key (if n = 0 then None else Some (key (newest_first key rows ! (n - 1)))) m rows
    = take m (drop n (newest_first key rows))"
  using filter_after [OF newest_first_sorted [OF assms(1)], of n] assms(2)
  by (simp add: keyset_query_def newest_first_filter)

section \<open>Walking the pages\<close>

text \<open>
  What a client does: ask for the first page, then follow each cursor until none comes back. \<open>fuel\<close>
  bounds the number of pages (\<open>None\<close> when it is used up).
\<close>

fun walk_pages :: "(string \<Rightarrow> 'e + ('i list \<times> string)) \<Rightarrow> nat \<Rightarrow> string \<Rightarrow> ('e + 'i list) option" where
  "walk_pages page 0 raw = None"
| "walk_pages page (Suc fuel) raw =
     (case page raw of
        Inl e \<Rightarrow> Some (Inl e)
      | Inr (items, cursor) \<Rightarrow>
          if cursor = [] then Some (Inr items)
          else (case walk_pages page fuel cursor of
                  None \<Rightarrow> None
                | Some (Inl e) \<Rightarrow> Some (Inl e)
                | Some (Inr rest) \<Rightarrow> Some (Inr (items @ rest))))"

text \<open>
  A paged list over data \<open>d\<close>: \<open>mark d n\<close> is the cursor that stands after the first \<open>n\<close> rows, and a page
  asked for there holds the next rows and the next mark.
\<close>

locale paged_list =
  fixes good :: "'d \<Rightarrow> bool"
    and page :: "'d \<Rightarrow> string \<Rightarrow> 'e + ('i list \<times> string)"
    and rows :: "'d \<Rightarrow> 'i list"
    and lim :: "'d \<Rightarrow> nat"
    and mark :: "'d \<Rightarrow> nat \<Rightarrow> string"
  assumes lim_pos: "good d \<Longrightarrow> 0 < lim d"
    and mark_0: "mark d 0 = []"
    and mark_more: "good d \<Longrightarrow> 0 < n \<Longrightarrow> n < length (rows d) \<Longrightarrow> mark d n \<noteq> []"
    and page_at: "good d \<Longrightarrow> n \<le> length (rows d) \<Longrightarrow> page d (mark d n)
        = Inr (take (lim d) (drop n (rows d)), if n + lim d < length (rows d) then mark d (n + lim d) else [])"
begin

lemma walk_from:
  "good d \<Longrightarrow> n \<le> length (rows d) \<Longrightarrow> length (rows d) - n < fuel \<Longrightarrow>
     walk_pages (page d) fuel (mark d n) = Some (Inr (drop n (rows d)))"
proof (induction fuel arbitrary: n)
  case (Suc fuel)
  have l: "0 < lim d" using lim_pos Suc.prems(1) .
  show ?case
  proof (cases "n + lim d < length (rows d)")
    case True
    then have "mark d (n + lim d) \<noteq> []" using mark_more Suc.prems(1) l by simp
    moreover have "walk_pages (page d) fuel (mark d (n + lim d)) = Some (Inr (drop (n + lim d) (rows d)))"
      using Suc.IH Suc.prems True l by simp
    moreover have "take (lim d) (drop n (rows d)) @ drop (n + lim d) (rows d) = drop n (rows d)"
      by (metis append_take_drop_id drop_drop add.commute)
    ultimately show ?thesis using page_at [OF Suc.prems(1,2)] True by simp
  next
    case False
    then show ?thesis using page_at [OF Suc.prems(1,2)] by simp
  qed
qed simp

lemma walk_complete: "good d \<Longrightarrow> walk_pages (page d) (Suc (length (rows d))) [] = Some (Inr (rows d))"
  using walk_from [of d 0 "Suc (length (rows d))"] mark_0 [of d] by simp

end

end
