(* ===== verification/Delivery_Views.thy ===== *)
theory Delivery_Views
  imports Paging Auth Deliver
begin

text \<open>
  What the API shows of deliveries and how it requests a replay: \<open>views_postgres.go\<close>, \<open>replay.go\<close> and
  \<open>http.go\<close> of \<open>internal/delivery\<close>. \<open>uuid.Parse\<close>, \<open>uuid.UUID.String\<close> and the JSON decoder are arguments.
\<close>

section \<open>Reading\<close>

record delivery_summary =
  sy_id :: uuid
  sy_event :: uuid
  sy_endpoint :: uuid
  sy_status :: delivery_status
  sy_created :: instant
  sy_updated :: instant

record attempt_view =
  av_id :: uuid
  av_sequence :: int
  av_state :: attempt_state
  av_outcome :: "string option"
  av_http :: "int option"
  av_error :: "string option"
  av_started :: instant
  av_finished :: "instant option"

record delivery_details =
  dd_summary :: delivery_summary
  dd_attempts :: "attempt_view list"

record list_result =
  lr_items :: "delivery_summary list"
  lr_next :: string

definition summary_of :: "delivery_row \<Rightarrow> delivery_summary" where
  "summary_of d = \<lparr>sy_id = dr_id d, sy_event = dr_event d, sy_endpoint = dr_endpoint d, sy_status = dr_status d,
                   sy_created = dr_created d, sy_updated = dr_updated d\<rparr>"

definition attempt_of :: "attempt_row \<Rightarrow> attempt_view" where
  "attempt_of a = \<lparr>av_id = at_id a, av_sequence = at_seq a, av_state = at_state a, av_outcome = at_outcome a,
                   av_http = at_http a, av_error = at_error a, av_started = at_started a,
                   av_finished = at_finished a\<rparr>"

definition get_delivery :: "uuid \<Rightarrow> uuid \<Rightarrow> db \<Rightarrow> store_error + delivery_details" where
  "get_delivery ws i s =
     (case find (\<lambda>d. dr_ws d = ws \<and> dr_id d = i) (db_deliveries s) of
        None \<Rightarrow> Inl Err_not_found
      | Some d \<Rightarrow> Inr \<lparr>dd_summary = summary_of d,
                       dd_attempts = map attempt_of (sort_key at_seq
                         (filter (\<lambda>a. at_ws a = ws \<and> at_delivery a = i) (db_attempts s)))\<rparr>)"

definition delivery_position :: "delivery_row \<Rightarrow> position" where
  "delivery_position d = (dr_created d, dr_id d)"

text \<open>The position a cursor stands for; the zero time means the start of the list.\<close>

definition cursor_position :: "list_cursor \<Rightarrow> position option" where
  "cursor_position c = (if lc_created_at c = zero_time then None else Some (lc_created_at c, lc_id c))"

definition list_deliveries ::
    "key256 \<Rightarrow> uuid \<Rightarrow> int \<Rightarrow> string \<Rightarrow> db \<Rightarrow> list_error + list_result" where
  "list_deliveries pepper ws limit raw s =
     (if limit < 1 \<or> limit > 100 then Inl Err_invalid_list
      else case decode_cursor pepper ws raw of
        Inl e \<Rightarrow> Inl e
      | Inr cursor \<Rightarrow>
          let items = map summary_of (keyset_query delivery_position (cursor_position cursor) (nat (limit + 1))
                        (filter (\<lambda>d. dr_ws d = ws) (db_deliveries s)))
          in if int (length items) > limit
             then let shown = take (nat limit) items; lst = last shown
                  in (case encode_cursor pepper ws \<lparr>lc_created_at = sy_created lst, lc_id = sy_id lst\<rparr> of
                        Inl e \<Rightarrow> Inl e
                      | Inr nxt \<Rightarrow> Inr \<lparr>lr_items = shown, lr_next = nxt\<rparr>)
             else Inr \<lparr>lr_items = items, lr_next = []\<rparr>)"

section \<open>Requesting a replay\<close>

definition valid_reason :: "string \<Rightarrow> bool" where
  "valid_reason v \<longleftrightarrow> 1 \<le> length v \<and> length v \<le> 500 \<and> valid_utf8 v \<and> \<not> has_control v"

definition replay_mac :: "key256 \<Rightarrow> string \<Rightarrow> bytes" where
  "replay_mac key v = hmac_sha256 (key_bytes key) v"

definition replay_service ::
    "uuid_text \<Rightarrow> materials \<Rightarrow> uuid option \<Rightarrow> uuid option \<Rightarrow> uuid \<Rightarrow> uuid \<Rightarrow> uuid \<Rightarrow> string \<Rightarrow> string \<Rightarrow> string
      \<Rightarrow> store_error + replay_command" where
  "replay_service us m commandID auditID ws delivery actor idempotencyKey reason0 requestID =
     (let reason = trim_space reason0
      in if ws = uuid_nil \<or> delivery = uuid_nil \<or> actor = uuid_nil
            \<or> length idempotencyKey < 1 \<or> length idempotencyKey > 128 \<or> \<not> valid_reason reason
            \<or> length requestID < 1 \<or> length requestID > 128
         then Inl Err_invalid_replay
         else case (commandID, auditID) of
           (Some cmd, Some audit) \<Rightarrow>
             Inr \<lparr>rq_command = cmd, rq_ws = ws, rq_delivery = delivery, rq_actor = us actor,
                  rq_key_hash = replay_mac (m_idempotency_pepper m) (''replay-key:v1'' @ [byte_of 10] @ idempotencyKey),
                  rq_fingerprint = replay_mac (m_fingerprint_pepper m)
                    (''replay-fingerprint:v1'' @ [byte_of 10] @ us delivery @ [byte_of 10] @ reason),
                  rq_fingerprint_version = 1, rq_reason = reason, rq_request_id = requestID\<rparr>
         | _ \<Rightarrow> Inl Err_uuid)"

definition request_replay_as ::
    "uuid_text \<Rightarrow> materials \<Rightarrow> uuid option \<Rightarrow> uuid option \<Rightarrow> (nat \<Rightarrow> instant) \<Rightarrow> uuid \<Rightarrow> uuid \<Rightarrow> uuid \<Rightarrow> string
      \<Rightarrow> string \<Rightarrow> string \<Rightarrow> db \<Rightarrow> store_error + (replay_result \<times> db)" where
  "request_replay_as us m commandID auditID clk ws delivery actor key reason requestID s =
     (case replay_service us m commandID auditID ws delivery actor key reason requestID of
        Inl e \<Rightarrow> Inl e
      | Inr c \<Rightarrow> store_request_replay c clk s)"

section \<open>The handlers\<close>

datatype delivery_body =
  Body_details delivery_details | Body_list list_result | Body_replay replay_result

definition request_principal :: "principal request \<Rightarrow> principal" where
  "request_principal r =
     (case hx_principal r of
        None \<Rightarrow> \<lparr>pr_api_key = uuid_nil, pr_workspace = uuid_nil, pr_scopes = {}\<rparr>
      | Some p \<Rightarrow> p)"

definition get_handler ::
    "(string \<Rightarrow> uuid option) \<Rightarrow> db \<Rightarrow> principal request \<Rightarrow> delivery_body reply" where
  "get_handler parse_uuid s r =
     (case parse_uuid (hx_path_value r ''id'') of
        None \<Rightarrow> write_problem r 404 ''not_found'' ''Resource not found''
      | Some i \<Rightarrow>
          (case get_delivery (pr_workspace (request_principal r)) i s of
             Inl e \<Rightarrow> if e = Err_not_found then write_problem r 404 ''not_found'' ''Resource not found''
                      else internal_error r
           | Inr details \<Rightarrow> Reply 200 (Body_details details)))"

definition query_get :: "(string \<times> string list) list \<Rightarrow> string \<Rightarrow> string" where
  "query_get q name = (case map_of q name of None \<Rightarrow> [] | Some [] \<Rightarrow> [] | Some (v # vs) \<Rightarrow> v)"

definition list_parameters :: "(string \<times> string list) list \<Rightarrow> (int \<times> string) option" where
  "list_parameters q =
     (if list_ex (\<lambda>(name, vs). name \<noteq> ''limit'' \<and> name \<noteq> ''cursor'' \<or> length vs \<noteq> 1) q then None
      else
        let raw = query_get q ''limit'';
            limit = (if raw = [] then Some 50 else atoi raw)
        in case limit of
             None \<Rightarrow> None
           | Some n \<Rightarrow> if n < 1 \<or> n > 100 then None else Some (n, query_get q ''cursor''))"

definition list_handler :: "materials \<Rightarrow> db \<Rightarrow> principal request \<Rightarrow> delivery_body reply" where
  "list_handler m s r =
     (case list_parameters (hx_query r) of
        None \<Rightarrow> write_problem r 400 ''invalid_page'' ''Invalid page parameters''
      | Some (limit, cursor) \<Rightarrow>
          (case list_deliveries (m_cursor_pepper m) (pr_workspace (request_principal r)) limit cursor s of
             Inl e \<Rightarrow> if e = Err_invalid_list
                      then write_problem r 400 ''invalid_page'' ''Invalid page parameters''
                      else internal_error r
           | Inr result \<Rightarrow> Reply 200 (Body_list result)))"

definition write_replay_result ::
    "principal request \<Rightarrow> store_error + replay_result \<Rightarrow> delivery_body reply" where
  "write_replay_result r result =
     (case result of
        Inl e \<Rightarrow>
          (if e = Err_invalid_replay then write_problem r 422 ''invalid_replay'' ''Invalid replay request''
           else if e = Err_replay_conflict
             then write_problem r 409 ''idempotency_conflict'' ''Idempotency key was used with different content''
           else if e = Err_not_found then write_problem r 404 ''not_found'' ''Resource not found''
           else if e = Err_payload_purged
             then write_problem r 409 ''payload_purged'' ''Payload is no longer available''
           else if e = Err_invalid_transition
             then write_problem r 409 ''invalid_transition'' ''Delivery cannot be replayed''
           else internal_error r)
      | Inr x \<Rightarrow> Reply 202 (Body_replay x))"

text \<open>
  \<open>decode\<close> is the strict JSON decoder over the body limited to 4 KiB: the reason, when the body is one
  object with no other member and nothing after it.
\<close>

definition replay_handler ::
    "(string \<Rightarrow> uuid option) \<Rightarrow> (bytes \<Rightarrow> string option) \<Rightarrow> uuid_text \<Rightarrow> materials \<Rightarrow> uuid option \<Rightarrow> uuid option
      \<Rightarrow> (nat \<Rightarrow> instant) \<Rightarrow> db \<Rightarrow> principal request \<Rightarrow> delivery_body reply \<times> db" where
  "replay_handler parse_uuid decode us m commandID auditID clk s r =
     (case parse_uuid (hx_path_value r ''id'') of
        None \<Rightarrow> (write_problem r 404 ''not_found'' ''Resource not found'', s)
      | Some delivery \<Rightarrow>
          if hx_header r ''Content-Type'' \<noteq> ''application/json''
          then (write_problem r 415 ''unsupported_media_type'' ''Content-Type must be application/json'', s)
          else
            let key = trim_space (hx_header r ''Idempotency-Key'')
            in if key = [] then (write_problem r 400 ''idempotency_key_required'' ''Idempotency-Key is required'', s)
               else case decode (hx_body r) of
                 None \<Rightarrow> (write_problem r 400 ''invalid_request'' ''Invalid request'', s)
               | Some reason \<Rightarrow>
                   let p = request_principal r
                   in (case request_replay_as us m commandID auditID clk (pr_workspace p) delivery (pr_api_key p) key
                              reason (hx_request_id r) s of
                         Inl e \<Rightarrow> (write_replay_result r (Inl e), s)
                       | Inr (x, s') \<Rightarrow> (write_replay_result r (Inr x), s')))"

section \<open>Pages are complete\<close>

type_synonym list_data = "key256 \<times> uuid \<times> int \<times> db"

definition own_deliveries :: "uuid \<Rightarrow> db \<Rightarrow> delivery_row list" where
  "own_deliveries ws s = filter (\<lambda>d. dr_ws d = ws) (db_deliveries s)"

definition list_ready :: "list_data \<Rightarrow> bool" where
  "list_ready x = (case x of (pepper, ws, limit, s) \<Rightarrow>
     pepper \<noteq> 0 \<and> ws \<noteq> uuid_nil \<and> 1 \<le> limit \<and> limit \<le> 100 \<and> distinct (map dr_id (own_deliveries ws s))
     \<and> (\<forall>d\<in>set (own_deliveries ws s). dr_id d \<noteq> uuid_nil \<and> in_int64 (dr_created d)))"

definition list_page :: "list_data \<Rightarrow> string \<Rightarrow> list_error + (delivery_summary list \<times> string)" where
  "list_page x raw = (case x of (pepper, ws, limit, s) \<Rightarrow>
     (case list_deliveries pepper ws limit raw s of Inl e \<Rightarrow> Inl e | Inr r \<Rightarrow> Inr (lr_items r, lr_next r)))"

definition list_rows :: "list_data \<Rightarrow> delivery_summary list" where
  "list_rows x = (case x of (pepper, ws, limit, s) \<Rightarrow>
     map summary_of (newest_first delivery_position (own_deliveries ws s)))"

definition list_limit :: "list_data \<Rightarrow> nat" where
  "list_limit x = (case x of (pepper, ws, limit, s) \<Rightarrow> nat limit)"

definition list_mark :: "list_data \<Rightarrow> nat \<Rightarrow> string" where
  "list_mark x n = (case x of (pepper, ws, limit, s) \<Rightarrow>
     (if n = 0 then []
      else let r = list_rows x ! (n - 1)
           in (case encode_cursor pepper ws \<lparr>lc_created_at = sy_created r, lc_id = sy_id r\<rparr> of
                 Inl e \<Rightarrow> [] | Inr raw \<Rightarrow> raw)))"

lemma own_position_distinct:
  "distinct (map dr_id (own_deliveries ws s)) \<Longrightarrow> distinct (map delivery_position (own_deliveries ws s))"
  by (auto simp: distinct_map inj_on_def delivery_position_def)

lemma list_row_nth:
  "n < length (own_deliveries ws s) \<Longrightarrow> list_rows (pepper, ws, limit, s) ! n
     = summary_of (newest_first delivery_position (own_deliveries ws s) ! n)"
  by (simp add: list_rows_def)

lemma int64_not_zero_time: "in_int64 t \<Longrightarrow> t \<noteq> zero_time"
  by (auto simp: in_int64_def zero_time_def)

lemma encode_own:
  assumes "list_ready (pepper, ws, limit, s)" and "d \<in> set (own_deliveries ws s)"
  shows "\<exists>raw. encode_cursor pepper ws \<lparr>lc_created_at = dr_created d, lc_id = dr_id d\<rparr> = Inr raw \<and> raw \<noteq> []
    \<and> decode_cursor pepper ws raw = Inr \<lparr>lc_created_at = dr_created d, lc_id = dr_id d\<rparr>"
proof -
  have r: "pepper \<noteq> 0" "ws \<noteq> uuid_nil" "dr_id d \<noteq> uuid_nil" "in_int64 (dr_created d)" "dr_created d \<noteq> zero_time"
    using assms int64_not_zero_time by (auto simp: list_ready_def)
  then obtain raw where e: "encode_cursor pepper ws \<lparr>lc_created_at = dr_created d, lc_id = dr_id d\<rparr> = Inr raw"
    by (simp add: encode_cursor_def Let_def)
  with cursor_back [of "\<lparr>lc_created_at = dr_created d, lc_id = dr_id d\<rparr>" pepper ws raw] r(4) show ?thesis by simp
qed

lemma list_mark_cursor:
  assumes "list_ready (pepper, ws, limit, s)" and "n \<le> length (own_deliveries ws s)"
  shows "\<exists>c. decode_cursor pepper ws (list_mark (pepper, ws, limit, s) n) = Inr c
    \<and> cursor_position c = (if n = 0 then None
        else Some (delivery_position (newest_first delivery_position (own_deliveries ws s) ! (n - 1))))
    \<and> (0 < n \<longrightarrow> list_mark (pepper, ws, limit, s) n \<noteq> [])"
proof (cases "n = 0")
  case True
  then show ?thesis by (simp add: list_mark_def decode_cursor_def zero_cursor_def cursor_position_def)
next
  case False
  let ?d = "newest_first delivery_position (own_deliveries ws s) ! (n - 1)"
  have "?d \<in> set (own_deliveries ws s)" using False assms(2) nth_mem [of "n - 1" "newest_first delivery_position (own_deliveries ws s)"] by simp
  then obtain raw where raw: "encode_cursor pepper ws \<lparr>lc_created_at = dr_created ?d, lc_id = dr_id ?d\<rparr> = Inr raw" "raw \<noteq> []"
    "decode_cursor pepper ws raw = Inr \<lparr>lc_created_at = dr_created ?d, lc_id = dr_id ?d\<rparr>" "dr_created ?d \<noteq> zero_time"
    using encode_own [OF assms(1)] int64_not_zero_time assms(1) by (force simp: list_ready_def)
  have "list_mark (pepper, ws, limit, s) n = raw"
    using False assms(2) raw(1) by (simp add: list_mark_def list_row_nth Let_def summary_of_def)
  then show ?thesis using raw False
    by (intro exI [of _ "\<lparr>lc_created_at = dr_created ?d, lc_id = dr_id ?d\<rparr>"]) (simp add: cursor_position_def delivery_position_def)
qed

lemma list_page_at:
  assumes "list_ready x" and "n \<le> length (list_rows x)"
  shows "list_page x (list_mark x n) = Inr (take (list_limit x) (drop n (list_rows x)),
    if n + list_limit x < length (list_rows x) then list_mark x (n + list_limit x) else [])"
proof -
  obtain pepper ws limit s where x: "x = (pepper, ws, limit, s)" by (cases x)
  define ds where "ds = newest_first delivery_position (own_deliveries ws s)"
  have n: "n \<le> length (own_deliveries ws s)" and ready: "list_ready (pepper, ws, limit, s)"
    using assms by (simp_all add: x list_rows_def)
  have lim: "1 \<le> limit" "limit \<le> 100" "\<not> limit < 1" "\<not> 100 < limit" using ready by (auto simp: list_ready_def)
  obtain c where c: "decode_cursor pepper ws (list_mark x n) = Inr c"
    "cursor_position c = (if n = 0 then None else Some (delivery_position (ds ! (n - 1))))"
    using list_mark_cursor [OF ready n] unfolding x ds_def by blast
  have q: "keyset_query delivery_position (cursor_position c) (nat (limit + 1)) (own_deliveries ws s)
      = take (nat (limit + 1)) (drop n ds)"
    unfolding c(2) ds_def using ready n
    by (intro keyset_query_at own_position_distinct) (simp_all add: list_ready_def)
  have items: "map summary_of (keyset_query delivery_position (cursor_position c) (nat (limit + 1))
      (filter (\<lambda>d. dr_ws d = ws) (db_deliveries s))) = take (Suc (nat limit)) (drop n (list_rows x))"
    using q lim(1) by (simp add: own_deliveries_def [symmetric] list_rows_def x ds_def take_map drop_map nat_add_distrib)
  let ?page = "keyset_query delivery_position (cursor_position c) (nat (limit + 1)) (filter (\<lambda>d. dr_ws d = ws) (db_deliveries s))"
  have len: "length ?page = length (take (Suc (nat limit)) (drop n (list_rows x)))"
    using arg_cong [OF items, of length] by simp
  have rows: "length (list_rows x) = length ds" by (simp add: list_rows_def x ds_def)
  show ?thesis
  proof (cases "n + nat limit < length (list_rows x)")
    case True
    have more: "limit < int (length ?page)" unfolding len using True lim(1) by simp
    have shown: "take (nat limit) (take (Suc (nat limit)) (drop n (list_rows x))) = take (nat limit) (drop n (list_rows x))"
      by (simp add: min_def)
    have ne: "take (nat limit) (drop n (list_rows x)) \<noteq> []" using True lim(1) by simp
    have last: "last (take (nat limit) (drop n (list_rows x))) = list_rows x ! (n + nat limit - 1)"
      using True lim(1) ne by (simp add: last_conv_nth)
    obtain d where d: "d \<in> set (own_deliveries ws s)" "list_rows x ! (n + nat limit - 1) = summary_of d"
    proof
      show "list_rows x ! (n + nat limit - 1) = summary_of (ds ! (n + nat limit - 1))"
        using True rows unfolding x ds_def by (intro list_row_nth) (simp add: list_rows_def)
      show "ds ! (n + nat limit - 1) \<in> set (own_deliveries ws s)"
        using True rows nth_mem [of "n + nat limit - 1" ds] by (simp add: ds_def)
    qed
    obtain raw where "encode_cursor pepper ws \<lparr>lc_created_at = dr_created d, lc_id = dr_id d\<rparr> = Inr raw"
      using encode_own [OF ready d(1)] by blast
    then have e: "encode_cursor pepper ws \<lparr>lc_created_at = sy_created (summary_of d), lc_id = sy_id (summary_of d)\<rparr> = Inr raw"
      by (simp add: summary_of_def)
    have "list_mark x (n + nat limit) = raw" using e d(2) lim(1) by (simp add: list_mark_def x Let_def)
    then show ?thesis using True c(1) lim more shown last d(2) e
      by (simp add: list_page_def x list_deliveries_def items [unfolded x] list_limit_def Let_def)
  next
    case False
    then have "\<not> limit < int (length ?page)" unfolding len using lim(1) by simp
    moreover have "take (Suc (nat limit)) (drop n (list_rows x)) = take (nat limit) (drop n (list_rows x))"
      using False by simp
    ultimately show ?thesis using False c(1) lim
      by (simp add: list_page_def x list_deliveries_def items [unfolded x] list_limit_def Let_def)
  qed
qed

interpretation deliveries: paged_list list_ready list_page list_rows list_limit list_mark
proof
  fix d n
  show "list_mark d 0 = []" by (simp add: list_mark_def split: prod.split)
  show "0 < list_limit d" if "list_ready d" using that by (auto simp: list_ready_def list_limit_def)
  show "list_mark d n \<noteq> []" if "list_ready d" "0 < n" "n < length (list_rows d)"
  proof -
    obtain pepper ws limit s where x: "d = (pepper, ws, limit, s)" by (cases d)
    with list_mark_cursor [of pepper ws limit s n] that show ?thesis by (auto simp: list_rows_def)
  qed
qed (rule list_page_at)

text \<open>C20. Following the cursors of the delivery list from the first page returns every delivery of the
  workspace exactly once, newest first, and nothing of another workspace, for any page size from 1 to 100;
  it ends after at most one request per delivery and one more. (No transaction runs in between; creation
  times fit the cursor's 64 bits.)\<close>

theorem delivery_pages_complete:
  assumes "pepper \<noteq> 0" and "ws \<noteq> uuid_nil" and "1 \<le> limit" and "limit \<le> 100"
    and "distinct (map dr_id (own_deliveries ws s))"
    and "\<forall>d\<in>set (own_deliveries ws s). dr_id d \<noteq> uuid_nil \<and> in_int64 (dr_created d)"
  shows "walk_pages (list_page (pepper, ws, limit, s)) (Suc (length (own_deliveries ws s))) []
      = Some (Inr (map summary_of (newest_first delivery_position (own_deliveries ws s))))
    \<and> sorted_wrt (\<lambda>a b. delivery_position b < delivery_position a) (newest_first delivery_position (own_deliveries ws s))"
proof -
  have "list_ready (pepper, ws, limit, s)" using assms by (simp add: list_ready_def)
  from deliveries.walk_complete [OF this] newest_first_sorted [OF own_position_distinct [OF assms(5)]]
  show ?thesis by (simp add: list_rows_def)
qed

lemma delivery_pages_complete_witness:
  "walk_pages (list_page (9, 1, 1, demo_db2)) (Suc (length (own_deliveries 1 demo_db2))) []
     = Some (Inr (map summary_of (newest_first delivery_position (own_deliveries 1 demo_db2))))"
proof -
  have d: "own_deliveries 1 demo_db2 = db_deliveries demo_db2" by (simp add: own_deliveries_def demo_defs)
  show ?thesis
    by (rule delivery_pages_complete [THEN conjunct1]) (simp_all add: d, simp_all add: demo_defs in_int64_def)
qed

section \<open>Replays through the service\<close>

lemma no_control_bytes: "\<not> has_control_rune bs \<Longrightarrow> list_all (\<lambda>b. 32 \<le> b \<and> b \<noteq> 127) bs"
  by (induction bs rule: has_control_rune.induct) auto

lemma replay_service_args:
  assumes "replay_service us m cmd aud ws dl actor key reason req = Inr c"
    and "\<forall>u. 1 \<le> length (us u) \<and> length (us u) \<le> 128"
  shows "replay_args_ok c \<and> rq_ws c = ws \<and> rq_delivery c = dl
    \<and> rq_key_hash c = replay_mac (m_idempotency_pepper m) (''replay-key:v1'' @ [byte_of 10] @ key)
    \<and> rq_fingerprint c = replay_mac (m_fingerprint_pepper m)
        (''replay-fingerprint:v1'' @ [byte_of 10] @ us dl @ [byte_of 10] @ trim_space reason)
    \<and> rq_fingerprint_version c = 1"
proof -
  have ctl: "list_all (\<lambda>ch. 32 \<le> byte_val ch \<and> byte_val ch \<noteq> 127) v" if "\<not> has_control v" for v
    using no_control_bytes [of "map byte_val v"] that by (simp add: has_control_def list_all_length)
  from assms(1) obtain i where c: "c = \<lparr>rq_command = i, rq_ws = ws, rq_delivery = dl, rq_actor = us actor,
      rq_key_hash = replay_mac (m_idempotency_pepper m) (''replay-key:v1'' @ [byte_of 10] @ key),
      rq_fingerprint = replay_mac (m_fingerprint_pepper m)
        (''replay-fingerprint:v1'' @ [byte_of 10] @ us dl @ [byte_of 10] @ trim_space reason),
      rq_fingerprint_version = 1, rq_reason = trim_space reason, rq_request_id = req\<rparr>"
    and v: "valid_reason (trim_space reason)" "req \<noteq> []" "length req \<le> 128"
    unfolding replay_service_def Let_def by (auto simp: not_less split: if_splits option.splits)
  have "length (replay_mac k t) = 32" for k t by (simp add: replay_mac_def)
  then show ?thesis using v assms(2) ctl unfolding c replay_args_ok_def valid_reason_def by (simp add: Suc_le_eq)
qed

text \<open>A replay request is idempotent end to end. What the service lets through, the database never
  refuses as malformed; and once a replay was accepted, every later request of anyone in the workspace with
  the same key, delivery and (trimmed) reason is answered with the same command and run, marked as a
  duplicate, and changes nothing, whatever transactions of the queue (\<open>qstep\<close>) ran in between.\<close>

theorem replay_service_idempotent:
  assumes "db_inv s" and "\<forall>u. 1 \<le> length (us u) \<and> length (us u) \<le> 128"
    and "request_replay_as us m cmd aud clk ws dl actor key reason req s = Inr (x, s1)" and "\<not> rp_duplicate x"
    and "qsteps s1 s2" and "trim_space reason' = trim_space reason"
    and "replay_service us m cmd' aud' ws dl actor' key reason' req' = Inr c'"
  shows "request_replay_as us m cmd' aud' clk' ws dl actor' key reason' req' s2 = Inr (x\<lparr>rp_duplicate := True\<rparr>, s2)
    \<and> rp_delivery_id x = dl \<and> (\<forall>clk s. store_request_replay c' clk s \<noteq> Inl Err_invalid_replay)"
proof -
  from assms(3) obtain c where c: "replay_service us m cmd aud ws dl actor key reason req = Inr c"
    "store_request_replay c clk s = Inr (x, s1)"
    by (auto simp: request_replay_as_def split: sum.splits)
  note a = replay_service_args [OF c(1) assms(2)] and b = replay_service_args [OF assms(7) assms(2)]
  from c(2) assms(4) obtain run where r: "request_replay c clk s = Inr ((rp_command_id x, run, False), s1)"
    "x = \<lparr>rp_command_id = rp_command_id x, rp_delivery_id = dl, rp_run_number = run, rp_duplicate = False\<rparr>"
    using a by (auto simp: store_request_replay_def split: sum.splits)
  have "rq_ws c' = rq_ws c" "rq_key_hash c' = rq_key_hash c" "replay_args_ok c'" using a b by auto
  from replay_again [OF assms(1) r(1) assms(5) this, of clk'] a b assms(6)
  have "request_replay c' clk' s2 = Inr ((rp_command_id x, run, True), s2)" by simp
  then have "store_request_replay c' clk' s2 = Inr (x\<lparr>rp_duplicate := True\<rparr>, s2)"
    using b by (subst r(2)) (simp add: store_request_replay_def)
  moreover have "store_request_replay c' clk s \<noteq> Inl Err_invalid_replay" for clk s
    using b by (auto simp: store_request_replay_def request_replay_def replay_error_def Let_def
        split: option.splits if_splits)
  moreover have "rp_delivery_id x = dl" by (subst r(2)) simp
  ultimately show ?thesis using assms(7) by (simp add: request_replay_as_def)
qed

section \<open>Isolation\<close>

definition own_attempts :: "uuid \<Rightarrow> db \<Rightarrow> attempt_row list" where
  "own_attempts ws s = filter (\<lambda>a. at_ws a = ws) (db_attempts s)"

lemma find_filter: "find P (filter Q xs) = find (\<lambda>x. Q x \<and> P x) xs"
  by (induction xs) auto

lemma get_delivery_own:
  "get_delivery ws i s = (case find (\<lambda>d. dr_id d = i) (own_deliveries ws s) of
        None \<Rightarrow> Inl Err_not_found
      | Some d \<Rightarrow> Inr \<lparr>dd_summary = summary_of d, dd_attempts = map attempt_of (sort_key at_seq
                         (filter (\<lambda>a. at_delivery a = i) (own_attempts ws s)))\<rparr>)"
  unfolding get_delivery_def own_deliveries_def own_attempts_def find_filter filter_filter ..

lemma list_deliveries_own:
  "own_deliveries ws s = own_deliveries ws s' \<Longrightarrow> list_deliveries pepper ws limit raw s = list_deliveries pepper ws limit raw s'"
  unfolding list_deliveries_def own_deliveries_def [symmetric] by (simp only:)

text \<open>What a caller reads depends on its own workspace only: two databases that agree on the rows of the
  caller's workspace give the same response to every Get and every List, whatever identifier, cursor or page
  the request names. In particular a delivery of another workspace is answered like one that does not exist.\<close>

theorem views_isolated:
  assumes "own_deliveries (pr_workspace (request_principal r)) s = own_deliveries (pr_workspace (request_principal r)) s'"
    and "own_attempts (pr_workspace (request_principal r)) s = own_attempts (pr_workspace (request_principal r)) s'"
  shows "get_handler parse_uuid s r = get_handler parse_uuid s' r \<and> list_handler m s r = list_handler m s' r
    \<and> (\<forall>i. parse_uuid (hx_path_value r ''id'') = Some i \<longrightarrow> i \<notin> dr_id ` set (own_deliveries (pr_workspace (request_principal r)) s)
         \<longrightarrow> status_of (get_handler parse_uuid s r) = 404)"
proof -
  let ?ws = "pr_workspace (request_principal r)"
  have g: "get_delivery ?ws i s = get_delivery ?ws i s'" for i
    unfolding get_delivery_own assms ..
  have f: "find (\<lambda>d. dr_id d = i) ds = None" if "i \<notin> dr_id ` set ds" for i ds
    using that by (induction ds) auto
  have n: "get_delivery ?ws i s = Inl Err_not_found" if "i \<notin> dr_id ` set (own_deliveries ?ws s)" for i
    unfolding get_delivery_own f [OF that] option.case ..
  have "get_handler parse_uuid s r = get_handler parse_uuid s' r" by (simp add: get_handler_def g split: option.split)
  moreover have "list_handler m s r = list_handler m s' r"
    unfolding list_handler_def list_deliveries_own [OF assms(1)] ..
  ultimately show ?thesis using n by (simp add: get_handler_def split: option.split)
qed

definition demo_request :: "principal request" where
  "demo_request = \<lparr>hx_header = (\<lambda>_. []), hx_path_value = (\<lambda>_. ''x''), hx_query = [], hx_body = [], hx_remote = [],
     hx_principal = Some \<lparr>pr_api_key = 8, pr_workspace = 2, pr_scopes = {''deliveries:read''}\<rparr>, hx_request_id = ''req''\<rparr>"

lemma views_isolated_witness: "status_of (get_handler (\<lambda>_. Some 10) demo_db2 demo_request) = 404"
proof -
  have "own_deliveries 2 demo_db2 = []" by (simp add: own_deliveries_def demo_defs)
  then show ?thesis using views_isolated [of demo_request demo_db2 demo_db2 "\<lambda>_. Some 10"]
    by (simp add: request_principal_def demo_request_def)
qed

lemma replay_service_idempotent_witness:
  "\<exists>x s1. request_replay_as (\<lambda>_. ''u'') development_materials (Some 50) (Some 60) (\<lambda>_. 3) 1 10 8 ''k'' ''why'' ''r1'' demo_db4
      = Inr (x, s1)
    \<and> request_replay_as (\<lambda>_. ''u'') development_materials (Some 51) (Some 61) (\<lambda>_. 4) 1 10 9 ''k'' ''why'' ''r2'' s1
      = Inr (x\<lparr>rp_duplicate := True\<rparr>, s1)"
proof -
  let ?us = "\<lambda>_::uuid. ''u''" and ?m = development_materials
  have t: "trim_space ''why'' = ''why''" by (rule trim_space_plain) (simp add: plain_char_def)
  have v: "valid_reason ''why''" by (simp add: valid_reason_def valid_utf8_def has_control_def)
  obtain c where c: "replay_service ?us ?m (Some 50) (Some 60) 1 10 8 ''k'' ''why'' ''r1'' = Inr c"
    using t v by (simp add: replay_service_def Let_def)
  obtain c' where c': "replay_service ?us ?m (Some 51) (Some 61) 1 10 9 ''k'' ''why'' ''r2'' = Inr c'"
    using t v by (simp add: replay_service_def Let_def)
  have us: "\<forall>u. 1 \<le> length (?us u) \<and> length (?us u) \<le> 128" by simp
  note a = replay_service_args [OF c us]
  have fin: "finalize_delivery (1, 10) 7 1 ''permanent_failure'' (Some 404) 5 ''http_permanent'' None (\<lambda>_. 2) demo_db2
      = Inr (True, demo_db4)"
    by (simp add: finalize_delivery_def demo_db4_def demo_defs held_by_def dkey_def lease_live_def
        count_where_def akey_def Let_def)
  obtain s1 where "request_replay c (\<lambda>_. 3) demo_db4 = Inr ((rq_command c, 2, False), s1)"
    using a by (simp add: request_replay_def demo_db4_def demo_defs finalize_row_def dkey_def Let_def)
  then obtain x where x: "request_replay_as ?us ?m (Some 50) (Some 60) (\<lambda>_. 3) 1 10 8 ''k'' ''why'' ''r1'' demo_db4
      = Inr (x, s1)" "\<not> rp_duplicate x"
    using c by (simp add: request_replay_as_def store_request_replay_def)
  from replay_service_idempotent [OF finalize_inv [OF demo_inv fin] us x(1,2) rtranclp.rtrancl_refl refl c'] x(1)
  show ?thesis by blast
qed

end
