(* ===== verification/Event.thy ===== *)
theory Event
  imports Delivery_Views
begin

text \<open>
  \<open>internal/event\<close>: validation, idempotent publication and fan-out of events. The JSON tokenizer behind
  \<open>json.Decoder.Token\<close> and the canonicaliser (a third-party package) are arguments; what the package does
  with the tokens is modelled.
\<close>

section \<open>JSON without duplicate members\<close>

text \<open>
  The tokens a decoder yields, up to the end of the input or the first malformed byte. A number is a
  \<open>json.Number\<close>: its type is not \<open>string\<close>.
\<close>

datatype json_token =
  Open_brace | Close_brace | Open_bracket | Close_bracket
  | Tok_string string | Tok_number string | Tok_bool bool | Tok_null

record json_stream =
  js_tokens :: "json_token list"
  js_clean_end :: bool

datatype json_value =
  Json_scalar json_token | Json_object "(string \<times> json_value) list" | Json_array "json_value list"

definition is_delim :: "json_token \<Rightarrow> bool" where
  "is_delim t \<longleftrightarrow> t \<in> {Open_brace, Close_brace, Open_bracket, Close_bracket}"

text \<open>
  \<open>decodeUnique\<close> and its two loops, with the tokens that are left. \<open>More\<close> is false before a closing
  delimiter and at the end. Each call uses up one unit of fuel; \<open>decode_complete\<close> below shows that the
  number of tokens is enough.
\<close>

fun decode_value :: "nat \<Rightarrow> json_token list \<Rightarrow> (json_value \<times> json_token list) option"
and decode_members ::
    "nat \<Rightarrow> (string \<times> json_value) list \<Rightarrow> json_token list \<Rightarrow> (json_value \<times> json_token list) option"
and decode_elements :: "nat \<Rightarrow> json_value list \<Rightarrow> json_token list \<Rightarrow> (json_value \<times> json_token list) option"
where
  "decode_value 0 ts = None"
| "decode_value (Suc n) [] = None"
| "decode_value (Suc n) (t # ts) =
     (if \<not> is_delim t then Some (Json_scalar t, ts)
      else if t = Open_brace then decode_members n [] ts
      else if t = Open_bracket then decode_elements n [] ts
      else None)"
| "decode_members 0 value ts = None"
| "decode_members (Suc n) value [] = None"
| "decode_members (Suc n) value (t # ts) =
     (if t = Close_brace then Some (Json_object value, ts)
      else case t of
        Tok_string key \<Rightarrow>
          if key \<in> fst ` set value then None
          else (case decode_value n ts of
                  None \<Rightarrow> None
                | Some (child, ts') \<Rightarrow> decode_members n (value @ [(key, child)]) ts')
      | _ \<Rightarrow> None)"
| "decode_elements 0 value ts = None"
| "decode_elements (Suc n) value [] = None"
| "decode_elements (Suc n) value (t # ts) =
     (if t = Close_bracket then Some (Json_array value, ts)
      else case decode_value n (t # ts) of
        None \<Rightarrow> None
      | Some (child, ts') \<Rightarrow> decode_elements n (value @ [child]) ts')"

definition decode_unique :: "json_token list \<Rightarrow> (json_value \<times> json_token list) option" where
  "decode_unique ts = decode_value (length ts) ts"

text \<open>The reference: the tokens of a value, and the values whose objects have no duplicate member.\<close>

fun emit :: "json_value \<Rightarrow> json_token list" where
  "emit (Json_scalar t) = [t]"
| "emit (Json_object ms) = Open_brace # concat (map (\<lambda>(k, v). Tok_string k # emit v) ms) @ [Close_brace]"
| "emit (Json_array vs) = Open_bracket # concat (map emit vs) @ [Close_bracket]"

fun unique_members :: "json_value \<Rightarrow> bool" where
  "unique_members (Json_scalar t) = (\<not> is_delim t)"
| "unique_members (Json_object ms) = (distinct (map fst ms) \<and> list_all (\<lambda>(k, v). unique_members v) ms)"
| "unique_members (Json_array vs) = list_all unique_members vs"

section \<open>Types\<close>

datatype event_error = Err_event_invalid | Err_event_conflict | Err_event_other

definition alnum :: "char \<Rightarrow> bool" where
  "alnum c \<longleftrightarrow> is_digit c \<or> 65 \<le> byte_val c \<and> byte_val c \<le> 90 \<or> 97 \<le> byte_val c \<and> byte_val c \<le> 122"

definition event_type_ok :: "string \<Rightarrow> bool" where
  "event_type_ok v \<longleftrightarrow> length v \<le> 128
     \<and> (case v of [] \<Rightarrow> False | c # cs \<Rightarrow> alnum c \<and> list_all (\<lambda>x. alnum x \<or> x \<in> set ''._:-'') cs)"

record json_env =
  je_tokens :: "bytes \<Rightarrow> json_stream"
  je_canonical :: "bytes \<Rightarrow> bytes option"

definition validate_and_canonicalize :: "json_env \<Rightarrow> bytes \<Rightarrow> (string \<times> bytes) option" where
  "validate_and_canonicalize j raw =
     (let s = je_tokens j raw
      in case decode_unique (js_tokens s) of
           None \<Rightarrow> None
         | Some (decoded, rest) \<Rightarrow>
             if rest \<noteq> [] \<or> \<not> js_clean_end s then None
             else (case decoded of
               Json_object ms \<Rightarrow>
                 (case map_of ms ''type'' of
                    Some (Json_scalar (Tok_string eventType)) \<Rightarrow>
                      if \<not> event_type_ok eventType then None
                      else if map_of ms ''data'' = None then None
                      else map_option (\<lambda>c. (eventType, c)) (je_canonical j raw)
                  | _ \<Rightarrow> None)
             | _ \<Rightarrow> None))"

section \<open>decodeUnique parses exactly the values without duplicate members\<close>

abbreviation emit_members :: "(string \<times> json_value) list \<Rightarrow> json_token list" where
  "emit_members ms \<equiv> concat (map (\<lambda>(k, v). Tok_string k # emit v) ms)"

lemma decode_sound:
  "decode_value n ts = Some (v, r) \<Longrightarrow> ts = emit v @ r \<and> unique_members v"
  "decode_members n ms ts = Some (v, r) \<Longrightarrow> unique_members (Json_object ms) \<Longrightarrow>
     \<exists>ms'. v = Json_object (ms @ ms') \<and> ts = emit_members ms' @ Close_brace # r \<and> unique_members v"
  "decode_elements n vs ts = Some (v, r) \<Longrightarrow> unique_members (Json_array vs) \<Longrightarrow>
     \<exists>vs'. v = Json_array (vs @ vs') \<and> ts = concat (map emit vs') @ Close_bracket # r \<and> unique_members v"
proof (induction n ts and n ms ts and n vs ts arbitrary: v r and v r and v r
    rule: decode_value_decode_members_decode_elements.induct)
  case (3 n t ts)
  then show ?case by (auto split: if_splits)
next
  case (6 n ms t ts)
  show ?case
  proof (cases "t = Close_brace")
    case False
    with "6.prems" obtain key child ts' where t: "t = Tok_string key" "key \<notin> fst ` set ms"
      "decode_value n ts = Some (child, ts')" "decode_members n (ms @ [(key, child)]) ts' = Some (v, r)"
      by (auto split: json_token.splits if_splits option.splits)
    have c: "ts = emit child @ ts'" "unique_members child" using "6.IH"(1) [OF False t(1,2,3)] by auto
    have "unique_members (Json_object (ms @ [(key, child)]))" using "6.prems"(2) t(2) c(2) by auto
    from "6.IH"(2) [OF False t(1,2,3) refl t(4) this] obtain ms' where
      "v = Json_object (ms @ (key, child) # ms')" "ts' = emit_members ms' @ Close_brace # r" "unique_members v" by auto
    with c t(1) show ?thesis by (intro exI [of _ "(key, child) # ms'"]) simp
  qed (use "6.prems" in auto)
next
  case (9 n vs t ts)
  show ?case
  proof (cases "t = Close_bracket")
    case False
    with "9.prems" obtain child ts' where t: "decode_value n (t # ts) = Some (child, ts')"
      "decode_elements n (vs @ [child]) ts' = Some (v, r)"
      by (auto split: option.splits)
    have c: "t # ts = emit child @ ts'" "unique_members child" using "9.IH"(1) [OF False t(1)] by auto
    have "unique_members (Json_array (vs @ [child]))" using "9.prems"(2) c(2) by auto
    from "9.IH"(2) [OF False t(1) refl t(2) this] obtain vs' where
      "v = Json_array (vs @ child # vs')" "ts' = concat (map emit vs') @ Close_bracket # r" "unique_members v" by auto
    with c show ?thesis by (intro exI [of _ "child # vs'"]) simp
  qed (use "9.prems" in auto)
qed auto

lemma decode_members_complete:
  assumes "\<And>k v n r. (k, v) \<in> set ms' \<Longrightarrow> length (emit v) \<le> n \<Longrightarrow> decode_value n (emit v @ r) = Some (v, r)"
    and "distinct (map fst (ms @ ms'))" and "Suc (length (emit_members ms')) \<le> n"
  shows "decode_members n ms (emit_members ms' @ Close_brace # r) = Some (Json_object (ms @ ms'), r)"
  using assms
proof (induction ms' arbitrary: ms n)
  case Nil
  then show ?case by (cases n) auto
next
  case (Cons p ms')
  obtain k v where p: "p = (k, v)" by (cases p)
  from Cons.prems(3) p obtain n' where n: "n = Suc n'" by (cases n) auto
  have "decode_value n' (emit v @ emit_members ms' @ Close_brace # r) = Some (v, emit_members ms' @ Close_brace # r)"
    using Cons.prems(1) [of k v] Cons.prems(3) p n by simp
  moreover have "decode_members n' (ms @ [(k, v)]) (emit_members ms' @ Close_brace # r) = Some (Json_object (ms @ p # ms'), r)"
    using Cons.prems p n by (subst Cons.IH [of "ms @ [(k, v)]" n']) auto
  ultimately show ?case using Cons.prems(2) p n by (auto simp: image_iff)
qed

lemma emit_not_Close: "unique_members v \<Longrightarrow> \<exists>t ts. emit v = t # ts \<and> t \<noteq> Close_bracket"
  by (cases v) (auto simp: is_delim_def)

lemma decode_elements_complete:
  assumes "\<And>v n r. v \<in> set vs' \<Longrightarrow> length (emit v) \<le> n \<Longrightarrow> decode_value n (emit v @ r) = Some (v, r)"
    and "list_all unique_members vs'" and "Suc (length (concat (map emit vs'))) \<le> n"
  shows "decode_elements n vs (concat (map emit vs') @ Close_bracket # r) = Some (Json_array (vs @ vs'), r)"
  using assms
proof (induction vs' arbitrary: vs n)
  case Nil
  then show ?case by (cases n) auto
next
  case (Cons v vs')
  obtain n' where n: "n = Suc n'" using Cons.prems(3) by (cases n) auto
  let ?rest = "concat (map emit vs') @ Close_bracket # r"
  obtain t ts where t: "emit v = t # ts" "t \<noteq> Close_bracket" using emit_not_Close [of v] Cons.prems(2) by auto
  have "decode_value n' (emit v @ ?rest) = Some (v, ?rest)" using Cons.prems(1) [of v n'] Cons.prems(3) n by simp
  moreover have "decode_elements n' (vs @ [v]) ?rest = Some (Json_array (vs @ v # vs'), r)"
    using Cons.IH [of n' "vs @ [v]"] Cons.prems n t(1) by simp
  ultimately show ?case using t n by simp
qed

lemma decode_complete: "unique_members v \<Longrightarrow> length (emit v) \<le> n \<Longrightarrow> decode_value n (emit v @ r) = Some (v, r)"
proof (induction v arbitrary: n r)
  case (Json_scalar t)
  then show ?case by (cases n) auto
next
  case (Json_object ms)
  then obtain n' where n: "n = Suc n'" by (cases n) auto
  have "decode_members n' [] (emit_members ms @ Close_brace # r) = Some (Json_object ([] @ ms), r)"
  proof (rule decode_members_complete)
    fix k v m and r' :: "json_token list"
    assume "(k, v) \<in> set ms" "length (emit v) \<le> m"
    with Json_object.IH [of "(k, v)" v] Json_object.prems(1)
    show "decode_value m (emit v @ r') = Some (v, r')" by (auto simp: list_all_iff)
  qed (use Json_object.prems n in auto)
  then show ?case using n by (simp add: is_delim_def)
next
  case (Json_array vs)
  then obtain n' where n: "n = Suc n'" by (cases n) auto
  have "decode_elements n' [] (concat (map emit vs) @ Close_bracket # r) = Some (Json_array ([] @ vs), r)"
    by (rule decode_elements_complete) (use Json_array n in \<open>auto simp: list_all_iff\<close>)
  then show ?case using n by (simp add: is_delim_def)
qed

text \<open>C21. \<open>decodeUnique\<close> accepts exactly the token sequences that begin with the tokens of a JSON value in
  which no object repeats a member, at any depth, and returns that value and the remaining tokens; it always
  returns (the fuel of the model, the number of tokens, is enough).\<close>

theorem decode_unique_iff:
  "decode_unique ts = Some (v, r) \<longleftrightarrow> ts = emit v @ r \<and> unique_members v"
  using decode_sound(1) [of "length ts" ts v r] decode_complete [of v "length ts" r]
  by (auto simp: decode_unique_def)

section \<open>The store\<close>

text \<open>The tables of the API server: the queue's, the subscriptions of endpoints and the rotation commands.\<close>

record rotation_row =
  ro_id :: uuid
  ro_ws :: uuid
  ro_endpoint :: uuid
  ro_secret :: uuid
  ro_key_hash :: bytes
  ro_fingerprint :: bytes
  ro_key_id :: string
  ro_overlap :: int

record api_db =
  ap_queue :: db
  ap_subs :: "(uuid \<times> uuid \<times> string) list"
  ap_rotations :: "rotation_row list"

record event_record =
  ev_id :: uuid
  ev_workspace :: uuid
  ev_type :: string
  ev_key_hash :: bytes
  ev_fingerprint :: bytes
  ev_fingerprint_version :: int
  ev_payload :: envelope
  ev_payload_size :: int
  ev_expires :: instant

record publish_result =
  pb_event :: uuid
  pb_deliveries :: "uuid list"
  pb_duplicate :: bool

definition event_row_of :: "event_record \<Rightarrow> event_row" where
  "event_row_of r =
     \<lparr>er_ws = ev_workspace r, er_id = ev_id r, er_type = ev_type r, er_key_hash = ev_key_hash r,
      er_fingerprint = ev_fingerprint r, er_fingerprint_version = ev_fingerprint_version r,
      er_payload = Some (ev_payload r), er_expires = ev_expires r, er_purged = None\<rparr>"

text \<open>The CHECK constraints of the row.\<close>

definition event_record_ok :: "event_record \<Rightarrow> bool" where
  "event_record_ok r \<longleftrightarrow>
     length (ev_key_hash r) = 32 \<and> length (ev_fingerprint r) = 32 \<and> ev_fingerprint_version r > 0
     \<and> event_type_ok (ev_type r) \<and> 0 \<le> ev_payload_size r \<and> ev_payload_size r \<le> 1048576
     \<and> length (env_ciphertext (ev_payload r)) \<ge> 16 \<and> length (env_nonce (ev_payload r)) = 12
     \<and> env_kek (ev_payload r) > 0 \<and> env_format (ev_payload r) > 0"

definition subscribers :: "uuid \<Rightarrow> string \<Rightarrow> api_db \<Rightarrow> uuid list" where
  "subscribers ws eventType s =
     sort (remdups (map ep_id (filter
       (\<lambda>e. ep_ws e = ws \<and> ep_active e \<and> (ws, ep_id e, eventType) \<in> set (ap_subs s)) (db_endpoints (ap_queue s)))))"

text \<open>The loop of \<open>insertDeliveries\<close>; \<open>new\<close> draws the identifiers, \<open>clk\<close> is the column default's clock.\<close>

fun insert_delivery_rows ::
    "(nat \<Rightarrow> uuid option) \<Rightarrow> (nat \<Rightarrow> instant) \<Rightarrow> nat \<Rightarrow> uuid \<Rightarrow> uuid \<Rightarrow> uuid list \<Rightarrow> uuid list \<Rightarrow> db
      \<Rightarrow> event_error + (uuid list \<times> db)" where
  "insert_delivery_rows new clk k ws ev [] ids s = Inr (ids, s)"
| "insert_delivery_rows new clk k ws ev (ep # eps) ids s =
     (case new k of
        None \<Rightarrow> Inl Err_event_other
      | Some i \<Rightarrow>
          (case insert_delivery (new_delivery ws i ev ep 10 (clk k)) s of
             Inl e \<Rightarrow> Inl Err_event_other
           | Inr s' \<Rightarrow> insert_delivery_rows new clk (Suc k) ws ev eps (ids @ [i]) s'))"

definition insert_deliveries ::
    "(nat \<Rightarrow> uuid option) \<Rightarrow> (nat \<Rightarrow> instant) \<Rightarrow> event_record \<Rightarrow> api_db \<Rightarrow> event_error + (publish_result \<times> api_db)"
where
  "insert_deliveries new clk r s =
     (let endpointIDs = take 101 (subscribers (ev_workspace r) (ev_type r) s)
      in if length endpointIDs > 100 then Inl Err_event_invalid
         else case insert_delivery_rows new clk 0 (ev_workspace r) (ev_id r) endpointIDs [] (ap_queue s) of
                Inl e \<Rightarrow> Inl e
              | Inr (ids, q) \<Rightarrow>
                  Inr (\<lparr>pb_event = ev_id r, pb_deliveries = ids, pb_duplicate = False\<rparr>, s\<lparr>ap_queue := q\<rparr>))"

definition find_by_key :: "uuid \<Rightarrow> bytes \<Rightarrow> api_db \<Rightarrow> event_row option" where
  "find_by_key ws hash s = find (\<lambda>e. er_ws e = ws \<and> er_key_hash e = hash) (db_events (ap_queue s))"

definition store_publish ::
    "(nat \<Rightarrow> uuid option) \<Rightarrow> (nat \<Rightarrow> instant) \<Rightarrow> event_record \<Rightarrow> api_db \<Rightarrow> event_error + (publish_result \<times> api_db)"
where
  "store_publish new clk r s =
     (if \<not> event_record_ok r then Inl Err_event_other
      else case find_by_key (ev_workspace r) (ev_key_hash r) s of
        None \<Rightarrow>
          if list_ex (\<lambda>e. er_id e = ev_id r) (db_events (ap_queue s)) then Inl Err_event_other
          else insert_deliveries new clk r
                 (s\<lparr>ap_queue := (ap_queue s)\<lparr>db_events := db_events (ap_queue s) @ [event_row_of r]\<rparr>\<rparr>)
      | Some e \<Rightarrow>
          if er_fingerprint_version e \<noteq> ev_fingerprint_version r \<or> er_fingerprint e \<noteq> ev_fingerprint r
          then Inl Err_event_conflict
          else Inr (\<lparr>pb_event = er_id e,
                     pb_deliveries = sort (map dr_id (filter
                       (\<lambda>d. dr_ws d = ev_workspace r \<and> dr_event d = er_id e) (db_deliveries (ap_queue s)))),
                     pb_duplicate = True\<rparr>, s))"

section \<open>The service\<close>

definition keyed :: "key256 \<Rightarrow> bytes \<Rightarrow> bytes" where
  "keyed key v = hmac_sha256 (key_bytes key) v"

text \<open>\<open>Publish\<close> up to the store: the record it hands over, for the identifier and the nonce it draws.\<close>

definition publish_record ::
    "json_env \<Rightarrow> uuid_text \<Rightarrow> materials \<Rightarrow> instant \<Rightarrow> uuid option \<Rightarrow> bytes option \<Rightarrow> uuid \<Rightarrow> string \<Rightarrow> bytes
      \<Rightarrow> event_error + event_record" where
  "publish_record j us m now newID nonce ws idempotencyKey raw =
     (if length idempotencyKey < 1 \<or> length idempotencyKey > 128 \<or> raw = [] \<or> length raw > 1048576
      then Inl Err_event_invalid
      else case validate_and_canonicalize j raw of
        None \<Rightarrow> Inl Err_event_invalid
      | Some (eventType, canonical_json) \<Rightarrow>
     (case newID of
        None \<Rightarrow> Inl Err_event_other
      | Some i \<Rightarrow>
     (case seal_envelope (m_payload m) nonce raw (aad [''2'', us ws, ''event_payload'', us i, eventType]) of
        Inl e \<Rightarrow> Inl Err_event_other
      | Inr env \<Rightarrow>
          Inr \<lparr>ev_id = i, ev_workspace = ws, ev_type = eventType,
               ev_key_hash = keyed (m_idempotency_pepper m) (''idempotency:v1'' @ [byte_of 10] @ idempotencyKey),
               ev_fingerprint = keyed (m_fingerprint_pepper m)
                 (''v1'' @ [byte_of 10] @ eventType @ [byte_of 10] @ ''all'' @ [byte_of 10] @ canonical_json),
               ev_fingerprint_version = 1, ev_payload = env, ev_payload_size = int (length raw),
               ev_expires = now + 30 * 24 * hour\<rparr>)))"

definition publish ::
    "json_env \<Rightarrow> uuid_text \<Rightarrow> materials \<Rightarrow> instant \<Rightarrow> uuid option \<Rightarrow> bytes option \<Rightarrow> (nat \<Rightarrow> uuid option)
      \<Rightarrow> (nat \<Rightarrow> instant) \<Rightarrow> uuid \<Rightarrow> string \<Rightarrow> bytes \<Rightarrow> api_db \<Rightarrow> event_error + (publish_result \<times> api_db)" where
  "publish j us m now newID nonce new clk ws key raw s =
     (case publish_record j us m now newID nonce ws key raw of
        Inl e \<Rightarrow> Inl e
      | Inr r \<Rightarrow> store_publish new clk r s)"

text \<open>The handler; reading the body fails exactly when it is longer than the limit.\<close>

definition publish_handler ::
    "json_env \<Rightarrow> uuid_text \<Rightarrow> materials \<Rightarrow> instant \<Rightarrow> uuid option \<Rightarrow> bytes option \<Rightarrow> (nat \<Rightarrow> uuid option)
      \<Rightarrow> (nat \<Rightarrow> instant) \<Rightarrow> principal request \<Rightarrow> api_db \<Rightarrow> publish_result reply \<times> api_db" where
  "publish_handler j us m now newID nonce new clk r s =
     (if hx_header r ''Content-Type'' \<noteq> ''application/json''
      then (write_problem r 415 ''unsupported_media_type'' ''Content-Type must be application/json'', s)
      else
        let key = trim_space (hx_header r ''Idempotency-Key'')
        in if key = [] then (write_problem r 400 ''idempotency_key_required'' ''Idempotency-Key is required'', s)
           else if length (hx_body r) > 1048576
           then (write_problem r 413 ''payload_too_large'' ''Payload exceeds 1 MiB'', s)
           else case publish j us m now newID nonce new clk (pr_workspace (request_principal r)) key (hx_body r) s of
             Inl Err_event_invalid \<Rightarrow> (write_problem r 422 ''invalid_event'' ''Invalid event'', s)
           | Inl Err_event_conflict \<Rightarrow>
               (write_problem r 409 ''idempotency_conflict'' ''Idempotency key was used with different content'', s)
           | Inl Err_event_other \<Rightarrow> (internal_error r, s)
           | Inr (result, s') \<Rightarrow> (Reply 202 result, s'))"

end
