(* ===== verification/Publication.thy ===== *)
theory Publication
  imports Event
begin

text \<open>
  What a publication promises, over everything that happens to the tables afterwards: the steps of the
  queue, other publications, and the management of endpoints. The identity of events and deliveries is
  what the steps keep; the answer of the store depends on the identities only.
\<close>

section \<open>Identities survive the queue\<close>

type_synonym event_ident = "uuid \<times> uuid \<times> bytes \<times> bytes \<times> int"

definition event_ident :: "event_row \<Rightarrow> event_ident" where
  "event_ident e = (er_ws e, er_id e, er_key_hash e, er_fingerprint e, er_fingerprint_version e)"

definition delivery_ident :: "delivery_row \<Rightarrow> uuid \<times> uuid \<times> uuid" where
  "delivery_ident d = (dr_ws d, dr_id d, dr_event d)"

abbreviation same_idents :: "db \<Rightarrow> db \<Rightarrow> bool" where
  "same_idents s s' \<equiv> map event_ident (db_events s') = map event_ident (db_events s)
     \<and> map delivery_ident (db_deliveries s') = map delivery_ident (db_deliveries s)"

lemma delivery_ident_updates [simp]:
  "delivery_ident (claim_delivery_row w t l d) = delivery_ident d"
  "delivery_ident (dead_letter_row t d) = delivery_ident d"
  "delivery_ident (finalize_row t p c r d) = delivery_ident d"
  "delivery_ident (replay_row_update t n d) = delivery_ident d"
  "delivery_ident (fail_row t c d) = delivery_ident d"
  by (simp_all add: delivery_ident_def claim_delivery_row_def dead_letter_row_def finalize_row_def
      replay_row_update_def fail_row_def)

lemma claim_one_idents: "same_idents s (snd (claim_one_delivery w i ttl st clk locked wl el wc ec s))"
  by (auto simp: claim_one_delivery_def Let_def map_update_where_same split: option.splits)

lemma recover_idents: "same_idents s (fold (recover_one clk) rows s)"
  by (induction rows arbitrary: s) (simp_all add: recover_one_def map_update_where_same)

lemma claim_loop_idents:
  "claim_loop rnd m w is ttl st clk locked wl el wc ec lim s = (cs, s') \<Longrightarrow> same_idents s s'"
  by (drule claim_loop_induct [where R = "\<lambda>_ _. True" and
      g = "\<lambda>s. (map event_ident (db_events s), map delivery_ident (db_deliveries s))"]) (simp_all add: claim_one_idents)

lemma claim_deliveries_idents:
  "claim_deliveries w is ttl lim wl el st clk locked s = Inr (cs, s') \<Longrightarrow> same_idents s s'"
  by (auto simp: claim_deliveries_def recover_exhausted_def Let_def recover_idents
      dest!: claim_loop_idents split: if_splits sum.splits prod.splits)

lemma qstep_idents:
  assumes "qstep s s'" and "length (db_deliveries s') = length (db_deliveries s)"
  shows "same_idents s s'"
  using assms(1)
proof (cases rule: qstep.cases)
  case (q_publish ws i ev ep mx now)
  then show ?thesis using assms(2) by (auto simp: insert_delivery_def split: if_splits)
next
  case (q_claim w "is" ttl lim wl el st clk locked cs)
  then show ?thesis by (rule claim_deliveries_idents)
next
  case (q_replay c clk r)
  then show ?thesis
    by (auto simp: request_replay_def Let_def map_update_where_same split: option.splits if_splits)
qed (auto simp: finalize_delivery_def purge_expired_payloads_def purge_retired_secrets_def quarantine_queue_def
      event_ident_def Let_def map_update_where_same split: if_splits)
section \<open>The tables of the API server\<close>

text \<open>
  A publication, any transaction of the queue that creates no delivery, or the management of endpoints,
  which touches neither events nor deliveries.
\<close>

inductive api_step :: "api_db \<Rightarrow> api_db \<Rightarrow> bool" where
  a_publish: "store_publish new clk r s = Inr (res, s') \<Longrightarrow> api_step s s'"
| a_queue: "qstep (ap_queue s) q \<Longrightarrow> length (db_deliveries q) = length (db_deliveries (ap_queue s))
    \<Longrightarrow> api_step s (s\<lparr>ap_queue := q\<rparr>)"
| a_manage: "db_events (ap_queue s') = db_events (ap_queue s)
    \<Longrightarrow> db_deliveries (ap_queue s') = db_deliveries (ap_queue s) \<Longrightarrow> api_step s s'"

inductive_cases api_stepE: "api_step s s'"

abbreviation api_steps :: "api_db \<Rightarrow> api_db \<Rightarrow> bool" where "api_steps \<equiv> api_step\<^sup>*\<^sup>*"

text \<open>What is published under a key: the event's identity and the identifiers of its deliveries.\<close>

definition key_of_ident :: "event_ident \<Rightarrow> uuid \<times> bytes" where
  "key_of_ident = (\<lambda>(w, i, h, f, v). (w, h))"

definition delivery_ids :: "uuid \<Rightarrow> uuid \<Rightarrow> db \<Rightarrow> uuid list" where
  "delivery_ids ws ev s =
     map (fst \<circ> snd) (filter (\<lambda>(w, i, e). w = ws \<and> e = ev) (map delivery_ident (db_deliveries s)))"

definition publication :: "uuid \<Rightarrow> bytes \<Rightarrow> db \<Rightarrow> (event_ident \<times> uuid list) option" where
  "publication ws h s =
     map_option (\<lambda>x. (x, delivery_ids ws (fst (snd x)) s))
       (find (\<lambda>x. key_of_ident x = (ws, h)) (map event_ident (db_events s)))"

text \<open>Every delivery belongs to an event: the foreign key.\<close>

definition deliveries_have_events :: "db \<Rightarrow> bool" where
  "deliveries_have_events s \<longleftrightarrow> dr_event ` set (db_deliveries s) \<subseteq> er_id ` set (db_events s)"

lemma find_map: "find P (map f xs) = map_option f (find (\<lambda>x. P (f x)) xs)"
  by (induction xs) auto

lemma publication_same: "same_idents s s' \<Longrightarrow> publication ws h s' = publication ws h s"
  by (simp add: publication_def delivery_ids_def)

lemma insert_rows_Inr:
  "insert_delivery_rows new clk k ws ev eps ids s = Inr (ids', s') \<Longrightarrow>
     \<exists>is. ids' = ids @ is \<and> length is = length eps
        \<and> (\<forall>n < length eps. new (k + n) = Some (is ! n))
        \<and> s' = s\<lparr>db_deliveries := db_deliveries s
              @ map (\<lambda>n. new_delivery ws (is ! n) ev (eps ! n) 10 (clk (k + n))) [0..<length eps]\<rparr>"
proof (induction eps arbitrary: k ids s)
  case Nil
  then show ?case by simp
next
  case (Cons ep eps)
  from Cons.prems obtain i s1 where i: "new k = Some i"
    and s1: "s1 = s\<lparr>db_deliveries := db_deliveries s @ [new_delivery ws i ev ep 10 (clk k)]\<rparr>"
    and rest: "insert_delivery_rows new clk (Suc k) ws ev eps (ids @ [i]) s1 = Inr (ids', s')"
    by (auto simp: insert_delivery_def split: option.splits if_splits)
  from Cons.IH [OF rest] obtain js where js: "ids' = (ids @ [i]) @ js" "length js = length eps"
      "\<forall>n < length eps. new (Suc k + n) = Some (js ! n)"
      "s' = s1\<lparr>db_deliveries := db_deliveries s1
              @ map (\<lambda>n. new_delivery ws (js ! n) ev (eps ! n) 10 (clk (Suc k + n))) [0..<length eps]\<rparr>" by blast
  have "s' = s\<lparr>db_deliveries := db_deliveries s
      @ map (\<lambda>n. new_delivery ws ((i # js) ! n) ev ((ep # eps) ! n) 10 (clk (k + n))) [0..<length (ep # eps)]\<rparr>"
    unfolding js(4) s1 by (simp add: upt_conv_Cons map_Suc_upt [symmetric] o_def del: upt_Suc)
  moreover have "\<forall>n < length (ep # eps). new (k + n) = Some ((i # js) ! n)"
    using js(3) i by (auto simp: nth_Cons split: nat.split)
  ultimately show ?case using js(1,2) by (intro exI [of _ "i # js"]) auto
qed

lemma publication_by_key:
  "publication ws h q = map_option (\<lambda>e. (event_ident e, delivery_ids ws (er_id e) q))
     (find (\<lambda>e. er_ws e = ws \<and> er_key_hash e = h) (db_events q))"
  by (simp add: publication_def find_map key_of_ident_def event_ident_def option.map_comp o_def)

text \<open>The two ways a publication is accepted.\<close>

lemma store_publish_Inr:
  assumes "store_publish new clk r s = Inr (res, s')"
  shows "event_record_ok r \<and>
    (if publication (ev_workspace r) (ev_key_hash r) (ap_queue s) = None
     then \<exists>is eps. eps = subscribers (ev_workspace r) (ev_type r) s \<and> length eps \<le> 100 \<and> length is = length eps
        \<and> (\<forall>e\<in>set (db_events (ap_queue s)). er_id e \<noteq> ev_id r)
        \<and> (\<forall>n < length eps. new n = Some (is ! n))
        \<and> res = \<lparr>pb_event = ev_id r, pb_deliveries = is, pb_duplicate = False\<rparr>
        \<and> s' = s\<lparr>ap_queue := (ap_queue s)\<lparr>db_events := db_events (ap_queue s) @ [event_row_of r],
              db_deliveries := db_deliveries (ap_queue s)
                @ map (\<lambda>n. new_delivery (ev_workspace r) (is ! n) (ev_id r) (eps ! n) 10 (clk n)) [0..<length eps]\<rparr>\<rparr>
     else s' = s)"
proof -
  have ok: "event_record_ok r" using assms by (auto simp: store_publish_def split: if_splits)
  show ?thesis
  proof (cases "find_by_key (ev_workspace r) (ev_key_hash r) s")
    case None
    let ?s = "s\<lparr>ap_queue := (ap_queue s)\<lparr>db_events := db_events (ap_queue s) @ [event_row_of r]\<rparr>\<rparr>"
    let ?eps = "subscribers (ev_workspace r) (ev_type r) s"
    from None have none: "publication (ev_workspace r) (ev_key_hash r) (ap_queue s) = None"
      by (simp add: publication_by_key find_by_key_def)
    have sub: "subscribers (ev_workspace r) (ev_type r) ?s = ?eps" by (simp add: subscribers_def)
    from assms None ok have new: "\<forall>e\<in>set (db_events (ap_queue s)). er_id e \<noteq> ev_id r"
      and ins: "insert_deliveries new clk r ?s = Inr (res, s')"
      by (auto simp: store_publish_def list_ex_iff split: if_splits)
    from ins have le: "length (take 101 ?eps) \<le> 100"
      by (auto simp: insert_deliveries_def sub Let_def split: if_splits)
    then have tk: "take 101 ?eps = ?eps" and len: "length ?eps \<le> 100" by auto
    from ins obtain ids q where rows: "insert_delivery_rows new clk 0 (ev_workspace r) (ev_id r) ?eps [] (ap_queue ?s) = Inr (ids, q)"
      and res: "res = \<lparr>pb_event = ev_id r, pb_deliveries = ids, pb_duplicate = False\<rparr>" and s': "s' = ?s\<lparr>ap_queue := q\<rparr>"
      using le by (auto simp: insert_deliveries_def sub tk Let_def split: if_splits sum.splits)
    from insert_rows_Inr [OF rows] new len ok none show ?thesis unfolding res s' by auto
  next
    case (Some e)
    then have some: "publication (ev_workspace r) (ev_key_hash r) (ap_queue s) \<noteq> None"
      by (simp add: publication_by_key find_by_key_def)
    with assms ok Some show ?thesis by (auto simp: store_publish_def split: if_splits)
  qed
qed

lemma delivery_ids_append:
  "delivery_ids ws ev (s\<lparr>db_deliveries := ds @ xs\<rparr>)
     = delivery_ids ws ev (s\<lparr>db_deliveries := ds\<rparr>) @ delivery_ids ws ev (s\<lparr>db_deliveries := xs\<rparr>)"
  by (simp add: delivery_ids_def)

lemma delivery_ids_new:
  "delivery_ids ws ev (s\<lparr>db_deliveries := map (\<lambda>n. new_delivery w (is ! n) e (eps ! n) mx (clk n)) [0..<length is]\<rparr>)
     = (if w = ws \<and> e = ev then is else [])"
  by (simp add: delivery_ids_def delivery_ident_def new_delivery_def filter_map o_def map_nth)

lemma delivery_ids_none:
  "deliveries_have_events s \<Longrightarrow> \<forall>e\<in>set (db_events s). er_id e \<noteq> ev \<Longrightarrow> delivery_ids ws ev s = []"
  by (force simp: deliveries_have_events_def delivery_ids_def delivery_ident_def filter_empty_conv image_subset_iff)

lemma delivery_ids_events [simp]: "delivery_ids ws ev (s\<lparr>db_events := es, db_deliveries := ds\<rparr>) = delivery_ids ws ev (s\<lparr>db_deliveries := ds\<rparr>)"
  "delivery_ids ws ev (s\<lparr>db_events := es\<rparr>) = delivery_ids ws ev s"
  by (simp_all add: delivery_ids_def)

lemma publication_kept:
  assumes "api_step s s'" and pub: "publication ws h (ap_queue s) = Some x"
  shows "publication ws h (ap_queue s') = Some x"
  using assms(1)
proof (cases rule: api_step.cases)
  case (a_publish new clk r res)
  show ?thesis
  proof (cases "s' = s")
    case False
    with store_publish_Inr [OF a_publish] obtain "is" eps where
      fresh: "\<forall>e\<in>set (db_events (ap_queue s)). er_id e \<noteq> ev_id r" and len: "length is = length eps"
      and s': "s' = s\<lparr>ap_queue := (ap_queue s)\<lparr>db_events := db_events (ap_queue s) @ [event_row_of r],
            db_deliveries := db_deliveries (ap_queue s)
              @ map (\<lambda>n. new_delivery (ev_workspace r) (is ! n) (ev_id r) (eps ! n) 10 (clk n)) [0..<length is]\<rparr>\<rparr>"
      by (auto split: if_splits)
    from pub obtain e where e: "find (\<lambda>e. er_ws e = ws \<and> er_key_hash e = h) (db_events (ap_queue s)) = Some e"
      and x: "x = (event_ident e, delivery_ids ws (er_id e) (ap_queue s))"
      by (auto simp: publication_by_key find_by_key_def)
    then have "er_id e \<noteq> ev_id r" using fresh by (auto simp: find_Some_iff)
    then show ?thesis
      by (simp add: publication_by_key find_by_key_def s' find_append e x delivery_ids_append delivery_ids_new)
  qed (use pub in simp)
next
  case (a_queue q)
  then show ?thesis using publication_same [OF qstep_idents] pub by simp
next
  case a_manage
  then show ?thesis using publication_same [of "ap_queue s" "ap_queue s'"] pub by simp
qed

lemma publications_kept:
  "api_steps s s' \<Longrightarrow> publication ws h (ap_queue s) = Some x \<Longrightarrow> publication ws h (ap_queue s') = Some x"
  by (induction rule: rtranclp_induct) (auto dest: publication_kept)

lemma store_publish_again:
  assumes "publication (ev_workspace r) (ev_key_hash r) (ap_queue s) = Some ((w, i, h, f, v), ids)"
    and "event_record_ok r"
  shows "store_publish new clk r s =
    (if ev_fingerprint r = f \<and> ev_fingerprint_version r = v
     then Inr (\<lparr>pb_event = i, pb_deliveries = sort ids, pb_duplicate = True\<rparr>, s) else Inl Err_event_conflict)"
proof -
  from assms(1) obtain e where e: "find_by_key (ev_workspace r) (ev_key_hash r) s = Some e"
    "er_id e = i" "er_fingerprint e = f" "er_fingerprint_version e = v"
    and ids: "ids = delivery_ids (ev_workspace r) i (ap_queue s)"
    by (auto simp: publication_by_key find_by_key_def event_ident_def)
  have "map dr_id (filter (\<lambda>d. dr_ws d = ev_workspace r \<and> dr_event d = i) (db_deliveries (ap_queue s))) = ids"
    by (simp add: ids delivery_ids_def filter_map o_def delivery_ident_def)
  then show ?thesis using e assms(2) by (auto simp: store_publish_def)
qed

lemma publication_of_publish:
  assumes "store_publish new clk r s = Inr (res, s')" and "deliveries_have_events (ap_queue s)"
  shows "\<exists>w h ids. publication (ev_workspace r) (ev_key_hash r) (ap_queue s')
      = Some ((w, pb_event res, h, ev_fingerprint r, ev_fingerprint_version r), ids)
    \<and> sort (pb_deliveries res) = sort ids"
proof (cases "publication (ev_workspace r) (ev_key_hash r) (ap_queue s)")
  case None
  with store_publish_Inr [OF assms(1)] obtain "is" eps where
    fresh: "\<forall>e\<in>set (db_events (ap_queue s)). er_id e \<noteq> ev_id r" and len: "length is = length eps"
    and res: "res = \<lparr>pb_event = ev_id r, pb_deliveries = is, pb_duplicate = False\<rparr>"
    and s': "s' = s\<lparr>ap_queue := (ap_queue s)\<lparr>db_events := db_events (ap_queue s) @ [event_row_of r],
          db_deliveries := db_deliveries (ap_queue s)
            @ map (\<lambda>n. new_delivery (ev_workspace r) (is ! n) (ev_id r) (eps ! n) 10 (clk n)) [0..<length is]\<rparr>\<rparr>"
    by auto
  from None have "find (\<lambda>e. er_ws e = ev_workspace r \<and> er_key_hash e = ev_key_hash r) (db_events (ap_queue s)) = None"
    by (simp add: publication_by_key find_by_key_def)
  then show ?thesis using delivery_ids_none [OF assms(2) fresh]
    by (simp add: publication_by_key find_by_key_def s' res find_append delivery_ids_append delivery_ids_new
        event_row_of_def event_ident_def)
next
  case (Some x)
  obtain w i h f v ids where x: "x = ((w, i, h, f, v), ids)" by (metis prod.collapse)
  from store_publish_Inr [OF assms(1)] Some have "s' = s" "event_record_ok r" by auto
  with store_publish_again [OF Some [unfolded x], of new clk] assms(1) Some x show ?thesis
    by (auto simp: sorted_sort_id split: if_splits)
qed

section \<open>The service\<close>

lemma publish_record_Inr:
  "publish_record j us m now newID nonce ws key raw = Inr r \<longleftrightarrow>
     1 \<le> length key \<and> length key \<le> 128 \<and> 1 \<le> length raw \<and> length raw \<le> 1048576
     \<and> (\<exists>t c i env. validate_and_canonicalize j raw = Some (t, c) \<and> newID = Some i
        \<and> seal_envelope (m_payload m) nonce raw (aad [''2'', us ws, ''event_payload'', us i, t]) = Inr env
        \<and> r = \<lparr>ev_id = i, ev_workspace = ws, ev_type = t,
               ev_key_hash = keyed (m_idempotency_pepper m) (''idempotency:v1'' @ [byte_of 10] @ key),
               ev_fingerprint = keyed (m_fingerprint_pepper m)
                 (''v1'' @ [byte_of 10] @ t @ [byte_of 10] @ ''all'' @ [byte_of 10] @ c),
               ev_fingerprint_version = 1, ev_payload = env, ev_payload_size = int (length raw),
               ev_expires = now + 30 * 24 * hour\<rparr>)"
  by (cases raw; cases key) (auto simp: publish_record_def split: option.splits sum.splits if_splits)

lemma validated_type: "validate_and_canonicalize j raw = Some (t, c) \<Longrightarrow> event_type_ok t"
  by (auto simp: validate_and_canonicalize_def Let_def
      split: option.splits if_splits json_value.splits json_token.splits prod.splits)

lemma published_record_ok:
  assumes "publish_record j us m now newID (Some nonce) ws key raw = Inr r"
    and "length nonce = 12" and "0 < kr_primary (m_payload m)"
  shows "event_record_ok r"
proof -
  from assms(1) obtain t c i env where v: "validate_and_canonicalize j raw = Some (t, c)"
    and env: "seal_envelope (m_payload m) (Some nonce) raw (aad [''2'', us ws, ''event_payload'', us i, t]) = Inr env"
    and r: "ev_type r = t" "ev_payload r = env" "length (ev_key_hash r) = 32" "length (ev_fingerprint r) = 32"
      "ev_fingerprint_version r = 1" "ev_payload_size r = int (length raw)" "length raw \<le> 1048576"
    by (auto simp: publish_record_Inr keyed_def)
  from seal_envelope_valid [OF env assms(2,3)] validated_type [OF v] r show ?thesis
    by (auto simp: event_record_ok_def envelope_valid_def legacy_format_version_def format_version_def)
qed

lemma publish_Inr:
  "publish j us m now newID nonce new clk ws key raw s = Inr (res, s') \<longleftrightarrow>
     (\<exists>r. publish_record j us m now newID nonce ws key raw = Inr r \<and> store_publish new clk r s = Inr (res, s'))"
  by (auto simp: publish_def split: sum.splits)

lemma published_again:
  assumes "store_publish new clk r s0 = Inr (res, s1)" and "deliveries_have_events (ap_queue s0)"
    and "api_steps s1 s2" and "event_record_ok r2"
    and "ev_workspace r2 = ev_workspace r" and "ev_key_hash r2 = ev_key_hash r"
  shows "store_publish new' clk' r2 s2 =
     (if ev_fingerprint r2 = ev_fingerprint r \<and> ev_fingerprint_version r2 = ev_fingerprint_version r
      then Inr (\<lparr>pb_event = pb_event res, pb_deliveries = sort (pb_deliveries res), pb_duplicate = True\<rparr>, s2)
      else Inl Err_event_conflict)"
proof -
  from publication_of_publish [OF assms(1,2)] obtain w h ids where
    pub: "publication (ev_workspace r) (ev_key_hash r) (ap_queue s1)
      = Some ((w, pb_event res, h, ev_fingerprint r, ev_fingerprint_version r), ids)"
    and ids: "sort (pb_deliveries res) = sort ids" by blast
  from publications_kept [OF assms(3) pub]
  have "publication (ev_workspace r2) (ev_key_hash r2) (ap_queue s2)
      = Some ((w, pb_event res, h, ev_fingerprint r, ev_fingerprint_version r), ids)" by (simp add: assms(5,6))
  from store_publish_again [OF this assms(4)] ids show ?thesis by simp
qed

text \<open>C22. Publication is idempotent: once an event was accepted under a key, whatever the queue, other
  publications and the management of endpoints do in between (the purges of expired metadata and of the workspace aside), a publication under the same key with the same
  type and canonical content is answered with the first event and its deliveries, marked as a duplicate, and
  changes nothing; one whose fingerprint differs is refused as a conflict.\<close>

theorem publish_idempotent:
  assumes first: "publish j us m now newID nonce new clk ws key raw s0 = Inr (res, s1)"
    and fk: "deliveries_have_events (ap_queue s0)"
    and steps: "api_steps s1 s2"
    and sealed: "publish_record j us m now' newID' (Some nonce') ws key raw' = Inr r'"
    and env: "length nonce' = 12" "0 < kr_primary (m_payload m)"
  shows "publish j us m now' newID' (Some nonce') new' clk' ws key raw' s2 =
     (case (validate_and_canonicalize j raw, validate_and_canonicalize j raw') of
        (Some (t, c), Some (t', c')) \<Rightarrow>
          if keyed (m_fingerprint_pepper m) (''v1'' @ [byte_of 10] @ t @ [byte_of 10] @ ''all'' @ [byte_of 10] @ c)
             = keyed (m_fingerprint_pepper m) (''v1'' @ [byte_of 10] @ t' @ [byte_of 10] @ ''all'' @ [byte_of 10] @ c')
          then Inr (\<lparr>pb_event = pb_event res, pb_deliveries = sort (pb_deliveries res), pb_duplicate = True\<rparr>, s2)
          else Inl Err_event_conflict
      | _ \<Rightarrow> Inl Err_event_invalid)"
proof -
  from first obtain r where r: "publish_record j us m now newID nonce ws key raw = Inr r"
    and stored: "store_publish new clk r s0 = Inr (res, s1)" by (auto simp: publish_Inr)
  have same: "ev_workspace r' = ev_workspace r" "ev_key_hash r' = ev_key_hash r"
    "ev_fingerprint_version r' = ev_fingerprint_version r"
    using r sealed by (auto simp: publish_record_Inr)
  have "publish j us m now' newID' (Some nonce') new' clk' ws key raw' s2 = store_publish new' clk' r' s2"
    by (simp add: publish_def sealed)
  also have "\<dots> = (if ev_fingerprint r' = ev_fingerprint r
      then Inr (\<lparr>pb_event = pb_event res, pb_deliveries = sort (pb_deliveries res), pb_duplicate = True\<rparr>, s2)
      else Inl Err_event_conflict)"
    using published_again [OF stored fk steps published_record_ok [OF sealed env] same(1,2)] same(3) by simp
  finally show ?thesis using r sealed by (auto simp: publish_record_Inr)
qed

lemma event_row_fields:
  "er_id (event_row_of r) = ev_id r" "er_ws (event_row_of r) = ev_workspace r" "er_type (event_row_of r) = ev_type r"
  "er_payload (event_row_of r) = Some (ev_payload r)" "er_expires (event_row_of r) = ev_expires r"
  by (simp_all add: event_row_of_def)

lemma store_publish_new:
  assumes "store_publish new clk r s = Inr (res, s')" and "\<not> pb_duplicate res"
  shows "\<exists>is eps. eps = subscribers (ev_workspace r) (ev_type r) s \<and> length eps \<le> 100 \<and> length is = length eps
        \<and> (\<forall>e\<in>set (db_events (ap_queue s)). er_id e \<noteq> ev_id r)
        \<and> (\<forall>n < length eps. new n = Some (is ! n))
        \<and> res = \<lparr>pb_event = ev_id r, pb_deliveries = is, pb_duplicate = False\<rparr>
        \<and> s' = s\<lparr>ap_queue := (ap_queue s)\<lparr>db_events := db_events (ap_queue s) @ [event_row_of r],
              db_deliveries := db_deliveries (ap_queue s)
                @ map (\<lambda>n. new_delivery (ev_workspace r) (is ! n) (ev_id r) (eps ! n) 10 (clk n)) [0..<length eps]\<rparr>\<rparr>"
proof -
  have "publication (ev_workspace r) (ev_key_hash r) (ap_queue s) = None"
  proof (rule ccontr)
    assume "publication (ev_workspace r) (ev_key_hash r) (ap_queue s) \<noteq> None"
    then obtain w i h f v ids where "publication (ev_workspace r) (ev_key_hash r) (ap_queue s) = Some ((w, i, h, f, v), ids)"
      by (metis option.exhaust prod.collapse)
    from store_publish_again [OF this, of new clk] store_publish_Inr [OF assms(1)] assms show False
      by (auto split: if_splits)
  qed
  with store_publish_Inr [OF assms(1)] show ?thesis by simp
qed

section \<open>Fan-out\<close>

lemma set_subscribers:
  "set (subscribers ws t s) =
     {ep_id e | e. e \<in> set (db_endpoints (ap_queue s)) \<and> ep_ws e = ws \<and> ep_active e \<and> (ws, ep_id e, t) \<in> set (ap_subs s)}"
  by (auto simp: subscribers_def)

lemma insert_rows_inv:
  "insert_delivery_rows new clk k ws ev eps ids s = Inr (ids', s') \<Longrightarrow> db_inv s \<Longrightarrow> db_inv s'"
proof (induction eps arbitrary: k ids s)
  case (Cons ep eps)
  then obtain i s1 where "insert_delivery (new_delivery ws i ev ep 10 (clk k)) s = Inr s1"
    and "insert_delivery_rows new clk (Suc k) ws ev eps (ids @ [i]) s1 = Inr (ids', s')"
    by (auto split: option.splits sum.splits)
  with Cons insert_delivery_inv show ?case by blast
qed simp

lemma store_publish_inv:
  "store_publish new clk r s = Inr (res, s') \<Longrightarrow> db_inv (ap_queue s) \<Longrightarrow> db_inv (ap_queue s')"
  by (auto simp: store_publish_def insert_deliveries_def Let_def dest: insert_rows_inv split: if_splits option.splits sum.splits)

text \<open>C23. A new publication creates the event and exactly one delivery, Pending, in run 1 and without attempts,
  for every active endpoint of the workspace that subscribes to the event's type, at most 100 of them; it
  reports their identifiers, changes nothing else, and keeps the invariant of the queue.\<close>

theorem publish_fan_out:
  assumes "publish j us m now newID nonce new clk ws key raw s = Inr (res, s')" and "\<not> pb_duplicate res"
  shows "\<exists>t c e ds. validate_and_canonicalize j raw = Some (t, c)
    \<and> s' = s\<lparr>ap_queue := (ap_queue s)\<lparr>db_events := db_events (ap_queue s) @ [e],
               db_deliveries := db_deliveries (ap_queue s) @ ds\<rparr>\<rparr>
    \<and> er_id e = pb_event res \<and> er_ws e = ws \<and> er_type e = t \<and> er_expires e = now + 30 * 24 * hour
    \<and> map dr_id ds = pb_deliveries res \<and> length ds \<le> 100 \<and> distinct (map dr_endpoint ds)
    \<and> set (map dr_endpoint ds) = {ep_id e | e. e \<in> set (db_endpoints (ap_queue s)) \<and> ep_ws e = ws \<and> ep_active e
         \<and> (ws, ep_id e, t) \<in> set (ap_subs s)}
    \<and> (\<forall>d\<in>set ds. dr_ws d = ws \<and> dr_event d = pb_event res \<and> dr_status d = Pending \<and> dr_run d = 1
         \<and> dr_attempts d = 0 \<and> dr_max d = 10)
    \<and> (db_inv (ap_queue s) \<longrightarrow> db_inv (ap_queue s'))"
proof -
  from assms(1) obtain r where r: "publish_record j us m now newID nonce ws key raw = Inr r"
    and st: "store_publish new clk r s = Inr (res, s')" by (auto simp: publish_Inr)
  from r obtain t c where v: "validate_and_canonicalize j raw = Some (t, c)"
    and rf: "ev_type r = t" "ev_workspace r = ws" "ev_expires r = now + 30 * 24 * hour"
    by (auto simp: publish_record_Inr)
  from store_publish_new [OF st assms(2)] obtain "is" eps where eps: "eps = subscribers ws t s" "length eps \<le> 100" "length is = length eps"
    and res: "res = \<lparr>pb_event = ev_id r, pb_deliveries = is, pb_duplicate = False\<rparr>"
    and s': "s' = s\<lparr>ap_queue := (ap_queue s)\<lparr>db_events := db_events (ap_queue s) @ [event_row_of r],
          db_deliveries := db_deliveries (ap_queue s)
            @ map (\<lambda>n. new_delivery (ev_workspace r) (is ! n) (ev_id r) (eps ! n) 10 (clk n)) [0..<length eps]\<rparr>\<rparr>"
    by (auto simp: rf)
  let ?ds = "map (\<lambda>n. new_delivery ws (is ! n) (ev_id r) (eps ! n) 10 (clk n)) [0..<length eps]"
  have "map dr_id ?ds = is" "map dr_endpoint ?ds = eps"
    using eps(3) by (auto intro!: nth_equalityI simp: new_delivery_def)
  moreover have "distinct eps" by (simp add: eps(1) subscribers_def)
  moreover have "\<forall>d\<in>set ?ds. dr_ws d = ws \<and> dr_event d = ev_id r \<and> dr_status d = Pending \<and> dr_run d = 1
         \<and> dr_attempts d = 0 \<and> dr_max d = 10" by (simp add: new_delivery_def)
  ultimately show ?thesis using v eps res s' rf set_subscribers [of ws t s] store_publish_inv [OF st]
    by (intro exI [of _ t] exI [of _ c] exI [of _ "event_row_of r"] exI [of _ ?ds]) (simp add: event_row_fields)
qed

section \<open>From publication to delivery\<close>

text \<open>An event keeps its workspace, type and payload until the payload is purged.\<close>

definition event_holds :: "uuid \<Rightarrow> uuid \<Rightarrow> string \<Rightarrow> envelope \<Rightarrow> event_row list \<Rightarrow> bool" where
  "event_holds i ws t env es \<longleftrightarrow>
     i \<in> er_id ` set es
     \<and> (\<forall>e\<in>set es. er_id e = i \<longrightarrow> er_ws e = ws \<and> er_type e = t \<and> (er_payload e = None \<or> er_payload e = Some env))"

lemma event_holds_purge:
  assumes "event_holds i ws t env es"
  shows "event_holds i ws t env (update_where P (\<lambda>e. e\<lparr>er_payload := None, er_purged := x\<rparr>) es)"
proof -
  have "map er_id (update_where P (\<lambda>e. e\<lparr>er_payload := None, er_purged := x\<rparr>) es) = map er_id es"
    by (rule map_update_where_same) simp
  then have "er_id ` set (update_where P (\<lambda>e. e\<lparr>er_payload := None, er_purged := x\<rparr>) es) = er_id ` set es"
    by (metis set_map)
  then show ?thesis using assms by (auto simp: event_holds_def set_update_where)
qed

lemma event_holds_append:
  "event_holds i ws t env es \<Longrightarrow> \<forall>x\<in>set es. er_id x \<noteq> er_id e \<Longrightarrow> event_holds i ws t env (es @ [e])"
  by (auto simp: event_holds_def)

definition claims_event :: "event_row list \<Rightarrow> claim_row \<Rightarrow> bool" where
  "claims_event es c \<longleftrightarrow>
     (\<exists>e\<in>set es. er_ws e = cr_ws c \<and> er_id e = cr_event c \<and> er_type e = cr_event_type c \<and> er_payload e = Some (cr_payload c))"

lemma claim_one_event:
  "fst (claim_one_delivery w i ttl st clk locked wl el wc ec s) = Some c \<Longrightarrow> claims_event (db_events s) c"
  by (auto simp: claim_one_delivery_def Let_def claims_event_def find_event_def find_Some_iff claim_result_def
      claim_delivery_row_def intro!: bexI split: option.splits if_splits)

lemma recover_events: "db_events (fold (recover_one clk) rows s) = db_events s"
  by (induction rows arbitrary: s) (simp_all add: recover_one_def)

lemma claim_loop_events:
  "claim_loop rnd m w is ttl st clk locked wl el wc ec lim s = (cs, s') \<Longrightarrow>
     db_events s' = db_events s \<and> (\<forall>c\<in>set cs. claims_event (db_events s) c)"
  by (drule claim_loop_induct [where g = db_events and R = claims_event]) (simp_all add: claim_one_same claim_one_event)

lemma claim_deliveries_events:
  assumes "claim_deliveries w is ttl lim wl el st clk locked s = Inr (cs, s')"
  shows "db_events s' = db_events s \<and> (\<forall>c\<in>set cs. claims_event (db_events s) c)"
proof -
  from assms obtain n s1 cs1 where r: "recover_exhausted (nat lim) st (clk 0) (locked 0) s = Inr (n, s1)"
    and l: "claim_loop 1 3 w is ttl st clk locked (nat wl) (nat el) (\<lambda>_. 0) (\<lambda>_. 0) 3 s1 = (cs1, s')"
    and c: "cs = map (\<lambda>c. c\<lparr>cr_retiring := retiring_secret s' st (cr_ws c) (cr_endpoint c)\<rparr>) cs1"
    by (auto simp: claim_deliveries_def split: if_splits sum.splits prod.splits)
  from r have "db_events s1 = db_events s"
    by (auto simp: recover_exhausted_def Let_def recover_events split: if_splits)
  with claim_loop_events [OF l] show ?thesis by (auto simp: c claims_event_def)
qed

lemma event_kept_queue:
  assumes "qstep s s'" and hold: "event_holds i ws t env (db_events s)"
  shows "event_holds i ws t env (db_events s')"
  using assms(1)
proof (cases rule: qstep.cases)
  case (q_claim w "is" ttl lim wl el st clk locked cs)
  then show ?thesis using hold claim_deliveries_events by metis
next
  case (q_purge n st lk m)
  then show ?thesis using hold
    by (auto simp: purge_expired_payloads_def Let_def event_holds_purge split: if_splits)
next
  case (q_replay c clk r)
  then show ?thesis using hold
    by (auto simp: request_replay_def Let_def split: option.splits if_splits)
qed (use hold in \<open>auto simp: insert_delivery_def finalize_delivery_def purge_retired_secrets_def
      quarantine_queue_def Let_def split: if_splits\<close>)

lemma event_kept:
  assumes "api_step s s'" and hold: "event_holds i ws t env (db_events (ap_queue s))"
  shows "event_holds i ws t env (db_events (ap_queue s'))"
  using assms(1)
proof (cases rule: api_step.cases)
  case (a_publish new clk r res)
  show ?thesis
  proof (cases "s' = s")
    case False
    with store_publish_Inr [OF a_publish] obtain ds where
      fresh: "\<forall>e\<in>set (db_events (ap_queue s)). er_id e \<noteq> ev_id r"
      and s': "s' = s\<lparr>ap_queue := (ap_queue s)\<lparr>db_events := db_events (ap_queue s) @ [event_row_of r], db_deliveries := ds\<rparr>\<rparr>"
      by (auto split: if_splits)
    show ?thesis using event_holds_append [OF hold, of "event_row_of r"] fresh by (simp add: s' event_row_fields)
  qed (use hold in simp)
next
  case (a_queue q)
  then show ?thesis using event_kept_queue hold by simp
qed (use hold in simp)

lemma events_kept:
  "api_steps s s' \<Longrightarrow> event_holds i ws t env (db_events (ap_queue s)) \<Longrightarrow> event_holds i ws t env (db_events (ap_queue s'))"
  by (induction rule: rtranclp_induct) (auto dest: event_kept)

lemma claim_batch_event:
  assumes "claim_batch new st clk locked rq s = Inr (claims, s')" and "c \<in> set claims"
    and "event_holds (cl_event c) ws t env (db_events s)"
  shows "cl_ws c = ws \<and> cl_event_type c = t \<and> cl_payload c = env"
proof -
  from claim_batch_Inr [OF assms(1)] obtain ids rows where
    d: "claim_deliveries (rr_worker rq) ids (rr_lease_ttl rq) (rr_limit rq) (rr_workspace_limit rq)
          (rr_endpoint_limit rq) st clk locked s = Inr (rows, s')"
    and c: "claims = map (\<lambda>(r, i). (scan_claim r)\<lparr>cl_attempt_id := i\<rparr>) (zip rows ids)" by metis
  from assms(2) c obtain r where r: "r \<in> set rows" "cl_ws c = cr_ws r" "cl_event c = cr_event r"
      "cl_event_type c = cr_event_type r" "cl_payload c = cr_payload r"
    by (auto simp: scan_claim_def dest: set_zip_leftD)
  from claim_deliveries_events [OF d] r(1) have "claims_event (db_events s) r" by blast
  with assms(3) r show ?thesis by (fastforce simp: claims_event_def event_holds_def)
qed

text \<open>C24. What a publication seals is what a worker opens: after any publications, transactions of the queue (\<open>qstep\<close>) and
  changes of other tables in between, a claim of one of the event's deliveries carries its workspace and type, and its payload opens under the worker's keyring to the
  published bytes, as long as that keyring still has the key the payload was sealed with.\<close>

theorem published_payload_opens:
  assumes "publish j us m now newID (Some nonce) new clk ws key raw s0 = Inr (res, s1)" and "\<not> pb_duplicate res"
    and "length nonce = 12" and "0 < kr_primary (m_payload m)"
    and "kr_keys (m_payload m') (kr_primary (m_payload m)) = kr_keys (m_payload m) (kr_primary (m_payload m))"
    and "api_steps s1 s2"
    and "claim_batch new' st clk' locked rq (ap_queue s2) = Inr (claims, q)"
    and "c \<in> set claims" and "cl_event c = pb_event res"
  shows "cl_ws c = ws \<and> (\<exists>cj. validate_and_canonicalize j raw = Some (cl_event_type c, cj))
    \<and> open_envelope (m_payload m') (cl_payload c) (payload_aad us c) = Inr raw"
proof -
  from assms(1) obtain r where r: "publish_record j us m now newID (Some nonce) ws key raw = Inr r"
    and st: "store_publish new clk r s0 = Inr (res, s1)" by (auto simp: publish_Inr)
  from r obtain t cj i env where v: "validate_and_canonicalize j raw = Some (t, cj)"
    and env: "seal_envelope (m_payload m) (Some nonce) raw (aad [''2'', us ws, ''event_payload'', us i, t]) = Inr env"
    and rf: "ev_id r = i" "ev_workspace r = ws" "ev_type r = t" "ev_payload r = env"
    by (auto simp: publish_record_Inr)
  from store_publish_new [OF st assms(2)] obtain "is" eps where
    fresh: "\<forall>e\<in>set (db_events (ap_queue s0)). er_id e \<noteq> ev_id r" and ev: "pb_event res = i"
    and s1: "s1 = s0\<lparr>ap_queue := (ap_queue s0)\<lparr>db_events := db_events (ap_queue s0) @ [event_row_of r],
          db_deliveries := db_deliveries (ap_queue s0)
            @ map (\<lambda>n. new_delivery (ev_workspace r) (is ! n) (ev_id r) (eps ! n) 10 (clk n)) [0..<length eps]\<rparr>\<rparr>"
    by (elim exE conjE) (simp add: rf)
  have "event_holds i ws t env (db_events (ap_queue s1))"
    using fresh rf by (auto simp: event_holds_def s1 event_row_fields)
  from events_kept [OF assms(6) this(1)] claim_batch_event [OF assms(7,8)] assms(9) ev
  have c: "cl_ws c = ws \<and> cl_event_type c = t \<and> cl_payload c = env" by simp
  moreover have "env_format env = format_version" using env by (auto simp: seal_envelope_iff)
  ultimately have "payload_aad us c = aad [''2'', us ws, ''event_payload'', us i, t]"
    using assms(9) ev by (simp add: payload_aad_def format_version_def legacy_format_version_def)
  with open_seal_envelope [OF env assms(3,4,5)] v c show ?thesis by simp
qed

section \<open>An example\<close>

definition demo_json :: json_env where
  "demo_json =
     \<lparr>je_tokens = (\<lambda>_. \<lparr>js_tokens = [Open_brace, Tok_string ''type'', Tok_string ''order.created'',
          Tok_string ''data'', Tok_null, Close_brace], js_clean_end = True\<rparr>),
      je_canonical = (\<lambda>_. Some ''c'')\<rparr>"

definition demo_api :: api_db where
  "demo_api = \<lparr>ap_queue = demo_db\<lparr>db_events := []\<rparr>, ap_subs = [(1, 2, ''order.created'')], ap_rotations = []\<rparr>"

definition demo_record :: event_record where
  "demo_record =
     \<lparr>ev_id = 9, ev_workspace = 1, ev_type = ''order.created'',
      ev_key_hash = keyed (m_idempotency_pepper development_materials) (''idempotency:v1'' @ [byte_of 10] @ ''k''),
      ev_fingerprint = keyed (m_fingerprint_pepper development_materials)
        (''v1'' @ [byte_of 10] @ ''order.created'' @ [byte_of 10] @ ''all'' @ [byte_of 10] @ ''c''),
      ev_fingerprint_version = 1,
      ev_payload = \<lparr>env_format = format_version, env_kek = 1, env_nonce = ''0123456789ab'',
        env_ciphertext = gcm_seal (key_bytes (the (kr_keys (m_payload development_materials) 1))) ''0123456789ab'' ''{}''
          (aad [''2'', ''u'', ''event_payload'', ''u'', ''order.created''])\<rparr>,
      ev_payload_size = 2, ev_expires = 30 * 24 * hour\<rparr>"

definition demo_api1 :: api_db where
  "demo_api1 = demo_api\<lparr>ap_queue := (ap_queue demo_api)
     \<lparr>db_events := [event_row_of demo_record], db_deliveries := [new_delivery 1 10 9 2 10 0]\<rparr>\<rparr>"

lemma demo_validate: "validate_and_canonicalize demo_json raw = Some (''order.created'', ''c'')"
  by (simp add: validate_and_canonicalize_def demo_json_def decode_unique_def is_delim_def event_type_ok_def
      alnum_def is_digit_def numeral_eq_Suc)

lemma demo_sealed:
  "publish_record demo_json (\<lambda>_. ''u'') development_materials 0 (Some 9) (Some ''0123456789ab'') 1 ''k'' ''{}'' = Inr demo_record"
  by (simp add: publish_record_def demo_validate demo_record_def seal_envelope_def primary_cipher_def
      development_materials_def)

lemma demo_published:
  "publish demo_json (\<lambda>_. ''u'') development_materials 0 (Some 9) (Some ''0123456789ab'') (\<lambda>_. Some 10) (\<lambda>_. 0) 1 ''k'' ''{}'' demo_api
     = Inr (\<lparr>pb_event = 9, pb_deliveries = [10], pb_duplicate = False\<rparr>, demo_api1)"
proof -
  have ok: "event_record_ok demo_record"
    using published_record_ok [OF demo_sealed] by (simp add: development_materials_def)
  have f: "ev_workspace demo_record = 1" "ev_type demo_record = ''order.created''" "ev_id demo_record = 9"
    by (simp_all add: demo_record_def)
  show ?thesis
    by (simp add: publish_def demo_sealed store_publish_def ok find_by_key_def insert_deliveries_def f demo_api1_def
        demo_api_def demo_db_def insert_delivery_def new_delivery_def subscribers_def Let_def)
qed

theorem publish_idempotent_witness:
  "publish demo_json (\<lambda>_. ''u'') development_materials 7 (Some 11) (Some ''ba9876543210'') (\<lambda>_. Some 12) (\<lambda>_. 8) 1 ''k'' ''[]'' demo_api1
     = Inr (\<lparr>pb_event = 9, pb_deliveries = [10], pb_duplicate = True\<rparr>, demo_api1)"
proof -
  have fk: "deliveries_have_events (ap_queue demo_api)"
    by (simp add: deliveries_have_events_def demo_api_def demo_db_def)
  obtain r where r: "publish_record demo_json (\<lambda>_. ''u'') development_materials 7 (Some 11) (Some ''ba9876543210'') 1 ''k'' ''[]'' = Inr r"
    by (simp add: publish_record_def demo_validate seal_envelope_def primary_cipher_def development_materials_def)
  show ?thesis
    by (subst publish_idempotent [OF demo_published fk _ r])
       (simp_all add: demo_validate development_materials_def)
qed

theorem publish_fan_out_witness:
  "set (map dr_endpoint (db_deliveries (ap_queue demo_api1))) = {2}"
proof -
  have "\<not> pb_duplicate \<lparr>pb_event = 9, pb_deliveries = [10], pb_duplicate = False\<rparr>" by simp
  from publish_fan_out [OF demo_published this] obtain t c e ds where
    t: "validate_and_canonicalize demo_json ''{}'' = Some (t, c)"
    and s: "demo_api1 = demo_api\<lparr>ap_queue := (ap_queue demo_api)\<lparr>db_events := db_events (ap_queue demo_api) @ [e],
               db_deliveries := db_deliveries (ap_queue demo_api) @ ds\<rparr>\<rparr>"
    and eps: "set (map dr_endpoint ds) = {ep_id e | e. e \<in> set (db_endpoints (ap_queue demo_api)) \<and> ep_ws e = 1 \<and> ep_active e
         \<and> (1, ep_id e, t) \<in> set (ap_subs demo_api)}" by (elim exE conjE)
  have "db_deliveries (ap_queue demo_api1) = ds" by (simp add: s) (simp add: demo_api_def demo_db_def)
  moreover have "t = ''order.created''" using t by (simp add: demo_validate)
  ultimately show ?thesis using eps by (auto simp: demo_api_def demo_db_def)
qed

theorem published_payload_opens_witness:
  "\<exists>claims q c. claim_batch (\<lambda>_. Some 20) 1 (\<lambda>_ _. 1) (\<lambda>_ _. False) \<lparr>rr_worker = 7, rr_lease_ttl = 30 * second, rr_limit = 1,
       rr_workspace_limit = 1, rr_endpoint_limit = 1\<rparr> (ap_queue demo_api1) = Inr (claims, q)
     \<and> c \<in> set claims \<and> open_envelope (m_payload development_materials) (cl_payload c) (payload_aad (\<lambda>_. ''u'') c) = Inr ''{}''"
proof -
  obtain claims q c where b: "claim_batch (\<lambda>_. Some 20) 1 (\<lambda>_ _. 1) (\<lambda>_ _. False) \<lparr>rr_worker = 7, rr_lease_ttl = 30 * second, rr_limit = 1,
       rr_workspace_limit = 1, rr_endpoint_limit = 1\<rparr> (ap_queue demo_api1) = Inr (claims, q)"
    and c: "c \<in> set claims" "cl_event c = 9"
    by (simp add: claim_batch_def claim_request_valid_def demo_api1_def demo_api_def event_row_fields scan_claim_def
      claim_deliveries_def recover_exhausted_def exhausted_row_def demo_db_def new_delivery_def claim_delivery_row_def
      duration_defs ready_at_def claim_one_delivery_def select_delivery_candidate_def candidate_ok_def find_workspace_def
      find_endpoint_def find_runtime_def find_event_def find_secret_def active_count_def count_where_def
      Let_def dkey_def claim_result_def retiring_secret_def numeral_3_eq_3 demo_record_def)
  from published_payload_opens [OF demo_published _ _ _ refl rtranclp.rtrancl_refl b c(1)] c(2) b c(1)
  show ?thesis by (auto simp: development_materials_def)
qed

end
