(* ===== verification/Endpoint.thy ===== *)
theory Endpoint
  imports Publication
begin

text \<open>
  \<open>internal/endpoint\<close>: creation of webhook endpoints, their reading and listing, and the rotation of signing
  secrets, with the SQL function \<open>rotate_endpoint_secret\<close>. The URL parser, the resolver, the JSON decoder and
  the UUID text are arguments, as are the random draws; the audit table is not modelled, its argument checks are.
\<close>

section \<open>Types\<close>

datatype endpoint_error =
  Err_endpoint_invalid | Err_endpoint_not_found | Err_endpoint_unavailable | Err_rotation_conflict
  | Err_rotation_in_progress | Err_rotation_expired | Err_endpoint_other

record create_input =
  ci_url :: string
  ci_types :: "string list"

record signing_secret =
  ss_key_id :: string
  ss_secret :: string

record endpoint_view =
  ew_id :: uuid
  ew_url :: string
  ew_status :: string
  ew_types :: "string list"

record created =
  cd_endpoint :: endpoint_view
  cd_secret :: signing_secret

record new_record =
  nr_id :: uuid
  nr_ws :: uuid
  nr_secret_id :: uuid
  nr_audit :: uuid
  nr_status :: string
  nr_scheme :: string
  nr_host :: string
  nr_key_id :: string
  nr_actor_type :: string
  nr_actor_id :: string
  nr_request_id :: string
  nr_port :: int
  nr_target :: envelope
  nr_secret :: envelope
  nr_types :: "string list"

record stored_record =
  sd_id :: uuid
  sd_ws :: uuid
  sd_status :: string
  sd_scheme :: string
  sd_host :: string
  sd_port :: int
  sd_target :: envelope
  sd_types :: "string list"
  sd_created :: instant

record endpoint_service =
  sv_profile :: profile
  sv_allow_http :: bool
  sv_materials :: materials

text \<open>What the process draws: identifiers, the 32 bytes of a secret, the 8 of a key identifier, nonces.\<close>

record draws =
  dw_id :: "uuid option"
  dw_secret_id :: "uuid option"
  dw_audit :: "uuid option"
  dw_secret :: "bytes option"
  dw_key :: "bytes option"
  dw_nonce1 :: "bytes option"
  dw_nonce2 :: "bytes option"

section \<open>Validation\<close>

fun collect_types :: "string list \<Rightarrow> string list \<Rightarrow> string list option" where
  "collect_types result [] = Some result"
| "collect_types result (value # values) =
     (if \<not> event_type_ok value then None
      else if value \<in> set result then None
      else collect_types (result @ [value]) values)"

definition validate_event_types :: "string list \<Rightarrow> endpoint_error + string list" where
  "validate_event_types values =
     (if values = [] \<or> length values > 100 then Inl Err_endpoint_invalid
      else case collect_types [] values of None \<Rightarrow> Inl Err_endpoint_invalid | Some r \<Rightarrow> Inr r)"

definition validate_url :: "url_env \<Rightarrow> profile \<Rightarrow> bool \<Rightarrow> string \<Rightarrow> endpoint_error + destination" where
  "validate_url u p allowHTTP raw =
     (case parse_destination u p allowHTTP raw of Inl e \<Rightarrow> Inl Err_endpoint_invalid | Inr d \<Rightarrow> Inr d)"

definition build_url :: "(string \<Rightarrow> addr option) \<Rightarrow> string \<Rightarrow> string \<Rightarrow> int \<Rightarrow> string \<Rightarrow> string" where
  "build_url parse_addr scheme host port path = scheme @ ''://'' @ authority parse_addr host port scheme @ path"

definition validate_create_input ::
    "url_env \<Rightarrow> (string \<Rightarrow> addr list option) \<Rightarrow> endpoint_service \<Rightarrow> create_input
      \<Rightarrow> endpoint_error + (destination \<times> string list)" where
  "validate_create_input u lookup sv input =
     (case validate_url u (sv_profile sv) (sv_allow_http sv) (ci_url input) of
        Inl e \<Rightarrow> Inl e
      | Inr d \<Rightarrow>
          (case resolve (ue_parse_addr u) lookup (sv_profile sv) (de_host d) of
             Inl e \<Rightarrow> Inl Err_endpoint_invalid
           | Inr _ \<Rightarrow>
               (case validate_event_types (ci_types input) of
                  Inl e \<Rightarrow> Inl e
                | Inr types \<Rightarrow> Inr (d, types))))"

section \<open>The record of a new endpoint\<close>

definition target_associated_data ::
    "uuid_text \<Rightarrow> int \<Rightarrow> uuid \<Rightarrow> uuid \<Rightarrow> string \<Rightarrow> string \<Rightarrow> int \<Rightarrow> bytes" where
  "target_associated_data us version ws endpoint scheme host port =
     (if version = legacy_format_version
      then aad [''1'', us ws, us endpoint, scheme, host, format_int port]
      else aad [''2'', us ws, ''endpoint_target'', us endpoint, scheme, host, format_int port])"

definition secret_associated_data :: "uuid_text \<Rightarrow> int \<Rightarrow> uuid \<Rightarrow> uuid \<Rightarrow> uuid \<Rightarrow> string \<Rightarrow> bytes" where
  "secret_associated_data us version ws endpoint secret keyID =
     (if version = legacy_format_version
      then aad [''1'', us ws, us endpoint, us secret, keyID]
      else aad [''2'', us ws, ''signing_secret'', us endpoint, us secret, keyID])"

definition new_endpoint_ids :: "draws \<Rightarrow> (uuid \<times> uuid) option" where
  "new_endpoint_ids w =
     (case dw_id w of None \<Rightarrow> None
      | Some i \<Rightarrow> (case dw_secret_id w of None \<Rightarrow> None | Some j \<Rightarrow> Some (i, j)))"

definition new_signing_secret :: "draws \<Rightarrow> (bytes \<times> string) option" where
  "new_signing_secret w =
     (case dw_secret w of None \<Rightarrow> None
      | Some secret \<Rightarrow>
          (case dw_key w of None \<Rightarrow> None
           | Some keyRaw \<Rightarrow> Some (secret, ''key_'' @ b64_encode keyRaw)))"

definition seal_record ::
    "uuid_text \<Rightarrow> materials \<Rightarrow> draws \<Rightarrow> uuid \<Rightarrow> uuid \<Rightarrow> uuid \<Rightarrow> string \<Rightarrow> destination \<Rightarrow> bytes
      \<Rightarrow> endpoint_error + (envelope \<times> envelope)" where
  "seal_record us m w ws i secretID keyID target secret =
     (case seal_envelope (m_signing m) (dw_nonce1 w) (de_path target)
             (target_associated_data us format_version ws i (de_scheme target) (de_host target) (de_port target)) of
        Inl e \<Rightarrow> Inl Err_endpoint_other
      | Inr targetEnvelope \<Rightarrow>
          (case seal_envelope (m_signing m) (dw_nonce2 w) secret
                  (secret_associated_data us format_version ws i secretID keyID) of
             Inl e \<Rightarrow> Inl Err_endpoint_other
           | Inr secretEnvelope \<Rightarrow> Inr (targetEnvelope, secretEnvelope)))"

definition make_record ::
    "uuid_text \<Rightarrow> materials \<Rightarrow> draws \<Rightarrow> uuid \<Rightarrow> string \<Rightarrow> string \<Rightarrow> string \<Rightarrow> destination \<Rightarrow> string list
      \<Rightarrow> endpoint_error + (new_record \<times> string)" where
  "make_record us m w ws actorType actorID requestID target types =
     (case new_endpoint_ids w of
        None \<Rightarrow> Inl Err_endpoint_other
      | Some (i, secretID) \<Rightarrow>
     (case dw_audit w of
        None \<Rightarrow> Inl Err_endpoint_other
      | Some auditID \<Rightarrow>
     (case new_signing_secret w of
        None \<Rightarrow> Inl Err_endpoint_other
      | Some (secret, keyID) \<Rightarrow>
     (case seal_record us m w ws i secretID keyID target secret of
        Inl e \<Rightarrow> Inl e
      | Inr (targetEnvelope, secretEnvelope) \<Rightarrow>
          Inr (\<lparr>nr_id = i, nr_ws = ws, nr_secret_id = secretID, nr_audit = auditID, nr_status = ''active'',
                nr_scheme = de_scheme target, nr_host = de_host target, nr_key_id = keyID,
                nr_actor_type = actorType, nr_actor_id = actorID, nr_request_id = requestID,
                nr_port = de_port target, nr_target = targetEnvelope, nr_secret = secretEnvelope, nr_types = types\<rparr>,
               b64_encode secret)))))"

definition created_response :: "(string \<Rightarrow> addr option) \<Rightarrow> new_record \<Rightarrow> destination \<Rightarrow> string \<Rightarrow> created" where
  "created_response pa r d secret =
     \<lparr>cd_endpoint = \<lparr>ew_id = nr_id r, ew_url = build_url pa (de_scheme d) (de_host d) (de_port d) (de_path d),
                     ew_status = nr_status r, ew_types = nr_types r\<rparr>,
      cd_secret = \<lparr>ss_key_id = nr_key_id r, ss_secret = secret\<rparr>\<rparr>"

section \<open>The store\<close>

text \<open>The CHECK constraints and the arguments of the audit function; \<open>envelope_stored\<close> those of an envelope.\<close>

definition envelope_stored :: "envelope \<Rightarrow> bool" where
  "envelope_stored e \<longleftrightarrow> (env_format e = 1 \<or> env_format e = 2) \<and> length (env_ciphertext e) \<ge> 16
     \<and> length (env_nonce e) = 12 \<and> env_kek e > 0"

definition audit_args_ok :: "string \<Rightarrow> string \<Rightarrow> string \<Rightarrow> string \<Rightarrow> bool" where
  "audit_args_ok actorType actorID resourceID requestID \<longleftrightarrow>
     actorType \<in> {''api_key'', ''admin_cli'', ''system''} \<and> 1 \<le> length actorID \<and> length actorID \<le> 128
     \<and> 1 \<le> length resourceID \<and> length resourceID \<le> 128 \<and> 1 \<le> length requestID \<and> length requestID \<le> 128"

definition new_record_ok :: "new_record \<Rightarrow> bool" where
  "new_record_ok r \<longleftrightarrow>
     nr_status r \<in> {''active'', ''paused'', ''disabled'', ''deleting''} \<and> nr_scheme r \<in> {''http'', ''https''}
     \<and> 1 \<le> length (nr_host r) \<and> length (nr_host r) \<le> 253 \<and> 1 \<le> nr_port r \<and> nr_port r \<le> 65535
     \<and> envelope_stored (nr_target r) \<and> envelope_stored (nr_secret r)
     \<and> 8 \<le> length (nr_key_id r) \<and> length (nr_key_id r) \<le> 64
     \<and> list_all event_type_ok (nr_types r) \<and> distinct (nr_types r)"

definition endpoint_row_of :: "instant \<Rightarrow> new_record \<Rightarrow> endpoint_row" where
  "endpoint_row_of now r =
     \<lparr>ep_ws = nr_ws r, ep_id = nr_id r, ep_status = nr_status r, ep_max_concurrency = 4, ep_scheme = nr_scheme r,
      ep_host = nr_host r, ep_port = nr_port r, ep_target = nr_target r, ep_created = now\<rparr>"

definition new_secret_row :: "uuid \<Rightarrow> uuid \<Rightarrow> uuid \<Rightarrow> string \<Rightarrow> envelope \<Rightarrow> secret_row" where
  "new_secret_row ws endpoint i keyID env =
     \<lparr>sr_ws = ws, sr_endpoint = endpoint, sr_id = i, sr_key_id = keyID, sr_state = Secret_active,
      sr_secret = Some env, sr_retire_at = None\<rparr>"

definition store_create :: "uuid_text \<Rightarrow> instant \<Rightarrow> new_record \<Rightarrow> api_db \<Rightarrow> endpoint_error + api_db" where
  "store_create us now r s =
     (let q = ap_queue s
      in if find_workspace q (nr_ws r) = None \<or> \<not> new_record_ok r
            \<or> list_ex (\<lambda>e. ep_id e = nr_id r) (db_endpoints q)
            \<or> list_ex (\<lambda>x. rt_ws x = nr_ws r \<and> rt_endpoint x = nr_id r) (db_runtime q)
            \<or> list_ex (\<lambda>v. sr_id v = nr_secret_id r
                 \<or> sr_ws v = nr_ws r \<and> sr_endpoint v = nr_id r \<and> (sr_key_id v = nr_key_id r \<or> sr_state v = Secret_active)) (db_secrets q)
            \<or> list_ex (\<lambda>(w, e, t). w = nr_ws r \<and> e = nr_id r \<and> t \<in> set (nr_types r)) (ap_subs s)
            \<or> \<not> audit_args_ok (nr_actor_type r) (nr_actor_id r) (us (nr_id r)) (nr_request_id r)
         then Inl Err_endpoint_other
         else Inr (s\<lparr>ap_queue := q\<lparr>db_endpoints := db_endpoints q @ [endpoint_row_of now r],
                  db_runtime := db_runtime q @ [\<lparr>rt_ws = nr_ws r, rt_endpoint = nr_id r, rt_last_seq = 0\<rparr>],
                  db_secrets := db_secrets q
                    @ [new_secret_row (nr_ws r) (nr_id r) (nr_secret_id r) (nr_key_id r) (nr_secret r)]\<rparr>,
                ap_subs := ap_subs s @ map (\<lambda>t. (nr_ws r, nr_id r, t)) (nr_types r)\<rparr>))"

definition create_as ::
    "url_env \<Rightarrow> (string \<Rightarrow> addr list option) \<Rightarrow> uuid_text \<Rightarrow> endpoint_service \<Rightarrow> draws \<Rightarrow> instant \<Rightarrow> uuid
      \<Rightarrow> string \<Rightarrow> string \<Rightarrow> string \<Rightarrow> create_input \<Rightarrow> api_db \<Rightarrow> endpoint_error + (created \<times> api_db)" where
  "create_as u lookup us sv w now ws actorType actorID requestID input s =
     (case validate_create_input u lookup sv input of
        Inl e \<Rightarrow> Inl e
      | Inr (d, types) \<Rightarrow>
     (case make_record us (sv_materials sv) w ws actorType actorID requestID d types of
        Inl e \<Rightarrow> Inl e
      | Inr (r, secret) \<Rightarrow>
     (case store_create us now r s of
        Inl e \<Rightarrow> Inl e
      | Inr s' \<Rightarrow> Inr (created_response (ue_parse_addr u) r d secret, s'))))"

definition create_internal ::
    "url_env \<Rightarrow> (string \<Rightarrow> addr list option) \<Rightarrow> uuid_text \<Rightarrow> endpoint_service \<Rightarrow> draws \<Rightarrow> instant \<Rightarrow> uuid
      \<Rightarrow> create_input \<Rightarrow> api_db \<Rightarrow> endpoint_error + (created \<times> api_db)" where
  "create_internal u lookup us sv w now ws input s =
     create_as u lookup us sv w now ws ''system'' ''internal'' ''internal'' input s"

text \<open>The subscriptions of an endpoint, \<open>ORDER BY event_type\<close> with the collation \<open>collate\<close>.\<close>

definition endpoint_types :: "(string list \<Rightarrow> string list) \<Rightarrow> uuid \<Rightarrow> uuid \<Rightarrow> api_db \<Rightarrow> string list" where
  "endpoint_types collate ws i s =
     collate (map (\<lambda>(w, e, t). t) (filter (\<lambda>(w, e, t). w = ws \<and> e = i) (ap_subs s)))"

definition stored_record_of :: "(string list \<Rightarrow> string list) \<Rightarrow> api_db \<Rightarrow> endpoint_row \<Rightarrow> stored_record" where
  "stored_record_of collate s e =
     \<lparr>sd_id = ep_id e, sd_ws = ep_ws e, sd_status = ep_status e, sd_scheme = ep_scheme e, sd_host = ep_host e,
      sd_port = ep_port e, sd_target = ep_target e, sd_types = endpoint_types collate (ep_ws e) (ep_id e) s,
      sd_created = ep_created e\<rparr>"

definition store_get ::
    "(string list \<Rightarrow> string list) \<Rightarrow> uuid \<Rightarrow> uuid \<Rightarrow> api_db \<Rightarrow> endpoint_error + stored_record" where
  "store_get collate ws i s =
     (case find (\<lambda>e. ep_ws e = ws \<and> ep_id e = i) (db_endpoints (ap_queue s)) of
        None \<Rightarrow> Inl Err_endpoint_not_found
      | Some e \<Rightarrow> Inr (stored_record_of collate s e))"

definition open_target ::
    "uuid_text \<Rightarrow> materials \<Rightarrow> uuid \<Rightarrow> stored_record \<Rightarrow> crypto_error + bytes" where
  "open_target us m ws r =
     open_envelope (m_signing m) (sd_target r)
       (target_associated_data us (env_format (sd_target r)) ws (sd_id r) (sd_scheme r) (sd_host r) (sd_port r))"

definition get_endpoint ::
    "(string \<Rightarrow> addr option) \<Rightarrow> (string list \<Rightarrow> string list) \<Rightarrow> uuid_text \<Rightarrow> endpoint_service \<Rightarrow> uuid \<Rightarrow> uuid
      \<Rightarrow> api_db \<Rightarrow> endpoint_error + endpoint_view" where
  "get_endpoint pa collate us sv ws i s =
     (case store_get collate ws i s of
        Inl e \<Rightarrow> Inl e
      | Inr r \<Rightarrow>
          (case open_target us (sv_materials sv) ws r of
             Inl e \<Rightarrow> Inl Err_endpoint_other
           | Inr path \<Rightarrow>
               Inr \<lparr>ew_id = i, ew_url = build_url pa (sd_scheme r) (sd_host r) (sd_port r) path,
                    ew_status = sd_status r, ew_types = sd_types r\<rparr>))"

section \<open>The list\<close>

record endpoint_item =
  ei_id :: uuid
  ei_url :: string
  ei_status :: string
  ei_types :: "string list"
  ei_created :: instant

record endpoint_page =
  en_items :: "endpoint_item list"
  en_next :: string

definition stored_position :: "stored_record \<Rightarrow> position" where
  "stored_position r = (sd_created r, sd_id r)"

definition after_cursor :: "list_cursor \<Rightarrow> position option" where
  "after_cursor c = (if lc_created_at c = zero_time then None else Some (lc_created_at c, lc_id c))"

definition own_endpoints :: "(string list \<Rightarrow> string list) \<Rightarrow> uuid \<Rightarrow> api_db \<Rightarrow> stored_record list" where
  "own_endpoints collate ws s =
     map (stored_record_of collate s) (filter (\<lambda>e. ep_ws e = ws) (db_endpoints (ap_queue s)))"

definition store_list ::
    "(string list \<Rightarrow> string list) \<Rightarrow> uuid \<Rightarrow> int \<Rightarrow> list_cursor \<Rightarrow> api_db \<Rightarrow> stored_record list" where
  "store_list collate ws limit cursor s =
     keyset_query stored_position (after_cursor cursor) (nat limit) (own_endpoints collate ws s)"

definition list_item :: "(string \<Rightarrow> addr option) \<Rightarrow> stored_record \<Rightarrow> bytes \<Rightarrow> endpoint_item" where
  "list_item pa r path =
     \<lparr>ei_id = sd_id r, ei_url = build_url pa (sd_scheme r) (sd_host r) (sd_port r) path, ei_status = sd_status r,
      ei_types = sd_types r, ei_created = sd_created r\<rparr>"

text \<open>The loop over the records; \<open>prev\<close> is \<open>records[index-1]\<close>, \<open>left\<close> is \<open>limit - index\<close>.\<close>

fun list_loop ::
    "(string \<Rightarrow> addr option) \<Rightarrow> uuid_text \<Rightarrow> materials \<Rightarrow> uuid \<Rightarrow> nat \<Rightarrow> stored_record option \<Rightarrow> stored_record list
      \<Rightarrow> endpoint_item list \<Rightarrow> list_error + endpoint_page" where
  "list_loop pa us m ws left prev [] items = Inr \<lparr>en_items = items, en_next = []\<rparr>"
| "list_loop pa us m ws 0 None (r # rs) items = Inl Err_list_store"
| "list_loop pa us m ws 0 (Some prev) (r # rs) items =
     (case encode_list_cursor (m_cursor_pepper m) ws \<lparr>lc_created_at = sd_created prev, lc_id = sd_id prev\<rparr> of
        Inl e \<Rightarrow> Inl e
      | Inr next \<Rightarrow> Inr \<lparr>en_items = items, en_next = next\<rparr>)"
| "list_loop pa us m ws (Suc left) prev (r # rs) items =
     (case open_target us m ws r of
        Inl e \<Rightarrow> Inl Err_list_open
      | Inr path \<Rightarrow> list_loop pa us m ws left (Some r) rs (items @ [list_item pa r path]))"

definition list_endpoints ::
    "(string \<Rightarrow> addr option) \<Rightarrow> (string list \<Rightarrow> string list) \<Rightarrow> uuid_text \<Rightarrow> materials \<Rightarrow> uuid \<Rightarrow> int \<Rightarrow> string
      \<Rightarrow> api_db \<Rightarrow> list_error + endpoint_page" where
  "list_endpoints pa collate us m ws limit raw s =
     (if ws = uuid_nil \<or> limit < 1 \<or> limit > 100 then Inl Err_invalid_list
      else case decode_list_cursor (m_cursor_pepper m) ws raw of
        Inl e \<Rightarrow> Inl e
      | Inr cursor \<Rightarrow>
          list_loop pa us m ws (nat limit) None (store_list collate ws (limit + 1) cursor s) [])"

section \<open>Rotation\<close>

record rotation_record =
  rr_command :: uuid
  rr_audit :: uuid
  rr_ws :: uuid
  rr_endpoint :: uuid
  rr_secret_id :: uuid
  rr_key_id :: string
  rr_actor :: string
  rr_request :: string
  rr_key_hash :: bytes
  rr_fingerprint :: bytes
  rr_overlap :: int
  rr_secret :: envelope

record rotation_stored =
  rs_secret_id :: uuid
  rs_key_id :: string
  rs_secret :: envelope
  rs_duplicate :: bool

definition rotation_args_ok :: "rotation_record \<Rightarrow> bool" where
  "rotation_args_ok c \<longleftrightarrow>
     8 \<le> length (rr_key_id c) \<and> length (rr_key_id c) \<le> 64 \<and> envelope_stored (rr_secret c)
     \<and> 1 \<le> length (rr_actor c) \<and> length (rr_actor c) \<le> 128 \<and> 1 \<le> length (rr_request c) \<and> length (rr_request c) \<le> 128
     \<and> length (rr_key_hash c) = 32 \<and> length (rr_fingerprint c) = 32 \<and> 3600 \<le> rr_overlap c \<and> rr_overlap c \<le> 604800"

definition secret_of :: "api_db \<Rightarrow> rotation_row \<Rightarrow> secret_row option" where
  "secret_of s c = find (\<lambda>v. sr_ws v = ro_ws c \<and> sr_id v = ro_secret c) (db_secrets (ap_queue s))"

definition of_endpoint :: "uuid \<Rightarrow> uuid \<Rightarrow> secret_row \<Rightarrow> bool" where
  "of_endpoint ws i v \<longleftrightarrow> sr_ws v = ws \<and> sr_endpoint v = i"

definition prior_rotation :: "rotation_record \<Rightarrow> api_db \<Rightarrow> (rotation_row \<times> secret_row) option" where
  "prior_rotation c s =
     (case find (\<lambda>x. ro_ws x = rr_ws c \<and> ro_endpoint x = rr_endpoint c \<and> ro_key_hash x = rr_key_hash c
                    \<and> secret_of s x \<noteq> None) (ap_rotations s) of
        None \<Rightarrow> None
      | Some x \<Rightarrow> map_option (\<lambda>v. (x, v)) (secret_of s x))"

definition retire_secret_row :: "instant \<Rightarrow> secret_row \<Rightarrow> secret_row" where
  "retire_secret_row t v = v\<lparr>sr_state := Secret_retiring, sr_retire_at := Some t\<rparr>"

text \<open>\<open>wde.rotate_endpoint_secret\<close>; \<open>st\<close> is \<open>transaction_timestamp()\<close>.\<close>

definition rotate_endpoint_secret ::
    "instant \<Rightarrow> rotation_record \<Rightarrow> api_db \<Rightarrow> string + (rotation_stored \<times> api_db)" where
  "rotate_endpoint_secret st c s =
     (let vs = db_secrets (ap_queue s); mine = of_endpoint (rr_ws c) (rr_endpoint c)
      in if \<not> rotation_args_ok c then Inl ''rotation_invalid''
         else case prior_rotation c s of
           Some (x, v) \<Rightarrow>
             if ro_fingerprint x \<noteq> rr_fingerprint c then Inl ''rotation_conflict''
             else if sr_state v = Secret_purged then Inl ''rotation_result_expired''
             else (case sr_secret v of
                     None \<Rightarrow> Inl ''null envelope''
                   | Some env \<Rightarrow> Inr (\<lparr>rs_secret_id = ro_secret x, rs_key_id = ro_key_id x, rs_secret = env,
                                      rs_duplicate = True\<rparr>, s))
         | None \<Rightarrow>
             if \<not> list_ex (\<lambda>e. ep_ws e = rr_ws c \<and> ep_id e = rr_endpoint c \<and> ep_active e) (db_endpoints (ap_queue s))
             then Inl ''rotation_not_found''
             else if list_ex (\<lambda>v. mine v \<and> sr_state v = Secret_retiring
                          \<and> (case sr_retire_at v of None \<Rightarrow> False | Some t \<Rightarrow> t > st)) vs
             then Inl ''rotation_in_progress''
             else
               let vs1 = (case find (\<lambda>v. mine v \<and> sr_state v = Secret_retiring) vs of
                            None \<Rightarrow> vs
                          | Some x \<Rightarrow> update_where (\<lambda>v. sr_ws v = rr_ws c \<and> sr_id v = sr_id x) purge_secret_row vs)
               in case find (\<lambda>v. mine v \<and> sr_state v = Secret_active) vs1 of
                    None \<Rightarrow> Inl ''rotation_no_active_secret''
                  | Some a \<Rightarrow>
                      let vs2 = update_where (\<lambda>v. sr_ws v = rr_ws c \<and> sr_id v = sr_id a)
                                  (retire_secret_row (st + rr_overlap c * second)) vs1
                      in if list_ex (\<lambda>v. sr_id v = rr_secret_id c \<or> mine v \<and> sr_key_id v = rr_key_id c) vs2
                            \<or> list_ex (\<lambda>x. ro_id x = rr_command c) (ap_rotations s)
                         then Inl ''duplicate key''
                         else Inr (\<lparr>rs_secret_id = rr_secret_id c, rs_key_id = rr_key_id c, rs_secret = rr_secret c,
                                    rs_duplicate = False\<rparr>,
                              s\<lparr>ap_queue := (ap_queue s)\<lparr>db_secrets := vs2
                                   @ [new_secret_row (rr_ws c) (rr_endpoint c) (rr_secret_id c) (rr_key_id c) (rr_secret c)]\<rparr>,
                                ap_rotations := ap_rotations s
                                   @ [\<lparr>ro_id = rr_command c, ro_ws = rr_ws c, ro_endpoint = rr_endpoint c,
                                       ro_secret = rr_secret_id c, ro_key_hash = rr_key_hash c,
                                       ro_fingerprint = rr_fingerprint c, ro_key_id = rr_key_id c,
                                       ro_overlap = rr_overlap c\<rparr>]\<rparr>))"

definition rotation_error :: "string \<Rightarrow> endpoint_error" where
  "rotation_error m =
     (if m = ''rotation_not_found'' then Err_endpoint_not_found
      else if m = ''rotation_conflict'' then Err_rotation_conflict
      else if m = ''rotation_result_expired'' then Err_rotation_expired
      else if m = ''rotation_in_progress'' then Err_rotation_in_progress
      else if m = ''rotation_invalid'' \<or> m = ''rotation_no_active_secret'' then Err_endpoint_invalid
      else Err_endpoint_other)"

definition store_rotate ::
    "instant \<Rightarrow> rotation_record \<Rightarrow> api_db \<Rightarrow> endpoint_error + (rotation_stored \<times> api_db)" where
  "store_rotate st c s =
     (case rotate_endpoint_secret st c s of Inl m \<Rightarrow> Inl (rotation_error m) | Inr x \<Rightarrow> Inr x)"

definition rotation_mac :: "key256 \<Rightarrow> bytes \<Rightarrow> bytes" where
  "rotation_mac key v = hmac_sha256 (key_bytes key) v"

definition rotation_fingerprint :: "key256 \<Rightarrow> uuid \<Rightarrow> int \<Rightarrow> bytes" where
  "rotation_fingerprint key endpoint overlap = rotation_mac key (uuid_bytes endpoint @ put_uint64 overlap)"

record rotation_result =
  rn_endpoint :: uuid
  rn_secret :: signing_secret
  rn_duplicate :: bool

text \<open>\<open>rotationIDs\<close> draws the command's, the audit event's and the secret's identifier.\<close>

definition rotation_ids :: "draws \<Rightarrow> (uuid \<times> uuid \<times> uuid) option" where
  "rotation_ids w =
     (case (dw_id w, dw_audit w, dw_secret_id w) of
        (Some c, Some a, Some v) \<Rightarrow> Some (c, a, v)
      | _ \<Rightarrow> None)"

definition rotation_request ::
    "uuid_text \<Rightarrow> materials \<Rightarrow> draws \<Rightarrow> uuid \<Rightarrow> uuid \<Rightarrow> string \<Rightarrow> string \<Rightarrow> string \<Rightarrow> int
      \<Rightarrow> endpoint_error + rotation_record" where
  "rotation_request us m w ws endpoint actorID requestID idempotencyKey overlapSeconds =
     (if length idempotencyKey < 1 \<or> length idempotencyKey > 128 then Inl Err_endpoint_invalid
      else
        let overlap = (if overlapSeconds = 0 then 24 * 60 * 60 else overlapSeconds)
        in if overlap < 3600 \<or> overlap > 7 * 24 * 60 * 60 then Inl Err_endpoint_invalid
           else case rotation_ids w of
             None \<Rightarrow> Inl Err_endpoint_other
           | Some (commandID, auditID, secretID) \<Rightarrow>
          (case new_signing_secret w of
             None \<Rightarrow> Inl Err_endpoint_other
           | Some (secret, keyID) \<Rightarrow>
          (case seal_envelope (m_signing m) (dw_nonce1 w) secret
                  (secret_associated_data us format_version ws endpoint secretID keyID) of
             Inl e \<Rightarrow> Inl Err_endpoint_other
           | Inr env \<Rightarrow>
               Inr \<lparr>rr_command = commandID, rr_audit = auditID, rr_ws = ws, rr_endpoint = endpoint,
                    rr_secret_id = secretID, rr_key_id = keyID, rr_actor = actorID, rr_request = requestID,
                    rr_key_hash = rotation_mac (m_idempotency_pepper m)
                      (''secret-rotation:v1'' @ [byte_of 10] @ idempotencyKey),
                    rr_fingerprint = rotation_fingerprint (m_fingerprint_pepper m) endpoint overlap,
                    rr_overlap = overlap, rr_secret = env\<rparr>)))"

definition rotate ::
    "uuid_text \<Rightarrow> materials \<Rightarrow> draws \<Rightarrow> instant \<Rightarrow> uuid \<Rightarrow> uuid \<Rightarrow> string \<Rightarrow> string \<Rightarrow> string \<Rightarrow> int
      \<Rightarrow> api_db \<Rightarrow> endpoint_error + (rotation_result \<times> api_db)" where
  "rotate us m w st ws endpoint actorID requestID idempotencyKey overlapSeconds s =
     (case rotation_request us m w ws endpoint actorID requestID idempotencyKey overlapSeconds of
        Inl e \<Rightarrow> Inl e
      | Inr c \<Rightarrow>
     (case store_rotate st c s of
        Inl e \<Rightarrow> Inl e
      | Inr (stored, s') \<Rightarrow>
     (case open_envelope (m_signing m) (rs_secret stored)
             (secret_associated_data us (env_format (rs_secret stored)) ws endpoint (rs_secret_id stored) (rs_key_id stored)) of
        Inl e \<Rightarrow> Inl Err_endpoint_other
      | Inr plain \<Rightarrow>
          Inr (\<lparr>rn_endpoint = endpoint, rn_secret = \<lparr>ss_key_id = rs_key_id stored, ss_secret = b64_encode plain\<rparr>,
                rn_duplicate = rs_duplicate stored\<rparr>, s'))))"

section \<open>The handlers\<close>

text \<open>
  The decoders reject unknown fields and anything after the value; a body longer than the limit is never read
  to its end.
\<close>

datatype endpoint_body = Body_created created | Body_endpoint endpoint_view | Body_rotation rotation_result

definition write_json :: "int \<Rightarrow> 'a \<Rightarrow> 'a reply" where
  "write_json status v = Reply status v"

definition create_handler ::
    "(bytes \<Rightarrow> create_input option) \<Rightarrow> url_env \<Rightarrow> (string \<Rightarrow> addr list option) \<Rightarrow> uuid_text \<Rightarrow> endpoint_service
      \<Rightarrow> draws \<Rightarrow> instant \<Rightarrow> principal request \<Rightarrow> api_db \<Rightarrow> endpoint_body reply \<times> api_db" where
  "create_handler decode u lookup us sv w now r s =
     (if hx_header r ''Content-Type'' \<noteq> ''application/json''
      then (write_problem r 415 ''unsupported_media_type'' ''Content-Type must be application/json'', s)
      else case (if length (hx_body r) > 65536 then None else decode (hx_body r)) of
        None \<Rightarrow> (write_problem r 400 ''invalid_request'' ''Invalid request'', s)
      | Some input \<Rightarrow>
          let p = request_principal r
          in case create_as u lookup us sv w now (pr_workspace p) ''api_key'' (us (pr_api_key p)) (hx_request_id r) input s of
               Inl Err_endpoint_invalid \<Rightarrow> (write_problem r 422 ''invalid_endpoint'' ''Invalid endpoint'', s)
             | Inl Err_endpoint_unavailable \<Rightarrow>
                 (write_problem r 503 ''endpoint_creation_unavailable'' ''Endpoint creation unavailable'', s)
             | Inl _ \<Rightarrow> (internal_error r, s)
             | Inr (c, s') \<Rightarrow> (write_json 201 (Body_created c), s'))"

definition endpoint_get_handler ::
    "(string \<Rightarrow> uuid option) \<Rightarrow> (string \<Rightarrow> addr option) \<Rightarrow> (string list \<Rightarrow> string list) \<Rightarrow> uuid_text
      \<Rightarrow> endpoint_service \<Rightarrow> principal request \<Rightarrow> api_db \<Rightarrow> endpoint_body reply" where
  "endpoint_get_handler parse_uuid pa collate us sv r s =
     (case parse_uuid (hx_path_value r ''id'') of
        None \<Rightarrow> write_problem r 404 ''not_found'' ''Resource not found''
      | Some i \<Rightarrow>
          (case get_endpoint pa collate us sv (pr_workspace (request_principal r)) i s of
             Inl Err_endpoint_not_found \<Rightarrow> write_problem r 404 ''not_found'' ''Resource not found''
           | Inl _ \<Rightarrow> internal_error r
           | Inr v \<Rightarrow> write_json 200 (Body_endpoint v)))"

definition rotate_handler ::
    "(string \<Rightarrow> uuid option) \<Rightarrow> (bytes \<Rightarrow> int option) \<Rightarrow> uuid_text \<Rightarrow> endpoint_service \<Rightarrow> draws \<Rightarrow> instant
      \<Rightarrow> principal request \<Rightarrow> api_db \<Rightarrow> endpoint_body reply \<times> api_db" where
  "rotate_handler parse_uuid decode us sv w st r s =
     (case parse_uuid (hx_path_value r ''id'') of
        None \<Rightarrow> (write_problem r 404 ''not_found'' ''Resource not found'', s)
      | Some endpoint \<Rightarrow>
          if hx_header r ''Content-Type'' \<noteq> ''application/json''
          then (write_problem r 415 ''unsupported_media_type'' ''Content-Type must be application/json'', s)
          else case (if length (hx_body r) > 4096 then None else decode (hx_body r)) of
            None \<Rightarrow> (write_problem r 400 ''invalid_request'' ''Invalid request'', s)
          | Some overlapSeconds \<Rightarrow>
              let p = request_principal r
              in case rotate us (sv_materials sv) w st (pr_workspace p) endpoint (us (pr_api_key p)) (hx_request_id r)
                        (hx_header r ''Idempotency-Key'') overlapSeconds s of
                   Inl Err_endpoint_not_found \<Rightarrow> (write_problem r 404 ''not_found'' ''Resource not found'', s)
                 | Inl Err_rotation_conflict \<Rightarrow> (write_problem r 409 ''rotation_conflict'' ''Secret rotation conflict'', s)
                 | Inl Err_rotation_in_progress \<Rightarrow> (write_problem r 409 ''rotation_conflict'' ''Secret rotation conflict'', s)
                 | Inl Err_rotation_expired \<Rightarrow>
                     (write_problem r 409 ''rotation_result_expired'' ''Secret rotation result expired'', s)
                 | Inl Err_endpoint_invalid \<Rightarrow>
                     (write_problem r 422 ''invalid_rotation'' ''Invalid secret rotation'', s)
                 | Inl _ \<Rightarrow> (internal_error r, s)
                 | Inr (result, s') \<Rightarrow> (write_json 202 (Body_rotation result), s'))"

end
