(* ===== verification/Signing_Keys.thy ===== *)
theory Signing_Keys
  imports Endpoint
begin

text \<open>
  What the rotation of signing secrets promises: the invariant of the secrets table, the two keys a worker
  signs with after a rotation, idempotent rotation, and that an endpoint reads back as it was created.
\<close>

section \<open>The invariant of the secrets\<close>

definition one_in_state :: "secret_state \<Rightarrow> secret_row list \<Rightarrow> bool" where
  "one_in_state st vs \<longleftrightarrow>
     (\<forall>v\<in>set vs. \<forall>w\<in>set vs. sr_ws v = sr_ws w \<and> sr_endpoint v = sr_endpoint w \<and> sr_state v = st \<and> sr_state w = st
        \<longrightarrow> v = w)"

definition secret_ok :: "secret_row \<Rightarrow> bool" where
  "secret_ok v \<longleftrightarrow> (sr_state v = Secret_purged \<longleftrightarrow> sr_secret v = None)
     \<and> (sr_state v = Secret_active \<longrightarrow> sr_retire_at v = None) \<and> (sr_state v = Secret_retiring \<longrightarrow> sr_retire_at v \<noteq> None)"

definition key_name :: "secret_row \<Rightarrow> uuid \<times> uuid \<times> string" where
  "key_name v = (sr_ws v, sr_endpoint v, sr_key_id v)"

definition secrets_inv :: "secret_row list \<Rightarrow> bool" where
  "secrets_inv vs \<longleftrightarrow> distinct (map sr_id vs) \<and> distinct (map key_name vs) \<and> one_in_state Secret_active vs \<and> one_in_state Secret_retiring vs
     \<and> list_all secret_ok vs"

lemma secret_by_id: "distinct (map sr_id vs) \<Longrightarrow> v \<in> set vs \<Longrightarrow> w \<in> set vs \<Longrightarrow> sr_id v = sr_id w \<longleftrightarrow> v = w"
  by (auto simp: distinct_map inj_on_def)

lemma update_where_cong: "(\<And>v. v \<in> set vs \<Longrightarrow> P v = Q v) \<Longrightarrow> update_where P f vs = update_where Q f vs"
  by (auto simp: update_where_def)

lemma update_by_id:
  assumes "secrets_inv vs" and "x \<in> set vs" and "of_endpoint ws i x" and "sr_state x = st"
    and "st = Secret_active \<or> st = Secret_retiring"
  shows "update_where (\<lambda>v. sr_ws v = ws \<and> sr_id v = sr_id x) g vs
    = update_where (\<lambda>v. of_endpoint ws i v \<and> sr_state v = st) g vs"
proof (rule update_where_cong)
  fix v assume v: "v \<in> set vs"
  have "one_in_state st vs" using assms(1,5) by (auto simp: secrets_inv_def)
  then have "of_endpoint ws i v \<and> sr_state v = st \<longleftrightarrow> v = x"
    using assms(2,3,4) v by (auto simp: one_in_state_def of_endpoint_def)
  moreover have "sr_ws v = ws \<and> sr_id v = sr_id x \<longleftrightarrow> v = x"
    using secret_by_id [OF _ v assms(2)] assms(1,3) by (auto simp: secrets_inv_def of_endpoint_def)
  ultimately show "(sr_ws v = ws \<and> sr_id v = sr_id x) = (of_endpoint ws i v \<and> sr_state v = st)" by simp
qed

lemma secret_updates [simp]:
  "sr_id (purge_secret_row v) = sr_id v" "sr_ws (purge_secret_row v) = sr_ws v" "sr_endpoint (purge_secret_row v) = sr_endpoint v"
  "sr_key_id (purge_secret_row v) = sr_key_id v" "sr_state (purge_secret_row v) = Secret_purged"
  "sr_secret (purge_secret_row v) = None"
  "sr_id (retire_secret_row t v) = sr_id v" "sr_ws (retire_secret_row t v) = sr_ws v"
  "sr_endpoint (retire_secret_row t v) = sr_endpoint v" "sr_key_id (retire_secret_row t v) = sr_key_id v"
  "sr_state (retire_secret_row t v) = Secret_retiring" "sr_secret (retire_secret_row t v) = sr_secret v"
  "sr_retire_at (retire_secret_row t v) = Some t"
  by (simp_all add: purge_secret_row_def retire_secret_row_def)

lemma secrets_inv_purge:
  assumes "secrets_inv vs" and "\<And>v. sr_state (g v) = Secret_purged \<and> sr_secret (g v) = None \<and> sr_id (g v) = sr_id v
      \<and> sr_ws (g v) = sr_ws v \<and> sr_endpoint (g v) = sr_endpoint v \<and> sr_key_id (g v) = sr_key_id v"
  shows "secrets_inv (update_where P g vs)"
proof -
  have "map sr_id (update_where P g vs) = map sr_id vs" using assms(2) by (simp add: map_update_where_same)
  moreover have "map key_name (update_where P g vs) = map key_name vs"
    using assms(2) by (simp add: map_update_where_same key_name_def)
  moreover have "one_in_state st (update_where P g vs)" if "one_in_state st vs" "st \<noteq> Secret_purged" for st
    using that assms(2) by (fastforce simp: one_in_state_def set_update_where)
  moreover have "list_all secret_ok (update_where P g vs)"
    using assms by (auto simp: secrets_inv_def secret_ok_def list_all_iff set_update_where)
  ultimately show ?thesis using assms(1) by (simp add: secrets_inv_def)
qed

text \<open>What a rotation makes of the rows.\<close>

definition rotated_rows :: "uuid \<Rightarrow> uuid \<Rightarrow> instant \<Rightarrow> secret_row list \<Rightarrow> secret_row list" where
  "rotated_rows ws i t vs =
     update_where (\<lambda>v. of_endpoint ws i v \<and> sr_state v = Secret_active) (retire_secret_row t)
       (update_where (\<lambda>v. of_endpoint ws i v \<and> sr_state v = Secret_retiring) purge_secret_row vs)"

lemma rotated_ids: "map sr_id (rotated_rows ws i t vs) = map sr_id vs"
  "map key_name (rotated_rows ws i t vs) = map key_name vs"
  by (simp_all add: rotated_rows_def map_update_where_same key_name_def)

lemma rotate_cases:
  assumes "rotate_endpoint_secret st c s = Inr (stored, s')" and inv: "secrets_inv (db_secrets (ap_queue s))"
  shows "rotation_args_ok c \<and>
    (case prior_rotation c s of
       Some (x, v) \<Rightarrow> ro_fingerprint x = rr_fingerprint c \<and> s' = s \<and> sr_state v \<noteq> Secret_purged
         \<and> stored = \<lparr>rs_secret_id = ro_secret x, rs_key_id = ro_key_id x, rs_secret = the (sr_secret v), rs_duplicate = True\<rparr>
     | None \<Rightarrow> (\<exists>e\<in>set (db_endpoints (ap_queue s)). ep_ws e = rr_ws c \<and> ep_id e = rr_endpoint c \<and> ep_active e)
         \<and> (\<exists>a\<in>set (db_secrets (ap_queue s)). of_endpoint (rr_ws c) (rr_endpoint c) a \<and> sr_state a = Secret_active)
         \<and> (\<forall>v\<in>set (db_secrets (ap_queue s)). sr_id v \<noteq> rr_secret_id c \<and> key_name v \<noteq> (rr_ws c, rr_endpoint c, rr_key_id c))
         \<and> stored = \<lparr>rs_secret_id = rr_secret_id c, rs_key_id = rr_key_id c, rs_secret = rr_secret c, rs_duplicate = False\<rparr>
         \<and> (\<exists>x. s' = s\<lparr>ap_queue := (ap_queue s)\<lparr>db_secrets :=
                rotated_rows (rr_ws c) (rr_endpoint c) (st + rr_overlap c * second) (db_secrets (ap_queue s))
                @ [new_secret_row (rr_ws c) (rr_endpoint c) (rr_secret_id c) (rr_key_id c) (rr_secret c)]\<rparr>,
              ap_rotations := ap_rotations s @ [x]\<rparr>
            \<and> x = \<lparr>ro_id = rr_command c, ro_ws = rr_ws c, ro_endpoint = rr_endpoint c, ro_secret = rr_secret_id c,
                   ro_key_hash = rr_key_hash c, ro_fingerprint = rr_fingerprint c, ro_key_id = rr_key_id c,
                   ro_overlap = rr_overlap c\<rparr>))"
proof -
  have ok: "rotation_args_ok c" using assms(1) by (auto simp: rotate_endpoint_secret_def Let_def split: if_splits)
  show ?thesis
  proof (cases "prior_rotation c s")
    case (Some y)
    obtain x v where y: "y = (x, v)" by (cases y)
    show ?thesis using assms(1) ok Some y
      by (auto simp: rotate_endpoint_secret_def Let_def split: if_splits option.splits)
  next
    case None
    let ?vs = "db_secrets (ap_queue s)" and ?mine = "of_endpoint (rr_ws c) (rr_endpoint c)"
    let ?vs1 = "update_where (\<lambda>v. ?mine v \<and> sr_state v = Secret_retiring) purge_secret_row ?vs"
    have vs1: "(case find (\<lambda>v. ?mine v \<and> sr_state v = Secret_retiring) ?vs of None \<Rightarrow> ?vs
        | Some x \<Rightarrow> update_where (\<lambda>v. sr_ws v = rr_ws c \<and> sr_id v = sr_id x) purge_secret_row ?vs) = ?vs1"
    proof (cases "find (\<lambda>v. ?mine v \<and> sr_state v = Secret_retiring) ?vs")
      case None
      then have "?vs1 = ?vs" by (intro update_where_none) (auto simp: find_None_iff)
      with None show ?thesis by simp
    next
      case (Some x)
      then have "x \<in> set ?vs" "?mine x" "sr_state x = Secret_retiring" by (auto simp: find_Some_iff)
      from update_by_id [OF inv this] Some show ?thesis by simp
    qed
    have inv1: "secrets_inv ?vs1" by (rule secrets_inv_purge [OF inv]) simp
    from assms(1) ok None obtain a where a: "find (\<lambda>v. ?mine v \<and> sr_state v = Secret_active) ?vs1 = Some a"
      and ep: "\<exists>e\<in>set (db_endpoints (ap_queue s)). ep_ws e = rr_ws c \<and> ep_id e = rr_endpoint c \<and> ep_active e"
      by (auto simp: rotate_endpoint_secret_def Let_def vs1 list_ex_iff split: if_splits option.splits)
    then have a1: "a \<in> set ?vs1" "?mine a" "sr_state a = Secret_active" by (auto simp: find_Some_iff)
    have vs2: "update_where (\<lambda>v. sr_ws v = rr_ws c \<and> sr_id v = sr_id a) (retire_secret_row t) ?vs1
        = rotated_rows (rr_ws c) (rr_endpoint c) t ?vs" for t
      using update_by_id [OF inv1 a1] by (simp add: rotated_rows_def)
    have av: "a \<in> set ?vs" using a1 by (auto simp: set_update_where split: if_splits)
    have fresh: "\<forall>v\<in>set ?vs. sr_id v \<noteq> rr_secret_id c \<and> key_name v \<noteq> (rr_ws c, rr_endpoint c, rr_key_id c)"
      if "\<not> list_ex (\<lambda>v. sr_id v = rr_secret_id c \<or> ?mine v \<and> sr_key_id v = rr_key_id c) (rotated_rows (rr_ws c) (rr_endpoint c) t ?vs)" for t
    proof -
      have "rr_secret_id c \<notin> set (map sr_id (rotated_rows (rr_ws c) (rr_endpoint c) t ?vs))"
        "(rr_ws c, rr_endpoint c, rr_key_id c) \<notin> set (map key_name (rotated_rows (rr_ws c) (rr_endpoint c) t ?vs))"
        using that by (auto simp: list_ex_iff key_name_def of_endpoint_def)
      then show ?thesis unfolding rotated_ids by force
    qed
    show ?thesis using assms(1) ok None ep a a1 av fresh
      by (auto simp: rotate_endpoint_secret_def Let_def vs1 vs2 split: if_splits)
  qed
qed

section \<open>The two keys after a rotation\<close>

lemma set_rotated:
  "set (rotated_rows ws i t vs) = (\<lambda>v. if of_endpoint ws i v
      then (if sr_state v = Secret_active then retire_secret_row t v
            else if sr_state v = Secret_retiring then purge_secret_row v else v) else v) ` set vs"
proof -
  have "rotated_rows ws i t vs = map (\<lambda>v. if of_endpoint ws i v
      then (if sr_state v = Secret_active then retire_secret_row t v
            else if sr_state v = Secret_retiring then purge_secret_row v else v) else v) vs"
    unfolding rotated_rows_def update_where_def map_map
    by (rule map_cong [OF refl]) (auto simp: of_endpoint_def)
  then show ?thesis by (simp only: set_map)
qed

lemma of_endpoint_updates [simp]:
  "of_endpoint ws i (purge_secret_row v) = of_endpoint ws i v"
  "of_endpoint ws i (retire_secret_row t v) = of_endpoint ws i v"
  by (simp_all add: of_endpoint_def)

lemma rotated_no_active: "v \<in> set (rotated_rows ws i t vs) \<Longrightarrow> of_endpoint ws i v \<Longrightarrow> sr_state v \<noteq> Secret_active"
  by (auto simp: set_rotated)

lemma rotated_retiring:
  assumes "secrets_inv vs" and "a \<in> set vs" and "of_endpoint ws i a" and "sr_state a = Secret_active"
  shows "v \<in> set (rotated_rows ws i t vs) \<and> of_endpoint ws i v \<and> sr_state v = Secret_retiring
    \<longleftrightarrow> v = retire_secret_row t a"
proof -
  let ?f = "\<lambda>v. if of_endpoint ws i v then (if sr_state v = Secret_active then retire_secret_row t v
            else if sr_state v = Secret_retiring then purge_secret_row v else v) else v"
  have only: "x = a" if "x \<in> set vs" "of_endpoint ws i x" "sr_state x = Secret_active" for x
    using that assms by (auto simp: secrets_inv_def one_in_state_def of_endpoint_def)
  show ?thesis
  proof
    assume v: "v \<in> set (rotated_rows ws i t vs) \<and> of_endpoint ws i v \<and> sr_state v = Secret_retiring"
    then obtain x where x: "x \<in> set vs" "v = ?f x" by (auto simp: set_rotated)
    have "of_endpoint ws i x" using v x(2) by (cases "of_endpoint ws i x") simp_all
    moreover have "sr_state x = Secret_active" using v x(2) calculation
      by (cases "sr_state x = Secret_active"; cases "sr_state x = Secret_retiring") simp_all
    ultimately show "v = retire_secret_row t a" using only x by simp
  next
    assume v: "v = retire_secret_row t a"
    moreover have "v = ?f a" using assms v by simp
    ultimately show "v \<in> set (rotated_rows ws i t vs) \<and> of_endpoint ws i v \<and> sr_state v = Secret_retiring"
      unfolding set_rotated using imageI [OF assms(2), of ?f] assms(3) by simp
  qed
qed

lemma secrets_inv_rotated:
  assumes inv: "secrets_inv vs" and fresh: "\<forall>v\<in>set vs. sr_id v \<noteq> j \<and> key_name v \<noteq> (ws, i, k)"
  shows "secrets_inv (rotated_rows ws i t vs @ [new_secret_row ws i j k env])"
proof -
  let ?new = "new_secret_row ws i j k env"
  have inv1: "secrets_inv (update_where (\<lambda>v. of_endpoint ws i v \<and> sr_state v = Secret_retiring) purge_secret_row vs)"
    (is "secrets_inv ?vs1") by (rule secrets_inv_purge [OF inv]) simp
  have "distinct (map sr_id (rotated_rows ws i t vs @ [?new]))"
  proof -
    have "j \<notin> set (map sr_id vs)" using fresh by auto
    then show ?thesis using inv by (simp add: rotated_ids secrets_inv_def new_secret_row_def del: set_map)
  qed
  moreover have "distinct (map key_name (rotated_rows ws i t vs @ [?new]))"
  proof -
    have "(ws, i, k) \<notin> set (map key_name vs)" using fresh by auto
    moreover have "key_name ?new = (ws, i, k)" by (simp add: new_secret_row_def key_name_def)
    ultimately show ?thesis using inv by (simp add: rotated_ids secrets_inv_def del: set_map)
  qed
  moreover have "one_in_state Secret_active (rotated_rows ws i t vs @ [?new])"
  proof -
    have "\<not> (sr_ws v = ws \<and> sr_endpoint v = i \<and> sr_state v = Secret_active)" if "v \<in> set (rotated_rows ws i t vs)" for v
      using rotated_no_active [OF that] by (auto simp: of_endpoint_def)
    moreover have "one_in_state Secret_active (rotated_rows ws i t vs)"
      using inv by (auto simp: secrets_inv_def one_in_state_def set_rotated)
    ultimately show ?thesis by (auto simp: one_in_state_def new_secret_row_def)
  qed
  moreover have "one_in_state Secret_retiring (rotated_rows ws i t vs @ [?new])"
  proof -
    have "one_in_state Secret_retiring (rotated_rows ws i t vs)"
      using inv unfolding secrets_inv_def one_in_state_def set_rotated by (auto simp: of_endpoint_def)
    then show ?thesis by (auto simp: one_in_state_def new_secret_row_def)
  qed
  moreover have "list_all secret_ok (rotated_rows ws i t vs @ [?new])"
    using inv by (auto simp: secrets_inv_def secret_ok_def list_all_iff set_rotated new_secret_row_def)
  ultimately show ?thesis by (simp add: secrets_inv_def)
qed

lemma find_only: "x \<in> set xs \<Longrightarrow> \<forall>y\<in>set xs. P y \<longleftrightarrow> y = x \<Longrightarrow> find P xs = Some x"
  by (induction xs) auto

lemma filter_only:
  assumes "distinct xs" and "x \<in> set xs" and "\<forall>y\<in>set xs. P y \<longleftrightarrow> y = x"
  shows "filter P xs = [x]"
proof -
  have "filter P xs = filter (\<lambda>b. b = x) xs" by (rule filter_cong [OF refl]) (use assms(3) in blast)
  then show ?thesis using filter_single [OF assms(1,2)] by simp
qed

text \<open>The secrets of the endpoint that the claim function finds in \<open>vs\<close>.\<close>

definition endpoint_keys :: "secret_row list \<Rightarrow> uuid \<Rightarrow> uuid \<Rightarrow> secret_row \<Rightarrow> secret_row option \<Rightarrow> bool" where
  "endpoint_keys vs ws i new old \<longleftrightarrow>
     (\<forall>v\<in>set vs. of_endpoint ws i v \<and> sr_state v = Secret_active \<longleftrightarrow> v = new) \<and> new \<in> set vs \<and> sr_secret new \<noteq> None
     \<and> (\<forall>v\<in>set vs. of_endpoint ws i v \<and> sr_state v = Secret_retiring \<longleftrightarrow> old = Some v)
     \<and> (\<forall>v. old = Some v \<longrightarrow> v \<in> set vs \<and> sr_retire_at v \<noteq> None \<and> sr_secret v \<noteq> None) \<and> distinct vs"

lemma endpoint_keys_find:
  assumes "endpoint_keys (db_secrets q) ws i new old"
  shows "find_secret q ws i = Some new"
    and "retiring_secret q st ws i = (case old of None \<Rightarrow> None
      | Some v \<Rightarrow> if the (sr_retire_at v) > st then Some (sr_key_id v, sr_id v, the (sr_secret v)) else None)"
proof -
  let ?vs = "db_secrets q"
  have new: "new \<in> set ?vs" "sr_secret new \<noteq> None"
    and act: "\<And>v. v \<in> set ?vs \<Longrightarrow> of_endpoint ws i v \<and> sr_state v = Secret_active \<longleftrightarrow> v = new"
    and ret: "\<And>v. v \<in> set ?vs \<Longrightarrow> of_endpoint ws i v \<and> sr_state v = Secret_retiring \<longleftrightarrow> old = Some v"
    and old: "\<And>v. old = Some v \<Longrightarrow> v \<in> set ?vs \<and> sr_retire_at v \<noteq> None \<and> sr_secret v \<noteq> None" and d: "distinct ?vs"
    using assms by (auto simp: endpoint_keys_def)
  show "find_secret q ws i = Some new"
    unfolding find_secret_def
  proof (rule find_only [OF new(1)], rule ballI)
    fix v assume "v \<in> set ?vs"
    from act [OF this] new(2) show "(sr_ws v = ws \<and> sr_endpoint v = i \<and> sr_state v = Secret_active \<and> sr_secret v \<noteq> None) = (v = new)"
      by (auto simp: of_endpoint_def)
  qed
  let ?P = "\<lambda>v. sr_ws v = ws \<and> sr_endpoint v = i \<and> sr_state v = Secret_retiring
      \<and> (case sr_retire_at v of None \<Rightarrow> False | Some t \<Rightarrow> t > st)"
  have P: "?P v \<longleftrightarrow> old = Some v \<and> the (sr_retire_at v) > st" if "v \<in> set ?vs" for v
    using ret [OF that] old [of v] by (auto simp: of_endpoint_def split: option.splits)
  show "retiring_secret q st ws i = (case old of None \<Rightarrow> None
      | Some v \<Rightarrow> if the (sr_retire_at v) > st then Some (sr_key_id v, sr_id v, the (sr_secret v)) else None)"
  proof (cases "\<exists>v. old = Some v \<and> the (sr_retire_at v) > st")
    case True
    then obtain v where v: "old = Some v" "the (sr_retire_at v) > st" by blast
    have "filter ?P ?vs = [v]" by (rule filter_only [OF d]) (use P v old [OF v(1)] in auto)
    then show ?thesis using v old [OF v(1)] by (auto simp: retiring_secret_def)
  next
    case False
    then have "filter ?P ?vs = []" using P by (auto simp: filter_empty_conv)
    then show ?thesis using False by (auto simp: retiring_secret_def split: option.splits)
  qed
qed

lemma rotated_keys:
  assumes inv: "secrets_inv vs" and a: "a \<in> set vs" "of_endpoint ws i a" "sr_state a = Secret_active"
    and fresh: "\<forall>v\<in>set vs. sr_id v \<noteq> j \<and> key_name v \<noteq> (ws, i, k)"
  shows "endpoint_keys (rotated_rows ws i t vs @ [new_secret_row ws i j k env]) ws i (new_secret_row ws i j k env)
      (Some (retire_secret_row t a))"
proof -
  let ?new = "new_secret_row ws i j k env" and ?vs = "rotated_rows ws i t vs @ [new_secret_row ws i j k env]"
  have n: "of_endpoint ws i ?new" "sr_state ?new = Secret_active" "sr_secret ?new \<noteq> None"
    by (simp_all add: new_secret_row_def of_endpoint_def)
  have "\<And>v. v \<in> set ?vs \<Longrightarrow> of_endpoint ws i v \<and> sr_state v = Secret_active \<longleftrightarrow> v = ?new"
    using rotated_no_active n by auto
  moreover have "\<And>v. v \<in> set ?vs \<Longrightarrow> of_endpoint ws i v \<and> sr_state v = Secret_retiring \<longleftrightarrow> Some (retire_secret_row t a) = Some v"
  proof -
    fix v assume v: "v \<in> set ?vs"
    show "of_endpoint ws i v \<and> sr_state v = Secret_retiring \<longleftrightarrow> Some (retire_secret_row t a) = Some v"
    proof (cases "v = ?new")
      case True
      have "sr_state (retire_secret_row t a) \<noteq> sr_state ?new" by (simp add: n)
      then have "retire_secret_row t a \<noteq> ?new" by metis
      then show ?thesis using True n(2) by simp
    next
      case False
      then show ?thesis using rotated_retiring [OF inv a, of v t] v by auto
    qed
  qed
  moreover have "retire_secret_row t a \<in> set ?vs" using rotated_retiring [OF inv a, of "retire_secret_row t a" t] by simp
  moreover have "sr_secret a \<noteq> None" using inv a by (auto simp: secrets_inv_def list_all_iff secret_ok_def)
  moreover have "distinct ?vs" using secrets_inv_rotated [OF inv fresh] by (metis distinct_map secrets_inv_def)
  ultimately show ?thesis using n by (auto simp: endpoint_keys_def)
qed

section \<open>Claims carry the current keys\<close>

definition claims_secret :: "secret_row list \<Rightarrow> claim_row \<Rightarrow> bool" where
  "claims_secret vs c \<longleftrightarrow>
     (\<exists>v. find (\<lambda>v. sr_ws v = cr_ws c \<and> sr_endpoint v = cr_endpoint c \<and> sr_state v = Secret_active \<and> sr_secret v \<noteq> None) vs
            = Some v
        \<and> cr_key_id c = sr_key_id v \<and> cr_secret_id c = sr_id v \<and> cr_secret c = the (sr_secret v))"

lemma claim_one_secret:
  "fst (claim_one_delivery w i ttl st clk locked wl el wc ec s) = Some c \<Longrightarrow> claims_secret (db_secrets s) c"
  by (auto simp: claim_one_delivery_def Let_def claims_secret_def find_secret_def claim_result_def
      claim_delivery_row_def split: option.splits if_splits)

lemma recover_secrets: "db_secrets (fold (recover_one clk) rows s) = db_secrets s"
  by (induction rows arbitrary: s) (simp_all add: recover_one_def)

lemma claim_loop_secrets:
  "claim_loop rnd m w is ttl st clk locked wl el wc ec lim s = (cs, s') \<Longrightarrow>
     db_secrets s' = db_secrets s \<and> (\<forall>c\<in>set cs. claims_secret (db_secrets s) c)"
  by (drule claim_loop_induct [where g = db_secrets and R = claims_secret]) (simp_all add: claim_one_same claim_one_secret)

lemma claim_deliveries_secrets:
  assumes "claim_deliveries w is ttl lim wl el st clk locked s = Inr (cs, s')" and "c \<in> set cs"
  shows "claims_secret (db_secrets s) c \<and> cr_retiring c = retiring_secret s st (cr_ws c) (cr_endpoint c)"
proof -
  from assms(1) obtain n s1 cs1 where r: "recover_exhausted (nat lim) st (clk 0) (locked 0) s = Inr (n, s1)"
    and l: "claim_loop 1 3 w is ttl st clk locked (nat wl) (nat el) (\<lambda>_. 0) (\<lambda>_. 0) 3 s1 = (cs1, s')"
    and c: "cs = map (\<lambda>c. c\<lparr>cr_retiring := retiring_secret s' st (cr_ws c) (cr_endpoint c)\<rparr>) cs1"
    by (auto simp: claim_deliveries_def split: if_splits sum.splits prod.splits)
  from r have "db_secrets s1 = db_secrets s"
    by (auto simp: recover_exhausted_def Let_def recover_secrets split: if_splits)
  with claim_loop_secrets [OF l] have "db_secrets s' = db_secrets s" "\<forall>c\<in>set cs1. claims_secret (db_secrets s) c" by auto
  then show ?thesis using assms(2) by (auto simp: c claims_secret_def retiring_secret_def)
qed

definition claim_secret_of :: "secret_row \<Rightarrow> claim_secret" where
  "claim_secret_of v = \<lparr>cs_key_id = sr_key_id v, cs_version_id = sr_id v, cs_envelope = the (sr_secret v)\<rparr>"

lemma claim_batch_keys:
  assumes "claim_batch new st clk locked rq q = Inr (claims, q')" and "c \<in> set claims"
    and keys: "endpoint_keys (db_secrets q) (cl_ws c) (cl_endpoint c) v old"
  shows "cl_key_id c = sr_key_id v \<and> cl_secret_id c = sr_id v \<and> cl_secret c = the (sr_secret v)
    \<and> cl_retiring c = (case old of None \<Rightarrow> None
        | Some o' \<Rightarrow> if the (sr_retire_at o') > st then Some (claim_secret_of o') else None)"
proof -
  from claim_batch_Inr [OF assms(1)] obtain ids rows where
    d: "claim_deliveries (rr_worker rq) ids (rr_lease_ttl rq) (rr_limit rq) (rr_workspace_limit rq)
          (rr_endpoint_limit rq) st clk locked q = Inr (rows, q')"
    and c: "claims = map (\<lambda>(r, i). (scan_claim r)\<lparr>cl_attempt_id := i\<rparr>) (zip rows ids)" by metis
  from assms(2) c obtain r i where r: "r \<in> set rows" "c = (scan_claim r)\<lparr>cl_attempt_id := i\<rparr>"
    by (auto dest: set_zip_leftD)
  then have e: "cl_ws c = cr_ws r" "cl_endpoint c = cr_endpoint r" by (simp_all add: scan_claim_def)
  from claim_deliveries_secrets [OF d r(1)] endpoint_keys_find [OF keys, unfolded e find_secret_def]
  show ?thesis
    by (cases old) (auto simp: r(2) scan_claim_def claims_secret_def claim_secret_of_def split: if_splits)
qed

section \<open>The steps of the secrets\<close>

lemma rotation_request_Inr:
  "rotation_request us m w ws i actor req key ov = Inr c \<Longrightarrow>
     \<exists>secret keyID env overlap. new_signing_secret w = Some (secret, keyID) \<and> rr_key_id c = keyID
        \<and> overlap = (if ov = 0 then 24 * 60 * 60 else ov) \<and> 3600 \<le> overlap \<and> overlap \<le> 7 * 24 * 60 * 60
        \<and> seal_envelope (m_signing m) (dw_nonce1 w) secret
            (secret_associated_data us format_version ws i (rr_secret_id c) keyID) = Inr env
        \<and> rr_secret c = env \<and> rr_ws c = ws \<and> rr_endpoint c = i \<and> rr_overlap c = overlap
        \<and> rr_key_hash c = rotation_mac (m_idempotency_pepper m) (''secret-rotation:v1'' @ [byte_of 10] @ key)
        \<and> rr_fingerprint c = rotation_fingerprint (m_fingerprint_pepper m) i overlap"
  by (auto simp: rotation_request_def Let_def split: if_splits option.splits sum.splits)

lemma rotate_Inr:
  "rotate us m w st ws i actor req key ov s = Inr (res, s') \<longleftrightarrow>
     (\<exists>c stored plain. rotation_request us m w ws i actor req key ov = Inr c
        \<and> rotate_endpoint_secret st c s = Inr (stored, s')
        \<and> open_envelope (m_signing m) (rs_secret stored)
            (secret_associated_data us (env_format (rs_secret stored)) ws i (rs_secret_id stored) (rs_key_id stored)) = Inr plain
        \<and> res = \<lparr>rn_endpoint = i, rn_secret = \<lparr>ss_key_id = rs_key_id stored, ss_secret = b64_encode plain\<rparr>,
                rn_duplicate = rs_duplicate stored\<rparr>)"
  by (auto simp: rotate_def store_rotate_def split: sum.splits)

lemma secret_aad_associated: "secret_aad us c = secret_associated_data us (env_format (cl_secret c)) (cl_ws c) (cl_endpoint c)
      (cl_secret_id c) (cl_key_id c)"
  by (simp add: secret_aad_def secret_envelope_aad_def secret_associated_data_def)

text \<open>C25. After a rotation a worker signs with both keys: while the secrets stay as the rotation left them, every
  claim of the endpoint carries the new key identifier, its secret opens to exactly the secret the API returned,
  and until the overlap has passed it carries the previously active secret as the retiring one, afterwards none.\<close>

theorem rotation_signs_both:
  assumes inv: "secrets_inv (db_secrets (ap_queue s))"
    and rot: "rotate us m w st ws i actor req key ov s = Inr (res, s')" and "\<not> rn_duplicate res"
    and same: "db_secrets q = db_secrets (ap_queue s')"
    and claim: "claim_batch new st' clk locked rq q = Inr (claims, q')" and c: "c \<in> set claims"
    and ep: "cl_ws c = ws" "cl_endpoint c = i"
  shows "\<exists>plain a. cl_key_id c = ss_key_id (rn_secret res)
    \<and> open_envelope (m_signing m) (cl_secret c) (secret_aad us c) = Inr plain \<and> b64_encode plain = ss_secret (rn_secret res)
    \<and> a \<in> set (db_secrets (ap_queue s)) \<and> of_endpoint ws i a \<and> sr_state a = Secret_active
    \<and> cl_retiring c = (if st' < st + (if ov = 0 then 86400 else ov) * second then Some (claim_secret_of a) else None)"
proof -
  from rot obtain rc stored plain where rq: "rotation_request us m w ws i actor req key ov = Inr rc"
    and st: "rotate_endpoint_secret st rc s = Inr (stored, s')"
    and op: "open_envelope (m_signing m) (rs_secret stored)
            (secret_associated_data us (env_format (rs_secret stored)) ws i (rs_secret_id stored) (rs_key_id stored)) = Inr plain"
    and res: "res = \<lparr>rn_endpoint = i, rn_secret = \<lparr>ss_key_id = rs_key_id stored, ss_secret = b64_encode plain\<rparr>,
                rn_duplicate = rs_duplicate stored\<rparr>"
    by (auto simp: rotate_Inr)
  have f: "rr_ws rc = ws" "rr_endpoint rc = i" "rr_overlap rc = (if ov = 0 then 86400 else ov)"
    using rotation_request_Inr [OF rq] by auto
  from rotate_cases [OF st inv] assms(3) obtain a where
    a: "a \<in> set (db_secrets (ap_queue s))" "of_endpoint ws i a" "sr_state a = Secret_active"
    and fresh: "\<forall>v\<in>set (db_secrets (ap_queue s)). sr_id v \<noteq> rr_secret_id rc \<and> key_name v \<noteq> (ws, i, rr_key_id rc)"
    and stored: "stored = \<lparr>rs_secret_id = rr_secret_id rc, rs_key_id = rr_key_id rc, rs_secret = rr_secret rc, rs_duplicate = False\<rparr>"
    and vs: "db_secrets (ap_queue s') = rotated_rows ws i (st + rr_overlap rc * second) (db_secrets (ap_queue s))
                @ [new_secret_row ws i (rr_secret_id rc) (rr_key_id rc) (rr_secret rc)]"
    by (auto simp: res f split: option.splits)
  from claim_batch_keys [OF claim c, unfolded same ep vs, OF rotated_keys [OF inv a fresh]]
  have "cl_key_id c = rr_key_id rc" "cl_secret_id c = rr_secret_id rc" "cl_secret c = rr_secret rc"
    "cl_retiring c = (if st' < st + rr_overlap rc * second then Some (claim_secret_of a) else None)"
    by (simp_all add: new_secret_row_def claim_secret_of_def)
  then show ?thesis using op a stored res ep by (auto simp: secret_aad_associated f)
qed

section \<open>Idempotent rotation\<close>

text \<open>One committed transaction on the secrets and the rotation commands, by the commands that are still \<open>kept\<close>: the purge of
  expired metadata and the purge of a workspace delete others (\<open>k_expire\<close>; the references between the tables make the
  purge of a workspace \<open>w\<close> delete its commands before its secrets, \<open>k_workspace\<close>).\<close>

inductive key_step :: "(rotation_row \<Rightarrow> bool) \<Rightarrow> api_db \<Rightarrow> api_db \<Rightarrow> bool" for kept where
  k_create: "store_create us now r s = Inr s' \<Longrightarrow> key_step kept s s'"
| k_rotate: "rotate_endpoint_secret st c s = Inr (x, s') \<Longrightarrow> key_step kept s s'"
| k_purge: "purge_retired_secrets n st lk (ap_queue s) = Inr (m, q) \<Longrightarrow> key_step kept s (s\<lparr>ap_queue := q\<rparr>)"
| k_quarantine: "key_step kept s (s\<lparr>ap_queue := quarantine_queue st (ap_queue s)\<rparr>)"
| k_expire: "db_secrets (ap_queue s') = db_secrets (ap_queue s) \<Longrightarrow> set (ap_rotations s') \<subseteq> set (ap_rotations s) \<Longrightarrow>
    filter kept (ap_rotations s') = filter kept (ap_rotations s) \<Longrightarrow> key_step kept s s'"
| k_workspace: "ap_rotations s' = ap_rotations s \<Longrightarrow> \<forall>x\<in>set (ap_rotations s). ro_ws x \<noteq> w \<Longrightarrow>
    db_secrets (ap_queue s') = filter R (db_secrets (ap_queue s)) \<Longrightarrow> \<forall>v. sr_ws v \<noteq> w \<longrightarrow> R v \<Longrightarrow> key_step kept s s'"

abbreviation key_steps :: "(rotation_row \<Rightarrow> bool) \<Rightarrow> api_db \<Rightarrow> api_db \<Rightarrow> bool" where "key_steps kept \<equiv> (key_step kept)\<^sup>*\<^sup>*"

text \<open>Every rotation command refers to a secret of its endpoint, under its key identifier.\<close>

definition rotation_ok :: "secret_row list \<Rightarrow> rotation_row \<Rightarrow> bool" where
  "rotation_ok vs x \<longleftrightarrow> (\<exists>v. find (\<lambda>v. sr_ws v = ro_ws x \<and> sr_id v = ro_secret x) vs = Some v
     \<and> sr_endpoint v = ro_endpoint x \<and> sr_key_id v = ro_key_id x)"

definition keys_inv :: "api_db \<Rightarrow> bool" where
  "keys_inv s \<longleftrightarrow> secrets_inv (db_secrets (ap_queue s)) \<and> list_all (rotation_ok (db_secrets (ap_queue s))) (ap_rotations s)"

text \<open>A secret keeps its identity, and its envelope until it is purged.\<close>

definition secret_step :: "secret_row \<Rightarrow> secret_row \<Rightarrow> bool" where
  "secret_step v v' \<longleftrightarrow> sr_id v' = sr_id v \<and> sr_ws v' = sr_ws v \<and> sr_endpoint v' = sr_endpoint v
     \<and> sr_key_id v' = sr_key_id v \<and> (sr_secret v' = sr_secret v \<or> sr_state v' = Secret_purged)"

definition secrets_step :: "secret_row list \<Rightarrow> secret_row list \<Rightarrow> bool" where
  "secrets_step vs vs' \<longleftrightarrow> (\<exists>f ext. vs' = map f vs @ ext \<and> (\<forall>v. secret_step v (f v)))"

lemma secrets_step_refl: "secrets_step vs vs"
  by (auto simp: secrets_step_def secret_step_def intro!: exI [of _ "\<lambda>v. v"])

lemma secrets_step_snoc: "secrets_step vs vs' \<Longrightarrow> secrets_step vs (vs' @ xs)"
  by (force simp: secrets_step_def)

lemma secrets_step_update:
  assumes "\<And>v. secret_step v (g v)" shows "secrets_step vs (update_where P g vs)"
  unfolding secrets_step_def update_where_def
  by (rule exI [of _ "\<lambda>x. if P x then g x else x"], rule exI [of _ "[]"]) (use assms in \<open>simp add: secret_step_def\<close>)

lemma secret_step_updates: "secret_step v (purge_secret_row v)" "secret_step v (retire_secret_row t v)"
  "secret_step v ((purge_secret_row v)\<lparr>sr_retire_at := r\<rparr>)"
  by (simp_all add: secret_step_def)

lemma secret_step_trans: "secret_step a b \<Longrightarrow> secret_step b c \<Longrightarrow> sr_state b = Secret_purged \<longrightarrow> sr_state c = Secret_purged \<Longrightarrow> secret_step a c"
  by (auto simp: secret_step_def)

lemma secrets_step_rotated: "secrets_step vs (rotated_rows ws i t vs)"
proof -
  let ?f = "\<lambda>v. if of_endpoint ws i v then (if sr_state v = Secret_active then retire_secret_row t v
            else if sr_state v = Secret_retiring then purge_secret_row v else v) else v"
  have "rotated_rows ws i t vs = map ?f vs @ []"
    unfolding rotated_rows_def update_where_def map_map append_Nil2
    by (rule map_cong [OF refl]) (auto simp: of_endpoint_def)
  moreover have "secret_step v (?f v)" for v by (simp add: secret_step_def)
  ultimately show ?thesis unfolding secrets_step_def by blast
qed

lemma find_secret_step:
  assumes "secrets_step vs vs'" and "find (\<lambda>v. sr_ws v = ws \<and> sr_id v = j) vs = Some v"
  shows "\<exists>v'. find (\<lambda>v. sr_ws v = ws \<and> sr_id v = j) vs' = Some v' \<and> secret_step v v'"
proof -
  from assms(1) obtain f ext where vs': "vs' = map f vs @ ext" and f: "\<And>v. secret_step v (f v)"
    by (auto simp: secrets_step_def)
  have "(\<lambda>v. sr_ws (f v) = ws \<and> sr_id (f v) = j) = (\<lambda>v. sr_ws v = ws \<and> sr_id v = j)"
    using f by (simp add: secret_step_def)
  then have "find (\<lambda>v. sr_ws v = ws \<and> sr_id v = j) vs' = Some (f v)"
    using assms(2) by (simp add: vs' find_append find_map)
  with f show ?thesis by blast
qed

lemma rotation_ok_step: "secrets_step vs vs' \<Longrightarrow> rotation_ok vs x \<Longrightarrow> rotation_ok vs' x"
  unfolding rotation_ok_def using find_secret_step by (fastforce simp: secret_step_def)

lemma secrets_inv_new:
  assumes "secrets_inv vs" and "\<not> list_ex (\<lambda>v. sr_id v = j \<or> sr_ws v = ws \<and> sr_endpoint v = i \<and> (sr_key_id v = k \<or> sr_state v = Secret_active)) vs"
  shows "secrets_inv (vs @ [new_secret_row ws i j k env])"
  using assms by (auto simp: secrets_inv_def one_in_state_def secret_ok_def new_secret_row_def list_ex_iff key_name_def)

lemma prior_rotation_None:
  assumes "prior_rotation c s = None" and "x \<in> set (ap_rotations s)"
    and "ro_ws x = rr_ws c" "ro_endpoint x = rr_endpoint c" "ro_key_hash x = rr_key_hash c"
  shows "secret_of s x = None"
proof (rule ccontr)
  let ?P = "\<lambda>x. ro_ws x = rr_ws c \<and> ro_endpoint x = rr_endpoint c \<and> ro_key_hash x = rr_key_hash c \<and> secret_of s x \<noteq> None"
  assume "secret_of s x \<noteq> None"
  then obtain y where "find ?P (ap_rotations s) = Some y" using assms(2-5) by (cases "find ?P (ap_rotations s)") (auto simp: find_None_iff)
  moreover from this have "secret_of s y \<noteq> None" by (auto simp: find_Some_iff)
  ultimately show False using assms(1) by (auto simp: prior_rotation_def)
qed

text \<open>What a step does to the secrets and the commands, other than the purge of the secrets of a workspace.\<close>

definition kept_or_added :: "(rotation_row \<Rightarrow> bool) \<Rightarrow> api_db \<Rightarrow> api_db \<Rightarrow> bool" where
  "kept_or_added kept s s' \<longleftrightarrow> set (ap_rotations s') \<subseteq> set (ap_rotations s) \<and> filter kept (ap_rotations s') = filter kept (ap_rotations s)
     \<or> (\<exists>x. ap_rotations s' = ap_rotations s @ [x] \<and> rotation_ok (db_secrets (ap_queue s')) x)"

lemma unchanged_kept: "ap_rotations s' = ap_rotations s \<Longrightarrow> kept_or_added kept s s'"
  by (simp add: kept_or_added_def)

lemma key_step_parts:
  assumes "key_step kept s s'" and inv: "secrets_inv (db_secrets (ap_queue s))"
  shows "(secrets_inv (db_secrets (ap_queue s')) \<and> secrets_step (db_secrets (ap_queue s)) (db_secrets (ap_queue s'))
      \<and> kept_or_added kept s s')
    \<or> (\<exists>w R. ap_rotations s' = ap_rotations s \<and> (\<forall>x\<in>set (ap_rotations s). ro_ws x \<noteq> w)
        \<and> db_secrets (ap_queue s') = filter R (db_secrets (ap_queue s)) \<and> (\<forall>v. sr_ws v \<noteq> w \<longrightarrow> R v))"
  using assms(1)
proof (cases rule: key_step.cases)
  case (k_create us now r)
  then have n: "\<not> list_ex (\<lambda>v. sr_id v = nr_secret_id r \<or> sr_ws v = nr_ws r \<and> sr_endpoint v = nr_id r
        \<and> (sr_key_id v = nr_key_id r \<or> sr_state v = Secret_active)) (db_secrets (ap_queue s))"
    and vs: "db_secrets (ap_queue s') = db_secrets (ap_queue s)
        @ [new_secret_row (nr_ws r) (nr_id r) (nr_secret_id r) (nr_key_id r) (nr_secret r)]"
    and ro: "ap_rotations s' = ap_rotations s"
    by (auto simp: store_create_def Let_def split: if_splits)
  show ?thesis using secrets_inv_new [OF inv n] secrets_step_snoc [OF secrets_step_refl] unchanged_kept [OF ro] by (simp add: vs)
next
  case (k_rotate st c x)
  show ?thesis
  proof (cases "prior_rotation c s")
    case (Some y)
    with rotate_cases [OF k_rotate inv] show ?thesis using inv secrets_step_refl by (cases y) (auto simp: kept_or_added_def)
  next
    case None
    let ?new = "new_secret_row (rr_ws c) (rr_endpoint c) (rr_secret_id c) (rr_key_id c) (rr_secret c)"
    from rotate_cases [OF k_rotate inv] None obtain y where
      fresh: "\<forall>v\<in>set (db_secrets (ap_queue s)). sr_id v \<noteq> rr_secret_id c \<and> key_name v \<noteq> (rr_ws c, rr_endpoint c, rr_key_id c)"
      and s': "db_secrets (ap_queue s') = rotated_rows (rr_ws c) (rr_endpoint c) (st + rr_overlap c * second) (db_secrets (ap_queue s)) @ [?new]"
        "ap_rotations s' = ap_rotations s @ [y]"
      and y: "ro_ws y = rr_ws c" "ro_endpoint y = rr_endpoint c" "ro_secret y = rr_secret_id c" "ro_key_hash y = rr_key_hash c"
        "ro_key_id y = rr_key_id c"
      by auto
    have "rr_secret_id c \<notin> set (map sr_id (rotated_rows (rr_ws c) (rr_endpoint c) (st + rr_overlap c * second) (db_secrets (ap_queue s))))"
      unfolding rotated_ids using fresh by auto
    then have "find (\<lambda>v. sr_ws v = ro_ws y \<and> sr_id v = ro_secret y)
        (rotated_rows (rr_ws c) (rr_endpoint c) (st + rr_overlap c * second) (db_secrets (ap_queue s))) = None"
      by (force simp: find_None_iff y)
    then have ok: "rotation_ok (db_secrets (ap_queue s')) y"
      by (simp add: rotation_ok_def s' find_append) (simp add: new_secret_row_def y)
    then have "kept_or_added kept s s'" by (auto simp: kept_or_added_def s')
    then show ?thesis using secrets_inv_rotated [OF inv fresh] secrets_step_snoc [OF secrets_step_rotated]
      by (simp add: s'(1))
  qed
next
  case (k_purge n st lk m q)
  then show ?thesis using secrets_inv_purge [OF inv] secrets_step_update secret_step_updates(1) unchanged_kept [of s' s kept]
    by (auto simp: purge_retired_secrets_def Let_def split: if_splits)
next
  case (k_quarantine st)
  then show ?thesis using secrets_inv_purge [OF inv, of "\<lambda>v. (purge_secret_row v)\<lparr>sr_retire_at := None\<rparr>"]
      secrets_step_update [of "\<lambda>v. (purge_secret_row v)\<lparr>sr_retire_at := None\<rparr>"] secret_step_updates(3) unchanged_kept [of s' s kept]
    by (simp add: quarantine_queue_def)
next
  case k_expire
  then show ?thesis using inv secrets_step_refl by (simp add: kept_or_added_def)
next
  case (k_workspace w R)
  then show ?thesis by blast
qed

text \<open>The secrets of other workspaces survive the purge of one.\<close>

lemma find_other_secret:
  assumes "\<forall>v. sr_ws v \<noteq> w \<longrightarrow> R v" and "ws \<noteq> w"
  shows "find (\<lambda>v. sr_ws v = ws \<and> sr_id v = j) (filter R vs) = find (\<lambda>v. sr_ws v = ws \<and> sr_id v = j) vs"
  using assms by (induction vs) auto

lemma secrets_inv_filter: "secrets_inv vs \<Longrightarrow> secrets_inv (filter R vs)"
  by (auto simp: secrets_inv_def one_in_state_def distinct_map inj_on_def list_all_iff)

lemma key_step_inv:
  assumes "key_step kept s s'" and inv: "keys_inv s"
  shows "keys_inv s'"
proof -
  have vs: "secrets_inv (db_secrets (ap_queue s))" and ro: "\<And>x. x \<in> set (ap_rotations s) \<Longrightarrow> rotation_ok (db_secrets (ap_queue s)) x"
    using inv by (auto simp: keys_inv_def list_all_iff)
  from key_step_parts [OF assms(1) vs] show ?thesis
  proof (elim disjE exE conjE)
    assume p: "secrets_inv (db_secrets (ap_queue s'))" "secrets_step (db_secrets (ap_queue s)) (db_secrets (ap_queue s'))"
      "kept_or_added kept s s'"
    show ?thesis using p ro rotation_ok_step [OF p(2)] by (auto simp: keys_inv_def kept_or_added_def list_all_iff)
  next
    fix w R assume p: "ap_rotations s' = ap_rotations s" "\<forall>x\<in>set (ap_rotations s). ro_ws x \<noteq> w"
      "db_secrets (ap_queue s') = filter R (db_secrets (ap_queue s))" "\<forall>v. sr_ws v \<noteq> w \<longrightarrow> R v"
    have "rotation_ok (db_secrets (ap_queue s')) x" if "x \<in> set (ap_rotations s)" for x
      using ro [OF that] find_other_secret [OF p(4), of "ro_ws x"] p(2) that by (simp add: rotation_ok_def p(3))
    then show ?thesis using p secrets_inv_filter [OF vs] by (simp add: keys_inv_def list_all_iff)
  qed
qed

lemma key_steps_inv: "key_steps kept s s' \<Longrightarrow> keys_inv s \<Longrightarrow> keys_inv s'"
  by (induction rule: rtranclp_induct) (auto intro: key_step_inv)

definition same_rotation :: "rotation_record \<Rightarrow> rotation_row \<Rightarrow> bool" where
  "same_rotation c x \<longleftrightarrow> ro_ws x = rr_ws c \<and> ro_endpoint x = rr_endpoint c \<and> ro_key_hash x = rr_key_hash c"

lemma find_cong_set: "(\<And>x. x \<in> set xs \<Longrightarrow> P x = Q x) \<Longrightarrow> find P xs = find Q xs"
  by (induction xs) auto

text \<open>Under the invariant the joined query finds the command and its secret.\<close>

lemma prior_rotation_inv:
  assumes "keys_inv s"
  shows "prior_rotation c s = (case find (same_rotation c) (ap_rotations s) of None \<Rightarrow> None
    | Some x \<Rightarrow> map_option (\<lambda>v. (x, v)) (secret_of s x))"
proof -
  have "secret_of s x \<noteq> None" if "x \<in> set (ap_rotations s)" for x
    using assms that by (auto simp: keys_inv_def list_all_iff rotation_ok_def secret_of_def)
  then have "find (\<lambda>x. ro_ws x = rr_ws c \<and> ro_endpoint x = rr_endpoint c \<and> ro_key_hash x = rr_key_hash c
      \<and> secret_of s x \<noteq> None) (ap_rotations s) = find (same_rotation c) (ap_rotations s)"
    by (intro find_cong_set) (auto simp: same_rotation_def)
  then show ?thesis by (simp add: prior_rotation_def)
qed

lemma find_kept_rows: "(\<And>x. P x \<Longrightarrow> Q x) \<Longrightarrow> find P (filter Q xs) = find P xs"
  by (induction xs) auto

lemma prior_step:
  assumes "key_step kept s s'" and inv: "keys_inv s" and "prior_rotation c s = Some (x, v)"
    and kept: "\<And>x. same_rotation c x \<Longrightarrow> kept x"
  shows "\<exists>v'. prior_rotation c s' = Some (x, v') \<and> secret_step v v'"
proof -
  have f: "find (same_rotation c) (ap_rotations s) = Some x" and v: "secret_of s x = Some v"
    using assms(3) prior_rotation_inv [OF inv] by (auto split: option.splits)
  have inv': "secrets_inv (db_secrets (ap_queue s))" using inv by (simp add: keys_inv_def)
  have "find (same_rotation c) (ap_rotations s') = Some x \<and> (\<exists>v'. secret_of s' x = Some v' \<and> secret_step v v')"
    using key_step_parts [OF assms(1) inv']
  proof (elim disjE exE conjE)
    assume p: "secrets_step (db_secrets (ap_queue s)) (db_secrets (ap_queue s'))" "kept_or_added kept s s'"
    have "find (same_rotation c) (ap_rotations s') = Some x"
      using p(2) f find_kept_rows [of "same_rotation c" kept, OF kept] unfolding kept_or_added_def
      by (auto simp: find_append) metis
    then show ?thesis using find_secret_step [OF p(1)] v unfolding secret_of_def by blast
  next
    fix w R assume p: "ap_rotations s' = ap_rotations s" "\<forall>x\<in>set (ap_rotations s). ro_ws x \<noteq> w"
      "db_secrets (ap_queue s') = filter R (db_secrets (ap_queue s))" "\<forall>v. sr_ws v \<noteq> w \<longrightarrow> R v"
    have "x \<in> set (ap_rotations s)" using f by (auto simp: find_Some_iff)
    then have "secret_of s' x = Some v" using v p(2) find_other_secret [OF p(4), of "ro_ws x"] by (simp add: secret_of_def p(3))
    moreover have "secret_step v v" by (simp add: secret_step_def)
    ultimately show ?thesis using f p(1) by simp
  qed
  then show ?thesis using prior_rotation_inv [OF key_step_inv [OF assms(1) inv]] by auto
qed

lemma prior_steps:
  assumes "key_steps kept s s'" and "keys_inv s" and "prior_rotation c s = Some (x, v)"
    and kept: "\<And>x. same_rotation c x \<Longrightarrow> kept x"
  shows "\<exists>v'. prior_rotation c s' = Some (x, v') \<and> (sr_state v' = Secret_purged \<or> sr_secret v' = sr_secret v)
    \<and> sr_id v' = sr_id v \<and> sr_key_id v' = sr_key_id v"
  using assms(1-3)
proof (induction rule: rtranclp_induct)
  case (step y z)
  then obtain v1 where v1: "prior_rotation c y = Some (x, v1)" "sr_state v1 = Secret_purged \<or> sr_secret v1 = sr_secret v"
    "sr_id v1 = sr_id v" "sr_key_id v1 = sr_key_id v" by blast
  have inv: "keys_inv y" "keys_inv z" using key_steps_inv [OF step(1) step(4)] key_step_inv [OF step(2)] by auto
  from prior_step [OF step(2) inv(1) v1(1) kept] obtain v2 where v2: "prior_rotation c z = Some (x, v2)" "secret_step v1 v2" by blast
  have ok: "secret_ok v1" "secret_ok v2"
    using v1(1) v2(1) inv prior_rotation_inv [OF inv(1)] prior_rotation_inv [OF inv(2)]
    by (auto simp: keys_inv_def secrets_inv_def list_all_iff secret_of_def find_Some_iff split: option.splits)
  have "sr_state v2 = Secret_purged \<or> sr_secret v2 = sr_secret v"
    using v1(2) v2(2) ok by (auto simp: secret_step_def secret_ok_def)
  with v1 v2 show ?case by (auto simp: secret_step_def)
qed auto

lemma prior_secret_ok:
  assumes "keys_inv s" and "prior_rotation c s = Some (x, v)" shows "secret_ok v"
  using assms(2) prior_rotation_inv [OF assms(1)] assms(1)
  by (auto simp: keys_inv_def secrets_inv_def list_all_iff secret_of_def find_Some_iff split: option.splits)

text \<open>The only secret of the endpoint with the command's key identifier is the command's.\<close>

lemma prior_key:
  assumes inv: "keys_inv s" and p: "prior_rotation c s = Some (x, v)"
  shows "u \<in> set (db_secrets (ap_queue s)) \<and> of_endpoint (rr_ws c) (rr_endpoint c) u \<and> sr_key_id u = ro_key_id x \<longleftrightarrow> u = v"
proof -
  have f: "find (same_rotation c) (ap_rotations s) = Some x" and v: "secret_of s x = Some v"
    using p prior_rotation_inv [OF inv] by (auto split: option.splits)
  then have x: "x \<in> set (ap_rotations s)" "same_rotation c x" by (auto simp: find_Some_iff)
  have vs: "v \<in> set (db_secrets (ap_queue s))" "sr_ws v = ro_ws x" using v by (auto simp: secret_of_def find_Some_iff)
  have e: "sr_endpoint v = ro_endpoint x" "sr_key_id v = ro_key_id x"
    using inv x(1) v by (auto simp: keys_inv_def list_all_iff rotation_ok_def secret_of_def)
  have "inj_on key_name (set (db_secrets (ap_queue s)))"
    using inv by (simp add: keys_inv_def secrets_inv_def distinct_map)
  then show ?thesis using vs e x(2) by (auto simp: inj_on_def key_name_def of_endpoint_def same_rotation_def)
qed

text \<open>After a rotation, repeated or not, the command is found with the secret that was returned.\<close>

lemma rotated_prior:
  assumes inv: "keys_inv s0" and rot: "rotate us m w st ws i actor req key ov s0 = Inr (res, s1)"
  shows "\<exists>c x v plain. rotation_request us m w ws i actor req key ov = Inr c
    \<and> prior_rotation c s1 = Some (x, v) \<and> keys_inv s1 \<and> ro_fingerprint x = rr_fingerprint c \<and> sr_state v \<noteq> Secret_purged
    \<and> open_envelope (m_signing m) (the (sr_secret v))
        (secret_associated_data us (env_format (the (sr_secret v))) ws i (ro_secret x) (ro_key_id x)) = Inr plain
    \<and> rn_endpoint res = i \<and> rn_secret res = \<lparr>ss_key_id = ro_key_id x, ss_secret = b64_encode plain\<rparr>"
proof -
  from rot obtain c stored plain where rq: "rotation_request us m w ws i actor req key ov = Inr c"
    and st: "rotate_endpoint_secret st c s0 = Inr (stored, s1)"
    and op: "open_envelope (m_signing m) (rs_secret stored)
            (secret_associated_data us (env_format (rs_secret stored)) ws i (rs_secret_id stored) (rs_key_id stored)) = Inr plain"
    and res: "rn_endpoint res = i" "rn_secret res = \<lparr>ss_key_id = rs_key_id stored, ss_secret = b64_encode plain\<rparr>"
    by (auto simp: rotate_Inr)
  have inv': "secrets_inv (db_secrets (ap_queue s0))" using inv by (simp add: keys_inv_def)
  have inv1: "keys_inv s1" using key_step_inv [OF k_rotate [OF st, where kept = "\<lambda>_. True"] inv] .
  show ?thesis
  proof (cases "prior_rotation c s0")
    case (Some y)
    obtain x v where y: "y = (x, v)" by (cases y)
    from rotate_cases [OF st inv'] Some y have "s1 = s0" "ro_fingerprint x = rr_fingerprint c" "sr_state v \<noteq> Secret_purged"
      "stored = \<lparr>rs_secret_id = ro_secret x, rs_key_id = ro_key_id x, rs_secret = the (sr_secret v), rs_duplicate = True\<rparr>" by auto
    with Some y rq op res inv1 show ?thesis by auto
  next
    case None
    let ?new = "new_secret_row (rr_ws c) (rr_endpoint c) (rr_secret_id c) (rr_key_id c) (rr_secret c)"
    from rotate_cases [OF st inv'] None obtain x where
      fresh: "\<forall>v\<in>set (db_secrets (ap_queue s0)). sr_id v \<noteq> rr_secret_id c \<and> key_name v \<noteq> (rr_ws c, rr_endpoint c, rr_key_id c)"
      and s1: "db_secrets (ap_queue s1) = rotated_rows (rr_ws c) (rr_endpoint c) (st + rr_overlap c * second) (db_secrets (ap_queue s0)) @ [?new]"
        "ap_rotations s1 = ap_rotations s0 @ [x]"
      and stored: "stored = \<lparr>rs_secret_id = rr_secret_id c, rs_key_id = rr_key_id c, rs_secret = rr_secret c, rs_duplicate = False\<rparr>"
      and x: "ro_ws x = rr_ws c" "ro_endpoint x = rr_endpoint c" "ro_secret x = rr_secret_id c" "ro_key_hash x = rr_key_hash c"
        "ro_key_id x = rr_key_id c" "ro_fingerprint x = rr_fingerprint c"
      by auto
    have "find (same_rotation c) (ap_rotations s0) = None"
    proof (cases "find (same_rotation c) (ap_rotations s0)")
      case (Some z)
      then have "z \<in> set (ap_rotations s0)" by (auto simp: find_Some_iff)
      then have "secret_of s0 z \<noteq> None" using inv by (auto simp: keys_inv_def list_all_iff rotation_ok_def secret_of_def)
      then show ?thesis using None Some prior_rotation_inv [OF inv, of c] by auto
    qed simp
    then have f: "find (same_rotation c) (ap_rotations s1) = Some x" by (simp add: s1(2) find_append same_rotation_def x)
    have nv: "?new \<in> set (db_secrets (ap_queue s1))" by (simp add: s1(1))
    have "rotation_ok (db_secrets (ap_queue s1)) x" using inv1 s1(2) by (simp add: keys_inv_def)
    then obtain v where v: "secret_of s1 x = Some v" by (auto simp: rotation_ok_def secret_of_def)
    then have "v \<in> set (db_secrets (ap_queue s1))" "sr_id v = rr_secret_id c" by (auto simp: secret_of_def find_Some_iff x)
    then have "v = ?new" using secret_by_id [of "db_secrets (ap_queue s1)" v ?new] nv inv1
      by (simp add: keys_inv_def secrets_inv_def) (simp add: new_secret_row_def)
    then show ?thesis using f v rq op res stored inv1 x prior_rotation_inv [OF inv1, of c]
      by (auto simp: new_secret_row_def)
  qed
qed

text \<open>C26. Rotation is idempotent as long as its command is kept: a second request under the same key and with the same
  overlap returns the same key identifier and secret and changes nothing, or reports that the result has expired when that
  secret has been purged since; with another overlap it is refused as a conflict (HMAC collisions aside). In between any
  endpoints may be created, secrets rotated, retired secrets purged, all keys purged by a quarantine, other workspaces purged,
  and the commands of other requests deleted by the purge of expired metadata, but not the command of this request: after
  the metadata retention of its workspace, or once the workspace is being purged, a repeated request is a new rotation.\<close>

theorem rotate_idempotent:
  assumes inv: "keys_inv s0" and first: "rotate us m w st ws i actor req key ov s0 = Inr (res, s1)"
    and again: "rotation_request us m w' ws i actor' req' key ov' = Inr c'"
    and steps: "key_steps (same_rotation c') s1 s2" and args: "rotation_args_ok c'"
  shows "rotate us m w' st' ws i actor' req' key ov' s2 =
    (if rotation_fingerprint (m_fingerprint_pepper m) i (if ov' = 0 then 86400 else ov')
        \<noteq> rotation_fingerprint (m_fingerprint_pepper m) i (if ov = 0 then 86400 else ov)
     then Inl Err_rotation_conflict
     else if list_ex (\<lambda>v. of_endpoint ws i v \<and> sr_key_id v = ss_key_id (rn_secret res) \<and> sr_state v = Secret_purged)
               (db_secrets (ap_queue s2))
     then Inl Err_rotation_expired
     else Inr (res\<lparr>rn_duplicate := True\<rparr>, s2))"
proof -
  from rotated_prior [OF inv first] obtain c x v plain where rq: "rotation_request us m w ws i actor req key ov = Inr c"
    and p1: "prior_rotation c s1 = Some (x, v)" and inv1: "keys_inv s1"
    and fp: "ro_fingerprint x = rr_fingerprint c" and v: "sr_state v \<noteq> Secret_purged"
    and op: "open_envelope (m_signing m) (the (sr_secret v))
        (secret_associated_data us (env_format (the (sr_secret v))) ws i (ro_secret x) (ro_key_id x)) = Inr plain"
    and res: "rn_endpoint res = i" "rn_secret res = \<lparr>ss_key_id = ro_key_id x, ss_secret = b64_encode plain\<rparr>" by blast
  have k: "prior_rotation c' s = prior_rotation c s" for s
    using rotation_request_Inr [OF rq] rotation_request_Inr [OF again] by (auto simp: prior_rotation_def)
  have f: "rr_fingerprint c = rotation_fingerprint (m_fingerprint_pepper m) i (if ov = 0 then 86400 else ov)"
    "rr_fingerprint c' = rotation_fingerprint (m_fingerprint_pepper m) i (if ov' = 0 then 86400 else ov')"
    using rotation_request_Inr [OF rq] rotation_request_Inr [OF again] by auto
  have "same_rotation c x \<Longrightarrow> same_rotation c' x" for x
    using rotation_request_Inr [OF rq] rotation_request_Inr [OF again] by (auto simp: same_rotation_def)
  from prior_steps [OF steps inv1 p1 this] obtain v2 where p2: "prior_rotation c' s2 = Some (x, v2)"
    and keep: "sr_state v2 = Secret_purged \<or> sr_secret v2 = sr_secret v" unfolding k by blast
  have inv2: "keys_inv s2" using key_steps_inv [OF steps inv1] .
  have purged: "list_ex (\<lambda>v. of_endpoint ws i v \<and> sr_key_id v = ss_key_id (rn_secret res) \<and> sr_state v = Secret_purged)
      (db_secrets (ap_queue s2)) \<longleftrightarrow> sr_state v2 = Secret_purged"
  proof -
    have "rr_ws c' = ws" "rr_endpoint c' = i" using rotation_request_Inr [OF again] by auto
    then have "u \<in> set (db_secrets (ap_queue s2)) \<and> of_endpoint ws i u \<and> sr_key_id u = ss_key_id (rn_secret res) \<longleftrightarrow> u = v2" for u
      using prior_key [OF inv2 p2, of u] res by simp
    then show ?thesis unfolding list_ex_iff by metis
  qed
  show ?thesis
  proof (cases "rr_fingerprint c' = rr_fingerprint c")
    case False
    then show ?thesis using again args p2 fp by (simp add: rotate_def store_rotate_def rotate_endpoint_secret_def Let_def
      rotation_error_def f)
  next
    case True
    obtain env where env: "sr_secret v = Some env" using prior_secret_ok [OF inv1 p1] v by (auto simp: secret_ok_def)
    show ?thesis using again args p2 fp True op purged keep env
      by (cases "sr_state v2 = Secret_purged"; cases res)
         (use res in \<open>simp_all add: rotate_def store_rotate_def rotate_endpoint_secret_def Let_def rotation_error_def f\<close>)
  qed
qed

section \<open>A created endpoint\<close>

text \<open>The foreign keys of secrets and subscriptions.\<close>

definition endpoint_fk :: "api_db \<Rightarrow> bool" where
  "endpoint_fk s \<longleftrightarrow> sr_endpoint ` set (db_secrets (ap_queue s)) \<subseteq> ep_id ` set (db_endpoints (ap_queue s))
     \<and> (fst \<circ> snd) ` set (ap_subs s) \<subseteq> ep_id ` set (db_endpoints (ap_queue s))"

definition claims_endpoint :: "endpoint_row list \<Rightarrow> claim_row \<Rightarrow> bool" where
  "claims_endpoint es c \<longleftrightarrow>
     (\<exists>e. find (\<lambda>e. ep_ws e = cr_ws c \<and> ep_id e = cr_endpoint c \<and> ep_active e) es = Some e
        \<and> cr_scheme c = ep_scheme e \<and> cr_host c = ep_host e \<and> cr_port c = ep_port e \<and> cr_target c = ep_target e)"

lemma claim_one_endpoint:
  "fst (claim_one_delivery w i ttl st clk locked wl el wc ec s) = Some c \<Longrightarrow> claims_endpoint (db_endpoints s) c"
  by (auto simp: claim_one_delivery_def Let_def claims_endpoint_def find_endpoint_def claim_result_def
      claim_delivery_row_def split: option.splits if_splits)

lemma recover_endpoints: "db_endpoints (fold (recover_one clk) rows s) = db_endpoints s"
  by (induction rows arbitrary: s) (simp_all add: recover_one_def)

lemma claim_loop_endpoints:
  "claim_loop rnd m w is ttl st clk locked wl el wc ec lim s = (cs, s') \<Longrightarrow>
     db_endpoints s' = db_endpoints s \<and> (\<forall>c\<in>set cs. claims_endpoint (db_endpoints s) c)"
  by (drule claim_loop_induct [where g = db_endpoints and R = claims_endpoint]) (simp_all add: claim_one_same claim_one_endpoint)

lemma claim_batch_endpoint:
  assumes "claim_batch new st clk locked rq q = Inr (claims, q')" and "c \<in> set claims"
    and "find_endpoint q (cl_ws c) (cl_endpoint c) = Some e"
  shows "cl_scheme c = ep_scheme e \<and> cl_host c = ep_host e \<and> cl_port c = ep_port e \<and> cl_target c = ep_target e"
proof -
  from claim_batch_Inr [OF assms(1)] obtain ids rows where
    d: "claim_deliveries (rr_worker rq) ids (rr_lease_ttl rq) (rr_limit rq) (rr_workspace_limit rq)
          (rr_endpoint_limit rq) st clk locked q = Inr (rows, q')"
    and c: "claims = map (\<lambda>(r, i). (scan_claim r)\<lparr>cl_attempt_id := i\<rparr>) (zip rows ids)" by metis
  from d obtain n s1 cs1 where r: "recover_exhausted (nat (rr_limit rq)) st (clk 0) (locked 0) q = Inr (n, s1)"
    and l: "claim_loop 1 3 (rr_worker rq) ids (rr_lease_ttl rq) st clk locked (nat (rr_workspace_limit rq)) (nat (rr_endpoint_limit rq))
        (\<lambda>_. 0) (\<lambda>_. 0) 3 s1 = (cs1, q')"
    and rows: "rows = map (\<lambda>c. c\<lparr>cr_retiring := retiring_secret q' st (cr_ws c) (cr_endpoint c)\<rparr>) cs1"
    by (auto simp: claim_deliveries_def split: if_splits sum.splits prod.splits)
  from r have same: "db_endpoints s1 = db_endpoints q"
    by (auto simp: recover_exhausted_def Let_def recover_endpoints split: if_splits)
  from assms(2) c obtain x i where x: "x \<in> set rows" "c = (scan_claim x)\<lparr>cl_attempt_id := i\<rparr>"
    by (auto dest: set_zip_leftD)
  then have "claims_endpoint (db_endpoints q) x" using claim_loop_endpoints [OF l] by (auto simp: rows same claims_endpoint_def)
  then show ?thesis using assms(3) x(2) by (auto simp: scan_claim_def claims_endpoint_def find_endpoint_def)
qed

lemma make_record_Inr:
  "make_record us m w ws at aid rid d types = Inr (r, secret) \<Longrightarrow>
     \<exists>raw. nr_ws r = ws \<and> nr_status r = ''active'' \<and> nr_scheme r = de_scheme d \<and> nr_host r = de_host d
        \<and> nr_port r = de_port d \<and> nr_types r = types \<and> secret = b64_encode raw
        \<and> seal_envelope (m_signing m) (dw_nonce1 w) (de_path d)
            (target_associated_data us format_version ws (nr_id r) (de_scheme d) (de_host d) (de_port d)) = Inr (nr_target r)
        \<and> seal_envelope (m_signing m) (dw_nonce2 w) raw
            (secret_associated_data us format_version ws (nr_id r) (nr_secret_id r) (nr_key_id r)) = Inr (nr_secret r)"
  by (auto simp: make_record_def seal_record_def new_signing_secret_def split: option.splits sum.splits)

lemma create_Inr:
  "create_as u lookup us sv w now ws at aid rid input s = Inr (c, s') \<Longrightarrow>
     \<exists>d types r secret. make_record us (sv_materials sv) w ws at aid rid d types = Inr (r, secret)
        \<and> store_create us now r s = Inr s' \<and> c = created_response (ue_parse_addr u) r d secret"
  by (auto simp: create_as_def split: sum.splits) blast

lemma stored_format: "seal_envelope kr n p a = Inr e \<Longrightarrow> env_format e = format_version"
  by (auto simp: seal_envelope_iff)

text \<open>A created endpoint reads back as it was returned, and is what the worker delivers to: \<open>Get\<close> answers with
  the same identifier, URL, status and event types, and every claim of its deliveries carries a target that opens
  to the path of that URL and a secret that opens to the one returned to the client, with no retiring one.\<close>

theorem created_endpoint_usable:
  assumes create: "create_as u lookup us sv w now ws at aid rid input s = Inr (c, s')"
    and nonces: "dw_nonce1 w = Some n1" "length n1 = 12" "dw_nonce2 w = Some n2" "length n2 = 12"
    and kr: "0 < kr_primary (m_signing (sv_materials sv))"
    and inv: "secrets_inv (db_secrets (ap_queue s))" "endpoint_fk s"
    and same: "db_secrets q = db_secrets (ap_queue s')" "db_endpoints q = db_endpoints (ap_queue s')"
    and claim: "claim_batch new st clk locked rq q = Inr (claims, q')" "cl \<in> set claims"
    and ep: "cl_ws cl = ws" "cl_endpoint cl = ew_id (cd_endpoint c)"
  shows "get_endpoint (ue_parse_addr u) collate us sv ws (ew_id (cd_endpoint c)) s'
      = Inr ((cd_endpoint c)\<lparr>ew_types := collate (ew_types (cd_endpoint c))\<rparr>)
    \<and> cl_key_id cl = ss_key_id (cd_secret c) \<and> cl_retiring cl = None
    \<and> (\<exists>path. open_envelope (m_signing (sv_materials sv)) (cl_target cl) (target_aad us cl) = Inr path
         \<and> ew_url (cd_endpoint c) = build_url (ue_parse_addr u) (cl_scheme cl) (cl_host cl) (cl_port cl) path)
    \<and> (\<exists>secret. open_envelope (m_signing (sv_materials sv)) (cl_secret cl) (secret_aad us cl) = Inr secret
         \<and> ss_secret (cd_secret c) = b64_encode secret)"
proof -
  let ?m = "sv_materials sv"
  from create_Inr [OF create] obtain d types r secret where mk: "make_record us ?m w ws at aid rid d types = Inr (r, secret)"
    and st: "store_create us now r s = Inr s'" and c: "c = created_response (ue_parse_addr u) r d secret" by blast
  from make_record_Inr [OF mk] obtain raw where r: "nr_ws r = ws" "nr_status r = ''active''" "nr_scheme r = de_scheme d"
      "nr_host r = de_host d" "nr_port r = de_port d" "nr_types r = types" "secret = b64_encode raw"
    and t: "seal_envelope (m_signing ?m) (Some n1) (de_path d)
            (target_associated_data us format_version ws (nr_id r) (de_scheme d) (de_host d) (de_port d)) = Inr (nr_target r)"
    and v: "seal_envelope (m_signing ?m) (Some n2) raw
            (secret_associated_data us format_version ws (nr_id r) (nr_secret_id r) (nr_key_id r)) = Inr (nr_secret r)"
    unfolding nonces(1,3) by blast
  have i: "ew_id (cd_endpoint c) = nr_id r" by (simp add: c created_response_def)
  from st have fresh: "\<forall>e\<in>set (db_endpoints (ap_queue s)). ep_id e \<noteq> nr_id r"
    and nsec: "\<forall>v\<in>set (db_secrets (ap_queue s)). sr_id v \<noteq> nr_secret_id r"
    and s': "db_endpoints (ap_queue s') = db_endpoints (ap_queue s) @ [endpoint_row_of now r]"
      "db_secrets (ap_queue s') = db_secrets (ap_queue s) @ [new_secret_row ws (nr_id r) (nr_secret_id r) (nr_key_id r) (nr_secret r)]"
      "ap_subs s' = ap_subs s @ map (\<lambda>t. (ws, nr_id r, t)) types"
    by (auto simp: store_create_def Let_def list_ex_iff r split: if_splits)
  have none: "\<forall>v\<in>set (db_secrets (ap_queue s)). sr_endpoint v \<noteq> nr_id r" "\<forall>x\<in>set (ap_subs s). fst (snd x) \<noteq> nr_id r"
    using inv(2) fresh by (fastforce simp: endpoint_fk_def)+
  let ?new = "new_secret_row ws (nr_id r) (nr_secret_id r) (nr_key_id r) (nr_secret r)"
  have n: "of_endpoint ws (nr_id r) ?new" "sr_state ?new = Secret_active" "sr_secret ?new = Some (nr_secret r)"
    "sr_key_id ?new = nr_key_id r" "sr_id ?new = nr_secret_id r"
    by (simp_all add: new_secret_row_def of_endpoint_def)
  have dv: "distinct (db_secrets (ap_queue s) @ [?new])"
    using inv(1) nsec n(5) by (auto simp: secrets_inv_def distinct_map)
  have keys: "endpoint_keys (db_secrets q) ws (nr_id r) ?new None"
    using none(1) n dv by (auto simp: endpoint_keys_def same s' of_endpoint_def)
  from claim_batch_keys [OF claim, unfolded ep i, OF keys] have k: "cl_key_id cl = nr_key_id r" "cl_secret_id cl = nr_secret_id r"
    "cl_secret cl = nr_secret r" "cl_retiring cl = None" by (simp_all add: n)
  have e: "ep_ws (endpoint_row_of now r) = ws" "ep_id (endpoint_row_of now r) = nr_id r" "ep_status (endpoint_row_of now r) = ''active''"
    "ep_scheme (endpoint_row_of now r) = de_scheme d" "ep_host (endpoint_row_of now r) = de_host d"
    "ep_port (endpoint_row_of now r) = de_port d" "ep_target (endpoint_row_of now r) = nr_target r"
    by (simp_all add: endpoint_row_of_def r)
  have old: "find (\<lambda>e. ep_ws e = ws \<and> ep_id e = nr_id r \<and> ep_active e) (db_endpoints (ap_queue s)) = None"
    "find (\<lambda>e. ep_ws e = ws \<and> ep_id e = nr_id r) (db_endpoints (ap_queue s)) = None"
    using fresh by (auto simp: find_None_iff)
  have fe: "find_endpoint q ws (nr_id r) = Some (endpoint_row_of now r)"
    "find (\<lambda>e. ep_ws e = ws \<and> ep_id e = nr_id r) (db_endpoints (ap_queue s')) = Some (endpoint_row_of now r)"
    by (simp_all add: find_endpoint_def same s' find_append e old)
  from claim_batch_endpoint [OF claim, unfolded ep i, OF fe(1)] have tg: "cl_scheme cl = de_scheme d" "cl_host cl = de_host d"
    "cl_port cl = de_port d" "cl_target cl = nr_target r" by (simp_all add: e)
  have ot: "open_envelope (m_signing ?m) (nr_target r)
      (target_associated_data us format_version ws (nr_id r) (de_scheme d) (de_host d) (de_port d)) = Inr (de_path d)"
    by (rule open_seal_envelope [OF t nonces(2) kr refl])
  have ov: "open_envelope (m_signing ?m) (nr_secret r)
      (secret_associated_data us format_version ws (nr_id r) (nr_secret_id r) (nr_key_id r)) = Inr raw"
    by (rule open_seal_envelope [OF v nonces(4) kr refl])
  have types: "endpoint_types collate ws (nr_id r) s' = collate types"
  proof -
    have "filter (\<lambda>(w, e, t). w = ws \<and> e = nr_id r) (ap_subs s) = []" using none(2) by (auto simp: filter_empty_conv)
    then show ?thesis by (simp add: endpoint_types_def s' o_def filter_map)
  qed
  have "get_endpoint (ue_parse_addr u) collate us sv ws (nr_id r) s' = Inr ((cd_endpoint c)\<lparr>ew_types := collate types\<rparr>)"
    using ot by (simp add: get_endpoint_def store_get_def fe stored_record_of_def e open_target_def stored_format [OF t] types c
        created_response_def r)
  moreover have "target_aad us cl = target_associated_data us format_version ws (nr_id r) (de_scheme d) (de_host d) (de_port d)"
    by (simp add: target_aad_def target_associated_data_def tg ep i stored_format [OF t])
  moreover have "secret_aad us cl = secret_associated_data us format_version ws (nr_id r) (nr_secret_id r) (nr_key_id r)"
    by (simp add: secret_aad_associated k ep i stored_format [OF v])
  ultimately show ?thesis using ot ov k tg i r by (simp add: c created_response_def)
qed

section \<open>An example\<close>

definition demo_draws :: "uuid \<Rightarrow> draws" where
  "demo_draws n = \<lparr>dw_id = Some n, dw_secret_id = Some (n + 1), dw_audit = Some (n + 2), dw_secret = Some ''secret'',
     dw_key = Some ''keyraw00'', dw_nonce1 = Some ''0123456789ab'', dw_nonce2 = Some ''ba9876543210''\<rparr>"

definition demo_key :: bytes where
  "demo_key = key_bytes (dev_key ''signing-kek'')"

text \<open>The endpoint of \<open>demo_api1\<close> rotates its secret at time 1.\<close>

definition demo_rotation :: rotation_record where
  "demo_rotation =
     \<lparr>rr_command = 30, rr_audit = 32, rr_ws = 1, rr_endpoint = 2, rr_secret_id = 31,
      rr_key_id = ''key_'' @ b64_encode ''keyraw00'', rr_actor = ''a'', rr_request = ''q'',
      rr_key_hash = rotation_mac (m_idempotency_pepper development_materials) (''secret-rotation:v1'' @ [byte_of 10] @ ''k''),
      rr_fingerprint = rotation_fingerprint (m_fingerprint_pepper development_materials) 2 86400, rr_overlap = 86400,
      rr_secret = \<lparr>env_format = format_version, env_kek = 1, env_nonce = ''0123456789ab'',
        env_ciphertext = gcm_seal demo_key ''0123456789ab'' ''secret''
          (secret_associated_data (\<lambda>_. ''u'') format_version 1 2 31 (''key_'' @ b64_encode ''keyraw00''))\<rparr>\<rparr>"

definition demo_api2 :: api_db where
  "demo_api2 = demo_api1\<lparr>ap_queue := (ap_queue demo_api1)\<lparr>db_secrets :=
       [\<lparr>sr_ws = 1, sr_endpoint = 2, sr_id = 4, sr_key_id = ''kid_00000001'', sr_state = Secret_retiring,
         sr_secret = Some demo_envelope, sr_retire_at = Some (1 + 86400 * second)\<rparr>,
        new_secret_row 1 2 31 (rr_key_id demo_rotation) (rr_secret demo_rotation)]\<rparr>,
     ap_rotations := [\<lparr>ro_id = 30, ro_ws = 1, ro_endpoint = 2, ro_secret = 31, ro_key_hash = rr_key_hash demo_rotation,
        ro_fingerprint = rr_fingerprint demo_rotation, ro_key_id = rr_key_id demo_rotation, ro_overlap = 86400\<rparr>]\<rparr>"

definition demo_result :: rotation_result where
  "demo_result = \<lparr>rn_endpoint = 2, rn_secret = \<lparr>ss_key_id = rr_key_id demo_rotation, ss_secret = b64_encode ''secret''\<rparr>,
     rn_duplicate = False\<rparr>"

lemma demo_request:
  "rotation_request (\<lambda>_. ''u'') development_materials (demo_draws 30) 1 2 ''a'' ''q'' ''k'' 0 = Inr demo_rotation"
  by (simp add: rotation_request_def demo_draws_def rotation_ids_def new_signing_secret_def seal_envelope_def
      primary_cipher_def development_materials_def demo_rotation_def demo_key_def Let_def)

lemma demo_args: "rotation_args_ok demo_rotation"
  by (simp add: rotation_args_ok_def demo_rotation_def envelope_stored_def format_version_def length_b64_encode
      gcm.length_seal demo_key_def rotation_mac_def rotation_fingerprint_def)

lemma demo_secrets: "secrets_inv (db_secrets (ap_queue demo_api1))" "keys_inv demo_api1"
  by (simp_all add: demo_api1_def demo_api_def demo_db_def keys_inv_def secrets_inv_def one_in_state_def secret_ok_def)

lemma demo_rotated:
  "rotate (\<lambda>_. ''u'') development_materials (demo_draws 30) 1 1 2 ''a'' ''q'' ''k'' 0 demo_api1 = Inr (demo_result, demo_api2)"
proof -
  have "rotate_endpoint_secret 1 demo_rotation demo_api1
      = Inr (\<lparr>rs_secret_id = 31, rs_key_id = rr_key_id demo_rotation, rs_secret = rr_secret demo_rotation, rs_duplicate = False\<rparr>, demo_api2)"
    using demo_args
    by (simp add: rotate_endpoint_secret_def prior_rotation_def demo_api2_def demo_api1_def demo_api_def demo_db_def Let_def
        of_endpoint_def retire_secret_row_def) (simp add: demo_rotation_def b64_encode_def)
  moreover have "open_envelope (m_signing development_materials) (rr_secret demo_rotation)
      (secret_associated_data (\<lambda>_. ''u'') (env_format (rr_secret demo_rotation)) 1 2 31 (rr_key_id demo_rotation)) = Inr ''secret''"
  proof -
    have seal: "seal_envelope (m_signing development_materials) (Some ''0123456789ab'') ''secret''
        (secret_associated_data (\<lambda>_. ''u'') format_version 1 2 31 (rr_key_id demo_rotation)) = Inr (rr_secret demo_rotation)"
      by (simp add: seal_envelope_def primary_cipher_def development_materials_def demo_rotation_def demo_key_def)
    from open_seal_envelope [OF seal _ _ refl] show ?thesis
      by (simp add: stored_format [OF seal] development_materials_def)
  qed
  ultimately show ?thesis
    by (simp add: rotate_def store_rotate_def demo_request demo_result_def)
qed

definition demo_claim_request :: claim_request where
  "demo_claim_request = \<lparr>rr_worker = 7, rr_lease_ttl = 30 * second, rr_limit = 1, rr_workspace_limit = 1, rr_endpoint_limit = 1\<rparr>"

lemmas demo_claim_defs = claim_batch_def claim_request_valid_def demo_claim_request_def event_row_fields scan_claim_def
  claim_deliveries_def recover_exhausted_def exhausted_row_def demo_db_def new_delivery_def claim_delivery_row_def
  duration_defs ready_at_def claim_one_delivery_def select_delivery_candidate_def candidate_ok_def find_workspace_def
  find_endpoint_def find_runtime_def find_event_def find_secret_def active_count_def count_where_def
  Let_def dkey_def claim_result_def retiring_secret_def numeral_3_eq_3

theorem rotation_signs_both_witness:
  "\<exists>claims q c. claim_batch (\<lambda>_. Some 20) 1 (\<lambda>_ _. 1) (\<lambda>_ _. False) demo_claim_request (ap_queue demo_api2) = Inr (claims, q)
     \<and> c \<in> set claims \<and> cl_key_id c = ss_key_id (rn_secret demo_result) \<and> cl_retiring c \<noteq> None"
proof -
  obtain claims q c where b: "claim_batch (\<lambda>_. Some 20) 1 (\<lambda>_ _. 1) (\<lambda>_ _. False) demo_claim_request (ap_queue demo_api2) = Inr (claims, q)"
    and c: "c \<in> set claims" "cl_ws c = 1" "cl_endpoint c = 2"
    by (simp add: demo_api2_def demo_api1_def demo_api_def demo_claim_defs new_secret_row_def demo_record_def)
  from rotation_signs_both [OF demo_secrets(1) demo_rotated _ refl b c]
  have "cl_key_id c = ss_key_id (rn_secret demo_result) \<and> cl_retiring c \<noteq> None"
    by (auto simp: demo_result_def duration_defs)
  with b c show ?thesis by blast
qed

theorem rotate_idempotent_witness:
  "rotate (\<lambda>_. ''u'') development_materials (demo_draws 40) 5 1 2 ''a'' ''q'' ''k'' 86400 demo_api2
     = Inr (demo_result\<lparr>rn_duplicate := True\<rparr>, demo_api2)"
proof -
  obtain c where c: "rotation_request (\<lambda>_. ''u'') development_materials (demo_draws 40) 1 2 ''a'' ''q'' ''k'' 86400 = Inr c"
    and args: "rotation_args_ok c"
    by (simp add: rotation_request_def demo_draws_def rotation_ids_def new_signing_secret_def seal_envelope_def
      primary_cipher_def development_materials_def Let_def rotation_args_ok_def envelope_stored_def format_version_def
      length_b64_encode gcm.length_seal rotation_mac_def rotation_fingerprint_def)
  show ?thesis
    by (subst rotate_idempotent [OF demo_secrets(2) demo_rotated c _ args])
       (simp_all add: demo_api2_def new_secret_row_def of_endpoint_def)
qed

text \<open>A second endpoint, created at time 2, with a delivery of event 9.\<close>

definition demo_service :: endpoint_service where
  "demo_service = \<lparr>sv_profile = Production, sv_allow_http = False, sv_materials = development_materials\<rparr>"

definition demo_input :: create_input where
  "demo_input = \<lparr>ci_url = ''https://a.example/h'', ci_types = [''order.created'']\<rparr>"

lemma demo_destination:
  "validate_create_input demo_url_env (\<lambda>_. Some [Addr4 (ip4 8 8 8 8)]) demo_service demo_input
     = Inr (\<lparr>de_scheme = ''https'', de_host = ''a.example'', de_path = ''/h'', de_port = 443\<rparr>, [''order.created''])"
proof -
  have "parse_destination demo_url_env Production False ''https://a.example/h''
      = Inr \<lparr>de_scheme = ''https'', de_host = ''a.example'', de_path = ''/h'', de_port = 443\<rparr>"
    by (simp add: parse_destination_def demo_url_env_def canonical_host_def to_lower_def has_control_def
        has_prefix_def trim_suffix_def has_suffix_def is_digit_def ascii_lower_def)
  moreover have "allowed Production (Addr4 (ip4 8 8 8 8))"
    by (simp add: allowed_def is_4in6_def unmap_def is_loopback_ip4 contains4_ip4 contains4_special_ip4 is_global_unicast4_ip4)
  ultimately show ?thesis
    by (simp add: validate_create_input_def demo_service_def demo_input_def validate_url_def resolve_def demo_url_env_def
      validate_event_types_def event_type_ok_def alnum_def is_digit_def addr_zone_def is_4in6_def)
qed

definition demo_new :: new_record where
  "demo_new =
     \<lparr>nr_id = 50, nr_ws = 1, nr_secret_id = 51, nr_audit = 52, nr_status = ''active'', nr_scheme = ''https'',
      nr_host = ''a.example'', nr_key_id = ''key_'' @ b64_encode ''keyraw00'', nr_actor_type = ''api_key'', nr_actor_id = ''a'',
      nr_request_id = ''q'', nr_port = 443,
      nr_target = \<lparr>env_format = format_version, env_kek = 1, env_nonce = ''0123456789ab'',
        env_ciphertext = gcm_seal demo_key ''0123456789ab'' ''/h''
          (target_associated_data (\<lambda>_. ''u'') format_version 1 50 ''https'' ''a.example'' 443)\<rparr>,
      nr_secret = \<lparr>env_format = format_version, env_kek = 1, env_nonce = ''ba9876543210'',
        env_ciphertext = gcm_seal demo_key ''ba9876543210'' ''secret''
          (secret_associated_data (\<lambda>_. ''u'') format_version 1 50 51 (''key_'' @ b64_encode ''keyraw00''))\<rparr>,
      nr_types = [''order.created'']\<rparr>"

definition demo_api3 :: api_db where
  "demo_api3 = demo_api1\<lparr>ap_queue := (ap_queue demo_api1)
       \<lparr>db_endpoints := db_endpoints demo_db @ [endpoint_row_of 2 demo_new],
        db_runtime := db_runtime demo_db @ [\<lparr>rt_ws = 1, rt_endpoint = 50, rt_last_seq = 0\<rparr>],
        db_secrets := db_secrets demo_db @ [new_secret_row 1 50 51 (nr_key_id demo_new) (nr_secret demo_new)]\<rparr>,
     ap_subs := [(1, 2, ''order.created''), (1, 50, ''order.created'')]\<rparr>"

lemma demo_new_ok: "new_record_ok demo_new"
  by (simp add: new_record_ok_def demo_new_def envelope_stored_def format_version_def length_b64_encode gcm.length_seal
      demo_key_def event_type_ok_def alnum_def is_digit_def)

lemma demo_created:
  "create_as demo_url_env (\<lambda>_. Some [Addr4 (ip4 8 8 8 8)]) (\<lambda>_. ''u'') demo_service (demo_draws 50) 2 1 ''api_key'' ''a'' ''q''
      demo_input demo_api1
   = Inr (created_response (ue_parse_addr demo_url_env) demo_new
        \<lparr>de_scheme = ''https'', de_host = ''a.example'', de_path = ''/h'', de_port = 443\<rparr> (b64_encode ''secret''), demo_api3)"
proof -
  have mk: "make_record (\<lambda>_. ''u'') development_materials (demo_draws 50) 1 ''api_key'' ''a'' ''q''
      \<lparr>de_scheme = ''https'', de_host = ''a.example'', de_path = ''/h'', de_port = 443\<rparr> [''order.created'']
      = Inr (demo_new, b64_encode ''secret'')"
    by (simp add: make_record_def new_endpoint_ids_def demo_draws_def new_signing_secret_def seal_record_def seal_envelope_def
        primary_cipher_def development_materials_def demo_new_def demo_key_def)
  have f: "nr_ws demo_new = 1" "nr_id demo_new = 50" "nr_secret_id demo_new = 51" "nr_types demo_new = [''order.created'']"
    "nr_actor_type demo_new = ''api_key''" "nr_actor_id demo_new = ''a''" "nr_request_id demo_new = ''q''"
    by (simp_all add: demo_new_def)
  have "store_create (\<lambda>_. ''u'') 2 demo_new demo_api1 = Inr demo_api3"
    using demo_new_ok by (simp add: store_create_def f demo_api1_def demo_api_def demo_db_def demo_api3_def find_workspace_def
      audit_args_ok_def Let_def)
  with mk show ?thesis
    by (simp add: create_as_def demo_destination) (simp add: demo_service_def)
qed

theorem created_endpoint_usable_witness:
  "get_endpoint (ue_parse_addr demo_url_env) id (\<lambda>_. ''u'') demo_service 1 50 demo_api3
     = Inr \<lparr>ew_id = 50, ew_url = build_url (\<lambda>_. None) ''https'' ''a.example'' 443 ''/h'', ew_status = ''active'',
            ew_types = [''order.created'']\<rparr>"
proof -
  let ?q = "(ap_queue demo_api3)\<lparr>db_deliveries := [new_delivery 1 60 9 50 10 0]\<rparr>"
  have f: "nr_ws demo_new = 1" "nr_id demo_new = 50" "nr_status demo_new = ''active''" by (simp_all add: demo_new_def)
  obtain claims q c where b: "claim_batch (\<lambda>_. Some 20) 1 (\<lambda>_ _. 1) (\<lambda>_ _. False) demo_claim_request ?q = Inr (claims, q)"
    and c: "c \<in> set claims" "cl_ws c = 1" "cl_endpoint c = 50"
    by (simp add: demo_api3_def demo_api1_def demo_api_def demo_claim_defs new_secret_row_def demo_record_def
        endpoint_row_of_def f)
  have i: "ew_id (cd_endpoint (created_response pa demo_new d x)) = 50" for pa d x by (simp add: created_response_def f)
  have q: "db_secrets ?q = db_secrets (ap_queue demo_api3)" "db_endpoints ?q = db_endpoints (ap_queue demo_api3)" by simp_all
  have fk: "endpoint_fk demo_api1" by (simp add: endpoint_fk_def demo_api1_def demo_api_def demo_db_def)
  from created_endpoint_usable [OF demo_created _ _ _ _ _ demo_secrets(1) fk q b c(1), where collate = id, unfolded i] c(2,3)
  show ?thesis by (simp add: demo_draws_def demo_service_def development_materials_def created_response_def f
      demo_url_env_def) (simp add: demo_new_def)
qed

end
