(* ===== verification/Endpoint_List.thy ===== *)
theory Endpoint_List
  imports Endpoint
begin

text \<open>
  The pages of the endpoint list: the second provider of the contract \<open>paged_list\<close>.
\<close>

section \<open>The loop over a page\<close>

definition target_path :: "uuid_text \<Rightarrow> materials \<Rightarrow> uuid \<Rightarrow> stored_record \<Rightarrow> bytes" where
  "target_path us m ws r = (case open_target us m ws r of Inl e \<Rightarrow> [] | Inr path \<Rightarrow> path)"

definition item_of :: "(string \<Rightarrow> addr option) \<Rightarrow> uuid_text \<Rightarrow> materials \<Rightarrow> uuid \<Rightarrow> stored_record \<Rightarrow> endpoint_item" where
  "item_of pa us m ws r = list_item pa r (target_path us m ws r)"

definition opens :: "uuid_text \<Rightarrow> materials \<Rightarrow> uuid \<Rightarrow> stored_record \<Rightarrow> bool" where
  "opens us m ws r \<longleftrightarrow> (\<exists>path. open_target us m ws r = Inr path)"

definition mark_of :: "materials \<Rightarrow> uuid \<Rightarrow> stored_record \<Rightarrow> list_error + string" where
  "mark_of m ws r = encode_list_cursor (m_cursor_pepper m) ws \<lparr>lc_created_at = sd_created r, lc_id = sd_id r\<rparr>"

lemma list_loop_all:
  "list_all (opens us m ws) rs \<Longrightarrow> length rs \<le> n \<Longrightarrow>
     list_loop pa us m ws n prev rs items = Inr \<lparr>en_items = items @ map (item_of pa us m ws) rs, en_next = []\<rparr>"
proof (induction rs arbitrary: n prev items)
  case (Cons r rs)
  then show ?case by (cases n) (auto simp: opens_def item_of_def target_path_def)
qed simp

lemma list_loop_more:
  "list_all (opens us m ws) rs \<Longrightarrow> n < length rs \<Longrightarrow>
     list_loop pa us m ws n (Some p) rs items =
       (case mark_of m ws (if n = 0 then p else rs ! (n - 1)) of
          Inl e \<Rightarrow> Inl e
        | Inr next \<Rightarrow> Inr \<lparr>en_items = items @ map (item_of pa us m ws) (take n rs), en_next = next\<rparr>)"
proof (induction rs arbitrary: n p items)
  case (Cons r rs)
  show ?case
  proof (cases n)
    case 0
    then show ?thesis by (simp add: mark_of_def split: sum.split)
  next
    case (Suc k)
    with Cons.prems obtain path where "open_target us m ws r = Inr path" by (auto simp: opens_def)
    moreover from this have "list_item pa r path = item_of pa us m ws r" by (simp add: item_of_def target_path_def)
    ultimately show ?thesis using Cons Suc by (cases k) (simp_all split: sum.split)
  qed
qed simp

lemma list_loop_start:
  assumes "list_all (opens us m ws) rs" and "0 < n"
  shows "list_loop pa us m ws n None rs [] =
    (if length rs \<le> n then Inr \<lparr>en_items = map (item_of pa us m ws) rs, en_next = []\<rparr>
     else case mark_of m ws (rs ! (n - 1)) of
          Inl e \<Rightarrow> Inl e
        | Inr next \<Rightarrow> Inr \<lparr>en_items = map (item_of pa us m ws) (take n rs), en_next = next\<rparr>)"
proof (cases "length rs \<le> n")
  case False
  with assms obtain k r rs' where k: "n = Suc k" "rs = r # rs'" by (cases n; cases rs) auto
  with assms(1) obtain path where "open_target us m ws r = Inr path" by (auto simp: opens_def)
  moreover from this have "list_item pa r path = item_of pa us m ws r" by (simp add: item_of_def target_path_def)
  ultimately show ?thesis using False k list_loop_more [of us m ws rs' k pa r "[item_of pa us m ws r]"] assms(1)
    by (cases k) (simp_all split: sum.split)
qed (simp add: list_loop_all assms)

section \<open>Pages are complete\<close>

type_synonym endpoint_list_data =
  "(string \<Rightarrow> addr option) \<times> (string list \<Rightarrow> string list) \<times> uuid_text \<times> materials \<times> uuid \<times> int \<times> api_db"

definition ep_ready :: "endpoint_list_data \<Rightarrow> bool" where
  "ep_ready x = (case x of (pa, collate, us, m, ws, limit, s) \<Rightarrow>
     m_cursor_pepper m \<noteq> 0 \<and> ws \<noteq> uuid_nil \<and> 1 \<le> limit \<and> limit \<le> 100
     \<and> distinct (map sd_id (own_endpoints collate ws s)) \<and> list_all (opens us m ws) (own_endpoints collate ws s)
     \<and> (\<forall>r\<in>set (own_endpoints collate ws s). sd_id r \<noteq> uuid_nil \<and> in_int64 (sd_created r)))"

definition ep_page :: "endpoint_list_data \<Rightarrow> string \<Rightarrow> list_error + (endpoint_item list \<times> string)" where
  "ep_page x raw = (case x of (pa, collate, us, m, ws, limit, s) \<Rightarrow>
     (case list_endpoints pa collate us m ws limit raw s of Inl e \<Rightarrow> Inl e | Inr p \<Rightarrow> Inr (en_items p, en_next p)))"

definition ep_sorted :: "endpoint_list_data \<Rightarrow> stored_record list" where
  "ep_sorted x = (case x of (pa, collate, us, m, ws, limit, s) \<Rightarrow> newest_first stored_position (own_endpoints collate ws s))"

definition ep_rows :: "endpoint_list_data \<Rightarrow> endpoint_item list" where
  "ep_rows x = (case x of (pa, collate, us, m, ws, limit, s) \<Rightarrow> map (item_of pa us m ws) (ep_sorted x))"

definition ep_limit :: "endpoint_list_data \<Rightarrow> nat" where
  "ep_limit x = (case x of (pa, collate, us, m, ws, limit, s) \<Rightarrow> nat limit)"

definition ep_mark :: "endpoint_list_data \<Rightarrow> nat \<Rightarrow> string" where
  "ep_mark x n = (case x of (pa, collate, us, m, ws, limit, s) \<Rightarrow>
     (if n = 0 then [] else case mark_of m ws (ep_sorted x ! (n - 1)) of Inl e \<Rightarrow> [] | Inr raw \<Rightarrow> raw))"

lemma ep_position_distinct:
  "distinct (map sd_id (own_endpoints collate ws s)) \<Longrightarrow> distinct (map stored_position (own_endpoints collate ws s))"
  by (auto simp: distinct_map inj_on_def stored_position_def)

lemma ep_mark_cursor:
  assumes x: "x = (pa, collate, us, m, ws, limit, s)" and ready: "ep_ready x" and n: "0 < n" "n \<le> length (ep_sorted x)"
  shows "mark_of m ws (ep_sorted x ! (n - 1)) = Inr (ep_mark x n) \<and> ep_mark x n \<noteq> []
    \<and> (\<exists>c. decode_list_cursor (m_cursor_pepper m) ws (ep_mark x n) = Inr c
          \<and> after_cursor c = Some (stored_position (ep_sorted x ! (n - 1))))"
proof -
  let ?r = "ep_sorted x ! (n - 1)"
  have "?r \<in> set (own_endpoints collate ws s)" using n nth_mem [of "n - 1" "ep_sorted x"] by (simp add: ep_sorted_def x)
  then have r: "sd_id ?r \<noteq> uuid_nil" "in_int64 (sd_created ?r)" "sd_created ?r \<noteq> zero_time" "m_cursor_pepper m \<noteq> 0" "ws \<noteq> uuid_nil"
    using ready int64_not_zero_time by (auto simp: ep_ready_def x)
  then obtain raw where raw: "mark_of m ws ?r = Inr raw" by (simp add: mark_of_def encode_list_cursor_def Let_def)
  then have mk: "ep_mark x n = raw" using n(1) by (simp add: ep_mark_def x)
  have "encode_list_cursor (m_cursor_pepper m) ws \<lparr>lc_created_at = sd_created ?r, lc_id = sd_id ?r\<rparr> = Inr raw"
    using raw by (simp add: mark_of_def)
  with cursor_back [of "\<lparr>lc_created_at = sd_created ?r, lc_id = sd_id ?r\<rparr>"] r(2)
  have bk: "decode_list_cursor (m_cursor_pepper m) ws raw = Inr \<lparr>lc_created_at = sd_created ?r, lc_id = sd_id ?r\<rparr>" "raw \<noteq> []"
    by simp_all
  show ?thesis unfolding mk using raw bk r(3)
    by (intro conjI exI [of _ "\<lparr>lc_created_at = sd_created ?r, lc_id = sd_id ?r\<rparr>"]) (simp_all add: after_cursor_def stored_position_def)
qed

lemma ep_page_at:
  assumes ready: "ep_ready x" and n: "n \<le> length (ep_rows x)"
  shows "ep_page x (ep_mark x n) = Inr (take (ep_limit x) (drop n (ep_rows x)),
    if n + ep_limit x < length (ep_rows x) then ep_mark x (n + ep_limit x) else [])"
proof -
  obtain pa collate us m ws limit s where x: "x = (pa, collate, us, m, ws, limit, s)" by (cases x)
  have len: "length (ep_rows x) = length (ep_sorted x)" by (simp add: ep_rows_def x)
  have lim: "1 \<le> limit" "\<not> limit < 1" "\<not> 100 < limit" "ws \<noteq> uuid_nil" "0 < nat limit"
    using ready by (auto simp: ep_ready_def x)
  obtain c where c: "decode_list_cursor (m_cursor_pepper m) ws (ep_mark x n) = Inr c"
    "after_cursor c = (if n = 0 then None else Some (stored_position (ep_sorted x ! (n - 1))))"
  proof (cases "n = 0")
    case True
    then show thesis using that [of zero_cursor] by (simp add: ep_mark_def x decode_list_cursor_def zero_cursor_def after_cursor_def)
  next
    case False
    then show thesis using that ep_mark_cursor [OF x ready, of n] n len by auto
  qed
  let ?rs = "take (nat (limit + 1)) (drop n (ep_sorted x))"
  have q: "store_list collate ws (limit + 1) c s = ?rs"
    unfolding store_list_def c(2) unfolding ep_sorted_def x prod.case
    by (rule keyset_query_at [OF ep_position_distinct]) (use ready n len in \<open>simp_all add: ep_ready_def x ep_sorted_def\<close>)
  have "list_all (opens us m ws) (ep_sorted x)" using ready by (simp add: ep_ready_def x ep_sorted_def list_all_iff)
  then have op: "list_all (opens us m ws) ?rs" unfolding list_all_iff using in_set_takeD in_set_dropD by metis
  have page: "list_endpoints pa collate us m ws limit (ep_mark x n) s = list_loop pa us m ws (nat limit) None ?rs []"
    using lim c(1) q by (simp add: list_endpoints_def)
  have s: "nat (limit + 1) = Suc (nat limit)" using lim by simp
  show ?thesis
  proof (cases "n + nat limit < length (ep_sorted x)")
    case True
    then have more: "\<not> length ?rs \<le> nat limit" and last: "?rs ! (nat limit - 1) = ep_sorted x ! (n + nat limit - 1)"
      and shown: "take (nat limit) ?rs = take (nat limit) (drop n (ep_sorted x))"
      using lim by (auto simp: s min_def)
    have "mark_of m ws (ep_sorted x ! (n + nat limit - 1)) = Inr (ep_mark x (n + nat limit))"
      using ep_mark_cursor [OF x ready, of "n + nat limit"] True lim by simp
    with page more last shown list_loop_start [OF op lim(5), of pa] True len show ?thesis
      by (simp add: ep_page_def x ep_limit_def ep_rows_def take_map drop_map)
  next
    case False
    then have "length ?rs \<le> nat limit" "?rs = take (nat limit) (drop n (ep_sorted x))" by (simp_all add: s)
    with page list_loop_start [OF op lim(5), of pa] False len show ?thesis
      by (simp add: ep_page_def x ep_limit_def ep_rows_def take_map drop_map)
  qed
qed

interpretation endpoints: paged_list ep_ready ep_page ep_rows ep_limit ep_mark
proof
  fix d n
  show "ep_mark d 0 = []" by (simp add: ep_mark_def split: prod.split)
  show "0 < ep_limit d" if "ep_ready d" using that by (auto simp: ep_ready_def ep_limit_def)
  show "ep_mark d n \<noteq> []" if "ep_ready d" "0 < n" "n < length (ep_rows d)"
  proof -
    obtain pa collate us m ws limit s where x: "d = (pa, collate, us, m, ws, limit, s)" by (cases d)
    then have "n \<le> length (ep_sorted d)" using that(3) by (simp add: ep_rows_def)
    from ep_mark_cursor [OF x that(1,2) this] show ?thesis by blast
  qed
qed (rule ep_page_at)

text \<open>Following the cursors of the endpoint list returns every endpoint of the workspace exactly once, newest
  first, with its URL, as long as their targets open under the service's keys.\<close>

theorem endpoint_pages_complete:
  assumes "m_cursor_pepper m \<noteq> 0" and "ws \<noteq> uuid_nil" and "1 \<le> limit" and "limit \<le> 100"
    and "distinct (map sd_id (own_endpoints collate ws s))" and "list_all (opens us m ws) (own_endpoints collate ws s)"
    and "\<forall>r\<in>set (own_endpoints collate ws s). sd_id r \<noteq> uuid_nil \<and> in_int64 (sd_created r)"
  shows "walk_pages (ep_page (pa, collate, us, m, ws, limit, s)) (Suc (length (own_endpoints collate ws s))) []
      = Some (Inr (map (item_of pa us m ws) (newest_first stored_position (own_endpoints collate ws s))))"
proof -
  have "ep_ready (pa, collate, us, m, ws, limit, s)" using assms by (simp add: ep_ready_def)
  from endpoints.walk_complete [OF this] show ?thesis by (simp add: ep_rows_def ep_sorted_def)
qed

text \<open>One endpoint whose target is sealed under the development keys.\<close>

theorem endpoint_pages_complete_witness:
  "\<exists>s. length (own_endpoints id 1 s) = 1
     \<and> walk_pages (ep_page (\<lambda>_. None, id, \<lambda>_. ''u'', development_materials\<lparr>m_cursor_pepper := 5\<rparr>, 1, 10, s)) (Suc (Suc 0)) []
         = Some (Inr (map (item_of (\<lambda>_. None) (\<lambda>_. ''u'') (development_materials\<lparr>m_cursor_pepper := 5\<rparr>) 1) (own_endpoints id 1 s)))"
proof -
  let ?m = "development_materials\<lparr>m_cursor_pepper := 5\<rparr>" and ?us = "\<lambda>_::uuid. ''u''"
  let ?aad = "target_associated_data ?us format_version 1 2 ''https'' ''a'' 443"
  obtain env where env: "seal_envelope (m_signing ?m) (Some ''0123456789ab'') ''/h'' ?aad = Inr env"
    by (simp add: seal_envelope_def primary_cipher_def development_materials_def)
  let ?e = "\<lparr>ep_ws = 1, ep_id = 2, ep_status = ''active'', ep_max_concurrency = 4, ep_scheme = ''https'', ep_host = ''a'',
      ep_port = 443, ep_target = env, ep_created = 7\<rparr>"
  let ?s = "\<lparr>ap_queue = demo_db\<lparr>db_endpoints := [?e]\<rparr>, ap_subs = [], ap_rotations = []\<rparr>"
  have own: "own_endpoints id 1 ?s = [stored_record_of id ?s ?e]" by (simp add: own_endpoints_def)
  have "env_format env = format_version" using env by (auto simp: seal_envelope_iff)
  with open_seal_envelope [OF env _ _ refl] have "opens ?us ?m 1 (stored_record_of id ?s ?e)"
    by (simp add: opens_def open_target_def stored_record_of_def development_materials_def)
  then have "list_all (opens ?us ?m 1) (own_endpoints id 1 ?s)" by (simp only: own list.pred_inject simp_thms)
  note pages = endpoint_pages_complete [OF _ _ _ _ _ this, of 10 "\<lambda>_. None", unfolded own]
  have "walk_pages (ep_page (\<lambda>_. None, id, ?us, ?m, 1, 10, ?s)) (Suc (Suc 0)) []
      = Some (Inr (map (item_of (\<lambda>_. None) ?us ?m 1) (own_endpoints id 1 ?s)))"
    using pages unfolding own by (simp add: stored_record_of_def in_int64_def newest_first_def del: walk_pages.simps)
  moreover have "length (own_endpoints id 1 ?s) = 1" by (simp add: own)
  ultimately show ?thesis by blast
qed

end
