(* ===== verification/Console_Session.thy ===== *)
theory Console_Session
  imports Auth "HOL-Library.Product_Lexorder"
begin

text \<open>
  \<open>internal/consolesession\<close>: the browser sessions of the console, derived from API keys, and the SQL functions
  of migration 000021 that keep them. Random bytes, fresh identifiers and the readings of the clock are
  arguments; \<open>st\<close> is \<open>statement_timestamp()\<close> and \<open>clk n\<close> the n-th reading of \<open>clock_timestamp()\<close>.
\<close>

datatype session_error = Err_session_unauthorized | Err_session_limit | Err_session_other

record session_lookup =
  sl_id :: uuid
  sl_verifier :: bytes

record session =
  sn_id :: uuid
  sn_token :: string
  sn_principal :: principal

record session_service =
  sc_pepper :: key256
  sc_csrf_pepper :: key256
  sc_auth_pepper :: key256

section \<open>Tokens\<close>

definition session_verifier :: "key256 \<Rightarrow> string \<Rightarrow> bytes" where
  "session_verifier pepper token = hmac_sha256 (key_bytes pepper) token"

definition dummy_session_token :: string where
  "dummy_session_token = ''wds_0000000000000000_AAAAAAAAAAAAAAAAAAAAAAAAAAAAAAAAAAAAAAAAAAA''"

definition generate_session_token :: "bytes option \<Rightarrow> bytes option \<Rightarrow> (string \<times> string) option" where
  "generate_session_token prefixRaw secret =
     (case prefixRaw of None \<Rightarrow> None
      | Some p \<Rightarrow>
          (case secret of None \<Rightarrow> None
           | Some sec \<Rightarrow> let prefix = hex_encode p in Some (''wds_'' @ prefix @ ''_'' @ b64_encode sec, prefix)))"

definition parse_session_token :: "string \<Rightarrow> string option" where
  "parse_session_token token =
     (if length token > 128 then None
      else
        let parts = split_n 3 (CHR ''_'') token
        in if length parts \<noteq> 3 \<or> parts ! 0 \<noteq> ''wds'' \<or> length (parts ! 1) \<noteq> 16 then None
           else if \<not> hex_valid (parts ! 1) then None
           else case b64_decode_strict (parts ! 2) of
                  None \<Rightarrow> None
                | Some secret \<Rightarrow> if length secret \<noteq> 32 then None else Some (parts ! 1))"

definition csrf :: "session_service \<Rightarrow> string \<Rightarrow> string" where
  "csrf sv token = b64_encode (hmac_sha256 (key_bytes (sc_csrf_pepper sv)) (''csrf:v1'' @ [byte_of 10] @ token))"

definition valid_csrf :: "session_service \<Rightarrow> string \<Rightarrow> string \<Rightarrow> bool" where
  "valid_csrf sv token supplied \<longleftrightarrow> csrf sv token = supplied"

section \<open>The table\<close>

record session_row =
  se_id :: uuid
  se_ws :: uuid
  se_key :: uuid
  se_prefix :: string
  se_verifier :: bytes
  se_created :: instant
  se_last_seen :: instant
  se_idle :: instant
  se_absolute :: instant
  se_generation :: int
  se_revoked :: "(instant \<times> string) option"

text \<open>\<open>sb_ready\<close> is the generation of \<open>restore_control\<close> while its state is ready.\<close>

record session_db =
  sb_auth :: auth_db
  sb_sessions :: "session_row list"
  sb_ready :: "int option"

definition key_usable :: "instant \<Rightarrow> uuid \<Rightarrow> uuid \<Rightarrow> auth_db \<Rightarrow> bool" where
  "key_usable st ws key s \<longleftrightarrow>
     list_ex (\<lambda>k. ak_workspace k = ws \<and> ak_id k = key \<and> ak_status k = ''active''
        \<and> (case ak_expires k of None \<Rightarrow> True | Some e \<Rightarrow> e > st)
        \<and> list_ex (\<lambda>w. aw_id w = ws \<and> aw_status w = ''active'') (ad_workspaces s)) (ad_keys s)"

definition of_key :: "uuid \<Rightarrow> uuid \<Rightarrow> session_row \<Rightarrow> bool" where
  "of_key ws key x \<longleftrightarrow> se_ws x = ws \<and> se_key x = key"

definition session_times_ok :: "session_row \<Rightarrow> bool" where
  "session_times_ok x \<longleftrightarrow> se_created x \<le> se_last_seen x \<and> se_last_seen x < se_idle x \<and> se_idle x \<le> se_absolute x"

definition expire_row :: "instant \<Rightarrow> session_row \<Rightarrow> session_row" where
  "expire_row now x = x\<lparr>se_revoked := Some (now, ''expired'')\<rparr>"

definition audit_session :: "uuid \<Rightarrow> uuid \<Rightarrow> string \<Rightarrow> uuid \<Rightarrow> string \<Rightarrow> session_db \<Rightarrow> session_db" where
  "audit_session audit ws action i outcome s =
     s\<lparr>sb_auth := (sb_auth s)\<lparr>ad_audits := ad_audits (sb_auth s) @ [\<lparr>ae_id = audit, ae_workspace = ws,
        ae_action = action, ae_resource = i, ae_outcome = outcome\<rparr>]\<rparr>\<rparr>"

definition create_console_session ::
    "uuid \<Rightarrow> uuid \<Rightarrow> uuid \<Rightarrow> string \<Rightarrow> bytes \<Rightarrow> uuid \<Rightarrow> instant \<Rightarrow> (nat \<Rightarrow> instant) \<Rightarrow> session_db
      \<Rightarrow> string + (uuid \<times> session_db)" where
  "create_console_session i ws key prefix ver audit st clk s =
     (if length prefix \<noteq> 16 \<or> \<not> list_all (\<lambda>c. is_digit c \<or> 97 \<le> byte_val c \<and> byte_val c \<le> 102) prefix \<or> length ver \<noteq> 32
      then Inl ''console_session_invalid''
      else case sb_ready s of
        None \<Rightarrow> Inl ''console_session_unauthorized''
      | Some generation \<Rightarrow>
          if \<not> key_usable st ws key (sb_auth s) then Inl ''console_session_unauthorized''
          else
            let xs = update_where (\<lambda>x. of_key ws key x \<and> se_revoked x = None
                        \<and> (se_idle x \<le> st \<or> se_absolute x \<le> st \<or> se_generation x \<noteq> generation))
                       (expire_row (clk 0)) (sb_sessions s);
                new = \<lparr>se_id = i, se_ws = ws, se_key = key, se_prefix = prefix, se_verifier = ver, se_created = clk 1,
                       se_last_seen = clk 2, se_idle = clk 3 + 15 * minute, se_absolute = clk 4 + 60 * minute,
                       se_generation = generation, se_revoked = None\<rparr>
            in if count_where (\<lambda>x. of_key ws key x \<and> se_revoked x = None) xs \<ge> 5 then Inl ''console_session_limit''
               else if list_ex (\<lambda>x. se_id x = i \<or> se_prefix x = prefix) xs then Inl ''duplicate key''
               else if \<not> session_times_ok new then Inl ''check violation''
               else Inr (i, audit_session audit ws ''console.session.created'' i ''accepted'' (s\<lparr>sb_sessions := xs @ [new]\<rparr>)))"

definition lookup_console_session :: "string \<Rightarrow> session_db \<Rightarrow> session_lookup option" where
  "lookup_console_session prefix s =
     (if length prefix \<noteq> 16 then None
      else map_option (\<lambda>x. \<lparr>sl_id = se_id x, sl_verifier = se_verifier x\<rparr>) (find (\<lambda>x. se_prefix x = prefix) (sb_sessions s)))"

definition touch_row :: "instant \<Rightarrow> (nat \<Rightarrow> instant) \<Rightarrow> session_row \<Rightarrow> session_row" where
  "touch_row st clk x =
     (if se_last_seen x \<le> st - minute
      then x\<lparr>se_last_seen := clk 0, se_idle := min (clk 1 + 15 * minute) (se_absolute x)\<rparr> else x)"

definition resumable :: "instant \<Rightarrow> int \<Rightarrow> auth_db \<Rightarrow> uuid \<Rightarrow> session_row \<Rightarrow> bool" where
  "resumable st generation a i x \<longleftrightarrow> se_id x = i \<and> se_revoked x = None \<and> key_usable st (se_ws x) (se_key x) a
     \<and> se_idle x > st \<and> se_absolute x > st \<and> se_generation x = generation"

definition resume_console_session ::
    "uuid \<Rightarrow> instant \<Rightarrow> (nat \<Rightarrow> instant) \<Rightarrow> session_db \<Rightarrow> string + ((uuid \<times> uuid \<times> string list) option \<times> session_db)" where
  "resume_console_session i st clk s =
     (case sb_ready s of
        None \<Rightarrow> Inr (None, s)
      | Some generation \<Rightarrow>
          (case find (resumable st generation (sb_auth s) i) (sb_sessions s) of
             None \<Rightarrow> Inr (None, s)
           | Some x \<Rightarrow>
               if \<not> session_times_ok (touch_row st clk x) then Inl ''check violation''
               else Inr (Some (se_key x, se_ws x, map (\<lambda>(_, _, sc). sc)
                      (filter (\<lambda>(w, k, _). w = se_ws x \<and> k = se_key x) (ad_scopes (sb_auth s)))),
                    s\<lparr>sb_sessions := update_where (resumable st generation (sb_auth s) i) (touch_row st clk)
                         (sb_sessions s)\<rparr>)))"

definition revoke_console_session :: "uuid \<Rightarrow> uuid \<Rightarrow> string \<Rightarrow> instant \<Rightarrow> session_db \<Rightarrow> string + (bool \<times> session_db)" where
  "revoke_console_session i audit reason now s =
     (if reason \<notin> {''user_logout'', ''admin_revoke'', ''api_key_revoked'', ''restore_quarantine'', ''workspace_deleting''}
      then Inl ''console_session_invalid''
      else
        let P = (\<lambda>x. se_id x = i \<and> se_revoked x = None)
        in case find P (sb_sessions s) of
             None \<Rightarrow> Inr (False, s)
           | Some x \<Rightarrow>
               Inr (True, audit_session audit (se_ws x)
                 (if reason = ''user_logout'' then ''console.session.logout'' else ''console.session.revoked'') i ''revoked''
                 (s\<lparr>sb_sessions := update_where P (\<lambda>x. x\<lparr>se_revoked := Some (now, reason)\<rparr>) (sb_sessions s)\<rparr>)))"

section \<open>The store\<close>

definition session_create ::
    "uuid option \<Rightarrow> uuid option \<Rightarrow> principal \<Rightarrow> string \<Rightarrow> bytes \<Rightarrow> instant \<Rightarrow> (nat \<Rightarrow> instant) \<Rightarrow> session_db
      \<Rightarrow> session_error + (uuid \<times> session_db)" where
  "session_create newID auditID p prefix ver st clk s =
     (case (newID, auditID) of
        (Some i, Some a) \<Rightarrow>
          (case create_console_session i (pr_workspace p) (pr_api_key p) prefix ver a st clk s of
             Inl m \<Rightarrow> Inl (if m = ''console_session_limit'' then Err_session_limit else Err_session_other)
           | Inr x \<Rightarrow> Inr x)
      | _ \<Rightarrow> Inl Err_session_other)"

definition session_resume ::
    "uuid \<Rightarrow> instant \<Rightarrow> (nat \<Rightarrow> instant) \<Rightarrow> session_db \<Rightarrow> session_error + (principal \<times> session_db)" where
  "session_resume i st clk s =
     (case resume_console_session i st clk s of
        Inl m \<Rightarrow> Inl Err_session_other
      | Inr (None, s') \<Rightarrow> Inl Err_session_other
      | Inr (Some (key, ws, scopes), s') \<Rightarrow>
          Inr (\<lparr>pr_api_key = key, pr_workspace = ws, pr_scopes = set scopes\<rparr>, s'))"

definition session_revoke :: "uuid option \<Rightarrow> uuid \<Rightarrow> instant \<Rightarrow> session_db \<Rightarrow> session_error + session_db" where
  "session_revoke auditID i now s =
     (case auditID of
        None \<Rightarrow> Inl Err_session_other
      | Some a \<Rightarrow>
          (case revoke_console_session i a ''user_logout'' now s of
             Inl m \<Rightarrow> Inl Err_session_other
           | Inr (b, s') \<Rightarrow> Inr s'))"

section \<open>The service\<close>

definition login ::
    "session_service \<Rightarrow> bytes option \<Rightarrow> bytes option \<Rightarrow> uuid option \<Rightarrow> uuid option \<Rightarrow> instant \<Rightarrow> instant
      \<Rightarrow> (nat \<Rightarrow> instant) \<Rightarrow> string \<Rightarrow> session_db \<Rightarrow> session_error + (session \<times> session_db)" where
  "login sv prefixRaw secret newID auditID now st clk apiKey s =
     (case authenticate_token (db_lookup (sb_auth s)) (sc_auth_pepper sv) now (trim_space apiKey) of
        Inl e \<Rightarrow> Inl Err_session_unauthorized
      | Inr p \<Rightarrow>
     (case generate_session_token prefixRaw secret of
        None \<Rightarrow> Inl Err_session_other
      | Some (token, prefix) \<Rightarrow>
     (case session_create newID auditID p prefix (session_verifier (sc_pepper sv) token) st clk s of
        Inl e \<Rightarrow> Inl e
      | Inr (i, s') \<Rightarrow> Inr (\<lparr>sn_id = i, sn_token = token, sn_principal = p\<rparr>, s'))))"

definition authenticate_session ::
    "session_service \<Rightarrow> instant \<Rightarrow> (nat \<Rightarrow> instant) \<Rightarrow> string \<Rightarrow> session_db \<Rightarrow> session_error + (session \<times> session_db)" where
  "authenticate_session sv st clk token s =
     (case parse_session_token token of
        None \<Rightarrow> Inl Err_session_unauthorized
      | Some prefix \<Rightarrow>
          let found = lookup_console_session prefix s;
              candidate = session_verifier (sc_pepper sv) token;
              expected = (case found of None \<Rightarrow> session_verifier (sc_pepper sv) dummy_session_token | Some r \<Rightarrow> sl_verifier r);
              valid = (length expected = 32 \<and> candidate = expected)
          in (case found of
                None \<Rightarrow> Inl Err_session_unauthorized
              | Some r \<Rightarrow>
                  if \<not> valid then Inl Err_session_unauthorized
                  else (case session_resume (sl_id r) st clk s of
                          Inl e \<Rightarrow> Inl Err_session_unauthorized
                        | Inr (p, s') \<Rightarrow> Inr (\<lparr>sn_id = sl_id r, sn_token = token, sn_principal = p\<rparr>, s'))))"

definition logout :: "uuid option \<Rightarrow> instant \<Rightarrow> session \<Rightarrow> session_db \<Rightarrow> session_error + session_db" where
  "logout auditID now x s = session_revoke auditID (sn_id x) now s"

section \<open>Purging\<close>

definition purge_console_sessions ::
    "int \<Rightarrow> instant \<Rightarrow> instant \<Rightarrow> (uuid \<Rightarrow> bool) \<Rightarrow> session_db \<Rightarrow> string + (nat \<times> session_db)" where
  "purge_console_sessions batch st now locked s =
     (if batch < 1 \<or> batch > 1000 then Inl ''console_session_invalid''
      else
        let gone = take (nat batch) (sort_key (\<lambda>x. (min (se_idle x) (se_absolute x), se_id x))
              (filter (\<lambda>x. se_revoked x = None \<and> (se_idle x \<le> st \<or> se_absolute x \<le> st) \<and> \<not> locked (se_id x))
                (sb_sessions s)));
            xs = update_where (\<lambda>x. list_ex (\<lambda>y. se_id y = se_id x) gone) (expire_row now) (sb_sessions s);
            old = take (nat batch - length gone) (sort_key (\<lambda>x. (fst (the (se_revoked x)), se_id x))
              (filter (\<lambda>x. (case se_revoked x of None \<Rightarrow> False | Some (t, r) \<Rightarrow> t < st - 30 * 24 * hour) \<and> \<not> locked (se_id x)) xs))
        in Inr (length gone + length old, s\<lparr>sb_sessions := filter (\<lambda>x. \<not> list_ex (\<lambda>y. se_id y = se_id x) old) xs\<rparr>))"

section \<open>The life of a session\<close>

definition active_of :: "uuid \<Rightarrow> uuid \<Rightarrow> session_row list \<Rightarrow> nat" where
  "active_of ws key xs = count_where (\<lambda>x. of_key ws key x \<and> se_revoked x = None) xs"

definition sessions_inv :: "session_row list \<Rightarrow> bool" where
  "sessions_inv xs \<longleftrightarrow> distinct (map se_id xs) \<and> distinct (map se_prefix xs) \<and> list_all session_times_ok xs
     \<and> (\<forall>ws key. active_of ws key xs \<le> 5)"

text \<open>A transaction on the sessions, or a change of keys, workspaces and the restore state. No creation draws the
  token prefix \<open>p\<close>.\<close>

inductive session_step :: "string \<Rightarrow> session_db \<Rightarrow> session_db \<Rightarrow> bool" for p where
  s_create: "create_console_session i ws key prefix ver audit st clk s = Inr (j, s') \<Longrightarrow> prefix \<noteq> p \<Longrightarrow> session_step p s s'"
| s_resume: "resume_console_session i st clk s = Inr (r, s') \<Longrightarrow> session_step p s s'"
| s_revoke: "revoke_console_session i audit reason now s = Inr (b, s') \<Longrightarrow> session_step p s s'"
| s_purge: "purge_console_sessions n st now lk s = Inr (m, s') \<Longrightarrow> session_step p s s'"
| s_admin: "sb_sessions s' = sb_sessions s \<Longrightarrow> session_step p s s'"

abbreviation session_steps :: "string \<Rightarrow> session_db \<Rightarrow> session_db \<Rightarrow> bool" where
  "session_steps p \<equiv> (session_step p)\<^sup>*\<^sup>*"

text \<open>What every change of a row keeps.\<close>

definition session_kept :: "(session_row \<Rightarrow> session_row) \<Rightarrow> bool" where
  "session_kept f \<longleftrightarrow> (\<forall>x. se_id (f x) = se_id x \<and> se_prefix (f x) = se_prefix x \<and> se_ws (f x) = se_ws x
     \<and> se_key (f x) = se_key x \<and> se_absolute (f x) = se_absolute x \<and> (se_revoked (f x) = None \<longrightarrow> se_revoked x = None))"

lemma session_kept_updates:
  "session_kept (expire_row t)" "session_kept (touch_row st clk)" "session_kept (\<lambda>x. x\<lparr>se_revoked := Some (t, r)\<rparr>)"
  by (simp_all add: session_kept_def expire_row_def touch_row_def)

lemma count_where_update_le: "(\<And>x. Q (f x) \<Longrightarrow> Q x) \<Longrightarrow> count_where Q (update_where P f xs) \<le> count_where Q xs"
  by (induction xs) (auto simp: count_where_def)

lemma sessions_inv_update:
  assumes "sessions_inv xs" and kept: "session_kept f"
    and "\<And>x. x \<in> set xs \<Longrightarrow> P x \<Longrightarrow> session_times_ok x \<Longrightarrow> session_times_ok (f x)"
  shows "sessions_inv (update_where P f xs)"
proof -
  have ids: "map se_id (update_where P f xs) = map se_id xs" "map se_prefix (update_where P f xs) = map se_prefix xs"
    using kept by (auto simp: session_kept_def update_where_def)
  have le: "active_of ws key (update_where P f xs) \<le> active_of ws key xs" for ws key
    unfolding active_of_def using kept by (intro count_where_update_le) (auto simp: session_kept_def of_key_def)
  have "active_of ws key (update_where P f xs) \<le> 5" for ws key
    using le [of ws key] assms(1) by (meson order_trans sessions_inv_def)
  moreover have "list_all session_times_ok (update_where P f xs)"
    using assms(1, 3) by (auto simp: sessions_inv_def list_all_iff update_where_def)
  ultimately show ?thesis using assms(1) by (simp only: sessions_inv_def ids simp_thms)
qed

lemma sessions_inv_filter: "sessions_inv xs \<Longrightarrow> sessions_inv (filter Q xs)"
proof -
  assume inv: "sessions_inv xs"
  have "active_of ws key (filter Q xs) \<le> active_of ws key xs" for ws key
    by (induction xs) (auto simp: active_of_def count_where_def)
  then have "active_of ws key (filter Q xs) \<le> 5" for ws key
    using inv by (meson order_trans sessions_inv_def)
  with inv show ?thesis by (simp add: sessions_inv_def list_all_iff distinct_map_filter)
qed

lemma expire_times: "session_times_ok x \<Longrightarrow> session_times_ok (expire_row t x)"
  by (simp add: session_times_ok_def expire_row_def)

lemma create_session_Inr:
  assumes "create_console_session i ws key prefix ver audit st clk s = Inr (j, s')"
  shows "j = i \<and> sb_ready s' = sb_ready s \<and> length prefix = 16 \<and> key_usable st ws key (sb_auth s)
    \<and> (\<exists>P generation new. sb_ready s = Some generation
        \<and> sb_sessions s' = update_where P (expire_row (clk 0)) (sb_sessions s) @ [new]
        \<and> new = \<lparr>se_id = i, se_ws = ws, se_key = key, se_prefix = prefix, se_verifier = ver, se_created = clk 1,
               se_last_seen = clk 2, se_idle = clk 3 + 15 * minute, se_absolute = clk 4 + 60 * minute,
               se_generation = generation, se_revoked = None\<rparr>
        \<and> session_times_ok new \<and> active_of ws key (update_where P (expire_row (clk 0)) (sb_sessions s)) < 5
        \<and> (\<forall>x\<in>set (sb_sessions s). se_id x \<noteq> i \<and> se_prefix x \<noteq> prefix))"
proof -
  from assms obtain generation where g: "sb_ready s = Some generation" by (auto simp: create_console_session_def split: if_splits option.splits)
  let ?P = "\<lambda>x. of_key ws key x \<and> se_revoked x = None
                        \<and> (se_idle x \<le> st \<or> se_absolute x \<le> st \<or> se_generation x \<noteq> generation)"
  let ?xs = "update_where ?P (expire_row (clk 0)) (sb_sessions s)"
  let ?new = "\<lparr>se_id = i, se_ws = ws, se_key = key, se_prefix = prefix, se_verifier = ver, se_created = clk 1,
               se_last_seen = clk 2, se_idle = clk 3 + 15 * minute, se_absolute = clk 4 + 60 * minute,
               se_generation = generation, se_revoked = None\<rparr>"
  have ids: "\<forall>x\<in>set (sb_sessions s). se_id x \<noteq> i \<and> se_prefix x \<noteq> prefix"
    if "\<not> list_ex (\<lambda>x. se_id x = i \<or> se_prefix x = prefix) ?xs"
  proof
    fix x assume "x \<in> set (sb_sessions s)"
    then have "(if ?P x then expire_row (clk 0) x else x) \<in> set ?xs" by (simp add: update_where_def)
    with that show "se_id x \<noteq> i \<and> se_prefix x \<noteq> prefix"
      by (auto simp: list_ex_iff expire_row_def split: if_splits)
  qed
  note c = assms [unfolded create_console_session_def Let_def g option.case]
  have s': "sb_sessions s' = ?xs @ [?new]" "j = i \<and> sb_ready s' = sb_ready s"
      "length prefix = 16" "key_usable st ws key (sb_auth s)" "session_times_ok ?new"
      "active_of ws key ?xs < 5" "\<not> list_ex (\<lambda>x. se_id x = i \<or> se_prefix x = prefix) ?xs"
    using c by (simp_all add: active_of_def not_le audit_session_def split: if_split_asm) auto
  show ?thesis
    using s' ids [OF s'(7)] g by blast
qed

lemma create_session_auth:
  assumes "create_console_session i ws key prefix ver audit st clk s = Inr (j, s')"
  shows "\<exists>as. sb_auth s' = (sb_auth s)\<lparr>ad_audits := as\<rparr>"
proof -
  obtain xs new where "s' = audit_session audit ws ''console.session.created'' i ''accepted'' (s\<lparr>sb_sessions := xs @ [new]\<rparr>)"
    using assms by (auto simp: create_console_session_def Let_def split: if_split_asm option.split_asm)
  then show ?thesis by (auto simp: audit_session_def)
qed

lemma create_session_inv:
  assumes "create_console_session i ws key prefix ver audit st clk s = Inr (j, s')" and inv: "sessions_inv (sb_sessions s)"
  shows "sessions_inv (sb_sessions s')"
proof -
  from create_session_Inr [OF assms(1)] obtain P new where
    s': "sb_sessions s' = update_where P (expire_row (clk 0)) (sb_sessions s) @ [new]"
    and new: "se_id new = i" "se_prefix new = prefix" "se_ws new = ws" "se_key new = key" "session_times_ok new"
    and few: "active_of ws key (update_where P (expire_row (clk 0)) (sb_sessions s)) < 5"
    and fresh: "\<forall>x\<in>set (sb_sessions s). se_id x \<noteq> i \<and> se_prefix x \<noteq> prefix"
    by auto
  let ?xs = "update_where P (expire_row (clk 0)) (sb_sessions s)"
  have inv1: "sessions_inv ?xs"
    using sessions_inv_update [OF inv session_kept_updates(1)] expire_times by blast
  have ids: "map se_id ?xs = map se_id (sb_sessions s)" "map se_prefix ?xs = map se_prefix (sb_sessions s)"
    by (simp_all add: update_where_def expire_row_def)
  have notin: "i \<notin> set (map se_id ?xs)" "prefix \<notin> set (map se_prefix ?xs)" unfolding ids using fresh by auto
  have "active_of w k (?xs @ [new]) \<le> 5" for w k
  proof (cases "w = ws \<and> k = key")
    case True
    then show ?thesis using few by (simp add: active_of_def count_where_def)
  next
    case False
    then have "active_of w k (?xs @ [new]) = active_of w k ?xs"
      by (auto simp: active_of_def count_where_def of_key_def new)
    then show ?thesis using inv1 by (simp add: sessions_inv_def)
  qed
  then show ?thesis using inv1 notin new by (simp add: s' sessions_inv_def del: set_map)
qed

lemma update_where_missing: "find P xs = None \<Longrightarrow> update_where P f xs = xs"
  by (auto simp: update_where_def find_None_iff intro: map_idI)

lemma revoke_session_Inr:
  assumes "revoke_console_session i audit reason now s = Inr (b, s')"
  shows "sb_sessions s' = update_where (\<lambda>x. se_id x = i \<and> se_revoked x = None)
    (\<lambda>x. x\<lparr>se_revoked := Some (now, reason)\<rparr>) (sb_sessions s)"
  using assms
  by (auto simp: revoke_console_session_def audit_session_def Let_def update_where_missing split: if_split_asm option.split_asm)

lemma revoke_session_shape:
  "revoke_console_session i audit reason now s = Inr (b, s')
    \<Longrightarrow> \<exists>P. sb_sessions s' = update_where P (\<lambda>x. x\<lparr>se_revoked := Some (now, reason)\<rparr>) (sb_sessions s)"
  using revoke_session_Inr by blast

lemma key_usable_audits [simp]: "key_usable st ws key (a\<lparr>ad_audits := as\<rparr>) = key_usable st ws key a"
  by (simp add: key_usable_def)

lemma purge_sessions_shape:
  assumes "purge_console_sessions n st now lk s = Inr (m, s')"
  shows "sb_auth s' = sb_auth s \<and> (\<exists>P Q. sb_sessions s' = filter Q (update_where P (expire_row now) (sb_sessions s)))"
proof (cases "n < 1 \<or> n > 1000")
  case True
  then show ?thesis using assms by (simp add: purge_console_sessions_def)
next
  case False
  note p = assms [unfolded purge_console_sessions_def Let_def if_not_P [OF False] sum.inject prod.inject]
  show ?thesis using p [THEN conjunct2, symmetric] by (simp, blast)
qed

lemma session_step_inv: "session_step p s s' \<Longrightarrow> sessions_inv (sb_sessions s) \<Longrightarrow> sessions_inv (sb_sessions s')"
proof (induction rule: session_step.induct)
  case (s_create i ws key prefix ver audit st clk s j s')
  then show ?case using create_session_inv by blast
next
  case (s_resume i st clk s r s')
  show ?case
  proof (cases "sb_ready s")
    case None
    then show ?thesis using s_resume by (auto simp: resume_console_session_def)
  next
    case (Some g)
    show ?thesis
    proof (cases "find (resumable st g (sb_auth s) i) (sb_sessions s)")
      case None
      then show ?thesis using s_resume Some by (auto simp: resume_console_session_def)
    next
      case found: (Some x)
      then have x: "x \<in> set (sb_sessions s)" "resumable st g (sb_auth s) i x" by (auto simp: find_Some_iff)
      have only: "y = x" if "y \<in> set (sb_sessions s)" "resumable st g (sb_auth s) i y" for y
      proof -
        have "se_id y = se_id x" using that(2) x(2) by (simp add: resumable_def)
        then show ?thesis using s_resume(2) that(1) x(1) by (auto simp: sessions_inv_def distinct_map inj_on_def)
      qed
      have s': "sb_sessions s' = update_where (resumable st g (sb_auth s) i) (touch_row st clk) (sb_sessions s)"
        and ok: "session_times_ok (touch_row st clk x)"
        using s_resume(1) Some found by (auto simp: resume_console_session_def split: if_splits)
      show ?thesis unfolding s'
        by (rule sessions_inv_update [OF s_resume(2) session_kept_updates(2)]) (use only ok in blast)
    qed
  qed
next
  case (s_revoke i audit reason now s b s')
  obtain P where s': "sb_sessions s' = update_where P (\<lambda>x. x\<lparr>se_revoked := Some (now, reason)\<rparr>) (sb_sessions s)"
    using revoke_session_shape [OF s_revoke(1)] by blast
  show ?case unfolding s'
    by (rule sessions_inv_update [OF s_revoke(2) session_kept_updates(3)]) (simp add: session_times_ok_def)
next
  case (s_purge n st now lk s m s')
  obtain P Q where s': "sb_sessions s' = filter Q (update_where P (expire_row now) (sb_sessions s))"
    using purge_sessions_shape [OF s_purge(1)] by blast
  show ?case unfolding s'
    by (rule sessions_inv_filter, rule sessions_inv_update [OF s_purge(2) session_kept_updates(1)]) (rule expire_times)
next
  case (s_admin s' s)
  then show ?case by simp
qed

lemma session_steps_inv: "session_steps p s s' \<Longrightarrow> sessions_inv (sb_sessions s) \<Longrightarrow> sessions_inv (sb_sessions s')"
  by (induction rule: rtranclp_induct) (auto intro: session_step_inv)

lemma find_append_new: "(\<And>x. x \<in> set xs \<Longrightarrow> \<not> P x) \<Longrightarrow> P y \<Longrightarrow> find P (xs @ [y]) = Some y"
  by (induction xs) auto

lemma update_only_last:
  "(\<And>x. x \<in> set xs \<Longrightarrow> \<not> P x) \<Longrightarrow> update_where P f (xs @ [y]) = xs @ [if P y then f y else y]"
  by (induction xs) (auto simp: update_where_def)

lemma parse_generated:
  assumes "generate_session_token (Some pre) (Some sec) = Some (token, prefix)" and "length pre = 8" and "length sec = 32"
  shows "parse_session_token token = Some prefix \<and> prefix = hex_encode pre"
proof -
  have t: "token = ''wds'' @ CHR ''_'' # prefix @ CHR ''_'' # b64_encode sec" "prefix = hex_encode pre"
    using assms(1) by (auto simp: generate_session_token_def Let_def)
  have "CHR ''_'' \<notin> set prefix" using hex_encode_chars [of "CHR ''_''" pre] by (auto simp: t(2))
  then have "split_n 3 (CHR ''_'') token = [''wds'', prefix, b64_encode sec]"
    using split_n_sep [of "CHR ''_''" "''wds''" 1 "prefix @ CHR ''_'' # b64_encode sec"]
      split_n_sep [of "CHR ''_''" prefix 0 "b64_encode sec"]
    by (simp add: t(1) numeral_eq_Suc del: split_n.simps(3))
  then show ?thesis
    using assms(2,3) hex_encode_valid [of pre] by (simp add: parse_session_token_def t length_b64_encode)
qed

definition session_dead :: "string \<Rightarrow> session_db \<Rightarrow> bool" where
  "session_dead p s \<longleftrightarrow> (\<forall>x\<in>set (sb_sessions s). se_prefix x = p \<longrightarrow> se_revoked x \<noteq> None)"

lemma session_dead_update:
  "session_kept f \<Longrightarrow> \<forall>x\<in>set xs. se_prefix x = p \<longrightarrow> se_revoked x \<noteq> None
    \<Longrightarrow> \<forall>x\<in>set (update_where P f xs). se_prefix x = p \<longrightarrow> se_revoked x \<noteq> None"
  unfolding session_kept_def update_where_def
  by (smt (verit) imageE list.set_map)

lemma session_dead_step: "session_step p s s' \<Longrightarrow> session_dead p s \<Longrightarrow> session_dead p s'"
proof (induction rule: session_step.induct)
  case (s_create i ws key prefix ver audit st clk s j s')
  from create_session_Inr [OF s_create(1)] obtain P new where
    s': "sb_sessions s' = update_where P (expire_row (clk 0)) (sb_sessions s) @ [new]" and new: "se_prefix new = prefix"
    by auto
  show ?case
    using session_dead_update [OF session_kept_updates(1)] s_create(2,3) new by (auto simp: session_dead_def s')
next
  case (s_resume i st clk s r s')
  have "s' = s \<or> (\<exists>P. sb_sessions s' = update_where P (touch_row st clk) (sb_sessions s))"
    using s_resume(1) by (auto simp: resume_console_session_def split: option.splits if_splits)
  then show ?case
    using session_dead_update [OF session_kept_updates(2)] s_resume(2) by (auto simp: session_dead_def)
next
  case (s_revoke i audit reason now s b s')
  then have "\<exists>P. sb_sessions s' = update_where P (\<lambda>x. x\<lparr>se_revoked := Some (now, reason)\<rparr>) (sb_sessions s)"
    using revoke_session_shape by blast
  then show ?case
    using session_dead_update [OF session_kept_updates(3)] s_revoke(2) by (auto simp: session_dead_def)
next
  case (s_purge n st now lk s m s')
  obtain P Q where s': "sb_sessions s' = filter Q (update_where P (expire_row now) (sb_sessions s))"
    using purge_sessions_shape [OF s_purge(1)] by blast
  show ?case
    using session_dead_update [OF session_kept_updates(1)] s_purge(2) by (auto simp: session_dead_def s')
next
  case (s_admin s' s)
  then show ?case by (simp add: session_dead_def)
qed

lemma session_dead_steps: "session_steps p s s' \<Longrightarrow> session_dead p s \<Longrightarrow> session_dead p s'"
  by (induction rule: rtranclp_induct) (auto intro: session_dead_step)

lemma session_dead_refused:
  assumes "session_dead p s" and inv: "sessions_inv (sb_sessions s)" and "parse_session_token t = Some p"
  shows "authenticate_session sv st clk t s = Inl Err_session_unauthorized"
proof (cases "find (\<lambda>x. se_prefix x = p) (sb_sessions s)")
  case None
  then show ?thesis using assms(3) by (simp add: authenticate_session_def lookup_console_session_def)
next
  case (Some y)
  then have y: "y \<in> set (sb_sessions s)" "se_prefix y = p" by (auto simp: find_Some_iff)
  have none: "find (resumable st g (sb_auth s) (se_id y)) (sb_sessions s) = None" for g
  proof -
    have "\<not> resumable st g (sb_auth s) (se_id y) x" if "x \<in> set (sb_sessions s)" for x
    proof
      assume r: "resumable st g (sb_auth s) (se_id y) x"
      then have "x = y" using inv that y(1) by (auto simp: resumable_def sessions_inv_def distinct_map inj_on_def)
      then show False using r y assms(1) by (auto simp: resumable_def session_dead_def)
    qed
    then show ?thesis by (auto simp: find_None_iff)
  qed
  then have "session_resume (se_id y) st clk s = Inl Err_session_other"
    by (simp add: session_resume_def resume_console_session_def split: option.split)
  then show ?thesis using assms(3) Some
    by (simp add: authenticate_session_def lookup_console_session_def Let_def)
qed

lemma authenticated_row:
  assumes "authenticate_session sv st clk t s = Inr (x, s')" and "parse_session_token t = Some p"
  shows "\<exists>y\<in>set (sb_sessions s). se_prefix y = p \<and> se_id y = sn_id x"
    and "\<exists>P. sb_sessions s' = update_where P (touch_row st clk) (sb_sessions s)"
  using assms
  by (auto simp: authenticate_session_def lookup_console_session_def session_resume_def resume_console_session_def Let_def
      find_Some_iff split: if_splits option.splits sum.splits)

lemma touch_row_fields [simp]:
  "se_id (touch_row st clk x) = se_id x" "se_ws (touch_row st clk x) = se_ws x" "se_key (touch_row st clk x) = se_key x"
  by (simp_all add: touch_row_def)

lemma authenticate_key_scopes:
  "authenticate_key a prefix = Some r \<Longrightarrow> ar_scopes r = map (\<lambda>(_, _, sc). sc)
    (filter (\<lambda>(w, k, _). w = ar_workspace r \<and> k = ar_api_key r) (ad_scopes a))"
  by (auto simp: authenticate_key_def split: if_splits option.splits)

lemma authenticate_principal:
  assumes "authenticate_token (db_lookup a) pepper now token = Inr p"
  shows "pr_scopes p = set (map (\<lambda>(_, _, sc). sc)
    (filter (\<lambda>(w, k, _). w = pr_workspace p \<and> k = pr_api_key p) (ad_scopes a)))"
proof -
  obtain prefix r where "authenticate_key a prefix = Some r"
    "p = \<lparr>pr_api_key = ar_api_key r, pr_workspace = ar_workspace r, pr_scopes = set (ar_scopes r)\<rparr>"
    using assms by (auto simp: authenticate_token_def db_lookup_def Let_def split: option.splits if_splits)
  then show ?thesis using authenticate_key_scopes [of a prefix r] by (simp del: set_map)
qed

lemma login_Inr:
  assumes "login sv pre sec newID auditID now st clk apiKey s = Inr (x, s')"
  obtains i audit prefix where "newID = Some i" "generate_session_token pre sec = Some (sn_token x, prefix)"
    "authenticate_token (db_lookup (sb_auth s)) (sc_auth_pepper sv) now (trim_space apiKey) = Inr (sn_principal x)"
    "create_console_session i (pr_workspace (sn_principal x)) (pr_api_key (sn_principal x)) prefix
       (session_verifier (sc_pepper sv) (sn_token x)) audit st clk s = Inr (sn_id x, s')"
  using assms
  by (auto simp: login_def session_create_def split: option.splits sum.splits prod.splits)

section \<open>Properties\<close>

text \<open>C27. From an empty table no sequence of logins, requests, logouts, revocations and purges, whatever the clocks and
  the administration of keys do, gives an API key more than five active sessions, two sessions one token prefix, or
  a session whose idle or absolute limit is out of order.\<close>

theorem session_limit_kept:
  assumes "session_steps [] s s'" and "sb_sessions s = []"
  shows "active_of ws key (sb_sessions s') \<le> 5 \<and> distinct (map se_prefix (sb_sessions s'))
    \<and> list_all session_times_ok (sb_sessions s')"
proof -
  have "sessions_inv (sb_sessions s)" using assms(2) by (simp add: sessions_inv_def active_of_def count_where_def)
  from session_steps_inv [OF assms(1) this] show ?thesis by (simp add: sessions_inv_def)
qed

text \<open>C28. A login is usable at once: while the new session is neither idle nor past its absolute limit, the key is usable
  and the clock does not run backwards, the token returned by \<open>Login\<close> authenticates as the same session, with the key,
  the workspace and exactly the scopes the API key was admitted with.\<close>

theorem login_then_authenticate:
  assumes "login sv (Some pre) (Some sec) newID auditID now st clk apiKey s = Inr (x, s')"
    and "length pre = 8" and "length sec = 32"
    and "key_usable st' (pr_workspace (sn_principal x)) (pr_api_key (sn_principal x)) (sb_auth s)"
    and "st' < clk 3 + 15 * minute" and "st' \<le> clk' 0" and "clk' 0 \<le> clk' 1" and "clk' 0 < clk 4 + 60 * minute"
  shows "\<exists>s''. authenticate_session sv st' clk' (sn_token x) s' = Inr (x, s'')"
proof -
  obtain prefix i audit where
    l: "generate_session_token (Some pre) (Some sec) = Some (sn_token x, prefix)"
    "authenticate_token (db_lookup (sb_auth s)) (sc_auth_pepper sv) now (trim_space apiKey) = Inr (sn_principal x)"
    "create_console_session i (pr_workspace (sn_principal x)) (pr_api_key (sn_principal x)) prefix
       (session_verifier (sc_pepper sv) (sn_token x)) audit st clk s = Inr (sn_id x, s')"
    by (rule login_Inr [OF assms(1)]) (rule that; assumption)
  obtain as where a: "sb_auth s' = (sb_auth s)\<lparr>ad_audits := as\<rparr>" using create_session_auth [OF l(3)] by (elim exE) (rule that)
  note cs = create_session_Inr [OF l(3)]
  have i: "sn_id x = i" and r: "sb_ready s' = sb_ready s" using cs by simp_all
  obtain P generation new where
    c: "sb_ready s = Some generation" "length prefix = 16"
    "sb_sessions s' = update_where P (expire_row (clk 0)) (sb_sessions s) @ [new]"
    and new: "new = \<lparr>se_id = i, se_ws = pr_workspace (sn_principal x), se_key = pr_api_key (sn_principal x),
               se_prefix = prefix, se_verifier = session_verifier (sc_pepper sv) (sn_token x), se_created = clk 1,
               se_last_seen = clk 2, se_idle = clk 3 + 15 * minute, se_absolute = clk 4 + 60 * minute,
               se_generation = generation, se_revoked = None\<rparr>" "session_times_ok new"
    and fresh: "\<forall>y\<in>set (sb_sessions s). se_id y \<noteq> i \<and> se_prefix y \<noteq> prefix"
    using cs by (elim conjE exE) (rule that; assumption)
  have old: "\<forall>y\<in>set (update_where P (expire_row (clk 0)) (sb_sessions s)). se_id y \<noteq> i \<and> se_prefix y \<noteq> prefix"
    using fresh by (auto simp: update_where_def expire_row_def)
  have parse: "parse_session_token (sn_token x) = Some prefix" using parse_generated [OF l(1) assms(2,3)] by simp
  have lookup: "lookup_console_session prefix s' = Some \<lparr>sl_id = i, sl_verifier = se_verifier new\<rparr>"
    using find_append_new [of "update_where P (expire_row (clk 0)) (sb_sessions s)" "\<lambda>y. se_prefix y = prefix" new] old
    by (simp add: lookup_console_session_def c new(1))
  have res: "resumable st' generation (sb_auth s') i new"
    using assms(4-8) by (simp add: resumable_def new(1) a)
  have found: "find (resumable st' generation (sb_auth s') i) (sb_sessions s') = Some new"
    unfolding c(3) using old res by (intro find_append_new) (auto simp: resumable_def)
  have times: "session_times_ok (touch_row st' clk' new)"
    using new(2) assms(5-8) by (auto simp: session_times_ok_def touch_row_def new(1) duration_defs)
  obtain s'' where "session_resume i st' clk' s' = Inr (\<lparr>pr_api_key = pr_api_key (sn_principal x),
      pr_workspace = pr_workspace (sn_principal x), pr_scopes = pr_scopes (sn_principal x)\<rparr>, s'')"
    using found times authenticate_principal [OF l(2)]
    by (simp add: session_resume_def resume_console_session_def a r c(1) new(1))
  then have "session_resume i st' clk' s' = Inr (sn_principal x, s'')" by simp
  moreover have "length (session_verifier (sc_pepper sv) (sn_token x)) = 32"
    by (simp add: session_verifier_def)
  ultimately have "authenticate_session sv st' clk' (sn_token x) s' = Inr (x, s'')"
    using i by (simp add: authenticate_session_def parse lookup new(1) Let_def)
  then show ?thesis by blast
qed

text \<open>C29. A logout is final: after it no later sequence of logins, requests, purges and administration makes the token
  authenticate again, provided no later login draws the same 64-bit token prefix.\<close>

theorem logged_out_for_good:
  assumes "sessions_inv (sb_sessions s)" and "authenticate_session sv st clk t s = Inr (x, s1)"
    and "logout (Some a) now x s1 = Inr s2" and "parse_session_token t = Some p" and "session_steps p s2 s3"
  shows "authenticate_session sv st' clk' t s3 = Inl Err_session_unauthorized"
proof -
  obtain y where y: "y \<in> set (sb_sessions s)" "se_prefix y = p" "se_id y = sn_id x"
    using authenticated_row(1) [OF assms(2,4)] by blast
  obtain P where s1: "sb_sessions s1 = update_where P (touch_row st clk) (sb_sessions s)"
    using authenticated_row(2) [OF assms(2,4)] by blast
  have step1: "session_step [] s s1"
  proof -
    obtain i r where "resume_console_session i st clk s = Inr (r, s1)"
      using assms(2) by (auto simp: authenticate_session_def session_resume_def Let_def split: option.splits if_splits sum.splits)
    then show ?thesis by (rule s_resume)
  qed
  obtain b where rv: "revoke_console_session (sn_id x) a ''user_logout'' now s1 = Inr (b, s2)"
    using assms(3) by (auto simp: logout_def session_revoke_def split: sum.splits)
  have inv1: "sessions_inv (sb_sessions s1)" by (rule session_step_inv [OF step1 assms(1)])
  have inv2: "sessions_inv (sb_sessions s2)" by (rule session_step_inv [OF s_revoke [OF rv] inv1])
  have inv3: "sessions_inv (sb_sessions s3)" by (rule session_steps_inv [OF assms(5) inv2])
  have "se_revoked z \<noteq> None" if "z \<in> set (sb_sessions s2)" "se_prefix z = p" for z
  proof -
    obtain w where w: "w \<in> set (sb_sessions s1)" "se_prefix w = p"
      "z = (if se_id w = sn_id x \<and> se_revoked w = None then w\<lparr>se_revoked := Some (now, ''user_logout'')\<rparr> else w)"
    proof -
      have "sb_sessions s2 = map (\<lambda>w. if se_id w = sn_id x \<and> se_revoked w = None
          then w\<lparr>se_revoked := Some (now, ''user_logout'')\<rparr> else w) (sb_sessions s1)"
        using revoke_session_Inr [OF rv] by (simp only: update_where_def)
      then show thesis using that(1) \<open>z \<in> set (sb_sessions s2)\<close> \<open>se_prefix z = p\<close>
        by (auto split: if_split_asm)
    qed
    obtain v where v: "v \<in> set (sb_sessions s)" "se_prefix v = p" "se_id w = se_id v"
      using w(1,2) by (auto simp: s1 update_where_def touch_row_def split: if_splits)
    have "v = y" using v(1,2) y(1,2) assms(1) by (auto simp: sessions_inv_def distinct_map inj_on_def)
    then show ?thesis using w(3) v(3) y(3) by auto
  qed
  then have "session_dead p s2" by (simp add: session_dead_def)
  then show ?thesis using session_dead_refused [OF session_dead_steps [OF assms(5)] inv3 assms(4)] by simp
qed

section \<open>A session\<close>

definition demo_api_key :: string where
  "demo_api_key = ''wde_test_0123456789abcdef_AAAAAAAAAAAAAAAAAAAAAAAAAAAAAAAAAAAAAAAAAAA''"

definition demo_session_db :: session_db where
  "demo_session_db = \<lparr>sb_auth = \<lparr>ad_workspaces = [\<lparr>aw_id = 1, aw_name = ''ws'', aw_status = ''active''\<rparr>],
     ad_keys = [\<lparr>ak_id = 2, ak_workspace = 1, ak_prefix = ''0123456789abcdef'', ak_verifier = verifier 5 demo_api_key,
       ak_status = ''active'', ak_expires = None, ak_revoked = None\<rparr>],
     ad_scopes = [(1, 2, ''deliveries:read'')], ad_audits = []\<rparr>, sb_sessions = [], sb_ready = Some 0\<rparr>"

definition demo_sessions :: session_service where
  "demo_sessions = \<lparr>sc_pepper = 7, sc_csrf_pepper = 8, sc_auth_pepper = 5\<rparr>"

definition demo_session_prefix :: string where
  "demo_session_prefix = hex_encode ''01234567''"

definition demo_session_token :: string where
  "demo_session_token = ''wds_'' @ demo_session_prefix @ ''_'' @ b64_encode (replicate 32 CHR ''s'')"

lemma demo_generate:
  "generate_session_token (Some ''01234567'') (Some (replicate 32 CHR ''s'')) = Some (demo_session_token, demo_session_prefix)"
  by (simp add: demo_session_token_def generate_session_token_def demo_session_prefix_def Let_def)

lemma hex_encode_lower: "list_all (\<lambda>c. is_digit c \<or> 97 \<le> byte_val c \<and> byte_val c \<le> 102) (hex_encode bs)"
proof -
  have lower: "is_digit (hex_char n) \<or> 97 \<le> byte_val (hex_char n) \<and> byte_val (hex_char n) \<le> 102" if "n < 16" for n
    using that by (auto simp: hex_char_def is_digit_def byte_of_eq)
  have "byte_val b div 16 < 16" for b by (rule less_mult_imp_div_less) simp
  then show ?thesis using lower by (auto simp: list_all_iff hex_encode_def)
qed

lemma demo_session_prefix_ok: "length demo_session_prefix = 16" "demo_session_prefix \<noteq> []"
  "list_all (\<lambda>c. is_digit c \<or> 97 \<le> byte_val c \<and> byte_val c \<le> 102) demo_session_prefix"
proof -
  show l: "length demo_session_prefix = 16" by (simp add: demo_session_prefix_def)
  then show "demo_session_prefix \<noteq> []" by auto
  show "list_all (\<lambda>c. is_digit c \<or> 97 \<le> byte_val c \<and> byte_val c \<le> 102) demo_session_prefix"
    unfolding demo_session_prefix_def by (rule hex_encode_lower)
qed

lemma demo_key_prefix: "token_prefix demo_api_key = Some ''0123456789abcdef''"
  unfolding demo_api_key_def by code_simp

lemma demo_key_trimmed: "trim_space demo_api_key = demo_api_key"
  by (rule trim_space_plain) (simp_all add: demo_api_key_def plain_char_def)

definition demo_principal :: principal where
  "demo_principal = \<lparr>pr_api_key = 2, pr_workspace = 1, pr_scopes = {''deliveries:read''}\<rparr>"

lemma demo_session_admitted:
  "authenticate_token (db_lookup (sb_auth demo_session_db)) (sc_auth_pepper demo_sessions) now (trim_space demo_api_key)
    = Inr demo_principal"
proof -
  have k: "authenticate_key (sb_auth demo_session_db) ''0123456789abcdef'' = Some \<lparr>ar_api_key = 2, ar_workspace = 1,
      ar_verifier = verifier 5 demo_api_key, ar_status = ''active'', ar_workspace_status = ''active'', ar_expires = None,
      ar_scopes = [''deliveries:read'']\<rparr>"
    by (simp add: authenticate_key_def demo_session_db_def)
  show ?thesis using authenticate_db [OF demo_key_prefix(1) k, of 5]
    by (simp add: demo_key_prefix demo_key_trimmed demo_sessions_def demo_principal_def)
qed

definition demo_session_clock :: "nat \<Rightarrow> instant" where "demo_session_clock n = 0"

definition demo_session_row :: session_row where
  "demo_session_row = \<lparr>se_id = 9, se_ws = 1, se_key = 2, se_prefix = demo_session_prefix,
     se_verifier = session_verifier 7 demo_session_token, se_created = 0, se_last_seen = 0, se_idle = 15 * minute,
     se_absolute = 60 * minute, se_generation = 0, se_revoked = None\<rparr>"

definition demo_session :: session where
  "demo_session = \<lparr>sn_id = 9, sn_token = demo_session_token, sn_principal = demo_principal\<rparr>"

definition demo_logged_in :: session_db where
  "demo_logged_in = audit_session 10 1 ''console.session.created'' 9 ''accepted''
     (demo_session_db\<lparr>sb_sessions := [demo_session_row]\<rparr>)"

lemma demo_create:
  "create_console_session 9 1 2 demo_session_prefix (session_verifier 7 demo_session_token) 10 0 demo_session_clock
     demo_session_db = Inr (9, demo_logged_in)"
proof -
  have len: "length (session_verifier 7 demo_session_token) = 32" by (simp add: session_verifier_def)
  have g: "sb_ready demo_session_db = Some 0" "sb_sessions demo_session_db = []"
    "key_usable 0 1 2 (sb_auth demo_session_db)" by (simp_all add: demo_session_db_def key_usable_def)
  show ?thesis
    unfolding create_console_session_def g Let_def len demo_session_prefix_ok
    by (simp add: g count_where_def update_where_def session_times_ok_def duration_defs demo_logged_in_def
        demo_session_row_def demo_session_clock_def
        demo_session_prefix_ok(3) [unfolded list_all_iff] list_all_iff)
qed

lemma demo_login:
  "login demo_sessions (Some ''01234567'') (Some (replicate 32 CHR ''s'')) (Some 9) (Some 10) 0 0 demo_session_clock
     demo_api_key demo_session_db = Inr (demo_session, demo_logged_in)"
proof -
  have p: "pr_workspace demo_principal = 1" "pr_api_key demo_principal = 2" "sc_pepper demo_sessions = 7"
    by (simp_all add: demo_principal_def demo_sessions_def)
  show ?thesis
    unfolding login_def demo_session_admitted demo_generate session_create_def
    by (simp only: sum.case option.case prod.case p demo_create demo_session_def)
qed

lemma session_limit_kept_witness: "active_of 1 2 (sb_sessions demo_logged_in) \<le> 5"
proof -
  have step: "session_step [] demo_session_db demo_logged_in" by (rule s_create [OF demo_create demo_session_prefix_ok(2)])
  show ?thesis using session_limit_kept [OF r_into_rtranclp [of "session_step []", OF step], of 1 2] by (simp add: demo_session_db_def)
qed

lemma demo_resume_clock:
  "key_usable 60000000000 (pr_workspace (sn_principal demo_session)) (pr_api_key (sn_principal demo_session))
     (sb_auth demo_session_db)" "(60000000000 :: instant) < demo_session_clock 3 + 15 * minute"
  "60000000001 < demo_session_clock 4 + 60 * minute"
  by (simp_all add: demo_session_db_def key_usable_def demo_session_def demo_principal_def demo_session_clock_def duration_defs)

lemma login_then_authenticate_witness:
  "\<exists>s''. authenticate_session demo_sessions 60000000000 (\<lambda>_. 60000000001) demo_session_token demo_logged_in
      = Inr (demo_session, s'')"
  using login_then_authenticate [OF demo_login _ _ demo_resume_clock(1,2), of "\<lambda>_. 60000000001"] demo_resume_clock(3)
  by (simp add: demo_session_def)


lemma demo_parse: "parse_session_token demo_session_token = Some demo_session_prefix"
  using parse_generated [OF demo_generate] by simp

lemma demo_authenticated:
  "authenticate_session demo_sessions 0 demo_session_clock demo_session_token demo_logged_in = Inr (demo_session, demo_logged_in)"
proof -
  have f: "sb_sessions demo_logged_in = [demo_session_row]" "sb_ready demo_logged_in = Some 0"
    by (simp_all add: demo_logged_in_def audit_session_def demo_session_db_def)
  have k: "key_usable 0 1 2 (sb_auth demo_logged_in)"
    "ad_scopes (sb_auth demo_logged_in) = [(1, 2, ''deliveries:read'')]"
    by (simp_all add: demo_session_db_def demo_logged_in_def audit_session_def key_usable_def)
  have row: "se_id demo_session_row = 9" "se_prefix demo_session_row = demo_session_prefix" "se_ws demo_session_row = 1"
    "se_key demo_session_row = 2" "se_verifier demo_session_row = session_verifier 7 demo_session_token"
    "resumable 0 0 (sb_auth demo_logged_in) 9 demo_session_row" "touch_row 0 demo_session_clock demo_session_row = demo_session_row"
    "session_times_ok demo_session_row"
    using k by (simp_all add: demo_session_row_def resumable_def touch_row_def session_times_ok_def duration_defs)
  have same: "demo_logged_in\<lparr>sb_sessions := [demo_session_row]\<rparr> = demo_logged_in" by (simp add: demo_logged_in_def audit_session_def)
  have "session_resume 9 0 demo_session_clock demo_logged_in = Inr (demo_principal, demo_logged_in)"
    by (simp add: session_resume_def resume_console_session_def f k row same update_where_def demo_principal_def)
  moreover have "lookup_console_session demo_session_prefix demo_logged_in
      = Some \<lparr>sl_id = 9, sl_verifier = session_verifier 7 demo_session_token\<rparr>"
    by (simp add: lookup_console_session_def f row demo_session_prefix_ok)
  moreover have "length (session_verifier 7 demo_session_token) = 32" "sc_pepper demo_sessions = 7"
    by (simp_all add: session_verifier_def demo_sessions_def)
  ultimately show ?thesis by (simp add: authenticate_session_def demo_parse demo_session_def Let_def)
qed

lemma demo_sessions_inv: "sessions_inv (sb_sessions demo_logged_in)"
proof -
  have "session_step [] demo_session_db demo_logged_in" by (rule s_create [OF demo_create demo_session_prefix_ok(2)])
  moreover have "sessions_inv (sb_sessions demo_session_db)"
    by (simp add: demo_session_db_def sessions_inv_def active_of_def count_where_def)
  ultimately show ?thesis by (rule session_step_inv)
qed

lemma logged_out_for_good_witness:
  "\<exists>s2. logout (Some 11) 5 demo_session demo_logged_in = Inr s2
     \<and> authenticate_session demo_sessions 6 demo_session_clock demo_session_token s2 = Inl Err_session_unauthorized"
proof -
  have "\<exists>b s2. revoke_console_session 9 11 ''user_logout'' 5 demo_logged_in = Inr (b, s2)"
    by (cases "find (\<lambda>x. se_id x = 9 \<and> se_revoked x = None) (sb_sessions demo_logged_in)")
       (auto simp: revoke_console_session_def Let_def)
  then obtain b s2 where "revoke_console_session 9 11 ''user_logout'' 5 demo_logged_in = Inr (b, s2)" by blast
  then have out: "logout (Some 11) 5 demo_session demo_logged_in = Inr s2"
    by (simp add: logout_def session_revoke_def demo_session_def)
  from logged_out_for_good [OF demo_sessions_inv demo_authenticated out demo_parse rtranclp.rtrancl_refl,
      of 6 demo_session_clock] out
  show ?thesis by blast
qed

end
