(* ===== verification/Tenant_Tx.thy ===== *)
theory Tenant_Tx
  imports Main
begin

text \<open>
  \<open>internal/platform/tenanttx/tenanttx.go\<close>: the transaction every tenant-scoped store runs in. Whether the
  transaction begins, the tenant setting is accepted and the commit succeeds is given by the three flags; the body
  fails, panics (\<open>None\<close>), or returns with the state it made. The span and the time limits of the rollback are
  not modelled.
\<close>

record tx_env =
  tx_begin :: bool
  tx_setting :: bool
  tx_commit :: bool

datatype 'e tx_error = Tx_failed | Tx_body 'e

definition within_tx ::
    "tx_env \<Rightarrow> ('s \<Rightarrow> ('e + 'a \<times> 's) option) \<Rightarrow> 's \<Rightarrow> ('e tx_error + 'a) option \<times> 's" where
  "within_tx e body s =
     (if \<not> tx_begin e then (Some (Inl Tx_failed), s)
      else if \<not> tx_setting e then (Some (Inl Tx_failed), s)
      else case body s of
        None \<Rightarrow> (None, s)
      | Some (Inl err) \<Rightarrow> (Some (Inl (Tx_body err)), s)
      | Some (Inr (x, s')) \<Rightarrow> if tx_commit e then (Some (Inr x), s') else (Some (Inl Tx_failed), s))"

lemma within_tx_cases:
  assumes "within_tx e body s = (r, s')"
  obtains (kept) "s' = s" "\<And>x. r \<noteq> Some (Inr x)" | (committed) x where "r = Some (Inr x)" "body s = Some (Inr (x, s'))"
  using assms by (auto simp: within_tx_def split: if_splits option.splits sum.splits)

end
