(* ===== verification/Quota.thy ===== *)
theory Quota
  imports Auth Cursors Tenant_Tx
begin

text \<open>
  \<open>internal/ratelimit/ratelimit.go\<close>: cluster-wide quotas in fixed windows, with the SQL function
  \<open>consume_quota\<close> (migration 000008) over the table \<open>rate_limit_buckets\<close>. \<open>now\<close> is the time of the
  transaction.
\<close>

section \<open>The table\<close>

record bucket_row =
  rb_hash :: bytes
  rb_type :: string
  rb_operation :: string
  rb_start :: instant
  rb_workspace :: "uuid option"
  rb_api_key :: "uuid option"
  rb_resource :: "uuid option"
  rb_count :: int
  rb_expires :: instant

definition quota_args_ok ::
    "bytes \<Rightarrow> string \<Rightarrow> string \<Rightarrow> uuid option \<Rightarrow> uuid option \<Rightarrow> uuid option \<Rightarrow> int \<Rightarrow> int \<Rightarrow> bool" where
  "quota_args_ok hash ty op ws key res limit window \<longleftrightarrow>
     length hash = 32 \<and> ty \<in> {''global'', ''workspace'', ''api_key'', ''delivery''}
     \<and> op \<in> {''ingest'', ''endpoint_write'', ''query'', ''replay''}
     \<and> 1 \<le> limit \<and> limit \<le> 1000000 \<and> 1 \<le> window \<and> window \<le> 3600
     \<and> (ty = ''global'' \<longrightarrow> ws = None \<and> key = None \<and> res = None)
     \<and> (ty = ''workspace'' \<longrightarrow> ws \<noteq> None \<and> key = None \<and> res = None)
     \<and> (ty = ''api_key'' \<longrightarrow> ws \<noteq> None \<and> key \<noteq> None \<and> res = None)
     \<and> (ty = ''delivery'' \<longrightarrow> ws \<noteq> None \<and> key = None \<and> res \<noteq> None)"

definition bucket_start :: "instant \<Rightarrow> int \<Rightarrow> instant" where
  "bucket_start now window = now div (window * second) * (window * second)"

definition is_bucket :: "bytes \<Rightarrow> string \<Rightarrow> instant \<Rightarrow> bucket_row \<Rightarrow> bool" where
  "is_bucket hash op start b \<longleftrightarrow> rb_hash b = hash \<and> rb_operation b = op \<and> rb_start b = start"

text \<open>\<open>ORDER BY expires_at\<close> leaves the order of equal times open; the model takes the order of the table.\<close>

definition expired_buckets :: "instant \<Rightarrow> bucket_row list \<Rightarrow> bucket_row list" where
  "expired_buckets now bs = take 100 (sort_key rb_expires (filter (\<lambda>b. rb_expires b \<le> now) bs))"

definition delete_expired :: "instant \<Rightarrow> bucket_row list \<Rightarrow> bucket_row list" where
  "delete_expired now bs = (let gone = expired_buckets now bs in filter (\<lambda>b. b \<notin> set gone) bs)"

definition upsert_bucket ::
    "bytes \<Rightarrow> string \<Rightarrow> string \<Rightarrow> uuid option \<Rightarrow> uuid option \<Rightarrow> uuid option \<Rightarrow> int \<Rightarrow> instant \<Rightarrow> instant
      \<Rightarrow> bucket_row list \<Rightarrow> bool \<times> bucket_row list" where
  "upsert_bucket hash ty op ws key res limit start expiry bs =
     (case find (is_bucket hash op start) bs of
        None \<Rightarrow> (True, bs @ [\<lparr>rb_hash = hash, rb_type = ty, rb_operation = op, rb_start = start, rb_workspace = ws,
                  rb_api_key = key, rb_resource = res, rb_count = 1, rb_expires = expiry\<rparr>])
      | Some b \<Rightarrow>
          if rb_count b < limit \<and> rb_type b = ty \<and> rb_workspace b = ws \<and> rb_api_key b = key \<and> rb_resource b = res
             \<and> rb_expires b = expiry
          then (True, update_where (is_bucket hash op start) (\<lambda>b. b\<lparr>rb_count := rb_count b + 1\<rparr>) bs)
          else (False, bs))"

definition ceil_seconds :: "duration \<Rightarrow> int" where
  "ceil_seconds d = - (- d div second)"

definition consume_quota ::
    "instant \<Rightarrow> bytes \<Rightarrow> string \<Rightarrow> string \<Rightarrow> uuid option \<Rightarrow> uuid option \<Rightarrow> uuid option \<Rightarrow> int \<Rightarrow> int
      \<Rightarrow> bucket_row list \<Rightarrow> string + ((bool \<times> int) \<times> bucket_row list)" where
  "consume_quota now hash ty op ws key res limit window bs =
     (if \<not> quota_args_ok hash ty op ws key res limit window then Inl ''invalid quota request''
      else
        let start = bucket_start now window;
            expiry = start + window * second;
            (updated, bs') = upsert_bucket hash ty op ws key res limit start expiry bs;
            bs'' = delete_expired now bs'
        in if \<not> updated then Inr ((False, max 1 (ceil_seconds (expiry - now))), bs'')
           else Inr ((True, 0), bs''))"

section \<open>The limiter\<close>

record quota_policy =
  qp_operation :: string
  qp_global :: int
  qp_workspace :: int
  qp_api_key :: int
  qp_resource :: int
  qp_window :: duration

record dimension =
  dm_type :: string
  dm_workspace :: uuid
  dm_api_key :: uuid
  dm_value :: uuid
  dm_limit :: int

datatype quota_error = Err_invalid_policy | Err_invalid_limit | Err_exceeded int | Err_quota_db

definition quota_retry_after :: "quota_error \<Rightarrow> int option" where
  "quota_retry_after err = (case err of Err_exceeded n \<Rightarrow> Some n | _ \<Rightarrow> None)"

definition dimension_digest :: "key256 \<Rightarrow> quota_policy \<Rightarrow> dimension \<Rightarrow> bytes" where
  "dimension_digest pepper policy item =
     hmac_sha256 (key_bytes pepper)
       ((''quota:v2'' @ [byte_of 10] @ dm_type item @ [byte_of 10] @ qp_operation policy @ [byte_of 10])
        @ uuid_bytes (dm_workspace item) @ uuid_bytes (dm_api_key item) @ uuid_bytes (dm_value item)
        @ put_uint64 (go_div (qp_window policy) second))"

definition not_nil :: "uuid \<Rightarrow> uuid option" where
  "not_nil i = (if i \<noteq> 0 then Some i else None)"

definition consume_dimension ::
    "key256 \<Rightarrow> instant \<Rightarrow> quota_policy \<Rightarrow> dimension \<Rightarrow> bucket_row list \<Rightarrow> string + ((bool \<times> int) \<times> bucket_row list)" where
  "consume_dimension pepper now policy item bs =
     consume_quota now (dimension_digest pepper policy item) (dm_type item) (qp_operation policy)
       (not_nil (dm_workspace item)) (not_nil (dm_api_key item))
       (if dm_type item = ''delivery'' then Some (dm_value item) else None)
       (dm_limit item) (go_div (qp_window policy) second) bs"

definition quota_dimensions :: "principal \<Rightarrow> uuid \<Rightarrow> quota_policy \<Rightarrow> dimension list" where
  "quota_dimensions p resourceID policy =
     [\<lparr>dm_type = ''global'', dm_workspace = 0, dm_api_key = 0, dm_value = 0, dm_limit = qp_global policy\<rparr>,
      \<lparr>dm_type = ''workspace'', dm_workspace = pr_workspace p, dm_api_key = 0, dm_value = pr_workspace p,
       dm_limit = qp_workspace policy\<rparr>,
      \<lparr>dm_type = ''api_key'', dm_workspace = pr_workspace p, dm_api_key = pr_api_key p, dm_value = pr_api_key p,
       dm_limit = qp_api_key policy\<rparr>]
     @ (if qp_resource policy > 0 \<and> resourceID \<noteq> 0
        then [\<lparr>dm_type = ''delivery'', dm_workspace = pr_workspace p, dm_api_key = 0, dm_value = resourceID,
               dm_limit = qp_resource policy\<rparr>]
        else [])"

fun consume_loop ::
    "key256 \<Rightarrow> instant \<Rightarrow> quota_policy \<Rightarrow> dimension list \<Rightarrow> bucket_row list \<Rightarrow> quota_error + (unit \<times> bucket_row list)" where
  "consume_loop pepper now policy [] bs = Inr ((), bs)"
| "consume_loop pepper now policy (item # items) bs =
     (if dm_limit item < 1 then Inl Err_invalid_limit
      else case consume_dimension pepper now policy item bs of
        Inl m \<Rightarrow> Inl Err_quota_db
      | Inr ((allowed, retryAfter), bs') \<Rightarrow>
          if \<not> allowed then Inl (Err_exceeded retryAfter) else consume_loop pepper now policy items bs')"

definition quota_policy_ok :: "principal \<Rightarrow> quota_policy \<Rightarrow> bool" where
  "quota_policy_ok p policy \<longleftrightarrow> \<not> (pr_workspace p = 0 \<or> pr_api_key p = 0
     \<or> qp_window policy < second \<or> qp_window policy > hour \<or> go_rem (qp_window policy) second \<noteq> 0)"

definition consume ::
    "key256 \<Rightarrow> tx_env \<Rightarrow> instant \<Rightarrow> principal \<Rightarrow> uuid \<Rightarrow> quota_policy \<Rightarrow> bucket_row list
      \<Rightarrow> (quota_error + unit) \<times> bucket_row list" where
  "consume pepper e now p resourceID policy bs =
     (if \<not> quota_policy_ok p policy then (Inl Err_invalid_policy, bs)
      else case within_tx e (\<lambda>bs. Some (consume_loop pepper now policy (quota_dimensions p resourceID policy) bs)) bs of
        (Some (Inr x), bs') \<Rightarrow> (Inr (), bs')
      | (Some (Inl (Tx_body err)), bs') \<Rightarrow> (Inl err, bs')
      | (_, bs') \<Rightarrow> (Inl Err_quota_db, bs'))"

text \<open>
  \<open>uuid_value\<close> is the first result of \<open>uuid.Parse\<close>, whose error the middleware ignores. A refusal comes with the header
  \<open>Retry-After\<close> the middleware sets.
\<close>

definition quota_request ::
    "(string \<Rightarrow> uuid) \<Rightarrow> key256 \<Rightarrow> tx_env \<Rightarrow> instant \<Rightarrow> quota_policy \<Rightarrow> principal request \<Rightarrow> bucket_row list
      \<Rightarrow> (string option \<times> 'a reply) option \<times> bucket_row list" where
  "quota_request uuid_value pepper e now policy r bs =
     (case hx_principal r of
        None \<Rightarrow> (Some (None, write_problem r 401 ''unauthorized'' ''Authentication required''), bs)
      | Some p \<Rightarrow>
          let resourceID = uuid_value (hx_path_value r ''id'');
              (res, bs') = consume pepper e now p resourceID policy bs
          in (case res of
                Inl err \<Rightarrow>
                  (case quota_retry_after err of
                     Some n \<Rightarrow> (Some (Some (format_int n), write_problem r 429 ''quota_exceeded'' ''Quota exceeded''), bs')
                   | None \<Rightarrow> (Some (None, write_problem r 503 ''quota_unavailable'' ''Quota service unavailable''), bs'))
              | Inr u \<Rightarrow> (None, bs')))"

definition quota_middleware ::
    "(string \<Rightarrow> uuid) \<Rightarrow> key256 \<Rightarrow> tx_env \<Rightarrow> instant \<Rightarrow> quota_policy \<Rightarrow> (principal request \<Rightarrow> 'a reply option)
      \<Rightarrow> principal request \<Rightarrow> bucket_row list \<Rightarrow> (string option \<times> 'a reply option) \<times> bucket_row list" where
  "quota_middleware uuid_value pepper e now policy next r bs =
     (case quota_request uuid_value pepper e now policy r bs of
        (Some (retryAfter, a), bs') \<Rightarrow> ((retryAfter, Some a), bs')
      | (None, bs') \<Rightarrow> ((None, next r), bs'))"

section \<open>A run of the limiter\<close>

record quota_call =
  qa_env :: tx_env
  qa_now :: instant
  qa_principal :: principal
  qa_resource :: uuid
  qa_policy :: quota_policy

fun quota_run ::
    "key256 \<Rightarrow> quota_call list \<Rightarrow> bucket_row list \<Rightarrow> (quota_call \<times> (quota_error + unit)) list \<times> bucket_row list" where
  "quota_run pepper [] bs = ([], bs)"
| "quota_run pepper (c # cs) bs =
     (let (r, bs') = consume pepper (qa_env c) (qa_now c) (qa_principal c) (qa_resource c) (qa_policy c) bs;
          (rs, bs'') = quota_run pepper cs bs'
      in ((c, r) # rs, bs''))"

text \<open>The calls of a run that were admitted.\<close>

definition admitted :: "key256 \<Rightarrow> quota_call list \<Rightarrow> bucket_row list \<Rightarrow> quota_call list" where
  "admitted pepper cs bs = map fst (filter (\<lambda>(c, r). r = Inr ()) (fst (quota_run pepper cs bs)))"

lemma admitted_simps [simp]:
  "admitted pepper [] bs = []"
  "admitted pepper (c # cs) bs =
     (let (r, bs') = consume pepper (qa_env c) (qa_now c) (qa_principal c) (qa_resource c) (qa_policy c) bs
      in (if r = Inr () then [c] else []) @ admitted pepper cs bs')"
  by (auto simp: admitted_def split: prod.splits)

text \<open>The bucket of a dimension has counted at least \<open>n\<close> requests, none of them beyond the limit.\<close>

definition counted :: "bytes \<Rightarrow> string \<Rightarrow> instant \<Rightarrow> instant \<Rightarrow> int \<Rightarrow> nat \<Rightarrow> bucket_row list \<Rightarrow> bool" where
  "counted h op w x l n bs \<longleftrightarrow> (\<forall>b\<in>set bs. 0 < rb_count b) \<and> int n \<le> max 0 l
     \<and> (0 < n \<longrightarrow> (\<exists>b. find (is_bucket h op w) bs = Some b \<and> int n \<le> rb_count b \<and> rb_expires b = x))"

lemma find_append_Some: "find P xs = Some x \<Longrightarrow> find P (xs @ ys) = Some x"
  by (induction xs) auto

lemma find_append_None: "find P xs = None \<Longrightarrow> find P (xs @ ys) = find P ys"
  by (induction xs) (auto split: if_splits)

lemma find_update_where:
  "(\<And>x. P (f x) = P x) \<Longrightarrow> find P (update_where Q f xs) = map_option (\<lambda>x. if Q x then f x else x) (find P xs)"
  by (induction xs) (auto simp: update_where_def)

lemma find_delete_expired:
  assumes "find P bs = Some b" and "now < rb_expires b"
  shows "find P (delete_expired now bs) = Some b"
proof -
  have b: "b \<notin> set (expired_buckets now bs)"
    using assms(2) by (auto simp: expired_buckets_def dest: in_set_takeD)
  have "find P (filter (\<lambda>b. b \<notin> G) bs) = Some b" if "b \<notin> G" for G
    using assms(1) that by (induction bs) auto
  then show ?thesis using b by (simp add: delete_expired_def)
qed

lemma set_delete_expired: "set (delete_expired now bs) \<subseteq> set bs"
  by (auto simp: delete_expired_def Let_def)

lemma upsert_positive:
  "upsert_bucket hash ty op ws key res limit start expiry bs = (u, bs') \<Longrightarrow> \<forall>b\<in>set bs. 0 < rb_count b
    \<Longrightarrow> \<forall>b\<in>set bs'. 0 < rb_count b"
  by (auto simp: upsert_bucket_def update_where_def split: option.splits if_splits) (auto intro: less_imp_le)

lemma upsert_find:
  assumes "upsert_bucket hash ty op ws key res limit start expiry bs = (u, bs')" and "find (is_bucket h o' w) bs = Some b"
  shows "\<exists>b'. find (is_bucket h o' w) bs' = Some b' \<and> rb_count b \<le> rb_count b' \<and> rb_expires b' = rb_expires b"
proof -
  have "find (is_bucket h o' w) (update_where (is_bucket hash op start) (\<lambda>b. b\<lparr>rb_count := rb_count b + 1\<rparr>) bs)
      = Some (if is_bucket hash op start b then b\<lparr>rb_count := rb_count b + 1\<rparr> else b)"
    using assms(2) by (subst find_update_where) (auto simp: is_bucket_def)
  then show ?thesis using assms find_append_Some [OF assms(2)]
    by (auto simp: upsert_bucket_def split: option.splits if_splits)
qed

lemma upsert_counts:
  assumes "upsert_bucket hash ty op ws key res limit start expiry bs = (True, bs')" and "1 \<le> limit"
    and "counted hash op start expiry limit n bs"
  shows "counted hash op start expiry limit (Suc n) bs'"
proof (cases "find (is_bucket hash op start) bs")
  case None
  let ?new = "\<lparr>rb_hash = hash, rb_type = ty, rb_operation = op, rb_start = start, rb_workspace = ws,
                  rb_api_key = key, rb_resource = res, rb_count = 1, rb_expires = expiry\<rparr>"
  have bs': "bs' = bs @ [?new]" using assms(1) None by (simp add: upsert_bucket_def)
  have n: "n = 0" using assms(3) None by (auto simp: counted_def)
  have "find (is_bucket hash op start) bs' = Some ?new"
    unfolding bs' using None by (subst find_append_None) (simp_all add: is_bucket_def)
  then show ?thesis using assms(2,3) n upsert_positive [OF assms(1)] by (auto simp: counted_def)
next
  case (Some b)
  have bs': "bs' = update_where (is_bucket hash op start) (\<lambda>b. b\<lparr>rb_count := rb_count b + 1\<rparr>) bs"
    and l: "rb_count b < limit" "rb_expires b = expiry"
    using assms(1) Some by (auto simp: upsert_bucket_def split: if_splits)
  have b: "is_bucket hash op start b" "b \<in> set bs" using Some by (auto simp: find_Some_iff)
  have "find (is_bucket hash op start) bs' = Some (b\<lparr>rb_count := rb_count b + 1\<rparr>)"
    unfolding bs' using Some b by (subst find_update_where) (auto simp: is_bucket_def)
  moreover have "int n \<le> rb_count b" using assms(3) Some b(2) by (cases "n = 0") (auto simp: counted_def)
  ultimately show ?thesis using l assms(3) upsert_positive [OF assms(1)] by (auto simp: counted_def)
qed

lemma counted_delete: "counted h op w x l n bs \<Longrightarrow> now < x \<Longrightarrow> counted h op w x l n (delete_expired now bs)"
  using find_delete_expired set_delete_expired unfolding counted_def by blast

lemma counted_upsert:
  "counted h o' w x l n bs \<Longrightarrow> upsert_bucket hash ty op ws key res limit start expiry bs = (u, bs')
    \<Longrightarrow> counted h o' w x l n bs'"
  using upsert_find upsert_positive unfolding counted_def by (meson order_trans)

lemma consume_quota_Inr:
  assumes "consume_quota now hash ty op ws key res limit window bs = Inr ((allowed, retryAfter), bs')"
  obtains bs1 where "quota_args_ok hash ty op ws key res limit window"
    "upsert_bucket hash ty op ws key res limit (bucket_start now window) (bucket_start now window + window * second) bs
      = (allowed, bs1)" "bs' = delete_expired now bs1"
    "retryAfter = (if allowed then 0 else max 1 (ceil_seconds (bucket_start now window + window * second - now)))"
  using assms by (auto simp: consume_quota_def Let_def split: if_splits prod.splits)

lemma window_seconds:
  assumes "quota_policy_ok p policy"
  shows "go_div (qp_window policy) second * second = qp_window policy"
  using assms by (simp add: quota_policy_ok_def go_rem_def mult.commute)

lemma consume_dimension_kept:
  assumes "consume_dimension pepper now policy item bs = Inr (a, bs')" and "now < x" and "counted h op w x l n bs"
  shows "counted h op w x l n bs'"
  using assms(1) unfolding consume_dimension_def
  by (cases a) (auto elim!: consume_quota_Inr intro!: counted_delete assms(2) intro: counted_upsert [OF assms(3)])

lemma consume_dimension_counts:
  assumes "consume_dimension pepper now policy item bs = Inr ((True, ra), bs')"
    and "bucket_start now (go_div (qp_window policy) second) = w" and "x = w + go_div (qp_window policy) second * second"
    and "now < x" and "counted (dimension_digest pepper policy item) (qp_operation policy) w x (dm_limit item) n bs"
  shows "counted (dimension_digest pepper policy item) (qp_operation policy) w x (dm_limit item) (Suc n) bs'"
  using assms unfolding consume_dimension_def
  by (elim consume_quota_Inr) (auto intro!: counted_delete dest: upsert_counts simp: quota_args_ok_def)

lemma consume_loop_kept:
  "consume_loop pepper now policy ds bs = Inr (u, bs') \<Longrightarrow> now < x \<Longrightarrow> counted h op w x l n bs
    \<Longrightarrow> counted h op w x l n bs'"
  by (induction pepper now policy ds bs rule: consume_loop.induct)
     (auto split: if_splits sum.splits prod.splits dest: consume_dimension_kept)

lemma consume_loop_counts:
  assumes "consume_loop pepper now policy ds bs = Inr (u, bs')" and "item \<in> set ds"
    and "bucket_start now (go_div (qp_window policy) second) = w" and "x = w + go_div (qp_window policy) second * second"
    and "now < x" and "counted (dimension_digest pepper policy item) (qp_operation policy) w x (dm_limit item) n bs"
  shows "counted (dimension_digest pepper policy item) (qp_operation policy) w x (dm_limit item) (Suc n) bs'"
  using assms
proof (induction ds arbitrary: bs)
  case (Cons d ds)
  then obtain ra bs1 where d: "consume_dimension pepper now policy d bs = Inr ((True, ra), bs1)"
    and r: "consume_loop pepper now policy ds bs1 = Inr (u, bs')"
    by (auto split: if_splits sum.splits prod.splits)
  show ?case
  proof (cases "item = d")
    case True
    then have "counted (dimension_digest pepper policy item) (qp_operation policy) w x (dm_limit item) (Suc n) bs1"
      using consume_dimension_counts [OF d] Cons.prems by simp
    then show ?thesis by (rule consume_loop_kept [OF r Cons.prems(5)])
  next
    case False
    then show ?thesis
      using Cons.IH [OF r _ Cons.prems(3,4,5) consume_dimension_kept [OF d Cons.prems(5,6)]] Cons.prems(2) by simp
  qed
qed simp

lemma consume_cases:
  assumes "consume pepper e now p rid policy bs = (r, bs')"
  obtains (refused) err where "r = Inl err" "bs' = bs"
  | (admitted) "r = Inr ()" "quota_policy_ok p policy"
      "consume_loop pepper now policy (quota_dimensions p rid policy) bs = Inr ((), bs')"
  using assms
  by (auto simp: consume_def within_tx_def split: if_splits sum.splits option.splits tx_error.splits prod.splits)

text \<open>The calls of a run that a dimension of a policy counts in the window that starts at \<open>w\<close>.\<close>

definition charged :: "dimension \<Rightarrow> quota_policy \<Rightarrow> instant \<Rightarrow> quota_call \<Rightarrow> bool" where
  "charged item P w c \<longleftrightarrow> qa_policy c = P \<and> bucket_start (qa_now c) (go_div (qp_window P) second) = w
     \<and> item \<in> set (quota_dimensions (qa_principal c) (qa_resource c) P)"

lemma charged_bound:
  assumes "\<forall>c\<in>set cs. qa_now c < x" and "x = w + go_div (qp_window P) second * second"
    and "counted (dimension_digest pepper P item) (qp_operation P) w x (dm_limit item) n bs"
  shows "int (n + length (filter (charged item P w) (admitted pepper cs bs))) \<le> max 0 (dm_limit item)"
  using assms
proof (induction cs arbitrary: n bs)
  case Nil
  then show ?case by (simp add: counted_def)
next
  case (Cons c cs)
  obtain r bs' where c: "consume pepper (qa_env c) (qa_now c) (qa_principal c) (qa_resource c) (qa_policy c) bs = (r, bs')"
    by fastforce
  have now: "qa_now c < x" using Cons.prems(1) by simp
  from c show ?case
  proof (cases rule: consume_cases)
    case (refused err)
    then show ?thesis using Cons.IH [of n bs] Cons.prems by (simp add: c)
  next
    case admitted
    show ?thesis
    proof (cases "charged item P w c")
      case True
      then have "counted (dimension_digest pepper P item) (qp_operation P) w x (dm_limit item) (Suc n) bs'"
        using consume_loop_counts [OF admitted(3), of item w x n] Cons.prems(2,3) now by (auto simp: charged_def)
      then show ?thesis using Cons.IH [of "Suc n" bs'] Cons.prems True admitted by (simp add: c)
    next
      case False
      then show ?thesis
        using Cons.IH [OF _ Cons.prems(2) consume_loop_kept [OF admitted(3) now Cons.prems(3)]] Cons.prems admitted
        by (simp add: c)
    qed
  qed
qed

lemma div_window: "0 < m \<Longrightarrow> now div m * m \<le> now \<and> now < now div m * m + (m::int)"
  using div_mult_mod_eq [of now m] pos_mod_bound [of m now] pos_mod_sign [of m now] by linarith

lemma bucket_window: "0 < window \<Longrightarrow> bucket_start now window \<le> now \<and> now < bucket_start now window + window * second"
  unfolding bucket_start_def by (rule div_window) (simp add: second_def)

lemma ceil_seconds_range:
  assumes "0 < d" and "d \<le> n * second"
  shows "1 \<le> ceil_seconds d \<and> ceil_seconds d \<le> n"
proof -
  have "- d div second < 0" using assms(1) by (simp add: second_def neg_imp_zdiv_neg_iff)
  moreover have "- n \<le> - d div second"
    using zdiv_mono1 [of "- (n * second)" "- d" second] assms(2) by (simp add: second_def)
  ultimately show ?thesis by (simp add: ceil_seconds_def)
qed

lemma consume_loop_retry:
  "consume_loop pepper now policy ds bs = Inl (Err_exceeded n)
    \<Longrightarrow> 1 \<le> n \<and> n \<le> go_div (qp_window policy) second"
proof (induction pepper now policy ds bs rule: consume_loop.induct)
  case (2 pepper now policy item items bs)
  show ?case
  proof (cases "consume_dimension pepper now policy item bs")
    case (Inl m)
    then show ?thesis using 2 by (simp split: if_splits)
  next
    case (Inr a)
    obtain allowed ra bs' where a: "a = ((allowed, ra), bs')" by (metis surj_pair)
    show ?thesis
    proof (cases allowed)
      case True
      then show ?thesis using 2 Inr a by (simp split: if_splits)
    next
      case False
      then have "n = ra" using "2.prems" Inr a by (simp split: if_splits)
      then show ?thesis using Inr a False unfolding consume_dimension_def
        using ceil_seconds_range [of "bucket_start now (go_div (qp_window policy) second)
            + go_div (qp_window policy) second * second - now"]
          bucket_window [of "go_div (qp_window policy) second" now]
        by (auto elim!: consume_quota_Inr simp: quota_args_ok_def max_def)
    qed
  qed
qed simp

lemma length_filter_mono: "(\<And>x. P x \<Longrightarrow> Q x) \<Longrightarrow> length (filter P xs) \<le> length (filter Q xs)"
  by (induction xs) auto

section \<open>Properties\<close>

text \<open>C30. Quotas are enforced: whatever calls run, with whatever policies, clocks and table contents, the calls admitted
  under one policy within one window are at most its global limit, those of one workspace at most its workspace
  limit, those of one key at most its key limit, and those on one resource at most its resource limit (when it has
  one), as long as no call comes later than the end of the window.\<close>

theorem quota_enforced:
  assumes "\<forall>c\<in>set cs. qa_now c < w + go_div (qp_window P) second * second" and "\<forall>b\<in>set bs. 0 < rb_count b"
    and "A = filter (\<lambda>c. qa_policy c = P \<and> bucket_start (qa_now c) (go_div (qp_window P) second) = w) (admitted pepper cs bs)"
  shows "int (length A) \<le> max 0 (qp_global P)
    \<and> int (count_where (\<lambda>c. pr_workspace (qa_principal c) = ws) A) \<le> max 0 (qp_workspace P)
    \<and> int (count_where (\<lambda>c. pr_workspace (qa_principal c) = ws \<and> pr_api_key (qa_principal c) = key) A)
        \<le> max 0 (qp_api_key P)
    \<and> (0 < qp_resource P \<longrightarrow> res \<noteq> 0
        \<longrightarrow> int (count_where (\<lambda>c. pr_workspace (qa_principal c) = ws \<and> qa_resource c = res) A) \<le> qp_resource P)"
proof -
  let ?d = "\<lambda>ty ws' key' v l. \<lparr>dm_type = ty, dm_workspace = ws', dm_api_key = key', dm_value = v, dm_limit = l\<rparr>"
  have bound: "int (count_where Q A) \<le> max 0 (dm_limit item)"
    if "\<And>c. Q c \<Longrightarrow> item \<in> set (quota_dimensions (qa_principal c) (qa_resource c) P)" for Q item
  proof -
    have "counted (dimension_digest pepper P item) (qp_operation P) w
        (w + go_div (qp_window P) second * second) (dm_limit item) 0 bs"
      using assms(2) by (simp add: counted_def)
    from charged_bound [OF assms(1) refl this]
    have "int (length (filter (charged item P w) (admitted pepper cs bs))) \<le> max 0 (dm_limit item)" by simp
    moreover have "count_where Q A \<le> length (filter (charged item P w) (admitted pepper cs bs))"
      unfolding count_where_def assms(3) filter_filter
      by (rule length_filter_mono) (use that in \<open>auto simp: charged_def\<close>)
    ultimately show ?thesis by linarith
  qed
  show ?thesis
    using bound [of "\<lambda>c. True" "?d ''global'' 0 0 0 (qp_global P)"]
      bound [of "\<lambda>c. pr_workspace (qa_principal c) = ws" "?d ''workspace'' ws 0 ws (qp_workspace P)"]
      bound [of "\<lambda>c. pr_workspace (qa_principal c) = ws \<and> pr_api_key (qa_principal c) = key"
        "?d ''api_key'' ws key key (qp_api_key P)"]
      bound [of "\<lambda>c. pr_workspace (qa_principal c) = ws \<and> qa_resource c = res" "?d ''delivery'' ws 0 res (qp_resource P)"]
    by (auto simp: quota_dimensions_def count_where_def)
qed

text \<open>A request that is not admitted costs nothing and is told when to come back: either the quota was consumed and
  the answer is the handler's, or no bucket changes and the answer is a 401, a 503, or a 429 whose \<open>Retry-After\<close> lies
  between one second and the length of the window.\<close>

theorem quota_refusal_free:
  "case quota_middleware uuid_value pepper e now policy next r bs of
     ((hdr, a), bs') \<Rightarrow>
       (\<exists>p. hx_principal r = Some p \<and> hdr = None \<and> a = next r
          \<and> consume pepper e now p (uuid_value (hx_path_value r ''id'')) policy bs = (Inr (), bs'))
     \<or> bs' = bs \<and> hdr = None \<and> a = Some (write_problem r 401 ''unauthorized'' ''Authentication required'')
     \<or> bs' = bs \<and> hdr = None \<and> a = Some (write_problem r 503 ''quota_unavailable'' ''Quota service unavailable'')
     \<or> bs' = bs \<and> a = Some (write_problem r 429 ''quota_exceeded'' ''Quota exceeded'')
         \<and> (\<exists>n. hdr = Some (format_int n) \<and> 1 \<le> n \<and> n * second \<le> qp_window policy)"
proof (cases "hx_principal r")
  case None
  then show ?thesis by (simp add: quota_middleware_def quota_request_def)
next
  case (Some p)
  obtain res bs1 where c: "consume pepper e now p (uuid_value (hx_path_value r ''id'')) policy bs = (res, bs1)" by fastforce
  from c show ?thesis
  proof (cases rule: consume_cases)
    case (refused err)
    show ?thesis
    proof (cases "quota_retry_after err")
      case None
      then show ?thesis using refused Some c by (simp add: quota_middleware_def quota_request_def Let_def)
    next
      case n: (Some n)
      then have "err = Err_exceeded n" by (simp add: quota_retry_after_def split: quota_error.splits)
      with c refused have "quota_policy_ok p policy"
        "consume_loop pepper now policy (quota_dimensions p (uuid_value (hx_path_value r ''id'')) policy) bs
          = Inl (Err_exceeded n)"
        by (auto simp: consume_def within_tx_def split: if_splits sum.splits)
      then have "1 \<le> n \<and> n * second \<le> qp_window policy"
        using consume_loop_retry window_seconds [of p policy] mult_right_mono [of n _ second]
        by (metis second_def zero_le_numeral)
      then show ?thesis using refused Some c n by (auto simp: quota_middleware_def quota_request_def Let_def)
    qed
  next
    case admitted
    then show ?thesis using Some c by (simp add: quota_middleware_def quota_request_def Let_def)
  qed
qed

text \<open>Two requests of one key under a limit of one.\<close>

definition demo_quota :: quota_policy where
  "demo_quota = \<lparr>qp_operation = ''replay'', qp_global = 2, qp_workspace = 1, qp_api_key = 1, qp_resource = 0,
     qp_window = minute\<rparr>"

definition demo_quota_call :: quota_call where
  "demo_quota_call = \<lparr>qa_env = \<lparr>tx_begin = True, tx_setting = True, tx_commit = True\<rparr>, qa_now = 61 * second,
     qa_principal = \<lparr>pr_api_key = 2, pr_workspace = 1, pr_scopes = {}\<rparr>, qa_resource = 0, qa_policy = demo_quota\<rparr>"

lemma quota_enforced_witness:
  "int (length (filter (\<lambda>c. qa_policy c = demo_quota
      \<and> bucket_start (qa_now c) (go_div (qp_window demo_quota) second) = 60 * second)
      (admitted 5 [demo_quota_call, demo_quota_call] []))) \<le> 2"
proof -
  have "\<forall>c\<in>set [demo_quota_call, demo_quota_call]. qa_now c < 60 * second + go_div (qp_window demo_quota) second * second"
    by (simp add: demo_quota_call_def demo_quota_def duration_defs go_div_def)
  from quota_enforced [OF this _ refl, of "[]"] show ?thesis by (simp add: demo_quota_def)
qed

end
