(* ===== verification/Edge_Limit.thy ===== *)
theory Edge_Limit
  imports Auth
begin

text \<open>
  \<open>internal/ratelimit/edge.go\<close>: the limiter in front of every handler: a bound on the requests in flight and, per
  window, on the requests of the process, of an origin and of a credential prefix. The list of buckets holds the most
  recently used first. A function that panics returns \<open>None\<close>; the
  bucket list of a limiter without room for buckets stays empty, so that a panic leaves it as it is.
\<close>

section \<open>State\<close>

record edge_policy =
  ed_max_in_flight :: int
  ed_global :: int
  ed_origin :: int
  ed_prefix :: int
  ed_max_buckets :: int
  ed_window :: duration

record edge_bucket =
  eb_key :: bytes
  eb_start :: int
  eb_count :: int

record edge_state =
  es_slots :: nat
  es_global :: edge_bucket
  es_lru :: "edge_bucket list"

definition new_edge :: "edge_policy \<Rightarrow> edge_state option" where
  "new_edge policy =
     (if ed_max_in_flight policy < 0 then None
      else Some \<lparr>es_slots = 0, es_global = \<lparr>eb_key = replicate 32 (byte_of 0), eb_start = 0, eb_count = 0\<rparr>, es_lru = []\<rparr>)"

section \<open>Buckets\<close>

definition reset_bucket :: "int \<Rightarrow> edge_bucket \<Rightarrow> edge_bucket" where
  "reset_bucket start b = (if eb_start b \<noteq> start then b\<lparr>eb_start := start, eb_count := 0\<rparr> else b)"

definition bucket_available :: "int \<Rightarrow> int \<Rightarrow> edge_bucket \<Rightarrow> bool" where
  "bucket_available start limit b \<longleftrightarrow> eb_count (reset_bucket start b) < limit"

text \<open>
  \<open>bucket\<close> moves the bucket of the key to the front, reset to the window, or makes one there; the list it evicts from
  may not be empty. Its result is the bucket at the front.
\<close>

definition edge_bucket_of :: "edge_policy \<Rightarrow> bytes \<Rightarrow> int \<Rightarrow> edge_bucket list \<Rightarrow> edge_bucket list option" where
  "edge_bucket_of policy key start lru =
     (case find (\<lambda>b. eb_key b = key) lru of
        Some b \<Rightarrow> Some (reset_bucket start b # filter (\<lambda>b. eb_key b \<noteq> key) lru)
      | None \<Rightarrow>
          let new = \<lparr>eb_key = key, eb_start = start, eb_count = 0\<rparr>
          in if int (length lru) \<ge> ed_max_buckets policy
             then (if lru = [] then None else Some (new # butlast lru))
             else Some (new # lru))"

definition edge_key :: "key256 \<Rightarrow> string \<Rightarrow> string \<Rightarrow> bytes" where
  "edge_key pepper kind value =
     hmac_sha256 (key_bytes pepper) (''edge-limit:v1'' @ [byte_of 10] @ kind @ [byte_of 10] @ value)"

definition retry_seconds :: "instant \<Rightarrow> int \<Rightarrow> int \<Rightarrow> int" where
  "retry_seconds now start window = (let retry = start + window - now div second in if retry < 1 then 1 else retry)"

text \<open>The loop over the requested buckets: the list it leaves, and whether every bucket was available.\<close>

fun edge_buckets ::
    "edge_policy \<Rightarrow> int \<Rightarrow> (bytes \<times> int) list \<Rightarrow> edge_bucket list \<Rightarrow> (bool \<times> edge_bucket list) option" where
  "edge_buckets policy start [] lru = Some (True, lru)"
| "edge_buckets policy start ((key, limit) # ks) lru =
     (case edge_bucket_of policy key start lru of
        None \<Rightarrow> None
      | Some lru' \<Rightarrow>
          if \<not> bucket_available start limit (hd lru') then Some (False, lru')
          else edge_buckets policy start ks lru')"

text \<open>A bucket that was evicted while the later ones were made is counted for nobody.\<close>

definition count_bucket :: "bytes \<Rightarrow> edge_bucket list \<Rightarrow> edge_bucket list" where
  "count_bucket key = update_where (\<lambda>b. eb_key b = key) (\<lambda>b. b\<lparr>eb_count := eb_count b + 1\<rparr>)"

definition edge_keys :: "edge_policy \<Rightarrow> key256 \<Rightarrow> string \<Rightarrow> string \<Rightarrow> (bytes \<times> int) list" where
  "edge_keys policy pepper origin prefix =
     [(edge_key pepper ''origin'' origin, ed_origin policy)]
     @ (if prefix \<noteq> [] then [(edge_key pepper ''prefix'' prefix, ed_prefix policy)] else [])"

definition edge_allow ::
    "edge_policy \<Rightarrow> key256 \<Rightarrow> instant \<Rightarrow> string \<Rightarrow> string \<Rightarrow> edge_state \<Rightarrow> (bool \<times> int) option \<times> edge_state" where
  "edge_allow policy pepper now origin prefix s =
     (let windowSeconds = go_div (ed_window policy) second
      in if windowSeconds = 0 then (None, s)
         else
           let start = go_div (now div second) windowSeconds * windowSeconds;
               keys = edge_keys policy pepper origin prefix;
               s1 = s\<lparr>es_global := reset_bucket start (es_global s)\<rparr>
           in if \<not> bucket_available start (ed_global policy) (es_global s)
              then (Some (False, retry_seconds now start windowSeconds), s1)
              else case edge_buckets policy start keys (es_lru s) of
                None \<Rightarrow> (None, s1)
              | Some (ok, lru) \<Rightarrow>
                  if \<not> ok then (Some (False, retry_seconds now start windowSeconds), s1\<lparr>es_lru := lru\<rparr>)
                  else (Some (True, 0), s1\<lparr>es_global := (es_global s1)\<lparr>eb_count := eb_count (es_global s1) + 1\<rparr>,
                                          es_lru := fold count_bucket (map fst keys) lru\<rparr>))"

section \<open>The middleware\<close>

definition request_origin ::
    "(string \<Rightarrow> (string \<times> string) option) \<Rightarrow> (string \<Rightarrow> bool) \<Rightarrow> 'p request \<Rightarrow> string" where
  "request_origin split_host_port is_ip r =
     (case split_host_port (hx_remote r) of
        Some (host, port) \<Rightarrow> if is_ip host then host else if is_ip (hx_remote r) then hx_remote r else ''unknown''
      | None \<Rightarrow> if is_ip (hx_remote r) then hx_remote r else ''unknown'')"

definition header_prefix :: "'p request \<Rightarrow> string" where
  "header_prefix r = (case presented_prefix (hx_header r ''Authorization'') of None \<Rightarrow> [] | Some p \<Rightarrow> p)"

text \<open>\<open>api_key_of\<close> is \<open>ParseForm\<close> and \<open>FormValue("api_key")\<close> on a body cut at 8 KiB.\<close>

definition form_prefix :: "(bytes \<Rightarrow> string option) \<Rightarrow> 'p request \<Rightarrow> string" where
  "form_prefix api_key_of r =
     (case api_key_of (hx_body r) of
        None \<Rightarrow> []
      | Some k \<Rightarrow> (case presented_token_prefix k of None \<Rightarrow> [] | Some p \<Rightarrow> p))"

text \<open>
  A request enters: \<open>None\<close> is a panic; \<open>Inl\<close> the refusal, with its header \<open>Retry-After\<close>; \<open>Inr\<close> hands the request on while
  it holds a slot. It leaves when the handler returns, is refused, or panics.
\<close>

definition write_edge_limit :: "'p request \<Rightarrow> int \<Rightarrow> string \<times> 'a reply" where
  "write_edge_limit r retryAfter = (format_int retryAfter, write_problem r 429 ''quota_exceeded'' ''Quota exceeded'')"

definition edge_leave :: "edge_state \<Rightarrow> edge_state" where
  "edge_leave s = s\<lparr>es_slots := es_slots s - 1\<rparr>"

definition edge_enter ::
    "edge_policy \<Rightarrow> key256 \<Rightarrow> ('p request \<Rightarrow> string) \<Rightarrow> ('p request \<Rightarrow> string) \<Rightarrow> instant \<Rightarrow> 'p request \<Rightarrow> edge_state
      \<Rightarrow> ((string \<times> 'a reply) + unit) option \<times> edge_state" where
  "edge_enter policy pepper origin_of prefix_of now r s =
     (if int (es_slots s) \<ge> ed_max_in_flight policy then (Some (Inl (write_edge_limit r 1)), s)
      else
        let s1 = s\<lparr>es_slots := es_slots s + 1\<rparr>
        in case edge_allow policy pepper now (origin_of r) (prefix_of r) s1 of
             (None, s2) \<Rightarrow> (None, edge_leave s2)
           | (Some (allowed, retryAfter), s2) \<Rightarrow>
               if \<not> allowed then (Some (Inl (write_edge_limit r retryAfter)), edge_leave s2)
               else (Some (Inr ()), s2))"

section \<open>A run\<close>

datatype 'p edge_event = Arrive instant "'p request" | Depart

text \<open>
  Requests arrive, and admitted ones depart, in any order; a departure is one of a request that holds a slot. The result
  lists the answers to the arrivals.
\<close>

fun edge_run ::
    "edge_policy \<Rightarrow> key256 \<Rightarrow> ('p request \<Rightarrow> string) \<Rightarrow> ('p request \<Rightarrow> string) \<Rightarrow> 'p edge_event list \<Rightarrow> edge_state
      \<Rightarrow> ((string \<times> 'a reply) + unit) option list \<times> edge_state" where
  "edge_run policy pepper origin_of prefix_of [] s = ([], s)"
| "edge_run policy pepper origin_of prefix_of (Arrive now r # es) s =
     (let (a, s') = edge_enter policy pepper origin_of prefix_of now r s;
          (as, s'') = edge_run policy pepper origin_of prefix_of es s'
      in (a # as, s''))"
| "edge_run policy pepper origin_of prefix_of (Depart # es) s =
     edge_run policy pepper origin_of prefix_of es (if es_slots s = 0 then s else edge_leave s)"

section \<open>Invariants\<close>

definition edge_inv :: "edge_policy \<Rightarrow> edge_state \<Rightarrow> bool" where
  "edge_inv policy s \<longleftrightarrow> int (es_slots s) \<le> ed_max_in_flight policy \<and> 0 \<le> eb_count (es_global s)
     \<and> distinct (map eb_key (es_lru s)) \<and> int (length (es_lru s)) \<le> max 0 (ed_max_buckets policy)"

definition lru_ok :: "edge_policy \<Rightarrow> edge_bucket list \<Rightarrow> bool" where
  "lru_ok policy lru \<longleftrightarrow> distinct (map eb_key lru) \<and> int (length lru) \<le> max 0 (ed_max_buckets policy)"

lemma reset_bucket_fields [simp]: "eb_key (reset_bucket w b) = eb_key b" "eb_start (reset_bucket w b) = w"
  "0 \<le> eb_count b \<Longrightarrow> 0 \<le> eb_count (reset_bucket w b)"
  "eb_start b = w \<Longrightarrow> reset_bucket w b = b"
  by (auto simp: reset_bucket_def)

lemma edge_bucket_of_front:
  "edge_bucket_of policy key start lru = Some lru' \<Longrightarrow> \<exists>b. lru' = b # tl lru' \<and> eb_key b = key \<and> eb_start b = start"
  by (auto simp: edge_bucket_of_def Let_def find_Some_iff split: option.splits if_splits)

lemma edge_bucket_of_ok:
  assumes "edge_bucket_of policy key start lru = Some lru'" and "lru_ok policy lru"
  shows "lru_ok policy lru'"
proof (cases "find (\<lambda>b. eb_key b = key) lru")
  case None
  then have "key \<notin> set (map eb_key lru)" by (auto simp: find_None_iff)
  moreover from this have "key \<notin> set (butlast (map eb_key lru))" by (blast dest: in_set_butlastD)
  ultimately show ?thesis using assms None
    by (auto simp: edge_bucket_of_def lru_ok_def Let_def map_butlast distinct_butlast not_le split: if_splits
        dest: in_set_butlastD)
next
  case (Some b)
  then have b: "b \<in> set lru" "eb_key b = key" by (auto simp: find_Some_iff)
  have "length (filter (\<lambda>b. eb_key b \<noteq> key) lru) < length lru"
    using b by (intro length_filter_less) auto
  then show ?thesis using assms Some b
    by (auto simp: edge_bucket_of_def lru_ok_def distinct_map_filter)
qed

lemma edge_buckets_ok: "edge_buckets policy w ks lru = Some (ok, lru') \<Longrightarrow> lru_ok policy lru \<Longrightarrow> lru_ok policy lru'"
  by (induction policy w ks lru rule: edge_buckets.induct)
     (auto split: option.splits if_splits dest: edge_bucket_of_ok)

lemma count_bucket_keys [simp]: "map eb_key (count_bucket k lru) = map eb_key lru" "length (count_bucket k lru) = length lru"
  by (auto simp: count_bucket_def update_where_def)

lemma fold_count_ok: "lru_ok policy lru \<Longrightarrow> lru_ok policy (fold count_bucket ks lru)"
  by (induction ks arbitrary: lru) (simp_all add: lru_ok_def)

text \<open>What \<open>allow\<close> does to the bucket of the process and to the list.\<close>

abbreviation window_of :: "edge_policy \<Rightarrow> instant \<Rightarrow> int" where
  "window_of policy now \<equiv> go_div (now div second) (go_div (ed_window policy) second) * go_div (ed_window policy) second"

lemma edge_allow_cases:
  assumes "edge_allow policy pepper now origin prefix s = (a, s')"
  obtains (refused) "\<forall>x. a \<noteq> Some (True, x)" "es_slots s' = es_slots s"
      "es_global s' = es_global s \<or> es_global s' = reset_bucket (window_of policy now) (es_global s)"
      "es_lru s' = es_lru s \<or> (\<exists>ok. edge_buckets policy (window_of policy now) (edge_keys policy pepper origin prefix) (es_lru s)
        = Some (ok, es_lru s'))"
  | (allowed) lru where "a = Some (True, 0)" "es_slots s' = es_slots s"
      "es_global s' = (reset_bucket (window_of policy now) (es_global s))\<lparr>eb_count :=
         eb_count (reset_bucket (window_of policy now) (es_global s)) + 1\<rparr>"
      "eb_count (reset_bucket (window_of policy now) (es_global s)) < ed_global policy"
      "edge_buckets policy (window_of policy now) (edge_keys policy pepper origin prefix) (es_lru s) = Some (True, lru)"
      "es_lru s' = fold count_bucket (map fst (edge_keys policy pepper origin prefix)) lru"
  using assms
  by (auto simp: edge_allow_def Let_def bucket_available_def split: if_splits option.splits)

lemma edge_enter_cases:
  assumes "edge_enter policy pepper oo po now r s = (a, s')"
  obtains (refused) "a \<noteq> Some (Inr ())" "es_slots s' = es_slots s"
      "es_global s' = es_global s \<or> es_global s' = reset_bucket (window_of policy now) (es_global s)"
      "es_lru s' = es_lru s \<or> (\<exists>ok. edge_buckets policy (window_of policy now) (edge_keys policy pepper (oo r) (po r)) (es_lru s)
        = Some (ok, es_lru s'))"
  | (allowed) lru where "a = Some (Inr ())" "int (es_slots s) < ed_max_in_flight policy" "es_slots s' = es_slots s + 1"
      "es_global s' = (reset_bucket (window_of policy now) (es_global s))\<lparr>eb_count :=
         eb_count (reset_bucket (window_of policy now) (es_global s)) + 1\<rparr>"
      "eb_count (reset_bucket (window_of policy now) (es_global s)) < ed_global policy"
      "edge_buckets policy (window_of policy now) (edge_keys policy pepper (oo r) (po r)) (es_lru s) = Some (True, lru)"
      "es_lru s' = fold count_bucket (map fst (edge_keys policy pepper (oo r) (po r))) lru"
proof (cases "int (es_slots s) \<ge> ed_max_in_flight policy")
  case True
  then show ?thesis using assms refused by (auto simp: edge_enter_def)
next
  case False
  obtain b s2 where al: "edge_allow policy pepper now (oo r) (po r) (s\<lparr>es_slots := es_slots s + 1\<rparr>) = (b, s2)" by fastforce
  from al show ?thesis
  proof (cases rule: edge_allow_cases)
    case r1: refused
    have "a \<noteq> Some (Inr ()) \<and> s' = edge_leave s2"
      using assms False al r1(1) by (auto simp: edge_enter_def Let_def split: option.splits if_splits)
    then show ?thesis using refused r1 by (auto simp: edge_leave_def)
  next
    case (allowed lru)
    have "a = Some (Inr ()) \<and> s' = s2"
      using assms False al allowed(1) by (auto simp: edge_enter_def Let_def)
    then show ?thesis using that(2) [of lru] allowed False by auto
  qed
qed

lemma edge_enter_inv:
  assumes "edge_enter policy pepper oo po now r s = (a, s')" and "edge_inv policy s"
  shows "edge_inv policy s'"
  using assms(1)
proof (cases rule: edge_enter_cases)
  case refused
  then have "lru_ok policy (es_lru s')" using assms(2) edge_buckets_ok by (auto simp: edge_inv_def lru_ok_def)
  then show ?thesis using refused assms(2) by (auto simp: edge_inv_def lru_ok_def)
next
  case (allowed lru)
  then have "lru_ok policy (es_lru s')"
    using assms(2) edge_buckets_ok [OF allowed(6)] fold_count_ok by (auto simp: edge_inv_def lru_ok_def)
  moreover have "0 \<le> eb_count (es_global s')" using allowed(4) assms(2) by (simp add: edge_inv_def add_increasing2)
  ultimately show ?thesis using allowed(2,3) by (auto simp: edge_inv_def lru_ok_def)
qed

lemma edge_leave_inv: "edge_inv policy s \<Longrightarrow> edge_inv policy (edge_leave s)"
  by (auto simp: edge_inv_def edge_leave_def)

text \<open>The arrivals of a run, and the times of those that were admitted.\<close>

fun arrivals :: "'p edge_event list \<Rightarrow> (instant \<times> 'p request) list" where
  "arrivals [] = []"
| "arrivals (Arrive now r # es) = (now, r) # arrivals es"
| "arrivals (Depart # es) = arrivals es"

definition let_in :: "'p edge_event list \<Rightarrow> ((string \<times> 'a reply) + unit) option list \<Rightarrow> (instant \<times> 'p request) list" where
  "let_in es as = map fst (filter (\<lambda>(x, a). a = Some (Inr ())) (zip (arrivals es) as))"

lemma let_in_simps [simp]:
  "let_in [] as = []" "let_in (Depart # es) as = let_in es as"
  "let_in (Arrive now r # es) (a # as) = (if a = Some (Inr ()) then [(now, r)] else []) @ let_in es as"
  by (simp_all add: let_in_def)

lemma edge_run_Arrive:
  assumes "edge_run policy pepper oo po (Arrive now r # es) s = (as, s')"
  obtains a s1 as1 where "edge_enter policy pepper oo po now r s = (a, s1)" "edge_run policy pepper oo po es s1 = (as1, s')"
    "as = a # as1"
  using assms by (auto split: prod.splits)

lemma edge_run_inv: "edge_run policy pepper oo po es s = (as, s') \<Longrightarrow> edge_inv policy s \<Longrightarrow> edge_inv policy s'"
proof (induction es arbitrary: s as)
  case (Cons e es)
  show ?case
  proof (cases e)
    case (Arrive now r)
    then show ?thesis
      using Cons.prems Cons.IH edge_enter_inv edge_run_Arrive by metis
  next
    case Depart
    then show ?thesis using Cons by (auto simp: edge_leave_inv split: if_splits)
  qed
qed simp

text \<open>\<open>n\<close> requests of the window \<open>w\<close> have been let in, and the bucket of the process knows it or is past the window.\<close>

definition window_count :: "edge_policy \<Rightarrow> int \<Rightarrow> nat \<Rightarrow> edge_bucket \<Rightarrow> bool" where
  "window_count policy w n g \<longleftrightarrow> 0 \<le> eb_count g \<and> int n \<le> max 0 (ed_global policy)
     \<and> (0 < n \<longrightarrow> eb_start g = w \<and> int n \<le> eb_count g \<or> w < eb_start g)"

lemma window_count_reset:
  "window_count policy w n g \<Longrightarrow> (0 < n \<Longrightarrow> eb_start g \<le> v) \<Longrightarrow> window_count policy w n (reset_bucket v g)"
  by (cases "eb_start g = v") (auto simp: window_count_def reset_bucket_def)

lemma window_count_next:
  "window_count policy w n g \<Longrightarrow> eb_start g = v \<Longrightarrow> eb_count g < ed_global policy
    \<Longrightarrow> window_count policy w (if v = w then Suc n else n) (g\<lparr>eb_count := eb_count g + 1\<rparr>)"
  by (auto simp: window_count_def)

lemma window_count_run:
  assumes "edge_run policy pepper oo po es s = (as, s')" and "window_count policy w n (es_global s)"
    and "sorted (map (\<lambda>(now, r). window_of policy now) (arrivals es))"
    and "0 < n \<Longrightarrow> \<forall>(now, r)\<in>set (arrivals es). eb_start (es_global s) \<le> window_of policy now"
  shows "int (n + count_where (\<lambda>(now, r). window_of policy now = w) (let_in es as)) \<le> max 0 (ed_global policy)"
  using assms
proof (induction es arbitrary: s as n)
  case Nil
  then show ?case by (simp add: window_count_def count_where_def)
next
  case (Cons e es)
  show ?case
  proof (cases e)
    case Depart
    then show ?thesis using Cons.IH [of _ as n] Cons.prems by (auto simp: edge_leave_def split: if_splits)
  next
    case (Arrive now r)
    obtain a s1 as1 where en: "edge_enter policy pepper oo po now r s = (a, s1)"
      and run: "edge_run policy pepper oo po es s1 = (as1, s')" and as: "as = a # as1"
      using Cons.prems(1) unfolding Arrive by (rule edge_run_Arrive)
    have later: "sorted (map (\<lambda>(now, r). window_of policy now) (arrivals es))"
      "\<forall>(t, r)\<in>set (arrivals es). window_of policy now \<le> window_of policy t"
      using Cons.prems(3) by (auto simp: Arrive)
    have old: "0 < n \<Longrightarrow> eb_start (es_global s) \<le> window_of policy now"
      using Cons.prems(4) by (auto simp: Arrive)
    from en show ?thesis
    proof (cases rule: edge_enter_cases)
      case refused
      have "window_count policy w n (es_global s1)"
        using refused(3) Cons.prems(2) window_count_reset [OF Cons.prems(2) old] by metis
      moreover have "0 < n \<Longrightarrow> \<forall>(t, r)\<in>set (arrivals es). eb_start (es_global s1) \<le> window_of policy t"
        using refused(3) later(2) old by fastforce
      ultimately show ?thesis using Cons.IH [OF run _ later(1)] refused(1) by (simp add: as Arrive)
    next
      case (allowed lru)
      let ?m = "if window_of policy now = w then Suc n else n"
      have "window_count policy w ?m (es_global s1)"
        using window_count_next [OF window_count_reset [OF Cons.prems(2) old] _ allowed(5)] allowed(4) by simp
      moreover have "0 < ?m \<Longrightarrow> \<forall>(t, r)\<in>set (arrivals es). eb_start (es_global s1) \<le> window_of policy t"
        using allowed(4) later(2) by fastforce
      ultimately have "int (?m + count_where (\<lambda>(now, r). window_of policy now = w) (let_in es as1)) \<le> max 0 (ed_global policy)"
        by (intro Cons.IH [OF run _ later(1)])
      then show ?thesis using allowed(1) by (simp add: as Arrive count_where_def split: if_splits)
    qed
  qed
qed

text \<open>The bucket of a key is still in the list and has counted \<open>n\<close> requests of the window.\<close>

definition key_count :: "bytes \<Rightarrow> int \<Rightarrow> int \<Rightarrow> nat \<Rightarrow> edge_bucket list \<Rightarrow> bool" where
  "key_count key w limit n lru \<longleftrightarrow> int n \<le> max 0 limit \<and> (\<forall>b\<in>set lru. 0 \<le> eb_count b)
     \<and> (0 < n \<longrightarrow> (\<exists>b. find (\<lambda>b. eb_key b = key) lru = Some b \<and> eb_start b = w \<and> int n \<le> eb_count b))"

lemma key_count_of:
  assumes "key_count k w limit n lru" and "edge_bucket_of policy k' w lru = Some lru'"
    and "k' = k \<or> (n = 0 \<or> int (length lru) < ed_max_buckets policy \<or> 2 \<le> ed_max_buckets policy \<and> eb_key (hd lru) = k)"
  shows "key_count k w limit n lru'"
proof (cases "find (\<lambda>b. eb_key b = k') lru")
  case (Some b)
  have f: "find (\<lambda>b. eb_key b = k) (filter (\<lambda>b. eb_key b \<noteq> k') lru) = find (\<lambda>b. eb_key b = k) lru" if "k' \<noteq> k"
    using that by (induction lru) auto
  have "b \<in> set lru" "eb_key b = k'" using Some by (auto simp: find_Some_iff)
  then show ?thesis using assms Some f by (cases "k' = k") (auto simp: edge_bucket_of_def key_count_def)
next
  case None
  have f: "find (\<lambda>b. eb_key b = k) (butlast lru) = find (\<lambda>b. eb_key b = k) lru"
    if "k' \<noteq> k" "eb_key (hd lru) = k" "2 \<le> length lru"
    using that by (cases lru rule: list.exhaust) auto
  have "\<forall>b\<in>set (butlast lru). b \<in> set lru" by (blast dest: in_set_butlastD)
  then show ?thesis using assms None f
    by (auto simp: edge_bucket_of_def key_count_def Let_def split: if_splits)
qed

lemma find_count_bucket:
  "find (\<lambda>b. eb_key b = k) (count_bucket k' lru)
    = map_option (\<lambda>b. if eb_key b = k' then b\<lparr>eb_count := eb_count b + 1\<rparr> else b) (find (\<lambda>b. eb_key b = k) lru)"
  by (induction lru) (auto simp: count_bucket_def update_where_def)

lemma key_count_bucket:
  assumes "key_count k w limit n lru"
  shows "key_count k w limit n (count_bucket k' lru)"
proof (cases "find (\<lambda>b. eb_key b = k) lru")
  case None
  then show ?thesis using assms unfolding key_count_def find_count_bucket
    by (auto simp: count_bucket_def update_where_def)
next
  case (Some b)
  let ?b = "if eb_key b = k' then b\<lparr>eb_count := eb_count b + 1\<rparr> else b"
  have "find (\<lambda>b. eb_key b = k) (count_bucket k' lru) = Some ?b" by (simp add: find_count_bucket Some)
  moreover have "eb_count b \<le> eb_count ?b \<and> eb_start ?b = eb_start b" by simp
  ultimately show ?thesis using assms Some unfolding key_count_def
    by (auto simp: count_bucket_def update_where_def)
qed

lemma key_count_next:
  assumes "key_count k w limit n lru" and "find (\<lambda>b. eb_key b = k) lru = Some b" and "eb_start b = w"
    and "int n < limit"
  shows "key_count k w limit (Suc n) (count_bucket k lru)"
proof -
  have "b \<in> set lru" "eb_key b = k" using assms(2) by (auto simp: find_Some_iff)
  moreover have "int n \<le> eb_count b" using assms(1,2) \<open>b \<in> set lru\<close> by (cases "n = 0") (auto simp: key_count_def)
  ultimately show ?thesis using assms unfolding key_count_def find_count_bucket
    by (auto simp: count_bucket_def update_where_def)
qed

lemma key_count_refused:
  assumes "edge_buckets policy w (edge_keys policy pepper origin prefix) lru = Some (ok, lru')"
    and "key_count (edge_key pepper ''origin'' origin) w l n lru" and "2 \<le> ed_max_buckets policy"
  shows "key_count (edge_key pepper ''origin'' origin) w l n lru'"
    and "ok \<Longrightarrow> \<exists>b. find (\<lambda>b. eb_key b = edge_key pepper ''origin'' origin) lru' = Some b \<and> eb_start b = w
      \<and> eb_count b < ed_origin policy"
proof -
  let ?k = "edge_key pepper ''origin'' origin"
  obtain lru1 where l1: "edge_bucket_of policy ?k w lru = Some lru1"
    using assms(1) by (auto simp: edge_keys_def split: option.splits)
  obtain b where b: "lru1 = b # tl lru1" "eb_key b = ?k" "eb_start b = w" using edge_bucket_of_front [OF l1] by blast
  have k1: "key_count ?k w l n lru1" by (rule key_count_of [OF assms(2) l1]) simp
  have avail: "bucket_available w (ed_origin policy) b \<Longrightarrow> eb_count b < ed_origin policy"
    using b(3) by (simp add: bucket_available_def)
  have find1: "find (\<lambda>b. eb_key b = ?k) lru1 = Some b" using b by (cases lru1) auto
  have hd: "hd lru1 = b" using b(1) by (cases lru1) auto
  show "key_count ?k w l n lru'"
    using assms(1,3) l1 k1 key_count_of [OF k1] hd b(2) by (auto simp: edge_keys_def split: option.splits if_splits)
  show "\<exists>b. find (\<lambda>b. eb_key b = ?k) lru' = Some b \<and> eb_start b = w \<and> eb_count b < ed_origin policy" if ok
  proof (cases "prefix = []")
    case True
    then show ?thesis using assms(1) that l1 find1 avail b(3) hd by (auto simp: edge_keys_def split: if_splits)
  next
    case False
    have lt: "eb_count b < ed_origin policy"
      using assms(1) that l1 avail hd by (auto simp: edge_keys_def split: if_splits)
    have l2: "edge_bucket_of policy (edge_key pepper ''prefix'' prefix) w lru1 = Some lru'"
      using assms(1) that l1 False by (auto simp: edge_keys_def split: option.splits if_splits)
    show ?thesis
    proof (cases "edge_key pepper ''prefix'' prefix = ?k")
      case True
      then show ?thesis using l2 find1 b lt by (auto simp: edge_bucket_of_def)
    next
      case False
      have "find (\<lambda>b. eb_key b = ?k) lru' = Some b"
      proof (cases "find (\<lambda>b. eb_key b = edge_key pepper ''prefix'' prefix) lru1")
        case (Some c)
        have "find (\<lambda>b. eb_key b = ?k) (filter (\<lambda>b. eb_key b \<noteq> edge_key pepper ''prefix'' prefix) lru1) = Some b"
          using False b by (cases lru1) auto
        moreover have "eb_key c = edge_key pepper ''prefix'' prefix" using Some by (auto simp: find_Some_iff)
        ultimately show ?thesis using l2 Some False by (auto simp: edge_bucket_of_def)
      next
        case None
        have "find (\<lambda>b. eb_key b = ?k) (butlast lru1) = Some b" if "ed_max_buckets policy \<le> int (length lru1)"
          using that assms(3) b by (cases lru1 rule: list.exhaust; cases "tl lru1") auto
        then show ?thesis using l2 None False find1 by (auto simp: edge_bucket_of_def Let_def split: if_splits)
      qed
      then show ?thesis using b(3) lt by blast
    qed
  qed
qed

lemma edge_enter_key_count:
  assumes "edge_enter policy pepper oo po now r s = (a, s')" and "oo r = origin" and "window_of policy now = w"
    and "key_count (edge_key pepper ''origin'' origin) w (ed_origin policy) n (es_lru s)" and "2 \<le> ed_max_buckets policy"
  shows "key_count (edge_key pepper ''origin'' origin) w (ed_origin policy) (if a = Some (Inr ()) then Suc n else n) (es_lru s')"
  using assms(1)
proof (cases rule: edge_enter_cases)
  case refused
  then show ?thesis using assms key_count_refused(1) by auto
next
  case (allowed lru)
  let ?k = "edge_key pepper ''origin'' origin"
  have e: "edge_buckets policy w (edge_keys policy pepper origin (po r)) (es_lru s) = Some (True, lru)"
    using allowed(6) assms(2,3) by simp
  obtain b where b: "find (\<lambda>b. eb_key b = ?k) lru = Some b" "eb_start b = w" "eb_count b < ed_origin policy"
    using key_count_refused(2) [OF e assms(4,5)] by auto
  have kc: "key_count ?k w (ed_origin policy) n lru" by (rule key_count_refused(1) [OF e assms(4,5)])
  have "b \<in> set lru" using b(1) by (auto simp: find_Some_iff)
  then have "int n < ed_origin policy" using kc b by (cases "n = 0") (auto simp: key_count_def)
  then have "key_count ?k w (ed_origin policy) (Suc n) (count_bucket ?k lru)"
    by (rule key_count_next [OF kc b(1,2)])
  then have "key_count ?k w (ed_origin policy) (Suc n) (es_lru s')"
    unfolding allowed(7) using assms(2) key_count_bucket by (auto simp: edge_keys_def)
  then show ?thesis using allowed(1) by simp
qed

lemma key_count_run:
  assumes "edge_run policy pepper oo po es s = (as, s')"
    and "\<forall>(now, r)\<in>set (arrivals es). oo r = origin \<and> window_of policy now = w"
    and "key_count (edge_key pepper ''origin'' origin) w (ed_origin policy) n (es_lru s)" and "2 \<le> ed_max_buckets policy"
  shows "int (n + length (let_in es as)) \<le> max 0 (ed_origin policy)"
  using assms
proof (induction es arbitrary: s as n)
  case Nil
  then show ?case by (simp add: key_count_def)
next
  case (Cons e es)
  show ?case
  proof (cases e)
    case Depart
    then show ?thesis using Cons.IH [of _ as n] Cons.prems by (auto simp: edge_leave_def split: if_splits)
  next
    case (Arrive now r)
    obtain a s1 as1 where en: "edge_enter policy pepper oo po now r s = (a, s1)"
      and run: "edge_run policy pepper oo po es s1 = (as1, s')" and as: "as = a # as1"
      using Cons.prems(1) unfolding Arrive by (rule edge_run_Arrive)
    have here: "oo r = origin" "window_of policy now = w"
      and rest: "\<forall>(now, r)\<in>set (arrivals es). oo r = origin \<and> window_of policy now = w"
      using Cons.prems(2) by (auto simp: Arrive)
    from Cons.IH [OF run rest edge_enter_key_count [OF en here Cons.prems(3,4)] Cons.prems(4)]
    show ?thesis by (simp add: as Arrive split: if_splits)
  qed
qed

section \<open>Properties\<close>

text \<open>C31. The process limits hold in every run: from a new limiter, whatever requests arrive and depart and in whatever
  order, no more than \<open>MaxInFlight\<close> hold a slot, the list never has more than \<open>MaxBuckets\<close> buckets and none twice, and
  in no window are more than \<open>Global\<close> requests let in, as long as the clock does not fall back to an earlier window.\<close>

theorem edge_limits:
  assumes "new_edge policy = Some s0" and "edge_run policy pepper oo po es s0 = (as, s)"
    and "sorted (map (\<lambda>(now, r). window_of policy now) (arrivals es))"
  shows "int (es_slots s) \<le> ed_max_in_flight policy \<and> int (length (es_lru s)) \<le> max 0 (ed_max_buckets policy)
    \<and> distinct (map eb_key (es_lru s))
    \<and> int (count_where (\<lambda>(now, r). window_of policy now = w) (let_in es as)) \<le> max 0 (ed_global policy)"
proof -
  have s0: "edge_inv policy s0" "window_count policy w 0 (es_global s0)"
    using assms(1) by (auto simp: new_edge_def edge_inv_def window_count_def split: if_splits)
  have "edge_inv policy s" by (rule edge_run_inv [OF assms(2) s0(1)])
  then show ?thesis using window_count_run [OF assms(2) s0(2) assms(3)] by (simp add: edge_inv_def)
qed

text \<open>Nobody escapes the limit of an origin by presenting many credentials: when there is room for two buckets, a series
  of requests from one origin within one window, whatever prefixes they present, is let in at most \<open>Origin\<close> times.\<close>

theorem edge_origin_limited:
  assumes "edge_run policy pepper oo po es s = (as, s')" and "\<forall>b\<in>set (es_lru s). 0 \<le> eb_count b"
    and "\<forall>(now, r)\<in>set (arrivals es). oo r = origin \<and> window_of policy now = w" and "2 \<le> ed_max_buckets policy"
  shows "int (length (let_in es as)) \<le> max 0 (ed_origin policy)"
  using key_count_run [OF assms(1,3) _ assms(4), of 0] assms(2) by (simp add: key_count_def)

text \<open>Two requests of one origin with different prefixes, under a limit of one for the origin.\<close>

definition demo_edge :: edge_policy where
  "demo_edge = \<lparr>ed_max_in_flight = 4, ed_global = 3, ed_origin = 1, ed_prefix = 1, ed_max_buckets = 2, ed_window = second\<rparr>"

definition demo_arrivals :: "unit edge_event list" where
  "demo_arrivals = map (Arrive (5 * second)) [\<lparr>hx_header = \<lambda>_. ''a'', hx_path_value = \<lambda>_. [], hx_query = [], hx_body = [],
       hx_remote = ''192.0.2.1'', hx_principal = None, hx_request_id = []\<rparr>,
     \<lparr>hx_header = \<lambda>_. ''b'', hx_path_value = \<lambda>_. [], hx_query = [], hx_body = [],
       hx_remote = ''192.0.2.1'', hx_principal = None, hx_request_id = []\<rparr>]"

definition demo_edge_start :: edge_state where
  "demo_edge_start = \<lparr>es_slots = 0, es_global = \<lparr>eb_key = replicate 32 (byte_of 0), eb_start = 0, eb_count = 0\<rparr>, es_lru = []\<rparr>"

definition demo_edge_run :: "((string \<times> unit reply) + unit) option list \<times> edge_state" where
  "demo_edge_run = edge_run demo_edge 7 hx_remote (\<lambda>r. hx_header r ''p'') demo_arrivals demo_edge_start"

lemma edge_limits_witness: "int (es_slots (snd demo_edge_run)) \<le> 4 \<and> int (length (es_lru (snd demo_edge_run))) \<le> 2"
proof -
  have s0: "new_edge demo_edge = Some demo_edge_start" by (simp add: new_edge_def demo_edge_def demo_edge_start_def)
  have run: "edge_run demo_edge 7 hx_remote (\<lambda>r. hx_header r ''p'') demo_arrivals demo_edge_start
      = (fst demo_edge_run, snd demo_edge_run)" by (simp add: demo_edge_run_def)
  have "sorted (map (\<lambda>(now, r). window_of demo_edge now) (arrivals demo_arrivals))"
    by (simp add: demo_arrivals_def)
  from edge_limits [OF s0 run this] show ?thesis by (simp add: demo_edge_def)
qed

lemma edge_origin_limited_witness: "length (let_in demo_arrivals (fst demo_edge_run)) \<le> 1"
proof -
  have run: "edge_run demo_edge 7 hx_remote (\<lambda>r. hx_header r ''p'') demo_arrivals demo_edge_start
      = (fst demo_edge_run, snd demo_edge_run)" by (simp add: demo_edge_run_def)
  have "\<forall>b\<in>set (es_lru demo_edge_start). 0 \<le> eb_count b" by (simp add: demo_edge_start_def)
  moreover have "\<forall>(now, r)\<in>set (arrivals demo_arrivals). hx_remote r = ''192.0.2.1'' \<and> window_of demo_edge now = 5"
    by (simp add: demo_arrivals_def demo_edge_def second_def)
  ultimately show ?thesis using edge_origin_limited [OF run] by (simp add: demo_edge_def)
qed

end
