(* ===== verification/Config.thy ===== *)
theory Config
  imports Complex_Main Cryptobox Outbound
begin

text \<open>
  \<open>internal/platform/config\<close>: the configuration of a process, read from defaults, the environment and the command
  line, and validated. An error is named by the setting it is about. \<open>time.ParseDuration\<close>, \<open>strconv.ParseFloat\<close>,
  \<open>url.Parse\<close>, the integer syntax of flags, the Unicode case tables and the JSON decoder are arguments; the file
  system is the one of \<open>Cryptobox\<close>.
\<close>

section \<open>Values\<close>

type_synonym config_error = string
type_synonym environment = "string \<Rightarrow> string option"

text \<open>A \<open>float64\<close>, as far as the configuration looks at one.\<close>

datatype float64 = Not_a_number | Infinite | Finite rat

datatype service = API | Worker | Console | Chaos_lab | Service_other string

record config_url =
  cu_scheme :: string
  cu_user :: "(string \<times> bool) option"
  cu_host :: string
  cu_path :: string
  cu_raw_query :: string
  cu_fragment :: string
  cu_query :: "string \<Rightarrow> string list"

record config_lib =
  cl_duration :: "string \<Rightarrow> duration option"
  cl_float :: "string \<Rightarrow> float64 option"
  cl_url :: "string \<Rightarrow> config_url option"
  cl_flag_int :: "string \<Rightarrow> int option"
  cl_lower :: "string \<Rightarrow> string"
  cl_keyring :: "bytes \<Rightarrow> keyring_document option"
  cl_euid :: nat
  cl_files :: "string \<rightharpoonup> file_entry"

record quota_limits =
  ql_global :: int
  ql_workspace :: int
  ql_api_key :: int
  ql_resource :: int
  ql_window :: duration

record quota_config =
  qc_ingest :: quota_limits
  qc_endpoint_write :: quota_limits
  qc_query :: quota_limits
  qc_replay :: quota_limits

record edge_config =
  ec_max_in_flight :: int
  ec_global :: int
  ec_origin :: int
  ec_prefix :: int
  ec_max_buckets :: int
  ec_window :: duration

record telemetry_config =
  tc_endpoint :: string
  tc_timeout :: duration
  tc_ratio :: float64
  tc_allow_private :: bool

record console_config =
  cc_origin :: string
  cc_idle :: duration
  cc_absolute :: duration

record config =
  cg_service :: service
  cg_profile :: profile
  cg_version :: string
  cg_log_level :: string
  cg_http_addr :: string
  cg_operational_addr :: string
  cg_database_url :: string
  cg_database_local_socket :: bool
  cg_database_timeout :: duration
  cg_shutdown_timeout :: duration
  cg_ingress_tls :: bool
  cg_pprof :: bool
  cg_allow_http :: bool
  cg_concurrency :: int
  cg_batch_size :: int
  cg_workspace_limit :: int
  cg_endpoint_limit :: int
  cg_poll :: duration
  cg_claim_timeout :: duration
  cg_request_timeout :: duration
  cg_lease_ttl :: duration
  cg_retry_base :: duration
  cg_retry_cap :: duration
  cg_edge :: edge_config
  cg_quotas :: quota_config
  cg_telemetry :: telemetry_config
  cg_console :: console_config
  cg_secrets :: secret_files

section \<open>Sequences of steps that may fail\<close>

definition and_then :: "'e + 'a \<Rightarrow> ('a \<Rightarrow> 'e + 'b) \<Rightarrow> 'e + 'b" where
  "and_then m f = (case m of Inl e \<Rightarrow> Inl e | Inr x \<Rightarrow> f x)"

text \<open>A series of tests: the error of the first that holds.\<close>

fun refuse_if :: "(bool \<times> config_error) list \<Rightarrow> config_error + unit" where
  "refuse_if [] = Inr ()"
| "refuse_if ((bad, e) # cs) = (if bad then Inl e else refuse_if cs)"

lemma and_then_simps [simp]: "and_then (Inr x) f = f x" "and_then (Inl e) f = Inl e"
  by (simp_all add: and_then_def)

lemma and_then_Inr [simp]: "and_then m f = Inr y \<longleftrightarrow> (\<exists>x. m = Inr x \<and> f x = Inr y)"
  by (auto simp: and_then_def split: sum.split)

lemma refuse_if_Inr [simp]: "refuse_if cs = Inr u \<longleftrightarrow> (\<forall>(bad, e)\<in>set cs. \<not> bad)"
  by (induction cs rule: refuse_if.induct) auto

declare refuse_if.simps [simp del]

section \<open>Defaults\<close>

definition profile_of :: "string \<Rightarrow> profile" where
  "profile_of s = (if s = ''local'' then Local else if s = ''test'' then Test
     else if s = ''production'' then Production else Profile_other s)"

definition default_edge :: edge_config where
  "default_edge = \<lparr>ec_max_in_flight = 256, ec_global = 60000, ec_origin = 600, ec_prefix = 300, ec_max_buckets = 4096,
     ec_window = minute\<rparr>"

definition default_quotas :: quota_config where
  "default_quotas = \<lparr>
     qc_ingest = \<lparr>ql_global = 10000, ql_workspace = 200, ql_api_key = 200, ql_resource = 0, ql_window = second\<rparr>,
     qc_endpoint_write = \<lparr>ql_global = 6000, ql_workspace = 60, ql_api_key = 60, ql_resource = 0, ql_window = minute\<rparr>,
     qc_query = \<lparr>ql_global = 30000, ql_workspace = 300, ql_api_key = 300, ql_resource = 0, ql_window = minute\<rparr>,
     qc_replay = \<lparr>ql_global = 1000, ql_workspace = 10, ql_api_key = 10, ql_resource = 2, ql_window = minute\<rparr>\<rparr>"

text \<open>\<open>0.1\<close> is the closest \<open>float64\<close> to one tenth.\<close>

definition default_telemetry :: telemetry_config where
  "default_telemetry = \<lparr>tc_endpoint = [], tc_timeout = 5 * second,
     tc_ratio = Finite (3602879701896397 / 36028797018963968), tc_allow_private = False\<rparr>"

definition default_console :: console_config where
  "default_console = \<lparr>cc_origin = ''http://127.0.0.1:8082'', cc_idle = 15 * minute, cc_absolute = 60 * minute\<rparr>"

definition no_secrets :: secret_files where
  "no_secrets = \<lparr>sf_auth_pepper = [], sf_idempotency_pepper = [], sf_fingerprint_pepper = [], sf_rate_limit_pepper = [],
     sf_cursor_pepper = [], sf_session_pepper = [], sf_csrf_pepper = [], sf_payload_keyring = [], sf_signing_keyring = []\<rparr>"

definition base_config :: "service \<Rightarrow> config" where
  "base_config sv = \<lparr>cg_service = sv, cg_profile = Local, cg_version = ''dev'', cg_log_level = ''info'', cg_http_addr = [],
     cg_operational_addr = [], cg_database_url = [], cg_database_local_socket = False, cg_database_timeout = 5 * second,
     cg_shutdown_timeout = 30 * second, cg_ingress_tls = False, cg_pprof = False, cg_allow_http = False,
     cg_concurrency = 0, cg_batch_size = 0, cg_workspace_limit = 0, cg_endpoint_limit = 0, cg_poll = 0,
     cg_claim_timeout = 0, cg_request_timeout = 0, cg_lease_ttl = 0, cg_retry_base = 0, cg_retry_cap = 0,
     cg_edge = default_edge, cg_quotas = default_quotas, cg_telemetry = default_telemetry,
     cg_console = \<lparr>cc_origin = [], cc_idle = 0, cc_absolute = 0\<rparr>, cg_secrets = no_secrets\<rparr>"

definition config_defaults :: "service \<Rightarrow> config_error + config" where
  "config_defaults sv =
     (case sv of
        API \<Rightarrow> Inr ((base_config sv)\<lparr>cg_http_addr := '':8080'', cg_operational_addr := ''127.0.0.1:9090''\<rparr>)
      | Console \<Rightarrow> Inr ((base_config sv)\<lparr>cg_http_addr := '':8082'', cg_operational_addr := ''127.0.0.1:9092'',
                                         cg_console := default_console\<rparr>)
      | Chaos_lab \<Rightarrow> Inr ((base_config sv)\<lparr>cg_http_addr := ''127.0.0.1:8081''\<rparr>)
      | Worker \<Rightarrow> Inr ((base_config sv)\<lparr>cg_operational_addr := ''127.0.0.1:9091'', cg_concurrency := 8,
          cg_batch_size := 8, cg_workspace_limit := 2, cg_endpoint_limit := 2, cg_poll := 250 * millisecond,
          cg_claim_timeout := 200 * millisecond, cg_request_timeout := 10 * second, cg_lease_ttl := 30 * second,
          cg_retry_base := second, cg_retry_cap := 15 * minute\<rparr>)
      | Service_other s \<Rightarrow> Inl ''service'')"

section \<open>The environment\<close>

definition parse_bool :: "string \<Rightarrow> bool option" where
  "parse_bool s =
     (if s \<in> {''1'', ''t'', ''T'', ''TRUE'', ''true'', ''True''} then Some True
      else if s \<in> {''0'', ''f'', ''F'', ''FALSE'', ''false'', ''False''} then Some False else None)"

definition env_with :: "(string \<Rightarrow> 'a option) \<Rightarrow> environment \<Rightarrow> string \<Rightarrow> 'a \<Rightarrow> config_error + 'a" where
  "env_with parse lookup name fallback =
     (case lookup name of
        None \<Rightarrow> Inr fallback
      | Some v \<Rightarrow> (case parse v of None \<Rightarrow> Inl name | Some x \<Rightarrow> Inr x))"

definition bool_env :: "environment \<Rightarrow> string \<Rightarrow> bool \<Rightarrow> config_error + bool" where
  "bool_env = env_with parse_bool"

definition int_env :: "environment \<Rightarrow> string \<Rightarrow> int \<Rightarrow> config_error + int" where
  "int_env = env_with atoi"

definition duration_env :: "config_lib \<Rightarrow> environment \<Rightarrow> string \<Rightarrow> duration \<Rightarrow> config_error + duration" where
  "duration_env L = env_with (cl_duration L)"

definition assign_env :: "environment \<Rightarrow> string \<Rightarrow> string \<Rightarrow> string" where
  "assign_env lookup name old = (case lookup name of None \<Rightarrow> old | Some v \<Rightarrow> v)"

definition env_value :: "environment \<Rightarrow> string \<Rightarrow> string" where
  "env_value lookup name = (case lookup name of None \<Rightarrow> [] | Some v \<Rightarrow> trim_space v)"

definition http_addr_variable :: "service \<Rightarrow> string" where
  "http_addr_variable sv = (if sv = Chaos_lab then ''WDE_CHAOSLAB_HTTP_ADDR''
     else if sv = Console then ''WDE_CONSOLE_HTTP_ADDR'' else ''WDE_API_HTTP_ADDR'')"

definition operational_addr_variable :: "service \<Rightarrow> string" where
  "operational_addr_variable sv = (if sv = Worker then ''WDE_WORKER_OPERATIONAL_ADDR''
     else if sv = Console then ''WDE_CONSOLE_OPERATIONAL_ADDR'' else ''WDE_API_OPERATIONAL_ADDR'')"

definition apply_string_environment :: "environment \<Rightarrow> config \<Rightarrow> config" where
  "apply_string_environment lookup cfg = cfg\<lparr>
     cg_profile := (case lookup ''WDE_PROFILE'' of None \<Rightarrow> cg_profile cfg | Some v \<Rightarrow> profile_of v),
     cg_version := assign_env lookup ''WDE_VERSION'' (cg_version cfg),
     cg_log_level := assign_env lookup ''WDE_LOG_LEVEL'' (cg_log_level cfg),
     cg_database_url := assign_env lookup ''WDE_DATABASE_URL'' (cg_database_url cfg),
     cg_http_addr := assign_env lookup (http_addr_variable (cg_service cfg)) (cg_http_addr cfg),
     cg_operational_addr := assign_env lookup (operational_addr_variable (cg_service cfg)) (cg_operational_addr cfg)\<rparr>"

text \<open>A table of settings: the name of a variable, how the field is read and how it is set.\<close>

fun apply_settings ::
    "(string \<Rightarrow> 'a \<Rightarrow> config_error + 'a) \<Rightarrow> (string \<times> ('c \<Rightarrow> 'a) \<times> ('a \<Rightarrow> 'c \<Rightarrow> 'c)) list \<Rightarrow> 'c \<Rightarrow> config_error + 'c" where
  "apply_settings env [] c = Inr c"
| "apply_settings env ((name, get, put) # rest) c =
     and_then (env name (get c)) (\<lambda>v. apply_settings env rest (put v c))"

definition apply_quota_policy :: "config_lib \<Rightarrow> environment \<Rightarrow> string \<Rightarrow> quota_limits \<Rightarrow> config_error + quota_limits" where
  "apply_quota_policy L lookup prefix p =
     and_then (apply_settings (int_env lookup)
         [(prefix @ ''_GLOBAL'', ql_global, \<lambda>v. ql_global_update (\<lambda>_. v)),
          (prefix @ ''_WORKSPACE'', ql_workspace, \<lambda>v. ql_workspace_update (\<lambda>_. v)),
          (prefix @ ''_API_KEY'', ql_api_key, \<lambda>v. ql_api_key_update (\<lambda>_. v)),
          (prefix @ ''_RESOURCE'', ql_resource, \<lambda>v. ql_resource_update (\<lambda>_. v))] p) (\<lambda>p.
     and_then (duration_env L lookup (prefix @ ''_WINDOW'') (ql_window p)) (\<lambda>w. Inr (p\<lparr>ql_window := w\<rparr>)))"

definition apply_quota_environment :: "config_lib \<Rightarrow> environment \<Rightarrow> config \<Rightarrow> config_error + config" where
  "apply_quota_environment L lookup cfg =
     and_then (apply_quota_policy L lookup ''WDE_QUOTA_INGEST'' (qc_ingest (cg_quotas cfg))) (\<lambda>a.
     and_then (apply_quota_policy L lookup ''WDE_QUOTA_ENDPOINT_WRITE'' (qc_endpoint_write (cg_quotas cfg))) (\<lambda>b.
     and_then (apply_quota_policy L lookup ''WDE_QUOTA_QUERY'' (qc_query (cg_quotas cfg))) (\<lambda>c.
     and_then (apply_quota_policy L lookup ''WDE_QUOTA_REPLAY'' (qc_replay (cg_quotas cfg))) (\<lambda>d.
       Inr (cfg\<lparr>cg_quotas := \<lparr>qc_ingest = a, qc_endpoint_write = b, qc_query = c, qc_replay = d\<rparr>\<rparr>)))))"

definition apply_edge_environment :: "config_lib \<Rightarrow> environment \<Rightarrow> config \<Rightarrow> config_error + config" where
  "apply_edge_environment L lookup cfg =
     and_then (apply_settings (int_env lookup)
         [(''WDE_EDGE_MAX_IN_FLIGHT'', ec_max_in_flight, \<lambda>v. ec_max_in_flight_update (\<lambda>_. v)),
          (''WDE_EDGE_GLOBAL'', ec_global, \<lambda>v. ec_global_update (\<lambda>_. v)),
          (''WDE_EDGE_ORIGIN'', ec_origin, \<lambda>v. ec_origin_update (\<lambda>_. v)),
          (''WDE_EDGE_PREFIX'', ec_prefix, \<lambda>v. ec_prefix_update (\<lambda>_. v)),
          (''WDE_EDGE_MAX_BUCKETS'', ec_max_buckets, \<lambda>v. ec_max_buckets_update (\<lambda>_. v))] (cg_edge cfg)) (\<lambda>e.
     and_then (duration_env L lookup ''WDE_EDGE_WINDOW'' (ec_window e)) (\<lambda>w.
       Inr (cfg\<lparr>cg_edge := e\<lparr>ec_window := w\<rparr>\<rparr>)))"

definition apply_telemetry_environment :: "config_lib \<Rightarrow> environment \<Rightarrow> config \<Rightarrow> config_error + config" where
  "apply_telemetry_environment L lookup cfg =
     (let t = cg_telemetry cfg
      in and_then (duration_env L lookup ''WDE_OTEL_EXPORT_TIMEOUT'' (tc_timeout t)) (\<lambda>timeout.
         and_then (case lookup ''WDE_OTEL_TRACE_SAMPLE_RATIO'' of
               None \<Rightarrow> Inr (tc_ratio t)
             | Some raw \<Rightarrow> (case cl_float L (trim_space raw) of
                 None \<Rightarrow> Inl ''WDE_OTEL_TRACE_SAMPLE_RATIO'' | Some x \<Rightarrow> Inr x)) (\<lambda>ratio.
         and_then (bool_env lookup ''WDE_OTEL_ALLOW_PRIVATE_HTTP'' False) (\<lambda>private.
           Inr (cfg\<lparr>cg_telemetry := \<lparr>tc_endpoint = assign_env lookup ''WDE_OTEL_EXPORTER_OTLP_ENDPOINT'' (tc_endpoint t),
             tc_timeout = timeout, tc_ratio = ratio, tc_allow_private = private\<rparr>\<rparr>)))))"

definition apply_console_environment :: "config_lib \<Rightarrow> environment \<Rightarrow> config \<Rightarrow> config_error + config" where
  "apply_console_environment L lookup cfg =
     (if cg_service cfg \<noteq> Console then Inr cfg
      else and_then (duration_env L lookup ''WDE_CONSOLE_SESSION_IDLE'' (cc_idle (cg_console cfg))) (\<lambda>idle.
           and_then (duration_env L lookup ''WDE_CONSOLE_SESSION_ABSOLUTE'' (cc_absolute (cg_console cfg))) (\<lambda>absolute.
             Inr (cfg\<lparr>cg_console := \<lparr>cc_origin = assign_env lookup ''WDE_CONSOLE_ORIGIN'' (cc_origin (cg_console cfg)),
               cc_idle = idle, cc_absolute = absolute\<rparr>\<rparr>))))"

definition apply_worker_environment :: "config_lib \<Rightarrow> environment \<Rightarrow> config \<Rightarrow> config_error + config" where
  "apply_worker_environment L lookup cfg =
     and_then (apply_settings (int_env lookup)
         [(''WDE_WORKER_CONCURRENCY'', cg_concurrency, \<lambda>v. cg_concurrency_update (\<lambda>_. v)),
          (''WDE_WORKER_CLAIM_BATCH_SIZE'', cg_batch_size, \<lambda>v. cg_batch_size_update (\<lambda>_. v)),
          (''WDE_WORKER_WORKSPACE_BATCH_LIMIT'', cg_workspace_limit, \<lambda>v. cg_workspace_limit_update (\<lambda>_. v)),
          (''WDE_WORKER_ENDPOINT_BATCH_LIMIT'', cg_endpoint_limit, \<lambda>v. cg_endpoint_limit_update (\<lambda>_. v))] cfg)
       (apply_settings (duration_env L lookup)
         [(''WDE_WORKER_POLL_INTERVAL'', cg_poll, \<lambda>v. cg_poll_update (\<lambda>_. v)),
          (''WDE_WORKER_CLAIM_TIMEOUT'', cg_claim_timeout, \<lambda>v. cg_claim_timeout_update (\<lambda>_. v)),
          (''WDE_WORKER_REQUEST_TIMEOUT'', cg_request_timeout, \<lambda>v. cg_request_timeout_update (\<lambda>_. v)),
          (''WDE_WORKER_LEASE_TTL'', cg_lease_ttl, \<lambda>v. cg_lease_ttl_update (\<lambda>_. v)),
          (''WDE_WORKER_RETRY_BASE'', cg_retry_base, \<lambda>v. cg_retry_base_update (\<lambda>_. v)),
          (''WDE_WORKER_RETRY_CAP'', cg_retry_cap, \<lambda>v. cg_retry_cap_update (\<lambda>_. v))])"

definition apply_secret_paths :: "environment \<Rightarrow> config \<Rightarrow> config" where
  "apply_secret_paths lookup cfg = cfg\<lparr>cg_secrets := \<lparr>
     sf_auth_pepper = env_value lookup ''WDE_AUTH_PEPPER_FILE'',
     sf_idempotency_pepper = env_value lookup ''WDE_IDEMPOTENCY_PEPPER_FILE'',
     sf_fingerprint_pepper = env_value lookup ''WDE_FINGERPRINT_PEPPER_FILE'',
     sf_rate_limit_pepper = env_value lookup ''WDE_RATE_LIMIT_PEPPER_FILE'',
     sf_cursor_pepper = env_value lookup ''WDE_CURSOR_PEPPER_FILE'',
     sf_session_pepper = env_value lookup ''WDE_CONSOLE_SESSION_PEPPER_FILE'',
     sf_csrf_pepper = env_value lookup ''WDE_CONSOLE_CSRF_PEPPER_FILE'',
     sf_payload_keyring = env_value lookup ''WDE_PAYLOAD_KEYRING_FILE'',
     sf_signing_keyring = env_value lookup ''WDE_SIGNING_KEYRING_FILE''\<rparr>\<rparr>"

definition apply_environment :: "config_lib \<Rightarrow> environment \<Rightarrow> config \<Rightarrow> config_error + config" where
  "apply_environment L lookup cfg0 =
     (let cfg = apply_string_environment lookup cfg0
      in and_then (duration_env L lookup ''WDE_SHUTDOWN_TIMEOUT'' (cg_shutdown_timeout cfg)) (\<lambda>shutdown.
         and_then (duration_env L lookup ''WDE_DATABASE_TIMEOUT'' (cg_database_timeout cfg)) (\<lambda>database.
         and_then (bool_env lookup ''WDE_DATABASE_LOCAL_SOCKET'' False) (\<lambda>socket.
         and_then (bool_env lookup ''WDE_INGRESS_TLS_TERMINATED'' False) (\<lambda>tls.
         and_then (bool_env lookup ''WDE_ENABLE_PPROF'' False) (\<lambda>pprof.
         and_then (bool_env lookup ''WDE_ALLOW_HTTP_DESTINATIONS'' False) (\<lambda>http.
         and_then (apply_quota_environment L lookup (cfg\<lparr>cg_shutdown_timeout := shutdown, cg_database_timeout := database,
             cg_database_local_socket := socket, cg_ingress_tls := tls, cg_pprof := pprof, cg_allow_http := http\<rparr>)) (\<lambda>cfg.
         and_then (apply_edge_environment L lookup cfg) (\<lambda>cfg.
         and_then (apply_telemetry_environment L lookup cfg) (\<lambda>cfg.
         and_then (apply_console_environment L lookup cfg) (\<lambda>cfg.
         and_then (if cg_service cfg = Worker then apply_worker_environment L lookup cfg else Inr cfg) (\<lambda>cfg.
           Inr (apply_secret_paths lookup cfg)))))))))))))"

section \<open>The command line\<close>

text \<open>\<open>flag.FlagSet.Parse\<close> over a table of flags: whether a flag is boolean, and how its value is set.\<close>

type_synonym 'c flag_table = "(string \<times> bool \<times> (string \<Rightarrow> 'c \<Rightarrow> 'c option)) list"

definition split_flag :: "string \<Rightarrow> string \<times> string option" where
  "split_flag s =
     (let k = length (takeWhile (\<lambda>c. c \<noteq> CHR ''='') (tl s)) + 1
      in if k < length s then (take k s, Some (drop (k + 1) s)) else (s, None))"

fun parse_flags :: "'c flag_table \<Rightarrow> string list \<Rightarrow> 'c \<Rightarrow> config_error + ('c \<times> string list)" where
  "parse_flags table [] cfg = Inr (cfg, [])"
| "parse_flags table (s # rest) cfg =
     (if length s < 2 \<or> hd s \<noteq> CHR ''-'' then Inr (cfg, s # rest)
      else if s = ''--'' then Inr (cfg, rest)
      else
        let flag = (if s ! 1 = CHR ''-'' then drop 2 s else drop 1 s)
        in if flag = [] \<or> hd flag = CHR ''-'' \<or> hd flag = CHR ''='' then Inl s
           else
             let (name, given) = split_flag flag
             in case map_of table name of
                  None \<Rightarrow> Inl name
                | Some (is_bool, put) \<Rightarrow>
                    (case (given, rest) of
                       (Some v, _) \<Rightarrow>
                         (case put v cfg of None \<Rightarrow> Inl name | Some cfg' \<Rightarrow> parse_flags table rest cfg')
                     | (None, []) \<Rightarrow>
                         if is_bool
                         then (case put ''true'' cfg of None \<Rightarrow> Inl name | Some cfg' \<Rightarrow> parse_flags table [] cfg')
                         else Inl name
                     | (None, v # rest') \<Rightarrow>
                         if is_bool
                         then (case put ''true'' cfg of None \<Rightarrow> Inl name | Some cfg' \<Rightarrow> parse_flags table rest cfg')
                         else (case put v cfg of None \<Rightarrow> Inl name | Some cfg' \<Rightarrow> parse_flags table rest' cfg')))"

definition config_flags :: "config_lib \<Rightarrow> config flag_table" where
  "config_flags L =
     (let text = (\<lambda>put. (False, \<lambda>v c. Some (put v c)));
          bool = (\<lambda>put. (True, \<lambda>v c. map_option (\<lambda>x. put x c) (parse_bool v)));
          int = (\<lambda>put. (False, \<lambda>v c. map_option (\<lambda>x. put x c) (cl_flag_int L v)));
          dur = (\<lambda>put. (False, \<lambda>v c. map_option (\<lambda>x. put x c) (cl_duration L v)))
      in [(''profile'', text (\<lambda>v. cg_profile_update (\<lambda>_. profile_of v))),
          (''http-addr'', text (\<lambda>v. cg_http_addr_update (\<lambda>_. v))),
          (''operational-addr'', text (\<lambda>v. cg_operational_addr_update (\<lambda>_. v))),
          (''shutdown-timeout'', dur (\<lambda>v. cg_shutdown_timeout_update (\<lambda>_. v))),
          (''database-timeout'', dur (\<lambda>v. cg_database_timeout_update (\<lambda>_. v))),
          (''database-local-socket'', bool (\<lambda>v. cg_database_local_socket_update (\<lambda>_. v))),
          (''log-level'', text (\<lambda>v. cg_log_level_update (\<lambda>_. v))),
          (''version'', text (\<lambda>v. cg_version_update (\<lambda>_. v))),
          (''ingress-tls-terminated'', bool (\<lambda>v. cg_ingress_tls_update (\<lambda>_. v))),
          (''enable-pprof'', bool (\<lambda>v. cg_pprof_update (\<lambda>_. v))),
          (''allow-http-destinations'', bool (\<lambda>v. cg_allow_http_update (\<lambda>_. v))),
          (''worker-concurrency'', int (\<lambda>v. cg_concurrency_update (\<lambda>_. v))),
          (''worker-claim-batch-size'', int (\<lambda>v. cg_batch_size_update (\<lambda>_. v))),
          (''worker-workspace-batch-limit'', int (\<lambda>v. cg_workspace_limit_update (\<lambda>_. v))),
          (''worker-endpoint-batch-limit'', int (\<lambda>v. cg_endpoint_limit_update (\<lambda>_. v))),
          (''worker-poll-interval'', dur (\<lambda>v. cg_poll_update (\<lambda>_. v))),
          (''worker-claim-timeout'', dur (\<lambda>v. cg_claim_timeout_update (\<lambda>_. v))),
          (''worker-request-timeout'', dur (\<lambda>v. cg_request_timeout_update (\<lambda>_. v))),
          (''worker-lease-ttl'', dur (\<lambda>v. cg_lease_ttl_update (\<lambda>_. v))),
          (''worker-retry-base'', dur (\<lambda>v. cg_retry_base_update (\<lambda>_. v))),
          (''worker-retry-cap'', dur (\<lambda>v. cg_retry_cap_update (\<lambda>_. v))),
          (''otel-exporter-otlp-endpoint'', text (\<lambda>v c. c\<lparr>cg_telemetry := (cg_telemetry c)\<lparr>tc_endpoint := v\<rparr>\<rparr>)),
          (''otel-export-timeout'', dur (\<lambda>v c. c\<lparr>cg_telemetry := (cg_telemetry c)\<lparr>tc_timeout := v\<rparr>\<rparr>)),
          (''otel-trace-sample-ratio'', (False, \<lambda>v c. map_option (\<lambda>x. c\<lparr>cg_telemetry := (cg_telemetry c)\<lparr>tc_ratio := x\<rparr>\<rparr>)
             (cl_float L v)))])"

definition apply_flags :: "config_lib \<Rightarrow> string list \<Rightarrow> config \<Rightarrow> config_error + config" where
  "apply_flags L args cfg =
     and_then (parse_flags (config_flags L) args cfg)
       (\<lambda>(cfg', rest). if rest \<noteq> [] then Inl ''positional argument'' else Inr cfg')"

section \<open>Secret files\<close>

definition validate_secret_path :: "config_lib \<Rightarrow> string \<Rightarrow> string \<Rightarrow> config_error + file_entry" where
  "validate_secret_path L name path =
     (if trim_space path = [] then Inl name
      else case cl_files L path of
        None \<Rightarrow> Inl name
      | Some f \<Rightarrow>
          if fe_symlink f \<or> \<not> fe_regular f then Inl name
          else if fe_perm f mod 64 \<noteq> 0 then Inl name
          else if fe_owner f \<noteq> Some (cl_euid L) then Inl name
          else Inr f)"

definition read_secret_file :: "config_lib \<Rightarrow> string \<Rightarrow> string \<Rightarrow> config_error + bytes" where
  "read_secret_file L name path =
     and_then (validate_secret_path L name path) (\<lambda>f.
       if \<not> fe_opens f then Inl name
       else if \<not> fe_same f then Inl name
       else case fe_raw f of
         None \<Rightarrow> Inl name
       | Some content \<Rightarrow>
           let contents = take (65536 + 1) content
           in if length contents = 0 \<or> length contents > 65536 then Inl name else Inr contents)"

definition validate_pepper_file :: "config_lib \<Rightarrow> string \<Rightarrow> string \<Rightarrow> config_error + key256" where
  "validate_pepper_file L name path =
     and_then (read_secret_file L name path) (\<lambda>contents.
       let encoded = trim_space contents
       in if \<not> has_prefix ''v1:'' encoded then Inl name
          else case b64_decode_strict (trim_prefix ''v1:'' encoded) of
                 None \<Rightarrow> Inl name
               | Some decoded \<Rightarrow> if length decoded \<noteq> 32 then Inl name else Inr (key_of_bytes decoded))"

definition decode_keyring_file :: "config_lib \<Rightarrow> string \<Rightarrow> bytes \<Rightarrow> config_error + keyring_document" where
  "decode_keyring_file L name contents =
     (case cl_keyring L contents of
        None \<Rightarrow> Inl name
      | Some d \<Rightarrow>
          if kd_format_version d \<noteq> 1 \<or> kd_primary_key_version d \<le> 0 \<or> length (kd_keys d) = 0 \<or> length (kd_keys d) > 8
          then Inl name else Inr d)"

definition validate_keyring_key :: "string \<Rightarrow> key_entry \<Rightarrow> int set \<Rightarrow> key256 set \<Rightarrow> config_error + key256" where
  "validate_keyring_key name key versions materials =
     (if ke_version key \<le> 0 then Inl name
      else if ke_version key \<in> versions then Inl name
      else case b64_decode_strict (ke_material key) of
             None \<Rightarrow> Inl name
           | Some decoded \<Rightarrow>
               if length decoded \<noteq> 32 then Inl name
               else if key_of_bytes decoded \<in> materials then Inl name
               else Inr (key_of_bytes decoded))"

fun validate_keys_loop ::
    "string \<Rightarrow> int \<Rightarrow> key_entry list \<Rightarrow> int set \<Rightarrow> key256 set \<Rightarrow> bool \<Rightarrow> config_error + (key256 set \<times> bool)" where
  "validate_keys_loop name primary [] versions materials found = Inr (materials, found)"
| "validate_keys_loop name primary (key # keys) versions materials found =
     and_then (validate_keyring_key name key versions materials) (\<lambda>material.
       validate_keys_loop name primary keys (insert (ke_version key) versions) (insert material materials)
         (found \<or> ke_version key = primary))"

definition validate_keyring_keys :: "string \<Rightarrow> keyring_document \<Rightarrow> config_error + key256 set" where
  "validate_keyring_keys name d =
     and_then (validate_keys_loop name (kd_primary_key_version d) (kd_keys d) {} {} False)
       (\<lambda>(materials, found). if \<not> found then Inl name else Inr materials)"

definition validate_keyring_file :: "config_lib \<Rightarrow> string \<Rightarrow> string \<Rightarrow> config_error + key256 set" where
  "validate_keyring_file L name path =
     and_then (read_secret_file L name path) (\<lambda>contents.
     and_then (decode_keyring_file L name contents) (validate_keyring_keys name))"

fun distinct_peppers :: "key256 list \<Rightarrow> key256 set \<Rightarrow> config_error + unit" where
  "distinct_peppers [] seen = Inr ()"
| "distinct_peppers (m # ms) seen = (if m \<in> seen then Inl ''peppers'' else distinct_peppers ms (insert m seen))"

definition validate_api_peppers :: "config_lib \<Rightarrow> secret_files \<Rightarrow> config_error + unit" where
  "validate_api_peppers L files =
     and_then (validate_pepper_file L ''WDE_AUTH_PEPPER_FILE'' (sf_auth_pepper files)) (\<lambda>auth.
     and_then (validate_pepper_file L ''WDE_IDEMPOTENCY_PEPPER_FILE'' (sf_idempotency_pepper files)) (\<lambda>idempotency.
     and_then (validate_pepper_file L ''WDE_FINGERPRINT_PEPPER_FILE'' (sf_fingerprint_pepper files)) (\<lambda>fingerprint.
     and_then (validate_pepper_file L ''WDE_RATE_LIMIT_PEPPER_FILE'' (sf_rate_limit_pepper files)) (\<lambda>rate.
     and_then (validate_pepper_file L ''WDE_CURSOR_PEPPER_FILE'' (sf_cursor_pepper files)) (\<lambda>cursor.
       distinct_peppers [auth, idempotency, fingerprint, rate, cursor] {})))))"

fun pepper_set :: "config_lib \<Rightarrow> string list \<Rightarrow> key256 set \<Rightarrow> config_error + key256 set" where
  "pepper_set L [] base = Inr base"
| "pepper_set L (path # paths) base =
     and_then (validate_pepper_file L ''console pepper'' path) (\<lambda>m. pepper_set L paths (insert m base))"

definition validate_console_peppers :: "config_lib \<Rightarrow> secret_files \<Rightarrow> config_error + unit" where
  "validate_console_peppers L files =
     and_then (validate_api_peppers L files) (\<lambda>_.
     and_then (validate_pepper_file L ''WDE_CONSOLE_SESSION_PEPPER_FILE'' (sf_session_pepper files)) (\<lambda>session.
     and_then (validate_pepper_file L ''WDE_CONSOLE_CSRF_PEPPER_FILE'' (sf_csrf_pepper files)) (\<lambda>csrf.
     and_then (pepper_set L [sf_auth_pepper files, sf_idempotency_pepper files, sf_fingerprint_pepper files,
         sf_rate_limit_pepper files, sf_cursor_pepper files] {}) (\<lambda>base.
       refuse_if [(session = csrf, ''console session and CSRF peppers''), (session \<in> base, ''console session pepper''),
         (csrf \<in> base, ''console CSRF pepper'')]))))"

definition validate_production_secrets :: "config_lib \<Rightarrow> config \<Rightarrow> config_error + unit" where
  "validate_production_secrets L cfg =
     and_then (if cg_service cfg = API then validate_api_peppers L (cg_secrets cfg) else Inr ()) (\<lambda>_.
     and_then (if cg_service cfg = Console then validate_console_peppers L (cg_secrets cfg) else Inr ()) (\<lambda>_.
     and_then (validate_keyring_file L ''WDE_PAYLOAD_KEYRING_FILE'' (sf_payload_keyring (cg_secrets cfg))) (\<lambda>payload.
     and_then (validate_keyring_file L ''WDE_SIGNING_KEYRING_FILE'' (sf_signing_keyring (cg_secrets cfg))) (\<lambda>signing.
       refuse_if [(payload \<inter> signing \<noteq> {}, ''keyrings'')]))))"

section \<open>Validation\<close>

definition validate_quota :: "quota_limits \<Rightarrow> bool" where
  "validate_quota p \<longleftrightarrow> \<not> (ql_global p < 1 \<or> ql_global p > 1000000 \<or> ql_workspace p < 1 \<or> ql_workspace p > ql_global p
     \<or> ql_api_key p < 1 \<or> ql_api_key p > ql_workspace p \<or> ql_resource p < 0 \<or> ql_resource p > ql_api_key p
     \<or> ql_window p < second \<or> ql_window p > hour \<or> go_rem (ql_window p) second \<noteq> 0)"

definition validate_quotas :: "config \<Rightarrow> config_error + unit" where
  "validate_quotas cfg =
     (let q = cg_quotas cfg
      in refuse_if (map (\<lambda>p. (\<not> validate_quota p, ''quotas'')) [qc_ingest q, qc_endpoint_write q, qc_query q, qc_replay q]))"

definition validate_edge :: "config \<Rightarrow> config_error + unit" where
  "validate_edge cfg =
     (let e = cg_edge cfg
      in refuse_if [(ec_max_in_flight e < 1 \<or> ec_max_in_flight e > 10000 \<or> ec_global e < 1 \<or> ec_global e > 1000000
           \<or> ec_origin e < 1 \<or> ec_origin e > ec_global e \<or> ec_prefix e < 1 \<or> ec_prefix e > ec_global e
           \<or> ec_max_buckets e < 16 \<or> ec_max_buckets e > 65536 \<or> ec_window e < second
           \<or> ec_window e > hour \<or> go_rem (ec_window e) second \<noteq> 0, ''edge'')])"

definition validate_telemetry :: "config_lib \<Rightarrow> config \<Rightarrow> config_error + unit" where
  "validate_telemetry L cfg =
     (let t = cg_telemetry cfg; endpoint = trim_space (tc_endpoint t)
      in and_then (refuse_if
           [(tc_timeout t < 100 * millisecond \<or> tc_timeout t > 10 * second, ''WDE_OTEL_EXPORT_TIMEOUT''),
            (case tc_ratio t of Finite q \<Rightarrow> q < 0 \<or> q > 1 | _ \<Rightarrow> True, ''WDE_OTEL_TRACE_SAMPLE_RATIO'')]) (\<lambda>_.
         if endpoint = [] then Inr ()
         else case cl_url L endpoint of
           None \<Rightarrow> Inl ''WDE_OTEL_EXPORTER_OTLP_ENDPOINT''
         | Some u \<Rightarrow> refuse_if
             [(cu_host u = [] \<or> cu_user u \<noteq> None \<or> cu_raw_query u \<noteq> [] \<or> cu_fragment u \<noteq> []
                \<or> cu_scheme u \<noteq> ''http'' \<and> cu_scheme u \<noteq> ''https'', ''WDE_OTEL_EXPORTER_OTLP_ENDPOINT''),
              (cg_profile cfg = Production \<and> cu_scheme u \<noteq> ''https''
                \<and> \<not> (tc_allow_private t \<and> endpoint = ''http://otel-collector:4318'' \<and> cu_path u = []),
               ''production OTLP'')]))"

definition validate_console :: "config_lib \<Rightarrow> config \<Rightarrow> config_error + unit" where
  "validate_console L cfg =
     (if cg_service cfg \<noteq> Console then Inr ()
      else and_then (refuse_if [(cc_idle (cg_console cfg) \<noteq> 15 * minute \<or> cc_absolute (cg_console cfg) \<noteq> 60 * minute,
             ''console session policy'')]) (\<lambda>_.
           case cl_url L (trim_space (cc_origin (cg_console cfg))) of
             None \<Rightarrow> Inl ''WDE_CONSOLE_ORIGIN''
           | Some u \<Rightarrow> refuse_if
               [(cu_host u = [] \<or> cu_user u \<noteq> None \<or> cu_raw_query u \<noteq> [] \<or> cu_fragment u \<noteq> [] \<or> cu_path u \<noteq> []
                  \<or> cu_scheme u \<noteq> ''http'' \<and> cu_scheme u \<noteq> ''https'', ''WDE_CONSOLE_ORIGIN''),
                (cg_profile cfg = Production \<and> cu_scheme u \<noteq> ''https'', ''WDE_CONSOLE_ORIGIN'')]))"

definition validate_worker :: "config \<Rightarrow> config_error + unit" where
  "validate_worker cfg = refuse_if
     [(cg_concurrency cfg < 1 \<or> cg_concurrency cfg > 100, ''WDE_WORKER_CONCURRENCY''),
      (cg_batch_size cfg < 1 \<or> cg_batch_size cfg > cg_concurrency cfg, ''WDE_WORKER_CLAIM_BATCH_SIZE''),
      (cg_workspace_limit cfg < 1 \<or> cg_workspace_limit cfg > cg_batch_size cfg
        \<or> cg_endpoint_limit cfg < 1 \<or> cg_endpoint_limit cfg > cg_batch_size cfg, ''worker fairness limits''),
      (cg_poll cfg < 10 * millisecond \<or> cg_poll cfg > 10 * second, ''WDE_WORKER_POLL_INTERVAL''),
      (cg_claim_timeout cfg < 10 * millisecond \<or> cg_claim_timeout cfg > 2 * second
        \<or> cg_claim_timeout cfg > cg_poll cfg \<or> cg_claim_timeout cfg > cg_lease_ttl cfg, ''WDE_WORKER_CLAIM_TIMEOUT''),
      (cg_request_timeout cfg < 100 * millisecond \<or> cg_request_timeout cfg > 20 * second, ''WDE_WORKER_REQUEST_TIMEOUT''),
      (cg_lease_ttl cfg < cg_request_timeout cfg + 10 * second \<or> cg_lease_ttl cfg > 2 * minute, ''WDE_WORKER_LEASE_TTL''),
      (cg_retry_base cfg \<le> 0 \<or> cg_retry_base cfg > cg_retry_cap cfg \<or> cg_retry_cap cfg > 15 * minute, ''worker retry''),
      (cg_shutdown_timeout cfg > 30 * second, ''worker shutdown'')]"

text \<open>The first value of a query parameter, empty when there is none.\<close>

definition query_get :: "(string \<Rightarrow> string list) \<Rightarrow> string \<Rightarrow> string" where
  "query_get q k = (case q k of [] \<Rightarrow> [] | v # _ \<Rightarrow> v)"

definition validate_database_url :: "config_lib \<Rightarrow> string \<Rightarrow> profile \<Rightarrow> bool \<Rightarrow> config_error + unit" where
  "validate_database_url L raw profile localSocket =
     (if trim_space raw = [] then Inl ''WDE_DATABASE_URL''
      else case cl_url L raw of
        None \<Rightarrow> Inl ''WDE_DATABASE_URL''
      | Some u \<Rightarrow>
          let q = cu_query u
          in if cu_scheme u \<noteq> ''postgres'' \<and> cu_scheme u \<noteq> ''postgresql''
                \<or> (case cu_user u of None \<Rightarrow> True | Some (n, _) \<Rightarrow> n = []) \<or> cu_path u \<noteq> ''/wde'' \<or> cu_fragment u \<noteq> []
             then Inl ''WDE_DATABASE_URL''
             else if profile = Production \<and> (case cu_user u of None \<Rightarrow> False | Some (_, pw) \<Rightarrow> pw) then Inl ''WDE_DATABASE_URL password''
             else if localSocket then
               (if cu_host u \<noteq> [] \<or> length (q ''host'') \<noteq> 1 \<or> query_get q ''host'' \<noteq> ''/var/run/postgresql''
                   \<or> length (q ''sslmode'') \<noteq> 1 \<or> query_get q ''sslmode'' \<noteq> ''disable'' \<or> length (q ''passfile'') \<noteq> 1
                then Inl ''local PostgreSQL''
                else and_then (validate_secret_path L ''database passfile'' (query_get q ''passfile'')) (\<lambda>_. Inr ()))
             else if cu_host u = [] \<or> length (q ''host'') \<noteq> 0 then Inl ''WDE_DATABASE_URL''
             else if profile = Production \<and> (length (q ''sslmode'') \<noteq> 1 \<or> query_get q ''sslmode'' \<noteq> ''verify-full'')
             then Inl ''WDE_DATABASE_URL sslmode''
             else Inr ())"

definition validate_addresses :: "config_lib \<Rightarrow> config \<Rightarrow> config_error + unit" where
  "validate_addresses L cfg =
     and_then (refuse_if
       [(cg_service cfg \<in> {API, Console, Chaos_lab} \<and> trim_space (cg_http_addr cfg) = [], ''HTTP listen address''),
        (cg_service cfg \<in> {API, Worker, Console} \<and> trim_space (cg_operational_addr cfg) = [],
         ''operational HTTP listen address'')]) (\<lambda>_.
     if cg_service cfg \<in> {API, Worker, Console}
     then validate_database_url L (cg_database_url cfg) (cg_profile cfg) (cg_database_local_socket cfg) else Inr ())"

definition valid_log_level :: "config_lib \<Rightarrow> string \<Rightarrow> bool" where
  "valid_log_level L level \<longleftrightarrow> to_lower (cl_lower L) level \<in> {''debug'', ''info'', ''warn'', ''error''}"

definition validate_common :: "config_lib \<Rightarrow> config \<Rightarrow> config_error + unit" where
  "validate_common L cfg =
     and_then (refuse_if
       [(cg_profile cfg \<notin> {Local, Test, Production}, ''WDE_PROFILE''),
        (trim_space (cg_version cfg) = [], ''WDE_VERSION''),
        (\<not> valid_log_level L (cg_log_level cfg), ''WDE_LOG_LEVEL''),
        (cg_shutdown_timeout cfg \<le> 0 \<or> cg_shutdown_timeout cfg > 30 * second, ''WDE_SHUTDOWN_TIMEOUT''),
        (cg_database_timeout cfg \<le> 0 \<or> cg_database_timeout cfg > 30 * second, ''WDE_DATABASE_TIMEOUT'')]) (\<lambda>_.
     and_then (if cg_service cfg = Worker then validate_worker cfg else Inr ()) (\<lambda>_.
     and_then (validate_quotas cfg) (\<lambda>_.
     and_then (validate_edge cfg) (\<lambda>_.
     and_then (validate_telemetry L cfg) (\<lambda>_.
     and_then (validate_console L cfg) (\<lambda>_.
       validate_addresses L cfg))))))"

definition validate_production :: "config_lib \<Rightarrow> config \<Rightarrow> config_error + unit" where
  "validate_production L cfg =
     and_then (refuse_if
       [(cg_service cfg = Chaos_lab, ''chaoslab''),
        (cg_service cfg \<in> {API, Console} \<and> \<not> cg_ingress_tls cfg, ''WDE_INGRESS_TLS_TERMINATED''),
        (cg_pprof cfg, ''WDE_ENABLE_PPROF''),
        (cg_allow_http cfg, ''WDE_ALLOW_HTTP_DESTINATIONS'')]) (\<lambda>_.
     validate_production_secrets L cfg)"

definition validate_config :: "config_lib \<Rightarrow> config \<Rightarrow> config_error + unit" where
  "validate_config L cfg =
     and_then (validate_common L cfg) (\<lambda>_.
       if cg_profile cfg \<noteq> Production then Inr () else validate_production L cfg)"

definition load_config :: "config_lib \<Rightarrow> service \<Rightarrow> string list \<Rightarrow> environment \<Rightarrow> config_error + config" where
  "load_config L sv args lookup =
     and_then (config_defaults sv) (\<lambda>cfg.
     and_then (apply_environment L lookup cfg) (\<lambda>cfg.
     and_then (apply_flags L args cfg) (\<lambda>cfg.
     and_then (validate_config L cfg) (\<lambda>_. Inr cfg))))"

end
