(* ===== verification/Config_Safety.thy ===== *)
theory Config_Safety
  imports Config Quota Edge_Limit Deliver
begin

text \<open>
  What a configuration that loads guarantees to the parts that are built from it: the secrets are the ones
  \<open>cryptobox\<close> loads and are kept apart, the production rules hold, and the limits are limits the limiters accept.
\<close>

section \<open>The two readings of a pepper file\<close>

definition newline_or_blank :: "char \<Rightarrow> bool" where
  "newline_or_blank c \<longleftrightarrow> byte_val c = 10 \<or> byte_val c = 13 \<or> byte_val c = 32"

lemma b64_char_plain: "n < 64 \<Longrightarrow> plain_char (b64_char n)"
  by (auto simp: plain_char_def b64_char_def)

lemma b64_decode_chars:
  assumes "b64_decode_strict s = Some bs" and "c \<in> set s" and "\<not> newline_or_blank c"
  shows "plain_char c"
proof -
  obtain vs where "b64_vals (skip_newlines s) = Some vs"
    using assms(1) by (auto simp: b64_decode_with_def split: option.splits)
  from b64_vals_Some [OF this] have "skip_newlines s = map b64_char vs" "\<forall>v\<in>set vs. v < 64" by auto
  moreover have "c \<in> set (skip_newlines s)"
    using assms(2,3) by (auto simp: skip_newlines_def newline_or_blank_def)
  ultimately show ?thesis by (auto intro: b64_char_plain)
qed

lemma leading_space_blank: "newline_or_blank c \<Longrightarrow> leading_space (map rev space_encodings) (c # s) = 1"
proof -
  assume "newline_or_blank c"
  then have "c = byte_of 10 \<or> c = byte_of 13 \<or> c = byte_of 32"
    by (metis newline_or_blank_def byte_of_val)
  then show ?thesis
    by (elim disjE) (simp_all add: leading_space_def space_encodings_def has_prefix_def byte_of_eq)
qed

lemma trim_blanks:
  "list_all newline_or_blank w \<Longrightarrow> trim_left_by (map rev space_encodings) (w @ s) = trim_left_by (map rev space_encodings) s"
proof (induction w)
  case (Cons c w)
  then have "leading_space (map rev space_encodings) (c # w @ s) = 1" by (simp add: leading_space_blank)
  then have "trim_left_by (map rev space_encodings) (c # w @ s) = trim_left_by (map rev space_encodings) (w @ s)"
    by (subst trim_left_by.simps) (simp add: Let_def)
  then show ?case using Cons by simp
qed simp

lemma trim_space_blanks:
  assumes "v \<noteq> []" and "plain_char (hd v)" and "plain_char (last v)" and "list_all newline_or_blank w"
  shows "trim_space (v @ w) = v"
proof -
  obtain c r where v: "v = c # r" using assms(1) by (cases v) auto
  obtain q d where q: "v = q @ [d]" using assms(1) by (cases v rule: rev_cases) auto
  have "trim_left_by space_encodings (v @ w) = v @ w"
    using assms(2) by (simp add: v trim_left_by_fixed leading_space_plain)
  moreover have "trim_left_by (map rev space_encodings) (rev w @ rev v) = rev v"
    using assms(3,4) trim_blanks [of "rev w" "rev v"] by (simp add: q trim_left_by_fixed leading_space_plain list_all_rev)
  ultimately show ?thesis by (simp add: trim_space_def)
qed

lemma same_pepper_text:
  assumes "b64_decode_strict (trim_v1 raw) = Some bs" and "length bs = 32"
  shows "trim_space raw = ''v1:'' @ trim_v1 raw"
proof -
  let ?v = "rev (dropWhile newline_or_blank (rev raw))"
  let ?w = "rev (takeWhile newline_or_blank (rev raw))"
  have raw: "raw = ?v @ ?w" by (metis rev_append rev_rev_ident takeWhile_dropWhile_id)
  have nb: "(\<lambda>c. byte_val c = 10 \<or> byte_val c = 13 \<or> byte_val c = 32) = newline_or_blank"
    by (simp add: newline_or_blank_def fun_eq_iff)
  have ne: "trim_v1 raw \<noteq> []" using assms by (auto simp: b64_decode_with_def skip_newlines_def)
  then have v: "length ?v \<ge> 3" "take 3 ?v = ''v1:''" "trim_v1 raw = drop 3 ?v"
    unfolding trim_v1_def nb by (auto simp: Let_def split: if_splits)
  have split: "?v = ''v1:'' @ trim_v1 raw" using append_take_drop_id [of 3 ?v] v(2,3) by simp
  have "?v \<noteq> []" by (subst split) simp
  have "last ?v = last (trim_v1 raw)" using ne by (subst split) simp
  moreover have "\<not> newline_or_blank (last ?v)" using \<open>?v \<noteq> []\<close> by (simp add: last_rev hd_dropWhile)
  ultimately have "plain_char (last ?v)" using b64_decode_chars [OF assms(1)] ne by (metis last_in_set)
  moreover have "plain_char (hd ?v)" by (subst split) (simp add: plain_char_def)
  ultimately have "trim_space (?v @ ?w) = ?v"
    using \<open>?v \<noteq> []\<close> by (intro trim_space_blanks) (auto simp: list_all_iff dest: set_takeWhileD)
  then show ?thesis using raw split by simp
qed

lemma same_secret_file:
  "read_secret_file L name path = Inr raw \<Longrightarrow> secure_read (cl_euid L) (cl_files L) path = Inr raw' \<Longrightarrow> raw = raw'"
  by (auto simp: read_secret_file_def validate_secret_path_def secure_read_def Let_def split: if_splits option.splits)

lemma same_pepper:
  assumes "validate_pepper_file L name path = Inr k" and "read_pepper (cl_euid L) (cl_files L) path = Inr k'"
  shows "k = k'"
proof -
  obtain raw bs where a: "read_secret_file L name path = Inr raw" "b64_decode_strict (trim_prefix ''v1:'' (trim_space raw)) = Some bs"
    "k = key_of_bytes bs"
    using assms(1) by (auto simp: validate_pepper_file_def Let_def split: if_splits option.splits)
  obtain raw' bs' where b: "secure_read (cl_euid L) (cl_files L) path = Inr raw'" "b64_decode_strict (trim_v1 raw') = Some bs'"
    "length bs' = 32" "k' = key_of_bytes bs'"
    using assms(2) by (auto simp: read_pepper_def split: if_splits option.splits sum.splits)
  have "raw = raw'" by (rule same_secret_file [OF a(1) b(1)])
  then have "bs = bs'" using a(2) b(2) same_pepper_text [OF b(2,3)] by (simp add: trim_prefix_def has_prefix_def)
  then show ?thesis using a(3) b(4) by simp
qed

section \<open>The two readings of a keyring\<close>

lemma validate_key_Inr:
  "validate_keyring_key name key versions materials = Inr k \<Longrightarrow> b64_encode (key_bytes k) = skip_newlines (ke_material key)"
  by (auto simp: validate_keyring_key_def key_bytes_of_bytes b64_decode_strict_canonical split: if_splits option.splits)

lemma validate_keys_Inr:
  assumes "validate_keys_loop name primary keys versions materials found = Inr (ms, f)"
  shows "materials \<subseteq> ms \<and> (\<forall>e\<in>set keys. \<exists>k\<in>ms. b64_encode (key_bytes k) = skip_newlines (ke_material e))"
  using assms
proof (induction keys arbitrary: versions materials found)
  case (Cons e es)
  then obtain k where k: "validate_keyring_key name e versions materials = Inr k"
    "validate_keys_loop name primary es (insert (ke_version e) versions) (insert k materials) (found \<or> ke_version e = primary)
      = Inr (ms, f)" by auto
  show ?case using Cons.IH [OF k(2)] validate_key_Inr [OF k(1)] by auto
qed simp

lemma same_keyring:
  assumes "validate_keyring_keys name d = Inr ms" and "document_keyring d = Inr kr"
  shows "ran (kr_keys kr) \<subseteq> ms"
proof
  fix k assume "k \<in> ran (kr_keys kr)"
  then obtain v where v: "kr_keys kr v = Some k" by (auto simp: ran_def)
  obtain f where f: "validate_keys_loop name (kd_primary_key_version d) (kd_keys d) {} {} False = Inr (ms, f)"
    using assms(1) by (auto simp: validate_keyring_keys_def split: if_splits)
  have doc: "dom (kr_keys kr) = ke_version ` set (kd_keys d)"
    "\<And>e. e \<in> set (kd_keys d) \<Longrightarrow> \<exists>k. kr_keys kr (ke_version e) = Some k
          \<and> b64_encode (key_bytes k) = skip_newlines (ke_material e)"
    using document_keyring_Inr [OF assms(2)] by blast+
  have "v \<in> dom (kr_keys kr)" using v by auto
  then obtain e where e: "e \<in> set (kd_keys d)" "ke_version e = v" unfolding doc(1) by auto
  then have "b64_encode (key_bytes k) = skip_newlines (ke_material e)" using doc(2) [OF e(1)] v by auto
  moreover obtain k' where "k' \<in> ms" "b64_encode (key_bytes k') = skip_newlines (ke_material e)"
    using validate_keys_Inr [OF f] e(1) by blast
  ultimately show "k \<in> ms" by (metis b64_encode_inj key_bytes_inj)
qed

section \<open>A configuration that loads\<close>

lemma load_config_valid: "load_config L sv args lookup = Inr cfg \<Longrightarrow> validate_config L cfg = Inr ()"
  by (auto simp: load_config_def)

lemma production_checks:
  assumes "load_config L sv args lookup = Inr cfg" and "cg_profile cfg = Production"
  shows "validate_common L cfg = Inr ()" and "validate_production L cfg = Inr ()"
  using load_config_valid [OF assms(1)] assms(2) by (auto simp: validate_config_def)

lemma validate_path_not_empty: "validate_pepper_file L name path = Inr k \<Longrightarrow> path \<noteq> []"
  by (auto simp: validate_pepper_file_def read_secret_file_def validate_secret_path_def trim_space_def trim_left_by.simps
      split: if_splits)

lemma read_peppers_Inr:
  assumes "read_peppers euid fs files = Inr m" and "sf_auth_pepper files \<noteq> []"
  shows "read_pepper euid fs (sf_auth_pepper files) = Inr (m_auth_pepper m)"
    and "read_pepper euid fs (sf_idempotency_pepper files) = Inr (m_idempotency_pepper m)"
    and "read_pepper euid fs (sf_fingerprint_pepper files) = Inr (m_fingerprint_pepper m)"
    and "read_pepper euid fs (sf_rate_limit_pepper files) = Inr (m_rate_limit_pepper m)"
    and "read_pepper euid fs (sf_cursor_pepper files) = Inr (m_cursor_pepper m)"
    and "sf_session_pepper files \<noteq> [] \<Longrightarrow> read_pepper euid fs (sf_session_pepper files) = Inr (m_session_pepper m)"
    and "sf_csrf_pepper files \<noteq> [] \<Longrightarrow> read_pepper euid fs (sf_csrf_pepper files) = Inr (m_csrf_pepper m)"
  using assms by (auto simp: read_peppers_def split: sum.splits if_splits)

lemma distinct_peppers_Inr: "distinct_peppers ms seen = Inr () \<Longrightarrow> distinct ms \<and> set ms \<inter> seen = {}"
  by (induction ms seen rule: distinct_peppers.induct) (auto split: if_splits)

lemma api_peppers_distinct:
  assumes "validate_api_peppers L files = Inr ()" and "read_peppers (cl_euid L) (cl_files L) files = Inr m"
  shows "distinct [m_auth_pepper m, m_idempotency_pepper m, m_fingerprint_pepper m, m_rate_limit_pepper m, m_cursor_pepper m]"
proof -
  obtain a i f r c where v: "validate_pepper_file L ''WDE_AUTH_PEPPER_FILE'' (sf_auth_pepper files) = Inr a"
    "validate_pepper_file L ''WDE_IDEMPOTENCY_PEPPER_FILE'' (sf_idempotency_pepper files) = Inr i"
    "validate_pepper_file L ''WDE_FINGERPRINT_PEPPER_FILE'' (sf_fingerprint_pepper files) = Inr f"
    "validate_pepper_file L ''WDE_RATE_LIMIT_PEPPER_FILE'' (sf_rate_limit_pepper files) = Inr r"
    "validate_pepper_file L ''WDE_CURSOR_PEPPER_FILE'' (sf_cursor_pepper files) = Inr c"
    and d: "distinct_peppers [a, i, f, r, c] {} = Inr ()"
    using assms(1) unfolding validate_api_peppers_def and_then_Inr by blast
  note p = read_peppers_Inr [OF assms(2) validate_path_not_empty [OF v(1)]]
  have "a = m_auth_pepper m" "i = m_idempotency_pepper m" "f = m_fingerprint_pepper m" "r = m_rate_limit_pepper m"
    "c = m_cursor_pepper m"
    using same_pepper [OF v(1) p(1)] same_pepper [OF v(2) p(2)] same_pepper [OF v(3) p(3)] same_pepper [OF v(4) p(4)]
      same_pepper [OF v(5) p(5)] by auto
  then show ?thesis using distinct_peppers_Inr [OF d] by (simp del: distinct_peppers.simps)
qed

lemma pepper_set_Inr:
  "pepper_set L paths base = Inr s \<Longrightarrow> base \<subseteq> s \<and> (\<forall>p\<in>set paths. \<exists>k\<in>s. validate_pepper_file L ''console pepper'' p = Inr k)"
proof (induction paths arbitrary: base)
  case (Cons p ps)
  then obtain m where m: "validate_pepper_file L ''console pepper'' p = Inr m" "pepper_set L ps (insert m base) = Inr s" by auto
  from Cons.IH [OF m(2)] m(1) show ?case by auto
qed simp

lemma console_peppers_distinct:
  assumes "validate_console_peppers L files = Inr ()" and "read_peppers (cl_euid L) (cl_files L) files = Inr m"
  shows "distinct [m_session_pepper m, m_csrf_pepper m, m_auth_pepper m, m_idempotency_pepper m, m_fingerprint_pepper m,
    m_rate_limit_pepper m, m_cursor_pepper m]"
proof -
  obtain x y base where api: "validate_api_peppers L files = Inr ()"
    and v: "validate_pepper_file L ''WDE_CONSOLE_SESSION_PEPPER_FILE'' (sf_session_pepper files) = Inr x"
    "validate_pepper_file L ''WDE_CONSOLE_CSRF_PEPPER_FILE'' (sf_csrf_pepper files) = Inr y"
    and base: "pepper_set L [sf_auth_pepper files, sf_idempotency_pepper files, sf_fingerprint_pepper files,
         sf_rate_limit_pepper files, sf_cursor_pepper files] {} = Inr base"
    and new: "x \<noteq> y" "x \<notin> base" "y \<notin> base"
    using assms(1) unfolding validate_console_peppers_def and_then_Inr refuse_if_Inr
    by (auto simp del: pepper_set.simps)
  obtain a where "validate_pepper_file L ''console pepper'' (sf_auth_pepper files) = Inr a"
    using pepper_set_Inr [OF base] by auto
  note p = read_peppers_Inr [OF assms(2) validate_path_not_empty [OF this]]
  have "\<forall>k\<in>{m_auth_pepper m, m_idempotency_pepper m, m_fingerprint_pepper m, m_rate_limit_pepper m, m_cursor_pepper m}. k \<in> base"
    using pepper_set_Inr [OF base] same_pepper p(1-5) by (simp, metis)
  moreover have "x = m_session_pepper m" "y = m_csrf_pepper m"
    using same_pepper [OF v(1) p(6) [OF validate_path_not_empty [OF v(1)]]]
      same_pepper [OF v(2) p(7) [OF validate_path_not_empty [OF v(2)]]] by auto
  ultimately show ?thesis using api_peppers_distinct [OF api assms(2)] new by auto
qed

lemma read_keyring_ran:
  assumes "validate_keyring_file L name path = Inr ms" and "read_keyring (cl_keyring L) (cl_euid L) (cl_files L) path = Inr kr"
  shows "ran (kr_keys kr) \<subseteq> ms"
proof -
  obtain raw d where a: "read_secret_file L name path = Inr raw" "cl_keyring L raw = Some d" "validate_keyring_keys name d = Inr ms"
    using assms(1) by (auto simp: validate_keyring_file_def decode_keyring_file_def split: option.splits if_splits)
  obtain raw' d' where b: "secure_read (cl_euid L) (cl_files L) path = Inr raw'" "cl_keyring L raw' = Some d'"
    "document_keyring d' = Inr kr"
    using assms(2) by (auto simp: read_keyring_def decode_keyring_def split: option.splits if_splits sum.splits)
  have "d = d'" using a(2) b(2) same_secret_file [OF a(1) b(1)] by simp
  then show ?thesis using same_keyring a(3) b(3) by simp
qed

lemma query_single: "length (q k) = Suc 0 \<Longrightarrow> q k = [query_get q k]"
  by (cases "q k") (auto simp: query_get_def)

lemma database_url_safe:
  assumes "validate_database_url L raw Production socket = Inr ()"
  shows "\<exists>u name. cl_url L raw = Some u \<and> cu_user u = Some (name, False) \<and> name \<noteq> [] \<and> cu_path u = ''/wde''
    \<and> (if socket
       then cu_query u ''host'' = [''/var/run/postgresql''] \<and> (\<exists>f passfile. cu_query u ''passfile'' = [passfile]
         \<and> cl_files L passfile = Some f \<and> fe_perm f mod 64 = 0 \<and> fe_owner f = Some (cl_euid L))
       else cu_host u \<noteq> [] \<and> cu_query u ''sslmode'' = [''verify-full''])"
proof -
  obtain u name pw where u: "cl_url L raw = Some u" "cu_user u = Some (name, pw)" "\<not> pw" "name \<noteq> []" "cu_path u = ''/wde''"
    using assms by (auto simp: validate_database_url_def Let_def split: option.splits if_splits prod.splits)
  have "cu_query u ''host'' = [''/var/run/postgresql''] \<and> (\<exists>f passfile. cu_query u ''passfile'' = [passfile]
         \<and> cl_files L passfile = Some f \<and> fe_perm f mod 64 = 0 \<and> fe_owner f = Some (cl_euid L))" if socket
  proof -
    have q: "length (cu_query u ''host'') = Suc 0" "query_get (cu_query u) ''host'' = ''/var/run/postgresql''"
      "length (cu_query u ''passfile'') = Suc 0"
      and f: "\<exists>f. validate_secret_path L ''database passfile'' (query_get (cu_query u) ''passfile'') = Inr f"
      using assms that u by (auto simp: validate_database_url_def Let_def split: if_splits)
    then show ?thesis using query_single [of "cu_query u" "''host''"] query_single [of "cu_query u" "''passfile''"]
      by (auto simp: validate_secret_path_def split: if_splits option.splits)
  qed
  moreover have "cu_host u \<noteq> [] \<and> cu_query u ''sslmode'' = [''verify-full'']" if "\<not> socket"
  proof -
    have q: "length (cu_query u ''sslmode'') = Suc 0" "query_get (cu_query u) ''sslmode'' = ''verify-full''" "cu_host u \<noteq> []"
      using assms that u by (auto simp: validate_database_url_def Let_def split: if_splits)
    then show ?thesis using query_single [of "cu_query u" "''sslmode''"] by simp
  qed
  ultimately show ?thesis using u by auto
qed

section \<open>Properties\<close>

text \<open>C32. In production the secrets of one purpose never serve another: once a production configuration has loaded, what
  \<open>cryptobox\<close> then reads from the files it names has no key in common between the payload and the signing keyring, and
  its peppers are pairwise different, the console's two included.\<close>

theorem production_secrets_separate:
  assumes "load_config L sv args lookup = Inr cfg" and "cg_profile cfg = Production"
    and "load_materials (cl_keyring L) (cl_euid L) (cl_files L) True (cg_secrets cfg) = Inr m"
  shows "ran (kr_keys (m_payload m)) \<inter> ran (kr_keys (m_signing m)) = {}
    \<and> (cg_service cfg \<in> {API, Console} \<longrightarrow> distinct [m_auth_pepper m, m_idempotency_pepper m, m_fingerprint_pepper m,
          m_rate_limit_pepper m, m_cursor_pepper m])
    \<and> (cg_service cfg = Console \<longrightarrow> distinct [m_session_pepper m, m_csrf_pepper m, m_auth_pepper m, m_idempotency_pepper m,
          m_fingerprint_pepper m, m_rate_limit_pepper m, m_cursor_pepper m])"
proof -
  have secrets: "validate_production_secrets L cfg = Inr ()"
    using production_checks(2) [OF assms(1,2)] by (simp add: validate_production_def)
  obtain payload signing where k: "validate_keyring_file L ''WDE_PAYLOAD_KEYRING_FILE'' (sf_payload_keyring (cg_secrets cfg)) = Inr payload"
    "validate_keyring_file L ''WDE_SIGNING_KEYRING_FILE'' (sf_signing_keyring (cg_secrets cfg)) = Inr signing"
    "payload \<inter> signing = {}"
    using secrets unfolding validate_production_secrets_def and_then_Inr refuse_if_Inr by auto
  have api: "validate_api_peppers L (cg_secrets cfg) = Inr ()" if "cg_service cfg = API"
    using secrets that unfolding validate_production_secrets_def and_then_Inr by auto
  have console: "validate_console_peppers L (cg_secrets cfg) = Inr ()" if "cg_service cfg = Console"
    using secrets that unfolding validate_production_secrets_def and_then_Inr by auto
  obtain peppers p g where m: "read_peppers (cl_euid L) (cl_files L) (cg_secrets cfg) = Inr peppers"
    "read_keyring (cl_keyring L) (cl_euid L) (cl_files L) (sf_payload_keyring (cg_secrets cfg)) = Inr p"
    "read_keyring (cl_keyring L) (cl_euid L) (cl_files L) (sf_signing_keyring (cg_secrets cfg)) = Inr g"
    "m = peppers\<lparr>m_payload := p, m_signing := g\<rparr>"
    using assms(3) by (auto simp: load_materials_def split: sum.splits)
  have fields: "m_payload m = p" "m_signing m = g" "m_auth_pepper m = m_auth_pepper peppers"
    "m_idempotency_pepper m = m_idempotency_pepper peppers" "m_fingerprint_pepper m = m_fingerprint_pepper peppers"
    "m_rate_limit_pepper m = m_rate_limit_pepper peppers" "m_cursor_pepper m = m_cursor_pepper peppers"
    "m_session_pepper m = m_session_pepper peppers" "m_csrf_pepper m = m_csrf_pepper peppers"
    by (simp_all add: m(4))
  have "ran (kr_keys p) \<inter> ran (kr_keys g) = {}" using read_keyring_ran [OF k(1) m(2)] read_keyring_ran [OF k(2) m(3)] k(3) by blast
  then show ?thesis
    unfolding fields using api_peppers_distinct [OF api m(1)] console_peppers_distinct [OF console m(1)] by auto
qed

text \<open>The production rules hold of every production configuration that loads: no profiling, no plain HTTP destinations,
  no chaos lab, TLS in front of the API and the console, and a database URL without a password whose connection is
  either verified in full or the local socket with a password file that nobody else can read.\<close>

theorem production_config_safe:
  assumes "load_config L sv args lookup = Inr cfg" and "cg_profile cfg = Production"
  shows "\<not> cg_pprof cfg \<and> \<not> cg_allow_http cfg \<and> cg_service cfg \<noteq> Chaos_lab
    \<and> (cg_service cfg \<in> {API, Console} \<longrightarrow> cg_ingress_tls cfg)
    \<and> (cg_service cfg \<in> {API, Worker, Console} \<longrightarrow> (\<exists>u name. cl_url L (cg_database_url cfg) = Some u
         \<and> cu_user u = Some (name, False) \<and> name \<noteq> [] \<and> cu_path u = ''/wde''
         \<and> (if cg_database_local_socket cfg
            then cu_query u ''host'' = [''/var/run/postgresql''] \<and> (\<exists>f passfile. cu_query u ''passfile'' = [passfile]
              \<and> cl_files L passfile = Some f \<and> fe_perm f mod 64 = 0 \<and> fe_owner f = Some (cl_euid L))
            else cu_host u \<noteq> [] \<and> cu_query u ''sslmode'' = [''verify-full''])))"
proof -
  note c = production_checks [OF assms]
  have p: "\<not> cg_pprof cfg" "\<not> cg_allow_http cfg" "cg_service cfg \<noteq> Chaos_lab"
    "cg_service cfg \<in> {API, Console} \<longrightarrow> cg_ingress_tls cfg"
    using c(2) unfolding validate_production_def and_then_Inr refuse_if_Inr by auto
  have db: "validate_database_url L (cg_database_url cfg) Production (cg_database_local_socket cfg) = Inr ()"
    if "cg_service cfg \<in> {API, Worker, Console}"
    using c(1) that assms(2) unfolding validate_common_def validate_addresses_def and_then_Inr by auto
  show ?thesis using p database_url_safe [OF db] by blast
qed

section \<open>The parts that are built from a configuration\<close>

definition policy_of :: "string \<Rightarrow> quota_limits \<Rightarrow> quota_policy" where
  "policy_of operation q =
     \<lparr>qp_operation = operation, qp_global = ql_global q, qp_workspace = ql_workspace q, qp_api_key = ql_api_key q,
      qp_resource = ql_resource q, qp_window = ql_window q\<rparr>"

definition edge_policy_of :: "edge_config \<Rightarrow> edge_policy" where
  "edge_policy_of e =
     \<lparr>ed_max_in_flight = ec_max_in_flight e, ed_global = ec_global e, ed_origin = ec_origin e, ed_prefix = ec_prefix e,
      ed_max_buckets = ec_max_buckets e, ed_window = ec_window e\<rparr>"

definition worker_options :: "(int \<Rightarrow> int) \<Rightarrow> config \<Rightarrow> runner_options" where
  "worker_options rnd cfg =
     \<lparr>ro_poll = cg_poll cfg, ro_claim_timeout = cg_claim_timeout cfg, ro_request_timeout = cg_request_timeout cfg,
      ro_lease_ttl = cg_lease_ttl cfg, ro_shutdown = cg_shutdown_timeout cfg, ro_concurrency = cg_concurrency cfg,
      ro_batch_size = cg_batch_size cfg, ro_workspace_limit = cg_workspace_limit cfg,
      ro_endpoint_limit = cg_endpoint_limit cfg,
      ro_retry = \<lparr>rp_base = cg_retry_base cfg, rp_cap = cg_retry_cap cfg, rp_jitter = rp_jitter (default_retry_policy rnd)\<rparr>,
      ro_poll_jitter = None\<rparr>"

lemma load_config_common: "load_config L sv args lookup = Inr cfg \<Longrightarrow> validate_common L cfg = Inr ()"
  using load_config_valid by (fastforce simp: validate_config_def)

lemma common_parts:
  assumes "validate_common L cfg = Inr ()"
  shows "validate_quotas cfg = Inr ()" and "validate_edge cfg = Inr ()"
    and "cg_service cfg = Worker \<Longrightarrow> validate_worker cfg = Inr ()" and "0 < cg_shutdown_timeout cfg"
  using assms by (auto simp: validate_common_def not_le)

lemma configured_quota:
  assumes "load_config L sv args lookup = Inr cfg"
    and "q \<in> {qc_ingest (cg_quotas cfg), qc_endpoint_write (cg_quotas cfg), qc_query (cg_quotas cfg), qc_replay (cg_quotas cfg)}"
  shows "validate_quota q"
  using common_parts(1) [OF load_config_common [OF assms(1)]] assms(2) by (auto simp: validate_quotas_def Let_def)

lemma configured_edge:
  assumes "load_config L sv args lookup = Inr cfg"
  shows "1 \<le> ec_max_in_flight (cg_edge cfg) \<and> 16 \<le> ec_max_buckets (cg_edge cfg) \<and> second \<le> ec_window (cg_edge cfg)"
  using common_parts(2) [OF load_config_common [OF assms]] by (auto simp: validate_edge_def Let_def not_less)

lemma window_range: "second \<le> w \<Longrightarrow> w \<le> hour \<Longrightarrow> 1 \<le> go_div w second \<and> go_div w second \<le> 3600"
  by (auto simp: duration_defs)

lemma edge_never_panics:
  assumes "0 \<le> ed_max_in_flight e" and "1 \<le> ed_max_buckets e" and "second \<le> ed_window e"
  shows "new_edge e \<noteq> None \<and> fst (edge_allow e pepper now origin prefix s) \<noteq> None"
proof -
  have "edge_bucket_of e key st lru \<noteq> None" for key st lru
    using assms(2) by (auto simp: edge_bucket_of_def Let_def split: option.splits)
  then have ok: "edge_buckets e st ks lru \<noteq> None" for st ks lru
    by (induction ks arbitrary: lru) (auto split: option.splits)
  obtain a b where eb: "edge_buckets e (window_of e now) (edge_keys e pepper origin prefix) (es_lru s) = Some (a, b)"
    using ok by (metis not_None_eq surj_pair)
  have "1 \<le> ed_window e div second"
    using zdiv_mono1 [of second "ed_window e" second] assms(3) by (simp add: second_def)
  then have "go_div (ed_window e) second \<noteq> 0" using assms(3) by (simp add: second_def)
  then show ?thesis using eb assms(1) by (auto simp: new_edge_def edge_allow_def Let_def)
qed

text \<open>The limits of every configuration that loads are limits the limiters can work with: the quota function never refuses
  the request of a configured policy, whatever its table holds, so that the only answers are admission and a delay;
  and the edge limiter can be built and never panics.\<close>

theorem loaded_limits_usable:
  assumes "load_config L sv args lookup = Inr cfg"
    and "(op, q) \<in> {(''ingest'', qc_ingest (cg_quotas cfg)), (''endpoint_write'', qc_endpoint_write (cg_quotas cfg)),
                    (''query'', qc_query (cg_quotas cfg)), (''replay'', qc_replay (cg_quotas cfg))}"
    and "pr_workspace p \<noteq> 0" and "pr_api_key p \<noteq> 0" and "item \<in> set (quota_dimensions p res (policy_of op q))"
  shows "quota_policy_ok p (policy_of op q) \<and> 1 \<le> dm_limit item
    \<and> (\<exists>r. consume_dimension pepper now (policy_of op q) item bs = Inr r)
    \<and> new_edge (edge_policy_of (cg_edge cfg)) \<noteq> None
    \<and> fst (edge_allow (edge_policy_of (cg_edge cfg)) pepper now origin prefix s) \<noteq> None"
proof -
  have q: "validate_quota q" using configured_quota [OF assms(1)] assms(2) by auto
  then have "second \<le> ql_window q" "ql_window q \<le> hour" by (simp_all add: validate_quota_def)
  note w = window_range [OF this]
  have lim: "1 \<le> dm_limit item \<and> dm_limit item \<le> 1000000"
    using q assms(5) by (auto simp: quota_dimensions_def policy_of_def validate_quota_def not_less split: if_splits)
  have "length (dimension_digest pepper (policy_of op q) item) = 32" by (simp add: dimension_digest_def)
  then have "quota_args_ok (dimension_digest pepper (policy_of op q) item) (dm_type item) op
       (not_nil (dm_workspace item)) (not_nil (dm_api_key item))
       (if dm_type item = ''delivery'' then Some (dm_value item) else None) (dm_limit item)
       (go_div (qp_window (policy_of op q)) second)"
    using assms(2-5) lim w
    by (auto simp: quota_args_ok_def quota_dimensions_def policy_of_def not_nil_def split: if_splits)
  moreover have "qp_operation (policy_of op q) = op" by (simp add: policy_of_def)
  ultimately have "\<exists>r. consume_dimension pepper now (policy_of op q) item bs = Inr r"
    by (auto simp: consume_dimension_def consume_quota_def Let_def split: prod.splits)
  moreover have "quota_policy_ok p (policy_of op q)"
    using q assms(3,4) by (simp add: quota_policy_ok_def policy_of_def validate_quota_def)
  moreover have "new_edge (edge_policy_of (cg_edge cfg)) \<noteq> None
      \<and> fst (edge_allow (edge_policy_of (cg_edge cfg)) pepper now origin prefix s) \<noteq> None"
    using configured_edge [OF assms(1)] by (intro edge_never_panics) (simp_all add: edge_policy_of_def)
  ultimately show ?thesis using lim by blast
qed

text \<open>C33. A configured worker runs as configured, and its claims are accepted exactly when its lease is at least twenty
  seconds: the concurrency, batch size, limits and time limits of the runner are the configured ones, but the
  validation accepts leases from ten seconds above the request timeout, and with a lease below twenty seconds
  every claim of the worker is refused.\<close>

theorem configured_worker_claims:
  assumes "load_config L sv args lookup = Inr cfg" and "cg_service cfg = Worker"
    and "w = new_runner_with_options rnd m p http i (worker_options rnd cfg)" and "i \<noteq> uuid_nil" and "sc_active s < wk_concurrency w"
  shows "wk_concurrency w = cg_concurrency cfg \<and> wk_batch_size w = cg_batch_size cfg
    \<and> wk_request_timeout w = cg_request_timeout cfg \<and> wk_lease_ttl w = cg_lease_ttl cfg
    \<and> wk_shutdown w = cg_shutdown_timeout cfg \<and> wk_lease_ttl w \<ge> wk_request_timeout w + 10 * second
    \<and> (claim_request_valid (runner_claim_request w (claim_limit (loop_of w) s)) \<longleftrightarrow> 20 * second \<le> cg_lease_ttl cfg)"
proof -
  have v: "validate_worker cfg = Inr ()" "0 < cg_shutdown_timeout cfg"
    using common_parts(3,4) [OF load_config_common [OF assms(1)]] assms(2) by auto
  then have c: "1 \<le> cg_batch_size cfg" "cg_batch_size cfg \<le> cg_concurrency cfg" "cg_concurrency cfg \<le> 100"
    "1 \<le> cg_workspace_limit cfg" "1 \<le> cg_endpoint_limit cfg" "100 * millisecond \<le> cg_request_timeout cfg"
    "cg_request_timeout cfg + 10 * second \<le> cg_lease_ttl cfg" "cg_lease_ttl cfg \<le> 2 * minute"
    "cg_shutdown_timeout cfg \<le> 30 * second" "0 < cg_retry_base cfg" "0 < cg_claim_timeout cfg" "0 < cg_poll cfg"
    by (auto simp: validate_worker_def not_less not_le duration_defs)
  have w: "wk_concurrency w = cg_concurrency cfg" "wk_batch_size w = cg_batch_size cfg"
    "wk_request_timeout w = cg_request_timeout cfg" "wk_lease_ttl w = cg_lease_ttl cfg" "wk_shutdown w = cg_shutdown_timeout cfg"
    "wk_workspace_limit w = cg_workspace_limit cfg" "wk_endpoint_limit w = cg_endpoint_limit cfg" "wk_id w = i"
    using c v(2) unfolding assms(3)
    by (auto simp: new_runner_with_options_def merge_runner_options_def worker_options_def Let_def duration_defs)
  have "1 \<le> claim_limit (loop_of w) s" "claim_limit (loop_of w) s \<le> 100"
    using assms(5) c w by (simp_all add: claim_limit_def loop_of_def)
  then have "claim_request_valid (runner_claim_request w (claim_limit (loop_of w) s)) \<longleftrightarrow> 20 * second \<le> cg_lease_ttl cfg"
    using assms(4) c w by (auto simp: claim_request_valid_def runner_claim_request_def not_less)
  then show ?thesis using w c by simp
qed

section \<open>A configuration of a worker in production\<close>

definition demo_keyring :: "key256 \<Rightarrow> keyring_document" where
  "demo_keyring k = \<lparr>kd_format_version = 1, kd_primary_key_version = 1,
     kd_keys = [\<lparr>ke_version = 1, ke_material = b64_encode (key_bytes k)\<rparr>]\<rparr>"

definition demo_file :: "bytes \<Rightarrow> file_entry" where
  "demo_file raw = \<lparr>fe_symlink = False, fe_regular = True, fe_perm = 384, fe_owner = Some 0, fe_opens = True, fe_same = True,
     fe_raw = Some raw\<rparr>"

definition demo_lib :: config_lib where
  "demo_lib = \<lparr>cl_duration = \<lambda>_. None, cl_float = \<lambda>_. None,
     cl_url = \<lambda>_. Some \<lparr>cu_scheme = ''postgres'', cu_user = Some (''u'', False), cu_host = ''h'', cu_path = ''/wde'',
       cu_raw_query = ''q'', cu_fragment = [], cu_query = \<lambda>k. if k = ''sslmode'' then [''verify-full''] else []\<rparr>,
     cl_flag_int = \<lambda>_. None, cl_lower = \<lambda>s. s,
     cl_keyring = \<lambda>raw. if raw = ''p'' then Some (demo_keyring 7) else if raw = ''s'' then Some (demo_keyring 8) else None,
     cl_euid = 0, cl_files = [''p'' \<mapsto> demo_file ''p'', ''s'' \<mapsto> demo_file ''s'']\<rparr>"

definition demo_environment :: environment where
  "demo_environment = [''WDE_PROFILE'' \<mapsto> ''production'', ''WDE_DATABASE_URL'' \<mapsto> ''db'',
     ''WDE_PAYLOAD_KEYRING_FILE'' \<mapsto> ''p'', ''WDE_SIGNING_KEYRING_FILE'' \<mapsto> ''s'']"

definition demo_worker_config :: config where
  "demo_worker_config = (base_config Worker)\<lparr>cg_profile := Production, cg_database_url := ''db'',
     cg_operational_addr := ''127.0.0.1:9091'', cg_concurrency := 8,
          cg_batch_size := 8, cg_workspace_limit := 2, cg_endpoint_limit := 2, cg_poll := 250 * millisecond,
          cg_claim_timeout := 200 * millisecond, cg_request_timeout := 10 * second, cg_lease_ttl := 30 * second,
          cg_retry_base := second, cg_retry_cap := 15 * minute,
     cg_secrets := no_secrets\<lparr>sf_payload_keyring := ''p'', sf_signing_keyring := ''s''\<rparr>\<rparr>"

lemma demo_apply: "and_then (config_defaults Worker) (apply_environment demo_lib demo_environment) = Inr demo_worker_config"
  by (simp add: config_defaults_def apply_environment_def apply_string_environment_def assign_env_def demo_environment_def
      profile_of_def duration_env_def bool_env_def int_env_def env_with_def apply_quota_environment_def apply_quota_policy_def
      apply_edge_environment_def apply_telemetry_environment_def apply_console_environment_def apply_worker_environment_def
      apply_secret_paths_def env_value_def trim_space_plain plain_char_def demo_worker_config_def base_config_def
      default_quotas_def default_edge_def default_telemetry_def no_secrets_def http_addr_variable_def
      operational_addr_variable_def del: and_then_Inr)

lemma demo_flags: "apply_flags demo_lib [] cfg = Inr cfg"
  by (simp add: apply_flags_def)

lemma demo_keyring_file:
  "validate_keyring_file demo_lib n ''p'' = Inr {7}" "validate_keyring_file demo_lib n ''s'' = Inr {8}"
  by (simp_all add: validate_keyring_file_def read_secret_file_def validate_secret_path_def demo_lib_def demo_file_def
      trim_space_plain plain_char_def decode_keyring_file_def demo_keyring_def validate_keyring_keys_def
      validate_keyring_key_def Let_def del: and_then_Inr)

lemma demo_database: "validate_database_url demo_lib ''db'' Production False = Inr ()"
  by (simp add: validate_database_url_def demo_lib_def trim_space_plain plain_char_def query_get_def)

lemma demo_valid: "validate_config demo_lib demo_worker_config = Inr ()"
proof -
  have f: "cg_service demo_worker_config = Worker" "cg_profile demo_worker_config = Production"
    "cg_database_url demo_worker_config = ''db''" "\<not> cg_database_local_socket demo_worker_config"
    "sf_payload_keyring (cg_secrets demo_worker_config) = ''p''" "sf_signing_keyring (cg_secrets demo_worker_config) = ''s''"
    "\<not> cg_pprof demo_worker_config" "\<not> cg_allow_http demo_worker_config"
    by (simp_all add: demo_worker_config_def base_config_def no_secrets_def)
  have a: "trim_space (cg_operational_addr demo_worker_config) \<noteq> []"
    by (simp add: demo_worker_config_def trim_space_plain plain_char_def)
  have "validate_production demo_lib demo_worker_config = Inr ()"
    unfolding validate_production_def validate_production_secrets_def by (simp add: f demo_keyring_file)
  moreover have "validate_worker demo_worker_config = Inr ()"
    by (simp add: validate_worker_def demo_worker_config_def base_config_def duration_defs)
  moreover have "validate_quotas demo_worker_config = Inr ()"
    by (simp add: validate_quotas_def validate_quota_def demo_worker_config_def base_config_def default_quotas_def duration_defs
      go_rem_def)
  moreover have "validate_edge demo_worker_config = Inr ()"
    by (simp add: validate_edge_def demo_worker_config_def base_config_def default_edge_def duration_defs go_rem_def)
  moreover have "validate_telemetry demo_lib demo_worker_config = Inr ()"
    by (simp add: validate_telemetry_def demo_worker_config_def base_config_def default_telemetry_def duration_defs
      trim_space_plain)
  moreover have "validate_addresses demo_lib demo_worker_config = Inr ()"
    using a f demo_database by (simp add: validate_addresses_def)
  moreover have "validate_console demo_lib demo_worker_config = Inr ()" by (simp add: validate_console_def f)
  ultimately show ?thesis
    unfolding validate_config_def validate_common_def
    by (simp add: f) (simp add: demo_worker_config_def base_config_def trim_space_plain plain_char_def valid_log_level_def
        to_lower_def ascii_lower_def byte_of_eq duration_defs)
qed

lemma demo_load: "load_config demo_lib Worker [] demo_environment = Inr demo_worker_config"
proof -
  obtain c where c: "config_defaults Worker = Inr c" "apply_environment demo_lib demo_environment c = Inr demo_worker_config"
    using demo_apply by auto
  show ?thesis by (simp add: load_config_def c demo_flags demo_valid)
qed

definition demo_materials :: materials where
  "demo_materials = zero_materials\<lparr>m_payload := \<lparr>kr_primary = 1, kr_keys = [1 \<mapsto> 7]\<rparr>,
     m_signing := \<lparr>kr_primary = 1, kr_keys = [1 \<mapsto> 8]\<rparr>\<rparr>"

lemma demo_materials_load:
  "load_materials (cl_keyring demo_lib) (cl_euid demo_lib) (cl_files demo_lib) True (cg_secrets demo_worker_config) = Inr demo_materials"
proof -
  have r: "read_keyring (cl_keyring demo_lib) (cl_euid demo_lib) (cl_files demo_lib) ''p'' = Inr \<lparr>kr_primary = 1, kr_keys = [1 \<mapsto> 7]\<rparr>"
    "read_keyring (cl_keyring demo_lib) (cl_euid demo_lib) (cl_files demo_lib) ''s'' = Inr \<lparr>kr_primary = 1, kr_keys = [1 \<mapsto> 8]\<rparr>"
    by (simp_all add: read_keyring_def secure_read_def demo_lib_def demo_file_def decode_keyring_def demo_keyring_def
        document_keyring_def decode_key_def in_int16_def)
  have f: "cg_secrets demo_worker_config = no_secrets\<lparr>sf_payload_keyring := ''p'', sf_signing_keyring := ''s''\<rparr>"
    by (simp add: demo_worker_config_def)
  show ?thesis by (simp add: load_materials_def f r read_peppers_def no_secrets_def demo_materials_def)
qed

lemma demo_production: "cg_profile demo_worker_config = Production" "cg_service demo_worker_config = Worker"
  by (simp_all add: demo_worker_config_def base_config_def)

lemma production_secrets_separate_witness:
  "ran (kr_keys (m_payload demo_materials)) \<inter> ran (kr_keys (m_signing demo_materials)) = {}"
  using production_secrets_separate [OF demo_load demo_production(1) demo_materials_load] by simp

lemma production_config_safe_witness: "\<not> cg_pprof demo_worker_config \<and> \<not> cg_allow_http demo_worker_config"
  using production_config_safe [OF demo_load demo_production(1)] by simp

lemma loaded_limits_usable_witness:
  "\<exists>r. consume_dimension 5 (61 * second) (policy_of ''replay'' (qc_replay (cg_quotas demo_worker_config)))
     \<lparr>dm_type = ''global'', dm_workspace = 0, dm_api_key = 0, dm_value = 0, dm_limit = 1000\<rparr> [] = Inr r"
proof -
  have "\<lparr>dm_type = ''global'', dm_workspace = 0, dm_api_key = 0, dm_value = 0, dm_limit = 1000\<rparr>
      \<in> set (quota_dimensions \<lparr>pr_api_key = 2, pr_workspace = 1, pr_scopes = {}\<rparr> 0
          (policy_of ''replay'' (qc_replay (cg_quotas demo_worker_config))))"
    by (simp add: quota_dimensions_def policy_of_def demo_worker_config_def base_config_def default_quotas_def)
  from loaded_limits_usable [OF demo_load _ _ _ this] show ?thesis by simp
qed

lemma configured_worker_claims_witness:
  "claim_request_valid (runner_claim_request
     (new_runner_with_options (\<lambda>n. n - 1) demo_materials Production False 7 (worker_options (\<lambda>n. n - 1) demo_worker_config))
     (claim_limit (loop_of (new_runner_with_options (\<lambda>n. n - 1) demo_materials Production False 7
       (worker_options (\<lambda>n. n - 1) demo_worker_config))) sched_start))"
proof -
  let ?w = "new_runner_with_options (\<lambda>n. n - 1) demo_materials Production False 7 (worker_options (\<lambda>n. n - 1) demo_worker_config)"
  have "sc_active sched_start < wk_concurrency ?w"
    by (simp add: sched_start_def new_runner_with_options_def merge_runner_options_def worker_options_def Let_def
        default_runner_options_def demo_worker_config_def)
  moreover have "20 * second \<le> cg_lease_ttl demo_worker_config" by (simp add: demo_worker_config_def duration_defs)
  ultimately show ?thesis
    using configured_worker_claims [OF demo_load demo_production(2) refl, where i = 7 and s = sched_start] by simp
qed

end
