(* ===== verification/Api_Server.thy ===== *)
theory Api_Server
  imports Edge_Limit Config_Safety Delivery_Views Publication Signing_Keys
begin

text \<open>
  \<open>cmd/api/server.go\<close>: the routes of the public API, what guards them, and the chain every request passes: security
  headers, request identifier, recovery, the process limits, authentication, quota, scope, handler. The functions of the
  standard library are collected in \<open>api_lib\<close>, what one request draws in \<open>api_draws\<close>. The path of a request is the list
  of its segments, as \<open>ServeMux\<close> splits and unescapes a clean path; a trailing slash makes an empty last segment.
\<close>

record api_lib =
  al_parse_uuid :: "string \<Rightarrow> uuid option"
  al_uuid_value :: "string \<Rightarrow> uuid"
  al_uuid_text :: uuid_text
  al_url :: url_env
  al_resolve :: "string \<Rightarrow> addr list option"
  al_collate :: "string list \<Rightarrow> string list"
  al_create :: "bytes \<Rightarrow> create_input option"
  al_overlap :: "bytes \<Rightarrow> int option"
  al_reason :: "bytes \<Rightarrow> string option"
  al_json :: json_env
  al_split_host_port :: "string \<Rightarrow> (string \<times> string) option"
  al_is_ip :: "string \<Rightarrow> bool"

record api_draws =
  aq_now :: instant
  aq_tx :: tx_env
  aq_request_id :: "bytes option"
  aq_draws :: draws
  aq_id :: "uuid option"
  aq_audit :: "uuid option"
  aq_nonce :: "bytes option"
  aq_new :: "nat \<Rightarrow> uuid option"
  aq_clock :: "nat \<Rightarrow> instant"

record api_state =
  ax_edge :: edge_state
  ax_buckets :: "bucket_row list"
  ax_auth :: auth_db
  ax_data :: api_db

section \<open>Routes\<close>

datatype api_route = Create_endpoint | Get_endpoint | Rotate_secret | Publish_event | List_deliveries | Get_delivery
  | Replay_delivery | Api_index | Unmatched

text \<open>The patterns of \<open>publicRoutes\<close>, each with its method.\<close>

definition api_patterns :: "(string \<times> string list \<times> api_route) list" where
  "api_patterns =
     [(''GET'', [''''], Api_index),
      (''POST'', [''v1'', ''endpoints''], Create_endpoint),
      (''GET'', [''v1'', ''endpoints'', ''{id}''], Get_endpoint),
      (''POST'', [''v1'', ''endpoints'', ''{id}'', ''secret-rotations''], Rotate_secret),
      (''POST'', [''v1'', ''events''], Publish_event),
      (''GET'', [''v1'', ''deliveries''], List_deliveries),
      (''GET'', [''v1'', ''deliveries'', ''{id}''], Get_delivery),
      (''POST'', [''v1'', ''deliveries'', ''{id}'', ''replays''], Replay_delivery)]"

text \<open>The values of the wildcards; a wildcard matches one segment that is not empty.\<close>

fun match_segments :: "string list \<Rightarrow> string list \<Rightarrow> string list option" where
  "match_segments [] [] = Some []"
| "match_segments (p # ps) (s # ss) =
     (if p = ''{id}'' then (if s = [] then None else map_option (Cons s) (match_segments ps ss))
      else if p = s then match_segments ps ss else None)"
| "match_segments _ _ = None"

definition method_matches :: "string \<Rightarrow> string \<Rightarrow> bool" where
  "method_matches pattern m \<longleftrightarrow> m = pattern \<or> pattern = ''GET'' \<and> m = ''HEAD''"

definition route_of :: "string \<Rightarrow> string list \<Rightarrow> api_route \<times> string" where
  "route_of m path =
     (case find (\<lambda>(pm, ps, rt). method_matches pm m \<and> match_segments ps path \<noteq> None) api_patterns of
        None \<Rightarrow> (Unmatched, [])
      | Some (pm, ps, rt) \<Rightarrow> (rt, (case match_segments ps path of Some (i # _) \<Rightarrow> i | _ \<Rightarrow> [])))"

text \<open>The scope and the quota of a route; the index and unmatched paths have neither.\<close>

definition route_guard :: "quota_config \<Rightarrow> api_route \<Rightarrow> (string \<times> quota_policy) option" where
  "route_guard q route = (case route of
     Create_endpoint \<Rightarrow> Some (''endpoints:write'', policy_of ''endpoint_write'' (qc_endpoint_write q))
   | Get_endpoint \<Rightarrow> Some (''deliveries:read'', policy_of ''query'' (qc_query q))
   | Rotate_secret \<Rightarrow> Some (''endpoints:write'', policy_of ''endpoint_write'' (qc_endpoint_write q))
   | Publish_event \<Rightarrow> Some (''events:write'', policy_of ''ingest'' (qc_ingest q))
   | List_deliveries \<Rightarrow> Some (''deliveries:read'', policy_of ''query'' (qc_query q))
   | Get_delivery \<Rightarrow> Some (''deliveries:read'', policy_of ''query'' (qc_query q))
   | Replay_delivery \<Rightarrow> Some (''deliveries:retry'', policy_of ''replay'' (qc_replay q))
   | Api_index \<Rightarrow> None
   | Unmatched \<Rightarrow> None)"

section \<open>Handlers\<close>

datatype api_body = From_endpoints endpoint_body | From_events publish_result | From_deliveries delivery_body | Index_document

definition endpoint_service_of :: "config \<Rightarrow> materials \<Rightarrow> endpoint_service" where
  "endpoint_service_of cfg m = \<lparr>sv_profile = cg_profile cfg, sv_allow_http = cg_allow_http cfg, sv_materials = m\<rparr>"

definition on_queue :: "('b \<times> db) \<Rightarrow> api_db \<Rightarrow> 'b \<times> api_db" where
  "on_queue x s = (fst x, s\<lparr>ap_queue := snd x\<rparr>)"

definition reply_with :: "('b \<Rightarrow> 'c) \<Rightarrow> 'b reply \<times> 's \<Rightarrow> 'c reply \<times> 's" where
  "reply_with f x = (map_reply f (fst x), snd x)"

definition api_handler ::
    "api_lib \<Rightarrow> config \<Rightarrow> materials \<Rightarrow> api_draws \<Rightarrow> api_route \<Rightarrow> principal request \<Rightarrow> api_db \<Rightarrow> api_body reply \<times> api_db" where
  "api_handler L cfg m q route r s =
     (let sv = endpoint_service_of cfg m
      in case route of
        Create_endpoint \<Rightarrow> reply_with From_endpoints
          (create_handler (al_create L) (al_url L) (al_resolve L) (al_uuid_text L) sv (aq_draws q) (aq_now q) r s)
      | Get_endpoint \<Rightarrow> reply_with From_endpoints
          (endpoint_get_handler (al_parse_uuid L) (ue_parse_addr (al_url L)) (al_collate L) (al_uuid_text L) sv r s, s)
      | Rotate_secret \<Rightarrow> reply_with From_endpoints
          (rotate_handler (al_parse_uuid L) (al_overlap L) (al_uuid_text L) sv (aq_draws q) (aq_now q) r s)
      | Publish_event \<Rightarrow> reply_with From_events
          (publish_handler (al_json L) (al_uuid_text L) m (aq_now q) (aq_id q) (aq_nonce q) (aq_new q) (aq_clock q) r s)
      | List_deliveries \<Rightarrow> reply_with From_deliveries (list_handler m (ap_queue s) r, s)
      | Get_delivery \<Rightarrow> reply_with From_deliveries (get_handler (al_parse_uuid L) (ap_queue s) r, s)
      | Replay_delivery \<Rightarrow> reply_with From_deliveries (on_queue
          (replay_handler (al_parse_uuid L) (al_reason L) (al_uuid_text L) m (aq_id q) (aq_audit q) (aq_clock q)
             (ap_queue s) r) s)
      | Api_index \<Rightarrow> (Reply 200 Index_document, s)
      | Unmatched \<Rightarrow> (write_problem r 404 ''not_found'' ''Resource not found'', s))"

section \<open>The chain\<close>

text \<open>
  The middlewares of \<open>protected\<close>, from the outside in; a request that got a slot gives it back on every way out. The result
  is the header \<open>Retry-After\<close>, the answer (\<open>None\<close> for a panic) and the state.
\<close>

type_synonym guarded = "(string option \<times> api_body reply option) \<times> api_state"

definition authenticated_quota ::
    "api_lib \<Rightarrow> materials \<Rightarrow> api_draws \<Rightarrow> quota_policy \<Rightarrow> (principal request \<Rightarrow> api_state \<Rightarrow> guarded)
      \<Rightarrow> principal request \<Rightarrow> api_state \<Rightarrow> guarded" where
  "authenticated_quota L m q policy next r st =
     (case authenticate_request (db_lookup (ax_auth st)) (m_auth_pepper m) (aq_now q) r of
        Inl a \<Rightarrow> ((None, Some a), st)
      | Inr r' \<Rightarrow>
     (case quota_request (al_uuid_value L) (m_rate_limit_pepper m) (aq_tx q) (aq_now q) policy r' (ax_buckets st) of
        (Some (retryAfter, a), bs) \<Rightarrow> ((retryAfter, Some a), st\<lparr>ax_buckets := bs\<rparr>)
      | (None, bs) \<Rightarrow> next r' (st\<lparr>ax_buckets := bs\<rparr>)))"

definition authorized ::
    "api_lib \<Rightarrow> config \<Rightarrow> materials \<Rightarrow> api_draws \<Rightarrow> api_route \<Rightarrow> string \<Rightarrow> principal request \<Rightarrow> api_state \<Rightarrow> guarded" where
  "authorized L cfg m q route scope r st =
     (case authorize_request scope r of
        Inl a \<Rightarrow> ((None, Some a), st)
      | Inr r' \<Rightarrow> (case api_handler L cfg m q route r' (ax_data st) of
          (a, s) \<Rightarrow> ((None, Some a), st\<lparr>ax_data := s\<rparr>)))"

definition protected ::
    "api_lib \<Rightarrow> config \<Rightarrow> materials \<Rightarrow> api_draws \<Rightarrow> api_route \<Rightarrow> string \<Rightarrow> quota_policy \<Rightarrow> principal request \<Rightarrow> api_state
      \<Rightarrow> guarded" where
  "protected L cfg m q route scope policy r st =
     (case edge_enter (edge_policy_of (cg_edge cfg)) (m_rate_limit_pepper m)
             (request_origin (al_split_host_port L) (al_is_ip L)) header_prefix (aq_now q) r (ax_edge st) of
        (None, e) \<Rightarrow> ((None, None), st\<lparr>ax_edge := e\<rparr>)
      | (Some (Inl (retryAfter, a)), e) \<Rightarrow> ((Some retryAfter, Some a), st\<lparr>ax_edge := e\<rparr>)
      | (Some (Inr u), e) \<Rightarrow>
          (case authenticated_quota L m q policy (authorized L cfg m q route scope) r (st\<lparr>ax_edge := e\<rparr>) of
             (a, st') \<Rightarrow> (a, st'\<lparr>ax_edge := edge_leave (ax_edge st')\<rparr>)))"

definition security_headers :: "bool \<Rightarrow> (string \<times> string) list" where
  "security_headers hsts =
     [(''Content-Security-Policy'', ''default-src 'none'; frame-ancestors 'none'; base-uri 'none'; form-action 'none'' @ [CHR 0x27]),
      (''X-Frame-Options'', ''DENY''), (''X-Content-Type-Options'', ''nosniff''), (''Referrer-Policy'', ''no-referrer''),
      (''Cache-Control'', ''no-store'')]
     @ (if hsts then [(''Strict-Transport-Security'', ''max-age=31536000; includeSubDomains'')] else [])"

definition api_serve ::
    "api_lib \<Rightarrow> config \<Rightarrow> materials \<Rightarrow> api_draws \<Rightarrow> string \<Rightarrow> string list \<Rightarrow> principal request \<Rightarrow> api_state
      \<Rightarrow> ((string \<times> string) list \<times> api_body reply) \<times> api_state" where
  "api_serve L cfg m q meth path r0 st =
     (let (i, r1) = identify_request (aq_request_id q) r0;
          (route, seg) = route_of meth path;
          r = r1\<lparr>hx_path_value := \<lambda>k. if k = ''id'' then seg else []\<rparr>;
          ((retryAfter, a), st') = (case route_guard (cg_quotas cfg) route of
             None \<Rightarrow> (case api_handler L cfg m q route r (ax_data st) of (a, s) \<Rightarrow> ((None, Some a), st\<lparr>ax_data := s\<rparr>))
           | Some (scope, policy) \<Rightarrow> protected L cfg m q route scope policy r st)
      in ((security_headers (cg_profile cfg = Production \<and> cg_ingress_tls cfg)
             @ [(''X-Request-ID'', i)] @ (case retryAfter of None \<Rightarrow> [] | Some n \<Rightarrow> [(''Retry-After'', n)]),
           the (recover_handler (\<lambda>_. a) r)), st'))"

section \<open>The ways through the chain\<close>

text \<open>The quota rows are untouched, or are what the limiter left of them for an active key that the request presents.\<close>

definition quota_only :: "api_lib \<Rightarrow> materials \<Rightarrow> api_draws \<Rightarrow> quota_policy \<Rightarrow> string \<Rightarrow> principal request \<Rightarrow> api_state \<Rightarrow> bucket_row list \<Rightarrow> bool"
where
  "quota_only L m q policy seg r st bs \<longleftrightarrow> bs = ax_buckets st
     \<or> (\<exists>rec res. presents_key (db_lookup (ax_auth st)) (m_auth_pepper m) (aq_now q) r rec
          \<and> consume (m_rate_limit_pepper m) (aq_tx q) (aq_now q) (principal_of rec) (al_uuid_value L seg) policy
               (ax_buckets st) = (res, bs))"

lemma quota_only_same [simp]:
  "quota_only L m q policy seg r st (ax_buckets st)"
  "quota_only L m q policy seg r (st\<lparr>ax_edge := e\<rparr>) bs = quota_only L m q policy seg r st bs"
  by (simp_all add: quota_only_def)

lemma quota_only_header: "hx_header r' = hx_header r \<Longrightarrow> quota_only L m q policy seg r' st bs = quota_only L m q policy seg r st bs"
  by (simp add: quota_only_def presents_key_def)

lemma authenticated_quota_cases:
  assumes "authenticated_quota L m q policy next r st = ((ra, a), st')"
  obtains (refused) "\<forall>c b. a \<noteq> Some (Reply c b)" "ax_data st' = ax_data st" "ax_auth st' = ax_auth st" "ax_edge st' = ax_edge st"
      "quota_only L m q policy (hx_path_value r ''id'') r st (ax_buckets st')"
  | (passed) rec bs where "presents_key (db_lookup (ax_auth st)) (m_auth_pepper m) (aq_now q) r rec"
      "consume (m_rate_limit_pepper m) (aq_tx q) (aq_now q) (principal_of rec) (al_uuid_value L (hx_path_value r ''id'')) policy
         (ax_buckets st) = (Inr (), bs)"
      "next (r\<lparr>hx_principal := Some (principal_of rec)\<rparr>) (st\<lparr>ax_buckets := bs\<rparr>) = ((ra, a), st')"
proof (cases rule: authenticate_request_cases [of "db_lookup (ax_auth st)" "m_auth_pepper m" "aq_now q" r, where 'a = api_body])
  case u: refused
  show ?thesis using assms by (intro refused) (auto simp: authenticated_quota_def u write_problem_def quota_only_def)
next
  case (known rec)
  let ?r = "r\<lparr>hx_principal := Some (principal_of rec)\<rparr>"
  obtain res bs where c: "consume (m_rate_limit_pepper m) (aq_tx q) (aq_now q) (principal_of rec)
      (al_uuid_value L (hx_path_value r ''id'')) policy (ax_buckets st) = (res, bs)" by fastforce
  show ?thesis
  proof (cases res)
    case (Inl err)
    have "quota_only L m q policy (hx_path_value r ''id'') r st bs" unfolding quota_only_def using known(1) c by blast
    then show ?thesis using assms known c Inl
      by (intro refused) (auto simp: authenticated_quota_def quota_request_def write_problem_def Let_def split: option.splits)
  next
    case (Inr u)
    show ?thesis using assms known c Inr
      by (intro passed [of rec bs]) (auto simp: authenticated_quota_def quota_request_def Let_def)
  qed
qed

lemma authorized_cases:
  assumes "authorized L cfg m q route scope r st = ((ra, a), st')" and "hx_principal r = Some p"
  obtains (refused) "\<forall>c b. a \<noteq> Some (Reply c b)" "st' = st"
  | (granted) b s where "scope \<in> pr_scopes p" "api_handler L cfg m q route r (ax_data st) = (b, s)" "a = Some b"
      "st' = st\<lparr>ax_data := s\<rparr>"
proof (cases "scope \<in> pr_scopes p")
  case False
  show ?thesis using assms False
    by (intro refused) (auto simp: authorized_def authorize_request_def write_problem_def)
next
  case True
  obtain b s where h: "api_handler L cfg m q route r (ax_data st) = (b, s)" by fastforce
  show ?thesis using assms True h by (intro granted [of b s]) (auto simp: authorized_def authorize_request_def)
qed

lemma protected_cases:
  assumes "protected L cfg m q route scope policy r st = ((ra, a), st')"
  obtains (refused) "\<forall>c b. a \<noteq> Some (Reply c b)" "ax_data st' = ax_data st"
      "ax_auth st' = ax_auth st" "es_slots (ax_edge st') = es_slots (ax_edge st)"
      "quota_only L m q policy (hx_path_value r ''id'') r st (ax_buckets st')"
  | (admitted) rec e bs b s where "presents_key (db_lookup (ax_auth st)) (m_auth_pepper m) (aq_now q) r rec"
      "(edge_enter (edge_policy_of (cg_edge cfg)) (m_rate_limit_pepper m) (request_origin (al_split_host_port L) (al_is_ip L))
         header_prefix (aq_now q) r (ax_edge st) :: ((string \<times> api_body reply) + unit) option \<times> edge_state) = (Some (Inr ()), e)"
      "consume (m_rate_limit_pepper m) (aq_tx q) (aq_now q) (principal_of rec) (al_uuid_value L (hx_path_value r ''id'')) policy
         (ax_buckets st) = (Inr (), bs)"
      "scope \<in> set (ar_scopes rec)"
      "api_handler L cfg m q route (r\<lparr>hx_principal := Some (principal_of rec)\<rparr>) (ax_data st) = (b, s)"
      "a = Some b" "st' = st\<lparr>ax_edge := edge_leave e, ax_buckets := bs, ax_data := s\<rparr>"
proof -
  obtain en e where en: "(edge_enter (edge_policy_of (cg_edge cfg)) (m_rate_limit_pepper m)
      (request_origin (al_split_host_port L) (al_is_ip L)) header_prefix (aq_now q) r (ax_edge st)
        :: ((string \<times> api_body reply) + unit) option \<times> edge_state) = (en, e)" by fastforce
  from en show ?thesis
  proof (cases rule: edge_enter_cases)
    case no: refused
    have "\<forall>c b. a \<noteq> Some (Reply c b)" "st' = st\<lparr>ax_edge := e\<rparr>"
      using assms en no(1) by (auto simp: protected_def edge_enter_def write_edge_limit_def Let_def
          split: option.splits sum.splits prod.splits if_splits)
    then show ?thesis using no(2) by (intro refused) simp_all
  next
    case (allowed lru)
    obtain st1 where aq: "authenticated_quota L m q policy (authorized L cfg m q route scope) r (st\<lparr>ax_edge := e\<rparr>) = ((ra, a), st1)"
      and st': "st' = st1\<lparr>ax_edge := edge_leave (ax_edge st1)\<rparr>"
      using assms en allowed(1) by (auto simp: protected_def split: prod.splits)
    from aq show ?thesis
    proof (cases rule: authenticated_quota_cases)
      case no: refused
      then show ?thesis using allowed(3) by (intro refused) (simp_all add: st' edge_leave_def)
    next
      case (passed rec bs)
      have p: "hx_principal (r\<lparr>hx_principal := Some (principal_of rec)\<rparr>) = Some (principal_of rec)" by simp
      from passed(3) p show ?thesis
      proof (cases rule: authorized_cases)
        case no: refused
        have "quota_only L m q policy (hx_path_value r ''id'') r st bs" unfolding quota_only_def using passed(1,2) by auto
        then show ?thesis using no allowed(3) by (intro refused) (simp_all add: st' edge_leave_def)
      next
        case (granted b s)
        show ?thesis
          by (rule admitted [of rec e bs b s]) (use passed granted en allowed(1) in \<open>simp_all add: st' principal_of_def\<close>)
      qed
    qed
  qed
qed

section \<open>The rows of a workspace\<close>

definition workspace_rows :: "uuid \<Rightarrow> api_db \<Rightarrow> api_db" where
  "workspace_rows ws s =
     (let q = ap_queue s
      in s\<lparr>ap_queue := \<lparr>db_workspaces = filter (\<lambda>w. wr_id w = ws) (db_workspaces q),
             db_endpoints = filter (\<lambda>e. ep_ws e = ws) (db_endpoints q), db_runtime = filter (\<lambda>x. rt_ws x = ws) (db_runtime q),
             db_events = filter (\<lambda>e. er_ws e = ws) (db_events q), db_secrets = filter (\<lambda>v. sr_ws v = ws) (db_secrets q),
             db_deliveries = filter (\<lambda>d. dr_ws d = ws) (db_deliveries q),
             db_attempts = filter (\<lambda>a. at_ws a = ws) (db_attempts q), db_replays = filter (\<lambda>c. rc_ws c = ws) (db_replays q),
             db_claim_seq = db_claim_seq q\<rparr>,
           ap_subs := filter (\<lambda>(w, e, t). w = ws) (ap_subs s),
           ap_rotations := filter (\<lambda>x. ro_ws x = ws) (ap_rotations s)\<rparr>)"

lemma filter_update_other:
  "(\<And>x. P x \<Longrightarrow> \<not> Q x \<and> \<not> Q (f x)) \<Longrightarrow> filter Q (update_where P f xs) = filter Q xs"
  by (induction xs) auto

lemma filter_none: "(\<And>x. x \<in> set xs \<Longrightarrow> \<not> P x) \<Longrightarrow> filter P xs = []"
  by (induction xs) auto

lemma create_isolated:
  assumes "create_as u lookup us sv w now ws0 ty actor req input s = Inr (c, s')" and "ws \<noteq> ws0"
  shows "workspace_rows ws s' = workspace_rows ws s"
proof -
  from create_Inr [OF assms(1)] obtain d types r secret where
    r: "make_record us (sv_materials sv) w ws0 ty actor req d types = Inr (r, secret)" "store_create us now r s = Inr s'" by blast
  have "nr_ws r = ws0" using make_record_Inr [OF r(1)] by blast
  then show ?thesis using r(2) assms(2)
    by (auto simp: store_create_def workspace_rows_def endpoint_row_of_def new_secret_row_def filter_none Let_def split: if_splits)
qed

lemma retire_purge_ws [simp]: "sr_ws (retire_secret_row t v) = sr_ws v" "sr_ws (purge_secret_row v) = sr_ws v"
  by (simp_all add: retire_secret_row_def purge_secret_row_def)

lemma rotate_isolated:
  assumes "rotate us m w st ws0 i actor req key ov s = Inr (res, s')" and "ws \<noteq> ws0"
  shows "workspace_rows ws s' = workspace_rows ws s"
proof -
  from assms(1) obtain c stored where c: "rotation_request us m w ws0 i actor req key ov = Inr c"
    "rotate_endpoint_secret st c s = Inr (stored, s')" by (auto simp: rotate_Inr)
  have u: "filter (\<lambda>v. sr_ws v = ws) (update_where (\<lambda>v. sr_ws v = w \<and> sr_id v = i) (retire_secret_row t) vs)
      = filter (\<lambda>v. sr_ws v = ws) vs"
    "filter (\<lambda>v. sr_ws v = ws) (update_where (\<lambda>v. sr_ws v = w \<and> sr_id v = i) purge_secret_row vs) = filter (\<lambda>v. sr_ws v = ws) vs"
    if "ws \<noteq> w" for w i t and vs :: "secret_row list"
    using that by (auto intro!: filter_update_other)
  have "rr_ws c = ws0" using rotation_request_Inr [OF c(1)] by blast
  then show ?thesis using c(2) assms(2)
    by (auto simp: rotate_endpoint_secret_def workspace_rows_def new_secret_row_def u Let_def
        split: if_splits option.splits)
qed

lemma publish_isolated:
  assumes "publish j us m now newID nonce new clk ws0 key raw s = Inr (res, s')" and "ws \<noteq> ws0"
  shows "workspace_rows ws s' = workspace_rows ws s"
proof -
  from assms(1) obtain r where r: "publish_record j us m now newID nonce ws0 key raw = Inr r"
    "store_publish new clk r s = Inr (res, s')" by (auto simp: publish_Inr)
  have "ev_workspace r = ws0" using r(1) by (auto simp: publish_record_Inr)
  then show ?thesis using store_publish_Inr [OF r(2)] assms(2)
    by (auto simp: workspace_rows_def event_row_of_def new_delivery_def filter_none Let_def split: if_splits)
qed

lemma replay_isolated:
  assumes "request_replay_as us m cmd audit clk ws0 d actor key reason req q = Inr (res, q')" and "ws \<noteq> ws0" and "ap_queue s = q"
  shows "workspace_rows ws (s\<lparr>ap_queue := q'\<rparr>) = workspace_rows ws s"
proof -
  from assms(1) obtain c run dup where c: "replay_service us m cmd audit ws0 d actor key reason req = Inr c"
    "request_replay c clk q = Inr ((run, dup), q')"
    by (auto simp: request_replay_as_def store_request_replay_def split: sum.splits)
  have u: "filter (\<lambda>d. dr_ws d = ws) (update_where (\<lambda>x. dr_ws x = w \<and> dr_id x = i) (replay_row_update t n) ds)
      = filter (\<lambda>d. dr_ws d = ws) ds" if "ws \<noteq> w" for w i t n ds
    using that by (intro filter_update_other) (auto simp: replay_row_update_def)
  have "rq_ws c = ws0" using c(1) by (auto simp: replay_service_def Let_def split: if_splits option.splits)
  then show ?thesis using c(2) assms(2,3)
    by (auto simp: request_replay_def workspace_rows_def dkey_def u Let_def
        split: if_splits option.splits)
qed

text \<open>A handler changes the tables only on the three writing routes, only in the caller's workspace, and only when it answers
  with a success.\<close>

lemma api_handler_isolated:
  assumes "api_handler L cfg m q route r s = (a, s')" and "ws \<noteq> pr_workspace (request_principal r)"
  shows "workspace_rows ws s' = workspace_rows ws s"
proof (cases route)
  case Create_endpoint
  then show ?thesis using assms create_isolated [OF _ assms(2)]
    by (auto simp: api_handler_def create_handler_def reply_with_def Let_def split: if_splits option.splits sum.splits endpoint_error.splits)
next
  case Rotate_secret
  then show ?thesis using assms rotate_isolated [OF _ assms(2)]
    by (auto simp: api_handler_def rotate_handler_def reply_with_def Let_def split: if_splits option.splits sum.splits endpoint_error.splits)
next
  case Publish_event
  then show ?thesis using assms publish_isolated [OF _ assms(2)]
    by (auto simp: api_handler_def publish_handler_def reply_with_def Let_def split: if_splits option.splits sum.splits event_error.splits)
next
  case Replay_delivery
  then show ?thesis using assms replay_isolated [OF _ assms(2) refl]
    by (auto simp: api_handler_def replay_handler_def reply_with_def on_queue_def Let_def split: if_splits option.splits sum.splits)
qed (use assms in \<open>auto simp: api_handler_def reply_with_def\<close>)

lemma workspace_rows_own:
  assumes "workspace_rows ws s = workspace_rows ws s'"
  shows "own_deliveries ws (ap_queue s) = own_deliveries ws (ap_queue s')"
    "own_attempts ws (ap_queue s) = own_attempts ws (ap_queue s')"
    "filter (\<lambda>e. ep_ws e = ws) (db_endpoints (ap_queue s)) = filter (\<lambda>e. ep_ws e = ws) (db_endpoints (ap_queue s'))"
    "filter (\<lambda>(w, e, t). w = ws) (ap_subs s) = filter (\<lambda>(w, e, t). w = ws) (ap_subs s')"
  using arg_cong [OF assms, of "\<lambda>x. db_deliveries (ap_queue x)"] arg_cong [OF assms, of "\<lambda>x. db_attempts (ap_queue x)"]
    arg_cong [OF assms, of "\<lambda>x. db_endpoints (ap_queue x)"] arg_cong [OF assms, of ap_subs]
  by (simp_all add: workspace_rows_def own_deliveries_def own_attempts_def Let_def)

lemma find_conj_filter: "find (\<lambda>x. P x \<and> Q x) xs = find Q (filter P xs)"
  by (induction xs) auto

lemma find_SomeD: "find P xs = Some x \<Longrightarrow> x \<in> set xs \<and> P x"
  by (induction xs) (auto split: if_splits)

lemma endpoint_types_own:
  "endpoint_types collate ws i s = collate (map (\<lambda>(w, e, t). t) (filter (\<lambda>(w, e, t). e = i) (filter (\<lambda>(w, e, t). w = ws) (ap_subs s))))"
  by (simp add: endpoint_types_def filter_filter case_prod_unfold conj_commute)

lemma get_endpoint_own:
  assumes "workspace_rows ws s = workspace_rows ws s'"
  shows "get_endpoint pa collate us sv ws i s = get_endpoint pa collate us sv ws i s'"
proof -
  have f: "find (\<lambda>e. ep_ws e = ws \<and> ep_id e = i) (db_endpoints (ap_queue s)) = find (\<lambda>e. ep_ws e = ws \<and> ep_id e = i) (db_endpoints (ap_queue s'))"
    unfolding find_conj_filter workspace_rows_own(3) [OF assms] ..
  have "stored_record_of collate s e = stored_record_of collate s' e" if "ep_ws e = ws" for e
    unfolding stored_record_of_def that endpoint_types_own workspace_rows_own(4) [OF assms] ..
  then have "store_get collate ws i s = store_get collate ws i s'"
    unfolding store_get_def f by (auto dest: find_SomeD split: option.split)
  then show ?thesis by (simp add: get_endpoint_def)
qed

lemma api_handler_reads:
  assumes "workspace_rows (pr_workspace (request_principal r)) s = workspace_rows (pr_workspace (request_principal r)) s'"
    and "route \<notin> {Create_endpoint, Rotate_secret, Publish_event, Replay_delivery}"
  shows "fst (api_handler L cfg m q route r s) = fst (api_handler L cfg m q route r s')"
    "snd (api_handler L cfg m q route r s) = s"
proof -
  have d: "get_handler pu (ap_queue s) r = get_handler pu (ap_queue s') r"
    "list_handler m (ap_queue s) r = list_handler m (ap_queue s') r" for pu
    using views_isolated [OF workspace_rows_own(1,2) [OF assms(1)]] by blast+
  have e: "endpoint_get_handler pu pa collate us sv r s = endpoint_get_handler pu pa collate us sv r s'" for pu pa collate us sv
    unfolding endpoint_get_handler_def get_endpoint_own [OF assms(1)] ..
  show "fst (api_handler L cfg m q route r s) = fst (api_handler L cfg m q route r s')"
    using assms(2) d e by (cases route) (auto simp: api_handler_def reply_with_def)
  show "snd (api_handler L cfg m q route r s) = s"
    using assms(2) by (cases route) (auto simp: api_handler_def reply_with_def)
qed

lemma route_methods:
  assumes "route_of meth path = (route, seg)" and "route \<in> {Create_endpoint, Rotate_secret, Publish_event, Replay_delivery}"
  shows "meth = ''POST''"
proof -
  from assms obtain pm ps where f: "find (\<lambda>(pm, ps, rt). method_matches pm meth \<and> match_segments ps path \<noteq> None) api_patterns = Some (pm, ps, route)"
    by (auto simp: route_of_def split: option.splits)
  then have "(pm, ps, route) \<in> set api_patterns" "method_matches pm meth" by (auto dest: find_SomeD)
  then show ?thesis using assms(2) by (auto simp: api_patterns_def method_matches_def)
qed

text \<open>What a request may do, seen from outside: nothing but an answer, unless it passed every guard.\<close>

lemma api_serve_cases:
  assumes "api_serve L cfg m q meth path r st = ((hs, a), st')" and "route_of meth path = (route, seg)"
  obtains (unguarded) "route_guard (cg_quotas cfg) route = None" "st' = st" "\<forall>c b. a = Reply c b \<longrightarrow> c = 200 \<and> b = Index_document"
  | (refused) scope policy where "route_guard (cg_quotas cfg) route = Some (scope, policy)"
      "ax_data st' = ax_data st" "ax_auth st' = ax_auth st" "es_slots (ax_edge st') = es_slots (ax_edge st)"
      "\<forall>c b. a \<noteq> Reply c b" "quota_only L m q policy seg r st (ax_buckets st')"
  | (admitted) scope policy rec r' bs e s where "route_guard (cg_quotas cfg) route = Some (scope, policy)"
      "presents_key (db_lookup (ax_auth st)) (m_auth_pepper m) (aq_now q) r rec" "scope \<in> set (ar_scopes rec)"
      "int (es_slots (ax_edge st)) < ec_max_in_flight (cg_edge cfg)"
      "consume (m_rate_limit_pepper m) (aq_tx q) (aq_now q) (principal_of rec) (al_uuid_value L seg) policy
         (ax_buckets st) = (Inr (), bs)"
      "request_principal r' = principal_of rec" "api_handler L cfg m q route r' (ax_data st) = (a, s)"
      "st' = st\<lparr>ax_edge := e, ax_buckets := bs, ax_data := s\<rparr>" "es_slots e = es_slots (ax_edge st)"
proof -
  let ?r = "(snd (identify_request (aq_request_id q) r))\<lparr>hx_path_value := \<lambda>k. if k = ''id'' then seg else []\<rparr>"
  show ?thesis
  proof (cases "route_guard (cg_quotas cfg) route")
    case None
    then have "route = Api_index \<or> route = Unmatched" by (cases route) (auto simp: route_guard_def)
    have h: "\<exists>b. api_handler L cfg m q route ?r (ax_data st) = (b, ax_data st) \<and> (\<forall>c d. b = Reply c d \<longrightarrow> c = 200 \<and> d = Index_document)"
      using \<open>route = Api_index \<or> route = Unmatched\<close> by (elim disjE) (simp_all add: api_handler_def)
    then obtain b where b: "api_handler L cfg m q route ?r (ax_data st) = (b, ax_data st)"
      "\<forall>c d. b = Reply c d \<longrightarrow> c = 200 \<and> d = Index_document" by (elim exE conjE)
    have "st' = st" "a = b"
      using assms None b(1) by (simp_all add: api_serve_def recover_handler_def Let_def split_beta)
    then show ?thesis using b(2) by (intro unguarded [OF None]) simp_all
  next
    case (Some g)
    obtain scope policy where g: "g = (scope, policy)" by (cases g)
    obtain ra b st1 where p: "protected L cfg m q route scope policy ?r st = ((ra, b), st1)"
      by (cases "protected L cfg m q route scope policy ?r st") (metis surj_pair)
    have out: "st' = st1" "a = the (recover_handler (\<lambda>_. b) ?r)"
      using assms Some g p by (auto simp: api_serve_def Let_def split: prod.splits)
    from p show ?thesis
    proof (cases rule: protected_cases)
      case no: refused
      have "quota_only L m q policy seg r st (ax_buckets st')"
        using no(5) out(1) quota_only_header [of ?r r] by (simp add: identify_request_def Let_def)
      then show ?thesis using out no
        by (intro refused [OF Some [unfolded g]]) (auto simp: recover_handler_def internal_error_def split: option.split)
    next
      case (admitted rec e bs b' s)
      have hd: "hx_header ?r = hx_header r" by (simp add: identify_request_def Let_def)
      from admitted(2) have "int (es_slots (ax_edge st)) < ec_max_in_flight (cg_edge cfg) \<and> es_slots e = es_slots (ax_edge st) + 1"
        by (cases rule: edge_enter_cases) (auto simp: edge_policy_of_def)
      then show ?thesis
        using Some g admitted out hd
        by (intro that(3) [where r' = "?r\<lparr>hx_principal := Some (principal_of rec)\<rparr>" and e = "edge_leave e" and s = s and bs = bs and rec = rec])
           (simp_all add: presents_key_def recover_handler_def request_principal_def edge_leave_def)
    qed
  qed
qed

text \<open>The workspace of the key a request presents, when it presents one.\<close>

definition caller_workspace :: "materials \<Rightarrow> api_draws \<Rightarrow> principal request \<Rightarrow> api_state \<Rightarrow> uuid option" where
  "caller_workspace m q r st =
     (case (authenticate_request (db_lookup (ax_auth st)) (m_auth_pepper m) (aq_now q) r :: api_body reply + principal request) of
        Inl a \<Rightarrow> None
      | Inr r' \<Rightarrow> Some (pr_workspace (request_principal r')))"

lemma presents_caller:
  assumes "presents_key (db_lookup (ax_auth st)) (m_auth_pepper m) (aq_now q) r rec"
  shows "caller_workspace m q r st = Some (ar_workspace rec)"
proof -
  from assms obtain token prefix where t: "hx_header r ''Authorization'' = ''Bearer '' @ token" "token_prefix token = Some prefix"
    "db_lookup (ax_auth st) prefix = Inr (Some rec)" "ar_verifier rec = verifier (m_auth_pepper m) token"
    "ar_status rec = ''active''" "ar_workspace_status rec = ''active''"
    "case ar_expires rec of None \<Rightarrow> True | Some e \<Rightarrow> aq_now q < e" "length (hx_header r ''Authorization'') \<le> 256"
    by (auto simp: presents_key_def verifier_def)
  have "authenticate_token (db_lookup (ax_auth st)) (m_auth_pepper m) (aq_now q) token = Inr (principal_of rec)"
    using t(2-) authenticate_db [OF t(2) _ t(4), of "ax_auth st"] by (simp add: db_lookup_def principal_of_def)
  moreover have "bearer (hx_header r ''Authorization'') = (token, prefix, True)"
    using t(1,2,8) by (simp add: bearer_def trim_prefix_def has_prefix_def)
  ultimately show ?thesis
    by (simp add: caller_workspace_def authenticate_request_def request_principal_def principal_of_def)
qed

lemma protected_data:
  assumes "\<And>rec. presents_key (db_lookup (ax_auth st)) (m_auth_pepper m) (aq_now q) r rec \<Longrightarrow>
      fst (api_handler L cfg m q route (r\<lparr>hx_principal := Some (principal_of rec)\<rparr>) d)
        = fst (api_handler L cfg m q route (r\<lparr>hx_principal := Some (principal_of rec)\<rparr>) (ax_data st))"
  shows "fst (protected L cfg m q route scope policy r (st\<lparr>ax_data := d\<rparr>)) = fst (protected L cfg m q route scope policy r st)"
proof -
  obtain en e where en: "(edge_enter (edge_policy_of (cg_edge cfg)) (m_rate_limit_pepper m)
      (request_origin (al_split_host_port L) (al_is_ip L)) header_prefix (aq_now q) r (ax_edge st)
        :: ((string \<times> api_body reply) + unit) option \<times> edge_state) = (en, e)" by fastforce
  have a: "fst (authorized L cfg m q route scope (r\<lparr>hx_principal := Some (principal_of rec)\<rparr>) (st\<lparr>ax_data := d, ax_edge := e, ax_buckets := bs\<rparr>))
      = fst (authorized L cfg m q route scope (r\<lparr>hx_principal := Some (principal_of rec)\<rparr>) (st\<lparr>ax_edge := e, ax_buckets := bs\<rparr>))"
    if "presents_key (db_lookup (ax_auth st)) (m_auth_pepper m) (aq_now q) r rec" for rec bs
    using assms [OF that] by (auto simp: authorized_def authorize_request_def split: prod.splits)
  have "fst (authenticated_quota L m q policy (authorized L cfg m q route scope) r (st\<lparr>ax_data := d, ax_edge := e\<rparr>))
      = fst (authenticated_quota L m q policy (authorized L cfg m q route scope) r (st\<lparr>ax_edge := e\<rparr>))"
  proof (cases rule: authenticate_request_cases [of "db_lookup (ax_auth st)" "m_auth_pepper m" "aq_now q" r, where 'a = api_body])
    case refused
    then show ?thesis by (simp add: authenticated_quota_def)
  next
    case (known rec)
    from a [OF known(1)] known(2) show ?thesis
      by (auto simp: authenticated_quota_def split: prod.splits option.splits)
  qed
  then show ?thesis using en
    by (auto simp: protected_def split: prod.splits option.splits sum.splits)
qed

section \<open>Properties\<close>

text \<open>C3. No request gets past the guards of its route. The routes without guards (the index and unmatched paths) change nothing
  and answer with the index document or a problem. On every other route the credentials are never changed and the slot is given
  back, and either the request gets a problem, no domain table (\<open>ax_data\<close>: endpoints, subscriptions, secrets, events, deliveries,
  attempts, commands) changes, and quota rows change only by the limiter's transaction under the route's policy for an active,
  unexpired key that was presented (the quota is counted before the scope is checked); or the process had a free slot, the
  presented key is active, unexpired and has the route's scope, the route's quota was consumed for it, and the answer and the
  domain tables are those of the route's handler run as that key.\<close>

theorem api_guarded:
  "case api_serve L cfg m q meth path r st of ((hs, a), st') \<Rightarrow>
     (case route_guard (cg_quotas cfg) (fst (route_of meth path)) of
        None \<Rightarrow> st' = st \<and> ((\<exists>d. a = Problem d) \<or> a = Reply 200 Index_document)
      | Some (scope, policy) \<Rightarrow>
          ax_auth st' = ax_auth st \<and> es_slots (ax_edge st') = es_slots (ax_edge st)
          \<and> ((\<exists>d. a = Problem d) \<and> ax_data st' = ax_data st
                \<and> quota_only L m q policy (snd (route_of meth path)) r st (ax_buckets st')
             \<or> (\<exists>rec r'. int (es_slots (ax_edge st)) < ec_max_in_flight (cg_edge cfg)
                  \<and> presents_key (db_lookup (ax_auth st)) (m_auth_pepper m) (aq_now q) r rec \<and> scope \<in> set (ar_scopes rec)
                  \<and> consume (m_rate_limit_pepper m) (aq_tx q) (aq_now q) (principal_of rec)
                      (al_uuid_value L (snd (route_of meth path))) policy (ax_buckets st) = (Inr (), ax_buckets st')
                  \<and> request_principal r' = principal_of rec
                  \<and> api_handler L cfg m q (fst (route_of meth path)) r' (ax_data st) = (a, ax_data st'))))"
proof -
  obtain hs a st' where sv: "api_serve L cfg m q meth path r st = ((hs, a), st')" by (metis surj_pair)
  obtain route seg where rt: "route_of meth path = (route, seg)" by fastforce
  from sv rt show ?thesis
  proof (cases rule: api_serve_cases)
    case unguarded
    then show ?thesis using sv rt by (cases a) auto
  next
    case (refused scope policy)
    then show ?thesis using sv rt by (cases a) auto
  next
    case (admitted scope policy rec r' bs e s)
    then show ?thesis using sv rt by auto
  qed
qed

text \<open>C4. The API keeps tenants apart in the domain tables (\<open>ax_data\<close>: endpoints, subscriptions, secrets, events, deliveries,
  attempts, commands): a request that presents a key of one workspace leaves every row of every other workspace as it is,
  and, for the same counters of the process and the same quota rows, what a reading request is answered does not depend on the
  domain rows of other workspaces. No request changes credentials, and a request without a valid key changes neither domain rows
  nor quota rows; the counters of the process limiter count it all the same.\<close>

theorem api_isolated:
  assumes "other \<noteq> ws" and "caller_workspace m q r st \<in> {None, Some ws}"
    and "workspace_rows ws d = workspace_rows ws (ax_data st)"
  shows "workspace_rows other (ax_data (snd (api_serve L cfg m q meth path r st))) = workspace_rows other (ax_data st)
    \<and> (meth = ''POST'' \<or> fst (api_serve L cfg m q meth path r (st\<lparr>ax_data := d\<rparr>)) = fst (api_serve L cfg m q meth path r st))
    \<and> ax_auth (snd (api_serve L cfg m q meth path r st)) = ax_auth st
    \<and> (if caller_workspace m q r st = None
       then ax_data (snd (api_serve L cfg m q meth path r st)) = ax_data st
          \<and> ax_buckets (snd (api_serve L cfg m q meth path r st)) = ax_buckets st
       else True)"
proof -
  obtain hs a st' where sv: "api_serve L cfg m q meth path r st = ((hs, a), st')" by (metis surj_pair)
  obtain route seg where rt: "route_of meth path = (route, seg)" by fastforce
  have ws: "ar_workspace rec = ws" if "presents_key (db_lookup (ax_auth st)) (m_auth_pepper m) (aq_now q) r rec" for rec
    using presents_caller [OF that] assms(2) by simp
  from sv rt have w: "workspace_rows other (ax_data st') = workspace_rows other (ax_data st)
    \<and> ax_auth st' = ax_auth st
    \<and> (caller_workspace m q r st = None \<longrightarrow> ax_data st' = ax_data st \<and> ax_buckets st' = ax_buckets st)"
  proof (cases rule: api_serve_cases)
    case (refused scope policy)
    have "caller_workspace m q r st = None \<Longrightarrow> ax_buckets st' = ax_buckets st"
      using refused(6) presents_caller unfolding quota_only_def by fastforce
    then show ?thesis using refused by simp
  next
    case (admitted scope policy rec r' bs e s)
    have "pr_workspace (request_principal r') = ws" using ws [OF admitted(2)] admitted(6) by (simp add: principal_of_def)
    then show ?thesis
      using api_handler_isolated [OF admitted(7), of other] assms(1) admitted(8) presents_caller [OF admitted(2)] by simp
  qed simp_all
  have "fst (api_serve L cfg m q meth path r (st\<lparr>ax_data := d\<rparr>)) = fst (api_serve L cfg m q meth path r st)"
    if "meth \<noteq> ''POST''"
  proof -
    have nw: "route \<notin> {Create_endpoint, Rotate_secret, Publish_event, Replay_delivery}" using route_methods [OF rt] that by blast
    let ?r = "(snd (identify_request (aq_request_id q) r))\<lparr>hx_path_value := \<lambda>k. if k = ''id'' then seg else []\<rparr>"
    have hd: "hx_header ?r = hx_header r" by (simp add: identify_request_def Let_def)
    have h: "fst (api_handler L cfg m q route (?r\<lparr>hx_principal := Some (principal_of rec)\<rparr>) d)
        = fst (api_handler L cfg m q route (?r\<lparr>hx_principal := Some (principal_of rec)\<rparr>) (ax_data st))"
      if "presents_key (db_lookup (ax_auth st)) (m_auth_pepper m) (aq_now q) ?r rec" for rec
    proof -
      have "ar_workspace rec = ws" using that by (intro ws) (simp add: presents_key_def hd)
      then show ?thesis using assms(3) by (intro api_handler_reads(1) [OF _ nw]) (simp add: request_principal_def principal_of_def)
    qed
    show ?thesis
    proof (cases "route_guard (cg_quotas cfg) route")
      case None
      then have "fst (api_handler L cfg m q route ?r d) = fst (api_handler L cfg m q route ?r (ax_data st))"
        by (cases route) (simp_all add: route_guard_def api_handler_def)
      then show ?thesis using None by (auto simp: api_serve_def rt Let_def split: prod.splits)
    next
      case (Some g)
      obtain scope policy where g: "g = (scope, policy)" by (cases g)
      show ?thesis using protected_data [OF h, of scope policy] Some g
        by (auto simp: api_serve_def rt Let_def split: prod.splits)
    qed
  qed
  then show ?thesis using w sv by auto
qed

text \<open>A request with the key of workspace 1.\<close>

definition demo_draws :: api_draws where
  "demo_draws = \<lparr>aq_now = 99, aq_tx = \<lparr>tx_begin = True, tx_setting = True, tx_commit = True\<rparr>, aq_request_id = None,
     aq_draws = \<lparr>dw_id = Some 40, dw_secret_id = Some 41, dw_audit = Some 42, dw_secret = None, dw_key = None, dw_nonce1 = None,
       dw_nonce2 = None\<rparr>,
     aq_id = Some 43, aq_audit = Some 44, aq_nonce = None, aq_new = \<lambda>n. Some (50 + of_nat n), aq_clock = \<lambda>n. 99\<rparr>"

definition demo_caller :: "string \<Rightarrow> principal request" where
  "demo_caller token = \<lparr>hx_header = \<lambda>k. if k = ''Authorization'' then ''Bearer '' @ token else [], hx_path_value = \<lambda>_. [],
     hx_query = [], hx_body = [], hx_remote = ''192.0.2.1'', hx_principal = None, hx_request_id = []\<rparr>"

definition demo_server :: "string \<Rightarrow> bytes \<Rightarrow> api_state" where
  "demo_server prefix ver = \<lparr>ax_edge = demo_edge_start, ax_buckets = [],
     ax_auth = bootstrap_insert 1 2 3 ''ws'' prefix ver empty_auth_db, ax_data = demo_api1\<rparr>"

lemma demo_caller_workspace:
  assumes "generate_token True (m_auth_pepper m) (Some ''01234567'') (Some (replicate 32 CHR ''s'')) = Inr (token, prefix, ver)"
  shows "caller_workspace m demo_draws (demo_caller token) (demo_server prefix ver) = Some 1"
proof -
  from token_prefix_generated [OF assms] have t: "token_prefix token = Some prefix" "length token = 69"
    "ver = verifier (m_auth_pepper m) token" "length prefix = 16" by auto
  let ?st = "demo_server prefix ver"
  have k: "authenticate_key (ax_auth ?st) prefix = Some \<lparr>ar_api_key = 2, ar_workspace = 1, ar_verifier = ver,
      ar_status = ''active'', ar_workspace_status = ''active'', ar_expires = None, ar_scopes = bootstrap_scopes\<rparr>"
    using t(4) by (simp add: demo_server_def authenticate_key_def bootstrap_insert_def empty_auth_db_def bootstrap_scopes_def)
  have "authenticate_token (db_lookup (ax_auth ?st)) (m_auth_pepper m) 99 token
      = Inr \<lparr>pr_api_key = 2, pr_workspace = 1, pr_scopes = set bootstrap_scopes\<rparr>"
    using authenticate_db [OF t(1) k, of "m_auth_pepper m" 99] t(3) by simp
  moreover have "bearer (hx_header (demo_caller token) ''Authorization'') = (token, prefix, True)"
    using bearer_generated [OF t(1)] t(2) by (simp add: demo_caller_def)
  ultimately show ?thesis
    by (simp add: caller_workspace_def authenticate_request_def request_principal_def demo_draws_def)
qed

lemma api_isolated_witness:
  "\<exists>token prefix ver. caller_workspace development_materials demo_draws (demo_caller token) (demo_server prefix ver) = Some 1
     \<and> (\<forall>L cfg meth path. workspace_rows 2 (ax_data (snd (api_serve L cfg development_materials demo_draws meth path
           (demo_caller token) (demo_server prefix ver)))) = workspace_rows 2 demo_api1)"
proof -
  obtain token prefix ver where g: "generate_token True (m_auth_pepper development_materials) (Some ''01234567'')
      (Some (replicate 32 CHR ''s'')) = Inr (token, prefix, ver)" by (simp add: generate_token_def Let_def)
  note c = demo_caller_workspace [OF g]
  have d: "ax_data (demo_server prefix ver) = demo_api1" by (simp add: demo_server_def)
  have "workspace_rows 2 (ax_data (snd (api_serve L cfg development_materials demo_draws meth path
      (demo_caller token) (demo_server prefix ver)))) = workspace_rows 2 demo_api1" for L cfg meth path
    using api_isolated [of 2 1 development_materials demo_draws "demo_caller token" "demo_server prefix ver" demo_api1 L cfg meth path] c d
    by simp
  with c show ?thesis by blast
qed
end
