(* ===== verification/Insights.thy ===== *)
theory Insights
  imports Complex_Main Queue_Db Tenant_Tx
begin

text \<open>
  \<open>internal/insights\<close>: what the dashboard shows of a workspace over the last 24 hours. \<open>st\<close> is
  \<open>statement_timestamp()\<close>; the tables of the model keep no creation time of events, which \<open>created\<close> supplies. The
  double precision results are exact rationals here, and hours are truncated in a time zone whose offset is whole hours.
\<close>

record summary =
  su_generated :: instant
  su_events :: nat
  su_deliveries :: nat
  su_pending :: nat
  su_processing :: nat
  su_retry_scheduled :: nat
  su_succeeded :: nat
  su_failed :: nat
  su_dead_letter :: nat
  su_attempts :: nat
  su_retry_attempts :: nat
  su_p95 :: rat
  su_oldest :: rat

record point =
  pn_bucket :: instant
  pn_deliveries :: nat
  pn_succeeded :: nat
  pn_failed :: nat
  pn_retry_attempts :: nat
  pn_permanent_errors :: nat

record snapshot =
  sh_window :: string
  sh_summary :: summary
  sh_series :: "point list"

definition day :: duration where "day = 24 * hour"

definition percentile_cont :: "rat \<Rightarrow> int list \<Rightarrow> rat" where
  "percentile_cont p xs =
     (let ys = sort xs; row = p * of_nat (length ys - 1); lo = nat \<lfloor>row\<rfloor>; hi = nat \<lceil>row\<rceil>
      in of_int (ys ! lo) + (row - of_nat lo) * of_int (ys ! hi - ys ! lo))"

definition date_trunc_hour :: "instant \<Rightarrow> instant" where
  "date_trunc_hour t = t div hour * hour"

definition finished_since :: "instant \<Rightarrow> attempt_row \<Rightarrow> bool" where
  "finished_since t a \<longleftrightarrow> (case at_finished a of None \<Rightarrow> False | Some f \<Rightarrow> f \<ge> t)"

definition insights_summary :: "(event_row \<Rightarrow> instant) \<Rightarrow> instant \<Rightarrow> uuid \<Rightarrow> db \<Rightarrow> summary" where
  "insights_summary created st ws s =
     (let d = filter (\<lambda>x. dr_ws x = ws \<and> dr_created x \<ge> st - day) (db_deliveries s);
          q = filter (\<lambda>x. dr_ws x = ws \<and> dr_status x \<in> {Pending, Processing, Retry_scheduled}) (db_deliveries s);
          ready = map dr_next (filter (\<lambda>x. dr_status x \<in> {Pending, Retry_scheduled} \<and> dr_next x \<le> st) q);
          a = filter (\<lambda>x. at_ws x = ws \<and> finished_since (st - day) x) (db_attempts s);
          e = filter (\<lambda>x. er_ws x = ws \<and> created x \<ge> st - day) (db_events s);
          durations = List.map_filter at_duration a
      in \<lparr>su_generated = st, su_events = length e, su_deliveries = length d,
          su_pending = count_where (\<lambda>x. dr_status x = Pending) q,
          su_processing = count_where (\<lambda>x. dr_status x = Processing) q,
          su_retry_scheduled = count_where (\<lambda>x. dr_status x = Retry_scheduled) q,
          su_succeeded = count_where (\<lambda>x. dr_status x = Succeeded) d,
          su_failed = count_where (\<lambda>x. dr_status x = Failed_permanent) d,
          su_dead_letter = count_where (\<lambda>x. dr_status x = Dead_letter) d,
          su_attempts = length a, su_retry_attempts = count_where (\<lambda>x. at_outcome x = Some ''retry'') a,
          su_p95 = (if durations = [] then 0 else percentile_cont (95 / 100) durations),
          su_oldest = (if ready = [] then 0 else max (of_int (st - Min (set ready)) / of_int second) 0)\<rparr>)"

definition insights_point :: "instant \<Rightarrow> uuid \<Rightarrow> db \<Rightarrow> instant \<Rightarrow> point" where
  "insights_point st ws s b =
     (let d = filter (\<lambda>x. dr_ws x = ws \<and> dr_created x \<ge> st - day \<and> date_trunc_hour (dr_created x) = b) (db_deliveries s);
          a = filter (\<lambda>x. at_ws x = ws \<and> finished_since (st - day) x \<and> date_trunc_hour (the (at_finished x)) = b)
                (db_attempts s)
      in \<lparr>pn_bucket = b, pn_deliveries = length d, pn_succeeded = count_where (\<lambda>x. dr_status x = Succeeded) d,
          pn_failed = count_where (\<lambda>x. dr_status x \<in> {Failed_permanent, Dead_letter}) d,
          pn_retry_attempts = count_where (\<lambda>x. at_outcome x = Some ''retry'') a,
          pn_permanent_errors = count_where (\<lambda>x. at_outcome x = Some ''permanent_failure'') a\<rparr>)"

definition insights_buckets :: "instant \<Rightarrow> instant list" where
  "insights_buckets st = map (\<lambda>n. date_trunc_hour st - 23 * hour + int n * hour) [0..<24]"

text \<open>\<open>e\<close> says whether the parts of the transaction succeed, \<open>read\<close> whether its two queries do.\<close>

definition insights_snapshot ::
    "tx_env \<Rightarrow> bool \<Rightarrow> (event_row \<Rightarrow> instant) \<Rightarrow> instant \<Rightarrow> uuid \<Rightarrow> db \<Rightarrow> snapshot option" where
  "insights_snapshot e read created st ws s =
     (case within_tx e (\<lambda>s. Some (if read
             then Inr (\<lparr>sh_window = ''24h'', sh_summary = insights_summary created st ws s,
                        sh_series = map (insights_point st ws s) (insights_buckets st)\<rparr>, s)
             else Inl ())) s of
        (Some (Inr x), s') \<Rightarrow> Some x
      | (_, s') \<Rightarrow> None)"

section \<open>What the figures are\<close>

lemma length_filter_partition:
  "distinct bs \<Longrightarrow> sum_list (map (\<lambda>b. length (filter (\<lambda>x. P x \<and> f x = b) xs)) bs) = length (filter (\<lambda>x. P x \<and> f x \<in> set bs) xs)"
proof (induction bs)
  case (Cons b bs)
  have "length (filter (\<lambda>x. P x \<and> f x \<in> set (b # bs)) xs)
      = length (filter (\<lambda>x. P x \<and> f x = b) xs) + length (filter (\<lambda>x. P x \<and> f x \<in> set bs) xs)"
    using Cons.prems by (induction xs) auto
  with Cons show ?case by simp
qed simp

lemma le_div_iff: "0 < (h::int) \<Longrightarrow> a \<le> t div h \<longleftrightarrow> a * h \<le> t"
proof
  assume h: "0 < h" and "a \<le> t div h"
  then have "a * h \<le> (t div h) * h" by (simp add: mult_right_mono)
  also have "\<dots> \<le> t" using h by (metis div_mult_mod_eq le_add_same_cancel1 pos_mod_sign)
  finally show "a * h \<le> t" .
next
  assume h: "0 < h" and "a * h \<le> t"
  then have "a * h div h \<le> t div h" by (intro zdiv_mono1)
  then show "a \<le> t div h" using h by simp
qed

lemma hour_pos [simp]: "0 < hour" "hour \<noteq> 0" by (simp_all add: duration_defs)

lemma buckets_hours: "insights_buckets st = map (\<lambda>n. (st div hour - 23 + int n) * hour) [0..<24]"
  by (simp add: insights_buckets_def date_trunc_hour_def algebra_simps)

lemma bucket_member:
  "date_trunc_hour t \<in> set (insights_buckets st) \<longleftrightarrow> date_trunc_hour st - 23 * hour \<le> t \<and> t < date_trunc_hour st + hour"
proof -
  have "date_trunc_hour t \<in> set (insights_buckets st) \<longleftrightarrow> (\<exists>n<24. t div hour = st div hour - 23 + int n)"
    unfolding buckets_hours date_trunc_hour_def by auto
  also have "\<dots> \<longleftrightarrow> st div hour - 23 \<le> t div hour \<and> \<not> st div hour + 1 \<le> t div hour"
    by (auto intro!: exI [of _ "nat (t div hour - (st div hour - 23))"])
  also have "\<dots> \<longleftrightarrow> date_trunc_hour st - 23 * hour \<le> t \<and> t < date_trunc_hour st + hour"
    unfolding le_div_iff [OF hour_pos(1)] by (simp add: date_trunc_hour_def distrib_right left_diff_distrib not_le)
  finally show ?thesis .
qed

lemma percentile_between:
  assumes "xs \<noteq> []" and "0 \<le> p" "p \<le> 1"
  shows "of_int (Min (set xs)) \<le> percentile_cont p xs \<and> percentile_cont p xs \<le> of_int (Max (set xs))"
proof -
  obtain n where n: "length xs = Suc n" using assms(1) by (cases xs) auto
  let ?ys = "sort xs" and ?row = "p * of_nat n"
  let ?lo = "nat \<lfloor>?row\<rfloor>" and ?hi = "nat \<lceil>?row\<rceil>"
  have row: "0 \<le> ?row" "?row \<le> of_nat n" using assms by (simp_all add: mult_left_le_one_le)
  then have hi: "?hi < length xs" by (simp add: n ceiling_le_iff less_Suc_eq_le nat_le_iff)
  have lohi: "?lo \<le> ?hi" using floor_le_ceiling [of ?row] by (rule nat_mono)
  have lo: "of_nat ?lo \<le> ?row" "?row - of_nat ?lo \<le> 1" using row(1) by (simp_all add: of_nat_nat) linarith
  have mem: "?ys ! i \<in> set xs" if "i < length xs" for i
    using nth_mem [of i ?ys] that by simp
  have mono: "?ys ! ?lo \<le> ?ys ! ?hi" using hi lohi by (intro sorted_nth_mono) simp_all
  let ?a = "of_int (?ys ! ?lo) :: rat" and ?b = "of_int (?ys ! ?hi) :: rat" and ?f = "?row - of_nat ?lo"
  have v: "percentile_cont p xs = ?a + ?f * (?b - ?a)" by (simp add: percentile_cont_def Let_def n)
  have "0 \<le> ?f * (?b - ?a)" "?f * (?b - ?a) \<le> ?b - ?a"
    using lo mono by (simp_all add: mult_left_le_one_le)
  moreover have "of_int (Min (set xs)) \<le> ?a" "?b \<le> of_int (Max (set xs))"
    using mem hi lohi by simp_all
  ultimately show ?thesis unfolding v by linarith
qed

text \<open>The dashboard's series is made of the 24 hours up to the current one, in order, and counts every delivery of the
  workspace created within them exactly once; together with the deliveries before the first of these hours it makes up the
  total.\<close>

theorem insights_counts:
  assumes "insights_snapshot e read created st ws s = Some x"
  shows "map pn_bucket (sh_series x) = map (\<lambda>n. date_trunc_hour st - 23 * hour + int n * hour) [0..<24]
    \<and> sum_list (map pn_deliveries (sh_series x)) = count_where (\<lambda>d. dr_ws d = ws \<and> dr_created d \<ge> st - day
        \<and> date_trunc_hour st - 23 * hour \<le> dr_created d \<and> dr_created d < date_trunc_hour st + hour) (db_deliveries s)
    \<and> sum_list (map pn_deliveries (sh_series x)) \<le> su_deliveries (sh_summary x)"
proof -
  have x: "sh_series x = map (insights_point st ws s) (insights_buckets st)" "sh_summary x = insights_summary created st ws s"
    using assms by (auto simp: insights_snapshot_def within_tx_def split: if_splits)
  have "distinct (insights_buckets st)" unfolding buckets_hours by (auto simp: distinct_map inj_on_def)
  from length_filter_partition [OF this, of "\<lambda>d. dr_ws d = ws \<and> dr_created d \<ge> st - day" "\<lambda>d. date_trunc_hour (dr_created d)"]
  have sum: "sum_list (map pn_deliveries (sh_series x)) = length (filter (\<lambda>d. (dr_ws d = ws \<and> dr_created d \<ge> st - day)
      \<and> date_trunc_hour (dr_created d) \<in> set (insights_buckets st)) (db_deliveries s))"
    by (simp add: x insights_point_def Let_def o_def)
  have "map pn_bucket (sh_series x) = insights_buckets st"
    by (simp add: x insights_point_def Let_def o_def)
  moreover have "su_deliveries (sh_summary x) = length (filter (\<lambda>d. dr_ws d = ws \<and> dr_created d \<ge> st - day) (db_deliveries s))"
    by (simp add: x insights_summary_def Let_def)
  then have "sum_list (map pn_deliveries (sh_series x)) \<le> su_deliveries (sh_summary x)"
    unfolding sum
    using length_filter_le [of "\<lambda>d. date_trunc_hour (dr_created d) \<in> set (insights_buckets st)"
        "filter (\<lambda>d. dr_ws d = ws \<and> dr_created d \<ge> st - day) (db_deliveries s)"] by (simp add: conj_ac)
  moreover have "sum_list (map pn_deliveries (sh_series x)) = count_where (\<lambda>d. dr_ws d = ws \<and> dr_created d \<ge> st - day
      \<and> date_trunc_hour st - 23 * hour \<le> dr_created d \<and> dr_created d < date_trunc_hour st + hour) (db_deliveries s)"
    unfolding sum count_where_def bucket_member by (simp add: conj_assoc)
  ultimately show ?thesis by (simp add: insights_buckets_def)
qed

end
