(* ===== verification/Console.thy ===== *)
theory Console
  imports Api_Server Console_Session Endpoint_List Insights
begin

text \<open>
  \<open>internal/console\<close> and the policies of \<open>cmd/console/server.go\<close>: the browser console. A response is its status, the page,
  redirect or error it carries, and the cookies and headers it sets; the texts of errors are named, the templates are not
  modelled. \<open>Cookie\<close>, form parsing (with the limit on the body), the embedded
  files and the functions of \<open>api_lib\<close> are parameters; the limiter, which the tests leave out, is always there.
\<close>

record console_lib =
  cb_api :: api_lib
  cb_cookie :: "unit request \<Rightarrow> string \<Rightarrow> string option"
  cb_form :: "nat \<Rightarrow> unit request \<Rightarrow> string \<Rightarrow> string"
  cb_api_key :: "bytes \<Rightarrow> string option"
  cb_static :: "string list \<Rightarrow> int"

record console_draws =
  cw_api :: api_draws
  cw_login_csrf :: "bytes option"
  cw_prefix :: "bytes option"
  cw_secret :: "bytes option"
  cw_session :: "uuid option"
  cw_audit :: "uuid option"
  cw_request :: string
  cw_read :: bool

record console_server =
  co_config :: config
  co_materials :: materials
  co_created :: "event_row \<Rightarrow> instant"

record console_state =
  cn_public :: edge_state
  cn_login :: edge_state
  cn_buckets :: "bucket_row list"
  cn_sessions :: session_db
  cn_data :: api_db

definition console_session_service :: "materials \<Rightarrow> session_service" where
  "console_session_service m =
     \<lparr>sc_pepper = m_session_pepper m, sc_csrf_pepper = m_csrf_pepper m, sc_auth_pepper = m_auth_pepper m\<rparr>"

definition console_origin :: "console_server \<Rightarrow> string" where
  "console_origin W = cc_origin (cg_console (co_config W))"

definition secure_cookies :: "console_server \<Rightarrow> bool" where
  "secure_cookies W \<longleftrightarrow> cg_profile (co_config W) = Production"

definition public_edge :: edge_policy where
  "public_edge = \<lparr>ed_max_in_flight = 64, ed_global = 3000, ed_origin = 3000, ed_prefix = 300, ed_max_buckets = 1024,
     ed_window = minute\<rparr>"

definition login_edge :: edge_policy where
  "login_edge = \<lparr>ed_max_in_flight = 32, ed_global = 120, ed_origin = 120, ed_prefix = 10, ed_max_buckets = 1024,
     ed_window = minute\<rparr>"

section \<open>Responses\<close>

datatype console_text = Text_unavailable | Text_invalid_request | Text_logout_failed | Text_metrics | Text_replay_refused
  | Text_scope | Text_too_many | Text_quota_unavailable | Text_not_found | Text_bad_credential | Text_no_metrics
  | Text_no_endpoints | Text_endpoint_refused | Text_invalid_event | Text_no_deliveries

record page_data =
  pg_view :: string
  pg_error :: "console_text option"
  pg_csrf :: string
  pg_next :: string
  pg_endpoint :: "endpoint_view option"
  pg_created :: "created option"
  pg_published :: "publish_result option"
  pg_items :: "endpoint_item list"
  pg_deliveries :: "delivery_summary list"
  pg_delivery :: "delivery_details option"
  pg_metrics :: "snapshot option"

datatype console_body = Redirect string | Page string page_data | Failed console_text | Metrics snapshot | Static_file
  | Limited problem_details

record cookie =
  ck_name :: string
  ck_value :: string
  ck_path :: string
  ck_secure :: bool
  ck_http_only :: bool
  ck_strict :: bool
  ck_max_age :: int

record console_response =
  wb_status :: int
  wb_body :: console_body
  wb_cookies :: "cookie list"
  wb_headers :: "(string \<times> string) list"

definition respond :: "int \<Rightarrow> console_body \<Rightarrow> console_response" where
  "respond status body = \<lparr>wb_status = status, wb_body = body, wb_cookies = [], wb_headers = []\<rparr>"

definition see_other :: "string \<Rightarrow> console_response" where "see_other loc = respond 303 (Redirect loc)"
definition http_error :: "int \<Rightarrow> console_text \<Rightarrow> console_response" where "http_error status text = respond status (Failed text)"
definition not_found_page :: console_response where "not_found_page = http_error 404 Text_not_found"
definition render :: "string \<Rightarrow> page_data \<Rightarrow> console_response" where "render name d = respond 200 (Page name d)"

definition new_page :: "string \<Rightarrow> string \<Rightarrow> page_data" where
  "new_page view token = \<lparr>pg_view = view, pg_error = None, pg_csrf = token, pg_next = [], pg_endpoint = None, pg_created = None,
     pg_published = None, pg_items = [], pg_deliveries = [], pg_delivery = None, pg_metrics = None\<rparr>"

section \<open>Cookies and tokens against forged requests\<close>

definition cookie_name :: "console_server \<Rightarrow> string" where
  "cookie_name W = (if secure_cookies W then ''__Host-wde_session'' else ''wde_session'')"

definition login_csrf_name :: "console_server \<Rightarrow> string" where
  "login_csrf_name W = (if secure_cookies W then ''__Host-wde_login_csrf'' else ''wde_login_csrf'')"

definition strict_cookie :: "console_server \<Rightarrow> string \<Rightarrow> string \<Rightarrow> int \<Rightarrow> cookie" where
  "strict_cookie W name v age = \<lparr>ck_name = name, ck_value = v, ck_path = ''/'', ck_secure = secure_cookies W,
     ck_http_only = True, ck_strict = True, ck_max_age = age\<rparr>"

definition set_session_cookie :: "console_server \<Rightarrow> string \<Rightarrow> cookie" where
  "set_session_cookie W token = strict_cookie W (cookie_name W) token 3600"

definition clear_session_cookie :: "console_server \<Rightarrow> cookie" where
  "clear_session_cookie W = strict_cookie W (cookie_name W) [] (- 1)"

definition new_login_csrf :: "bytes option \<Rightarrow> string option" where
  "new_login_csrf raw = map_option b64_encode raw"

definition same_origin_form :: "console_server \<Rightarrow> unit request \<Rightarrow> bool" where
  "same_origin_form W r \<longleftrightarrow> hx_header r ''Origin'' = console_origin W
     \<and> has_prefix ''application/x-www-form-urlencoded'' (hx_header r ''Content-Type'')"

definition valid_mutation :: "console_server \<Rightarrow> unit request \<Rightarrow> session \<Rightarrow> (string \<Rightarrow> string) \<Rightarrow> bool" where
  "valid_mutation W r x form \<longleftrightarrow> same_origin_form W r
     \<and> (let site = hx_header r ''Sec-Fetch-Site'' in site = [] \<or> site = ''same-origin'' \<or> site = ''none'')
     \<and> valid_csrf (console_session_service (co_materials W)) (sn_token x) (form ''csrf_token'')"

definition valid_login_csrf :: "console_lib \<Rightarrow> console_server \<Rightarrow> unit request \<Rightarrow> (string \<Rightarrow> string) \<Rightarrow> bool" where
  "valid_login_csrf L W r form \<longleftrightarrow> same_origin_form W r
     \<and> (case cb_cookie L r (login_csrf_name W) of None \<Rightarrow> False | Some v \<Rightarrow> v = form ''csrf_token'')"

section \<open>The session and its quota\<close>

definition console_quota ::
    "console_server \<Rightarrow> console_draws \<Rightarrow> session \<Rightarrow> uuid \<Rightarrow> quota_policy \<Rightarrow> console_state
      \<Rightarrow> console_response option \<times> console_state" where
  "console_quota W d x resourceID policy st =
     (case consume (m_rate_limit_pepper (co_materials W)) (aq_tx (cw_api d)) (aq_now (cw_api d)) (sn_principal x)
                  resourceID policy (cn_buckets st) of
        (Inr u, bs) \<Rightarrow> (None, st\<lparr>cn_buckets := bs\<rparr>)
      | (Inl err, bs) \<Rightarrow>
          (case quota_retry_after err of
             Some n \<Rightarrow> (Some ((http_error 429 Text_too_many)\<lparr>wb_headers := [(''Retry-After'', format_int n)]\<rparr>),
                        st\<lparr>cn_buckets := bs\<rparr>)
           | None \<Rightarrow> (Some (http_error 503 Text_quota_unavailable), st\<lparr>cn_buckets := bs\<rparr>)))"

definition require_session ::
    "console_lib \<Rightarrow> console_server \<Rightarrow> console_draws \<Rightarrow> string \<Rightarrow> string \<Rightarrow> string
      \<Rightarrow> (session \<Rightarrow> console_state \<Rightarrow> console_response \<times> console_state) \<Rightarrow> unit request \<Rightarrow> console_state
      \<Rightarrow> console_response \<times> console_state" where
  "require_session L W d scope meth path next r st =
     (case cb_cookie L r (cookie_name W) of
        None \<Rightarrow> (see_other ''/login'', st)
      | Some token \<Rightarrow>
     (case authenticate_session (console_session_service (co_materials W)) (aq_now (cw_api d)) (aq_clock (cw_api d)) token
             (cn_sessions st) of
        Inl e \<Rightarrow> ((see_other ''/login'')\<lparr>wb_cookies := [clear_session_cookie W]\<rparr>, st)
      | Inr (x, db) \<Rightarrow>
     (case (if meth = ''GET'' \<and> has_prefix ''/app'' path
            then console_quota W d x 0 (policy_of ''query'' (qc_query (cg_quotas (co_config W)))) (st\<lparr>cn_sessions := db\<rparr>)
            else (None, st\<lparr>cn_sessions := db\<rparr>)) of
        (Some a, st1) \<Rightarrow> (a, st1)
      | (None, st1) \<Rightarrow>
          if scope \<noteq> [] \<and> scope \<notin> pr_scopes (sn_principal x) then (http_error 403 Text_scope, st1)
          else next x st1)))"

section \<open>Handlers\<close>

text \<open>\<open>FieldsFunc\<close>: the maximal runs without a separator.\<close>

function fields_func :: "(char \<Rightarrow> bool) \<Rightarrow> string \<Rightarrow> string list" where
  "fields_func sep [] = []"
| "fields_func sep (c # cs) =
     (if sep c then fields_func sep cs
      else (c # takeWhile (\<lambda>x. \<not> sep x) cs) # fields_func sep (dropWhile (\<lambda>x. \<not> sep x) cs))"
  by pat_completeness auto
termination
  by (relation "measure (\<lambda>(sep, cs). length cs)") (auto simp: length_dropWhile_le le_imp_less_Suc)

definition split_values :: "string \<Rightarrow> string list" where
  "split_values raw = filter (\<lambda>v. v \<noteq> []) (map trim_space (fields_func (\<lambda>c. c = CHR '','' \<or> c = byte_of 10) raw))"

definition home :: "console_lib \<Rightarrow> console_server \<Rightarrow> unit request \<Rightarrow> console_response" where
  "home L W r = see_other (if cb_cookie L r (cookie_name W) \<noteq> None then ''/app'' else ''/login'')"

definition login_page :: "console_server \<Rightarrow> console_draws \<Rightarrow> console_response" where
  "login_page W d =
     (case new_login_csrf (cw_login_csrf d) of
        None \<Rightarrow> http_error 503 Text_unavailable
      | Some token \<Rightarrow> (render ''login'' (new_page ''login'' token))\<lparr>wb_cookies := [strict_cookie W (login_csrf_name W) token 300]\<rparr>)"

text \<open>The guard in front of \<open>login\<close> has parsed the form, so that its own \<open>ParseForm\<close> does not fail.\<close>

definition login_handler ::
    "console_lib \<Rightarrow> console_server \<Rightarrow> console_draws \<Rightarrow> unit request \<Rightarrow> console_state \<Rightarrow> console_response \<times> console_state" where
  "login_handler L W d r st =
     (let form = cb_form L 8192 r
      in if \<not> valid_login_csrf L W r form then (http_error 400 Text_invalid_request, st)
         else case login (console_session_service (co_materials W)) (cw_prefix d) (cw_secret d) (cw_session d) (cw_audit d)
                     (aq_now (cw_api d)) (aq_now (cw_api d)) (aq_clock (cw_api d)) (form ''api_key'') (cn_sessions st) of
           Inl e \<Rightarrow> (render ''login'' ((new_page ''login'' (form ''csrf_token''))\<lparr>pg_error := Some Text_bad_credential\<rparr>), st)
         | Inr (x, db) \<Rightarrow> ((see_other ''/app'')\<lparr>wb_cookies := [set_session_cookie W (sn_token x)]\<rparr>, st\<lparr>cn_sessions := db\<rparr>))"

definition logout_handler ::
    "console_lib \<Rightarrow> console_server \<Rightarrow> console_draws \<Rightarrow> unit request \<Rightarrow> session \<Rightarrow> console_state
      \<Rightarrow> console_response \<times> console_state" where
  "logout_handler L W d r x st =
     (if \<not> valid_mutation W r x (cb_form L 4096 r) then (http_error 400 Text_invalid_request, st)
      else case logout (cw_audit d) (aq_now (cw_api d)) x (cn_sessions st) of
        Inl e \<Rightarrow> (http_error 503 Text_logout_failed, st)
      | Inr db \<Rightarrow> ((see_other ''/login'')\<lparr>wb_cookies := [clear_session_cookie W],
            wb_headers := [(''Clear-Site-Data'', ''\"cache\", \"cookies\", \"storage\"'')]\<rparr>, st\<lparr>cn_sessions := db\<rparr>))"

definition session_page :: "console_server \<Rightarrow> string \<Rightarrow> session \<Rightarrow> page_data" where
  "session_page W view x = new_page view (csrf (console_session_service (co_materials W)) (sn_token x))"

abbreviation workspace_of :: "session \<Rightarrow> uuid" where
  "workspace_of x \<equiv> pr_workspace (sn_principal x)"

definition console_snapshot :: "console_server \<Rightarrow> console_draws \<Rightarrow> session \<Rightarrow> console_state \<Rightarrow> snapshot option" where
  "console_snapshot W d x st = insights_snapshot (aq_tx (cw_api d)) (cw_read d) (co_created W) (aq_now (cw_api d))
     (workspace_of x) (ap_queue (cn_data st))"

definition dashboard :: "console_server \<Rightarrow> console_draws \<Rightarrow> session \<Rightarrow> console_state \<Rightarrow> console_response" where
  "dashboard W d x st =
     (case console_snapshot W d x st of
        None \<Rightarrow> render ''app'' ((session_page W ''dashboard'' x)\<lparr>pg_error := Some Text_no_metrics\<rparr>)
      | Some v \<Rightarrow> render ''app'' ((session_page W ''dashboard'' x)\<lparr>pg_metrics := Some v\<rparr>))"

definition metrics_json :: "console_server \<Rightarrow> console_draws \<Rightarrow> session \<Rightarrow> console_state \<Rightarrow> console_response" where
  "metrics_json W d x st =
     (case console_snapshot W d x st of
        None \<Rightarrow> http_error 503 Text_metrics
      | Some v \<Rightarrow> respond 200 (Metrics v))"

definition console_endpoint_service :: "console_server \<Rightarrow> endpoint_service" where
  "console_endpoint_service W = endpoint_service_of (co_config W) (co_materials W)"

definition endpoint_list :: "console_lib \<Rightarrow> console_server \<Rightarrow> unit request \<Rightarrow> session \<Rightarrow> console_state \<Rightarrow> console_response" where
  "endpoint_list L W r x st =
     (case list_endpoints (ue_parse_addr (al_url (cb_api L))) (al_collate (cb_api L)) (al_uuid_text (cb_api L)) (co_materials W)
             (workspace_of x) 25 (query_get (hx_query r) ''cursor'') (cn_data st) of
        Inl e \<Rightarrow> render ''app'' ((session_page W ''endpoints'' x)\<lparr>pg_error := Some Text_no_endpoints\<rparr>)
      | Inr page \<Rightarrow> render ''app'' ((session_page W ''endpoints'' x)\<lparr>pg_next := en_next page, pg_items := en_items page\<rparr>))"

definition endpoint_create ::
    "console_lib \<Rightarrow> console_server \<Rightarrow> console_draws \<Rightarrow> unit request \<Rightarrow> session \<Rightarrow> console_state
      \<Rightarrow> console_response \<times> console_state" where
  "endpoint_create L W d r x st =
     (let form = cb_form L 16384 r; A = cb_api L; q = cw_api d; p = sn_principal x
      in if \<not> valid_mutation W r x form then (http_error 400 Text_invalid_request, st)
         else case console_quota W d x 0 (policy_of ''endpoint_write'' (qc_endpoint_write (cg_quotas (co_config W)))) st of
           (Some a, st1) \<Rightarrow> (a, st1)
         | (None, st1) \<Rightarrow>
             (case create_as (al_url A) (al_resolve A) (al_uuid_text A) (console_endpoint_service W) (aq_draws q) (aq_now q)
                     (pr_workspace p) ''api_key'' (al_uuid_text A (pr_api_key p)) (cw_request d)
                     \<lparr>ci_url = form ''url'', ci_types = split_values (form ''event_types'')\<rparr> (cn_data st1) of
                Inl e \<Rightarrow> (render ''app'' ((session_page W ''endpoint-new'' x)\<lparr>pg_error := Some Text_endpoint_refused\<rparr>), st1)
              | Inr (c, s) \<Rightarrow>
                  (render ''app'' ((session_page W ''endpoint-created'' x)\<lparr>pg_created := Some c\<rparr>), st1\<lparr>cn_data := s\<rparr>)))"

definition endpoint_detail :: "console_lib \<Rightarrow> console_server \<Rightarrow> unit request \<Rightarrow> session \<Rightarrow> console_state \<Rightarrow> console_response" where
  "endpoint_detail L W r x st =
     (case al_parse_uuid (cb_api L) (hx_path_value r ''id'') of
        None \<Rightarrow> not_found_page
      | Some i \<Rightarrow>
     (case get_endpoint (ue_parse_addr (al_url (cb_api L))) (al_collate (cb_api L)) (al_uuid_text (cb_api L))
             (console_endpoint_service W) (workspace_of x) i (cn_data st) of
        Inl e \<Rightarrow> not_found_page
      | Inr v \<Rightarrow> render ''app'' ((session_page W ''endpoint-detail'' x)\<lparr>pg_endpoint := Some v\<rparr>)))"

definition event_publish ::
    "console_lib \<Rightarrow> console_server \<Rightarrow> console_draws \<Rightarrow> unit request \<Rightarrow> session \<Rightarrow> console_state
      \<Rightarrow> console_response \<times> console_state" where
  "event_publish L W d r x st =
     (let form = cb_form L (1048576 + 16384) r; A = cb_api L; q = cw_api d
      in if \<not> valid_mutation W r x form then (http_error 400 Text_invalid_request, st)
         else case console_quota W d x 0 (policy_of ''ingest'' (qc_ingest (cg_quotas (co_config W)))) st of
           (Some a, st1) \<Rightarrow> (a, st1)
         | (None, st1) \<Rightarrow>
             (case publish (al_json A) (al_uuid_text A) (co_materials W) (aq_now q) (aq_id q) (aq_nonce q) (aq_new q)
                     (aq_clock q) (workspace_of x) (form ''idempotency_key'') (form ''payload'') (cn_data st1) of
                Inl e \<Rightarrow> (render ''app'' ((session_page W ''event-new'' x)\<lparr>pg_error := Some Text_invalid_event\<rparr>), st1)
              | Inr (v, s) \<Rightarrow>
                  (render ''app'' ((session_page W ''event-published'' x)\<lparr>pg_published := Some v\<rparr>), st1\<lparr>cn_data := s\<rparr>)))"

definition delivery_list :: "console_server \<Rightarrow> unit request \<Rightarrow> session \<Rightarrow> console_state \<Rightarrow> console_response" where
  "delivery_list W r x st =
     (case list_deliveries (m_cursor_pepper (co_materials W)) (workspace_of x) 25 (query_get (hx_query r) ''cursor'')
             (ap_queue (cn_data st)) of
        Inl e \<Rightarrow> render ''app'' ((session_page W ''deliveries'' x)\<lparr>pg_error := Some Text_no_deliveries\<rparr>)
      | Inr page \<Rightarrow> render ''app'' ((session_page W ''deliveries'' x)\<lparr>pg_next := lr_next page, pg_deliveries := lr_items page\<rparr>))"

definition delivery_detail :: "console_lib \<Rightarrow> console_server \<Rightarrow> unit request \<Rightarrow> session \<Rightarrow> console_state \<Rightarrow> console_response" where
  "delivery_detail L W r x st =
     (case al_parse_uuid (cb_api L) (hx_path_value r ''id'') of
        None \<Rightarrow> not_found_page
      | Some i \<Rightarrow>
     (case get_delivery (workspace_of x) i (ap_queue (cn_data st)) of
        Inl e \<Rightarrow> not_found_page
      | Inr v \<Rightarrow> render ''app'' ((session_page W ''delivery-detail'' x)\<lparr>pg_delivery := Some v\<rparr>)))"

definition delivery_replay ::
    "console_lib \<Rightarrow> console_server \<Rightarrow> console_draws \<Rightarrow> unit request \<Rightarrow> session \<Rightarrow> console_state
      \<Rightarrow> console_response \<times> console_state" where
  "delivery_replay L W d r x st =
     (let form = cb_form L 8192 r; A = cb_api L; q = cw_api d; p = sn_principal x
      in if \<not> valid_mutation W r x form then (http_error 400 Text_invalid_request, st)
         else case al_parse_uuid A (hx_path_value r ''id'') of
           None \<Rightarrow> (http_error 409 Text_replay_refused, st)
         | Some i \<Rightarrow>
        (case console_quota W d x i (policy_of ''replay'' (qc_replay (cg_quotas (co_config W)))) st of
           (Some a, st1) \<Rightarrow> (a, st1)
         | (None, st1) \<Rightarrow>
             (case request_replay_as (al_uuid_text A) (co_materials W) (aq_id q) (aq_audit q) (aq_clock q) (pr_workspace p) i
                     (pr_api_key p) (form ''idempotency_key'') (form ''reason'') (cw_request d) (ap_queue (cn_data st1)) of
                Inl e \<Rightarrow> (http_error 409 Text_replay_refused, st1)
              | Inr (v, s) \<Rightarrow> (see_other (''/app/deliveries/'' @ al_uuid_text A i),
                              st1\<lparr>cn_data := (cn_data st1)\<lparr>ap_queue := s\<rparr>\<rparr>))))"

section \<open>Routes\<close>

datatype console_route = Home | Login_page | Login | Logout | Dashboard | Metrics_json | Endpoint_list | Endpoint_new
  | Endpoint_create | Endpoint_detail | Event_new | Event_publish | Delivery_list | Delivery_detail | Delivery_replay
  | Static | No_route

text \<open>
  The patterns of \<open>Handler\<close>. A literal segment takes precedence over a wildcard, so that \<open>/app/endpoints/new\<close> stands before
  \<open>/app/endpoints/{id}\<close>; \<open>GET /static/\<close> matches every path below it.
\<close>

definition console_patterns :: "(string \<times> string list \<times> console_route) list" where
  "console_patterns =
     [(''GET'', [''''], Home), (''GET'', [''login''], Login_page), (''POST'', [''session''], Login),
      (''POST'', [''session'', ''logout''], Logout), (''GET'', [''app''], Dashboard), (''GET'', [''app'', ''metrics''], Metrics_json),
      (''GET'', [''app'', ''endpoints''], Endpoint_list), (''GET'', [''app'', ''endpoints'', ''new''], Endpoint_new),
      (''POST'', [''app'', ''endpoints''], Endpoint_create), (''GET'', [''app'', ''endpoints'', ''{id}''], Endpoint_detail),
      (''GET'', [''app'', ''events'', ''new''], Event_new), (''POST'', [''app'', ''events''], Event_publish),
      (''GET'', [''app'', ''deliveries''], Delivery_list), (''GET'', [''app'', ''deliveries'', ''{id}''], Delivery_detail),
      (''POST'', [''app'', ''deliveries'', ''{id}'', ''replays''], Delivery_replay)]"

definition console_route_of :: "string \<Rightarrow> string list \<Rightarrow> console_route \<times> string" where
  "console_route_of m path =
     (case find (\<lambda>(pm, ps, rt). method_matches pm m \<and> match_segments ps path \<noteq> None) console_patterns of
        Some (pm, ps, rt) \<Rightarrow> (rt, (case match_segments ps path of Some (i # _) \<Rightarrow> i | _ \<Rightarrow> []))
      | None \<Rightarrow> (if method_matches ''GET'' m \<and> 2 \<le> length path \<and> hd path = ''static'' then Static else No_route, []))"

text \<open>The scope \<open>require\<close> asks for; routes without a session have none.\<close>

definition console_scope :: "console_route \<Rightarrow> string option" where
  "console_scope route = (case route of
     Logout \<Rightarrow> Some []
   | Dashboard \<Rightarrow> Some ''deliveries:read''
   | Metrics_json \<Rightarrow> Some ''deliveries:read''
   | Endpoint_list \<Rightarrow> Some ''deliveries:read''
   | Endpoint_new \<Rightarrow> Some ''endpoints:write''
   | Endpoint_create \<Rightarrow> Some ''endpoints:write''
   | Endpoint_detail \<Rightarrow> Some ''deliveries:read''
   | Event_new \<Rightarrow> Some ''events:write''
   | Event_publish \<Rightarrow> Some ''events:write''
   | Delivery_list \<Rightarrow> Some ''deliveries:read''
   | Delivery_detail \<Rightarrow> Some ''deliveries:read''
   | Delivery_replay \<Rightarrow> Some ''deliveries:retry''
   | _ \<Rightarrow> None)"

definition session_handler ::
    "console_lib \<Rightarrow> console_server \<Rightarrow> console_draws \<Rightarrow> console_route \<Rightarrow> unit request \<Rightarrow> session \<Rightarrow> console_state
      \<Rightarrow> console_response \<times> console_state" where
  "session_handler L W d route r x st = (case route of
     Logout \<Rightarrow> logout_handler L W d r x st
   | Dashboard \<Rightarrow> (dashboard W d x st, st)
   | Metrics_json \<Rightarrow> (metrics_json W d x st, st)
   | Endpoint_list \<Rightarrow> (endpoint_list L W r x st, st)
   | Endpoint_new \<Rightarrow> (render ''app'' (session_page W ''endpoint-new'' x), st)
   | Endpoint_create \<Rightarrow> endpoint_create L W d r x st
   | Endpoint_detail \<Rightarrow> (endpoint_detail L W r x st, st)
   | Event_new \<Rightarrow> (render ''app'' (session_page W ''event-new'' x), st)
   | Event_publish \<Rightarrow> event_publish L W d r x st
   | Delivery_list \<Rightarrow> (delivery_list W r x st, st)
   | Delivery_detail \<Rightarrow> (delivery_detail L W r x st, st)
   | Delivery_replay \<Rightarrow> delivery_replay L W d r x st
   | _ \<Rightarrow> (not_found_page, st))"

text \<open>The login behind its guard; the guard's slot is given back when the handler returns.\<close>

definition limited :: "string \<times> unit reply \<Rightarrow> console_response" where
  "limited x = (case x of (retryAfter, a) \<Rightarrow>
     (respond (status_of a) (case a of Problem p \<Rightarrow> Limited p | Reply n u \<Rightarrow> Static_file))\<lparr>wb_headers := [(''Retry-After'', retryAfter)]\<rparr>)"

definition guarded_login ::
    "console_lib \<Rightarrow> console_server \<Rightarrow> console_draws \<Rightarrow> unit request \<Rightarrow> console_state
      \<Rightarrow> console_response option \<times> console_state" where
  "guarded_login L W d r st =
     (case edge_enter login_edge (m_rate_limit_pepper (co_materials W))
             (request_origin (al_split_host_port (cb_api L)) (al_is_ip (cb_api L))) (form_prefix (cb_api_key L))
             (aq_now (cw_api d)) r (cn_login st) of
        (None, e) \<Rightarrow> (None, st\<lparr>cn_login := e\<rparr>)
      | (Some (Inl x), e) \<Rightarrow> (Some (limited x), st\<lparr>cn_login := e\<rparr>)
      | (Some (Inr u), e) \<Rightarrow>
          (case login_handler L W d r (st\<lparr>cn_login := e\<rparr>) of
             (a, st1) \<Rightarrow> (Some a, st1\<lparr>cn_login := edge_leave (cn_login st1)\<rparr>)))"

definition path_of :: "string list \<Rightarrow> string" where
  "path_of segs = concat (map (Cons (CHR ''/'')) segs)"

definition with_id :: "string \<Rightarrow> 'p request \<Rightarrow> 'p request" where
  "with_id i r = r\<lparr>hx_path_value := \<lambda>k. if k = ''id'' then i else []\<rparr>"

definition console_mux ::
    "console_lib \<Rightarrow> console_server \<Rightarrow> console_draws \<Rightarrow> string \<Rightarrow> string list \<Rightarrow> unit request \<Rightarrow> console_state
      \<Rightarrow> console_response option \<times> console_state" where
  "console_mux L W d meth segs r0 st =
     (case console_route_of meth segs of (route, seg) \<Rightarrow>
        let r = with_id seg r0
        in case console_scope route of
             Some scope \<Rightarrow>
               (case require_session L W d scope meth (path_of segs) (session_handler L W d route r) r st of (a, st1) \<Rightarrow> (Some a, st1))
           | None \<Rightarrow>
               (case route of
                  Home \<Rightarrow> (Some (home L W r), st)
                | Login_page \<Rightarrow> (Some (login_page W d), st)
                | Login \<Rightarrow> guarded_login L W d r st
                | Static \<Rightarrow> (Some (respond (cb_static L segs) Static_file), st)
                | _ \<Rightarrow> (Some not_found_page, st)))"

definition console_security_headers :: "console_server \<Rightarrow> string \<Rightarrow> (string \<times> string) list" where
  "console_security_headers W path =
     [(''Content-Security-Policy'', ''default-src 'none'; script-src 'self'; style-src 'self'; img-src 'self'; connect-src 'self'; object-src 'none'; base-uri 'none'; frame-ancestors 'none'; form-action 'self'' @ [CHR 0x27]),
      (''Permissions-Policy'', ''camera=(), microphone=(), geolocation=(), payment=()''),
      (''Referrer-Policy'', ''same-origin''), (''X-Content-Type-Options'', ''nosniff''), (''X-Frame-Options'', ''DENY'')]
     @ (if secure_cookies W then [(''Strict-Transport-Security'', ''max-age=31536000; includeSubDomains'')] else [])
     @ (if has_prefix ''/static/'' path then [] else [(''Cache-Control'', ''no-store, private'')])"

text \<open>The whole handler; no answer is a panic, which the server turns into a closed connection.\<close>

definition console_serve ::
    "console_lib \<Rightarrow> console_server \<Rightarrow> console_draws \<Rightarrow> string \<Rightarrow> string list \<Rightarrow> unit request \<Rightarrow> console_state
      \<Rightarrow> console_response option \<times> console_state" where
  "console_serve L W d meth segs r st =
     (case (case edge_enter public_edge (m_rate_limit_pepper (co_materials W))
               (request_origin (al_split_host_port (cb_api L)) (al_is_ip (cb_api L))) header_prefix
               (aq_now (cw_api d)) r (cn_public st) of
          (None, e) \<Rightarrow> (None, st\<lparr>cn_public := e\<rparr>)
        | (Some (Inl x), e) \<Rightarrow> (Some (limited x), st\<lparr>cn_public := e\<rparr>)
        | (Some (Inr u), e) \<Rightarrow>
            (case console_mux L W d meth segs r (st\<lparr>cn_public := e\<rparr>) of
               (a, st1) \<Rightarrow> (a, st1\<lparr>cn_public := edge_leave (cn_public st1)\<rparr>))) of
        (a, st1) \<Rightarrow> (map_option (\<lambda>x. x\<lparr>wb_headers := console_security_headers W (path_of segs) @ wb_headers x\<rparr>) a, st1))"

section \<open>The ways through the console\<close>

lemma console_quota_cases:
  assumes "console_quota W d x res policy st = (a, st1)"
  obtains (refused) b bs where "a = Some b" "st1 = st\<lparr>cn_buckets := bs\<rparr>"
  | (consumed) bs where "a = None" "st1 = st\<lparr>cn_buckets := bs\<rparr>"
      "consume (m_rate_limit_pepper (co_materials W)) (aq_tx (cw_api d)) (aq_now (cw_api d)) (sn_principal x) res policy
         (cn_buckets st) = (Inr (), bs)"
  using assms by (auto simp: console_quota_def split: prod.splits sum.splits option.splits)

lemma require_session_cases:
  assumes "require_session L W d scope meth path next r st = (a, st1)"
  obtains (refused) bs db where "st1 = st\<lparr>cn_sessions := db, cn_buckets := bs\<rparr>" "map se_id (sb_sessions db) = map se_id (sb_sessions (cn_sessions st))"
      "bs = cn_buckets st \<or> meth = ''GET''"
  | (passed) token x db bs where "cb_cookie L r (cookie_name W) = Some token"
      "authenticate_session (console_session_service (co_materials W)) (aq_now (cw_api d)) (aq_clock (cw_api d)) token
         (cn_sessions st) = Inr (x, db)"
      "scope = [] \<or> scope \<in> pr_scopes (sn_principal x)" "bs = cn_buckets st \<or> meth = ''GET''"
      "next x (st\<lparr>cn_sessions := db, cn_buckets := bs\<rparr>) = (a, st1)"
proof (cases "cb_cookie L r (cookie_name W)")
  case None
  then have "st1 = st\<lparr>cn_sessions := cn_sessions st, cn_buckets := cn_buckets st\<rparr>"
    using assms by (auto simp: require_session_def)
  then show ?thesis by (rule refused) simp_all
next
  case (Some token)
  show ?thesis
  proof (cases "authenticate_session (console_session_service (co_materials W)) (aq_now (cw_api d)) (aq_clock (cw_api d)) token
      (cn_sessions st)")
    case (Inl e)
    then have "st1 = st\<lparr>cn_sessions := cn_sessions st, cn_buckets := cn_buckets st\<rparr>"
      using assms Some by (auto simp: require_session_def)
    then show ?thesis by (rule refused) simp_all
  next
    case (Inr y)
    obtain x db where y: "y = (x, db)" by (cases y)
    note au = Inr [unfolded y]
    then obtain p where "parse_session_token token = Some p" by (auto simp: authenticate_session_def split: option.splits)
    from authenticated_row(2) [OF au this] obtain P
      where "sb_sessions db = update_where P (touch_row (aq_now (cw_api d)) (aq_clock (cw_api d))) (sb_sessions (cn_sessions st))" by blast
    then have ids: "map se_id (sb_sessions db) = map se_id (sb_sessions (cn_sessions st))" by (simp add: map_update_where_same)
    let ?q = "policy_of ''query'' (qc_query (cg_quotas (co_config W)))"
    show ?thesis
    proof (cases "meth = ''GET'' \<and> has_prefix ''/app'' path")
      case True
      obtain b st2 where q: "console_quota W d x 0 ?q (st\<lparr>cn_sessions := db\<rparr>) = (b, st2)" by fastforce
      from q show ?thesis
      proof (cases rule: console_quota_cases)
        case no: (refused c bs)
        have "st1 = st\<lparr>cn_sessions := db, cn_buckets := bs\<rparr>" using assms Some au True q no by (auto simp: require_session_def)
        then show ?thesis by (rule refused) (use True ids in simp_all)
      next
        case (consumed bs)
        show ?thesis
        proof (cases "scope = [] \<or> scope \<in> pr_scopes (sn_principal x)")
          case False
          then have "st1 = st\<lparr>cn_sessions := db, cn_buckets := bs\<rparr>"
            using assms Some au True q consumed by (auto simp: require_session_def)
          then show ?thesis by (rule refused) (use True ids in simp_all)
        next
          case sc: True
          show ?thesis
            by (rule passed [OF Some au sc, of bs])
              (use assms Some au True q consumed sc in \<open>auto simp: require_session_def\<close>)
        qed
      qed
    next
      case False
      have st: "st\<lparr>cn_sessions := db\<rparr> = st\<lparr>cn_sessions := db, cn_buckets := cn_buckets st\<rparr>" by simp
      show ?thesis
      proof (cases "scope = [] \<or> scope \<in> pr_scopes (sn_principal x)")
        case f: False
        then have "st1 = st\<lparr>cn_sessions := db, cn_buckets := cn_buckets st\<rparr>"
          using assms Some au False by (auto simp: require_session_def)
        then show ?thesis by (rule refused) (use ids in simp_all)
      next
        case sc: True
        show ?thesis
          by (rule passed [OF Some au sc, of "cn_buckets st"])
            (use assms Some au False sc in \<open>auto simp: require_session_def\<close>)
      qed
    qed
  qed
qed

text \<open>What a handler behind a session may do: change the tables of the workspace, after a valid form and a consumed quota; or
  revoke the session itself.\<close>

abbreviation writing_routes :: "console_route set" where
  "writing_routes \<equiv> {Endpoint_create, Event_publish, Delivery_replay}"

text \<open>The quota that a writing route consumes, and the resource it names: a replay counts against its delivery.\<close>

definition console_policy :: "quota_config \<Rightarrow> console_route \<Rightarrow> quota_policy" where
  "console_policy q route = (case route of
     Endpoint_create \<Rightarrow> policy_of ''endpoint_write'' (qc_endpoint_write q)
   | Event_publish \<Rightarrow> policy_of ''ingest'' (qc_ingest q)
   | Delivery_replay \<Rightarrow> policy_of ''replay'' (qc_replay q)
   | _ \<Rightarrow> policy_of ''query'' (qc_query q))"

definition console_resource :: "console_lib \<Rightarrow> unit request \<Rightarrow> console_route \<Rightarrow> uuid" where
  "console_resource L r route = (case route of
     Delivery_replay \<Rightarrow> (case al_parse_uuid (cb_api L) (hx_path_value r ''id'') of None \<Rightarrow> 0 | Some i \<Rightarrow> i)
   | _ \<Rightarrow> 0)"

abbreviation route_policy :: "console_server \<Rightarrow> console_route \<Rightarrow> quota_policy" where
  "route_policy W route \<equiv> console_policy (cg_quotas (co_config W)) route"

definition rows_within :: "uuid \<Rightarrow> api_db \<Rightarrow> api_db \<Rightarrow> bool" where
  "rows_within ws s s' \<longleftrightarrow> {w. workspace_rows w s' \<noteq> workspace_rows w s} \<subseteq> {ws}"

lemma create_within: "create_as u lookup us sv w now ws ty actor req input s = Inr (c, s') \<Longrightarrow> rows_within ws s s'"
  using create_isolated by (fastforce simp: rows_within_def)

lemma publish_within: "publish j us m now newID nonce new clk ws key raw s = Inr (res, s') \<Longrightarrow> rows_within ws s s'"
  using publish_isolated by (fastforce simp: rows_within_def)

lemma replay_within: "request_replay_as us m cmd audit clk ws d actor key reason req (ap_queue s) = Inr (res, q')
    \<Longrightarrow> rows_within ws s (s\<lparr>ap_queue := q'\<rparr>)"
  using replay_isolated by (fastforce simp: rows_within_def)

lemma session_handler_cases:
  assumes "session_handler L W d route r x st = (a, st1)"
  obtains (read) bs where "st1 = st\<lparr>cn_buckets := bs\<rparr>" "bs = cn_buckets st \<or> route \<in> writing_routes"
  | (left) n db where "route = Logout" "valid_mutation W r x (cb_form L n r)" "st1 = st\<lparr>cn_sessions := db\<rparr>"
      "map se_id (sb_sessions db) = map se_id (sb_sessions (cn_sessions st))"
  | (wrote) n bs s where "route \<in> writing_routes" "valid_mutation W r x (cb_form L n r)"
      "consume (m_rate_limit_pepper (co_materials W)) (aq_tx (cw_api d)) (aq_now (cw_api d)) (sn_principal x)
         (console_resource L r route) (route_policy W route) (cn_buckets st) = (Inr (), bs)"
      "rows_within (workspace_of x) (cn_data st) s" "st1 = st\<lparr>cn_buckets := bs, cn_data := s\<rparr>"
proof (cases "route \<in> writing_routes")
  case False
  show ?thesis
  proof (cases "route = Logout")
    case True
    show ?thesis
    proof (cases "st1 = st")
      case True
      then have "st1 = st\<lparr>cn_buckets := cn_buckets st\<rparr>" by simp
      then show ?thesis by (rule read) simp
    next
      case changed: False
      then have v: "valid_mutation W r x (cb_form L 4096 r)"
        using assms True by (auto simp: session_handler_def logout_handler_def split: if_splits)
      from changed assms True obtain db where db: "logout (cw_audit d) (aq_now (cw_api d)) x (cn_sessions st) = Inr db"
        "st1 = st\<lparr>cn_sessions := db\<rparr>"
        by (auto simp: session_handler_def logout_handler_def split: if_splits sum.splits)
      have "map se_id (sb_sessions db) = map se_id (sb_sessions (cn_sessions st))"
        using db(1) by (auto simp: logout_def session_revoke_def revoke_console_session_def audit_session_def Let_def
            map_update_where_same split: option.splits sum.splits if_splits)
      then show ?thesis by (rule left [OF True v db(2)])
    qed
  next
    case no: False
    then have "st1 = st\<lparr>cn_buckets := cn_buckets st\<rparr>"
      using assms False by (cases route) (auto simp: session_handler_def)
    then show ?thesis by (rule read) simp
  qed
next
  case True
  show ?thesis
  proof (cases "st1 = st")
    case True
    then have "st1 = st\<lparr>cn_buckets := cn_buckets st\<rparr>" by simp
    then show ?thesis by (rule read) simp
  next
    case changed: False
    have "\<exists>n b st2. valid_mutation W r x (cb_form L n r)
        \<and> console_quota W d x (console_resource L r route) (route_policy W route) st = (b, st2)
        \<and> (b \<noteq> None \<and> st1 = st2 \<or> b = None \<and> (st1 = st2 \<or> (\<exists>s. st1 = st2\<lparr>cn_data := s\<rparr> \<and> rows_within (workspace_of x) (cn_data st2) s)))"
    proof -
      consider "route = Endpoint_create" | "route = Event_publish" | "route = Delivery_replay" using True by auto
      then show ?thesis
      proof cases
        case 1
        obtain b st2 where q: "console_quota W d x 0 (policy_of ''endpoint_write'' (qc_endpoint_write (cg_quotas (co_config W)))) st = (b, st2)"
          by fastforce
        have "valid_mutation W r x (cb_form L 16384 r)"
          using assms 1 changed by (auto simp: session_handler_def endpoint_create_def Let_def split: if_splits)
        moreover have "b \<noteq> None \<and> st1 = st2 \<or> b = None \<and> (st1 = st2 \<or> (\<exists>s. st1 = st2\<lparr>cn_data := s\<rparr> \<and> rows_within (workspace_of x) (cn_data st2) s))"
          using assms 1 changed q create_within
          by (auto simp: session_handler_def endpoint_create_def Let_def split: if_splits option.splits sum.splits prod.splits)
        ultimately show ?thesis using q 1 by (intro exI conjI) (simp_all add: console_policy_def console_resource_def)
      next
        case 2
        obtain b st2 where q: "console_quota W d x 0 (policy_of ''ingest'' (qc_ingest (cg_quotas (co_config W)))) st = (b, st2)"
          by fastforce
        have "valid_mutation W r x (cb_form L (1048576 + 16384) r)"
          using assms 2 changed by (auto simp: session_handler_def event_publish_def Let_def split: if_splits)
        moreover have "b \<noteq> None \<and> st1 = st2 \<or> b = None \<and> (st1 = st2 \<or> (\<exists>s. st1 = st2\<lparr>cn_data := s\<rparr> \<and> rows_within (workspace_of x) (cn_data st2) s))"
          using assms 2 changed q publish_within
          by (auto simp: session_handler_def event_publish_def Let_def split: if_splits option.splits sum.splits prod.splits)
        ultimately show ?thesis using q 2 by (intro exI conjI) (simp_all add: console_policy_def console_resource_def)
      next
        case 3
        have v: "valid_mutation W r x (cb_form L 8192 r)"
          using assms 3 changed by (auto simp: session_handler_def delivery_replay_def Let_def split: if_splits)
        obtain i where i: "al_parse_uuid (cb_api L) (hx_path_value r ''id'') = Some i"
          using assms 3 changed v by (auto simp: session_handler_def delivery_replay_def Let_def split: option.splits)
        obtain b st2 where q: "console_quota W d x i (policy_of ''replay'' (qc_replay (cg_quotas (co_config W)))) st = (b, st2)"
          by fastforce
        have "b \<noteq> None \<and> st1 = st2 \<or> b = None \<and> (st1 = st2 \<or> (\<exists>s. st1 = st2\<lparr>cn_data := s\<rparr> \<and> rows_within (workspace_of x) (cn_data st2) s))"
          using assms 3 q v i replay_within
          by (auto simp: session_handler_def delivery_replay_def Let_def split: if_splits option.splits sum.splits prod.splits)
        with v q i 3 show ?thesis by (intro exI conjI) (simp_all add: console_policy_def console_resource_def)
      qed
    qed
    then obtain n b st2 where h: "valid_mutation W r x (cb_form L n r)"
      "console_quota W d x (console_resource L r route) (route_policy W route) st = (b, st2)"
      "b \<noteq> None \<and> st1 = st2 \<or> b = None \<and> (st1 = st2 \<or> (\<exists>s. st1 = st2\<lparr>cn_data := s\<rparr> \<and> rows_within (workspace_of x) (cn_data st2) s))"
      by (elim exE conjE)
    from h(2) show ?thesis
    proof (cases rule: console_quota_cases)
      case (refused c bs)
      then have "st1 = st\<lparr>cn_buckets := bs\<rparr>" using h(3) by auto
      then show ?thesis by (rule read) (use \<open>route \<in> writing_routes\<close> in simp)
    next
      case (consumed bs)
      from h(3) consumed(1) consider "st1 = st2" | s where "st1 = st2\<lparr>cn_data := s\<rparr>" "rows_within (workspace_of x) (cn_data st2) s" by auto
      then show ?thesis
      proof cases
        case 1
        then have "st1 = st\<lparr>cn_buckets := bs\<rparr>" using consumed(2) by simp
        then show ?thesis by (rule read) (use \<open>route \<in> writing_routes\<close> in simp)
      next
        case (2 s)
        show ?thesis
          by (rule wrote [OF \<open>route \<in> writing_routes\<close> h(1) consumed(3), of s]) (use 2 consumed(2) in simp_all)
      qed
    qed
  qed
qed

lemma login_handler_cases:
  assumes "login_handler L W d r st = (a, st1)"
  obtains (refused) "st1 = st"
  | (accepted) x db where "valid_login_csrf L W r (cb_form L 8192 r)"
      "login (console_session_service (co_materials W)) (cw_prefix d) (cw_secret d) (cw_session d) (cw_audit d)
         (aq_now (cw_api d)) (aq_now (cw_api d)) (aq_clock (cw_api d)) (cb_form L 8192 r ''api_key'') (cn_sessions st) = Inr (x, db)"
      "st1 = st\<lparr>cn_sessions := db\<rparr>" "wb_cookies a = [set_session_cookie W (sn_token x)]"
proof (cases "valid_login_csrf L W r (cb_form L 8192 r)")
  case False
  then show ?thesis using assms by (intro refused) (simp add: login_handler_def Let_def)
next
  case True
  show ?thesis
  proof (cases "login (console_session_service (co_materials W)) (cw_prefix d) (cw_secret d) (cw_session d) (cw_audit d)
      (aq_now (cw_api d)) (aq_now (cw_api d)) (aq_clock (cw_api d)) (cb_form L 8192 r ''api_key'') (cn_sessions st)")
    case (Inl e)
    then show ?thesis using assms True by (intro refused) (simp add: login_handler_def Let_def)
  next
    case (Inr y)
    obtain x db where y: "y = (x, db)" by (cases y)
    show ?thesis by (rule accepted [OF True Inr [unfolded y]])
        (use assms True Inr in \<open>auto simp: login_handler_def Let_def y\<close>)
  qed
qed

lemma guarded_login_cases:
  assumes "guarded_login L W d r st = (a, st1)"
  obtains (refused) "es_slots (cn_login st1) = es_slots (cn_login st)" "cn_sessions st1 = cn_sessions st" "cn_data st1 = cn_data st"
      "cn_buckets st1 = cn_buckets st" "cn_public st1 = cn_public st"
  | (accepted) x b where "valid_login_csrf L W r (cb_form L 8192 r)"
      "login (console_session_service (co_materials W)) (cw_prefix d) (cw_secret d) (cw_session d) (cw_audit d)
         (aq_now (cw_api d)) (aq_now (cw_api d)) (aq_clock (cw_api d)) (cb_form L 8192 r ''api_key'') (cn_sessions st)
        = Inr (x, cn_sessions st1)"
      "a = Some b" "wb_cookies b = [set_session_cookie W (sn_token x)]"
      "es_slots (cn_login st1) = es_slots (cn_login st)" "cn_data st1 = cn_data st" "cn_buckets st1 = cn_buckets st"
      "cn_public st1 = cn_public st"
proof -
  obtain en e where en: "(edge_enter login_edge (m_rate_limit_pepper (co_materials W))
      (request_origin (al_split_host_port (cb_api L)) (al_is_ip (cb_api L))) (form_prefix (cb_api_key L)) (aq_now (cw_api d)) r
      (cn_login st) :: ((string \<times> unit reply) + unit) option \<times> edge_state) = (en, e)" by fastforce
  from en show ?thesis
  proof (cases rule: edge_enter_cases)
    case no: refused
    have "st1 = st\<lparr>cn_login := e\<rparr>" using assms en no(1) by (auto simp: guarded_login_def split: option.splits sum.splits)
    then show ?thesis using no(2) by (intro refused) simp_all
  next
    case (allowed lru)
    obtain b st2 where l: "login_handler L W d r (st\<lparr>cn_login := e\<rparr>) = (b, st2)" by fastforce
    have out: "a = Some b" "st1 = st2\<lparr>cn_login := edge_leave (cn_login st2)\<rparr>"
      using assms en allowed(1) l by (simp_all add: guarded_login_def)
    from l show ?thesis
    proof (cases rule: login_handler_cases)
      case no: refused
      then show ?thesis using allowed(3) out by (intro refused) (simp_all add: edge_leave_def)
    next
      case ok: (accepted x db)
      show ?thesis
        by (rule accepted [OF ok(1) _ out(1) ok(4)]) (use ok(2,3) out(2) allowed(3) in \<open>simp_all add: edge_leave_def\<close>)
    qed
  qed
qed

lemma console_route_methods:
  assumes "console_route_of meth segs = (route, i)"
  shows "route \<in> insert Login (insert Logout writing_routes) \<Longrightarrow> meth = ''POST''"
    "meth = ''GET'' \<or> meth = ''HEAD'' \<or> meth = ''POST'' \<or> route = No_route"
proof -
  let ?f = "find (\<lambda>(pm, ps, rt). method_matches pm meth \<and> match_segments ps segs \<noteq> None) console_patterns"
  have mem: "(pm, ps, rt) \<in> set console_patterns \<and> method_matches pm meth" if "?f = Some (pm, ps, rt)" for pm ps rt
    using find_SomeD [OF that] by simp
  show "meth = ''POST''" if "route \<in> insert Login (insert Logout writing_routes)"
    using assms that mem by (auto simp: console_route_of_def console_patterns_def method_matches_def split: option.splits if_splits)
  show "meth = ''GET'' \<or> meth = ''HEAD'' \<or> meth = ''POST'' \<or> route = No_route"
    using assms mem by (auto simp: console_route_of_def console_patterns_def method_matches_def split: option.splits if_splits)
qed

text \<open>The session a request's cookie resumes.\<close>

definition presents_session ::
    "console_lib \<Rightarrow> console_server \<Rightarrow> console_draws \<Rightarrow> unit request \<Rightarrow> console_state \<Rightarrow> session \<Rightarrow> bool" where
  "presents_session L W d r st x \<longleftrightarrow>
     (\<exists>token db. cb_cookie L r (cookie_name W) = Some token
        \<and> authenticate_session (console_session_service (co_materials W)) (aq_now (cw_api d)) (aq_clock (cw_api d)) token
            (cn_sessions st) = Inr (x, db))"

lemma console_mux_cases:
  assumes "console_mux L W d meth segs r0 st = (a, st1)" and "console_route_of meth segs = (route, i)"
    and "r = with_id i r0"
  obtains (nothing) "cn_data st1 = cn_data st" "map se_id (sb_sessions (cn_sessions st1)) = map se_id (sb_sessions (cn_sessions st))"
      "es_slots (cn_login st1) = es_slots (cn_login st)" "cn_public st1 = cn_public st"
      "cn_buckets st1 = cn_buckets st \<or> meth = ''GET'' \<or> meth = ''POST''"
  | (entered) x b where "route = Login" "valid_login_csrf L W r (cb_form L 8192 r)"
      "login (console_session_service (co_materials W)) (cw_prefix d) (cw_secret d) (cw_session d) (cw_audit d)
         (aq_now (cw_api d)) (aq_now (cw_api d)) (aq_clock (cw_api d)) (cb_form L 8192 r ''api_key'') (cn_sessions st)
        = Inr (x, cn_sessions st1)"
      "a = Some b" "wb_cookies b = [set_session_cookie W (sn_token x)]"
      "es_slots (cn_login st1) = es_slots (cn_login st)" "cn_data st1 = cn_data st" "cn_buckets st1 = cn_buckets st"
      "cn_public st1 = cn_public st" "meth = ''POST''"
  | (wrote) scope x n where "console_scope route = Some scope" "presents_session L W d r st x"
      "scope \<in> pr_scopes (sn_principal x)" "valid_mutation W r x (cb_form L n r)" "meth = ''POST''"
      "consume (m_rate_limit_pepper (co_materials W)) (aq_tx (cw_api d)) (aq_now (cw_api d)) (sn_principal x)
         (console_resource L r route) (route_policy W route) (cn_buckets st) = (Inr (), cn_buckets st1)"
      "route \<in> writing_routes"
      "rows_within (workspace_of x) (cn_data st) (cn_data st1)"
      "map se_id (sb_sessions (cn_sessions st1)) = map se_id (sb_sessions (cn_sessions st))"
      "cn_login st1 = cn_login st" "cn_public st1 = cn_public st"
proof (cases "console_scope route")
  case None
  show ?thesis
  proof (cases "route = Login")
    case True
    then have g: "guarded_login L W d r st = (a, st1)" using assms None by (simp add: console_mux_def Let_def)
    then show ?thesis
    proof (cases rule: guarded_login_cases)
      case refused
      show ?thesis by (rule nothing) (use refused in simp_all)
    next
      case (accepted x b)
      have "meth = ''POST''" by (rule console_route_methods(1) [OF assms(2)]) (simp add: True)
      then show ?thesis by (rule entered [OF True accepted])
    qed
  next
    case False
    then have "st1 = st" using assms None by (cases route) (auto simp: console_mux_def Let_def)
    show ?thesis by (rule nothing) (simp_all add: \<open>st1 = st\<close>)
  qed
next
  case (Some scope)
  obtain b where rs: "require_session L W d scope meth (path_of segs) (session_handler L W d route r) r st = (b, st1)"
    using assms Some by (auto simp: console_mux_def Let_def split: prod.splits)
  from rs show ?thesis
  proof (cases rule: require_session_cases)
    case (refused bs db)
    show ?thesis by (rule nothing) (use refused in auto)
  next
    case (passed token x db bs)
    obtain p where "parse_session_token token = Some p" using passed(2) by (auto simp: authenticate_session_def split: option.splits)
    from authenticated_row(2) [OF passed(2) this]
    have ids: "map se_id (sb_sessions db) = map se_id (sb_sessions (cn_sessions st))" by (auto simp: map_update_where_same)
    have ps: "presents_session L W d r st x" using passed(1,2) by (auto simp: presents_session_def)
    from passed(5) show ?thesis
    proof (cases rule: session_handler_cases)
      case (read bs')
      have "meth = ''POST''" if "route \<in> writing_routes" using console_route_methods(1) [OF assms(2)] that by blast
      note post = this
      show ?thesis by (rule nothing) (use read passed(4) ids post in auto)
    next
      case (left n db')
      then have "meth = ''POST''" using console_route_methods(1) [OF assms(2)] by blast
      show ?thesis by (rule nothing) (use left ids \<open>meth = ''POST''\<close> in simp_all)
    next
      case (wrote n bs' s)
      have post: "meth = ''POST''" using console_route_methods(1) [OF assms(2)] wrote(1) by blast
      have "scope \<noteq> []" using Some wrote(1) by (auto simp: console_scope_def)
      then have sc: "scope \<in> pr_scopes (sn_principal x)" using passed(3) by simp
      have "bs = cn_buckets st" using passed(4) post by simp
      then show ?thesis
        using wrote ids by (intro that(3) [OF Some ps sc wrote(2) post]) simp_all
    qed
  qed
qed

lemma console_serve_mux:
  assumes "console_serve L W d meth segs r st = (a, st')"
  obtains (refused) "es_slots (cn_public st') = es_slots (cn_public st)" "\<exists>e. st' = st\<lparr>cn_public := e\<rparr>"
  | (mux) e b st1 where "console_mux L W d meth segs r (st\<lparr>cn_public := e\<rparr>) = (b, st1)"
      "es_slots e = es_slots (cn_public st) + 1" "st' = st1\<lparr>cn_public := edge_leave (cn_public st1)\<rparr>"
      "a = map_option (\<lambda>x. x\<lparr>wb_headers := console_security_headers W (path_of segs) @ wb_headers x\<rparr>) b"
proof -
  obtain en e where en: "(edge_enter public_edge (m_rate_limit_pepper (co_materials W))
      (request_origin (al_split_host_port (cb_api L)) (al_is_ip (cb_api L))) header_prefix (aq_now (cw_api d)) r
      (cn_public st) :: ((string \<times> unit reply) + unit) option \<times> edge_state) = (en, e)" by fastforce
  from en show ?thesis
  proof (cases rule: edge_enter_cases)
    case no: refused
    have "st' = st\<lparr>cn_public := e\<rparr>" using assms en no(1) by (auto simp: console_serve_def split: option.splits sum.splits)
    then show ?thesis using no(2) by (intro refused) auto
  next
    case (allowed lru)
    obtain b st1 where m: "console_mux L W d meth segs r (st\<lparr>cn_public := e\<rparr>) = (b, st1)" by fastforce
    show ?thesis by (rule mux [OF m allowed(3)]) (use assms en allowed(1) m in \<open>simp_all add: console_serve_def\<close>)
  qed
qed

section \<open>Properties\<close>

text \<open>C5. The console cannot be made to act by another site, nor beyond its session: whatever a browser sends, either no row of
  the domain tables (\<open>cn_data\<close>: endpoints, subscriptions, secrets, events, deliveries, attempts, commands) changes, or the request is
  a POST on one of the three writing routes that carries the console's own origin, the token against forged requests that
  belongs to its session, and a cookie whose session is live and has the scope of the route, while the quota of that route was
  consumed for the session's key; and then only rows of the session's workspace change. In every case both limiters get their
  slots back. Console sessions, which a request touches, a login makes and a logout revokes, and quota rows are not domain tables;
  what makes a session is the next property.\<close>

theorem console_guarded:
  "case console_serve L W d meth segs r0 st of (a, st') \<Rightarrow>
     es_slots (cn_public st') = es_slots (cn_public st) \<and> es_slots (cn_login st') = es_slots (cn_login st)
     \<and> (cn_data st' = cn_data st
        \<or> (\<exists>route i r scope x n. console_route_of meth segs = (route, i) \<and> route \<in> {Endpoint_create, Event_publish, Delivery_replay}
            \<and> r = with_id i r0 \<and> meth = ''POST''
            \<and> hx_header r0 ''Origin'' = console_origin W
            \<and> cb_form L n r ''csrf_token'' = csrf (console_session_service (co_materials W)) (sn_token x)
            \<and> presents_session L W d r st x \<and> console_scope route = Some scope \<and> scope \<in> pr_scopes (sn_principal x)
            \<and> consume (m_rate_limit_pepper (co_materials W)) (aq_tx (cw_api d)) (aq_now (cw_api d)) (sn_principal x)
                (console_resource L r route) (console_policy (cg_quotas (co_config W)) route)
                (cn_buckets st) = (Inr (), cn_buckets st')
            \<and> rows_within (workspace_of x) (cn_data st) (cn_data st')))"
proof -
  obtain a st' where sv: "console_serve L W d meth segs r0 st = (a, st')" by fastforce
  obtain route i where rt: "console_route_of meth segs = (route, i)" by fastforce
  from sv show ?thesis
  proof (cases rule: console_serve_mux)
    case refused
    then show ?thesis using sv by auto
  next
    case (mux e b st1)
    from mux(1) rt refl show ?thesis
    proof (cases rule: console_mux_cases)
      case nothing
      then show ?thesis using sv mux(2,3) by (simp add: edge_leave_def)
    next
      case (entered x c)
      then show ?thesis using sv mux(2,3) by (simp add: edge_leave_def)
    next
      case (wrote scope x n)
      have "hx_header r0 ''Origin'' = console_origin W"
        "cb_form L n (with_id i r0) ''csrf_token'' = csrf (console_session_service (co_materials W)) (sn_token x)"
        using wrote(4) by (simp_all add: valid_mutation_def same_origin_form_def valid_csrf_def with_id_def)
      moreover have "presents_session L W d (with_id i r0) st x" using wrote(2) by (simp add: presents_session_def)
      ultimately have "\<exists>route i r scope x n. console_route_of meth segs = (route, i)
            \<and> route \<in> {Endpoint_create, Event_publish, Delivery_replay} \<and> r = with_id i r0 \<and> meth = ''POST''
            \<and> hx_header r0 ''Origin'' = console_origin W
            \<and> cb_form L n r ''csrf_token'' = csrf (console_session_service (co_materials W)) (sn_token x)
            \<and> presents_session L W d r st x \<and> console_scope route = Some scope \<and> scope \<in> pr_scopes (sn_principal x)
            \<and> consume (m_rate_limit_pepper (co_materials W)) (aq_tx (cw_api d)) (aq_now (cw_api d)) (sn_principal x)
                (console_resource L r route) (console_policy (cg_quotas (co_config W)) route)
                (cn_buckets st) = (Inr (), cn_buckets st')
            \<and> rows_within (workspace_of x) (cn_data st) (cn_data st')"
        using rt wrote(1,3,5-8) mux(3)
        by (intro exI [of _ route] exI [of _ i] exI [of _ "with_id i r0"] exI [of _ scope] exI [of _ x] exI [of _ n]) simp
      then show ?thesis using sv mux(2,3) wrote(10,11) by (simp add: edge_leave_def)
    qed
  qed
qed

text \<open>C6. A session begins only at the login form: the console never makes a session but for a POST that carries its own origin
  and the token of its login cookie, with an API key that authenticates; the session is of that key, and its token is what the response sets
  as cookie.\<close>

theorem console_sessions_guarded:
  "case console_serve L W d meth segs r0 st of (a, st') \<Rightarrow>
     map se_id (sb_sessions (cn_sessions st')) = map se_id (sb_sessions (cn_sessions st))
     \<or> (\<exists>i r (x :: session) b. console_route_of meth segs = (Login, i) \<and> r = with_id i r0 \<and> meth = ''POST''
          \<and> hx_header r0 ''Origin'' = console_origin W
          \<and> cb_cookie L r (login_csrf_name W) = Some (cb_form L 8192 r ''csrf_token'')
          \<and> authenticate_token (db_lookup (sb_auth (cn_sessions st))) (m_auth_pepper (co_materials W)) (aq_now (cw_api d))
              (trim_space (cb_form L 8192 r ''api_key'')) = Inr (sn_principal x)
          \<and> a = Some b \<and> wb_cookies b = [set_session_cookie W (sn_token x)])"
proof -
  obtain a st' where sv: "console_serve L W d meth segs r0 st = (a, st')" by fastforce
  obtain route i where rt: "console_route_of meth segs = (route, i)" by fastforce
  from sv show ?thesis
  proof (cases rule: console_serve_mux)
    case refused
    then show ?thesis using sv by auto
  next
    case (mux e b st1)
    from mux(1) rt refl show ?thesis
    proof (cases rule: console_mux_cases)
      case (entered x c)
      have "authenticate_token (db_lookup (sb_auth (cn_sessions st))) (m_auth_pepper (co_materials W)) (aq_now (cw_api d))
          (trim_space (cb_form L 8192 (with_id i r0) ''api_key'')) = Inr (sn_principal x)"
        using entered(3) by (rule login_Inr) (simp add: console_session_service_def)
      moreover have "hx_header r0 ''Origin'' = console_origin W"
        "cb_cookie L (with_id i r0) (login_csrf_name W) = Some (cb_form L 8192 (with_id i r0) ''csrf_token'')"
        using entered(2) by (auto simp: valid_login_csrf_def same_origin_form_def with_id_def split: option.splits)
      ultimately have "\<exists>i r (x :: session) b. console_route_of meth segs = (Login, i) \<and> r = with_id i r0 \<and> meth = ''POST''
          \<and> hx_header r0 ''Origin'' = console_origin W
          \<and> cb_cookie L r (login_csrf_name W) = Some (cb_form L 8192 r ''csrf_token'')
          \<and> authenticate_token (db_lookup (sb_auth (cn_sessions st))) (m_auth_pepper (co_materials W)) (aq_now (cw_api d))
              (trim_space (cb_form L 8192 r ''api_key'')) = Inr (sn_principal x)
          \<and> a = Some b \<and> wb_cookies b = [set_session_cookie W (sn_token x)]"
        using rt entered(1,4,5,10) mux(4) by (intro exI [of _ i] exI [of _ "with_id i r0"] exI [of _ x] exI [of _ "the a"]) simp
      then show ?thesis using sv by simp
    qed (use sv mux(3) in simp_all)
  qed
qed

text \<open>A request with the method \<open>HEAD\<close> is served like one with \<open>GET\<close>, but \<open>require\<close> charges the quota of queries for the method
  \<open>GET\<close> only: no bucket ever counts it.\<close>

theorem console_head_unmetered: "cn_buckets (snd (console_serve L W d ''HEAD'' segs r0 st)) = cn_buckets st"
proof -
  obtain a st' where sv: "console_serve L W d ''HEAD'' segs r0 st = (a, st')" by fastforce
  obtain route i where rt: "console_route_of ''HEAD'' segs = (route, i)" by fastforce
  from sv show ?thesis
  proof (cases rule: console_serve_mux)
    case refused
    then show ?thesis using sv by auto
  next
    case (mux e b st1)
    from mux(1) rt refl show ?thesis
      by (cases rule: console_mux_cases) (use sv mux(3) in simp_all)
  qed
qed

end
