(* ===== verification/Retention_Db.thy ===== *)
theory Retention_Db
  imports Quota Console_Session Event "HOL-Library.Product_Lexorder" "HOL-Library.Sublist"
begin

text \<open>
  The maintenance functions of migrations 000013 to 000017 over all tables, for \<open>internal/retention\<close>: expired metadata,
  the backlog, the request to purge a workspace and the purge itself, and the end of a restore. Columns that the
  tables of the model do not keep are arguments (\<open>retention_times\<close>); \<open>st\<close> is \<open>transaction_timestamp()\<close>;
  \<open>locks t n\<close> says that another transaction holds row \<open>n\<close> of table \<open>t\<close>, which \<open>SKIP LOCKED\<close> leaves alone.
\<close>

section \<open>Tables\<close>

datatype purge_step = Replay_commands | Rotation_commands | Attempts | Deliveries | Events | Subscriptions | Runtime
  | Secrets | Endpoints | Scopes | Keys | Buckets | Workspace_step | Complete

datatype job_status = Job_pending | Job_processing | Job_completed | Job_failed

record job_row =
  jb_id :: uuid
  jb_ws :: uuid
  jb_status :: job_status
  jb_checkpoint :: purge_step
  jb_scheduled :: instant
  jb_lease :: "instant option"
  jb_token :: int
  jb_attempts :: int
  jb_processed :: int

record tombstone_row =
  tb_ws :: uuid
  tb_generation :: int
  tb_deleted :: instant
  tb_completed :: "instant option"

record maintenance_db =
  mx_data :: api_db
  mx_sessions :: session_db
  mx_buckets :: "bucket_row list"
  mx_jobs :: "job_row list"
  mx_tombstones :: "tombstone_row list"
  mx_generation :: int

record retention_times =
  rt_event :: "event_row \<Rightarrow> instant"
  rt_replay :: "replay_row \<Rightarrow> instant"
  rt_rotation :: "rotation_row \<Rightarrow> instant"
  rt_audit :: "audit_event \<Rightarrow> instant"
  rt_days :: "uuid \<Rightarrow> int"
  rt_audit_days :: int

type_synonym locks = "purge_step \<Rightarrow> nat \<Rightarrow> bool"

abbreviation mx_queue :: "maintenance_db \<Rightarrow> db" where "mx_queue s \<equiv> ap_queue (mx_data s)"
abbreviation mx_auth :: "maintenance_db \<Rightarrow> auth_db" where "mx_auth s \<equiv> sb_auth (mx_sessions s)"

definition on_mx_queue :: "(db \<Rightarrow> db) \<Rightarrow> maintenance_db \<Rightarrow> maintenance_db" where
  "on_mx_queue f s = s\<lparr>mx_data := (mx_data s)\<lparr>ap_queue := f (mx_queue s)\<rparr>\<rparr>"

definition on_mx_auth :: "(auth_db \<Rightarrow> auth_db) \<Rightarrow> maintenance_db \<Rightarrow> maintenance_db" where
  "on_mx_auth f s = s\<lparr>mx_sessions := (mx_sessions s)\<lparr>sb_auth := f (mx_auth s)\<rparr>\<rparr>"

section \<open>Deleting a batch\<close>

text \<open>\<open>DELETE\<close> of the first \<open>n\<close> rows that qualify and that nobody holds, in the order of a key: their number and the rest.\<close>

definition batch_positions :: "nat \<Rightarrow> ('a \<Rightarrow> 'k::linorder) \<Rightarrow> (nat \<Rightarrow> bool) \<Rightarrow> ('a \<Rightarrow> bool) \<Rightarrow> 'a list \<Rightarrow> nat list" where
  "batch_positions n key held P xs =
     map fst (take n (sort_key (\<lambda>(i, x). key x) (filter (\<lambda>(i, x). P x \<and> \<not> held i) (enumerate 0 xs))))"

definition delete_batch :: "nat \<Rightarrow> ('a \<Rightarrow> 'k::linorder) \<Rightarrow> (nat \<Rightarrow> bool) \<Rightarrow> ('a \<Rightarrow> bool) \<Rightarrow> 'a list \<Rightarrow> nat \<times> 'a list" where
  "delete_batch n key held P xs =
     (let gone = batch_positions n key held P xs
      in (length gone, map snd (filter (\<lambda>(i, x). i \<notin> set gone) (enumerate 0 xs))))"

section \<open>Expired metadata\<close>

definition workspace_exists :: "uuid \<Rightarrow> maintenance_db \<Rightarrow> bool" where
  "workspace_exists ws s \<longleftrightarrow> list_ex (\<lambda>w. wr_id w = ws) (db_workspaces (mx_queue s))"

definition days :: "int \<Rightarrow> duration" where "days n = n * 24 * hour"

definition attempt_expired :: "retention_times \<Rightarrow> instant \<Rightarrow> maintenance_db \<Rightarrow> attempt_row \<Rightarrow> bool" where
  "attempt_expired T st s a \<longleftrightarrow> workspace_exists (at_ws a) s
     \<and> list_ex (\<lambda>d. dkey d = akey a) (db_deliveries (mx_queue s)) \<and> at_state a \<noteq> Started
     \<and> (case at_finished a of None \<Rightarrow> False | Some f \<Rightarrow> f + days (rt_days T (at_ws a)) \<le> st)"

definition replay_expired :: "retention_times \<Rightarrow> instant \<Rightarrow> maintenance_db \<Rightarrow> replay_row \<Rightarrow> bool" where
  "replay_expired T st s c \<longleftrightarrow> workspace_exists (rc_ws c) s \<and> rt_replay T c + days (rt_days T (rc_ws c)) \<le> st"

definition rotation_expired :: "retention_times \<Rightarrow> instant \<Rightarrow> maintenance_db \<Rightarrow> rotation_row \<Rightarrow> bool" where
  "rotation_expired T st s c \<longleftrightarrow> workspace_exists (ro_ws c) s \<and> rt_rotation T c + days (rt_days T (ro_ws c)) \<le> st"

definition delivery_expired :: "retention_times \<Rightarrow> instant \<Rightarrow> maintenance_db \<Rightarrow> delivery_row \<Rightarrow> bool" where
  "delivery_expired T st s d \<longleftrightarrow> workspace_exists (dr_ws d) s
     \<and> (case dr_terminal d of None \<Rightarrow> False | Some t \<Rightarrow> t + days (rt_days T (dr_ws d)) \<le> st)
     \<and> \<not> list_ex (\<lambda>a. akey a = dkey d) (db_attempts (mx_queue s))
     \<and> \<not> list_ex (\<lambda>c. rc_ws c = dr_ws d \<and> rc_delivery c = dr_id d) (db_replays (mx_queue s))"

definition event_expired :: "retention_times \<Rightarrow> instant \<Rightarrow> maintenance_db \<Rightarrow> event_row \<Rightarrow> bool" where
  "event_expired T st s e \<longleftrightarrow> workspace_exists (er_ws e) s \<and> er_payload e = None
     \<and> rt_event T e + days (rt_days T (er_ws e)) \<le> st
     \<and> \<not> list_ex (\<lambda>d. dr_ws d = er_ws e \<and> dr_event d = er_id e) (db_deliveries (mx_queue s))"

definition audit_expired :: "retention_times \<Rightarrow> instant \<Rightarrow> audit_event \<Rightarrow> bool" where
  "audit_expired T st a \<longleftrightarrow> rt_audit T a + days (rt_audit_days T) \<le> st"

record metadata_counts =
  mc_attempts :: nat
  mc_replays :: nat
  mc_rotations :: nat
  mc_deliveries :: nat
  mc_events :: nat
  mc_audits :: nat
  mc_buckets :: nat

text \<open>The statements of the function, one after the other.\<close>

definition purge_attempts :: "retention_times \<Rightarrow> locks \<Rightarrow> nat \<Rightarrow> instant \<Rightarrow> maintenance_db \<Rightarrow> nat \<times> maintenance_db" where
  "purge_attempts T locks n st s =
     (let (c, xs) = delete_batch n (\<lambda>a. (the (at_finished a), at_id a)) (locks Attempts) (attempt_expired T st s)
                      (db_attempts (mx_queue s))
      in (c, on_mx_queue (\<lambda>q. q\<lparr>db_attempts := xs\<rparr>) s))"

definition purge_replays :: "retention_times \<Rightarrow> locks \<Rightarrow> nat \<Rightarrow> instant \<Rightarrow> maintenance_db \<Rightarrow> nat \<times> maintenance_db" where
  "purge_replays T locks n st s =
     (let (c, xs) = delete_batch n (\<lambda>c. (rt_replay T c, rc_id c)) (locks Replay_commands) (replay_expired T st s)
                      (db_replays (mx_queue s))
      in (c, on_mx_queue (\<lambda>q. q\<lparr>db_replays := xs\<rparr>) s))"

definition purge_rotations :: "retention_times \<Rightarrow> locks \<Rightarrow> nat \<Rightarrow> instant \<Rightarrow> maintenance_db \<Rightarrow> nat \<times> maintenance_db" where
  "purge_rotations T locks n st s =
     (let (c, xs) = delete_batch n (\<lambda>c. (rt_rotation T c, ro_id c)) (locks Rotation_commands) (rotation_expired T st s)
                      (ap_rotations (mx_data s))
      in (c, s\<lparr>mx_data := (mx_data s)\<lparr>ap_rotations := xs\<rparr>\<rparr>))"

definition purge_deliveries :: "retention_times \<Rightarrow> locks \<Rightarrow> nat \<Rightarrow> instant \<Rightarrow> maintenance_db \<Rightarrow> nat \<times> maintenance_db" where
  "purge_deliveries T locks n st s =
     (let (c, xs) = delete_batch n (\<lambda>d. (the (dr_terminal d), dr_id d)) (locks Deliveries) (delivery_expired T st s)
                      (db_deliveries (mx_queue s))
      in (c, on_mx_queue (\<lambda>q. q\<lparr>db_deliveries := xs\<rparr>) s))"

definition purge_events :: "retention_times \<Rightarrow> locks \<Rightarrow> nat \<Rightarrow> instant \<Rightarrow> maintenance_db \<Rightarrow> nat \<times> maintenance_db" where
  "purge_events T locks n st s =
     (let (c, xs) = delete_batch n (\<lambda>e. (rt_event T e, er_id e)) (locks Events) (event_expired T st s)
                      (db_events (mx_queue s))
      in (c, on_mx_queue (\<lambda>q. q\<lparr>db_events := xs\<rparr>) s))"

text \<open>Audit events and buckets have no step of the purge of a workspace of their own; \<open>Complete\<close> stands for the first.\<close>

definition purge_audits :: "retention_times \<Rightarrow> locks \<Rightarrow> nat \<Rightarrow> instant \<Rightarrow> maintenance_db \<Rightarrow> nat \<times> maintenance_db" where
  "purge_audits T locks n st s =
     (let (c, xs) = delete_batch n (\<lambda>a. (rt_audit T a, ae_id a)) (locks Complete) (audit_expired T st) (ad_audits (mx_auth s))
      in (c, on_mx_auth (\<lambda>a. a\<lparr>ad_audits := xs\<rparr>) s))"

definition purge_buckets :: "locks \<Rightarrow> nat \<Rightarrow> instant \<Rightarrow> maintenance_db \<Rightarrow> nat \<times> maintenance_db" where
  "purge_buckets locks n st s =
     (let (c, xs) = delete_batch n rb_expires (locks Buckets) (\<lambda>b. rb_expires b \<le> st) (mx_buckets s)
      in (c, s\<lparr>mx_buckets := xs\<rparr>))"

definition purge_expired_metadata ::
    "retention_times \<Rightarrow> locks \<Rightarrow> int \<Rightarrow> instant \<Rightarrow> maintenance_db \<Rightarrow> string + (metadata_counts \<times> maintenance_db)" where
  "purge_expired_metadata T locks batch st s =
     (if batch < 1 \<or> batch > 1000 then Inl ''invalid metadata purge batch''
      else
        let n = nat batch;
            (c1, s1) = purge_attempts T locks n st s;
            (c2, s2) = purge_replays T locks n st s1;
            (c3, s3) = purge_rotations T locks n st s2;
            (c4, s4) = purge_deliveries T locks n st s3;
            (c5, s5) = purge_events T locks n st s4;
            (c6, s6) = purge_audits T locks n st s5;
            (c7, s7) = purge_buckets locks n st s6
        in Inr (\<lparr>mc_attempts = c1, mc_replays = c2, mc_rotations = c3, mc_deliveries = c4, mc_events = c5, mc_audits = c6,
                 mc_buckets = c7\<rparr>, s7))"

section \<open>The backlog\<close>

definition job_ready :: "instant \<Rightarrow> job_row \<Rightarrow> bool" where
  "job_ready st j \<longleftrightarrow> jb_status j = Job_pending
     \<or> jb_status j = Job_processing \<and> (case jb_lease j of None \<Rightarrow> False | Some t \<Rightarrow> t \<le> st)"

definition retention_backlog :: "retention_times \<Rightarrow> instant \<Rightarrow> maintenance_db \<Rightarrow> instant list" where
  "retention_backlog T st s =
     (let q = mx_queue s
      in map er_expires (filter (\<lambda>e. er_payload e \<noteq> None \<and> er_expires e \<le> st) (db_events q))
         @ map (\<lambda>v. the (sr_retire_at v)) (filter (\<lambda>v. sr_state v = Secret_retiring
             \<and> (case sr_retire_at v of None \<Rightarrow> False | Some t \<Rightarrow> t \<le> st)) (db_secrets q))
         @ map (\<lambda>a. the (at_finished a) + days (rt_days T (at_ws a))) (filter (\<lambda>a. workspace_exists (at_ws a) s
             \<and> at_state a \<noteq> Started
             \<and> (case at_finished a of None \<Rightarrow> False | Some f \<Rightarrow> f + days (rt_days T (at_ws a)) \<le> st)) (db_attempts q))
         @ map (\<lambda>c. rt_replay T c + days (rt_days T (rc_ws c))) (filter (replay_expired T st s) (db_replays q))
         @ map (\<lambda>c. rt_rotation T c + days (rt_days T (ro_ws c))) (filter (rotation_expired T st s) (ap_rotations (mx_data s)))
         @ map (\<lambda>d. the (dr_terminal d) + days (rt_days T (dr_ws d))) (filter (delivery_expired T st s) (db_deliveries q))
         @ map (\<lambda>e. rt_event T e + days (rt_days T (er_ws e))) (filter (event_expired T st s) (db_events q))
         @ map (\<lambda>a. rt_audit T a + days (rt_audit_days T)) (filter (audit_expired T st) (ad_audits (mx_auth s)))
         @ map rb_expires (filter (\<lambda>b. rb_expires b \<le> st) (mx_buckets s))
         @ map jb_scheduled (filter (job_ready st) (mx_jobs s)))"

section \<open>Purging a workspace\<close>

definition request_workspace_purge ::
    "uuid \<Rightarrow> string \<Rightarrow> uuid \<Rightarrow> uuid \<Rightarrow> instant \<Rightarrow> instant \<Rightarrow> maintenance_db \<Rightarrow> string + (bool \<times> maintenance_db)" where
  "request_workspace_purge ws requestID job audit st clk s =
     (if length requestID < 1 \<or> length requestID > 128 then Inl ''invalid workspace purge request''
      else case find (\<lambda>w. aw_id w = ws) (ad_workspaces (mx_auth s)) of
        None \<Rightarrow> Inr (False, s)
      | Some w \<Rightarrow>
          if aw_status w = ''deleting'' then Inr (False, s)
          else
            let q = mx_queue s; a = mx_auth s;
                mine = (\<lambda>x. at_ws x = ws \<and> list_ex (\<lambda>d. dkey d = akey x) (db_deliveries q));
                q' = q\<lparr>db_workspaces := update_where (\<lambda>w. wr_id w = ws) (\<lambda>w. w\<lparr>wr_active := False\<rparr>) (db_workspaces q),
                       db_endpoints := update_where (\<lambda>e. ep_ws e = ws \<and> ep_status e \<noteq> ''disabled'')
                          (\<lambda>e. e\<lparr>ep_status := ''disabled''\<rparr>) (db_endpoints q),
                       db_attempts := update_where (\<lambda>x. mine x \<and> at_state x = Started)
                          (abandon_attempt st ''workspace_deleting'') (db_attempts q),
                       db_deliveries := update_where (\<lambda>d. dr_ws d = ws \<and> dr_status d = Processing)
                          (fail_row st ''workspace_deleting'') (db_deliveries q)\<rparr>;
                a' = a\<lparr>ad_workspaces := update_where (\<lambda>w. aw_id w = ws) (\<lambda>w. w\<lparr>aw_status := ''deleting''\<rparr>) (ad_workspaces a),
                       ad_keys := update_where (\<lambda>k. ak_workspace k = ws \<and> ak_status k = ''active'')
                          (\<lambda>k. k\<lparr>ak_status := ''revoked'', ak_revoked := Some (case ak_revoked k of None \<Rightarrow> st | Some t \<Rightarrow> t)\<rparr>)
                          (ad_keys a),
                       ad_audits := ad_audits a @ [\<lparr>ae_id = audit, ae_workspace = ws, ae_action = ''workspace.purge'',
                          ae_resource = ws, ae_outcome = ''accepted''\<rparr>]\<rparr>;
                ts = (case find (\<lambda>t. tb_ws t = ws) (mx_tombstones s) of
                        None \<Rightarrow> mx_tombstones s @ [\<lparr>tb_ws = ws, tb_generation = 1, tb_deleted = clk, tb_completed = None\<rparr>]
                      | Some t \<Rightarrow> update_where (\<lambda>t. tb_ws t = ws)
                          (\<lambda>t. t\<lparr>tb_generation := tb_generation t + 1, tb_deleted := st, tb_completed := None\<rparr>)
                          (mx_tombstones s));
                js = (case find (\<lambda>j. jb_ws j = ws) (mx_jobs s) of
                        None \<Rightarrow> mx_jobs s @ [\<lparr>jb_id = job, jb_ws = ws, jb_status = Job_pending, jb_checkpoint = Replay_commands,
                                   jb_scheduled = clk, jb_lease = None, jb_token = 0, jb_attempts = 0, jb_processed = 0\<rparr>]
                      | Some j \<Rightarrow> update_where (\<lambda>j. jb_ws j = ws) (\<lambda>j. j\<lparr>jb_status := Job_pending,
                          jb_checkpoint := Replay_commands, jb_processed := 0, jb_scheduled := st, jb_lease := None\<rparr>) (mx_jobs s))
            in Inr (True, (on_mx_auth (\<lambda>_. a') (on_mx_queue (\<lambda>_. q') s))\<lparr>mx_tombstones := ts, mx_jobs := js\<rparr>))"

definition purge_order :: "purge_step list" where
  "purge_order = [Replay_commands, Rotation_commands, Attempts, Deliveries, Events, Subscriptions, Runtime, Secrets, Endpoints,
     Scopes, Keys, Buckets]"

definition rows_left :: "purge_step \<Rightarrow> uuid \<Rightarrow> maintenance_db \<Rightarrow> nat" where
  "rows_left p ws s = (let q = mx_queue s; a = mx_auth s in case p of
       Replay_commands \<Rightarrow> count_where (\<lambda>c. rc_ws c = ws) (db_replays q)
     | Rotation_commands \<Rightarrow> count_where (\<lambda>c. ro_ws c = ws) (ap_rotations (mx_data s))
     | Attempts \<Rightarrow> count_where (\<lambda>x. at_ws x = ws) (db_attempts q)
     | Deliveries \<Rightarrow> count_where (\<lambda>d. dr_ws d = ws) (db_deliveries q)
     | Events \<Rightarrow> count_where (\<lambda>e. er_ws e = ws) (db_events q)
     | Subscriptions \<Rightarrow> count_where (\<lambda>(w, e, t). w = ws) (ap_subs (mx_data s))
     | Runtime \<Rightarrow> count_where (\<lambda>x. rt_ws x = ws) (db_runtime q)
     | Secrets \<Rightarrow> count_where (\<lambda>v. sr_ws v = ws) (db_secrets q)
     | Endpoints \<Rightarrow> count_where (\<lambda>e. ep_ws e = ws) (db_endpoints q)
     | Scopes \<Rightarrow> count_where (\<lambda>(w, k, sc). w = ws) (ad_scopes a)
     | Keys \<Rightarrow> count_where (\<lambda>k. ak_workspace k = ws) (ad_keys a)
     | Buckets \<Rightarrow> count_where (\<lambda>b. rb_workspace b = Some ws) (mx_buckets s)
     | _ \<Rightarrow> 0)"

definition first_step :: "uuid \<Rightarrow> maintenance_db \<Rightarrow> purge_step" where
  "first_step ws s = (case find (\<lambda>p. rows_left p ws s > 0) purge_order of None \<Rightarrow> Workspace_step | Some p \<Rightarrow> p)"

text \<open>Deleting a key deletes its console sessions (\<open>ON DELETE CASCADE\<close>).\<close>

definition key_in :: "api_key list \<Rightarrow> session_row \<Rightarrow> bool" where
  "key_in ks x \<longleftrightarrow> list_ex (\<lambda>k. ak_workspace k = se_ws x \<and> ak_id k = se_key x) ks"

definition no_key :: "'a \<Rightarrow> nat" where "no_key x = 0"

definition delete_step :: "locks \<Rightarrow> nat \<Rightarrow> uuid \<Rightarrow> purge_step \<Rightarrow> maintenance_db \<Rightarrow> nat \<times> maintenance_db" where
  "delete_step locks n ws p s = (let q = mx_queue s; a = mx_auth s; held = locks p in case p of
       Replay_commands \<Rightarrow> (case delete_batch n rc_id held (\<lambda>c. rc_ws c = ws) (db_replays q) of
           (c, xs) \<Rightarrow> (c, on_mx_queue (\<lambda>q. q\<lparr>db_replays := xs\<rparr>) s))
     | Rotation_commands \<Rightarrow> (case delete_batch n ro_id held (\<lambda>c. ro_ws c = ws) (ap_rotations (mx_data s)) of
           (c, xs) \<Rightarrow> (c, s\<lparr>mx_data := (mx_data s)\<lparr>ap_rotations := xs\<rparr>\<rparr>))
     | Attempts \<Rightarrow> (case delete_batch n at_id held (\<lambda>x. at_ws x = ws) (db_attempts q) of
           (c, xs) \<Rightarrow> (c, on_mx_queue (\<lambda>q. q\<lparr>db_attempts := xs\<rparr>) s))
     | Deliveries \<Rightarrow> (case delete_batch n dr_id held (\<lambda>d. dr_ws d = ws) (db_deliveries q) of
           (c, xs) \<Rightarrow> (c, on_mx_queue (\<lambda>q. q\<lparr>db_deliveries := xs\<rparr>) s))
     | Events \<Rightarrow> (case delete_batch n er_id held (\<lambda>e. er_ws e = ws) (db_events q) of
           (c, xs) \<Rightarrow> (c, on_mx_queue (\<lambda>q. q\<lparr>db_events := xs\<rparr>) s))
     | Subscriptions \<Rightarrow> (case delete_batch n no_key held (\<lambda>(w, e, t). w = ws) (ap_subs (mx_data s)) of
           (c, xs) \<Rightarrow> (c, s\<lparr>mx_data := (mx_data s)\<lparr>ap_subs := xs\<rparr>\<rparr>))
     | Runtime \<Rightarrow> (case delete_batch n no_key held (\<lambda>x. rt_ws x = ws) (db_runtime q) of
           (c, xs) \<Rightarrow> (c, on_mx_queue (\<lambda>q. q\<lparr>db_runtime := xs\<rparr>) s))
     | Secrets \<Rightarrow> (case delete_batch n sr_id held (\<lambda>v. sr_ws v = ws) (db_secrets q) of
           (c, xs) \<Rightarrow> (c, on_mx_queue (\<lambda>q. q\<lparr>db_secrets := xs\<rparr>) s))
     | Endpoints \<Rightarrow> (case delete_batch n ep_id held (\<lambda>e. ep_ws e = ws) (db_endpoints q) of
           (c, xs) \<Rightarrow> (c, on_mx_queue (\<lambda>q. q\<lparr>db_endpoints := xs\<rparr>) s))
     | Scopes \<Rightarrow> (case delete_batch n no_key held (\<lambda>(w, k, sc). w = ws) (ad_scopes a) of
           (c, xs) \<Rightarrow> (c, on_mx_auth (\<lambda>a. a\<lparr>ad_scopes := xs\<rparr>) s))
     | Keys \<Rightarrow> (case delete_batch n ak_id held (\<lambda>k. ak_workspace k = ws) (ad_keys a) of
           (c, xs) \<Rightarrow> (c, s\<lparr>mx_sessions := (mx_sessions s)\<lparr>sb_auth := a\<lparr>ad_keys := xs\<rparr>,
              sb_sessions := filter (\<lambda>x. key_in (ad_keys a) x \<longrightarrow> key_in xs x) (sb_sessions (mx_sessions s))\<rparr>\<rparr>))
     | Buckets \<Rightarrow> (case delete_batch n no_key held (\<lambda>b. rb_workspace b = Some ws) (mx_buckets s) of
           (c, xs) \<Rightarrow> (c, s\<lparr>mx_buckets := xs\<rparr>))
     | Workspace_step \<Rightarrow> (count_where (\<lambda>w. aw_id w = ws) (ad_workspaces a),
           on_mx_auth (\<lambda>a. a\<lparr>ad_workspaces := filter (\<lambda>w. aw_id w \<noteq> ws) (ad_workspaces a)\<rparr>)
             (on_mx_queue (\<lambda>q. q\<lparr>db_workspaces := filter (\<lambda>w. wr_id w \<noteq> ws) (db_workspaces q)\<rparr>) s))
     | Complete \<Rightarrow> (0, s))"

fun after_step :: "purge_step list \<Rightarrow> purge_step \<Rightarrow> purge_step" where
  "after_step (p # p' # ps) x = (if x = p then p' else after_step (p' # ps) x)"
| "after_step [p] x = (if x = p then Workspace_step else Complete)"
| "after_step [] x = Complete"

text \<open>The job of a purge, the first that is due and that nobody holds (\<open>locks Workspace_step\<close>).\<close>

definition due_job :: "locks \<Rightarrow> instant \<Rightarrow> maintenance_db \<Rightarrow> job_row option" where
  "due_job locks st s =
     (case sort_key (\<lambda>(i, j). (jb_scheduled j, jb_id j))
             (filter (\<lambda>(i, j). job_ready st j \<and> jb_scheduled j \<le> st \<and> \<not> locks Workspace_step i) (enumerate 0 (mx_jobs s))) of
        [] \<Rightarrow> None
      | (i, j) # js \<Rightarrow> Some j)"

definition finish_job :: "instant \<Rightarrow> nat \<Rightarrow> purge_step \<Rightarrow> job_row \<Rightarrow> job_row" where
  "finish_job st affected p j =
     (if p = Complete
      then j\<lparr>jb_status := Job_completed, jb_checkpoint := Complete, jb_lease := None, jb_token := jb_token j + 1,
             jb_attempts := jb_attempts j + 1, jb_processed := jb_processed j + int affected\<rparr>
      else j\<lparr>jb_status := Job_pending, jb_checkpoint := p, jb_scheduled := st, jb_lease := None, jb_token := jb_token j + 1,
             jb_attempts := jb_attempts j + 1, jb_processed := jb_processed j + int affected\<rparr>)"

definition complete_purge :: "uuid \<Rightarrow> uuid \<Rightarrow> instant \<Rightarrow> maintenance_db \<Rightarrow> maintenance_db" where
  "complete_purge ws audit st s =
     on_mx_auth (\<lambda>a. a\<lparr>ad_audits := ad_audits a @ [\<lparr>ae_id = audit, ae_workspace = ws, ae_action = ''workspace.purge'',
         ae_resource = ws, ae_outcome = ''completed''\<rparr>]\<rparr>)
       (s\<lparr>mx_tombstones := update_where (\<lambda>t. tb_ws t = ws) (\<lambda>t. t\<lparr>tb_completed := Some st\<rparr>) (mx_tombstones s)\<rparr>)"

definition purge_workspace ::
    "locks \<Rightarrow> int \<Rightarrow> uuid \<Rightarrow> instant \<Rightarrow> maintenance_db \<Rightarrow> string + ((uuid \<times> nat \<times> bool \<times> purge_step) option \<times> maintenance_db)"
where
  "purge_workspace locks batch audit st s =
     (if batch < 1 \<or> batch > 1000 then Inl ''invalid workspace purge batch''
      else case due_job locks st s of
        None \<Rightarrow> Inr (None, s)
      | Some job \<Rightarrow>
          let ws = jb_ws job; p = first_step ws s;
              (affected, s1) = delete_step locks (nat batch) ws p s;
              p' = (if p = Workspace_step then Complete else if rows_left p ws s1 = 0 then after_step purge_order p else p);
              s2 = (if p' = Complete then complete_purge ws audit st s1 else s1)
          in Inr (Some (ws, affected, p' = Complete, p'),
               s2\<lparr>mx_jobs := update_where (\<lambda>j. jb_id j = jb_id job) (finish_job st affected p') (mx_jobs s2)\<rparr>))"

section \<open>Restoring from a backup\<close>

text \<open>\<open>mx_generation\<close> is the generation of \<open>restore_control\<close>, whose state is ready when \<open>sb_ready\<close> is set.\<close>

definition enter_restore_quarantine ::
    "int \<Rightarrow> uuid \<Rightarrow> instant \<Rightarrow> maintenance_db \<Rightarrow> string + (bool \<times> maintenance_db)" where
  "enter_restore_quarantine generation audit st s =
     (if generation \<le> 0 then Inl ''invalid restore generation''
      else if mx_generation s = generation \<and> sb_ready (mx_sessions s) = None then Inr (False, s)
      else if generation \<le> mx_generation s then Inl ''stale restore generation''
      else
        let a = mx_auth s;
            a' = a\<lparr>ad_keys := update_where (\<lambda>k. ak_status k = ''active'')
                      (\<lambda>k. k\<lparr>ak_status := ''revoked'', ak_revoked := Some (case ak_revoked k of None \<Rightarrow> st | Some t \<Rightarrow> t)\<rparr>) (ad_keys a),
                   ad_workspaces := update_where (\<lambda>w. aw_status w \<noteq> ''suspended'') (\<lambda>w. w\<lparr>aw_status := ''suspended''\<rparr>)
                      (ad_workspaces a),
                   ad_audits := ad_audits a @ [\<lparr>ae_id = audit, ae_workspace = 0, ae_action = ''restore.quarantine'',
                      ae_resource = 0, ae_outcome = ''completed''\<rparr>]\<rparr>
        in Inr (True, (on_mx_queue (quarantine_queue st) s)\<lparr>
             mx_sessions := (mx_sessions s)\<lparr>sb_auth := a', sb_ready := None\<rparr>, mx_generation := generation\<rparr>))"

definition complete_restore_reconciliation ::
    "int \<Rightarrow> uuid \<Rightarrow> maintenance_db \<Rightarrow> string + (bool \<times> maintenance_db)" where
  "complete_restore_reconciliation generation audit s =
     (if generation \<le> 0 then Inl ''invalid restore generation''
      else if \<not> (sb_ready (mx_sessions s) = None \<and> mx_generation s = generation) then Inl ''restore generation is not quarantined''
      else if list_ex (\<lambda>k. ak_status k = ''active'') (ad_keys (mx_auth s))
              \<or> list_ex ep_active (db_endpoints (mx_queue s))
              \<or> list_ex (\<lambda>w. aw_status w = ''active'') (ad_workspaces (mx_auth s))
              \<or> list_ex (\<lambda>d. dr_status d = Processing) (db_deliveries (mx_queue s))
      then Inl ''restore reconciliation is unsafe''
      else Inr (True, s\<lparr>mx_sessions := (mx_sessions s)\<lparr>sb_ready := Some generation,
             sb_auth := (mx_auth s)\<lparr>ad_audits := ad_audits (mx_auth s) @ [\<lparr>ae_id = audit, ae_workspace = 0,
               ae_action = ''restore.reconcile'', ae_resource = 0, ae_outcome = ''completed''\<rparr>]\<rparr>\<rparr>\<rparr>))"

section \<open>Batches\<close>

lemma set_batch_positions:
  "i \<in> set (batch_positions n key held P xs) \<Longrightarrow> i < length xs \<and> P (xs ! i) \<and> \<not> held i"
  unfolding batch_positions_def
  by (auto dest!: in_set_takeD simp: in_set_enumerate_eq)

lemma distinct_batch_positions: "distinct (batch_positions n key held P xs)"
proof -
  let ?ps = "sort_key (\<lambda>(i, x). key x) (filter (\<lambda>(i, x). P x \<and> \<not> held i) (enumerate 0 xs))"
  have "distinct ?ps" by (simp add: distinct_enumerate)
  moreover have "inj_on fst (set ?ps)" by (auto simp: inj_on_def in_set_enumerate_eq)
  ultimately have "distinct (map fst ?ps)" by (simp add: distinct_map)
  then show ?thesis unfolding batch_positions_def take_map [symmetric] by (rule distinct_take)
qed

lemma length_batch_positions:
  "length (batch_positions n key held P xs) = min n (length (filter (\<lambda>(i, x). P x \<and> \<not> held i) (enumerate 0 xs)))"
  by (simp add: batch_positions_def)

lemma length_filter_positions:
  "distinct is \<Longrightarrow> \<forall>i\<in>set is. i < length xs \<Longrightarrow>
     length (filter (\<lambda>(i, x). i \<notin> set is) (enumerate 0 xs)) + length is = length xs"
proof -
  assume d: "distinct is" and lt: "\<forall>i\<in>set is. i < length xs"
  have "filter (\<lambda>(i, x). i \<in> set is) (enumerate 0 xs) = filter ((\<lambda>i. i \<in> set is) \<circ> fst) (enumerate 0 xs)"
    by (rule filter_cong) auto
  then have "map fst (filter (\<lambda>(i, x). i \<in> set is) (enumerate 0 xs)) = filter (\<lambda>i. i \<in> set is) [0..<length xs]"
    by (simp add: filter_map [symmetric])
  moreover have "set (filter (\<lambda>i. i \<in> set is) [0..<length xs]) = set is" using lt by auto
  then have "length (filter (\<lambda>i. i \<in> set is) [0..<length xs]) = length is"
    by (metis d distinct_card distinct_filter distinct_upt)
  ultimately have "length (filter (\<lambda>(i, x). i \<in> set is) (enumerate 0 xs)) = length is" by (metis length_map)
  moreover have "length (filter (\<lambda>(i, x). i \<notin> set is) (enumerate 0 xs)) + length (filter (\<lambda>(i, x). i \<in> set is) (enumerate 0 xs)) = length xs"
    using sum_length_filter_compl [of "\<lambda>(i, x). i \<in> set is" "enumerate 0 xs"] by (simp add: case_prod_unfold)
  ultimately show ?thesis by simp
qed

lemma delete_batch_length:
  assumes "delete_batch n key held P xs = (c, ys)"
  shows "length ys + c = length xs"
proof -
  let ?is = "batch_positions n key held P xs"
  have "length (filter (\<lambda>(i, x). i \<notin> set ?is) (enumerate 0 xs)) + length ?is = length xs"
    by (rule length_filter_positions [OF distinct_batch_positions]) (auto dest: set_batch_positions)
  then show ?thesis using assms by (auto simp: delete_batch_def Let_def)
qed

lemma delete_batch_subset: "delete_batch n key held P xs = (c, ys) \<Longrightarrow> set ys \<subseteq> set xs"
  by (auto simp: delete_batch_def Let_def in_set_enumerate_eq)

lemma delete_batch_subseq: "delete_batch n key held P xs = (c, ys) \<Longrightarrow> subseq ys xs"
  using subseq_map [OF subseq_filter_left, of snd "\<lambda>(i, x). i \<notin> set (batch_positions n key held P xs)" "enumerate 0 xs"]
  by (auto simp: delete_batch_def Let_def)

lemma delete_batch_count: "delete_batch n key held P xs = (c, ys) \<Longrightarrow> count_where Q ys \<le> count_where Q xs"
  unfolding count_where_def by (rule list_emb_length [OF subseq_filter [OF delete_batch_subseq]])

text \<open>Rows that do not qualify are kept, in their order.\<close>

lemma delete_batch_kept:
  assumes "delete_batch n key held P xs = (c, ys)" and "\<And>x. Q x \<Longrightarrow> \<not> P x"
  shows "filter Q ys = filter Q xs"
proof -
  let ?is = "batch_positions n key held P xs"
  have "filter Q ys = map snd (filter (\<lambda>(i, x). i \<notin> set ?is \<and> Q x) (enumerate 0 xs))"
    using assms(1) by (auto simp: delete_batch_def Let_def filter_map o_def case_prod_unfold)
  also have "filter (\<lambda>(i, x). i \<notin> set ?is \<and> Q x) (enumerate 0 xs) = filter (\<lambda>(i, x). Q x) (enumerate 0 xs)"
    by (rule filter_cong) (use assms(2) in \<open>auto simp: in_set_enumerate_eq dest: set_batch_positions\<close>)
  also have "map snd (filter (\<lambda>(i, x). Q x) (enumerate 0 xs)) = filter Q (map snd (enumerate 0 xs))"
    using filter_map [of Q snd "enumerate 0 xs"] by (simp add: o_def case_prod_unfold)
  finally show ?thesis by simp
qed

lemma delete_batch_none:
  assumes "delete_batch n key held P xs = (0, ys)"
  shows "ys = xs"
proof -
  have "filter (\<lambda>x. True) ys = filter (\<lambda>x. True) xs"
    using assms by (auto simp: delete_batch_def Let_def)
  then show ?thesis by simp
qed

lemma delete_batch_exhausted:
  assumes "delete_batch n key held P xs = (0, ys)" and "0 < n" and "\<forall>i. \<not> held i"
  shows "\<forall>x\<in>set xs. \<not> P x"
proof
  fix x assume "x \<in> set xs"
  then obtain i where "i < length xs" "x = xs ! i" by (auto simp: in_set_conv_nth)
  then have "(i, x) \<in> set (enumerate 0 xs)" by (simp add: in_set_enumerate_eq)
  moreover have "filter (\<lambda>(i, x). P x \<and> \<not> held i) (enumerate 0 xs) = []"
    using assms(1,2) length_batch_positions [of n key held P xs] by (auto simp: delete_batch_def Let_def min_def split: if_splits)
  ultimately show "\<not> P x" using assms(3) by (auto simp: filter_empty_conv)
qed

lemma delete_batch_progress:
  assumes "delete_batch n key held P xs = (c, ys)" and "0 < n" and "\<forall>i. \<not> held i" and "x \<in> set xs" "P x"
  shows "0 < c"
  using delete_batch_exhausted [of n key held P xs ys] assms by (cases c) auto

end
