(* ===== verification/Retention.thy ===== *)
theory Retention
  imports Retention_Db
begin

text \<open>
  \<open>internal/retention\<close>: the store of \<open>postgres.go\<close> over the maintenance functions and the runner of \<open>retention.go\<close>.
  The numbers of a pass count from 0; what the outside decides in a pass (transaction times, rows held by others, which
  statement fails and whether the server had committed it) is its \<open>pass_env\<close>.
\<close>

section \<open>Counts\<close>

record counts =
  ct_payloads :: int
  ct_secrets :: int
  ct_attempts :: int
  ct_replays :: int
  ct_rotations :: int
  ct_deliveries :: int
  ct_events :: int
  ct_audits :: int
  ct_buckets :: int
  ct_sessions :: int
  ct_rows :: int
  ct_steps :: int

definition no_counts :: counts where
  "no_counts = \<lparr>ct_payloads = 0, ct_secrets = 0, ct_attempts = 0, ct_replays = 0, ct_rotations = 0, ct_deliveries = 0,
     ct_events = 0, ct_audits = 0, ct_buckets = 0, ct_sessions = 0, ct_rows = 0, ct_steps = 0\<rparr>"

definition progress :: "counts \<Rightarrow> int" where
  "progress c = ct_payloads c + ct_secrets c + ct_attempts c + ct_replays c + ct_rotations c
     + ct_deliveries c + ct_events c + ct_audits c + ct_buckets c + ct_sessions c + ct_rows c + ct_steps c"

definition add_counts :: "counts \<Rightarrow> counts \<Rightarrow> counts" where
  "add_counts c d = \<lparr>ct_payloads = ct_payloads c + ct_payloads d, ct_secrets = ct_secrets c + ct_secrets d,
     ct_attempts = ct_attempts c + ct_attempts d, ct_replays = ct_replays c + ct_replays d,
     ct_rotations = ct_rotations c + ct_rotations d, ct_deliveries = ct_deliveries c + ct_deliveries d,
     ct_events = ct_events c + ct_events d, ct_audits = ct_audits c + ct_audits d,
     ct_buckets = ct_buckets c + ct_buckets d, ct_sessions = ct_sessions c + ct_sessions d,
     ct_rows = ct_rows c + ct_rows d, ct_steps = ct_steps c + ct_steps d\<rparr>"

record backlog =
  bl_total :: int
  bl_oldest :: "instant option"

record report =
  rp_counts :: counts
  rp_backlog :: int
  rp_oldest_age :: duration
  rp_duration :: duration
  rp_batches :: int
  rp_last_ok :: "instant option"
  rp_degraded :: bool

section \<open>The store\<close>

text \<open>What happens to a statement: it succeeds, or the client sees an error and the server had or had not committed.\<close>

datatype outcome = Ok | Broken bool

definition statement :: "outcome \<Rightarrow> ('s \<Rightarrow> string + ('a \<times> 's)) \<Rightarrow> 's \<Rightarrow> (string + 'a) \<times> 's" where
  "statement out f s = (case f s of
       Inl e \<Rightarrow> (Inl e, s)
     | Inr (a, s') \<Rightarrow> (case out of Ok \<Rightarrow> (Inr a, s') | Broken committed \<Rightarrow> (Inl ''connection'', if committed then s' else s)))"

record pass_env =
  pe_payloads :: "outcome \<times> instant"
  pe_secrets :: "outcome \<times> instant"
  pe_sessions :: "outcome \<times> instant"
  pe_metadata :: "outcome \<times> instant"
  pe_workspace :: "outcome \<times> instant"
  pe_backlog :: "outcome \<times> instant"
  pe_clock :: instant
  pe_held :: "uuid \<Rightarrow> bool"
  pe_locks :: locks
  pe_ids :: "nat \<Rightarrow> nat \<Rightarrow> uuid"

definition on_data :: "(db \<Rightarrow> string + ('a \<times> db)) \<Rightarrow> maintenance_db \<Rightarrow> string + ('a \<times> maintenance_db)" where
  "on_data f s = (case f (mx_queue s) of Inl e \<Rightarrow> Inl e | Inr (a, q) \<Rightarrow> Inr (a, on_mx_queue (\<lambda>_. q) s))"

definition on_sessions ::
    "(session_db \<Rightarrow> string + ('a \<times> session_db)) \<Rightarrow> maintenance_db \<Rightarrow> string + ('a \<times> maintenance_db)" where
  "on_sessions f s = (case f (mx_sessions s) of Inl e \<Rightarrow> Inl e | Inr (a, x) \<Rightarrow> Inr (a, s\<lparr>mx_sessions := x\<rparr>))"

text \<open>
  The purges of payloads and of secrets also write an audit event for each row they cleared: the rows that had the column
  before and have it no longer. \<open>ids\<close> draws the identifiers.
\<close>

definition cleared :: "('a \<Rightarrow> bool) \<Rightarrow> ('a \<Rightarrow> uuid \<times> uuid) \<Rightarrow> 'a list \<Rightarrow> 'a list \<Rightarrow> (uuid \<times> uuid) list" where
  "cleared P key xs ys = map (\<lambda>(x, y). key x) (filter (\<lambda>(x, y). P x \<and> \<not> P y) (zip xs ys))"

definition audited :: "(nat \<Rightarrow> uuid) \<Rightarrow> string \<Rightarrow> (uuid \<times> uuid) list \<Rightarrow> maintenance_db \<Rightarrow> maintenance_db" where
  "audited ids action rows = on_mx_auth (\<lambda>a. a\<lparr>ad_audits := ad_audits a @
     map (\<lambda>(i, ws, row). \<lparr>ae_id = ids i, ae_workspace = ws, ae_action = action, ae_resource = row, ae_outcome = ''completed''\<rparr>)
       (enumerate 0 rows)\<rparr>)"

definition purge_payloads ::
    "(nat \<Rightarrow> uuid) \<Rightarrow> int \<Rightarrow> instant \<Rightarrow> (uuid \<Rightarrow> bool) \<Rightarrow> maintenance_db \<Rightarrow> string + (nat \<times> maintenance_db)" where
  "purge_payloads ids batch st held s = (case on_data (purge_expired_payloads batch st held) s of
       Inl e \<Rightarrow> Inl e
     | Inr (n, s') \<Rightarrow> Inr (n, audited ids ''payload.purge'' (cleared (\<lambda>e. er_payload e \<noteq> None) (\<lambda>e. (er_ws e, er_id e))
         (db_events (mx_queue s)) (db_events (mx_queue s'))) s'))"

definition purge_secrets ::
    "(nat \<Rightarrow> uuid) \<Rightarrow> int \<Rightarrow> instant \<Rightarrow> (uuid \<Rightarrow> bool) \<Rightarrow> maintenance_db \<Rightarrow> string + (nat \<times> maintenance_db)" where
  "purge_secrets ids batch st held s = (case on_data (purge_retired_secrets batch st held) s of
       Inl e \<Rightarrow> Inl e
     | Inr (n, s') \<Rightarrow> Inr (n, audited ids ''secret.purge'' (cleared (\<lambda>v. sr_state v = Secret_retiring) (\<lambda>v. (sr_ws v, sr_id v))
         (db_secrets (mx_queue s)) (db_secrets (mx_queue s'))) s'))"

text \<open>\<open>PostgresStore.Purge\<close>: five statements, each a transaction of its own; after an error the counts are all zero.\<close>

definition store_purge ::
    "retention_times \<Rightarrow> pass_env \<Rightarrow> int \<Rightarrow> maintenance_db \<Rightarrow> (counts \<times> string option) \<times> maintenance_db" where
  "store_purge T e batch s =
     (case statement (fst (pe_payloads e)) (purge_payloads (pe_ids e 0) batch (snd (pe_payloads e)) (pe_held e)) s of
        (Inl err, s1) \<Rightarrow> ((no_counts, Some err), s1)
      | (Inr payloads, s1) \<Rightarrow>
      (case statement (fst (pe_secrets e)) (purge_secrets (pe_ids e 1) batch (snd (pe_secrets e)) (pe_held e)) s1 of
        (Inl err, s2) \<Rightarrow> ((no_counts, Some err), s2)
      | (Inr secrets, s2) \<Rightarrow>
      (case statement (fst (pe_sessions e))
              (on_sessions (purge_console_sessions batch (snd (pe_sessions e)) (pe_clock e) (pe_held e))) s2 of
        (Inl err, s3) \<Rightarrow> ((no_counts, Some err), s3)
      | (Inr sessions, s3) \<Rightarrow>
      (case statement (fst (pe_metadata e)) (purge_expired_metadata T (pe_locks e) batch (snd (pe_metadata e))) s3 of
        (Inl err, s4) \<Rightarrow> ((no_counts, Some err), s4)
      | (Inr m, s4) \<Rightarrow>
      (case statement (fst (pe_workspace e)) (purge_workspace (pe_locks e) batch (pe_ids e 2 0) (snd (pe_workspace e))) s4 of
        (Inl err, s5) \<Rightarrow> ((no_counts, Some err), s5)
      | (Inr w, s5) \<Rightarrow>
          ((\<lparr>ct_payloads = int payloads, ct_secrets = int secrets, ct_attempts = int (mc_attempts m),
             ct_replays = int (mc_replays m), ct_rotations = int (mc_rotations m), ct_deliveries = int (mc_deliveries m),
             ct_events = int (mc_events m), ct_audits = int (mc_audits m), ct_buckets = int (mc_buckets m),
             ct_sessions = int sessions,
             ct_rows = (case w of None \<Rightarrow> 0 | Some (ws, affected, completed, checkpoint) \<Rightarrow> int affected),
             ct_steps = (if w = None then 0 else 1)\<rparr>, None), s5))))))"

text \<open>\<open>PostgresStore.Backlog\<close>: the count and the minimum of what is due.\<close>

definition store_backlog :: "retention_times \<Rightarrow> pass_env \<Rightarrow> maintenance_db \<Rightarrow> string + backlog" where
  "store_backlog T e s = (case pe_backlog e of
       (Broken _, st) \<Rightarrow> Inl ''connection''
     | (Ok, st) \<Rightarrow> (let due = retention_backlog T st s
         in Inr \<lparr>bl_total = int (length due), bl_oldest = (if due = [] then None else Some (Min (set due)))\<rparr>))"

section \<open>The runner\<close>

text \<open>
  \<open>RunOnce\<close> over the two methods of the interface \<open>Store\<close>: \<open>purge k\<close> and \<open>backlog k\<close> are the calls of pass \<open>k\<close>,
  \<open>now k\<close> the clock after them. The fuel bounds the passes; \<open>None\<close> when it runs out.
\<close>

fun run_loop ::
    "nat \<Rightarrow> (nat \<Rightarrow> 's \<Rightarrow> (counts \<times> string option) \<times> 's) \<Rightarrow> (nat \<Rightarrow> 's \<Rightarrow> string + backlog) \<Rightarrow> (nat \<Rightarrow> instant)
       \<Rightarrow> nat \<Rightarrow> report \<Rightarrow> 's \<Rightarrow> (report \<times> string option \<times> 's) option" where
  "run_loop 0 purge backlog now k r s = None"
| "run_loop (Suc fuel) purge backlog now k r s =
     (let ((batch, err), s') = purge k s;
          r1 = r\<lparr>rp_batches := rp_batches r + 1, rp_counts := add_counts (rp_counts r) batch\<rparr>
      in case err of
           Some e \<Rightarrow> Some (r1, Some e, s')
         | None \<Rightarrow>
             if progress batch > 0 then run_loop fuel purge backlog now (k + 1) r1 s'
             else case backlog k s' of
               Inl e \<Rightarrow> Some (r1, Some e, s')
             | Inr b \<Rightarrow>
                 let age = (if bl_total b > 0 then case bl_oldest b of None \<Rightarrow> 0 | Some t \<Rightarrow> max (now k - t) 0 else 0);
                     r2 = r1\<lparr>rp_backlog := bl_total b, rp_oldest_age := age\<rparr>
                 in if bl_total b = 0 then Some (r2\<lparr>rp_last_ok := Some (now k)\<rparr>, None, s')
                    else Some (r2, Some ''retention: maintenance degraded'', s'))"

definition empty_report :: report where
  "empty_report = \<lparr>rp_counts = no_counts, rp_backlog = 0, rp_oldest_age = 0, rp_duration = 0, rp_batches = 0,
     rp_last_ok = None, rp_degraded = False\<rparr>"

record retention_runner =
  rn_interval :: duration
  rn_report :: report
  rn_last_err :: "string option"

definition new_runner :: "duration \<Rightarrow> retention_runner" where
  "new_runner interval = \<lparr>rn_interval = (if interval \<le> 0 then hour else interval), rn_report = empty_report, rn_last_err = None\<rparr>"

definition run_once ::
    "nat \<Rightarrow> (nat \<Rightarrow> 's \<Rightarrow> (counts \<times> string option) \<times> 's) \<Rightarrow> (nat \<Rightarrow> 's \<Rightarrow> string + backlog) \<Rightarrow> (nat \<Rightarrow> instant)
       \<Rightarrow> instant \<Rightarrow> instant \<Rightarrow> retention_runner \<Rightarrow> 's \<Rightarrow> (report \<times> retention_runner \<times> 's) option" where
  "run_once fuel purge backlog now started ended rn s =
     (case run_loop fuel purge backlog now 0 empty_report s of
        None \<Rightarrow> None
      | Some (r, err, s') \<Rightarrow>
          let r' = r\<lparr>rp_duration := ended - started, rp_degraded := err \<noteq> None\<rparr>
          in Some (r', rn\<lparr>rn_report := r', rn_last_err := err\<rparr>, s'))"

text \<open>\<open>Ready\<close>; the zero time of a report without a success is the value \<open>None\<close>.\<close>

definition runner_ready :: "instant \<Rightarrow> retention_runner \<Rightarrow> string option" where
  "runner_ready now rn =
     (case rn_last_err rn of
        Some e \<Rightarrow> Some ''retention: maintenance degraded''
      | None \<Rightarrow> (case rp_last_ok (rn_report rn) of
          None \<Rightarrow> Some ''retention: maintenance degraded''
        | Some t \<Rightarrow> if now - t > 25 * hour then Some ''retention: maintenance degraded'' else None))"

text \<open>\<open>Run\<close>: a run, then one for each tick until the context is done. A run is what it makes of runner and tables.\<close>

fun run_ticks :: "('r \<Rightarrow> 'r option) list \<Rightarrow> 'r \<Rightarrow> 'r option" where
  "run_ticks [] x = Some x"
| "run_ticks (f # fs) x = (case f x of None \<Rightarrow> None | Some y \<Rightarrow> run_ticks fs y)"

definition run_runner :: "('r \<Rightarrow> 'r option) \<Rightarrow> ('r \<Rightarrow> 'r option) list \<Rightarrow> 'r \<Rightarrow> 'r option" where
  "run_runner first ticks x = run_ticks (first # ticks) x"

section \<open>The contract of the store\<close>

text \<open>
  What the runner needs of a store: its passes keep an invariant, a pass with progress makes the tables smaller, a steady pass
  and its backlog query succeed, and a steady pass without progress leaves the tables clean.
\<close>

locale maintenance_store =
  fixes purge :: "nat \<Rightarrow> 's \<Rightarrow> (counts \<times> string option) \<times> 's"
    and backlog :: "nat \<Rightarrow> 's \<Rightarrow> string + backlog"
    and inv :: "nat \<Rightarrow> 's \<Rightarrow> bool"
    and weight :: "'s \<Rightarrow> nat"
    and steady :: "nat \<Rightarrow> bool"
    and clean :: "nat \<Rightarrow> 's \<Rightarrow> bool"
  assumes purge_inv: "inv k s \<Longrightarrow> purge k s = ((c, err), s') \<Longrightarrow> inv (Suc k) s'"
    and purge_progress: "inv k s \<Longrightarrow> purge k s = ((c, None), s') \<Longrightarrow> 0 < progress c \<Longrightarrow> weight s' < weight s"
    and purge_done: "inv k s \<Longrightarrow> steady k \<Longrightarrow> purge k s = ((c, err), s') \<Longrightarrow> \<not> 0 < progress c \<Longrightarrow> clean k s'"
    and backlog_steady: "steady k \<Longrightarrow> \<exists>b. backlog k s = Inr b"
    and purge_steady: "inv k s \<Longrightarrow> steady k \<Longrightarrow> purge k s = ((c, err), s') \<Longrightarrow> err = None"
begin

text \<open>A run ends, after at most as many passes as the weight and one more.\<close>

lemma run_ends:
  assumes "inv k s" and "weight s < fuel"
  shows "\<exists>r' err s'. run_loop fuel purge backlog now k r s = Some (r', err, s') 
           \<and> rp_batches r' \<le> rp_batches r + int (weight s) + 1"
  using assms
proof (induction fuel arbitrary: k r s)
  case 0
  then show ?case by simp
next
  case (Suc fuel)
  obtain c err s1 where p: "purge k s = ((c, err), s1)" by (metis prod.exhaust)
  have i: "inv (k + 1) s1" using purge_inv [OF Suc.prems(1) p] by simp
  let ?r = "r\<lparr>rp_batches := rp_batches r + 1, rp_counts := add_counts (rp_counts r) c\<rparr>"
  show ?case
  proof (cases "err = None \<and> 0 < progress c")
    case True
    then have w: "weight s1 < weight s" using purge_progress [OF Suc.prems(1)] p by blast
    then obtain r' e s' where "run_loop fuel purge backlog now (k + 1) ?r s1 = Some (r', e, s')"
        "rp_batches r' \<le> rp_batches ?r + int (weight s1) + 1"
      using Suc.IH [OF i, of ?r] Suc.prems(2) by auto
    then show ?thesis using True p w by simp
  next
    case False
    then show ?thesis using p i
      by (cases err; cases "backlog k s1") (auto simp: Let_def)
  qed
qed

text \<open>When every pass is steady the run ends with clean tables, and without an error when the backlog query found nothing.\<close>

lemma run_drains:
  assumes "inv k s" and "weight s < fuel" and "\<And>k. steady k"
  shows "\<exists>r' err s' k' b. run_loop fuel purge backlog now k r s = Some (r', err, s')
           \<and> rp_batches r' = rp_batches r + int k' - int k + 1 \<and> rp_batches r' \<le> rp_batches r + int (weight s) + 1
           \<and> clean k' s' \<and> backlog k' s' = Inr b \<and> rp_backlog r' = bl_total b
           \<and> (if bl_total b = 0 then err = None \<and> rp_last_ok r' = Some (now k') else err = Some ''retention: maintenance degraded'')"
  using assms(1,2)
proof (induction fuel arbitrary: k r s)
  case 0
  then show ?case by simp
next
  case (Suc fuel)
  obtain c err s1 where p: "purge k s = ((c, err), s1)" by (metis prod.exhaust)
  have i: "inv (k + 1) s1" using purge_inv [OF Suc.prems(1) p] by simp
  have e: "err = None" using purge_steady [OF Suc.prems(1) assms(3) p] .
  let ?r = "r\<lparr>rp_batches := rp_batches r + 1, rp_counts := add_counts (rp_counts r) c\<rparr>"
  show ?case
  proof (cases "0 < progress c")
    case True
    then have w: "weight s1 < weight s" using purge_progress [OF Suc.prems(1)] p e by blast
    then obtain r' err' s' k' b where "run_loop fuel purge backlog now (k + 1) ?r s1 = Some (r', err', s')"
        "rp_batches r' = rp_batches ?r + int k' - int (k + 1) + 1" "rp_batches r' \<le> rp_batches ?r + int (weight s1) + 1"
        "clean k' s'" "backlog k' s' = Inr b" "rp_backlog r' = bl_total b"
        "if bl_total b = 0 then err' = None \<and> rp_last_ok r' = Some (now k') else err' = Some ''retention: maintenance degraded''"
      using Suc.IH [OF i, of ?r] Suc.prems(2) by auto
    then show ?thesis using True p e w
      by (intro exI [of _ r'] exI [of _ err'] exI [of _ s'] exI [of _ k'] exI [of _ b]) simp
  next
    case False
    obtain b where "backlog k s1 = Inr b" using backlog_steady [OF assms(3)] by blast
    moreover have "clean k s1" using purge_done [OF Suc.prems(1) assms(3) p False] .
    ultimately show ?thesis using p e False by (auto simp: Let_def)
  qed
qed

end

end
