(* ===== verification/Retention_Drain.thy ===== *)
theory Retention_Drain
  imports Retention
begin

text \<open>
  The store keeps the contract of the runner: a weight of the tables that every pass with progress lowers, and what a pass
  without progress says of the tables; hence a run ends and leaves nothing due.
\<close>

section \<open>Maintenance makes the tables smaller\<close>

definition maintenance_weight :: "maintenance_db \<Rightarrow> nat" where
  "maintenance_weight s =
     (let q = mx_queue s; a = mx_auth s; x = sb_sessions (mx_sessions s)
      in 2 * count_where (\<lambda>e. er_payload e \<noteq> None) (db_events q) + length (db_events q)
         + 2 * count_where (\<lambda>v. sr_state v = Secret_retiring) (db_secrets q) + length (db_secrets q)
         + length (db_attempts q) + length (db_replays q) + length (ap_rotations (mx_data s)) + length (db_deliveries q)
         + length (ap_subs (mx_data s)) + length (db_runtime q) + length (db_endpoints q) + length (ad_scopes a)
         + length (ad_keys a) + length (ad_audits a) + length (mx_buckets s)
         + count_where (\<lambda>x. se_revoked x = None) x + length x
         + 2 * count_where (\<lambda>j. jb_status j \<noteq> Job_completed) (mx_jobs s))"

definition shrinks :: "nat \<Rightarrow> maintenance_db \<Rightarrow> maintenance_db \<Rightarrow> bool" where
  "shrinks n s s' \<longleftrightarrow> maintenance_weight s' \<le> maintenance_weight s
     \<and> (0 < n \<longrightarrow> maintenance_weight s' < maintenance_weight s)"

lemma shrinks_trans: "shrinks m s s1 \<Longrightarrow> shrinks n s1 s2 \<Longrightarrow> shrinks (m + n) s s2"
  by (auto simp: shrinks_def)

lemma count_where_lt:
  assumes "\<And>x. Q (f x) \<Longrightarrow> Q x" and "x \<in> set xs" "P x" "Q x" "\<not> Q (f x)"
  shows "count_where Q (update_where P f xs) < count_where Q xs"
  using assms(2)
proof (induction xs)
  case Nil
  then show ?case by simp
next
  case (Cons y ys)
  have le: "count_where Q (update_where P f ys) \<le> count_where Q ys" by (rule count_where_update_le) (rule assms(1))
  show ?case
  proof (cases "y = x")
    case True
    then show ?thesis using le assms by (simp add: count_where_def)
  next
    case False
    then show ?thesis using Cons assms(1) [of y] by (auto simp: count_where_def)
  qed
qed

lemma length_pos_Cons: "0 < length xs \<Longrightarrow> \<exists>y ys. xs = y # ys"
  by (cases xs) auto

lemma taken: "x \<in> set (take n (sort_key k (filter P xs))) \<Longrightarrow> x \<in> set xs \<and> P x"
  by (auto dest!: in_set_takeD)

lemma list_ex_self: "x \<in> set xs \<Longrightarrow> list_ex (\<lambda>y. f y = f x) xs"
  by (auto simp: list_ex_iff)

lemma list_ex_self2: "x \<in> set xs \<Longrightarrow> list_ex (\<lambda>y. f y = f x \<and> g y = g x) xs"
  by (auto simp: list_ex_iff)

lemma update_where_nobody: "(\<And>x. \<not> P x) \<Longrightarrow> update_where P f xs = xs"
  by (simp add: update_where_none)

lemma audited_simps [simp]:
  "mx_data (audited ids a rows s) = mx_data s" "mx_jobs (audited ids a rows s) = mx_jobs s"
  "maintenance_weight (audited ids a rows s) = maintenance_weight s + length rows"
  by (simp_all add: audited_def on_mx_auth_def maintenance_weight_def Let_def)

lemma audited_none [simp]: "audited ids a [] s = s"
  by (simp add: audited_def on_mx_auth_def)

lemma cleared_same [simp]: "cleared P key xs xs = []"
  by (induction xs) (auto simp: cleared_def)

lemma cleared_count:
  "(\<And>x. P (f x) \<Longrightarrow> P x) \<Longrightarrow>
     count_where P (update_where R f xs) + length (cleared P key xs (update_where R f xs)) = count_where P xs"
  by (induction xs) (auto simp: cleared_def count_where_def)

lemma purge_payloads_queue:
  assumes "purge_payloads ids b st lk s = Inr (n, s')"
  obtains q where "purge_expired_payloads b st lk (mx_queue s) = Inr (n, q)"
    "s' = audited ids ''payload.purge'' (cleared (\<lambda>e. er_payload e \<noteq> None) (\<lambda>e. (er_ws e, er_id e))
        (db_events (mx_queue s)) (db_events q)) (on_mx_queue (\<lambda>_. q) s)"
  using assms by (auto simp: purge_payloads_def on_data_def on_mx_queue_def split: sum.splits prod.splits)

lemma purge_secrets_queue:
  assumes "purge_secrets ids b st lk s = Inr (n, s')"
  obtains q where "purge_retired_secrets b st lk (mx_queue s) = Inr (n, q)"
    "s' = audited ids ''secret.purge'' (cleared (\<lambda>v. sr_state v = Secret_retiring) (\<lambda>v. (sr_ws v, sr_id v))
        (db_secrets (mx_queue s)) (db_secrets q)) (on_mx_queue (\<lambda>_. q) s)"
  using assms by (auto simp: purge_secrets_def on_data_def on_mx_queue_def split: sum.splits prod.splits)

lemma payloads_shrink:
  assumes "purge_payloads ids b st lk s = Inr (n, s')"
  shows "shrinks n s s'"
proof -
  let ?c = "\<lambda>q. cleared (\<lambda>e. er_payload e \<noteq> None) (\<lambda>e. (er_ws e, er_id e)) (db_events (mx_queue s)) (db_events q)"
  obtain q where q: "purge_expired_payloads b st lk (mx_queue s) = Inr (n, q)"
      "s' = audited ids ''payload.purge'' (?c q) (on_mx_queue (\<lambda>_. q) s)"
    by (rule purge_payloads_queue [OF assms])
  let ?es = "take (nat b) (sort_key (\<lambda>e. (er_expires e, er_id e))
               (filter (\<lambda>e. er_payload e \<noteq> None \<and> er_expires e \<le> st \<and> \<not> lk (er_id e)) (db_events (mx_queue s))))"
  let ?ev = "\<lambda>ws i. list_ex (\<lambda>e. er_ws e = ws \<and> er_id e = i) ?es"
  have n: "n = length ?es" and e: "db_events q = update_where (\<lambda>e. ?ev (er_ws e) (er_id e))
             (\<lambda>e. e\<lparr>er_payload := None, er_purged := Some st\<rparr>) (db_events (mx_queue s))"
    and l: "length (db_attempts q) = length (db_attempts (mx_queue s))"
      "length (db_deliveries q) = length (db_deliveries (mx_queue s))" "length (db_events q) = length (db_events (mx_queue s))"
      "db_secrets q = db_secrets (mx_queue s)" "db_replays q = db_replays (mx_queue s)"
      "db_runtime q = db_runtime (mx_queue s)" "db_endpoints q = db_endpoints (mx_queue s)"
    using q(1) by (auto simp: purge_expired_payloads_def Let_def split: if_splits)
  have eq: "count_where (\<lambda>e. er_payload e \<noteq> None) (db_events q) + length (?c q)
      = count_where (\<lambda>e. er_payload e \<noteq> None) (db_events (mx_queue s))"
    unfolding e by (rule cleared_count) simp
  have lt: "count_where (\<lambda>e. er_payload e \<noteq> None) (db_events q) < count_where (\<lambda>e. er_payload e \<noteq> None) (db_events (mx_queue s))"
    if pos: "0 < n"
  proof -
    obtain x xs where x: "?es = x # xs" using length_pos_Cons [of ?es] pos n by blast
    have g: "x \<in> set ?es" unfolding x by (rule list.set_intros)
    have "x \<in> set (db_events (mx_queue s))" "er_payload x \<noteq> None" using taken [OF g] by blast+
    moreover have "?ev (er_ws x) (er_id x)" using g by (rule list_ex_self2)
    ultimately show ?thesis unfolding e by (intro count_where_lt [where x = x]) simp_all
  qed
  have "maintenance_weight (on_mx_queue (\<lambda>_. q) s) + 2 * length (?c q) = maintenance_weight s"
    using eq l by (simp add: maintenance_weight_def Let_def on_mx_queue_def)
  then show ?thesis using eq lt unfolding q(2) shrinks_def audited_simps by linarith
qed

lemma secrets_shrink:
  assumes "purge_secrets ids b st lk s = Inr (n, s')"
  shows "shrinks n s s'"
proof -
  let ?c = "\<lambda>q. cleared (\<lambda>v. sr_state v = Secret_retiring) (\<lambda>v. (sr_ws v, sr_id v)) (db_secrets (mx_queue s)) (db_secrets q)"
  obtain q where q: "purge_retired_secrets b st lk (mx_queue s) = Inr (n, q)"
      "s' = audited ids ''secret.purge'' (?c q) (on_mx_queue (\<lambda>_. q) s)"
    by (rule purge_secrets_queue [OF assms])
  let ?vs = "take (nat b) (sort_key (\<lambda>v. (the (sr_retire_at v), sr_id v))
               (filter (\<lambda>v. sr_state v = Secret_retiring \<and> \<not> lk (sr_id v)
                  \<and> (case sr_retire_at v of None \<Rightarrow> False | Some t \<Rightarrow> t \<le> st)) (db_secrets (mx_queue s))))"
  let ?P = "\<lambda>v. list_ex (\<lambda>x. sr_ws x = sr_ws v \<and> sr_id x = sr_id v) ?vs"
  let ?Q = "\<lambda>v. sr_state v = Secret_retiring"
  have n: "n = length ?vs" and e: "q = (mx_queue s)\<lparr>db_secrets := update_where ?P purge_secret_row (db_secrets (mx_queue s))\<rparr>"
    using q(1) by (auto simp: purge_retired_secrets_def Let_def split: if_splits)
  have sec: "db_secrets q = update_where ?P purge_secret_row (db_secrets (mx_queue s))" by (simp add: e)
  have eq: "count_where ?Q (db_secrets q) + length (?c q) = count_where ?Q (db_secrets (mx_queue s))"
    unfolding sec by (rule cleared_count) (simp add: purge_secret_row_def)
  have lt: "count_where ?Q (db_secrets q) < count_where ?Q (db_secrets (mx_queue s))" if pos: "0 < n"
  proof -
    obtain x xs where x: "?vs = x # xs" using length_pos_Cons [of ?vs] pos n by blast
    have g: "x \<in> set ?vs" unfolding x by (rule list.set_intros)
    have "x \<in> set (db_secrets (mx_queue s))" "?Q x" using taken [OF g] by blast+
    moreover have "?P x" using g by (rule list_ex_self2)
    ultimately have "count_where ?Q (update_where ?P purge_secret_row (db_secrets (mx_queue s)))
        < count_where ?Q (db_secrets (mx_queue s))"
      by (intro count_where_lt [where x = x]) (simp_all add: purge_secret_row_def)
    then show ?thesis by (simp add: e)
  qed
  have len: "length (db_secrets q) = length (db_secrets (mx_queue s))" by (simp add: sec)
  obtain xs where xs: "q = (mx_queue s)\<lparr>db_secrets := xs\<rparr>" using e by blast
  have "maintenance_weight (on_mx_queue (\<lambda>_. q) s) + 2 * length (?c q) = maintenance_weight s"
    using eq len by (simp add: xs maintenance_weight_def Let_def on_mx_queue_def)
  then show ?thesis using eq lt unfolding q(2) shrinks_def audited_simps by linarith
qed

lemma shrinks_sessions:
  assumes "count_where (\<lambda>x. se_revoked x = None) xs \<le> count_where (\<lambda>x. se_revoked x = None) (sb_sessions (mx_sessions s))"
    and "length xs \<le> length (sb_sessions (mx_sessions s))" and "n = a + b"
    and "0 < a \<Longrightarrow> count_where (\<lambda>x. se_revoked x = None) xs < count_where (\<lambda>x. se_revoked x = None) (sb_sessions (mx_sessions s))"
    and "0 < b \<Longrightarrow> length xs < length (sb_sessions (mx_sessions s))"
  shows "shrinks n s (s\<lparr>mx_sessions := (mx_sessions s)\<lparr>sb_sessions := xs\<rparr>\<rparr>)"
  using assms by (cases "0 < a"; cases "0 < b") (simp_all add: shrinks_def maintenance_weight_def Let_def)

text \<open>The rows a purge of the sessions revokes and those it deletes.\<close>

lemma purge_console_sessions_rows:
  assumes "purge_console_sessions b st now lk s = Inr (n, s')"
  shows "\<exists>gone old xs. xs = update_where (\<lambda>x. list_ex (\<lambda>y. se_id y = se_id x) gone) (expire_row now) (sb_sessions s)
    \<and> s' = s\<lparr>sb_sessions := filter (\<lambda>x. \<not> list_ex (\<lambda>y. se_id y = se_id x) old) xs\<rparr> \<and> n = length gone + length old
    \<and> (\<forall>x\<in>set gone. x \<in> set (sb_sessions s) \<and> se_revoked x = None) \<and> set old \<subseteq> set xs"
proof (cases "b < 1 \<or> b > 1000")
  case True
  then show ?thesis using assms by (simp add: purge_console_sessions_def)
next
  case False
  note p = assms [unfolded purge_console_sessions_def Let_def if_not_P [OF False] sum.inject prod.inject]
  show ?thesis
    by (rule exI, rule exI, rule exI, rule conjI [OF refl], rule conjI [OF p [THEN conjunct2, symmetric]],
        rule conjI [OF p [THEN conjunct1, symmetric]], rule conjI) (blast dest: taken)+
qed

lemma sessions_shrink:
  assumes "on_sessions (purge_console_sessions b st now lk) s = Inr (n, s')"
  shows "shrinks n s s'"
proof -
  let ?Q = "\<lambda>x. se_revoked x = None" and ?ss = "sb_sessions (mx_sessions s)"
  obtain y where y: "purge_console_sessions b st now lk (mx_sessions s) = Inr (n, y)" "s' = s\<lparr>mx_sessions := y\<rparr>"
    using assms by (auto simp: on_sessions_def split: sum.splits prod.splits)
  then obtain gone old xs where xs: "xs = update_where (\<lambda>x. list_ex (\<lambda>y. se_id y = se_id x) gone) (expire_row now) ?ss"
    and e: "y = (mx_sessions s)\<lparr>sb_sessions := filter (\<lambda>x. \<not> list_ex (\<lambda>y. se_id y = se_id x) old) xs\<rparr>"
    and n: "n = length gone + length old"
    and g: "\<forall>x\<in>set gone. x \<in> set ?ss \<and> ?Q x" and o: "set old \<subseteq> set xs"
    using purge_console_sessions_rows [OF y(1)] by blast
  let ?ys = "filter (\<lambda>x. \<not> list_ex (\<lambda>y. se_id y = se_id x) old) xs"
  have len: "length ?ys \<le> length ?ss" using length_filter_le [of _ xs] by (simp add: xs)
  have ys: "count_where ?Q ?ys \<le> count_where ?Q xs"
    unfolding count_where_def by (rule list_emb_length [OF subseq_filter]) simp
  have up: "count_where ?Q xs \<le> count_where ?Q ?ss" unfolding xs by (rule count_where_update_le) (simp add: expire_row_def)
  have lt: "count_where ?Q xs < count_where ?Q ?ss" if pos: "0 < length gone"
  proof -
    obtain x where x: "x \<in> set gone" using pos by (cases gone) auto
    show ?thesis unfolding xs
      by (rule count_where_lt [where x = x]) (use g x list_ex_self [OF x, of se_id] in \<open>auto simp: expire_row_def\<close>)
  qed
  have lt2: "length ?ys < length ?ss" if pos: "0 < length old"
  proof -
    obtain x where x: "x \<in> set old" using pos by (cases old) auto
    have "length ?ys < length xs" by (rule length_filter_less [of x]) (use x o list_ex_self [OF x, of se_id] in auto)
    then show ?thesis by (simp add: xs)
  qed
  show ?thesis unfolding y(2) e by (rule shrinks_sessions [OF _ len n _ lt2]) (use ys up lt in linarith)+
qed

lemmas purge_part_defs = purge_attempts_def purge_replays_def purge_rotations_def purge_deliveries_def purge_events_def
  purge_audits_def purge_buckets_def

lemma part_shrinks:
  "purge_attempts T lk n st s = (c, s') \<Longrightarrow> shrinks c s s'"
  "purge_replays T lk n st s = (c, s') \<Longrightarrow> shrinks c s s'"
  "purge_rotations T lk n st s = (c, s') \<Longrightarrow> shrinks c s s'"
  "purge_deliveries T lk n st s = (c, s') \<Longrightarrow> shrinks c s s'"
  "purge_audits T lk n st s = (c, s') \<Longrightarrow> shrinks c s s'"
  "purge_buckets lk n st s = (c, s') \<Longrightarrow> shrinks c s s'"
  by (auto simp: purge_part_defs shrinks_def maintenance_weight_def Let_def on_mx_queue_def on_mx_auth_def
      split: prod.splits dest!: delete_batch_length)

lemma events_shrink:
  assumes "purge_events T lk n st s = (c, s')"
  shows "shrinks c s s'"
proof -
  obtain xs where xs: "delete_batch n (\<lambda>e. (rt_event T e, er_id e)) (lk Events) (event_expired T st s) (db_events (mx_queue s)) = (c, xs)"
      "s' = on_mx_queue (\<lambda>q. q\<lparr>db_events := xs\<rparr>) s"
    using assms by (auto simp: purge_events_def split: prod.splits)
  show ?thesis
    using delete_batch_length [OF xs(1)] delete_batch_count [OF xs(1), of "\<lambda>e. er_payload e \<noteq> None"]
    by (auto simp: xs(2) shrinks_def maintenance_weight_def Let_def on_mx_queue_def)
qed

text \<open>The statements of \<open>purge_expired_metadata\<close> as a chain of states.\<close>

lemma metadata_chain:
  assumes "purge_expired_metadata T lk batch st s = Inr (m, s')"
  obtains s1 s2 s3 s4 s5 s6 where "1 \<le> batch" "batch \<le> 1000"
    "purge_attempts T lk (nat batch) st s = (mc_attempts m, s1)" "purge_replays T lk (nat batch) st s1 = (mc_replays m, s2)"
    "purge_rotations T lk (nat batch) st s2 = (mc_rotations m, s3)" "purge_deliveries T lk (nat batch) st s3 = (mc_deliveries m, s4)"
    "purge_events T lk (nat batch) st s4 = (mc_events m, s5)" "purge_audits T lk (nat batch) st s5 = (mc_audits m, s6)"
    "purge_buckets lk (nat batch) st s6 = (mc_buckets m, s')"
proof (rule that)
  note a = assms [unfolded purge_expired_metadata_def Let_def]
  show "1 \<le> batch" "batch \<le> 1000" using a by (auto split: if_splits)
  let ?s1 = "snd (purge_attempts T lk (nat batch) st s)"
  let ?s2 = "snd (purge_replays T lk (nat batch) st ?s1)"
  let ?s3 = "snd (purge_rotations T lk (nat batch) st ?s2)"
  let ?s4 = "snd (purge_deliveries T lk (nat batch) st ?s3)"
  let ?s5 = "snd (purge_events T lk (nat batch) st ?s4)"
  let ?s6 = "snd (purge_audits T lk (nat batch) st ?s5)"
  show "purge_attempts T lk (nat batch) st s = (mc_attempts m, ?s1)"
    "purge_replays T lk (nat batch) st ?s1 = (mc_replays m, ?s2)"
    "purge_rotations T lk (nat batch) st ?s2 = (mc_rotations m, ?s3)"
    "purge_deliveries T lk (nat batch) st ?s3 = (mc_deliveries m, ?s4)"
    "purge_events T lk (nat batch) st ?s4 = (mc_events m, ?s5)"
    "purge_audits T lk (nat batch) st ?s5 = (mc_audits m, ?s6)"
    "purge_buckets lk (nat batch) st ?s6 = (mc_buckets m, s')"
    using a by (auto simp: case_prod_unfold split: if_splits intro: prod_eqI)
qed

definition metadata_total :: "metadata_counts \<Rightarrow> nat" where
  "metadata_total m = mc_attempts m + mc_replays m + mc_rotations m + mc_deliveries m + mc_events m + mc_audits m + mc_buckets m"

lemma metadata_shrinks:
  assumes "purge_expired_metadata T lk batch st s = Inr (m, s')"
  shows "shrinks (metadata_total m) s s'"
proof (rule metadata_chain [OF assms])
  fix s1 s2 s3 s4 s5 s6
  assume "purge_attempts T lk (nat batch) st s = (mc_attempts m, s1)" "purge_replays T lk (nat batch) st s1 = (mc_replays m, s2)"
    "purge_rotations T lk (nat batch) st s2 = (mc_rotations m, s3)" "purge_deliveries T lk (nat batch) st s3 = (mc_deliveries m, s4)"
    "purge_events T lk (nat batch) st s4 = (mc_events m, s5)" "purge_audits T lk (nat batch) st s5 = (mc_audits m, s6)"
    "purge_buckets lk (nat batch) st s6 = (mc_buckets m, s')"
  then show ?thesis unfolding metadata_total_def by (blast intro: part_shrinks events_shrink shrinks_trans)
qed

text \<open>Deleting nothing leaves everything as it is.\<close>

lemma on_mx_queue_same: "f (mx_queue s) = mx_queue s \<Longrightarrow> on_mx_queue f s = s"
  by (simp add: on_mx_queue_def)

lemma on_mx_auth_same: "f (mx_auth s) = mx_auth s \<Longrightarrow> on_mx_auth f s = s"
  by (simp add: on_mx_auth_def)

lemma part_none:
  "purge_attempts T lk n st s = (0, s') \<Longrightarrow> s' = s"
  "purge_replays T lk n st s = (0, s') \<Longrightarrow> s' = s"
  "purge_rotations T lk n st s = (0, s') \<Longrightarrow> s' = s"
  "purge_deliveries T lk n st s = (0, s') \<Longrightarrow> s' = s"
  "purge_events T lk n st s = (0, s') \<Longrightarrow> s' = s"
  "purge_audits T lk n st s = (0, s') \<Longrightarrow> s' = s"
  "purge_buckets lk n st s = (0, s') \<Longrightarrow> s' = s"
  by (auto simp: purge_part_defs on_mx_queue_def on_mx_auth_def split: prod.splits dest!: delete_batch_none)

lemma part_done:
  "purge_attempts T (\<lambda>_ _. False) n st s = (0, s') \<Longrightarrow> 0 < n \<Longrightarrow> \<forall>a\<in>set (db_attempts (mx_queue s)). \<not> attempt_expired T st s a"
  "purge_replays T (\<lambda>_ _. False) n st s = (0, s') \<Longrightarrow> 0 < n \<Longrightarrow> \<forall>c\<in>set (db_replays (mx_queue s)). \<not> replay_expired T st s c"
  "purge_rotations T (\<lambda>_ _. False) n st s = (0, s') \<Longrightarrow> 0 < n \<Longrightarrow> \<forall>c\<in>set (ap_rotations (mx_data s)). \<not> rotation_expired T st s c"
  "purge_deliveries T (\<lambda>_ _. False) n st s = (0, s') \<Longrightarrow> 0 < n \<Longrightarrow> \<forall>d\<in>set (db_deliveries (mx_queue s)). \<not> delivery_expired T st s d"
  "purge_events T (\<lambda>_ _. False) n st s = (0, s') \<Longrightarrow> 0 < n \<Longrightarrow> \<forall>e\<in>set (db_events (mx_queue s)). \<not> event_expired T st s e"
  "purge_audits T (\<lambda>_ _. False) n st s = (0, s') \<Longrightarrow> 0 < n \<Longrightarrow> \<forall>a\<in>set (ad_audits (mx_auth s)). \<not> audit_expired T st a"
  "purge_buckets (\<lambda>_ _. False) n st s = (0, s') \<Longrightarrow> 0 < n \<Longrightarrow> \<forall>b\<in>set (mx_buckets s). \<not> rb_expires b \<le> st"
  by (auto simp: purge_part_defs split: prod.splits dest: delete_batch_exhausted)

text \<open>What is due for the metadata purge.\<close>

definition metadata_clean :: "retention_times \<Rightarrow> instant \<Rightarrow> maintenance_db \<Rightarrow> bool" where
  "metadata_clean T st s \<longleftrightarrow> (\<forall>a\<in>set (db_attempts (mx_queue s)). \<not> attempt_expired T st s a)
     \<and> (\<forall>c\<in>set (db_replays (mx_queue s)). \<not> replay_expired T st s c)
     \<and> (\<forall>c\<in>set (ap_rotations (mx_data s)). \<not> rotation_expired T st s c)
     \<and> (\<forall>d\<in>set (db_deliveries (mx_queue s)). \<not> delivery_expired T st s d)
     \<and> (\<forall>e\<in>set (db_events (mx_queue s)). \<not> event_expired T st s e)
     \<and> (\<forall>a\<in>set (ad_audits (mx_auth s)). \<not> audit_expired T st a)
     \<and> (\<forall>b\<in>set (mx_buckets s). \<not> rb_expires b \<le> st)"

lemma metadata_none:
  assumes "purge_expired_metadata T (\<lambda>_ _. False) batch st s = Inr (m, s')" and "metadata_total m = 0"
  shows "s' = s \<and> metadata_clean T st s"
proof (rule metadata_chain [OF assms(1)])
  fix s1 s2 s3 s4 s5 s6
  assume b: "1 \<le> batch" and p: "purge_attempts T (\<lambda>_ _. False) (nat batch) st s = (mc_attempts m, s1)"
    "purge_replays T (\<lambda>_ _. False) (nat batch) st s1 = (mc_replays m, s2)"
    "purge_rotations T (\<lambda>_ _. False) (nat batch) st s2 = (mc_rotations m, s3)"
    "purge_deliveries T (\<lambda>_ _. False) (nat batch) st s3 = (mc_deliveries m, s4)"
    "purge_events T (\<lambda>_ _. False) (nat batch) st s4 = (mc_events m, s5)"
    "purge_audits T (\<lambda>_ _. False) (nat batch) st s5 = (mc_audits m, s6)"
    "purge_buckets (\<lambda>_ _. False) (nat batch) st s6 = (mc_buckets m, s')"
  have z: "mc_attempts m = 0" "mc_replays m = 0" "mc_rotations m = 0" "mc_deliveries m = 0" "mc_events m = 0" "mc_audits m = 0"
    "mc_buckets m = 0" using assms(2) by (simp_all add: metadata_total_def)
  note p0 = p [unfolded z]
  have same: "s1 = s" "s2 = s1" "s3 = s2" "s4 = s3" "s5 = s4" "s6 = s5" "s' = s6"
    by (rule part_none(1) [OF p0(1)] part_none(2) [OF p0(2)] part_none(3) [OF p0(3)] part_none(4) [OF p0(4)]
      part_none(5) [OF p0(5)] part_none(6) [OF p0(6)] part_none(7) [OF p0(7)])+
  have n: "0 < nat batch" using b by simp
  show ?thesis unfolding metadata_clean_def
    using part_done(1) [OF p0(1) n] part_done(2) [OF p0(2) n] part_done(3) [OF p0(3) n] part_done(4) [OF p0(4) n]
      part_done(5) [OF p0(5) n] part_done(6) [OF p0(6) n] part_done(7) [OF p0(7) n] same by simp
qed

section \<open>The purge of a workspace\<close>

abbreviation nobody :: locks where "nobody \<equiv> \<lambda>_ _. False"

lemma count_where_update_same:
  "(\<And>x. x \<in> set xs \<Longrightarrow> P x \<Longrightarrow> Q (f x) = Q x) \<Longrightarrow> count_where Q (update_where P f xs) = count_where Q xs"
  by (induction xs) (auto simp: count_where_def)

lemma first_step_cases:
  obtains "first_step ws s = Workspace_step" "\<forall>p\<in>set purge_order. rows_left p ws s = 0"
  | "first_step ws s \<in> set purge_order" "0 < rows_left (first_step ws s) ws s"
proof (cases "find (\<lambda>p. rows_left p ws s > 0) purge_order")
  case None
  then show ?thesis using that(1) None by (auto simp: first_step_def find_None_iff)
next
  case (Some p)
  then have "p \<in> set purge_order" "0 < rows_left p ws s" by (auto simp: find_Some_iff)
  then show ?thesis using that(2) Some by (simp add: first_step_def)
qed

lemma after_step_order: "p \<in> set purge_order \<Longrightarrow> after_step purge_order p \<noteq> Complete"
  by (auto simp: purge_order_def)

lemma delete_step_jobs: "delete_step lk n ws p s = (c, s') \<Longrightarrow> mx_jobs s' = mx_jobs s"
  by (cases p) (auto simp: delete_step_def Let_def on_mx_queue_def on_mx_auth_def split: prod.splits)

lemma delete_step_weight:
  assumes "delete_step lk n ws p s = (c, s')" and "p \<in> set purge_order"
  shows "maintenance_weight s' + c \<le> maintenance_weight s"
proof (cases p)
  case Events
  obtain xs where xs: "delete_batch n er_id (lk Events) (\<lambda>e. er_ws e = ws) (db_events (mx_queue s)) = (c, xs)"
      "s' = on_mx_queue (\<lambda>q. q\<lparr>db_events := xs\<rparr>) s"
    using assms by (auto simp: delete_step_def Events Let_def split: prod.splits)
  show ?thesis using delete_batch_length [OF xs(1)] delete_batch_count [OF xs(1), of "\<lambda>e. er_payload e \<noteq> None"]
    by (auto simp: xs(2) maintenance_weight_def Let_def on_mx_queue_def)
next
  case Secrets
  obtain xs where xs: "delete_batch n sr_id (lk Secrets) (\<lambda>v. sr_ws v = ws) (db_secrets (mx_queue s)) = (c, xs)"
      "s' = on_mx_queue (\<lambda>q. q\<lparr>db_secrets := xs\<rparr>) s"
    using assms by (auto simp: delete_step_def Secrets Let_def split: prod.splits)
  show ?thesis using delete_batch_length [OF xs(1)] delete_batch_count [OF xs(1), of "\<lambda>v. sr_state v = Secret_retiring"]
    by (auto simp: xs(2) maintenance_weight_def Let_def on_mx_queue_def)
next
  case Keys
  obtain xs where xs: "delete_batch n ak_id (lk Keys) (\<lambda>k. ak_workspace k = ws) (ad_keys (mx_auth s)) = (c, xs)"
      "s' = s\<lparr>mx_sessions := (mx_sessions s)\<lparr>sb_auth := (mx_auth s)\<lparr>ad_keys := xs\<rparr>,
              sb_sessions := filter (\<lambda>x. key_in (ad_keys (mx_auth s)) x \<longrightarrow> key_in xs x) (sb_sessions (mx_sessions s))\<rparr>\<rparr>"
    using assms by (auto simp: delete_step_def Keys Let_def split: prod.splits)
  let ?K = "\<lambda>x. key_in (ad_keys (mx_auth s)) x \<longrightarrow> key_in xs x"
  have "count_where (\<lambda>x. se_revoked x = None) (filter ?K (sb_sessions (mx_sessions s)))
      \<le> count_where (\<lambda>x. se_revoked x = None) (sb_sessions (mx_sessions s))"
    unfolding count_where_def by (rule list_emb_length [OF subseq_filter]) simp
  moreover have "length (filter ?K (sb_sessions (mx_sessions s))) \<le> length (sb_sessions (mx_sessions s))"
    by (rule length_filter_le)
  ultimately obtain ys where "filter ?K (sb_sessions (mx_sessions s)) = ys" "length ys \<le> length (sb_sessions (mx_sessions s))"
      "count_where (\<lambda>x. se_revoked x = None) ys \<le> count_where (\<lambda>x. se_revoked x = None) (sb_sessions (mx_sessions s))" by blast
  then show ?thesis using delete_batch_length [OF xs(1)]
    by (auto simp: xs(2) maintenance_weight_def Let_def)
qed (use assms in \<open>auto simp: delete_step_def purge_order_def maintenance_weight_def Let_def on_mx_queue_def on_mx_auth_def
      split: prod.splits dest!: delete_batch_length\<close>)

lemma count_where_ex: "0 < count_where P xs \<Longrightarrow> \<exists>x\<in>set xs. P x"
  by (auto simp: count_where_def filter_empty_conv)

lemma delete_batch_rows:
  "delete_batch n key (\<lambda>_. False) P xs = (c, ys) \<Longrightarrow> 0 < n \<Longrightarrow> 0 < count_where P xs \<Longrightarrow> 0 < c"
  using count_where_ex [of P xs] delete_batch_progress [of n key "\<lambda>_. False" P xs c ys] by blast

lemma delete_step_progress:
  assumes "delete_step nobody n ws p s = (c, s')" and "p \<in> set purge_order" and "0 < rows_left p ws s" and "0 < n"
  shows "0 < c"
  using assms by (cases p) (auto simp: delete_step_def rows_left_def purge_order_def Let_def split: prod.splits dest: delete_batch_rows)

lemma due_job_ready:
  "due_job lk st s = Some j \<Longrightarrow> j \<in> set (mx_jobs s) \<and> job_ready st j \<and> jb_scheduled j \<le> st"
proof -
  assume a: "due_job lk st s = Some j"
  let ?P = "\<lambda>(i, j). job_ready st j \<and> jb_scheduled j \<le> st \<and> \<not> lk Workspace_step i"
  obtain i js where "sort_key (\<lambda>(i, j). (jb_scheduled j, jb_id j)) (filter ?P (enumerate 0 (mx_jobs s))) = (i, j) # js"
    using a by (auto simp: due_job_def split: list.splits prod.splits)
  then have "(i, j) \<in> set (sort_key (\<lambda>(i, j). (jb_scheduled j, jb_id j)) (filter ?P (enumerate 0 (mx_jobs s))))"
    by simp
  then show ?thesis by (auto simp: in_set_enumerate_eq)
qed

lemma no_due_job:
  assumes "due_job nobody st s = None" and "j \<in> set (mx_jobs s)" and "jb_scheduled j \<le> st"
  shows "\<not> job_ready st j"
proof -
  have "filter (\<lambda>(i, j). job_ready st j \<and> jb_scheduled j \<le> st) (enumerate 0 (mx_jobs s)) = []"
    using assms(1) by (auto simp: due_job_def split: list.splits prod.splits)
      (metis (no_types, lifting) length_0_conv length_sort list.size(3))
  moreover obtain i where "i < length (mx_jobs s)" "mx_jobs s ! i = j" using assms(2) by (auto simp: in_set_conv_nth)
  ultimately show ?thesis using assms(3) by (fastforce simp: filter_empty_conv in_set_enumerate_eq)
qed

definition jobs_keyed :: "maintenance_db \<Rightarrow> bool" where
  "jobs_keyed s \<longleftrightarrow> distinct (map jb_id (mx_jobs s))"

definition attempts_owned :: "maintenance_db \<Rightarrow> bool" where
  "attempts_owned s \<longleftrightarrow> (\<forall>a\<in>set (db_attempts (mx_queue s)). list_ex (\<lambda>d. dkey d = akey a) (db_deliveries (mx_queue s)))"

definition jobs_due_by :: "instant \<Rightarrow> maintenance_db \<Rightarrow> bool" where
  "jobs_due_by t s \<longleftrightarrow> (\<forall>j\<in>set (mx_jobs s). jb_scheduled j \<le> t)"

lemma job_with_id: "jobs_keyed s \<Longrightarrow> i \<in> set (mx_jobs s) \<Longrightarrow> j \<in> set (mx_jobs s) \<Longrightarrow> jb_id i = jb_id j \<Longrightarrow> i = j"
  by (auto simp: jobs_keyed_def distinct_map dest: inj_onD)

lemma job_ready_open: "job_ready st j \<Longrightarrow> jb_status j \<noteq> Job_completed"
  by (auto simp: job_ready_def)

text \<open>What a purge that found a job did.\<close>

lemma purge_workspace_job:
  assumes "purge_workspace lk batch audit st s = Inr (Some (ws, c, d, p'), s')"
  obtains job s1 p where "due_job lk st s = Some job" "ws = jb_ws job" "p = first_step ws s" "1 \<le> batch"
    "delete_step lk (nat batch) ws p s = (c, s1)" "d = (p' = Complete)"
    "p' = (if p = Workspace_step then Complete else if rows_left p ws s1 = 0 then after_step purge_order p else p)"
    "s' = (if p' = Complete then complete_purge ws audit st s1 else s1)\<lparr>mx_jobs :=
        update_where (\<lambda>j. jb_id j = jb_id job) (finish_job st c p') (mx_jobs s)\<rparr>"
proof -
  obtain job where j: "due_job lk st s = Some job" "1 \<le> batch"
    using assms by (auto simp: purge_workspace_def split: if_splits option.splits)
  obtain c1 s1 where ds: "delete_step lk (nat batch) (jb_ws job) (first_step (jb_ws job) s) s = (c1, s1)"
    by (metis prod.exhaust)
  have "mx_jobs (complete_purge ws audit st s1) = mx_jobs s1" for ws
    by (simp add: complete_purge_def on_mx_auth_def)
  then show ?thesis using assms j ds delete_step_jobs [OF ds]
    by (intro that [of job "first_step ws s" s1]) (auto simp: purge_workspace_def Let_def split: if_splits)
qed

lemma purge_workspace_idle: "purge_workspace lk batch audit st s = Inr (None, s') \<Longrightarrow> s' = s \<and> due_job lk st s = None"
  by (auto simp: purge_workspace_def Let_def split: if_splits option.splits prod.splits)

lemma purge_workspace_shrinks:
  assumes "purge_workspace nobody batch audit st s = Inr (Some (ws, c, d, p'), s')" and "jobs_keyed s"
  shows "maintenance_weight s' < maintenance_weight s"
proof (rule purge_workspace_job [OF assms(1)])
  fix job s1 p
  assume j: "due_job nobody st s = Some job" and p: "p = first_step ws s" and b: "1 \<le> batch"
    and ds: "delete_step nobody (nat batch) ws p s = (c, s1)"
    and p': "p' = (if p = Workspace_step then Complete else if rows_left p ws s1 = 0 then after_step purge_order p else p)"
    and s': "s' = (if p' = Complete then complete_purge ws audit st s1 else s1)\<lparr>mx_jobs :=
        update_where (\<lambda>j. jb_id j = jb_id job) (finish_job st c p') (mx_jobs s)\<rparr>"
  let ?Q = "\<lambda>j. jb_status j \<noteq> Job_completed"
  note due = due_job_ready [OF j]
  have only: "x = job" if "x \<in> set (mx_jobs s)" "jb_id x = jb_id job" for x
    using job_with_id [OF assms(2) that(1)] due that(2) by blast
  have jobs: "mx_jobs s1 = mx_jobs s" by (rule delete_step_jobs [OF ds])
  show ?thesis
  proof (rule first_step_cases [of ws s])
    assume w: "first_step ws s = Workspace_step"
    then have [simp]: "p' = Complete" "p = Workspace_step" using p p' by auto
    have "count_where ?Q (update_where (\<lambda>j. jb_id j = jb_id job) (finish_job st c Complete) (mx_jobs s)) < count_where ?Q (mx_jobs s)"
      by (rule count_where_lt [where x = job]) (use due in \<open>auto simp: finish_job_def dest: job_ready_open\<close>)
    moreover have "maintenance_weight s1 = maintenance_weight s"
      using ds by (auto simp: delete_step_def maintenance_weight_def Let_def on_mx_queue_def on_mx_auth_def)
    moreover have "maintenance_weight s' + 2 * count_where ?Q (mx_jobs s)
        = maintenance_weight s1 + 1 + 2 * count_where ?Q (update_where (\<lambda>j. jb_id j = jb_id job) (finish_job st c Complete) (mx_jobs s))"
      using jobs by (simp add: s' complete_purge_def on_mx_auth_def maintenance_weight_def Let_def)
    ultimately show ?thesis by linarith
  next
    assume o: "first_step ws s \<in> set purge_order" and r: "0 < rows_left (first_step ws s) ws s"
    have po: "p \<in> set purge_order" using o p by simp
    have "p' \<noteq> Complete" using after_step_order [OF po] po p' by (auto simp: purge_order_def)
    moreover have "count_where ?Q (update_where (\<lambda>j. jb_id j = jb_id job) (finish_job st c p') (mx_jobs s)) = count_where ?Q (mx_jobs s)"
      by (rule count_where_update_same) (use due only \<open>p' \<noteq> Complete\<close> in \<open>auto simp: finish_job_def dest!: job_ready_open\<close>)
    ultimately have "maintenance_weight s' = maintenance_weight s1"
      using jobs by (simp add: s' maintenance_weight_def Let_def)
    moreover have "0 < c" by (rule delete_step_progress [OF ds po]) (use r p b in simp_all)
    ultimately show ?thesis using delete_step_weight [OF ds po] by linarith
  qed
qed

text \<open>The invariants.\<close>

lemma update_finish_ids: "map jb_id (update_where P (finish_job st c p) js) = map jb_id js"
  by (induction js) (auto simp: finish_job_def)

lemma update_finish_due: "\<forall>j\<in>set js. jb_scheduled j \<le> t \<Longrightarrow> st \<le> t \<Longrightarrow>
    \<forall>j\<in>set (update_where P (finish_job st c p) js). jb_scheduled j \<le> t"
  by (induction js) (auto simp: finish_job_def)

lemma purge_workspace_jobs:
  assumes "purge_workspace lk batch audit st s = Inr (r, s')"
  shows "jobs_keyed s \<Longrightarrow> jobs_keyed s'" and "jobs_due_by t s \<Longrightarrow> st \<le> t \<Longrightarrow> jobs_due_by t s'"
  using assms
  by (cases r; auto simp: jobs_keyed_def jobs_due_by_def update_finish_ids update_finish_due
      dest: purge_workspace_idle elim!: purge_workspace_job)+

lemma attempts_owned_keys:
  "attempts_owned s \<longleftrightarrow> akey ` set (db_attempts (mx_queue s)) \<subseteq> dkey ` set (db_deliveries (mx_queue s))"
  by (simp add: attempts_owned_def list_ex_iff image_subset_iff image_iff eq_commute [of "akey _"])

lemma attempts_owned_less:
  "attempts_owned s \<Longrightarrow> set (db_attempts (mx_queue s')) \<subseteq> set (db_attempts (mx_queue s)) \<Longrightarrow>
     db_deliveries (mx_queue s') = db_deliveries (mx_queue s) \<Longrightarrow> attempts_owned s'"
  by (auto simp: attempts_owned_def)

lemma update_where_image: "(\<And>x. f (g x) = f x) \<Longrightarrow> f ` set (update_where P g xs) = f ` set xs"
  by (induction xs) auto

lemma delete_batch_image_kept:
  assumes "delete_batch n key held P xs = (c, ys)" and "\<And>x. x \<in> set xs \<Longrightarrow> f x \<in> A \<Longrightarrow> \<not> P x"
    and "A \<subseteq> f ` set xs"
  shows "A \<subseteq> f ` set ys"
proof
  fix a assume "a \<in> A"
  then obtain x where x: "x \<in> set xs" "a = f x" using assms(3) by auto
  then have "x \<in> set (filter (\<lambda>x. \<not> P x) xs)" using assms(2) \<open>a \<in> A\<close> by simp
  then have "x \<in> set (filter (\<lambda>x. \<not> P x) ys)" using delete_batch_kept [OF assms(1), of "\<lambda>x. \<not> P x"] by simp
  then show "a \<in> f ` set ys" using x(2) by simp
qed

lemma purge_expired_payloads_shape:
  assumes "purge_expired_payloads b st lk s = Inr (n, s')"
  shows "\<exists>P Q R. s' = s\<lparr>db_attempts := update_where P (abandon_attempt st ''payload_expired'') (db_attempts s),
      db_deliveries := update_where Q (fail_row st ''payload_expired'') (db_deliveries s),
      db_events := update_where R (\<lambda>e. e\<lparr>er_payload := None, er_purged := Some st\<rparr>) (db_events s)\<rparr>"
proof (cases "b < 1 \<or> b > 1000")
  case True
  then show ?thesis using assms by (simp add: purge_expired_payloads_def)
next
  case False
  note p = assms [unfolded purge_expired_payloads_def Let_def if_not_P [OF False] sum.inject prod.inject]
  show ?thesis by (rule exI, rule exI, rule exI, rule p [THEN conjunct2, symmetric])
qed

lemma payloads_owned:
  assumes "purge_payloads ids b st lk s = Inr (n, s')" and "attempts_owned s"
  shows "attempts_owned s'"
proof -
  obtain q rows where q: "purge_expired_payloads b st lk (mx_queue s) = Inr (n, q)"
      "s' = audited ids ''payload.purge'' rows (on_mx_queue (\<lambda>_. q) s)"
    by (rule purge_payloads_queue [OF assms(1)]) (rule that)
  obtain P Q R where "q = (mx_queue s)\<lparr>db_attempts := update_where P (abandon_attempt st ''payload_expired'') (db_attempts (mx_queue s)),
      db_deliveries := update_where Q (fail_row st ''payload_expired'') (db_deliveries (mx_queue s)),
      db_events := update_where R (\<lambda>e. e\<lparr>er_payload := None, er_purged := Some st\<rparr>) (db_events (mx_queue s))\<rparr>"
    using purge_expired_payloads_shape [OF q(1)] by blast
  then show ?thesis using assms(2) q(2) update_where_image [of akey "abandon_attempt st ''payload_expired''"]
      update_where_image [of dkey "fail_row st ''payload_expired''"]
    by (simp add: attempts_owned_keys on_mx_queue_def akey_def dkey_def abandon_attempt_def fail_row_def)
qed

lemma purge_retired_secrets_shape:
  assumes "purge_retired_secrets b st lk s = Inr (n, s')"
  shows "\<exists>P. s' = s\<lparr>db_secrets := update_where P purge_secret_row (db_secrets s)\<rparr>"
proof (cases "b < 1 \<or> b > 1000")
  case True
  then show ?thesis using assms by (simp add: purge_retired_secrets_def)
next
  case False
  note p = assms [unfolded purge_retired_secrets_def Let_def if_not_P [OF False] sum.inject prod.inject]
  show ?thesis by (rule exI, rule p [THEN conjunct2, symmetric])
qed

lemma secrets_owned:
  assumes "purge_secrets ids b st lk s = Inr (n, s')" and "attempts_owned s"
  shows "attempts_owned s'"
proof -
  obtain q rows where q: "purge_retired_secrets b st lk (mx_queue s) = Inr (n, q)"
      "s' = audited ids ''secret.purge'' rows (on_mx_queue (\<lambda>_. q) s)"
    by (rule purge_secrets_queue [OF assms(1)]) (rule that)
  then show ?thesis using assms(2) purge_retired_secrets_shape [OF q(1)]
    by (auto simp: attempts_owned_def on_mx_queue_def)
qed

lemma sessions_owned: "on_sessions f s = Inr (n, s') \<Longrightarrow> attempts_owned s \<Longrightarrow> attempts_owned s'"
  by (erule attempts_owned_less) (auto simp: on_sessions_def split: sum.splits)

lemma deliveries_owned:
  assumes "purge_deliveries T lk n st s = (c, s')" and "attempts_owned s"
  shows "attempts_owned s'"
proof -
  obtain xs where xs: "delete_batch n (\<lambda>d. (the (dr_terminal d), dr_id d)) (lk Deliveries) (delivery_expired T st s)
      (db_deliveries (mx_queue s)) = (c, xs)" "s' = on_mx_queue (\<lambda>q. q\<lparr>db_deliveries := xs\<rparr>) s"
    using assms(1) by (auto simp: purge_deliveries_def split: prod.splits)
  have "akey ` set (db_attempts (mx_queue s)) \<subseteq> dkey ` set xs"
    by (rule delete_batch_image_kept [OF xs(1)])
      (use assms(2) in \<open>auto simp: attempts_owned_keys delivery_expired_def list_ex_iff\<close>)
  then show ?thesis by (simp add: attempts_owned_keys xs(2) on_mx_queue_def)
qed

lemma part_owned:
  "purge_attempts T lk n st s = (c, s') \<Longrightarrow> attempts_owned s \<Longrightarrow> attempts_owned s'"
  "purge_replays T lk n st s = (c, s') \<Longrightarrow> attempts_owned s \<Longrightarrow> attempts_owned s'"
  "purge_rotations T lk n st s = (c, s') \<Longrightarrow> attempts_owned s \<Longrightarrow> attempts_owned s'"
  "purge_events T lk n st s = (c, s') \<Longrightarrow> attempts_owned s \<Longrightarrow> attempts_owned s'"
  "purge_audits T lk n st s = (c, s') \<Longrightarrow> attempts_owned s \<Longrightarrow> attempts_owned s'"
  "purge_buckets lk n st s = (c, s') \<Longrightarrow> attempts_owned s \<Longrightarrow> attempts_owned s'"
  by (erule attempts_owned_less,
      (auto simp: purge_part_defs on_mx_queue_def on_mx_auth_def split: prod.splits dest!: delete_batch_subset)[2])+

lemma metadata_owned:
  assumes "purge_expired_metadata T lk batch st s = Inr (m, s')" and "attempts_owned s"
  shows "attempts_owned s'"
  by (rule metadata_chain [OF assms(1)], rule part_owned(6), assumption, rule part_owned(5), assumption,
      rule part_owned(4), assumption, rule deliveries_owned, assumption, rule part_owned(3), assumption,
      rule part_owned(2), assumption, rule part_owned(1), assumption, rule assms(2))

lemma part_jobs:
  "purge_attempts T lk n st s = (c, s') \<Longrightarrow> mx_jobs s' = mx_jobs s"
  "purge_replays T lk n st s = (c, s') \<Longrightarrow> mx_jobs s' = mx_jobs s"
  "purge_rotations T lk n st s = (c, s') \<Longrightarrow> mx_jobs s' = mx_jobs s"
  "purge_deliveries T lk n st s = (c, s') \<Longrightarrow> mx_jobs s' = mx_jobs s"
  "purge_events T lk n st s = (c, s') \<Longrightarrow> mx_jobs s' = mx_jobs s"
  "purge_audits T lk n st s = (c, s') \<Longrightarrow> mx_jobs s' = mx_jobs s"
  "purge_buckets lk n st s = (c, s') \<Longrightarrow> mx_jobs s' = mx_jobs s"
  by (auto simp: purge_part_defs on_mx_queue_def on_mx_auth_def split: prod.splits)

lemma metadata_jobs: "purge_expired_metadata T lk batch st s = Inr (m, s') \<Longrightarrow> mx_jobs s' = mx_jobs s"
  by (erule metadata_chain) (simp add: part_jobs)

lemma data_jobs:
  "purge_payloads ids b st lk s = Inr (n, s') \<Longrightarrow> mx_jobs s' = mx_jobs s"
  "purge_secrets ids b st lk s = Inr (n, s') \<Longrightarrow> mx_jobs s' = mx_jobs s"
  by (auto simp: on_mx_queue_def elim!: purge_payloads_queue purge_secrets_queue)

lemma sessions_jobs: "on_sessions f s = Inr (n, s') \<Longrightarrow> mx_jobs s' = mx_jobs s"
  by (auto simp: on_sessions_def split: sum.splits)

lemma delete_step_owned:
  assumes "delete_step lk n ws (first_step ws s) s = (c, s')" and "attempts_owned s"
  shows "attempts_owned s'"
proof (cases "first_step ws s = Deliveries")
  case True
  then have f: "find (\<lambda>p. rows_left p ws s > 0) purge_order = Some Deliveries"
    by (auto simp: first_step_def split: option.splits)
  then have none: "rows_left Attempts ws s = 0" by (auto simp: purge_order_def split: if_splits)
  obtain xs where xs: "delete_batch n dr_id (lk Deliveries) (\<lambda>d. dr_ws d = ws) (db_deliveries (mx_queue s)) = (c, xs)"
      "s' = on_mx_queue (\<lambda>q. q\<lparr>db_deliveries := xs\<rparr>) s"
    using assms(1) by (auto simp: delete_step_def True Let_def split: prod.splits)
  have "akey ` set (db_attempts (mx_queue s)) \<subseteq> dkey ` set xs"
    by (rule delete_batch_image_kept [OF xs(1)])
      (use assms(2) none in \<open>auto simp: attempts_owned_keys rows_left_def Let_def count_where_0 akey_def dkey_def\<close>)
  then show ?thesis by (simp add: attempts_owned_keys xs(2) on_mx_queue_def)
next
  case False
  then have "set (db_attempts (mx_queue s')) \<subseteq> set (db_attempts (mx_queue s)) \<and> db_deliveries (mx_queue s') = db_deliveries (mx_queue s)"
    using assms(1)
    by (cases "first_step ws s") (auto simp: delete_step_def Let_def on_mx_queue_def on_mx_auth_def
      split: prod.splits dest!: delete_batch_subset)
  then show ?thesis using attempts_owned_less [OF assms(2)] by blast
qed

lemma purge_workspace_owned:
  assumes "purge_workspace lk batch audit st s = Inr (r, s')" and "attempts_owned s"
  shows "attempts_owned s'"
proof (cases r)
  case None
  then show ?thesis using assms purge_workspace_idle by blast
next
  case (Some w)
  obtain ws c d p' where "w = (ws, c, d, p')" by (cases w) auto
  then have "purge_workspace lk batch audit st s = Inr (Some (ws, c, d, p'), s')" using assms(1) Some by simp
  then show ?thesis
  proof (cases rule: purge_workspace_job)
    case (1 job s1 p)
    have "attempts_owned s1" using delete_step_owned [OF _ assms(2)] 1(3,5) by blast
    then show ?thesis by (rule attempts_owned_less) (simp_all add: 1(8) complete_purge_def on_mx_auth_def)
  qed
qed

section \<open>A pass of the store\<close>

lemma statement_ok: "statement out f s = (Inr a, s') \<Longrightarrow> out = Ok \<and> f s = Inr (a, s')"
  by (auto simp: statement_def split: sum.splits outcome.splits)

lemma statement_keeps:
  "statement out f s = (r, s') \<Longrightarrow> I s \<Longrightarrow> (\<And>a s'. f s = Inr (a, s') \<Longrightarrow> I s') \<Longrightarrow> I s'"
  by (auto simp: statement_def split: sum.splits outcome.splits if_splits)

text \<open>The five statements of a pass, by their results.\<close>

lemma store_purge_cases:
  assumes "store_purge T e batch s = (r, s')"
  obtains r1 r2 r3 r4 r5 s1 s2 s3 s4 s5 where
    "statement (fst (pe_payloads e)) (purge_payloads (pe_ids e 0) batch (snd (pe_payloads e)) (pe_held e)) s = (r1, s1)"
    "statement (fst (pe_secrets e)) (purge_secrets (pe_ids e 1) batch (snd (pe_secrets e)) (pe_held e)) s1 = (r2, s2)"
    "statement (fst (pe_sessions e)) (on_sessions (purge_console_sessions batch (snd (pe_sessions e)) (pe_clock e) (pe_held e))) s2
       = (r3, s3)"
    "statement (fst (pe_metadata e)) (purge_expired_metadata T (pe_locks e) batch (snd (pe_metadata e))) s3 = (r4, s4)"
    "statement (fst (pe_workspace e)) (purge_workspace (pe_locks e) batch (pe_ids e 2 0) (snd (pe_workspace e))) s4 = (r5, s5)"
    "(r, s') = (case r1 of Inl err \<Rightarrow> ((no_counts, Some err), s1) | Inr n1 \<Rightarrow>
       (case r2 of Inl err \<Rightarrow> ((no_counts, Some err), s2) | Inr n2 \<Rightarrow>
       (case r3 of Inl err \<Rightarrow> ((no_counts, Some err), s3) | Inr n3 \<Rightarrow>
       (case r4 of Inl err \<Rightarrow> ((no_counts, Some err), s4) | Inr m \<Rightarrow>
       (case r5 of Inl err \<Rightarrow> ((no_counts, Some err), s5) | Inr w \<Rightarrow>
          ((\<lparr>ct_payloads = int n1, ct_secrets = int n2, ct_attempts = int (mc_attempts m),
             ct_replays = int (mc_replays m), ct_rotations = int (mc_rotations m), ct_deliveries = int (mc_deliveries m),
             ct_events = int (mc_events m), ct_audits = int (mc_audits m), ct_buckets = int (mc_buckets m),
             ct_sessions = int n3,
             ct_rows = (case w of None \<Rightarrow> 0 | Some (ws, affected, completed, checkpoint) \<Rightarrow> int affected),
             ct_steps = (if w = None then 0 else 1)\<rparr>, None), s5))))))"
proof -
  obtain r1 s1 where 1: "statement (fst (pe_payloads e)) (purge_payloads (pe_ids e 0) batch (snd (pe_payloads e)) (pe_held e)) s = (r1, s1)"
    by (rule prod.exhaust)
  obtain r2 s2 where 2: "statement (fst (pe_secrets e)) (purge_secrets (pe_ids e 1) batch (snd (pe_secrets e)) (pe_held e)) s1 = (r2, s2)"
    by (rule prod.exhaust)
  obtain r3 s3 where 3: "statement (fst (pe_sessions e)) (on_sessions (purge_console_sessions batch (snd (pe_sessions e)) (pe_clock e) (pe_held e))) s2 = (r3, s3)"
    by (rule prod.exhaust)
  obtain r4 s4 where 4: "statement (fst (pe_metadata e)) (purge_expired_metadata T (pe_locks e) batch (snd (pe_metadata e))) s3 = (r4, s4)"
    by (rule prod.exhaust)
  obtain r5 s5 where 5: "statement (fst (pe_workspace e)) (purge_workspace (pe_locks e) batch (pe_ids e 2 0) (snd (pe_workspace e))) s4 = (r5, s5)"
    by (rule prod.exhaust)
  show ?thesis
    by (rule that [OF 1 2 3 4 5])
      (use assms 1 2 3 4 5 in \<open>auto simp: store_purge_def split: sum.splits\<close>)
qed

lemma store_purge_ok:
  assumes "store_purge T e batch s = ((c, None), s')"
  obtains n1 s1 n2 s2 n3 s3 m s4 w where
    "purge_payloads (pe_ids e 0) batch (snd (pe_payloads e)) (pe_held e) s = Inr (n1, s1)"
    "purge_secrets (pe_ids e 1) batch (snd (pe_secrets e)) (pe_held e) s1 = Inr (n2, s2)"
    "on_sessions (purge_console_sessions batch (snd (pe_sessions e)) (pe_clock e) (pe_held e)) s2 = Inr (n3, s3)"
    "purge_expired_metadata T (pe_locks e) batch (snd (pe_metadata e)) s3 = Inr (m, s4)"
    "purge_workspace (pe_locks e) batch (pe_ids e 2 0) (snd (pe_workspace e)) s4 = Inr (w, s')"
    "progress c = int (n1 + n2 + n3 + metadata_total m)
       + (case w of None \<Rightarrow> 0 | Some (ws, affected, completed, checkpoint) \<Rightarrow> int affected + 1)"
  using assms
proof (cases rule: store_purge_cases)
  case (1 r1 r2 r3 r4 r5 s1 s2 s3 s4 s5)
  obtain n1 n2 n3 m w where r: "r1 = Inr n1" "r2 = Inr n2" "r3 = Inr n3" "r4 = Inr m" "r5 = Inr w" and "s' = s5"
    using 1(6) by (auto split: sum.splits)
  note q = 1(1-5) [unfolded r, THEN statement_ok, THEN conjunct2]
  show ?thesis
    by (rule that [OF q(1-4) q(5) [folded \<open>s' = s5\<close>]])
      (use 1(6) in \<open>auto simp: r progress_def metadata_total_def split: option.splits\<close>)
qed

lemma store_purge_keeps:
  assumes "store_purge T e batch s = (r, s')" and "I s"
    and I: "\<And>n s s'. purge_payloads (pe_ids e 0) batch (snd (pe_payloads e)) (pe_held e) s = Inr (n, s') \<Longrightarrow> I s \<Longrightarrow> I s'"
      "\<And>n s s'. purge_secrets (pe_ids e 1) batch (snd (pe_secrets e)) (pe_held e) s = Inr (n, s') \<Longrightarrow> I s \<Longrightarrow> I s'"
      "\<And>n s s'. on_sessions (purge_console_sessions batch (snd (pe_sessions e)) (pe_clock e) (pe_held e)) s = Inr (n, s') \<Longrightarrow> I s \<Longrightarrow> I s'"
      "\<And>m s s'. purge_expired_metadata T (pe_locks e) batch (snd (pe_metadata e)) s = Inr (m, s') \<Longrightarrow> I s \<Longrightarrow> I s'"
      "\<And>w s s'. purge_workspace (pe_locks e) batch (pe_ids e 2 0) (snd (pe_workspace e)) s = Inr (w, s') \<Longrightarrow> I s \<Longrightarrow> I s'"
  shows "I s'"
  using assms(1)
proof (cases rule: store_purge_cases)
  case (1 r1 r2 r3 r4 r5 s1 s2 s3 s4 s5)
  have i1: "I s1" by (rule statement_keeps [where I = I, OF 1(1) assms(2)]) (rule I(1) [OF _ assms(2)])
  have i2: "I s2" by (rule statement_keeps [where I = I, OF 1(2) i1]) (rule I(2) [OF _ i1])
  have i3: "I s3" by (rule statement_keeps [where I = I, OF 1(3) i2]) (rule I(3) [OF _ i2])
  have i4: "I s4" by (rule statement_keeps [where I = I, OF 1(4) i3]) (rule I(4) [OF _ i3])
  have i5: "I s5" by (rule statement_keeps [where I = I, OF 1(5) i4]) (rule I(5) [OF _ i4])
  show ?thesis using 1(6) i1 i2 i3 i4 i5 by (simp split: sum.splits)
qed

text \<open>What a purge of payloads or of secrets that found nothing shows.\<close>

lemma taken_none: "length (take (nat b) (sort_key k xs)) = 0 \<Longrightarrow> 1 \<le> b \<Longrightarrow> xs = []"
  by (auto simp: min_def split: if_splits)

lemma payloads_none:
  assumes "purge_payloads ids b st (\<lambda>_. False) s = Inr (0, s')"
  shows "s' = s \<and> (\<forall>e\<in>set (db_events (mx_queue s)). \<not> (er_payload e \<noteq> None \<and> er_expires e \<le> st))"
proof -
  obtain q where q: "purge_expired_payloads b st (\<lambda>_. False) (mx_queue s) = Inr (0, q)"
      "s' = audited ids ''payload.purge'' (cleared (\<lambda>e. er_payload e \<noteq> None) (\<lambda>e. (er_ws e, er_id e))
        (db_events (mx_queue s)) (db_events q)) (on_mx_queue (\<lambda>_. q) s)"
    by (rule purge_payloads_queue [OF assms])
  let ?xs = "filter (\<lambda>e. er_payload e \<noteq> None \<and> er_expires e \<le> st) (db_events (mx_queue s))"
  have b: "1 \<le> b" "b \<le> 1000" using q(1) by (auto simp: purge_expired_payloads_def split: if_splits)
  then have "length (take (nat b) (sort_key (\<lambda>e. (er_expires e, er_id e)) ?xs)) = 0"
    using q(1) by (simp only: purge_expired_payloads_def Let_def if_False sum.inject prod.inject not_less [symmetric] simp_thms)
  then have e: "?xs = []" using b(1) by (rule taken_none)
  then have "q = mx_queue s" using q(1) b
    by (simp add: purge_expired_payloads_def update_where_nobody list_ex_iff)
  then show ?thesis using e q(2) by (simp add: on_mx_queue_def filter_empty_conv)
qed

lemma secrets_none:
  assumes "purge_secrets ids b st (\<lambda>_. False) s = Inr (0, s')"
  shows "s' = s \<and> (\<forall>v\<in>set (db_secrets (mx_queue s)). \<not> (sr_state v = Secret_retiring
      \<and> (case sr_retire_at v of None \<Rightarrow> False | Some t \<Rightarrow> t \<le> st)))"
proof -
  obtain q where q: "purge_retired_secrets b st (\<lambda>_. False) (mx_queue s) = Inr (0, q)"
      "s' = audited ids ''secret.purge'' (cleared (\<lambda>v. sr_state v = Secret_retiring) (\<lambda>v. (sr_ws v, sr_id v))
        (db_secrets (mx_queue s)) (db_secrets q)) (on_mx_queue (\<lambda>_. q) s)"
    by (rule purge_secrets_queue [OF assms])
  let ?xs = "filter (\<lambda>v. sr_state v = Secret_retiring \<and> (case sr_retire_at v of None \<Rightarrow> False | Some t \<Rightarrow> t \<le> st)) (db_secrets (mx_queue s))"
  have b: "1 \<le> b" "b \<le> 1000" using q(1) by (auto simp: purge_retired_secrets_def split: if_splits)
  then have "length (take (nat b) (sort_key (\<lambda>v. (the (sr_retire_at v), sr_id v)) ?xs)) = 0"
    using q(1) by (simp only: purge_retired_secrets_def Let_def if_False sum.inject prod.inject not_less [symmetric] simp_thms)
  then have e: "?xs = []" using b(1) by (rule taken_none)
  then have "q = mx_queue s" using q(1) b
    by (simp add: purge_retired_secrets_def update_where_none)
  then show ?thesis using e q(2) by (simp add: on_mx_queue_def filter_empty_conv)
qed

lemma sessions_none:
  assumes "on_sessions (purge_console_sessions b st now lk) s = Inr (0, s')"
  shows "s' = s"
proof -
  obtain y where y: "purge_console_sessions b st now lk (mx_sessions s) = Inr (0, y)" "s' = s\<lparr>mx_sessions := y\<rparr>"
    using assms by (auto simp: on_sessions_def split: sum.splits prod.splits)
  then show ?thesis using purge_console_sessions_rows [OF y(1)] by (auto simp: update_where_none)
qed

section \<open>The store keeps the contract\<close>

definition calm :: "(nat \<Rightarrow> pass_env) \<Rightarrow> bool" where
  "calm env \<longleftrightarrow> (\<forall>k. pe_locks (env k) = nobody \<and> snd (pe_workspace (env k)) \<le> snd (pe_workspace (env (Suc k))))"

text \<open>A pass in which every statement succeeds and finds no row held, in transactions that begin one after the other.\<close>

definition pass_times :: "pass_env \<Rightarrow> instant list" where
  "pass_times e = map snd [pe_payloads e, pe_secrets e, pe_sessions e, pe_metadata e, pe_workspace e, pe_backlog e]"

definition steady_pass :: "pass_env \<Rightarrow> bool" where
  "steady_pass e \<longleftrightarrow> fst (pe_payloads e) = Ok \<and> fst (pe_secrets e) = Ok \<and> fst (pe_sessions e) = Ok \<and> fst (pe_metadata e) = Ok
     \<and> fst (pe_workspace e) = Ok \<and> fst (pe_backlog e) = Ok \<and> sorted (pass_times e) \<and> pe_held e = (\<lambda>_. False)"

definition maintained :: "(nat \<Rightarrow> pass_env) \<Rightarrow> nat \<Rightarrow> maintenance_db \<Rightarrow> bool" where
  "maintained env k s \<longleftrightarrow> calm env \<and> jobs_keyed s \<and> attempts_owned s \<and> jobs_due_by (snd (pe_workspace (env k))) s"

lemma store_keeps_jobs: "store_purge T e 100 s = (r, s') \<Longrightarrow> jobs_keyed s \<Longrightarrow> jobs_keyed s'"
  by (erule store_purge_keeps [where I = jobs_keyed])
    (auto simp: jobs_keyed_def data_jobs sessions_jobs metadata_jobs dest: purge_workspace_jobs(1) [unfolded jobs_keyed_def])

lemma store_keeps_owned: "store_purge T e 100 s = (r, s') \<Longrightarrow> attempts_owned s \<Longrightarrow> attempts_owned s'"
  by (erule store_purge_keeps [where I = attempts_owned])
    (auto dest: payloads_owned secrets_owned sessions_owned metadata_owned purge_workspace_owned)

lemma store_keeps_due:
  "store_purge T e 100 s = (r, s') \<Longrightarrow> jobs_due_by t s \<Longrightarrow> snd (pe_workspace e) \<le> t \<Longrightarrow> jobs_due_by t s'"
  by (erule store_purge_keeps [where I = "jobs_due_by t"])
    (auto simp: jobs_due_by_def data_jobs sessions_jobs metadata_jobs dest: purge_workspace_jobs(2) [unfolded jobs_due_by_def])

lemma store_keeps_maintained:
  assumes "maintained env k s" and "store_purge T (env k) 100 s = ((c, err), s')"
  shows "maintained env (Suc k) s'"
proof -
  have "snd (pe_workspace (env k)) \<le> snd (pe_workspace (env (Suc k)))" using assms(1) by (simp add: maintained_def calm_def)
  moreover have "jobs_due_by (snd (pe_workspace (env k))) s'"
    using store_keeps_due [OF assms(2)] assms(1) by (simp add: maintained_def)
  ultimately show ?thesis
    using assms(1) store_keeps_jobs [OF assms(2)] store_keeps_owned [OF assms(2)]
    by (auto simp: maintained_def jobs_due_by_def)
qed

lemma store_progress:
  assumes "maintained env k s" and "store_purge T (env k) 100 s = ((c, None), s')" and "0 < progress c"
  shows "maintenance_weight s' < maintenance_weight s"
  using assms(2)
proof (cases rule: store_purge_ok)
  case (1 n1 s1 n2 s2 n3 s3 m s4 w)
  have nb: "pe_locks (env k) = nobody" and keyed: "jobs_keyed s" using assms(1) by (auto simp: maintained_def calm_def)
  have sh: "shrinks (n1 + (n2 + (n3 + metadata_total m))) s s4"
    by (intro shrinks_trans [OF payloads_shrink [OF 1(1)]] shrinks_trans [OF secrets_shrink [OF 1(2)]]
        shrinks_trans [OF sessions_shrink [OF 1(3)]] metadata_shrinks [OF 1(4)])
  show ?thesis
  proof (cases w)
    case None
    then show ?thesis using sh 1(5,6) assms(3) purge_workspace_idle by (fastforce simp: shrinks_def)
  next
    case (Some x)
    obtain ws n d p where x: "x = (ws, n, d, p)" by (cases x) auto
    have "mx_jobs s4 = mx_jobs s" using 1(1-4) by (simp add: data_jobs sessions_jobs metadata_jobs)
    then have "jobs_keyed s4" using keyed by (simp add: jobs_keyed_def)
    then have "maintenance_weight s' < maintenance_weight s4"
      using purge_workspace_shrinks 1(5) [unfolded nb Some x] by blast
    then show ?thesis using sh by (simp add: shrinks_def)
  qed
qed

lemma store_clean:
  assumes "attempts_owned s" and "\<forall>j\<in>set (mx_jobs s). \<not> job_ready t j" and "metadata_clean T t s"
    and "\<forall>e\<in>set (db_events (mx_queue s)). \<not> (er_payload e \<noteq> None \<and> er_expires e \<le> t)"
    and "\<forall>v\<in>set (db_secrets (mx_queue s)). \<not> (sr_state v = Secret_retiring
      \<and> (case sr_retire_at v of None \<Rightarrow> False | Some r \<Rightarrow> r \<le> t))"
  shows "retention_backlog T t s = []"
proof -
  have "\<forall>a\<in>set (db_attempts (mx_queue s)). \<not> (workspace_exists (at_ws a) s \<and> at_state a \<noteq> Started
      \<and> (case at_finished a of None \<Rightarrow> False | Some f \<Rightarrow> f + days (rt_days T (at_ws a)) \<le> t))"
    using assms(1,3) by (auto simp: metadata_clean_def attempts_owned_def attempt_expired_def)
  then show ?thesis using assms(2-5)
    unfolding retention_backlog_def Let_def append_is_Nil_conv map_is_Nil_conv filter_empty_conv metadata_clean_def
    by blast
qed

text \<open>With the batch the runner asks for no statement is refused.\<close>

lemma statements_accepted:
  "purge_payloads ids 100 t lk s \<noteq> Inl err" "purge_secrets ids 100 t lk s \<noteq> Inl err"
  "on_sessions (purge_console_sessions 100 t now lk) s \<noteq> Inl err" "purge_expired_metadata T locks 100 t s \<noteq> Inl err"
  "purge_workspace locks 100 audit t s \<noteq> Inl err"
  by (auto simp: purge_payloads_def purge_secrets_def on_data_def on_sessions_def purge_expired_payloads_def purge_retired_secrets_def purge_console_sessions_def
      purge_expired_metadata_def purge_workspace_def Let_def split: prod.splits option.splits)

lemma statement_accepted: "statement Ok f s = (r, s') \<Longrightarrow> (\<And>err. f s \<noteq> Inl err) \<Longrightarrow> \<exists>a. r = Inr a"
  by (auto simp: statement_def split: sum.splits)

lemma store_steady:
  assumes "steady_pass e" and "store_purge T e 100 s = ((c, err), s')"
  shows "err = None"
  using assms(2)
proof (cases rule: store_purge_cases)
  case (1 r1 r2 r3 r4 r5 s1 s2 s3 s4 s5)
  have ok: "fst (pe_payloads e) = Ok" "fst (pe_secrets e) = Ok" "fst (pe_sessions e) = Ok" "fst (pe_metadata e) = Ok"
    "fst (pe_workspace e) = Ok" using assms(1) by (simp_all add: steady_pass_def)
  note a = 1(1-5) [unfolded ok, THEN statement_accepted]
  obtain n1 n2 n3 m w where "r1 = Inr n1" "r2 = Inr n2" "r3 = Inr n3" "r4 = Inr m" "r5 = Inr w"
    using a(1) [OF statements_accepted(1)] a(2) [OF statements_accepted(2)] a(3) [OF statements_accepted(3)]
      a(4) [OF statements_accepted(4)] a(5) [OF statements_accepted(5)] by blast
  then show ?thesis using 1(6) by simp
qed

text \<open>What is not due now was not due before.\<close>

lemma metadata_clean_before: "metadata_clean T t s \<Longrightarrow> t0 \<le> t \<Longrightarrow> metadata_clean T t0 s"
  unfolding metadata_clean_def attempt_expired_def replay_expired_def rotation_expired_def delivery_expired_def event_expired_def
    audit_expired_def
  by (fastforce split: option.splits)

lemma due_job_before:
  assumes "due_job nobody t s = None" and "jobs_due_by t s" and "t0 \<le> t"
  shows "\<forall>j\<in>set (mx_jobs s). \<not> job_ready t0 j"
proof
  fix j assume j: "j \<in> set (mx_jobs s)"
  then have "\<not> job_ready t j" using no_due_job [OF assms(1)] assms(2) by (auto simp: jobs_due_by_def)
  then show "\<not> job_ready t0 j" using assms(3) by (auto simp: job_ready_def split: option.splits)
qed

definition store_clean_at :: "retention_times \<Rightarrow> (nat \<Rightarrow> pass_env) \<Rightarrow> nat \<Rightarrow> maintenance_db \<Rightarrow> bool" where
  "store_clean_at T env k s \<longleftrightarrow> retention_backlog T (snd (pe_payloads (env k))) s = []"

lemma store_done:
  assumes "maintained env k s" and "steady_pass (env k)" and "store_purge T (env k) 100 s = ((c, err), s')"
    and "\<not> 0 < progress c"
  shows "store_clean_at T env k s'"
proof -
  let ?e = "env k"
  define t where "t = snd (pe_payloads ?e)"
  have t: "t \<le> snd (pe_secrets ?e)" "t \<le> snd (pe_metadata ?e)" "t \<le> snd (pe_workspace ?e)"
    using assms(2) by (simp_all add: steady_pass_def pass_times_def t_def)
  have free: "pe_held ?e = (\<lambda>_. False)" using assms(2) by (simp add: steady_pass_def)
  have nb: "pe_locks ?e = nobody" using assms(1) by (simp add: maintained_def calm_def)
  have "store_purge T ?e 100 s = ((c, None), s')" using assms(3) store_steady [OF assms(2,3)] by simp
  then show ?thesis
  proof (cases rule: store_purge_ok)
    case (1 n1 s1 n2 s2 n3 s3 m s4 w)
    have w: "w = None" using 1(6) assms(4) by (cases w) (auto split: prod.splits)
    have z: "n1 = 0" "n2 = 0" "n3 = 0" "metadata_total m = 0" using 1(6) assms(4) w by auto
    have p: "s1 = s" "\<forall>e\<in>set (db_events (mx_queue s)). \<not> (er_payload e \<noteq> None \<and> er_expires e \<le> t)"
      using payloads_none [OF 1(1) [unfolded z free]] t_def by blast+
    have q: "s2 = s" "\<forall>v\<in>set (db_secrets (mx_queue s)). \<not> (sr_state v = Secret_retiring
      \<and> (case sr_retire_at v of None \<Rightarrow> False | Some r \<Rightarrow> r \<le> snd (pe_secrets ?e)))"
      using secrets_none [OF 1(2) [unfolded z free p(1)]] by blast+
    have q': "\<forall>v\<in>set (db_secrets (mx_queue s)). \<not> (sr_state v = Secret_retiring
      \<and> (case sr_retire_at v of None \<Rightarrow> False | Some r \<Rightarrow> r \<le> t))"
      using q(2) t(1) by (fastforce split: option.splits)
    have r: "s3 = s" using sessions_none [OF 1(3) [unfolded z q(1)]] .
    have m: "s4 = s" "metadata_clean T (snd (pe_metadata ?e)) s" using metadata_none [OF 1(4) [unfolded nb r] z(4)] by blast+
    have d: "s' = s" "due_job nobody (snd (pe_workspace ?e)) s = None"
      using purge_workspace_idle [OF 1(5) [unfolded nb w m(1)]] by blast+
    have j: "\<forall>j\<in>set (mx_jobs s). \<not> job_ready t j"
      using due_job_before [OF d(2) _ t(3)] assms(1) by (simp add: maintained_def)
    have "retention_backlog T t s = []"
      using store_clean [OF _ j metadata_clean_before [OF m(2) t(2)] p(2) q'] assms(1) by (simp add: maintained_def)
    then show ?thesis by (simp add: store_clean_at_def t_def d)
  qed
qed

lemma store_backlog_steady: "steady_pass e \<Longrightarrow> \<exists>b. store_backlog T e s = Inr b"
  by (cases "pe_backlog e") (auto simp: store_backlog_def steady_pass_def Let_def)

interpretation store: maintenance_store
    "\<lambda>k. store_purge T (env k) 100" "\<lambda>k. store_backlog T (env k)" "maintained env" maintenance_weight
    "\<lambda>k. steady_pass (env k)" "store_clean_at T env" for T :: retention_times and env :: "nat \<Rightarrow> pass_env"
  by unfold_locales (blast intro: store_keeps_maintained store_progress store_done store_steady store_backlog_steady)+

section \<open>What a report says\<close>

lemma run_loop_result:
  "run_loop fuel purge backlog now k r s = Some (r', None, s') \<Longrightarrow>
     \<exists>k' b. backlog k' s' = Inr b \<and> bl_total b = 0 \<and> rp_last_ok r' = Some (now k')"
proof (induction fuel arbitrary: k r s)
  case (Suc fuel)
  obtain c err s1 where p: "purge k s = ((c, err), s1)" by (metis prod.exhaust)
  have e: "err = None" using Suc.prems p by (cases err) (auto simp: Let_def)
  show ?case
  proof (cases "0 < progress c")
    case True
    then show ?thesis using Suc.prems p e by (auto simp: Let_def intro: Suc.IH)
  next
    case False
    obtain b where b: "backlog k s1 = Inr b" "bl_total b = 0"
      using Suc.prems p e False by (cases "backlog k s1") (auto simp: Let_def split: if_splits)
    then show ?thesis using Suc.prems p e False
      by (intro exI [of _ k] exI [of _ b]) (auto simp: Let_def)
  qed
qed simp

text \<open>A workspace with a claimed delivery and a purge of it that is due.\<close>

definition demo_maintenance :: maintenance_db where
  "demo_maintenance = \<lparr>mx_data = \<lparr>ap_queue = demo_db2, ap_subs = [(1, 2, ''order.created'')], ap_rotations = []\<rparr>,
     mx_sessions = \<lparr>sb_auth = \<lparr>ad_workspaces = [], ad_keys = [], ad_scopes = [(1, 4, ''events:write'')], ad_audits = []\<rparr>,
        sb_sessions = [], sb_ready = Some 1\<rparr>,
     mx_buckets = [],
     mx_jobs = [\<lparr>jb_id = 9, jb_ws = 1, jb_status = Job_pending, jb_checkpoint = Replay_commands, jb_scheduled = 0,
        jb_lease = None, jb_token = 0, jb_attempts = 0, jb_processed = 0\<rparr>],
     mx_tombstones = [\<lparr>tb_ws = 1, tb_generation = 1, tb_deleted = 0, tb_completed = None\<rparr>],
     mx_generation = 1\<rparr>"

definition demo_times :: retention_times where
  "demo_times = \<lparr>rt_event = (\<lambda>_. 0), rt_replay = (\<lambda>_. 0), rt_rotation = (\<lambda>_. 0), rt_audit = (\<lambda>_. 0), rt_days = (\<lambda>_. 30),
     rt_audit_days = 365\<rparr>"

definition demo_pass :: pass_env where
  "demo_pass = \<lparr>pe_payloads = (Ok, 5), pe_secrets = (Ok, 5), pe_sessions = (Ok, 5), pe_metadata = (Ok, 5), pe_workspace = (Ok, 5),
     pe_backlog = (Ok, 5), pe_clock = 5, pe_held = (\<lambda>_. False), pe_locks = nobody, pe_ids = (\<lambda>k i. of_nat (100 * k + i))\<rparr>"

lemma demo_maintained: "jobs_keyed demo_maintenance" "attempts_owned demo_maintenance" "jobs_due_by 5 demo_maintenance"
  by (simp_all add: demo_maintenance_def jobs_keyed_def attempts_owned_def jobs_due_by_def demo_defs new_attempt_def
      claim_delivery_row_def new_delivery_def dkey_def akey_def)

section \<open>Properties\<close>

text \<open>C34. A maintenance run that nobody interferes with ends: when no other transaction holds rows of the maintained tables or writes
  to them during the run, and no purge job is scheduled in the future, then whatever the transaction times and whichever
  statements fail, \<open>RunOnce\<close> returns after at most one pass more than the weight of the tables (the rows it can still delete,
  scrub or finish). With rows that stay held the runner has no such bound; then only its time budget, a statement that
  fails, ends it.\<close>

theorem retention_ends:
  assumes "\<forall>k. pe_locks (env k) = nobody" and "\<forall>k. snd (pe_workspace (env k)) \<le> snd (pe_workspace (env (Suc k)))"
    and "jobs_keyed s" and "attempts_owned s" and "jobs_due_by (snd (pe_workspace (env 0))) s"
    and "maintenance_weight s < fuel"
  shows "\<exists>rep rn' s'. run_once fuel (\<lambda>k. store_purge T (env k) 100) (\<lambda>k. store_backlog T (env k)) now started ended rn s
            = Some (rep, rn', s') \<and> rp_batches rep \<le> int (maintenance_weight s) + 1"
proof -
  have "maintained env 0 s" using assms by (simp add: maintained_def calm_def)
  from store.run_ends [OF this assms(6), of T now empty_report] show ?thesis
    by (auto simp: run_once_def Let_def empty_report_def)
qed

theorem retention_ends_witness:
  "\<exists>rep rn' s'. run_once (Suc (maintenance_weight demo_maintenance)) (\<lambda>k. store_purge demo_times demo_pass 100) (\<lambda>k. store_backlog demo_times demo_pass)
      (\<lambda>_. 5) 4 6 (new_runner 0) demo_maintenance = Some (rep, rn', s') \<and> rp_batches rep \<le> int (maintenance_weight demo_maintenance) + 1"
  using retention_ends [of "\<lambda>_. demo_pass" demo_maintenance "Suc (maintenance_weight demo_maintenance)" demo_times "\<lambda>_. 5" 4 6 "new_runner 0"]
    demo_maintained by (simp add: demo_pass_def)

text \<open>C35. A run that is not disturbed drains: when every statement succeeds, the six transactions of a pass begin in their
  order, no other transaction holds rows of the maintained tables or writes to them, and no purge job is scheduled in the
  future, then the run ends, and nothing that was due when its last pass began is left. It is degraded exactly when
  something fell due between then and the backlog query at its end; otherwise \<open>Ready\<close> reports success for the next 25 hours.\<close>

theorem retention_drains:
  assumes "\<forall>k. steady_pass (env k) \<and> pe_locks (env k) = nobody"
    and "\<forall>k. snd (pe_workspace (env k)) \<le> snd (pe_workspace (env (Suc k)))"
    and "jobs_keyed s" and "attempts_owned s" and "jobs_due_by (snd (pe_workspace (env 0))) s"
    and "maintenance_weight s < fuel"
  shows "\<exists>rep rn' s' k. run_once fuel (\<lambda>k. store_purge T (env k) 100) (\<lambda>k. store_backlog T (env k)) now started ended rn s
            = Some (rep, rn', s') \<and> rp_batches rep = int k + 1 \<and> k \<le> maintenance_weight s
          \<and> retention_backlog T (snd (pe_payloads (env k))) s' = []
          \<and> rp_backlog rep = int (length (retention_backlog T (snd (pe_backlog (env k))) s'))
          \<and> (if retention_backlog T (snd (pe_backlog (env k))) s' = []
             then \<not> rp_degraded rep \<and> rp_last_ok rep = Some (now k) \<and> (\<forall>t. (runner_ready t rn' = None) = (t - now k \<le> 25 * hour))
             else rp_degraded rep \<and> (\<forall>t. runner_ready t rn' \<noteq> None))"
proof -
  have "maintained env 0 s" using assms by (simp add: maintained_def calm_def)
  from store.run_drains [OF this assms(6), of T now empty_report] assms(1)
  obtain r err s' k b where r: "run_loop fuel (\<lambda>k. store_purge T (env k) 100) (\<lambda>k. store_backlog T (env k)) now 0 empty_report s
      = Some (r, err, s')" "rp_batches r = rp_batches empty_report + int k - int 0 + 1"
      "rp_batches r \<le> rp_batches empty_report + int (maintenance_weight s) + 1"
    and c: "store_clean_at T env k s'" "store_backlog T (env k) s' = Inr b" "rp_backlog r = bl_total b"
    and e: "if bl_total b = 0 then err = None \<and> rp_last_ok r = Some (now k) else err = Some ''retention: maintenance degraded''"
    by blast
  have b: "bl_total b = int (length (retention_backlog T (snd (pe_backlog (env k))) s'))"
    using c(2) by (auto simp: store_backlog_def Let_def split: prod.splits outcome.splits)
  let ?rep = "r\<lparr>rp_duration := ended - started, rp_degraded := err \<noteq> None\<rparr>"
  have once: "run_once fuel (\<lambda>k. store_purge T (env k) 100) (\<lambda>k. store_backlog T (env k)) now started ended rn s
      = Some (?rep, rn\<lparr>rn_report := ?rep, rn_last_err := err\<rparr>, s')" using r(1) by (simp add: run_once_def Let_def)
  have n: "rp_batches r = int k + 1" "k \<le> maintenance_weight s" using r(2,3) by (simp_all add: empty_report_def)
  show ?thesis
    by (intro exI [of _ ?rep] exI [of _ "rn\<lparr>rn_report := ?rep, rn_last_err := err\<rparr>"] exI [of _ s'] exI [of _ k] conjI once)
      (use n c(1,3) b e in \<open>auto simp: store_clean_at_def runner_ready_def\<close>)
qed

text \<open>The passes of the small database, each ten nanoseconds after the one before.\<close>

definition demo_passes :: "nat \<Rightarrow> pass_env" where
  "demo_passes k = demo_pass\<lparr>pe_payloads := (Ok, 10 * int k), pe_secrets := (Ok, 10 * int k + 1), pe_sessions := (Ok, 10 * int k + 2),
     pe_metadata := (Ok, 10 * int k + 3), pe_workspace := (Ok, 10 * int k + 4), pe_backlog := (Ok, 10 * int k + 5)\<rparr>"

theorem retention_drains_witness:
  "\<exists>rep rn' s' k. run_once (Suc (maintenance_weight demo_maintenance)) (\<lambda>k. store_purge demo_times (demo_passes k) 100)
      (\<lambda>k. store_backlog demo_times (demo_passes k)) (\<lambda>_. 5) 4 6 (new_runner 0) demo_maintenance = Some (rep, rn', s')
     \<and> rp_batches rep = int k + 1 \<and> retention_backlog demo_times (10 * int k) s' = []"
proof -
  have "\<forall>k. steady_pass (demo_passes k) \<and> pe_locks (demo_passes k) = nobody"
    "\<forall>k. snd (pe_workspace (demo_passes k)) \<le> snd (pe_workspace (demo_passes (Suc k)))"
    by (simp_all add: demo_passes_def demo_pass_def steady_pass_def pass_times_def)
  moreover have "jobs_due_by (snd (pe_workspace (demo_passes 0))) demo_maintenance"
    by (simp add: demo_passes_def demo_maintenance_def jobs_due_by_def)
  ultimately show ?thesis
    using retention_drains [of demo_passes demo_maintenance "Suc (maintenance_weight demo_maintenance)" demo_times "\<lambda>_. 5" 4 6 "new_runner 0"]
      demo_maintained by (auto simp: demo_passes_def)
qed

text \<open>C36. Readiness never lies: whatever fails or is locked during a run, when \<open>Ready\<close> reports success afterwards the last
  statement of that run was a backlog query that found nothing due in the tables it left, no more than 25 hours ago; and a
  run that met any error, or left anything due, is reported as degraded and not ready.\<close>

theorem ready_means_clean:
  "case run_once fuel (\<lambda>k. store_purge T (env k) batch) (\<lambda>k. store_backlog T (env k)) now started ended rn s of
     None \<Rightarrow> True
   | Some (rep, rn', s') \<Rightarrow>
       if rp_degraded rep then runner_ready t rn' \<noteq> None
       else \<exists>k. retention_backlog T (snd (pe_backlog (env k))) s' = [] \<and> (runner_ready t rn' = None) = (t - now k \<le> 25 * hour)"
proof (cases "run_loop fuel (\<lambda>k. store_purge T (env k) batch) (\<lambda>k. store_backlog T (env k)) now 0 empty_report s")
  case None
  then show ?thesis by (simp add: run_once_def)
next
  case (Some x)
  obtain r err s' where x: "x = (r, err, s')" by (cases x) auto
  note r = Some [unfolded x]
  show ?thesis
  proof (cases err)
    case None
    obtain k b where k: "store_backlog T (env k) s' = Inr b" "bl_total b = 0" "rp_last_ok r = Some (now k)"
      using run_loop_result [OF r [unfolded None]] by blast
    then have "retention_backlog T (snd (pe_backlog (env k))) s' = []"
      by (auto simp: store_backlog_def Let_def split: prod.splits outcome.splits)
    then show ?thesis using k(3) by (auto simp: run_once_def r None runner_ready_def Let_def)
  qed (simp add: run_once_def r runner_ready_def Let_def)
qed

section \<open>Held rows\<close>

text \<open>The small database while another transaction holds the attempt of the workspace that is being purged: after \<open>n\<close> passes.\<close>

definition held_pass :: pass_env where
  "held_pass = demo_pass\<lparr>pe_locks := (\<lambda>p n. p = Attempts)\<rparr>"

definition spinning :: "int \<Rightarrow> maintenance_db" where
  "spinning n = demo_maintenance\<lparr>mx_jobs := [\<lparr>jb_id = 9, jb_ws = 1, jb_status = Job_pending, jb_checkpoint = Attempts, jb_scheduled = 5,
     jb_lease = None, jb_token = n, jb_attempts = n, jb_processed = 0\<rparr>]\<rparr>"

lemma spin_parts:
  "purge_payloads ids 100 5 (\<lambda>_. False) (spinning n) = Inr (0, spinning n)"
  "purge_secrets ids 100 5 (\<lambda>_. False) (spinning n) = Inr (0, spinning n)"
  "on_sessions (purge_console_sessions 100 5 5 (\<lambda>_. False)) (spinning n) = Inr (0, spinning n)"
  by (simp_all add: purge_payloads_def purge_secrets_def on_data_def purge_expired_payloads_def purge_retired_secrets_def
      on_sessions_def purge_console_sessions_def spinning_def demo_maintenance_def demo_defs on_mx_queue_def audited_def cleared_def on_mx_auth_def Let_def)

lemma delete_batch_nothing: "\<forall>x\<in>set xs. \<not> P x \<Longrightarrow> delete_batch n key held P xs = (0, xs)"
proof -
  assume "\<forall>x\<in>set xs. \<not> P x"
  then have "filter (\<lambda>(i, x). P x \<and> \<not> held i) (enumerate 0 xs) = []" by (auto simp: filter_empty_conv in_set_enumerate_eq)
  then have "batch_positions n key held P xs = []" unfolding batch_positions_def by simp
  then show ?thesis by (simp add: delete_batch_def)
qed

lemma metadata_nothing:
  assumes "metadata_clean T st s" and "1 \<le> batch" and "batch \<le> 1000"
  shows "\<exists>m. purge_expired_metadata T lk batch st s = Inr (m, s) \<and> metadata_total m = 0"
proof -
  note d = delete_batch_nothing and c = assms(1) [unfolded metadata_clean_def]
  have p: "purge_attempts T lk n st s = (0, s)" "purge_replays T lk n st s = (0, s)" "purge_rotations T lk n st s = (0, s)"
    "purge_deliveries T lk n st s = (0, s)" "purge_events T lk n st s = (0, s)" "purge_audits T lk n st s = (0, s)"
    "purge_buckets lk n st s = (0, s)" for n
    using c by (simp_all add: purge_part_defs d on_mx_queue_same on_mx_auth_same)
  show ?thesis using assms(2,3) by (simp add: purge_expired_metadata_def p metadata_total_def)
qed

lemma spin_metadata:
  "\<exists>m. purge_expired_metadata demo_times (pe_locks held_pass) 100 5 (spinning n) = Inr (m, spinning n) \<and> metadata_total m = 0"
proof (rule metadata_nothing)
  show "metadata_clean demo_times 5 (spinning n)"
    by (simp add: metadata_clean_def spinning_def demo_maintenance_def demo_times_def demo_defs event_expired_def
        attempt_expired_def delivery_expired_def audit_expired_def days_def)
qed simp_all

lemma spin_workspace:
  "purge_workspace (pe_locks held_pass) 100 audit 5 (spinning n) = Inr (Some (1, 0, False, Attempts), spinning (n + 1))"
  by (simp add: purge_workspace_def due_job_def job_ready_def spinning_def demo_maintenance_def held_pass_def demo_pass_def demo_defs
     first_step_def purge_order_def rows_left_def delete_step_def delete_batch_def batch_positions_def count_where_def
     on_mx_queue_def finish_job_def Let_def)

lemma spin_pass: "\<exists>c. store_purge demo_times held_pass 100 (spinning n) = ((c, None), spinning (n + 1)) \<and> progress c = 1"
proof -
  obtain m where m: "purge_expired_metadata demo_times (pe_locks held_pass) 100 5 (spinning n) = Inr (m, spinning n)" "metadata_total m = 0"
    using spin_metadata by blast
  have e: "pe_payloads held_pass = (Ok, 5)" "pe_secrets held_pass = (Ok, 5)" "pe_sessions held_pass = (Ok, 5)"
    "pe_metadata held_pass = (Ok, 5)" "pe_workspace held_pass = (Ok, 5)" "pe_clock held_pass = 5" "pe_held held_pass = (\<lambda>_. False)"
    by (simp_all add: held_pass_def demo_pass_def)
  show ?thesis
    by (simp add: store_purge_def e statement_def spin_parts m(1) spin_workspace progress_def)
      (use m(2) in \<open>simp add: metadata_total_def\<close>)
qed

text \<open>Rows that stay held keep a maintenance run busy: while another transaction holds the only attempt of a workspace that is
  being purged, every pass of the run reports the step it could not do as progress, so that the run passes over the tables
  again at once, whatever number of passes it is given; only the expiry of its time budget ends it.\<close>

theorem held_rows_spin:
  "run_once fuel (\<lambda>k. store_purge demo_times held_pass 100) (\<lambda>k. store_backlog demo_times held_pass) now started ended rn (spinning n) = None"
proof -
  have "run_loop fuel (\<lambda>k. store_purge demo_times held_pass 100) (\<lambda>k. store_backlog demo_times held_pass) now k r (spinning n) = None"
    for k r
  proof (induction fuel arbitrary: k r n)
    case (Suc fuel)
    obtain c where c: "store_purge demo_times held_pass 100 (spinning n) = ((c, None), spinning (n + 1))" "progress c = 1"
      using spin_pass by blast
    then show ?case using Suc.IH by simp
  qed simp
  then show ?thesis by (simp add: run_once_def)
qed

end
