(* ===== verification/Retention_Safety.thy ===== *)
theory Retention_Safety
  imports Retention_Drain Signing_Keys
begin

text \<open>
  What maintenance must not do: the purge of a workspace changes rows of that workspace only and reports completion only
  when none is left; a run never touches what is not yet due; a database that was restored from a backup lets nobody in.
\<close>

section \<open>The rows of a workspace\<close>

definition tenant_rows :: "uuid \<Rightarrow> maintenance_db \<Rightarrow> maintenance_db" where
  "tenant_rows w s = (let q = mx_queue s; a = mx_auth s in
     s\<lparr>mx_data := \<lparr>ap_queue = q\<lparr>db_workspaces := filter (\<lambda>x. wr_id x = w) (db_workspaces q),
          db_endpoints := filter (\<lambda>x. ep_ws x = w) (db_endpoints q), db_runtime := filter (\<lambda>x. rt_ws x = w) (db_runtime q),
          db_events := filter (\<lambda>x. er_ws x = w) (db_events q), db_secrets := filter (\<lambda>x. sr_ws x = w) (db_secrets q),
          db_deliveries := filter (\<lambda>x. dr_ws x = w) (db_deliveries q), db_attempts := filter (\<lambda>x. at_ws x = w) (db_attempts q),
          db_replays := filter (\<lambda>x. rc_ws x = w) (db_replays q)\<rparr>,
        ap_subs = filter (\<lambda>(x, e, t). x = w) (ap_subs (mx_data s)),
        ap_rotations = filter (\<lambda>x. ro_ws x = w) (ap_rotations (mx_data s))\<rparr>,
       mx_sessions := (mx_sessions s)\<lparr>sb_auth := \<lparr>ad_workspaces = filter (\<lambda>x. aw_id x = w) (ad_workspaces a),
            ad_keys = filter (\<lambda>x. ak_workspace x = w) (ad_keys a), ad_scopes = filter (\<lambda>(x, k, c). x = w) (ad_scopes a),
            ad_audits = filter (\<lambda>x. ae_workspace x = w) (ad_audits a)\<rparr>,
          sb_sessions := filter (\<lambda>x. se_ws x = w) (sb_sessions (mx_sessions s))\<rparr>,
       mx_buckets := filter (\<lambda>b. rb_workspace b = Some w) (mx_buckets s),
       mx_jobs := filter (\<lambda>j. jb_ws j = w) (mx_jobs s), mx_tombstones := filter (\<lambda>t. tb_ws t = w) (mx_tombstones s)\<rparr>)"

lemma filter_update_where_other: "(\<And>x. P x \<Longrightarrow> \<not> Q x \<and> \<not> Q (f x)) \<Longrightarrow> filter Q (update_where P f xs) = filter Q xs"
  by (induction xs) auto

lemma filter_other: "w \<noteq> v \<Longrightarrow> filter (\<lambda>x. f x \<noteq> v \<and> f x = w) xs = filter (\<lambda>x. f x = w) xs"
  by (rule filter_cong) auto

lemma tenant_jobs:
  "(\<And>j. j \<in> set (mx_jobs s) \<Longrightarrow> P j \<Longrightarrow> jb_ws j \<noteq> w) \<Longrightarrow> (\<And>j. jb_ws (f j) = jb_ws j) \<Longrightarrow>
     filter (\<lambda>j. jb_ws j = w) (update_where P f (mx_jobs s)) = filter (\<lambda>j. jb_ws j = w) (mx_jobs s)"
proof -
  assume a: "\<And>j. j \<in> set (mx_jobs s) \<Longrightarrow> P j \<Longrightarrow> jb_ws j \<noteq> w" and f: "\<And>j. jb_ws (f j) = jb_ws j"
  have "(\<And>j. j \<in> set js \<Longrightarrow> P j \<Longrightarrow> jb_ws j \<noteq> w) \<Longrightarrow>
      filter (\<lambda>j. jb_ws j = w) (update_where P f js) = filter (\<lambda>j. jb_ws j = w) js" for js
    by (induction js) (auto simp: f)
  then show ?thesis using a by blast
qed

lemma kept_key:
  "delete_batch n key held (\<lambda>x. f x = v) xs = (c, ys) \<Longrightarrow> w \<noteq> v \<Longrightarrow> filter (\<lambda>x. f x = w) ys = filter (\<lambda>x. f x = w) xs"
  by (erule delete_batch_kept) auto

lemma kept_triple:
  "delete_batch n key held (\<lambda>(x, y, z). x = v) xs = (c, ys) \<Longrightarrow> w \<noteq> v \<Longrightarrow>
     filter (\<lambda>(x, y, z). x = w) ys = filter (\<lambda>(x, y, z). x = w) xs"
  by (erule delete_batch_kept) auto

lemmas kept_keys = kept_key [where f = rc_ws] kept_key [where f = ro_ws] kept_key [where f = at_ws] kept_key [where f = dr_ws]
  kept_key [where f = er_ws] kept_key [where f = rt_ws] kept_key [where f = sr_ws] kept_key [where f = ep_ws] kept_triple
  kept_key [where f = rb_workspace and v = "Some v" and w = "Some w" for v w]

lemma delete_step_tenant:
  assumes "delete_step lk n ws p s = (c, s')" and "w \<noteq> ws"
  shows "tenant_rows w s' = tenant_rows w s"
proof (cases p)
  case Keys
  obtain xs where xs: "delete_batch n ak_id (lk Keys) (\<lambda>k. ak_workspace k = ws) (ad_keys (mx_auth s)) = (c, xs)"
      "s' = s\<lparr>mx_sessions := (mx_sessions s)\<lparr>sb_auth := (mx_auth s)\<lparr>ad_keys := xs\<rparr>,
              sb_sessions := filter (\<lambda>x. key_in (ad_keys (mx_auth s)) x \<longrightarrow> key_in xs x) (sb_sessions (mx_sessions s))\<rparr>\<rparr>"
    using assms by (auto simp: delete_step_def Keys Let_def split: prod.splits)
  have k: "filter (\<lambda>k. ak_workspace k = w) xs = filter (\<lambda>k. ak_workspace k = w) (ad_keys (mx_auth s))"
    by (rule delete_batch_kept [OF xs(1)]) (use assms(2) in auto)
  have in_k: "key_in ks x = key_in (filter (\<lambda>k. ak_workspace k = w) ks) x" if "se_ws x = w" for ks x
    using that by (auto simp: key_in_def list_ex_iff)
  have "filter (\<lambda>x. se_ws x = w) (filter (\<lambda>x. key_in (ad_keys (mx_auth s)) x \<longrightarrow> key_in xs x) (sb_sessions (mx_sessions s)))
      = filter (\<lambda>x. se_ws x = w) (sb_sessions (mx_sessions s))"
    unfolding filter_filter by (rule filter_cong [OF refl]) (metis in_k k)
  then show ?thesis using k by (simp add: tenant_rows_def xs(2) Let_def)
next
  case Workspace_step
  show ?thesis using assms
    by (auto simp: delete_step_def Workspace_step tenant_rows_def Let_def on_mx_queue_def on_mx_auth_def filter_other)
next
  case Complete
  then show ?thesis using assms(1) by (simp add: delete_step_def Let_def)
qed (use assms in \<open>auto simp: delete_step_def tenant_rows_def Let_def on_mx_queue_def on_mx_auth_def
      split: prod.splits dest!: kept_keys [where w = w]\<close>)

lemma complete_purge_tenant: "w \<noteq> ws \<Longrightarrow> tenant_rows w (complete_purge ws audit st s) = tenant_rows w s"
  by (simp add: tenant_rows_def complete_purge_def on_mx_auth_def Let_def filter_update_where_other)



lemma tenant_rows_jobs:
  "filter (\<lambda>j. jb_ws j = w) js = filter (\<lambda>j. jb_ws j = w) (mx_jobs s) \<Longrightarrow> tenant_rows w (s\<lparr>mx_jobs := js\<rparr>) = tenant_rows w s"
  by (simp add: tenant_rows_def Let_def)

lemma purge_workspace_tenant:
  assumes "purge_workspace lk batch audit st s = Inr (Some (ws, c, d, p'), s')" and "jobs_keyed s" and w: "w \<noteq> ws"
  shows "tenant_rows w s' = tenant_rows w s"
  using assms(1)
proof (cases rule: purge_workspace_job)
  case (1 job s1 p)
  let ?s2 = "if p' = Complete then complete_purge ws audit st s1 else s1"
  have jobs: "filter (\<lambda>j. jb_ws j = w) (update_where (\<lambda>j. jb_id j = jb_id job) (finish_job st c p') (mx_jobs s))
      = filter (\<lambda>j. jb_ws j = w) (mx_jobs s)"
    by (rule tenant_jobs) (use job_with_id [OF assms(2)] due_job_ready [OF 1(1)] 1(2) w in \<open>auto simp: finish_job_def\<close>)
  have s2: "tenant_rows w ?s2 = tenant_rows w s"
    using complete_purge_tenant [OF w] delete_step_tenant [OF 1(5) w] by simp
  have "mx_jobs ?s2 = mx_jobs s" using delete_step_jobs [OF 1(5)] by (simp add: complete_purge_def on_mx_auth_def)
  then have "tenant_rows w s' = tenant_rows w ?s2" unfolding 1(8) using jobs by (intro tenant_rows_jobs) simp
  then show ?thesis using s2 by simp
qed




section \<open>Quarantine after a restore\<close>

definition shut_out :: "maintenance_db \<Rightarrow> bool" where
  "shut_out s \<longleftrightarrow> (\<forall>k\<in>set (ad_keys (mx_auth s)). ak_status k \<noteq> ''active'')
     \<and> (\<forall>v\<in>set (db_secrets (mx_queue s)). sr_state v \<noteq> Secret_active)"

lemma found_row: "find P xs = Some x \<Longrightarrow> x \<in> set xs \<and> P x"
  by (auto simp: find_Some_iff)

lemma shut_out_keys:
  assumes "shut_out s"
  shows "authenticate_token (db_lookup (mx_auth s)) pepper now token = Inl Err_unauthorized"
proof -
  have "ar_status r \<noteq> ''active''" if "authenticate_key (mx_auth s) prefix = Some r" for prefix r
  proof -
    obtain k where "k \<in> set (ad_keys (mx_auth s))" "ar_status r = ak_status k"
      using \<open>authenticate_key (mx_auth s) prefix = Some r\<close> by (auto simp: authenticate_key_def split: if_splits option.splits dest!: found_row)
    then show ?thesis using assms by (simp add: shut_out_def)
  qed
  then show ?thesis by (auto simp: authenticate_token_def db_lookup_def Let_def split: option.splits)
qed

lemma shut_out_sessions:
  assumes "shut_out s"
  shows "authenticate_session sv st clk token (mx_sessions s) = Inl Err_session_unauthorized"
    and "create_console_session i ws key pfx ver audit st clk (mx_sessions s) = Inr x \<Longrightarrow> False"
proof -
  have u: "\<not> key_usable t ws key (mx_auth s)" for t ws key
    using assms by (auto simp: key_usable_def shut_out_def list_ex_iff)
  then have "find (resumable st g (mx_auth s) j) xs = None" for g j xs
    by (simp add: find_None_iff resumable_def)
  then have "session_resume j st clk (mx_sessions s) = Inl Err_session_other" for j
    by (simp add: session_resume_def resume_console_session_def split: option.splits)
  then show "authenticate_session sv st clk token (mx_sessions s) = Inl Err_session_unauthorized"
    by (auto simp: authenticate_session_def Let_def split: option.splits)
  show False if "create_console_session i ws key pfx ver audit st clk (mx_sessions s) = Inr x"
    using that u by (auto simp: create_console_session_def split: if_splits option.splits)
qed

lemma shut_out_claims:
  assumes "shut_out s" and "claim_deliveries w is ttl lim wl el st clk locked (mx_queue s) = Inr (cs, q)"
  shows "cs = []"
proof (cases cs)
  case (Cons c cs')
  then have "claims_secret (db_secrets (mx_queue s)) c" using claim_deliveries_secrets [OF assms(2), of c] by simp
  then show ?thesis using assms(1) by (auto simp: claims_secret_def shut_out_def dest!: found_row)
qed

lemma update_where_all: "(\<And>x. P x \<Longrightarrow> \<not> P (f x)) \<Longrightarrow> \<forall>x\<in>set (update_where P f xs). \<not> P x"
  by (induction xs) auto

lemma quarantine_state:
  assumes "enter_restore_quarantine generation audit st s = Inr (True, s')"
  shows "shut_out s'" and "\<exists>s''. complete_restore_reconciliation generation audit' s' = Inr (True, s'') \<and> shut_out s''"
proof -
  let ?a = "mx_auth s" and ?q = "mx_queue s"
  have s': "generation > 0" "mx_queue s' = quarantine_queue st ?q" "mx_generation s' = generation" "sb_ready (mx_sessions s') = None"
    "ad_keys (mx_auth s') = update_where (\<lambda>k. ak_status k = ''active'')
       (\<lambda>k. k\<lparr>ak_status := ''revoked'', ak_revoked := Some (case ak_revoked k of None \<Rightarrow> st | Some t \<Rightarrow> t)\<rparr>) (ad_keys ?a)"
    "ad_workspaces (mx_auth s') = update_where (\<lambda>w. aw_status w \<noteq> ''suspended'') (\<lambda>w. w\<lparr>aw_status := ''suspended''\<rparr>) (ad_workspaces ?a)"
    using assms by (auto simp: enter_restore_quarantine_def on_mx_queue_def Let_def split: if_splits)
  have keys: "\<forall>k\<in>set (ad_keys (mx_auth s')). ak_status k \<noteq> ''active''"
    unfolding s' by (rule update_where_all) simp
  have "\<forall>v\<in>set (db_secrets (quarantine_queue st ?q)). \<not> sr_state v \<noteq> Secret_purged"
    unfolding quarantine_queue_def by simp (rule update_where_all [where P = "\<lambda>v. sr_state v \<noteq> Secret_purged", simplified], simp add: purge_secret_row_def)
  then have secrets: "\<forall>v\<in>set (db_secrets (mx_queue s')). sr_state v \<noteq> Secret_active" by (simp add: s')
  show shut: "shut_out s'" using keys secrets by (simp add: shut_out_def)
  have "\<forall>w\<in>set (ad_workspaces (mx_auth s')). \<not> aw_status w \<noteq> ''suspended''" unfolding s' by (rule update_where_all) simp
  then have "\<not> list_ex (\<lambda>w. aw_status w = ''active'') (ad_workspaces (mx_auth s'))" by (auto simp: list_ex_iff)
  moreover have "\<forall>e\<in>set (db_endpoints (mx_queue s')). \<not> ep_status e \<noteq> ''disabled''"
    unfolding s' quarantine_queue_def by simp (rule update_where_all [where P = "\<lambda>e. ep_status e \<noteq> ''disabled''", simplified], simp)
  then have "\<not> list_ex ep_active (db_endpoints (mx_queue s'))" by (auto simp: list_ex_iff)
  moreover have "\<forall>d\<in>set (db_deliveries (mx_queue s')). \<not> live_status d"
    unfolding s' quarantine_queue_def by simp (rule update_where_all, simp add: fail_row_def live_status_def)
  then have "\<not> list_ex (\<lambda>d. dr_status d = Processing) (db_deliveries (mx_queue s'))"
    by (auto simp: list_ex_iff live_status_def)
  moreover have "\<not> list_ex (\<lambda>k. ak_status k = ''active'') (ad_keys (mx_auth s'))" using keys by (auto simp: list_ex_iff)
  ultimately show "\<exists>s''. complete_restore_reconciliation generation audit' s' = Inr (True, s'') \<and> shut_out s''"
    using s'(1,3,4) shut by (simp add: complete_restore_reconciliation_def shut_out_def)
qed

text \<open>C39. After a restored database has been put in quarantine, and still after its reconciliation, which then always
  succeeds, no API key and no console session of the backup authenticates, no session is made for one of its keys, and no
  delivery is claimed: what the backup revived can neither log in nor send.\<close>

theorem quarantine_revokes:
  assumes "enter_restore_quarantine generation audit st s = Inr (True, s')"
  shows "\<exists>s''. complete_restore_reconciliation generation audit' s' = Inr (True, s'')
    \<and> (\<forall>x\<in>{s', s''}.
         (\<forall>pepper now token. authenticate_token (db_lookup (mx_auth x)) pepper now token = Inl Err_unauthorized)
       \<and> (\<forall>sv t clk token. authenticate_session sv t clk token (mx_sessions x) = Inl Err_session_unauthorized)
       \<and> (\<forall>i ws key pfx ver aud t clk r. create_console_session i ws key pfx ver aud t clk (mx_sessions x) \<noteq> Inr r)
       \<and> (\<forall>w is ttl lim wl el t clk locked cs q.
            claim_deliveries w is ttl lim wl el t clk locked (mx_queue x) = Inr (cs, q) \<longrightarrow> cs = []))"
proof -
  obtain s'' where c: "complete_restore_reconciliation generation audit' s' = Inr (True, s'')" "shut_out s''"
    using quarantine_state(2) [OF assms] by blast
  have "shut_out x" if "x \<in> {s', s''}" for x using that c(2) quarantine_state(1) [OF assms] by blast
  then show ?thesis using c(1)
    by (intro exI [of _ s''] conjI ballI allI impI notI)
      (simp_all add: shut_out_keys shut_out_sessions, blast dest: shut_out_sessions(2), blast dest: shut_out_claims)
qed

theorem quarantine_revokes_witness:
  "\<exists>s' s''. enter_restore_quarantine 2 8 5 demo_maintenance = Inr (True, s')
     \<and> complete_restore_reconciliation 2 9 s' = Inr (True, s'')"
proof -
  obtain s' where "enter_restore_quarantine 2 8 5 demo_maintenance = Inr (True, s')"
    by (simp add: enter_restore_quarantine_def demo_maintenance_def Let_def)
  then show ?thesis using quarantine_revokes [of 2 8 5 demo_maintenance s' 9] by metis
qed

section \<open>What is not due stays\<close>

definition fresh_event :: "uuid \<Rightarrow> instant \<Rightarrow> event_row \<Rightarrow> bool" where
  "fresh_event w t e \<longleftrightarrow> er_ws e = w \<and> er_payload e \<noteq> None \<and> er_expires e > t"

definition open_delivery :: "uuid \<Rightarrow> event_row list \<Rightarrow> delivery_row \<Rightarrow> bool" where
  "open_delivery w evs d \<longleftrightarrow> dr_ws d = w \<and> dr_terminal d = None \<and> list_ex (\<lambda>e. er_id e = dr_event d) evs"

text \<open>The rows of a workspace in use at time \<open>t\<close>: payloads not expired, open deliveries of such events, active secrets,
  endpoints, subscriptions, keys and scopes.\<close>

definition rows_in_use :: "uuid \<Rightarrow> instant \<Rightarrow> maintenance_db \<Rightarrow>
    event_row list \<times> delivery_row list \<times> secret_row list \<times> endpoint_row list \<times> (uuid \<times> uuid \<times> string) list
      \<times> api_key list \<times> (uuid \<times> uuid \<times> string) list" where
  "rows_in_use w t s = (let q = mx_queue s; a = mx_auth s; evs = filter (fresh_event w t) (db_events q) in
     (evs, filter (open_delivery w evs) (db_deliveries q),
      filter (\<lambda>v. sr_ws v = w \<and> sr_state v = Secret_active) (db_secrets q), filter (\<lambda>e. ep_ws e = w) (db_endpoints q),
      filter (\<lambda>(x, e, c). x = w) (ap_subs (mx_data s)), filter (\<lambda>k. ak_workspace k = w) (ad_keys a),
      filter (\<lambda>(x, k, c). x = w) (ad_scopes a)))"

definition event_ids :: "uuid \<Rightarrow> maintenance_db \<Rightarrow> uuid list" where
  "event_ids w s = map er_id (filter (\<lambda>e. er_ws e = w) (db_events (mx_queue s)))"

definition secret_ids :: "uuid \<Rightarrow> maintenance_db \<Rightarrow> uuid list" where
  "secret_ids w s = map sr_id (filter (\<lambda>v. sr_ws v = w) (db_secrets (mx_queue s)))"

definition no_job :: "uuid \<Rightarrow> maintenance_db \<Rightarrow> bool" where
  "no_job w s \<longleftrightarrow> filter (\<lambda>j. jb_ws j = w) (mx_jobs s) = []"

definition in_use_kept :: "uuid \<Rightarrow> instant \<Rightarrow> maintenance_db \<Rightarrow> maintenance_db \<Rightarrow> bool" where
  "in_use_kept w t s0 s \<longleftrightarrow> rows_in_use w t s = rows_in_use w t s0 \<and> distinct (event_ids w s) \<and> distinct (secret_ids w s)
     \<and> jobs_keyed s \<and> no_job w s"

lemma tenant_rows_in_use: "rows_in_use w t (tenant_rows w s) = rows_in_use w t s"
proof -
  have e: "filter (fresh_event w t) (filter (\<lambda>x. er_ws x = w) xs) = filter (fresh_event w t) xs" for xs
    by (induction xs) (auto simp: fresh_event_def)
  have d: "filter (open_delivery w evs) (filter (\<lambda>x. dr_ws x = w) xs) = filter (open_delivery w evs) xs" for xs evs
    by (induction xs) (auto simp: open_delivery_def)
  have v: "filter (\<lambda>v. sr_ws v = w \<and> sr_state v = Secret_active) (filter (\<lambda>x. sr_ws x = w) xs)
      = filter (\<lambda>v. sr_ws v = w \<and> sr_state v = Secret_active) xs" for xs
    by (induction xs) auto
  have p: "filter (\<lambda>(x, y, z). x = w) (filter (\<lambda>(x, y, z). x = w) xs) = filter (\<lambda>(x, y, z). x = w) xs" for xs
    by simp
  show ?thesis by (simp add: rows_in_use_def tenant_rows_def Let_def e d v del: filter_filter)
qed

lemma tenant_rest: "event_ids w (tenant_rows w s) = event_ids w s" "secret_ids w (tenant_rows w s) = secret_ids w s" "no_job w (tenant_rows w s) = no_job w s"
  by (simp_all add: event_ids_def secret_ids_def no_job_def tenant_rows_def Let_def)

lemma workspace_in_use:
  assumes "purge_workspace lk batch audit st s = Inr (r, s')" and "in_use_kept w t s0 s"
  shows "in_use_kept w t s0 s'"
proof (cases r)
  case None
  then show ?thesis using assms purge_workspace_idle by blast
next
  case (Some x)
  obtain ws c d p where x: "x = (ws, c, d, p)" by (cases x) auto
  note r = assms(1) [unfolded Some x]
  have k: "jobs_keyed s" and j: "no_job w s" using assms(2) by (simp_all add: in_use_kept_def)
  have "ws \<noteq> w"
    by (rule purge_workspace_job [OF r]) (use j due_job_ready in \<open>fastforce simp: no_job_def filter_empty_conv\<close>)
  then have "tenant_rows w s' = tenant_rows w s" using purge_workspace_tenant [OF r k] by simp
  then have "rows_in_use w t s' = rows_in_use w t s" "event_ids w s' = event_ids w s"
      "secret_ids w s' = secret_ids w s" "no_job w s' = no_job w s"
    using tenant_rows_in_use tenant_rest by metis+
  then show ?thesis using assms(2) purge_workspace_jobs(1) [OF r k] by (simp add: in_use_kept_def)
qed

lemma filter_update_where_none:
  "(\<And>x. x \<in> set xs \<Longrightarrow> P x \<Longrightarrow> \<not> Q x \<and> \<not> Q (f x)) \<Longrightarrow> filter Q (update_where P f xs) = filter Q xs"
  by (induction xs) auto

lemma purge_expired_payloads_rows:
  assumes "purge_expired_payloads b st lk s = Inr (n, s')"
  shows "\<exists>P es. s' = s\<lparr>db_attempts := update_where P (abandon_attempt st ''payload_expired'') (db_attempts s),
      db_deliveries := update_where (\<lambda>d. list_ex (\<lambda>e. er_ws e = dr_ws d \<and> er_id e = dr_event d) es \<and> live_status d)
         (fail_row st ''payload_expired'') (db_deliveries s),
      db_events := update_where (\<lambda>e. list_ex (\<lambda>x. er_ws x = er_ws e \<and> er_id x = er_id e) es)
         (\<lambda>e. e\<lparr>er_payload := None, er_purged := Some st\<rparr>) (db_events s)\<rparr>
      \<and> (\<forall>e\<in>set es. e \<in> set (db_events s) \<and> er_expires e \<le> st)"
proof (cases "b < 1 \<or> b > 1000")
  case True
  then show ?thesis using assms by (simp add: purge_expired_payloads_def)
next
  case False
  note p = assms [unfolded purge_expired_payloads_def Let_def if_not_P [OF False] sum.inject prod.inject]
  show ?thesis by (rule exI, rule exI, rule conjI [OF p [THEN conjunct2, symmetric]]) (blast dest: taken)
qed

lemma in_use_same:
  "in_use_kept w t s0 s \<Longrightarrow> rows_in_use w t s' = rows_in_use w t s \<Longrightarrow> event_ids w s' = event_ids w s \<Longrightarrow>
     secret_ids w s' = secret_ids w s \<Longrightarrow> jobs_keyed s' = jobs_keyed s \<Longrightarrow> no_job w s' = no_job w s \<Longrightarrow> in_use_kept w t s0 s'"
  by (simp add: in_use_kept_def)

lemma payloads_in_use:
  assumes "purge_payloads ids b st lk s = Inr (n, s')" and I: "in_use_kept w t s0 s" and "st \<le> t"
  shows "in_use_kept w t s0 s'"
proof -
  obtain q rows where q: "purge_expired_payloads b st lk (mx_queue s) = Inr (n, q)"
      "s' = audited ids ''payload.purge'' rows (on_mx_queue (\<lambda>_. q) s)"
    by (rule purge_payloads_queue [OF assms(1)]) (rule that)
  let ?E = "db_events (mx_queue s)"
  obtain P es where shape: "q = (mx_queue s)\<lparr>db_attempts := update_where P (abandon_attempt st ''payload_expired'') (db_attempts (mx_queue s)),
      db_deliveries := update_where (\<lambda>d. list_ex (\<lambda>e. er_ws e = dr_ws d \<and> er_id e = dr_event d) es \<and> live_status d)
         (fail_row st ''payload_expired'') (db_deliveries (mx_queue s)),
      db_events := update_where (\<lambda>e. list_ex (\<lambda>x. er_ws x = er_ws e \<and> er_id x = er_id e) es)
         (\<lambda>e. e\<lparr>er_payload := None, er_purged := Some st\<rparr>) ?E\<rparr>"
    and es: "\<forall>e\<in>set es. e \<in> set ?E \<and> er_expires e \<le> st"
    using purge_expired_payloads_rows [OF q(1)] by blast
  have inj: "x = y" if "x \<in> set ?E" "y \<in> set ?E" "er_ws x = w" "er_ws y = w" "er_id x = er_id y" for x y
    using I that by (auto simp: in_use_kept_def event_ids_def distinct_map inj_on_def)
  have unhit: "\<not> list_ex (\<lambda>x. er_ws x = er_ws e \<and> er_id x = er_id e) es" if "e \<in> set ?E" "fresh_event w t e" for e
    using es inj that assms(3) by (fastforce simp: list_ex_iff fresh_event_def)
  have ev: "filter (fresh_event w t) (db_events q) = filter (fresh_event w t) ?E"
    unfolding shape by simp (rule filter_update_where_none, use unhit in \<open>auto simp: fresh_event_def\<close>)
  have "filter (open_delivery w (filter (fresh_event w t) ?E)) (db_deliveries q)
      = filter (open_delivery w (filter (fresh_event w t) ?E)) (db_deliveries (mx_queue s))"
    unfolding shape
    by simp (rule filter_update_where_none, use unhit in \<open>fastforce simp: open_delivery_def fail_row_def list_ex_iff fresh_event_def\<close>)
  moreover have "map er_id (filter (\<lambda>e. er_ws e = w) (update_where R (\<lambda>e. e\<lparr>er_payload := None, er_purged := Some st\<rparr>) xs))
      = map er_id (filter (\<lambda>e. er_ws e = w) xs)" for R xs
    by (induction xs) auto
  then have "event_ids w s' = event_ids w s" by (simp add: event_ids_def q(2) on_mx_queue_def shape)
  moreover have "jobs_keyed s' = jobs_keyed s" "no_job w s' = no_job w s" "secret_ids w s' = secret_ids w s"
    by (simp_all add: q(2) shape jobs_keyed_def no_job_def secret_ids_def on_mx_queue_def)
  moreover have "mx_data s' = (mx_data s)\<lparr>ap_queue := q\<rparr>" "ad_keys (mx_auth s') = ad_keys (mx_auth s)"
      "ad_scopes (mx_auth s') = ad_scopes (mx_auth s)"
    by (simp_all add: q(2) on_mx_queue_def audited_def on_mx_auth_def)
  moreover have "db_secrets q = db_secrets (mx_queue s)" "db_endpoints q = db_endpoints (mx_queue s)" by (simp_all add: shape)
  ultimately show ?thesis using ev by (intro in_use_same [OF I]) (simp_all add: rows_in_use_def Let_def)
qed

lemma purge_retired_secrets_rows:
  assumes "purge_retired_secrets b st lk s = Inr (n, s')"
  shows "\<exists>vs. s' = s\<lparr>db_secrets := update_where (\<lambda>v. list_ex (\<lambda>x. sr_ws x = sr_ws v \<and> sr_id x = sr_id v) vs)
      purge_secret_row (db_secrets s)\<rparr> \<and> (\<forall>v\<in>set vs. v \<in> set (db_secrets s) \<and> sr_state v = Secret_retiring)"
proof (cases "b < 1 \<or> b > 1000")
  case True
  then show ?thesis using assms by (simp add: purge_retired_secrets_def)
next
  case False
  note p = assms [unfolded purge_retired_secrets_def Let_def if_not_P [OF False] sum.inject prod.inject]
  show ?thesis by (rule exI, rule conjI [OF p [THEN conjunct2, symmetric]]) (blast dest: taken)
qed

lemma secrets_in_use:
  assumes "purge_secrets ids b st lk s = Inr (n, s')" and I: "in_use_kept w t s0 s"
  shows "in_use_kept w t s0 s'"
proof -
  obtain q rows where q: "purge_retired_secrets b st lk (mx_queue s) = Inr (n, q)"
      "s' = audited ids ''secret.purge'' rows (on_mx_queue (\<lambda>_. q) s)"
    by (rule purge_secrets_queue [OF assms(1)]) (rule that)
  let ?V = "db_secrets (mx_queue s)"
  obtain vs where shape: "q = (mx_queue s)\<lparr>db_secrets := update_where (\<lambda>v. list_ex (\<lambda>x. sr_ws x = sr_ws v \<and> sr_id x = sr_id v) vs)
      purge_secret_row ?V\<rparr>" and vs: "\<forall>v\<in>set vs. v \<in> set ?V \<and> sr_state v = Secret_retiring"
    using purge_retired_secrets_rows [OF q(1)] by blast
  have inj: "x = y" if "x \<in> set ?V" "y \<in> set ?V" "sr_ws x = w" "sr_ws y = w" "sr_id x = sr_id y" for x y
    using I that by (auto simp: in_use_kept_def secret_ids_def distinct_map inj_on_def)
  have "filter (\<lambda>v. sr_ws v = w \<and> sr_state v = Secret_active) (db_secrets q)
      = filter (\<lambda>v. sr_ws v = w \<and> sr_state v = Secret_active) ?V"
    unfolding shape
    by simp (rule filter_update_where_none, use vs inj in \<open>fastforce simp: list_ex_iff purge_secret_row_def\<close>)
  moreover have "map sr_id (filter (\<lambda>v. sr_ws v = w) (update_where R purge_secret_row xs)) = map sr_id (filter (\<lambda>v. sr_ws v = w) xs)"
    for R xs by (induction xs) (auto simp: purge_secret_row_def)
  then have "secret_ids w s' = secret_ids w s" by (simp add: secret_ids_def q(2) on_mx_queue_def shape)
  moreover have "event_ids w s' = event_ids w s" "jobs_keyed s' = jobs_keyed s" "no_job w s' = no_job w s"
    by (simp_all add: q(2) shape event_ids_def jobs_keyed_def no_job_def on_mx_queue_def)
  moreover have "mx_data s' = (mx_data s)\<lparr>ap_queue := q\<rparr>" "ad_keys (mx_auth s') = ad_keys (mx_auth s)"
      "ad_scopes (mx_auth s') = ad_scopes (mx_auth s)"
    by (simp_all add: q(2) on_mx_queue_def audited_def on_mx_auth_def)
  moreover have "db_events q = db_events (mx_queue s)" "db_deliveries q = db_deliveries (mx_queue s)"
      "db_endpoints q = db_endpoints (mx_queue s)" by (simp_all add: shape)
  ultimately show ?thesis by (intro in_use_same [OF I]) (simp_all add: rows_in_use_def Let_def)
qed

lemma sessions_in_use:
  assumes "on_sessions (purge_console_sessions b st now lk) s = Inr (n, s')" and I: "in_use_kept w t s0 s"
  shows "in_use_kept w t s0 s'"
proof -
  obtain y where y: "purge_console_sessions b st now lk (mx_sessions s) = Inr (n, y)" "s' = s\<lparr>mx_sessions := y\<rparr>"
    using assms(1) by (auto simp: on_sessions_def split: sum.splits prod.splits)
  then have "sb_auth y = mx_auth s" using purge_console_sessions_rows [OF y(1)] by auto
  then show ?thesis
    by (intro in_use_same [OF I]) (simp_all add: y(2) rows_in_use_def event_ids_def secret_ids_def jobs_keyed_def no_job_def)
qed

lemma part_in_use:
  "purge_attempts T lk n st s = (c, s') \<Longrightarrow> in_use_kept w t s0 s \<Longrightarrow> in_use_kept w t s0 s'"
  "purge_replays T lk n st s = (c, s') \<Longrightarrow> in_use_kept w t s0 s \<Longrightarrow> in_use_kept w t s0 s'"
  "purge_rotations T lk n st s = (c, s') \<Longrightarrow> in_use_kept w t s0 s \<Longrightarrow> in_use_kept w t s0 s'"
  "purge_audits T lk n st s = (c, s') \<Longrightarrow> in_use_kept w t s0 s \<Longrightarrow> in_use_kept w t s0 s'"
  "purge_buckets lk n st s = (c, s') \<Longrightarrow> in_use_kept w t s0 s \<Longrightarrow> in_use_kept w t s0 s'"
  by (erule in_use_same,
      (auto simp: purge_part_defs rows_in_use_def event_ids_def secret_ids_def jobs_keyed_def no_job_def on_mx_queue_def on_mx_auth_def
        Let_def split: prod.splits)[5])+

lemma deliveries_in_use:
  assumes "purge_deliveries T lk n st s = (c, s')" and I: "in_use_kept w t s0 s"
  shows "in_use_kept w t s0 s'"
proof -
  obtain xs where xs: "delete_batch n (\<lambda>d. (the (dr_terminal d), dr_id d)) (lk Deliveries) (delivery_expired T st s)
      (db_deliveries (mx_queue s)) = (c, xs)" "s' = on_mx_queue (\<lambda>q. q\<lparr>db_deliveries := xs\<rparr>) s"
    using assms(1) by (auto simp: purge_deliveries_def split: prod.splits)
  have "filter (open_delivery w evs) xs = filter (open_delivery w evs) (db_deliveries (mx_queue s))" for evs
    by (rule delete_batch_kept [OF xs(1)]) (simp add: open_delivery_def delivery_expired_def)
  then show ?thesis
    by (intro in_use_same [OF I]) (simp_all add: xs(2) rows_in_use_def event_ids_def secret_ids_def jobs_keyed_def no_job_def on_mx_queue_def Let_def)
qed

lemma subseq_distinct: "subseq xs ys \<Longrightarrow> distinct ys \<Longrightarrow> distinct xs"
  by (induction rule: list_emb.induct) (auto dest: list_emb_set)

lemma events_in_use:
  assumes "purge_events T lk n st s = (c, s')" and I: "in_use_kept w t s0 s"
  shows "in_use_kept w t s0 s'"
proof -
  obtain xs where xs: "delete_batch n (\<lambda>e. (rt_event T e, er_id e)) (lk Events) (event_expired T st s) (db_events (mx_queue s)) = (c, xs)"
      "s' = on_mx_queue (\<lambda>q. q\<lparr>db_events := xs\<rparr>) s"
    using assms(1) by (auto simp: purge_events_def split: prod.splits)
  have "filter (fresh_event w t) xs = filter (fresh_event w t) (db_events (mx_queue s))"
    by (rule delete_batch_kept [OF xs(1)]) (simp add: fresh_event_def event_expired_def)
  then have "rows_in_use w t s' = rows_in_use w t s" by (simp add: xs(2) rows_in_use_def on_mx_queue_def Let_def)
  moreover have "subseq (event_ids w s') (event_ids w s)"
    unfolding event_ids_def by (rule subseq_map, rule subseq_filter) (simp add: xs(2) on_mx_queue_def delete_batch_subseq [OF xs(1)])
  then have "distinct (event_ids w s')" using I subseq_distinct by (auto simp: in_use_kept_def)
  ultimately show ?thesis using I by (simp add: in_use_kept_def xs(2) secret_ids_def jobs_keyed_def no_job_def on_mx_queue_def)
qed

lemma metadata_in_use:
  assumes "purge_expired_metadata T lk batch st s = Inr (m, s')" and "in_use_kept w t s0 s"
  shows "in_use_kept w t s0 s'"
  by (rule metadata_chain [OF assms(1)], rule part_in_use(5), assumption, rule part_in_use(4), assumption,
      rule events_in_use, assumption, rule deliveries_in_use, assumption, rule part_in_use(3), assumption,
      rule part_in_use(2), assumption, rule part_in_use(1), assumption, rule assms(2))

lemma store_in_use:
  assumes "store_purge T e batch s = (r, s')" and "snd (pe_payloads e) \<le> t" and "in_use_kept w t s0 s"
  shows "in_use_kept w t s0 s'"
  by (rule store_purge_keeps [where I = "in_use_kept w t s0", OF assms(1,3)])
    (erule (1) payloads_in_use, rule assms(2), erule (1) secrets_in_use, erule (1) sessions_in_use,
      erule (1) metadata_in_use, erule (1) workspace_in_use)

lemma run_loop_keeps:
  assumes "run_loop fuel purge backlog now k r s = Some (r', err, s')" and "I s"
    and "\<And>k s x s'. purge k s = (x, s') \<Longrightarrow> I s \<Longrightarrow> I s'"
  shows "I s'"
  using assms(1,2)
proof (induction fuel arbitrary: k r s)
  case (Suc fuel)
  obtain c e s1 where p: "purge k s = ((c, e), s1)" by (metis prod.exhaust)
  have "I s1" using assms(3) [OF p Suc.prems(2)] .
  then show ?case using Suc.prems(1) Suc.IH p
    by (auto simp: Let_def split: option.splits if_splits sum.splits)
qed simp

text \<open>C37. A maintenance run, whatever fails, whatever rows others hold and however long it takes, never touches what is in
  use in a workspace that is not being purged: payloads that have not expired when it ends, their open deliveries, active
  signing secrets, endpoints, subscriptions, API keys and scopes are the same rows before and after.\<close>

theorem retention_keeps_in_use:
  assumes "run_once fuel (\<lambda>k. store_purge T (env k) batch) (\<lambda>k. store_backlog T (env k)) now started ended rn s = Some (rep, rn', s')"
    and "\<forall>k. snd (pe_payloads (env k)) \<le> t" and "\<forall>j\<in>set (mx_jobs s). jb_ws j \<noteq> w" and "jobs_keyed s"
    and "distinct (event_ids w s)" and "distinct (secret_ids w s)"
  shows "rows_in_use w t s' = rows_in_use w t s"
proof -
  have i: "in_use_kept w t s s" using assms(3-6) by (auto simp: in_use_kept_def no_job_def filter_empty_conv)
  obtain r err where "run_loop fuel (\<lambda>k. store_purge T (env k) batch) (\<lambda>k. store_backlog T (env k)) now 0 empty_report s
      = Some (r, err, s')"
    using assms(1) by (auto simp: run_once_def Let_def split: option.splits)
  then have "in_use_kept w t s s'"
    by (rule run_loop_keeps [where I = "in_use_kept w t s", OF _ i]) (rule store_in_use, assumption, use assms(2) in blast, assumption)
  then show ?thesis by (simp add: in_use_kept_def)
qed

lemma demo_run:
  "\<exists>rep rn' s'. run_once (Suc (maintenance_weight (demo_maintenance\<lparr>mx_jobs := []\<rparr>))) (\<lambda>k. store_purge demo_times demo_pass 100)
      (\<lambda>k. store_backlog demo_times demo_pass) (\<lambda>_. 5) 4 6 (new_runner 0) (demo_maintenance\<lparr>mx_jobs := []\<rparr>) = Some (rep, rn', s')"
proof -
  have "maintained (\<lambda>_. demo_pass) 0 (demo_maintenance\<lparr>mx_jobs := []\<rparr>)"
    using demo_maintained by (simp add: maintained_def calm_def demo_pass_def jobs_keyed_def jobs_due_by_def attempts_owned_def)
  from store.run_ends [OF this, of _ demo_times "\<lambda>_. 5" empty_report] show ?thesis
    by (fastforce simp: run_once_def Let_def)
qed

theorem retention_keeps_in_use_witness:
  "\<exists>rep rn' s'. run_once (Suc (maintenance_weight (demo_maintenance\<lparr>mx_jobs := []\<rparr>))) (\<lambda>k. store_purge demo_times demo_pass 100)
      (\<lambda>k. store_backlog demo_times demo_pass) (\<lambda>_. 5) 4 6 (new_runner 0) (demo_maintenance\<lparr>mx_jobs := []\<rparr>) = Some (rep, rn', s')
    \<and> rows_in_use 1 5 s' = rows_in_use 1 5 demo_maintenance"
proof -
  obtain rep rn' s' where r: "run_once (Suc (maintenance_weight (demo_maintenance\<lparr>mx_jobs := []\<rparr>))) (\<lambda>k. store_purge demo_times demo_pass 100)
      (\<lambda>k. store_backlog demo_times demo_pass) (\<lambda>_. 5) 4 6 (new_runner 0) (demo_maintenance\<lparr>mx_jobs := []\<rparr>) = Some (rep, rn', s')"
    using demo_run by blast
  have "rows_in_use 1 5 s' = rows_in_use 1 5 (demo_maintenance\<lparr>mx_jobs := []\<rparr>)"
    by (rule retention_keeps_in_use [OF r])
      (simp_all add: demo_pass_def jobs_keyed_def event_ids_def secret_ids_def demo_maintenance_def demo_defs)
  then show ?thesis using r by (simp add: rows_in_use_def)
qed

end
