(* ===== verification/Queue_System.thy ===== *)
theory Queue_System
  imports Queue_Fencing Retention_Drain Signing_Keys
begin

text \<open>
  The queue together with the functions that delete its rows: a step relation over all tables with every transaction
  that reaches deliveries and attempts, the purge of expired metadata and of a whole workspace included, and the
  invariant of deliveries and attempts in every state it reaches.
\<close>

section \<open>A workspace that is being purged\<close>

text \<open>A workspace is quiet when it is not active and none of its deliveries is claimed. No transaction of the queue wakes it.\<close>

definition quiet :: "uuid \<Rightarrow> db \<Rightarrow> bool" where
  "quiet ws q \<longleftrightarrow> (\<forall>w\<in>set (db_workspaces q). wr_id w = ws \<longrightarrow> \<not> wr_active w)
     \<and> (\<forall>d\<in>set (db_deliveries q). dr_ws d = ws \<longrightarrow> dr_status d \<noteq> Processing)"

lemma quietI:
  assumes "quiet ws q"
    and "\<And>w. w \<in> set (db_workspaces q') \<Longrightarrow> wr_id w = ws \<Longrightarrow> wr_active w \<Longrightarrow>
      \<exists>v\<in>set (db_workspaces q). wr_id v = ws \<and> wr_active v"
    and "\<And>d. d \<in> set (db_deliveries q') \<Longrightarrow> dr_ws d = ws \<Longrightarrow> dr_status d = Processing \<Longrightarrow>
      \<exists>c\<in>set (db_deliveries q). dr_ws c = ws \<and> dr_status c = Processing"
  shows "quiet ws q'"
  using assms unfolding quiet_def by blast

lemma quiet_less:
  assumes "quiet ws q" and "set (db_workspaces q') \<subseteq> set (db_workspaces q)" and "set (db_deliveries q') \<subseteq> set (db_deliveries q)"
  shows "quiet ws q'"
  by (rule quietI [OF assms(1)]) (use assms(2,3) in blast)+

lemma candidate_awake:
  assumes "select_delivery_candidate s st now locked wl el wc ec = Some c" and "quiet ws s"
  shows "dr_ws c \<noteq> ws"
proof -
  have "candidate_ok s st now locked wl el wc ec c"
    using assms(1) by (auto simp: select_delivery_candidate_def split: list.splits dest!: arg_cong [where f = set])
  then show ?thesis using assms(2)
    by (auto simp: candidate_ok_def find_workspace_def quiet_def find_Some_iff dest!: nth_mem)
qed

lemma claim_one_quiet:
  assumes "claim_one_delivery w i ttl st clk locked wl el wc ec s = (r, s')" and "quiet ws s"
  shows "quiet ws s'"
proof (cases "s' = s")
  case True
  with assms(2) show ?thesis by simp
next
  case False
  then obtain c where c: "select_delivery_candidate s st (clk 0) locked wl el wc ec = Some c"
    and ds: "db_deliveries s' = update_where (\<lambda>d. dkey d = dkey c \<and> dr_attempts d < dr_max d \<and> ready_at (clk 2) d)
        (claim_delivery_row w (clk 2) ttl) (db_deliveries s)"
    and wsp: "\<exists>P f. db_workspaces s' = update_where P f (db_workspaces s) \<and> (\<forall>w. wr_id (f w) = wr_id w \<and> wr_active (f w) = wr_active w)"
    using assms(1) by (fastforce simp: claim_one_delivery_def Let_def split: option.splits if_splits)
  note other = candidate_awake [OF c assms(2)]
  show ?thesis
  proof (rule quietI [OF assms(2)])
    fix w assume "w \<in> set (db_workspaces s')" "wr_id w = ws" "wr_active w"
    then show "\<exists>v\<in>set (db_workspaces s). wr_id v = ws \<and> wr_active v" using wsp by (fastforce simp: set_update_where split: if_splits)
  next
    fix d assume "d \<in> set (db_deliveries s')" "dr_ws d = ws" "dr_status d = Processing"
    then show "\<exists>c\<in>set (db_deliveries s). dr_ws c = ws \<and> dr_status c = Processing"
      using other by (auto simp: ds set_update_where dkey_def claim_delivery_row_def split: if_splits)
  qed
qed

lemma claim_loop_quiet:
  "claim_loop rnd m w is ttl st clk locked wl el wc ec lim s = (cs, s') \<Longrightarrow> quiet ws s \<Longrightarrow> quiet ws s'"
proof (induction rnd m w "is" ttl st clk locked wl el wc ec lim s arbitrary: cs s' rule: claim_loop.induct)
  case (3 rnd m w a as ttl st clk locked wl el wc ec lim s)
  obtain r s1 where r: "claim_one_delivery w a ttl st (clk rnd) (locked rnd) wl el wc ec s = (r, s1)" by (metis prod.exhaust)
  note q = claim_one_quiet [OF r "3.prems"(2)]
  show ?case
  proof (cases r)
    case None
    then show ?thesis using "3.IH"(1) [OF r [symmetric] None] "3.prems"(1) q r by simp
  next
    case (Some c)
    obtain cs1 s2 where l: "claim_loop (Suc rnd) lim w as ttl st clk locked wl el
        (wc(cr_ws c := wc (cr_ws c) + 1)) (ec((cr_ws c, cr_endpoint c) := ec (cr_ws c, cr_endpoint c) + 1)) lim s1 = (cs1, s2)"
      by fastforce
    with r Some "3.prems"(1) have "s' = s2" by simp
    with "3.IH"(2) [OF r [symmetric] Some refl refl l q] show ?thesis by simp
  qed
qed auto

lemma recover_quiet: "quiet ws s \<Longrightarrow> quiet ws (fold (recover_one clk) rows s)"
proof (induction rows arbitrary: s)
  case (Cons x rows)
  have "quiet ws (recover_one clk x s)"
    by (rule quietI [OF Cons.prems]) (auto simp: recover_one_def set_update_where dead_letter_row_def split: if_splits)
  with Cons.IH show ?case by simp
qed simp

lemma recovered:
  assumes "recover_exhausted lim st clk locked s = Inr (n, s')"
  shows "\<exists>rows. s' = fold (recover_one clk) rows s"
proof (cases "lim < 1 \<or> lim > 100")
  case True
  then show ?thesis using assms by (simp add: recover_exhausted_def)
next
  case False
  note p = assms [unfolded recover_exhausted_def Let_def if_not_P [OF False] sum.inject prod.inject]
  show ?thesis by (rule exI, rule p [THEN conjunct2, symmetric])
qed

lemma no_longer_processing:
  assumes "quiet ws q" and "db_workspaces q' = db_workspaces q" and "db_deliveries q' = update_where P f (db_deliveries q)"
    and "\<And>d. dr_status (f d) \<noteq> Processing"
  shows "quiet ws q'"
  by (rule quietI [OF assms(1)]) (use assms(2-4) in \<open>auto simp: set_update_where split: if_splits\<close>)

lemma purge_payloads_quiet: "purge_expired_payloads n st lk s = Inr (m, s') \<Longrightarrow> quiet ws s \<Longrightarrow> quiet ws s'"
proof -
  assume p: "purge_expired_payloads n st lk s = Inr (m, s')" and "quiet ws s"
  obtain P Q R where s': "s' = s\<lparr>db_attempts := update_where P (abandon_attempt st ''payload_expired'') (db_attempts s),
      db_deliveries := update_where Q (fail_row st ''payload_expired'') (db_deliveries s),
      db_events := update_where R (\<lambda>e. e\<lparr>er_payload := None, er_purged := Some st\<rparr>) (db_events s)\<rparr>"
    using purge_expired_payloads_shape [OF p] by blast
  show ?thesis
    by (rule no_longer_processing [OF \<open>quiet ws s\<close>, where P = Q and f = "fail_row st ''payload_expired''"]) (simp_all add: s' fail_row_def)
qed

lemma qstep_quiet:
  assumes "qstep s s'" and "quiet ws s" and "db_inv s"
  shows "quiet ws s'"
  using assms(1)
proof (cases rule: qstep.cases)
  case (q_publish w i ev ep mx now)
  then show ?thesis using assms(2) by (auto simp: insert_delivery_def new_delivery_def quiet_def split: if_splits)
next
  case (q_claim w "is" ttl lim wl el st clk locked cs)
  then obtain n s1 cs1 where r: "recover_exhausted (nat lim) st (clk 0) (locked 0) s = Inr (n, s1)"
    and l: "claim_loop 1 3 w is ttl st clk locked (nat wl) (nat el) (\<lambda>_. 0) (\<lambda>_. 0) 3 s1 = (cs1, s')"
    by (auto simp: claim_deliveries_def split: if_splits sum.splits prod.splits)
  obtain rows where "s1 = fold (recover_one (clk 0)) rows s" using recovered [OF r] by blast
  then have "quiet ws s1" using recover_quiet [OF assms(2)] by simp
  with l show ?thesis by (rule claim_loop_quiet)
next
  case (q_finalize k w t p h ms cat dl clk' b)
  from finalize_cases [OF assms(3), of k w t p h ms cat dl clk'] show ?thesis
  proof (elim disjE exE conjE)
    fix d dp' h' cat' dl'
    assume "finalize_delivery k w t p h ms cat dl clk' s
      = Inr (True, s\<lparr>db_deliveries := update_where (\<lambda>x. x = d) (finalize_row (clk' 0) dp' cat' dl') (db_deliveries s),
          db_attempts := update_where (\<lambda>a. akey a = k \<and> at_token a = t \<and> at_state a = Started)
             (complete_attempt (clk' 1) dp' h' ms cat') (db_attempts s)\<rparr>)"
    then have "db_workspaces s' = db_workspaces s"
        "db_deliveries s' = update_where (\<lambda>x. x = d) (finalize_row (clk' 0) dp' cat' dl') (db_deliveries s)"
      using q_finalize by auto
    then show ?thesis by (rule no_longer_processing [OF assms(2)]) (simp add: finalize_row_def)
  qed (use q_finalize assms(2) in auto)
next
  case (q_replay c clk' r)
  show ?thesis
  proof (cases "s' = s")
    case False
    then show ?thesis using q_replay assms(2)
      by (auto simp: request_replay_def Let_def replay_row_update_def intro!: no_longer_processing [of ws s]
          split: if_splits option.splits)
  qed (simp add: assms(2))
next
  case (q_purge n st lk m)
  then show ?thesis using purge_payloads_quiet assms(2) by blast
next
  case (q_purge_secrets n st lk m)
  then show ?thesis using purge_retired_secrets_shape assms(2) by (fastforce simp: quiet_def)
next
  case (q_quarantine st)
  show ?thesis unfolding q_quarantine
    by (rule quietI [OF assms(2)]) (auto simp: quarantine_queue_def set_update_where fail_row_def live_status_def split: if_splits)
qed

section \<open>Deleting rows\<close>

text \<open>Rows of either table may go, as long as no attempt loses its delivery and no claimed delivery its open attempt.\<close>

lemma subseq_set: "subseq ys xs \<Longrightarrow> set ys \<subseteq> set xs"
  by (induction rule: list_emb.induct) auto

lemma subseq_distinct_map: "subseq ys xs \<Longrightarrow> distinct (map f xs) \<Longrightarrow> distinct (map f ys)"
  by (induction rule: list_emb.induct) (auto dest: subseq_set)

lemma queue_inv_less:
  assumes inv: "queue_inv ds as" and ds: "subseq ds' ds" and as: "subseq as' as"
    and owned: "\<forall>a\<in>set as'. \<exists>d\<in>set ds'. dkey d = akey a"
    and kept: "\<And>d a. d \<in> set ds' \<Longrightarrow> dr_status d = Processing \<Longrightarrow> a \<in> set as \<Longrightarrow> akey a = dkey d \<Longrightarrow> at_state a = Started \<Longrightarrow> a \<in> set as'"
  shows "queue_inv ds' as'"
proof (rule queue_invI)
  show "distinct (map dr_id ds')" using subseq_distinct_map [OF ds, of dr_id] inv by (simp add: queue_inv_def)
next
  fix d assume d: "d \<in> set ds'"
  then have d0: "d \<in> set ds" using subseq_set [OF ds] by blast
  let ?as = "attempts_of (dkey d) as" and ?bs = "attempts_of (dkey d) as'"
  have sub: "subseq ?bs ?as" unfolding attempts_of_def by (rule subseq_filter [OF as])
  have ok: "attempts_ok d ?as" using inv_row [OF inv d0] by simp
  have "attempts_base d ?as" using ok by (simp add: attempts_ok_def)
  then have "attempts_base d ?bs"
    unfolding attempts_base_def by (blast intro: subseq_distinct_map [OF sub] dest: subseq_set [OF sub, THEN subsetD])
  moreover have "(if dr_status d = Processing
        then (\<exists>a\<in>set ?bs. at_state a = Started \<and> at_token a = dr_token d)
             \<and> (\<forall>a\<in>set ?bs. at_state a = Started \<longrightarrow> at_token a = dr_token d)
        else none_started ?bs)"
  proof (cases "dr_status d = Processing")
    case True
    then obtain a where "a \<in> set ?as" "at_state a = Started" "at_token a = dr_token d" using ok by (auto simp: attempts_ok_def)
    then have "a \<in> set ?bs" "at_state a = Started \<and> at_token a = dr_token d"
      using kept [OF d True] by (auto simp: attempts_of_def)
    then show ?thesis using ok True subseq_set [OF sub] by (auto simp: attempts_ok_def)
  next
    case False
    then show ?thesis using ok subseq_set [OF sub] by (auto simp: attempts_ok_def none_started_def)
  qed
  ultimately show "row_ok d \<and> attempts_ok d ?bs" using inv_row(1) [OF inv d0] by (simp add: attempts_ok_def)
qed (use owned in blast)

text \<open>What the purge of expired metadata does to the queue.\<close>

definition thinned :: "maintenance_db \<Rightarrow> maintenance_db \<Rightarrow> bool" where
  "thinned s s' \<longleftrightarrow> db_workspaces (mx_queue s') = db_workspaces (mx_queue s) \<and> mx_jobs s' = mx_jobs s
     \<and> subseq (db_deliveries (mx_queue s')) (db_deliveries (mx_queue s))
     \<and> subseq (db_attempts (mx_queue s')) (db_attempts (mx_queue s))
     \<and> (\<forall>a\<in>set (db_attempts (mx_queue s)). at_state a = Started \<longrightarrow> a \<in> set (db_attempts (mx_queue s')))"

lemma thinned_trans: "thinned s s1 \<Longrightarrow> thinned s1 s2 \<Longrightarrow> thinned s s2"
  unfolding thinned_def by (metis subseq_order.trans)

lemma delete_batch_rest:
  assumes "delete_batch n key held P xs = (c, ys)" and "x \<in> set xs" and "\<not> P x"
  shows "x \<in> set ys"
proof -
  have "x \<in> set (filter (\<lambda>y. y = x) xs)" using assms(2) by simp
  then have "x \<in> set (filter (\<lambda>y. y = x) ys)" using delete_batch_kept [OF assms(1), of "\<lambda>y. y = x"] assms(3) by auto
  then show ?thesis by simp
qed

lemma part_thinned:
  "purge_replays T lk n st s = (c, s') \<Longrightarrow> thinned s s'"
  "purge_rotations T lk n st s = (c, s') \<Longrightarrow> thinned s s'"
  "purge_deliveries T lk n st s = (c, s') \<Longrightarrow> thinned s s'"
  "purge_events T lk n st s = (c, s') \<Longrightarrow> thinned s s'"
  "purge_audits T lk n st s = (c, s') \<Longrightarrow> thinned s s'"
  "purge_buckets lk n st s = (c, s') \<Longrightarrow> thinned s s'"
  by (auto simp: purge_part_defs thinned_def on_mx_queue_def on_mx_auth_def split: prod.splits dest: delete_batch_subseq)

lemma attempts_thinned:
  assumes "purge_attempts T lk n st s = (c, s')"
  shows "thinned s s'"
proof -
  obtain xs where xs: "delete_batch n (\<lambda>a. (the (at_finished a), at_id a)) (lk Attempts) (attempt_expired T st s)
      (db_attempts (mx_queue s)) = (c, xs)" and s': "s' = on_mx_queue (\<lambda>q. q\<lparr>db_attempts := xs\<rparr>) s"
    using assms by (auto simp: purge_attempts_def split: prod.splits)
  have "a \<in> set xs" if "a \<in> set (db_attempts (mx_queue s))" "at_state a = Started" for a
    by (rule delete_batch_rest [OF xs that(1)]) (simp add: attempt_expired_def that(2))
  then show ?thesis using delete_batch_subseq [OF xs] by (simp add: thinned_def s' on_mx_queue_def)
qed

lemma metadata_thinned:
  assumes "purge_expired_metadata T lk batch st s = Inr (m, s')"
  shows "thinned s s'"
proof (rule metadata_chain [OF assms], goal_cases)
  case (1 s1 s2 s3 s4 s5 s6)
  show ?thesis
    by (rule thinned_trans [OF attempts_thinned [OF 1(3)] thinned_trans [OF part_thinned(1) [OF 1(4)]
      thinned_trans [OF part_thinned(2) [OF 1(5)] thinned_trans [OF part_thinned(3) [OF 1(6)]
      thinned_trans [OF part_thinned(4) [OF 1(7)] thinned_trans [OF part_thinned(5) [OF 1(8)] part_thinned(6) [OF 1(9)]]]]]]])
qed

section \<open>The invariant of all tables\<close>

definition system_inv :: "maintenance_db \<Rightarrow> bool" where
  "system_inv s \<longleftrightarrow> db_inv (mx_queue s) \<and> (\<forall>j\<in>set (mx_jobs s). quiet (jb_ws j) (mx_queue s))"

lemma owned_inv: "db_inv (mx_queue s) \<Longrightarrow> attempts_owned s"
  by (auto simp: queue_inv_def attempts_owned_def list_ex_iff)

lemma owned_rows: "attempts_owned s \<Longrightarrow> \<forall>a\<in>set (db_attempts (mx_queue s)). \<exists>d\<in>set (db_deliveries (mx_queue s)). dkey d = akey a"
  by (simp add: attempts_owned_def list_ex_iff)

lemma system_invI:
  assumes "db_inv (mx_queue s')" and "jb_ws ` set (mx_jobs s') \<subseteq> jb_ws ` set (mx_jobs s)"
    and "\<And>ws. ws \<in> jb_ws ` set (mx_jobs s) \<Longrightarrow> quiet ws (mx_queue s')"
  shows "system_inv s'"
  using assms by (auto simp: system_inv_def)

lemma system_quiet: "system_inv s \<Longrightarrow> ws \<in> jb_ws ` set (mx_jobs s) \<Longrightarrow> quiet ws (mx_queue s)"
  by (auto simp: system_inv_def)

lemma metadata_system_inv:
  assumes "purge_expired_metadata T lk batch st s = Inr (m, s')" and inv: "system_inv s"
  shows "system_inv s'"
proof -
  have th: "thinned s s'" by (rule metadata_thinned [OF assms(1)])
  have q: "db_inv (mx_queue s)" using inv by (simp add: system_inv_def)
  note t = th [unfolded thinned_def]
  have "db_inv (mx_queue s')"
  proof (rule queue_inv_less [OF q])
    show "subseq (db_deliveries (mx_queue s')) (db_deliveries (mx_queue s))" "subseq (db_attempts (mx_queue s')) (db_attempts (mx_queue s))"
      using t by blast+
    show "\<forall>a\<in>set (db_attempts (mx_queue s')). \<exists>d\<in>set (db_deliveries (mx_queue s')). dkey d = akey a"
      by (rule owned_rows [OF metadata_owned [OF assms(1) owned_inv [OF q]]])
  qed (use t in blast)
  moreover have "quiet ws (mx_queue s')" if "ws \<in> jb_ws ` set (mx_jobs s)" for ws
    by (rule quiet_less [OF system_quiet [OF inv that]]) (use t in \<open>simp, blast intro: subseq_set [THEN subsetD]\<close>)
  ultimately show ?thesis using t by (intro system_invI [of s' s]) simp_all
qed

lemma delete_step_rows:
  assumes "delete_step lk n ws p s = (c, s')"
  shows "set (db_workspaces (mx_queue s')) \<subseteq> set (db_workspaces (mx_queue s))"
    "subseq (db_deliveries (mx_queue s')) (db_deliveries (mx_queue s))"
    "subseq (db_attempts (mx_queue s')) (db_attempts (mx_queue s))"
    "\<forall>a\<in>set (db_attempts (mx_queue s)). at_ws a \<noteq> ws \<longrightarrow> a \<in> set (db_attempts (mx_queue s'))"
  using assms
  by (cases p; auto simp: delete_step_def Let_def on_mx_queue_def on_mx_auth_def split: prod.splits
      dest: delete_batch_subseq delete_batch_rest)+

lemma update_finish_ws: "jb_ws ` set (update_where P (finish_job st c p) js) = jb_ws ` set js"
  by (rule update_where_image) (simp add: finish_job_def)

lemma workspace_system_inv:
  assumes "purge_workspace lk batch audit st s = Inr (r, s')" and inv: "system_inv s"
  shows "system_inv s'"
proof (cases r)
  case None
  then show ?thesis using assms purge_workspace_idle by blast
next
  case (Some x)
  obtain ws c d p' where "x = (ws, c, d, p')" by (cases x) auto
  then have pw: "purge_workspace lk batch audit st s = Inr (Some (ws, c, d, p'), s')" using assms(1) Some by simp
  have q: "db_inv (mx_queue s)" using inv by (simp add: system_inv_def)
  from pw show ?thesis
  proof (cases rule: purge_workspace_job)
    case (1 job s1 p)
    have same: "mx_queue s' = mx_queue s1" "jb_ws ` set (mx_jobs s') = jb_ws ` set (mx_jobs s)"
      using update_finish_ws by (simp_all add: 1(8) complete_purge_def on_mx_auth_def)
    note rows = delete_step_rows [OF 1(5)]
    have ws: "ws \<in> jb_ws ` set (mx_jobs s)" using due_job_ready [OF 1(1)] 1(2) by auto
    have "db_inv (mx_queue s1)"
    proof (rule queue_inv_less [OF q rows(2,3)])
      show "\<forall>a\<in>set (db_attempts (mx_queue s1)). \<exists>d\<in>set (db_deliveries (mx_queue s1)). dkey d = akey a"
        using owned_rows [OF delete_step_owned [OF 1(5) [unfolded 1(3)] owned_inv [OF q]]] .
    next
      fix d a assume d: "d \<in> set (db_deliveries (mx_queue s1))" "dr_status d = Processing"
        and a: "a \<in> set (db_attempts (mx_queue s))" "akey a = dkey d"
      have "dr_ws d \<noteq> ws" using system_quiet [OF inv ws] d subseq_set [OF rows(2)] by (auto simp: quiet_def)
      then show "a \<in> set (db_attempts (mx_queue s1))" using rows(4) a by (auto simp: akey_def dkey_def)
    qed
    moreover have "quiet ws (mx_queue s1)" if "ws \<in> jb_ws ` set (mx_jobs s)" for ws
      by (rule quiet_less [OF system_quiet [OF inv that] rows(1) subseq_set [OF rows(2)]])
    ultimately show ?thesis using same by (intro system_invI [of s' s]) simp_all
  qed
qed

text \<open>A purge is requested: its workspace becomes quiet.\<close>

lemma request_shape:
  assumes "request_workspace_purge ws requestID job audit st clk s = Inr (r, s')" and "s' \<noteq> s"
  shows "db_workspaces (mx_queue s') = update_where (\<lambda>w. wr_id w = ws) (\<lambda>w. w\<lparr>wr_active := False\<rparr>) (db_workspaces (mx_queue s))"
    "db_deliveries (mx_queue s') = update_where (\<lambda>d. dr_ws d = ws \<and> dr_status d = Processing)
       (fail_row st ''workspace_deleting'') (db_deliveries (mx_queue s))"
    "db_attempts (mx_queue s') = update_where (\<lambda>x. (at_ws x = ws \<and> list_ex (\<lambda>d. dkey d = akey x) (db_deliveries (mx_queue s)))
       \<and> at_state x = Started) (abandon_attempt st ''workspace_deleting'') (db_attempts (mx_queue s))"
    "jb_ws ` set (mx_jobs s') \<subseteq> insert ws (jb_ws ` set (mx_jobs s))"
proof -
  let ?job = "\<lparr>jb_id = job, jb_ws = ws, jb_status = Job_pending, jb_checkpoint = Replay_commands,
     jb_scheduled = clk, jb_lease = None, jb_token = 0, jb_attempts = 0, jb_processed = 0\<rparr>"
  have len: "\<not> (length requestID < 1 \<or> length requestID > 128)"
  proof
    assume "length requestID < 1 \<or> length requestID > 128"
    from assms(1) [unfolded request_workspace_purge_def if_P [OF this]] show False by simp
  qed
  note p = assms(1) [unfolded request_workspace_purge_def if_not_P [OF len] Let_def]
  obtain w where w: "find (\<lambda>w. aw_id w = ws) (ad_workspaces (mx_auth s)) = Some w"
  proof (cases "find (\<lambda>w. aw_id w = ws) (ad_workspaces (mx_auth s))")
    case None
    from p [unfolded None option.case] assms(2) show thesis by simp
  qed
  note p = p [unfolded w option.case]
  have n: "aw_status w \<noteq> ''deleting''"
  proof
    assume "aw_status w = ''deleting''"
    from p [unfolded if_P [OF this]] assms(2) show False by simp
  qed
  note s' = p [unfolded if_not_P [OF n] sum.inject prod.inject, THEN conjunct2, symmetric]
  show "db_workspaces (mx_queue s') = update_where (\<lambda>w. wr_id w = ws) (\<lambda>w. w\<lparr>wr_active := False\<rparr>) (db_workspaces (mx_queue s))"
    "db_deliveries (mx_queue s') = update_where (\<lambda>d. dr_ws d = ws \<and> dr_status d = Processing)
       (fail_row st ''workspace_deleting'') (db_deliveries (mx_queue s))"
    "db_attempts (mx_queue s') = update_where (\<lambda>x. (at_ws x = ws \<and> list_ex (\<lambda>d. dkey d = akey x) (db_deliveries (mx_queue s)))
       \<and> at_state x = Started) (abandon_attempt st ''workspace_deleting'') (db_attempts (mx_queue s))"
    unfolding s' by (simp_all add: on_mx_auth_def on_mx_queue_def)
  have "mx_jobs s' = (case find (\<lambda>j. jb_ws j = ws) (mx_jobs s) of None \<Rightarrow> mx_jobs s @ [?job]
      | Some j \<Rightarrow> update_where (\<lambda>j. jb_ws j = ws) (\<lambda>j. j\<lparr>jb_status := Job_pending,
          jb_checkpoint := Replay_commands, jb_processed := 0, jb_scheduled := st, jb_lease := None\<rparr>) (mx_jobs s))"
    unfolding s' by simp
  then show "jb_ws ` set (mx_jobs s') \<subseteq> insert ws (jb_ws ` set (mx_jobs s))"
    by (auto simp: set_update_where split: option.splits if_splits)
qed

lemma deactivated: "\<forall>w\<in>set (update_where (\<lambda>w. wr_id w = ws) (\<lambda>w. w\<lparr>wr_active := False\<rparr>) ws'). wr_id w = ws \<longrightarrow> \<not> wr_active w"
  by (induction ws') auto

lemma unclaimed:
  "\<forall>d\<in>set (update_where (\<lambda>d. dr_ws d = ws \<and> dr_status d = Processing) (fail_row st c) ds). dr_ws d = ws \<longrightarrow> dr_status d \<noteq> Processing"
  by (induction ds) (auto simp: fail_row_def)

lemma still_active:
  "v \<in> set (update_where P (\<lambda>w. w\<lparr>wr_active := False\<rparr>) ws') \<Longrightarrow> wr_active v \<Longrightarrow> v \<in> set ws'"
  by (induction ws') (auto split: if_splits)

lemma still_claimed: "d \<in> set (update_where P (fail_row st c) ds) \<Longrightarrow> dr_status d = Processing \<Longrightarrow> d \<in> set ds"
  by (induction ds) (auto simp: fail_row_def split: if_splits)

lemma request_system_inv:
  assumes "request_workspace_purge ws requestID job audit st clk s = Inr (r, s')" and inv: "system_inv s"
  shows "system_inv s'"
proof (cases "s' = s")
  case False
  note sh = request_shape [OF assms(1) False]
  have q: "db_inv (mx_queue s)" using inv by (simp add: system_inv_def)
  have db: "db_inv (mx_queue s')" unfolding sh(2,3)
  proof (rule fail_rows_inv [OF q])
    fix d a assume d: "d \<in> set (db_deliveries (mx_queue s))" and a: "a \<in> set (db_attempts (mx_queue s))" "akey a = dkey d" "at_state a = Started"
    have "dr_status d = Processing" using attempts_ok_started [OF inv_row(2) [OF q d]] a by (auto simp: attempts_of_def)
    then show "((at_ws a = ws \<and> list_ex (\<lambda>d. dkey d = akey a) (db_deliveries (mx_queue s))) \<and> at_state a = Started)
        \<longleftrightarrow> (dr_ws d = ws \<and> dr_status d = Processing)"
      using d a by (auto simp: list_ex_iff akey_def dkey_def)
  qed (auto simp: live_status_def)
  have now: "quiet ws (mx_queue s')" unfolding quiet_def sh(1,2) using deactivated unclaimed by blast
  have later: "quiet w (mx_queue s')" if q: "quiet w (mx_queue s)" for w
  proof (rule quietI [OF q])
    fix v assume "v \<in> set (db_workspaces (mx_queue s'))" "wr_id v = w" "wr_active v"
    then show "\<exists>v\<in>set (db_workspaces (mx_queue s)). wr_id v = w \<and> wr_active v"
      unfolding sh(1) using still_active by blast
  next
    fix d assume "d \<in> set (db_deliveries (mx_queue s'))" "dr_ws d = w" "dr_status d = Processing"
    then show "\<exists>c\<in>set (db_deliveries (mx_queue s)). dr_ws c = w \<and> dr_status c = Processing"
      unfolding sh(2) using still_claimed by blast
  qed
  have "quiet (jb_ws j) (mx_queue s')" if "j \<in> set (mx_jobs s')" for j
  proof (cases "jb_ws j = ws")
    case False
    then have "jb_ws j \<in> jb_ws ` set (mx_jobs s)" using sh(4) that by blast
    then show ?thesis by (rule later [OF system_quiet [OF inv]])
  qed (simp add: now)
  with db show ?thesis by (simp add: system_inv_def)
qed (simp add: inv)

lemma quarantine_system_inv:
  assumes "enter_restore_quarantine g audit st s = Inr (r, s')" and inv: "system_inv s"
  shows "system_inv s'"
proof (cases "s' = s")
  case False
  then have s': "mx_queue s' = quarantine_queue st (mx_queue s)" "mx_jobs s' = mx_jobs s"
    using assms(1) by (auto simp: enter_restore_quarantine_def on_mx_queue_def Let_def split: if_splits)
  have q: "db_inv (mx_queue s)" using inv by (simp add: system_inv_def)
  show ?thesis using s' quarantine_inv [OF q] qstep_quiet [OF q_quarantine system_quiet [OF inv] q]
    by (intro system_invI [of s' s]) simp_all
qed (simp add: inv)

section \<open>The transactions of the system\<close>

text \<open>One committed transaction that reaches the queue, the workspaces or the jobs of the purge; every other transaction of the
  API server, the console, the worker and the administrator leaves those four tables alone (\<open>s_other\<close>). A workspace is made
  under an identifier that was never used (a random UUID).\<close>

inductive system_step :: "maintenance_db \<Rightarrow> maintenance_db \<Rightarrow> bool" where
  s_queue: "qstep (mx_queue s) q \<Longrightarrow> system_step s (on_mx_queue (\<lambda>_. q) s)"
| s_metadata: "purge_expired_metadata T lk batch st s = Inr (m, s') \<Longrightarrow> system_step s s'"
| s_workspace_purge: "purge_workspace lk batch audit st s = Inr (r, s') \<Longrightarrow> system_step s s'"
| s_request: "request_workspace_purge ws requestID job audit st clk s = Inr (b, s') \<Longrightarrow> system_step s s'"
| s_quarantine: "enter_restore_quarantine g audit st s = Inr (b, s') \<Longrightarrow> system_step s s'"
| s_reconcile: "complete_restore_reconciliation g audit s = Inr (b, s') \<Longrightarrow> system_step s s'"
| s_bootstrap: "\<forall>w\<in>set (db_workspaces (mx_queue s)). wr_id w \<noteq> ws \<Longrightarrow> \<forall>j\<in>set (mx_jobs s). jb_ws j \<noteq> ws \<Longrightarrow>
    system_step s (on_mx_queue (\<lambda>q. q\<lparr>db_workspaces := db_workspaces q @ [\<lparr>wr_id = ws, wr_active = True, wr_last_seq = 0\<rparr>]\<rparr>) s)"
| s_other: "db_deliveries (mx_queue s') = db_deliveries (mx_queue s) \<Longrightarrow> db_attempts (mx_queue s') = db_attempts (mx_queue s) \<Longrightarrow>
    db_workspaces (mx_queue s') = db_workspaces (mx_queue s) \<Longrightarrow> mx_jobs s' = mx_jobs s \<Longrightarrow> system_step s s'"

inductive_cases system_stepE: "system_step s s'"

abbreviation system_steps :: "maintenance_db \<Rightarrow> maintenance_db \<Rightarrow> bool" where "system_steps \<equiv> system_step\<^sup>*\<^sup>*"

lemma same_rows_inv:
  assumes "system_inv s" and "db_deliveries (mx_queue s') = db_deliveries (mx_queue s)"
    and "db_attempts (mx_queue s') = db_attempts (mx_queue s)"
    and "db_workspaces (mx_queue s') = db_workspaces (mx_queue s)" and "mx_jobs s' = mx_jobs s"
  shows "system_inv s'"
  using assms by (simp add: system_inv_def quiet_def)

lemma system_step_inv: "system_step s s' \<Longrightarrow> system_inv s \<Longrightarrow> system_inv s'"
proof (induction rule: system_step.induct)
  case (s_queue s q)
  have inv: "db_inv (mx_queue s)" using s_queue(2) by (simp add: system_inv_def)
  show ?case using qstep_inv [OF s_queue(1) inv] qstep_quiet [OF s_queue(1) system_quiet [OF s_queue(2)] inv]
    by (intro system_invI [where s = s]) (simp_all add: on_mx_queue_def)
next
  case (s_reconcile g audit s b s')
  then have "mx_data s' = mx_data s \<and> mx_jobs s' = mx_jobs s"
    by (auto simp: complete_restore_reconciliation_def split: if_splits)
  then show ?case by (intro same_rows_inv [OF s_reconcile(2)]) simp_all
next
  case (s_bootstrap s ws)
  then show ?case by (auto simp: system_inv_def quiet_def on_mx_queue_def)
next
  case (s_other s' s)
  then show ?case by (auto intro: same_rows_inv [of s s'])
qed (blast intro: metadata_system_inv workspace_system_inv request_system_inv quarantine_system_inv)+

lemma system_steps_inv: "system_steps s s' \<Longrightarrow> system_inv s \<Longrightarrow> system_inv s'"
  by (induction rule: rtranclp_induct) (auto intro: system_step_inv)

lemma qsteps_system: "qsteps q q' \<Longrightarrow> mx_queue s = q \<Longrightarrow> system_steps s (on_mx_queue (\<lambda>_. q') s)"
proof (induction rule: rtranclp_induct)
  case base
  then have "on_mx_queue (\<lambda>_. q) s = s" by (simp add: on_mx_queue_same)
  then show ?case by simp
next
  case (step q1 q2)
  have "system_step (on_mx_queue (\<lambda>_. q1) s) (on_mx_queue (\<lambda>_. q2) (on_mx_queue (\<lambda>_. q1) s))"
    by (rule s_queue) (simp add: on_mx_queue_def step.hyps(2))
  then show ?case using step.IH [OF step.prems] by (auto simp: on_mx_queue_def intro: rtranclp.rtrancl_into_rtrancl)
qed

text \<open>The delivery of the small database is published and claimed, then its workspace is purged.\<close>

definition idle_maintenance :: maintenance_db where
  "idle_maintenance = demo_maintenance\<lparr>mx_data := (mx_data demo_maintenance)\<lparr>ap_queue := demo_db\<rparr>, mx_jobs := [],
     mx_sessions := (mx_sessions demo_maintenance)\<lparr>sb_auth := (mx_auth demo_maintenance)\<lparr>ad_workspaces :=
       [\<lparr>aw_id = 1, aw_name = ''demo'', aw_status = ''active''\<rparr>]\<rparr>\<rparr>\<rparr>"

definition claimed_maintenance :: maintenance_db where
  "claimed_maintenance = on_mx_queue (\<lambda>_. demo_db2) idle_maintenance"

lemma idle_steps: "\<exists>s. system_steps idle_maintenance s \<and> map dr_status (db_deliveries (mx_queue s)) = [Failed_permanent]
    \<and> map at_state (db_attempts (mx_queue s)) = [Abandoned] \<and> length (mx_jobs s) = 1"
proof -
  have "system_steps idle_maintenance claimed_maintenance" unfolding claimed_maintenance_def
    by (rule qsteps_system [OF demo_steps]) (simp add: idle_maintenance_def)
  moreover obtain s where "request_workspace_purge 1 ''r'' 9 8 5 5 claimed_maintenance = Inr (True, s)"
      "map dr_status (db_deliveries (mx_queue s)) = [Failed_permanent]" "map at_state (db_attempts (mx_queue s)) = [Abandoned]"
      "length (mx_jobs s) = 1"
    by (simp add: request_workspace_purge_def claimed_maintenance_def idle_maintenance_def demo_maintenance_def on_mx_queue_def
        on_mx_auth_def Let_def demo_defs dkey_def akey_def fail_row_def abandon_attempt_def)
  ultimately show ?thesis by (meson s_request rtranclp.rtrancl_into_rtrancl)
qed

section \<open>What retention means for rotation commands\<close>

text \<open>The purge of expired metadata is a step of \<open>Signing_Keys.key_step\<close> that keeps every command younger than the metadata
  retention of its workspace.\<close>

lemma purge_rotations_keys:
  assumes "purge_rotations T lk n st s = (c, s')" and "\<And>x. kept x \<Longrightarrow> \<not> rotation_expired T st s x"
  shows "set (ap_rotations (mx_data s')) \<subseteq> set (ap_rotations (mx_data s))"
    "filter kept (ap_rotations (mx_data s')) = filter kept (ap_rotations (mx_data s))"
proof -
  obtain xs where xs: "delete_batch n (\<lambda>c. (rt_rotation T c, ro_id c)) (lk Rotation_commands) (rotation_expired T st s)
      (ap_rotations (mx_data s)) = (c, xs)" "s' = s\<lparr>mx_data := (mx_data s)\<lparr>ap_rotations := xs\<rparr>\<rparr>"
    using assms(1) by (auto simp: purge_rotations_def split: prod.splits)
  show "set (ap_rotations (mx_data s')) \<subseteq> set (ap_rotations (mx_data s))"
    "filter kept (ap_rotations (mx_data s')) = filter kept (ap_rotations (mx_data s))"
    using delete_batch_subset [OF xs(1)] delete_batch_kept [OF xs(1), of kept] assms(2) by (simp_all add: xs(2))
qed

lemma part_rotations:
  "purge_attempts T lk n st s = (c, s') \<Longrightarrow> ap_rotations (mx_data s') = ap_rotations (mx_data s)"
  "purge_replays T lk n st s = (c, s') \<Longrightarrow> ap_rotations (mx_data s') = ap_rotations (mx_data s)"
  "purge_deliveries T lk n st s = (c, s') \<Longrightarrow> ap_rotations (mx_data s') = ap_rotations (mx_data s)"
  "purge_events T lk n st s = (c, s') \<Longrightarrow> ap_rotations (mx_data s') = ap_rotations (mx_data s)"
  "purge_audits T lk n st s = (c, s') \<Longrightarrow> ap_rotations (mx_data s') = ap_rotations (mx_data s)"
  "purge_buckets lk n st s = (c, s') \<Longrightarrow> ap_rotations (mx_data s') = ap_rotations (mx_data s)"
  by (auto simp: purge_part_defs on_mx_queue_def on_mx_auth_def split: prod.splits)

lemma part_secrets:
  "purge_attempts T lk n st s = (c, s') \<Longrightarrow> db_secrets (mx_queue s') = db_secrets (mx_queue s)"
  "purge_replays T lk n st s = (c, s') \<Longrightarrow> db_secrets (mx_queue s') = db_secrets (mx_queue s)"
  "purge_rotations T lk n st s = (c, s') \<Longrightarrow> db_secrets (mx_queue s') = db_secrets (mx_queue s)"
  "purge_deliveries T lk n st s = (c, s') \<Longrightarrow> db_secrets (mx_queue s') = db_secrets (mx_queue s)"
  "purge_events T lk n st s = (c, s') \<Longrightarrow> db_secrets (mx_queue s') = db_secrets (mx_queue s)"
  "purge_audits T lk n st s = (c, s') \<Longrightarrow> db_secrets (mx_queue s') = db_secrets (mx_queue s)"
  "purge_buckets lk n st s = (c, s') \<Longrightarrow> db_secrets (mx_queue s') = db_secrets (mx_queue s)"
  by (auto simp: purge_part_defs on_mx_queue_def on_mx_auth_def split: prod.splits)

lemma metadata_key_step:
  assumes "purge_expired_metadata T lk batch st s = Inr (m, s')"
    and "\<And>x. kept x \<Longrightarrow> st < rt_rotation T x + days (rt_days T (ro_ws x))"
  shows "key_step kept (mx_data s) (mx_data s')"
proof (rule metadata_chain [OF assms(1)], goal_cases)
  case (1 s1 s2 s3 s4 s5 s6)
  have "\<not> rotation_expired T st s2 x" if "kept x" for x using assms(2) [OF that] by (simp add: rotation_expired_def)
  note p = purge_rotations_keys [OF 1(5) this]
  have r: "ap_rotations (mx_data s2) = ap_rotations (mx_data s)" "ap_rotations (mx_data s') = ap_rotations (mx_data s3)"
    using part_rotations 1 by (metis, metis)
  show ?thesis
  proof (rule k_expire)
    show "db_secrets (mx_queue s') = db_secrets (mx_queue s)" using part_secrets 1 by metis
  qed (use p in \<open>simp_all add: r\<close>)
qed

section \<open>Properties\<close>

text \<open>C9. The queue stays consistent in every state that committed transactions lead to from a database without deliveries,
  attempts and purge jobs: publications, claims, finalisations, replays, the purges of payloads, secrets, expired metadata and
  workspaces, quarantines and reconciliations of a restore, new workspaces, and transactions on the other tables. Of every
  delivery: status and columns agree, its current run has at most as many attempts as its counter says, a claimed delivery has
  exactly one open attempt and any other none, and an open attempt carries the delivery's fencing token; and no attempt is
  without its delivery.\<close>

theorem queue_reachable_inv:
  assumes "system_steps s0 s" and "db_deliveries (mx_queue s0) = []" and "db_attempts (mx_queue s0) = []" and "mx_jobs s0 = []"
  shows "(\<forall>d\<in>set (db_deliveries (mx_queue s)).
      (let as = attempts_of (dkey d) (db_attempts (mx_queue s))
       in row_ok d \<and> int (length (filter (\<lambda>a. at_run a = dr_run d) as)) \<le> dr_attempts d
          \<and> length (filter (\<lambda>a. at_state a = Started) as) = (if dr_status d = Processing then 1 else 0)
          \<and> (\<forall>a\<in>set as. at_state a = Started \<longrightarrow> dr_status d = Processing \<and> at_token a = dr_token d)))
    \<and> (\<forall>a\<in>set (db_attempts (mx_queue s)). \<exists>d\<in>set (db_deliveries (mx_queue s)). dkey d = akey a)"
proof -
  have "system_inv s0" using assms(2-4) by (simp add: system_inv_def queue_inv_def)
  then have inv: "db_inv (mx_queue s)" using system_steps_inv [OF assms(1)] by (simp add: system_inv_def)
  show ?thesis
  proof (intro conjI ballI)
    fix d assume "d \<in> set (db_deliveries (mx_queue s))"
    from db_inv_delivery [OF inv this] show "let as = attempts_of (dkey d) (db_attempts (mx_queue s))
       in row_ok d \<and> int (length (filter (\<lambda>a. at_run a = dr_run d) as)) \<le> dr_attempts d
          \<and> length (filter (\<lambda>a. at_state a = Started) as) = (if dr_status d = Processing then 1 else 0)
          \<and> (\<forall>a\<in>set as. at_state a = Started \<longrightarrow> dr_status d = Processing \<and> at_token a = dr_token d)"
      unfolding Let_def .
  qed (use inv in \<open>simp add: queue_inv_def\<close>)
qed

theorem queue_reachable_inv_witness:
  "\<exists>s d. system_steps idle_maintenance s \<and> length (mx_jobs s) = 1 \<and> db_deliveries (mx_queue s) = [d]
     \<and> dr_status d = Failed_permanent \<and> row_ok d
     \<and> filter (\<lambda>a. at_state a = Started) (attempts_of (dkey d) (db_attempts (mx_queue s))) = []"
proof -
  from idle_steps obtain s where s: "system_steps idle_maintenance s" "length (mx_jobs s) = 1"
      and st: "map dr_status (db_deliveries (mx_queue s)) = [Failed_permanent]"
    by (elim exE conjE)
  from st obtain d where d: "db_deliveries (mx_queue s) = [d]" "dr_status d = Failed_permanent" by (auto simp: map_eq_Cons_conv)
  have "mx_jobs idle_maintenance = []" "db_deliveries (mx_queue idle_maintenance) = []" "db_attempts (mx_queue idle_maintenance) = []"
    by (simp_all add: idle_maintenance_def demo_db_def)
  from queue_reachable_inv [OF s(1) this(2,3,1)] d
  have "row_ok d \<and> filter (\<lambda>a. at_state a = Started) (attempts_of (dkey d) (db_attempts (mx_queue s))) = []"
    by (simp add: Let_def)
  then show ?thesis by (intro exI [of _ s] exI [of _ d] conjI s d) simp_all
qed

end
