(* ===== verification/Chaos_Lab.thy ===== *)
theory Chaos_Lab
  imports Deliver Problem "HOL-Library.AList"
begin

text \<open>
  \<open>internal/chaoslab\<close>: the local receiver of webhooks, its scenarios and their shared state. Maps are association lists
  with distinct keys. The decoder of a configuration (a document with the members \<open>key_id\<close> and \<open>secret\<close> and no others,
  and nothing after it) and the clock, read once for each key, are parameters.
\<close>

section \<open>State\<close>

definition max_configured_secrets :: nat where "max_configured_secrets = 4"
definition max_concurrent_scenarios :: nat where "max_concurrent_scenarios = 8"

record chaos_state =
  ch_secrets :: "(string \<times> bytes) list"
  ch_counters :: "(string \<times> int) list"
  ch_last_scenario :: string
  ch_last_status :: int
  ch_valid :: int
  ch_slots :: nat
  ch_active :: int
  ch_peak :: int

definition chaos_start :: chaos_state where
  "chaos_start = \<lparr>ch_secrets = [], ch_counters = [], ch_last_scenario = [], ch_last_status = 0, ch_valid = 0,
     ch_slots = 0, ch_active = 0, ch_peak = 0\<rparr>"

text \<open>The report of \<open>GET /state\<close>: no secret, no payload.\<close>

record chaos_report =
  cr_counters :: "(string \<times> int) list"
  cr_last_scenario :: string
  cr_last_status :: int
  cr_valid_signatures :: int
  cr_active :: int
  cr_peak :: int

datatype chaos_body = Empty | Live | Chaos_report chaos_report

text \<open>An answer with its \<open>Retry-After\<close>; a request that was cancelled has none.\<close>

type_synonym chaos_answer = "string option \<times> chaos_body reply"

definition counter_of :: "string \<Rightarrow> chaos_state \<Rightarrow> int" where
  "counter_of scenario s = (case map_of (ch_counters s) scenario of None \<Rightarrow> 0 | Some n \<Rightarrow> n)"

definition increment :: "string \<Rightarrow> chaos_state \<Rightarrow> int \<times> chaos_state" where
  "increment scenario s =
     (let n = (counter_of scenario s + 1) mod 2 ^ 64
      in (n, s\<lparr>ch_counters := AList.update scenario n (ch_counters s)\<rparr>))"

definition record_status :: "string \<Rightarrow> int \<Rightarrow> chaos_state \<Rightarrow> chaos_state" where
  "record_status scenario status s = s\<lparr>ch_last_scenario := scenario, ch_last_status := status, ch_valid := 0\<rparr>"

definition record_result :: "string \<Rightarrow> int \<Rightarrow> int \<Rightarrow> chaos_state \<Rightarrow> chaos_state" where
  "record_result scenario status valid s =
     (snd (increment scenario s))\<lparr>ch_last_scenario := scenario, ch_last_status := status, ch_valid := valid\<rparr>"

section \<open>Scenarios\<close>

definition bounded_query_int :: "(string \<times> string list) list \<Rightarrow> string \<Rightarrow> int \<Rightarrow> int \<Rightarrow> int \<Rightarrow> int option" where
  "bounded_query_int query name fallback minimum maximum =
     (if list_ex (\<lambda>(key, values). key \<noteq> name \<or> length values \<noteq> 1) query then None
      else
        let v = (case map_of query name of None \<Rightarrow> [] | Some [] \<Rightarrow> [] | Some (x # xs) \<Rightarrow> x)
        in if v = [] then Some fallback
           else case parse_int 64 v of
             None \<Rightarrow> None
           | Some value \<Rightarrow> if value \<ge> minimum \<and> value \<le> maximum then Some value else None)"

definition invalid_scenario :: "'p request \<Rightarrow> chaos_answer" where
  "invalid_scenario r = (None, write_problem r 400 ''invalid_scenario'' ''Invalid scenario'')"

definition no_body :: "int \<Rightarrow> chaos_answer" where
  "no_body status = (None, Reply status Empty)"

definition fail_n :: "'p request \<Rightarrow> chaos_state \<Rightarrow> chaos_answer \<times> chaos_state" where
  "fail_n r s = (case bounded_query_int (hx_query r) ''failures'' 2 1 10 of
       None \<Rightarrow> (invalid_scenario r, s)
     | Some failures \<Rightarrow>
         (case increment ''fail_n_then_succeed'' s of
            (call, s') \<Rightarrow>
              if call \<le> failures then (no_body 503, record_status ''fail_n_then_succeed'' 503 s')
              else (no_body 204, record_status ''fail_n_then_succeed'' 204 s')))"

text \<open>\<open>timeout\<close> before its timer: an answer at once, or the delay it now waits.\<close>

definition timeout_start :: "'p request \<Rightarrow> chaos_state \<Rightarrow> (chaos_answer + duration) \<times> chaos_state" where
  "timeout_start r s = (case bounded_query_int (hx_query r) ''delay_ms'' 11000 100 20000 of
       None \<Rightarrow> (Inl (invalid_scenario r), s)
     | Some delayMS \<Rightarrow> (Inr (delayMS * 1000000), snd (increment ''timeout'' s)))"

definition timeout_fire :: "chaos_state \<Rightarrow> chaos_answer \<times> chaos_state" where
  "timeout_fire s = (no_body 204, record_status ''timeout'' 204 s)"

definition rate_limit :: "'p request \<Rightarrow> chaos_state \<Rightarrow> chaos_answer \<times> chaos_state" where
  "rate_limit r s = (case bounded_query_int (hx_query r) ''retry_after'' 1 1 900 of
       None \<Rightarrow> (invalid_scenario r, s)
     | Some retryAfter \<Rightarrow>
         ((Some (format_int retryAfter), Reply 429 Empty), record_status ''rate_limit'' 429 (snd (increment ''rate_limit'' s))))"

definition permanent_failure :: "chaos_state \<Rightarrow> chaos_answer \<times> chaos_state" where
  "permanent_failure s = (no_body 400, record_status ''permanent_failure'' 400 (snd (increment ''permanent_failure'' s)))"

definition chaos_reset :: "chaos_state \<Rightarrow> chaos_answer \<times> chaos_state" where
  "chaos_reset s = (no_body 204, s\<lparr>ch_counters := [], ch_last_scenario := [], ch_last_status := 0, ch_valid := 0,
     ch_peak := ch_active s\<rparr>)"

definition chaos_state_report :: "chaos_state \<Rightarrow> chaos_answer" where
  "chaos_state_report s = (None, Reply 200 (Chaos_report \<lparr>cr_counters = ch_counters s, cr_last_scenario = ch_last_scenario s,
     cr_last_status = ch_last_status s, cr_valid_signatures = ch_valid s, cr_active = ch_active s, cr_peak = ch_peak s\<rparr>))"

definition configure :: "(bytes \<Rightarrow> (string \<times> string) option) \<Rightarrow> 'p request \<Rightarrow> chaos_state \<Rightarrow> chaos_answer \<times> chaos_state" where
  "configure decode r s =
     (let invalid = (None, write_problem r 400 ''invalid_configuration'' ''Invalid configuration'')
      in case (if length (hx_body r) > 4096 then None else decode (hx_body r)) of
           None \<Rightarrow> (invalid, s)
         | Some (keyID, text) \<Rightarrow>
             if length keyID < 8 \<or> length keyID > 64 then (invalid, s)
             else case b64_decode_strict text of
               None \<Rightarrow> (invalid, s)
             | Some secret \<Rightarrow>
                 if length secret \<noteq> 32 then (invalid, s)
                 else if map_of (ch_secrets s) keyID = None \<and> length (ch_secrets s) \<ge> max_configured_secrets
                 then ((None, write_problem r 409 ''configuration_limit'' ''Configuration limit reached''), s)
                 else (no_body 204, s\<lparr>ch_secrets := AList.update keyID secret (ch_secrets s)\<rparr>))"

definition key_verifies :: "(string \<Rightarrow> instant) \<Rightarrow> 'p request \<Rightarrow> string \<times> bytes \<Rightarrow> bool" where
  "key_verifies now r = (\<lambda>(keyID, secret). verify secret (now keyID) (5 * minute) (hx_header r ''WDE-Timestamp'')
     (hx_header r ''WDE-Event-ID'') (hx_header r ''WDE-Delivery-ID'') keyID (hx_header r ''WDE-Signature'') (hx_body r) = Inr ())"

definition verify_scenario ::
    "(string \<Rightarrow> instant) \<Rightarrow> bool \<Rightarrow> string \<Rightarrow> 'p request \<Rightarrow> chaos_state \<Rightarrow> chaos_answer \<times> chaos_state" where
  "verify_scenario now requireAll scenario r s =
     (let invalid = (None, write_problem r 401 ''invalid_signature'' ''Invalid signature'')
      in if hx_header r ''WDE-Signature-Version'' \<noteq> ''v1'' then (invalid, record_result scenario 401 0 s)
         else if length (hx_body r) > 1048576
         then ((None, write_problem r 413 ''payload_too_large'' ''Payload too large''), record_result scenario 413 0 s)
         else
           let valid = length (filter (key_verifies now r) (ch_secrets s));
               configured = length (ch_secrets s)
           in if valid > 0 \<and> (\<not> requireAll \<or> valid = configured) then (no_body 204, record_result scenario 204 (int valid) s)
              else (invalid, record_result scenario 401 (int valid) s))"

section \<open>Requests\<close>

datatype scenario = Success | Verify_signature | Fail_n | Timeout | Rate_limit | Permanent_failure

definition scenario_handler ::
    "(string \<Rightarrow> instant) \<Rightarrow> scenario \<Rightarrow> 'p request \<Rightarrow> chaos_state \<Rightarrow> (chaos_answer + duration) \<times> chaos_state" where
  "scenario_handler now sc r s = (case sc of
       Success \<Rightarrow> apfst Inl (verify_scenario now False ''success'' r s)
     | Verify_signature \<Rightarrow> apfst Inl (verify_scenario now True ''verify_signature'' r s)
     | Fail_n \<Rightarrow> apfst Inl (fail_n r s)
     | Timeout \<Rightarrow> timeout_start r s
     | Rate_limit \<Rightarrow> apfst Inl (rate_limit r s)
     | Permanent_failure \<Rightarrow> apfst Inl (permanent_failure s))"

datatype chaos_route = Livez | Configure | Scenario scenario | Reset | State | No_route

definition chaos_patterns :: "(string \<times> string \<times> chaos_route) list" where
  "chaos_patterns = [(''GET'', ''/livez'', Livez), (''POST'', ''/configure'', Configure), (''POST'', ''/success'', Scenario Success),
     (''POST'', ''/verify-signature'', Scenario Verify_signature), (''POST'', ''/fail-n'', Scenario Fail_n),
     (''POST'', ''/timeout'', Scenario Timeout), (''POST'', ''/rate-limit'', Scenario Rate_limit),
     (''POST'', ''/permanent-failure'', Scenario Permanent_failure), (''POST'', ''/reset'', Reset), (''GET'', ''/state'', State)]"

definition chaos_route_of :: "string \<Rightarrow> string \<Rightarrow> chaos_route" where
  "chaos_route_of m path =
     (case find (\<lambda>(pm, p, rt). (m = pm \<or> pm = ''GET'' \<and> m = ''HEAD'') \<and> p = path) chaos_patterns of
        None \<Rightarrow> No_route
      | Some (pm, p, rt) \<Rightarrow> rt)"

text \<open>The routes without \<open>bounded\<close> answer at once; a scenario goes through it.\<close>

definition plain_route ::
    "(bytes \<Rightarrow> (string \<times> string) option) \<Rightarrow> chaos_route \<Rightarrow> 'p request \<Rightarrow> chaos_state \<Rightarrow> (chaos_answer \<times> chaos_state) option" where
  "plain_route decode route r s = (case route of
       Livez \<Rightarrow> Some (((None, Reply 200 Live)), s)
     | Configure \<Rightarrow> Some (configure decode r s)
     | Reset \<Rightarrow> Some (chaos_reset s)
     | State \<Rightarrow> Some (chaos_state_report s, s)
     | No_route \<Rightarrow> Some ((None, write_problem r 404 ''not_found'' ''Resource not found''), s)
     | Scenario sc \<Rightarrow> None)"

text \<open>\<open>bounded\<close> in its four critical steps: take a slot or refuse, enter, leave, give the slot back.\<close>

definition take_slot :: "'p request \<Rightarrow> chaos_state \<Rightarrow> chaos_answer + chaos_state" where
  "take_slot r s =
     (if ch_slots s < max_concurrent_scenarios then Inr (s\<lparr>ch_slots := ch_slots s + 1\<rparr>)
      else Inl (Some ''1'', write_problem r 429 ''scenario_busy'' ''Scenario capacity reached''))"

definition enter_scenario :: "chaos_state \<Rightarrow> chaos_state" where
  "enter_scenario s = s\<lparr>ch_active := ch_active s + 1, ch_peak := max (ch_peak s) (ch_active s + 1)\<rparr>"

definition leave_scenario :: "chaos_state \<Rightarrow> chaos_state" where
  "leave_scenario s = s\<lparr>ch_active := ch_active s - 1\<rparr>"

definition free_slot :: "chaos_state \<Rightarrow> chaos_state" where
  "free_slot s = s\<lparr>ch_slots := ch_slots s - 1\<rparr>"

text \<open>Where a request in a scenario stands, and the steps of all of them in any order.\<close>

datatype 'p flight = Has_slot scenario "'p request" | Inside scenario "'p request" | Waiting duration
  | Answered "chaos_answer option" | Left "chaos_answer option"

type_synonym 'p lab = "chaos_state \<times> 'p flight list"

inductive lab_step :: "(bytes \<Rightarrow> (string \<times> string) option) \<Rightarrow> 'p lab \<Rightarrow> 'p lab \<Rightarrow> bool" for decode where
  lab_plain: "plain_route decode route (r :: 'p request) s = Some (a, s') \<Longrightarrow> lab_step decode (s, fs) (s', fs)"
| lab_slot: "take_slot r s = Inr s' \<Longrightarrow> lab_step decode (s, fs) (s', fs @ [Has_slot sc r])"
| lab_enter: "i < length fs \<Longrightarrow> fs ! i = Has_slot sc r \<Longrightarrow> lab_step decode (s, fs) (enter_scenario s, fs[i := Inside sc r])"
| lab_run: "i < length fs \<Longrightarrow> fs ! i = Inside sc r \<Longrightarrow> scenario_handler now sc r s = (x, s') \<Longrightarrow>
    lab_step decode (s, fs) (s', fs[i := (case x of Inl a \<Rightarrow> Answered (Some a) | Inr d \<Rightarrow> Waiting d)])"
| lab_fire: "i < length fs \<Longrightarrow> fs ! i = Waiting d \<Longrightarrow> timeout_fire s = (a, s') \<Longrightarrow>
    lab_step decode (s, fs) (s', fs[i := Answered (Some a)])"
| lab_cancel: "i < length fs \<Longrightarrow> fs ! i = Waiting d \<Longrightarrow> lab_step decode (s, fs) (s, fs[i := Answered None])"
| lab_leave: "i < length fs \<Longrightarrow> fs ! i = Answered a \<Longrightarrow> lab_step decode (s, fs) (leave_scenario s, fs[i := Left a])"
| lab_free: "i < length fs \<Longrightarrow> fs ! i = Left a \<Longrightarrow> lab_step decode (s, fs) (free_slot s, take i fs @ drop (Suc i) fs)"

section \<open>Capacity\<close>

text \<open>What the handler keeps of the configured secrets, and which requests count as active.\<close>

definition configured :: "(string \<times> bytes) list \<Rightarrow> bool" where
  "configured xs \<longleftrightarrow> distinct (map fst xs) \<and> length xs \<le> max_configured_secrets
     \<and> (\<forall>(k, v)\<in>set xs. 8 \<le> length k \<and> length k \<le> 64 \<and> length v = 32)"

fun running :: "'p flight \<Rightarrow> bool" where
  "running (Has_slot sc r) = False"
| "running (Left a) = False"
| "running f = True"

definition lab_inv :: "'p lab \<Rightarrow> bool" where
  "lab_inv = (\<lambda>(s, fs). configured (ch_secrets s) \<and> ch_slots s = length fs \<and> length fs \<le> max_concurrent_scenarios
     \<and> ch_active s = int (count_where running fs) \<and> ch_active s \<le> ch_peak s \<and> ch_peak s \<le> int max_concurrent_scenarios)"

lemma lab_invD: "lab_inv (s, fs) \<Longrightarrow> configured (ch_secrets s) \<and> ch_slots s = length fs \<and> length fs \<le> max_concurrent_scenarios
    \<and> ch_active s = int (count_where running fs) \<and> ch_active s \<le> ch_peak s \<and> ch_peak s \<le> int max_concurrent_scenarios"
  by (simp add: lab_inv_def)

lemma count_where_update:
  "i < length xs \<Longrightarrow> int (count_where P (xs[i := y])) = int (count_where P xs) + of_bool (P y) - of_bool (P (xs ! i))"
proof -
  assume i: "i < length xs"
  have "count_where P xs = count_where P (take i xs @ xs ! i # drop (Suc i) xs)" using i by (simp flip: id_take_nth_drop)
  then show ?thesis using i by (simp add: count_where_def upd_conv_take_nth_drop)
qed

lemma count_where_removed:
  "i < length xs \<Longrightarrow> \<not> P (xs ! i) \<Longrightarrow> count_where P (take i xs @ drop (Suc i) xs) = count_where P xs"
proof -
  assume "i < length xs" "\<not> P (xs ! i)"
  then have "filter P xs = filter P (take i xs) @ filter P (drop (Suc i) xs)"
    by (subst id_take_nth_drop [of i xs]) simp_all
  then show ?thesis by (simp add: count_where_def)
qed

lemma count_where_length: "count_where P xs \<le> length xs"
  by (simp add: count_where_def)

lemma configured_update:
  assumes "configured xs" and "8 \<le> length k" "length k \<le> 64" "length v = 32"
    and "map_of xs k = None \<Longrightarrow> length xs < max_configured_secrets"
  shows "configured (AList.update k v xs)"
proof -
  have d: "distinct (map fst (AList.update k v xs))" using assms(1) by (simp add: configured_def distinct_update)
  have f: "fst ` set (AList.update k v xs) = insert k (fst ` set xs)" by (simp add: update_keys dom_update)
  have "length (AList.update k v xs) = card (insert k (fst ` set xs))"
    using distinct_card [OF d] f by simp
  moreover have "length xs = card (fst ` set xs)"
    using distinct_card [of "map fst xs"] assms(1) by (simp add: configured_def)
  ultimately have "length (AList.update k v xs) = (if map_of xs k = None then length xs + 1 else length xs)"
    by (auto simp: map_of_eq_None_iff card_insert_if)
  moreover have "set (AList.update k v xs) \<subseteq> insert (k, v) (set xs)"
    by (induction xs) auto
  ultimately show ?thesis using assms d by (auto simp: configured_def)
qed

text \<open>A scenario moves only the counters and the last result.\<close>

lemma scenario_frame:
  "scenario_handler now sc r s = (x, s') \<Longrightarrow> ch_secrets s' = ch_secrets s \<and> ch_slots s' = ch_slots s
     \<and> ch_active s' = ch_active s \<and> ch_peak s' = ch_peak s"
  by (cases sc) (auto simp: scenario_handler_def verify_scenario_def fail_n_def timeout_start_def rate_limit_def permanent_failure_def
      record_result_def record_status_def increment_def Let_def apfst_def map_prod_def split: option.splits if_splits prod.splits)

lemma plain_frame:
  assumes "plain_route decode route r s = Some (a, s')" "configured (ch_secrets s)"
  shows "configured (ch_secrets s') \<and> ch_slots s' = ch_slots s \<and> ch_active s' = ch_active s
     \<and> ch_peak s' \<in> {ch_peak s, ch_active s}"
proof (cases route)
  case Configure
  then show ?thesis using assms
    by (auto simp: plain_route_def configure_def Let_def split: option.splits if_splits intro!: configured_update)
qed (use assms in \<open>auto simp: plain_route_def chaos_reset_def\<close>)

lemma lab_step_inv: "lab_step decode a b \<Longrightarrow> lab_inv a \<Longrightarrow> lab_inv b"
proof (induction rule: lab_step.induct)
  case (lab_plain route r s x s' fs)
  then show ?case using plain_frame [OF lab_plain(1)] by (auto simp: lab_inv_def)
next
  case (lab_slot r s s' fs sc)
  then show ?case
    by (auto simp: lab_inv_def take_slot_def count_where_def split: if_splits)
next
  case (lab_enter i fs sc r s)
  have "count_where running (fs[i := Inside sc r]) \<le> length fs"
    using count_where_length [of running "fs[i := Inside sc r]"] by simp
  then show ?case using lab_enter count_where_update [OF lab_enter(1), of running "Inside sc r"]
    by (auto simp: lab_inv_def enter_scenario_def)
next
  case (lab_run i fs sc r now s x s')
  have "running (case x of Inl a \<Rightarrow> Answered (Some a) | Inr d \<Rightarrow> Waiting d)" by (cases x) auto
  then show ?case using lab_run scenario_frame [OF lab_run(3)]
      count_where_update [OF lab_run(1), of running "case x of Inl a \<Rightarrow> Answered (Some a) | Inr d \<Rightarrow> Waiting d"]
    by (cases x) (auto simp: lab_inv_def)
next
  case (lab_fire i fs d s x s')
  then show ?case using count_where_update [OF lab_fire(1), of running "Answered (Some x)"]
    by (auto simp: lab_inv_def timeout_fire_def record_status_def)
next
  case (lab_cancel i fs d s)
  then show ?case using count_where_update [OF lab_cancel(1), of running "Answered None"]
    by (auto simp: lab_inv_def)
next
  case (lab_leave i fs x s)
  then show ?case using count_where_update [OF lab_leave(1), of running "Left x"]
    by (auto simp: lab_inv_def leave_scenario_def)
next
  case (lab_free i fs x s)
  then show ?case using count_where_removed [OF lab_free(1), of running]
    by (auto simp: lab_inv_def free_slot_def)
qed

lemma lab_reachable_inv: "(lab_step decode)\<^sup>*\<^sup>* (chaos_start, []) a \<Longrightarrow> lab_inv a"
proof (induction rule: rtranclp_induct)
  case base
  then show ?case by (simp add: lab_inv_def chaos_start_def configured_def count_where_def)
next
  case (step b c)
  then show ?case using lab_step_inv by blast
qed

section \<open>Scenarios on their own\<close>

lemma counter_incremented: "counter_of sc (snd (increment sc s)) = (counter_of sc s + 1) mod 2 ^ 64"
  by (simp add: increment_def Let_def counter_of_def update_conv')

text \<open>The answers of \<open>n\<close> calls of \<open>fail_n\<close>, one after the other.\<close>

primrec fail_n_calls :: "'p request \<Rightarrow> nat \<Rightarrow> chaos_state \<Rightarrow> chaos_answer list" where
  "fail_n_calls r 0 s = []"
| "fail_n_calls r (Suc n) s = (case fail_n r s of (a, s') \<Rightarrow> a # fail_n_calls r n s')"

lemma fail_n_calls_from:
  assumes "bounded_query_int (hx_query r) ''failures'' 2 1 10 = Some k"
  shows "counter_of ''fail_n_then_succeed'' s = int c \<Longrightarrow> int (c + n) < 2 ^ 64 \<Longrightarrow>
    fail_n_calls r n s = replicate (min n (nat k - c)) (no_body 503) @ replicate (n - (nat k - c)) (no_body 204)"
proof (induction n arbitrary: s c)
  case (Suc n)
  obtain s1 where s1: "increment ''fail_n_then_succeed'' s = (int (Suc c), s1)"
    using Suc.prems by (simp add: increment_def Let_def)
  have c1: "counter_of ''fail_n_then_succeed'' (record_status x y s1) = int (Suc c)" for x y
    using counter_incremented [of "''fail_n_then_succeed''" s] Suc.prems s1
    by (simp add: record_status_def counter_of_def)
  have ih: "fail_n_calls r n (record_status x y s1)
      = replicate (min n (nat k - Suc c)) (no_body 503) @ replicate (n - (nat k - Suc c)) (no_body 204)" for x y
    by (rule Suc.IH [OF c1]) (use Suc.prems in simp)
  show ?case
  proof (cases "int (Suc c) \<le> k")
    case True
    then obtain d where "nat k - c = Suc d" "nat k - Suc c = d"
      by (metis Suc_diff_Suc Suc_le_lessD le_nat_iff nat_le_iff of_nat_0_le_iff order_trans)
    then show ?thesis using True by (simp add: fail_n_def assms s1 ih)
  next
    case False
    then have "nat k - c = 0" "nat k - Suc c = 0" by auto
    then show ?thesis using False by (simp add: fail_n_def assms s1 ih)
  qed
qed simp

theorem fail_n_then_succeeds:
  assumes "bounded_query_int (hx_query r) ''failures'' 2 1 10 = Some k" and "n < 2 ^ 64"
  shows "fail_n_calls r n (snd (chaos_reset s)) = replicate (min n (nat k)) (no_body 503) @ replicate (n - nat k) (no_body 204)"
  using fail_n_calls_from [OF assms(1), of "snd (chaos_reset s)" 0 n] assms(2)
  by (simp add: chaos_reset_def counter_of_def)

section \<open>The lab and the worker\<close>

text \<open>A request of the worker as the lab receives it.\<close>

definition received :: "http_request \<Rightarrow> 'p request \<Rightarrow> 'p request" where
  "received q r = r\<lparr>hx_header := (\<lambda>k. case hq_header q k of None \<Rightarrow> [] | Some v \<Rightarrow> v), hx_body := hq_body q\<rparr>"

lemma build_request_version:
  "build_request e target c opened = Inr q \<Longrightarrow>
     \<forall>h. \<forall>k\<in>insert ''WDE-Signature-Version'' wde_headers. we_inject e h k = h k \<Longrightarrow> hq_header q ''WDE-Signature-Version'' = Some ''v1''"
  by (auto simp: build_request_def Let_def split: if_splits option.splits)

lemma verify_scenario_all:
  assumes "hx_header r ''WDE-Signature-Version'' = ''v1''" and "length (hx_body r) \<le> 1048576"
    and "ch_secrets s \<noteq> []" and "\<forall>x\<in>set (ch_secrets s). key_verifies now r x"
  shows "verify_scenario now requireAll scenario r s = (no_body 204, record_result scenario 204 (int (length (ch_secrets s))) s)"
  using assms by (simp add: verify_scenario_def Let_def filter_id_conv)

lemma received_verifies:
  assumes "build_request e target c opened = Inr q" and "\<forall>h. \<forall>k\<in>insert ''WDE-Signature-Version'' wde_headers. we_inject e h k = h k"
    and "(k, sec) \<in> set (signing_keys c opened)"
    and "\<forall>(k, sec)\<in>set (signing_keys c opened). key_id_ok k" and "distinct (map fst (signing_keys c opened))"
    and "- (2 ^ 63) \<le> time_unix (we_signed e)" and "time_unix (we_signed e) < 2 ^ 63 - 62135596800"
    and "\<bar>now k - time_unix (we_signed e) * 1000000000\<bar> \<le> 5 * minute"
  shows "key_verifies now (received q r) (k, sec)"
proof -
  have "0 < 5 * minute" "5 * minute \<le> 15 * minute" by (simp_all add: minute_def)
  from verify_signed [OF assms(4,5,3) this assms(6-8)]
    build_request_signature [OF assms(1)] assms(2)
  show ?thesis by (simp add: key_verifies_def received_def)
qed

section \<open>Properties\<close>

text \<open>The lab keeps its limits however requests interleave: in every reachable state at most eight scenarios run, as
  many as there are slots taken, the reported peak is never below the number active nor above eight, at most four secrets
  of 32 bytes are held, no slot is lost, and a ninth request is refused with 429 at once, without touching the state.\<close>

theorem chaos_capacity:
  assumes "(lab_step decode)\<^sup>*\<^sup>* (chaos_start, []) (s, fs)"
  shows "ch_slots s = length fs \<and> length fs \<le> 8 \<and> 0 \<le> ch_active s \<and> ch_active s \<le> int (length fs)
    \<and> ch_active s \<le> ch_peak s \<and> ch_peak s \<le> 8 \<and> length (ch_secrets s) \<le> 4
    \<and> (\<forall>(k, secret)\<in>set (ch_secrets s). length secret = 32)
    \<and> (if length fs = 8 then \<exists>p. take_slot r s = Inl (Some ''1'', Problem p) \<and> pd_status p = 429
       else \<exists>s'. take_slot r s = Inr s')"
  using lab_reachable_inv [OF assms] count_where_length [of running fs]
  by (auto simp: lab_inv_def configured_def max_configured_secrets_def max_concurrent_scenarios_def take_slot_def
      count_where_def write_problem_def)

definition demo_chaos_request :: "unit request" where
  "demo_chaos_request = \<lparr>hx_header = (\<lambda>_. []), hx_path_value = (\<lambda>_. []), hx_query = [], hx_body = [], hx_remote = [],
     hx_principal = None, hx_request_id = []\<rparr>"

theorem chaos_capacity_witness:
  "length [Inside Permanent_failure demo_chaos_request] \<le> 8
    \<and> (\<exists>s'. take_slot demo_chaos_request (chaos_start\<lparr>ch_slots := 1, ch_active := 1, ch_peak := 1\<rparr>) = Inr s')"
proof -
  let ?step = "lab_step (\<lambda>_. None)" and ?r = demo_chaos_request
  have "?step (chaos_start, []) (chaos_start\<lparr>ch_slots := 1\<rparr>, [] @ [Has_slot Permanent_failure ?r])"
    by (rule lab_slot) (simp add: take_slot_def chaos_start_def max_concurrent_scenarios_def)
  moreover have "?step (chaos_start\<lparr>ch_slots := 1\<rparr>, [Has_slot Permanent_failure ?r])
      (enter_scenario (chaos_start\<lparr>ch_slots := 1\<rparr>), [Has_slot Permanent_failure ?r][0 := Inside Permanent_failure ?r])"
    by (rule lab_enter) simp_all
  ultimately have "?step\<^sup>*\<^sup>* (chaos_start, []) (chaos_start\<lparr>ch_slots := 1, ch_active := 1, ch_peak := 1\<rparr>,
      [Inside Permanent_failure ?r])"
    by (auto intro: converse_rtranclp_into_rtranclp simp: enter_scenario_def chaos_start_def)
  from chaos_capacity [OF this, of ?r] show ?thesis by simp
qed

text \<open>The lab accepts what the worker sends, across a rotation of the secret: when every secret configured in the lab is
  one the delivery was signed with, and the clocks agree within five minutes, the request that \<open>buildRequest\<close> made is
  answered 204 by \<open>/verify-signature\<close> and \<open>/success\<close>, with every configured secret counted as valid.\<close>

theorem chaos_accepts_worker:
  assumes "build_request e target c opened = Inr q" and "\<forall>h. \<forall>k\<in>insert ''WDE-Signature-Version'' wde_headers. we_inject e h k = h k"
    and "set (ch_secrets s) \<subseteq> set (signing_keys c opened)" and "ch_secrets s \<noteq> []"
    and "\<forall>(k, sec)\<in>set (signing_keys c opened). key_id_ok k" and "distinct (map fst (signing_keys c opened))"
    and "length (oc_payload opened) \<le> 1048576"
    and "- (2 ^ 63) \<le> time_unix (we_signed e)" and "time_unix (we_signed e) < 2 ^ 63 - 62135596800"
    and "\<forall>k. \<bar>now k - time_unix (we_signed e) * 1000000000\<bar> \<le> 5 * minute"
  shows "scenario_handler now Verify_signature (received q r) s
      = (Inl (no_body 204), record_result ''verify_signature'' 204 (int (length (ch_secrets s))) s)
    \<and> scenario_handler now Success (received q r) s
      = (Inl (no_body 204), record_result ''success'' 204 (int (length (ch_secrets s))) s)"
proof -
  have v: "hx_header (received q r) ''WDE-Signature-Version'' = ''v1''"
    using build_request_version [OF assms(1,2)] by (simp add: received_def)
  have b: "length (hx_body (received q r)) \<le> 1048576"
    using build_request_signature [OF assms(1)] assms(2,7) by (simp add: received_def)
  have k: "\<forall>x\<in>set (ch_secrets s). key_verifies now (received q r) x"
    using received_verifies [OF assms(1,2) _ assms(5,6,8,9)] assms(3,10) by fastforce
  show ?thesis by (simp add: scenario_handler_def verify_scenario_all [OF v b assms(4) k])
qed

theorem chaos_accepts_worker_witness:
  "\<exists>q s'. build_request demo_env ''https://a.example/'' demo_claim
        \<lparr>oc_path = ''/'', oc_payload = ''{}'', oc_secret = ''s'', oc_retiring = []\<rparr> = Inr q
     \<and> scenario_handler (\<lambda>_. 980 * second) Verify_signature (received q demo_chaos_request)
         (chaos_start\<lparr>ch_secrets := [(''k1'', ''s'')]\<rparr>) = (Inl (no_body 204), s') \<and> ch_valid s' = 1"
proof -
  let ?o = "\<lparr>oc_path = ''/'', oc_payload = ''{}'', oc_secret = ''s'', oc_retiring = []\<rparr>"
  obtain q where q: "build_request demo_env ''https://a.example/'' demo_claim ?o = Inr q"
    by (simp add: build_request_def demo_env_def demo_claim_def Let_def)
  have t: "time_unix (we_signed demo_env) = 970" by (simp add: demo_env_def time_unix_def second_def)
  have "\<forall>h. \<forall>k\<in>insert ''WDE-Signature-Version'' wde_headers. we_inject demo_env h k = h k" by (simp add: demo_env_def)
  from chaos_accepts_worker [OF q this, of "chaos_start\<lparr>ch_secrets := [(''k1'', ''s'')]\<rparr>" "\<lambda>_. 980 * second" demo_chaos_request]
  show ?thesis using q
    by (simp add: signing_keys_def demo_claim_def key_id_ok_def t duration_defs record_result_def)
qed

end
