(* ===== verification/Platform.thy ===== *)
theory Platform
  imports Retention Problem
begin

text \<open>
  The packages every process starts with: \<open>internal/platform/database\<close>, \<open>operational\<close>, \<open>logging\<close> and \<open>runtime\<close>. What the
  driver, the HTTP client and the listeners answer is a parameter.
\<close>

section \<open>The database (\<open>database/postgres.go\<close>)\<close>

datatype db_error = Err_configuration | Err_unavailable | Err_unexpected_role | Err_incompatible_schema

definition schema_version :: int where "schema_version = 6"

definition role_api :: string where "role_api = ''wde_api''"
definition role_worker :: string where "role_worker = ''wde_worker''"
definition role_admin :: string where "role_admin = ''wde_admin''"
definition role_console :: string where "role_console = ''wde_console''"

text \<open>Whether the URL parses, the pool can be made, the ping and the last query succeed; the role and the version read.\<close>

record db_env =
  de_parse :: "string \<Rightarrow> bool"
  de_pool :: bool
  de_ping :: bool
  de_role :: "(string \<times> int) option"
  de_query :: bool

text \<open>\<open>wde.runtime_ready()\<close> reads the state of \<open>restore_control\<close>.\<close>

definition runtime_ready :: "maintenance_db \<Rightarrow> bool" where
  "runtime_ready s \<longleftrightarrow> sb_ready (mx_sessions s) \<noteq> None"

definition check_database :: "db_env \<Rightarrow> string \<Rightarrow> maintenance_db \<Rightarrow> db_error + unit" where
  "check_database e expectedRole s =
     (if \<not> de_ping e then Inl Err_unavailable
      else case de_role e of
        None \<Rightarrow> Inl Err_unavailable
      | Some (role, version) \<Rightarrow>
          if role \<noteq> expectedRole then Inl Err_unexpected_role
          else if version \<noteq> schema_version then Inl Err_incompatible_schema
          else if \<not> de_query e \<or> \<not> runtime_ready s then Inl Err_unavailable
          else Inr ())"

definition open_database :: "db_env \<Rightarrow> string \<Rightarrow> string \<Rightarrow> maintenance_db \<Rightarrow> db_error + unit" where
  "open_database e url expectedRole s =
     (if \<not> de_parse e url then Inl Err_configuration
      else if \<not> de_pool e then Inl Err_unavailable
      else check_database e expectedRole s)"

section \<open>Probes (\<open>operational\<close>)\<close>

datatype probe_body = Probe_status string | Scrape

definition operational_handler :: "bool \<Rightarrow> bool \<Rightarrow> string \<Rightarrow> string \<Rightarrow> 'p request \<Rightarrow> probe_body reply" where
  "operational_handler ready metrics m path r =
     (let get = m = ''GET'' \<or> m = ''HEAD''
      in if get \<and> path = ''/livez'' then Reply 200 (Probe_status ''ok'')
         else if get \<and> path = ''/readyz'' then
           (if ready then Reply 200 (Probe_status ''ready'')
            else write_problem r 503 ''not_ready'' ''Service is not ready'')
         else if metrics \<and> get \<and> path = ''/metrics'' then Reply 200 Scrape
         else write_problem r 404 ''not_found'' ''Resource not found'')"

text \<open>\<open>check\<close>: \<open>get\<close> is the answer of the host and the path, without following redirects, or none within the time limits.\<close>

definition check_probe ::
    "(string \<Rightarrow> (string \<times> string) option) \<Rightarrow> (string \<times> string \<Rightarrow> int option) \<Rightarrow> string \<Rightarrow> string \<Rightarrow> string option" where
  "check_probe split_host_port get address path =
     (case split_host_port address of
        None \<Rightarrow> Some ''operational: invalid address''
      | Some (host, port) \<Rightarrow>
          if port = [] then Some ''operational: invalid address''
          else case get (''127.0.0.1:'' @ port, path) of
            None \<Rightarrow> Some ''operational: liveness unavailable''
          | Some status \<Rightarrow> if status \<noteq> 200 then Some ''operational: liveness unavailable'' else None)"

definition check_live ::
    "(string \<Rightarrow> (string \<times> string) option) \<Rightarrow> (string \<times> string \<Rightarrow> int option) \<Rightarrow> string \<Rightarrow> string option" where
  "check_live split_host_port get address = check_probe split_host_port get address ''/livez''"

definition check_ready ::
    "(string \<Rightarrow> (string \<times> string) option) \<Rightarrow> (string \<times> string \<Rightarrow> int option) \<Rightarrow> string \<Rightarrow> string option" where
  "check_ready split_host_port get address = check_probe split_host_port get address ''/readyz''"

section \<open>Logging (\<open>logging/logging.go\<close>)\<close>

text \<open>The kinds of \<open>slog\<close> values; \<open>Plain\<close> stands for booleans, durations, numbers and times.\<close>

datatype 'v log_value = Text string | Plain 'v | Any | Other_kind

datatype log_level = Level_debug | Level_info | Level_warn | Level_error

definition max_attribute_bytes :: nat where "max_attribute_bytes = 256"

definition is_allowed_attribute :: "string \<Rightarrow> bool" where
  "is_allowed_attribute key \<longleftrightarrow> key \<in> set
     [''service'', ''version'', ''environment'', ''request_id'', ''trace_id'', ''event_id'', ''delivery_id'', ''attempt_id'',
      ''status'', ''code'', ''duration_ms'', ''count'', ''component'', ''backlog'', ''oldest_age'', ''batches'', ''degraded'',
      ''deleted'', ''payloads'', ''secrets'', ''attempts'', ''deliveries'', ''events'', ''audits'', ''buckets'', ''workspace_rows'']"

definition rune_start :: "char \<Rightarrow> bool" where
  "rune_start c \<longleftrightarrow> byte_val c div 64 \<noteq> 2"

fun cut_at :: "string \<Rightarrow> nat \<Rightarrow> nat" where
  "cut_at v 0 = 0"
| "cut_at v (Suc n) = (if rune_start (v ! Suc n) then Suc n else cut_at v n)"

definition truncate_value :: "string \<Rightarrow> string" where
  "truncate_value value =
     (if length value \<le> max_attribute_bytes then value
      else take (cut_at value (max_attribute_bytes - 3)) value @ ''...'')"

definition sanitize_attribute :: "'v log_value \<Rightarrow> 'v log_value" where
  "sanitize_attribute value = (case value of
       Text t \<Rightarrow> Text (truncate_value t)
     | Plain v \<Rightarrow> Plain v
     | Any \<Rightarrow> Text ''<redacted>''
     | Other_kind \<Rightarrow> Text ''<unsupported>'')"

text \<open>\<open>text_of\<close> is \<open>Value.String\<close>; an attribute without a key is not written.\<close>

definition replace_attr ::
    "('v log_value \<Rightarrow> string) \<Rightarrow> bool \<Rightarrow> string \<times> 'v log_value \<Rightarrow> (string \<times> 'v log_value) option" where
  "replace_attr text_of in_group = (\<lambda>(key, value).
     if \<not> in_group \<and> key \<in> {''time'', ''level'', ''source''} then Some (key, value)
     else if \<not> in_group \<and> key = ''msg'' then Some (key, Text (truncate_value (text_of value)))
     else if \<not> is_allowed_attribute key then None
     else Some (key, sanitize_attribute value))"

definition parse_level :: "(string \<Rightarrow> string) \<Rightarrow> string \<Rightarrow> log_level" where
  "parse_level lower value =
     (let v = lower value
      in if v = ''debug'' then Level_debug else if v = ''warn'' then Level_warn
         else if v = ''error'' then Level_error else Level_info)"

section \<open>Shutting down (\<open>runtime\<close>)\<close>

record shutdown_budget =
  sh_limit :: duration
  sh_deadline :: "instant option"

definition new_shutdown_budget :: "duration \<Rightarrow> shutdown_budget" where
  "new_shutdown_budget limit = \<lparr>sh_limit = limit, sh_deadline = None\<rparr>"

definition budget_start :: "instant \<Rightarrow> shutdown_budget \<Rightarrow> shutdown_budget" where
  "budget_start now b = (case sh_deadline b of
       None \<Rightarrow> b\<lparr>sh_deadline := Some (now + sh_limit b)\<rparr>
     | Some d \<Rightarrow> b)"

text \<open>The deadline of a phase; the clock is read by \<open>Start\<close>, by the comparison and by the shorter deadline.\<close>

definition budget_context :: "instant \<Rightarrow> instant \<Rightarrow> instant \<Rightarrow> duration \<Rightarrow> shutdown_budget \<Rightarrow> instant \<times> shutdown_budget" where
  "budget_context t0 t1 t2 maximum b =
     (let b' = budget_start t0 b; deadline = the (sh_deadline b')
      in (if maximum > 0 \<and> t1 + maximum < deadline then t2 + maximum else deadline, b'))"

text \<open>
  One server: it stops by itself, or the context ends and \<open>Shutdown\<close> is called with the deadline it is given; \<open>None\<close> is
  \<open>http.ErrServerClosed\<close> for an error of \<open>Serve\<close> and success for one of \<open>Shutdown\<close>.
\<close>

datatype 'e serve_event = Stopped instant "'e option" | Context_done instant "instant \<Rightarrow> 'e option" "'e option"

definition serve_with_budget :: "'e serve_event \<Rightarrow> shutdown_budget \<Rightarrow> 'e option \<times> shutdown_budget" where
  "serve_with_budget ev b = (case ev of
       Stopped now None \<Rightarrow> (None, b)
     | Stopped now (Some err) \<Rightarrow> (Some err, budget_start now b)
     | Context_done now shutdown served \<Rightarrow>
         (case budget_context now now now 0 b of
            (deadline, b') \<Rightarrow> (case shutdown deadline of Some err \<Rightarrow> (Some err, b') | None \<Rightarrow> (served, b'))))"

text \<open>\<open>ServeAllWithBudget\<close>, with the servers in the order in which they end: the joined errors.\<close>

fun serve_all :: "'e serve_event list \<Rightarrow> shutdown_budget \<Rightarrow> 'e list \<times> shutdown_budget" where
  "serve_all [] b = ([], b)"
| "serve_all (ev # evs) b =
     (case serve_with_budget ev b of
        (err, b') \<Rightarrow> (case serve_all evs b' of
           (errs, b'') \<Rightarrow> (case err of None \<Rightarrow> (errs, b'') | Some e \<Rightarrow> (e # errs, b''))))"

section \<open>What is logged\<close>

lemma cut_at_le: "cut_at v n \<le> n"
  by (induction n) auto

lemma cut_at_rune: "cut_at v n = 0 \<or> rune_start (v ! cut_at v n)"
  by (induction n) auto

lemma cut_at_between: "cut_at v n < i \<Longrightarrow> i \<le> n \<Longrightarrow> \<not> rune_start (v ! i)"
proof (induction n)
  case (Suc n)
  then show ?case by (cases "i = Suc n") (auto split: if_splits)
qed simp

lemma length_truncate: "length (truncate_value v) \<le> max_attribute_bytes"
  using cut_at_le [of v 253] by (simp add: truncate_value_def max_attribute_bytes_def)

text \<open>Text in UTF-8: characters of one leading byte and up to three continuation bytes.\<close>

definition utf8_char :: "string \<Rightarrow> bool" where
  "utf8_char c \<longleftrightarrow> c \<noteq> [] \<and> rune_start (hd c) \<and> list_all (\<lambda>b. \<not> rune_start b) (tl c) \<and> length c \<le> 4"

lemma starts_at_character:
  assumes "list_all utf8_char cs" and "p < length (concat cs)" and "rune_start (concat cs ! p)"
  shows "\<exists>k. take p (concat cs) = concat (take k cs)"
  using assms
proof (induction cs arbitrary: p)
  case (Cons c cs)
  show ?case
  proof (cases "p < length c")
    case True
    have "p = 0"
    proof (rule ccontr)
      assume "p \<noteq> 0"
      then have "c ! p = tl c ! (p - 1)" "p - 1 < length (tl c)" using True by (auto simp: nth_tl)
      then have "\<not> rune_start (c ! p)" using Cons.prems(1) by (auto simp: utf8_char_def list_all_length)
      then show False using Cons.prems(3) True by (simp add: nth_append)
    qed
    then show ?thesis by (intro exI [of _ 0]) simp
  next
    case False
    then have "rune_start (concat cs ! (p - length c))" "p - length c < length (concat cs)"
      using Cons.prems by (auto simp: nth_append)
    then obtain k where "take (p - length c) (concat cs) = concat (take k cs)"
      using Cons.IH Cons.prems(1) by auto
    then show ?thesis using False by (intro exI [of _ "Suc k"]) simp
  qed
qed simp

lemma first_rune_start: "list_all utf8_char cs \<Longrightarrow> 0 < length (concat cs) \<Longrightarrow> rune_start (concat cs ! 0)"
  by (cases cs) (auto simp: utf8_char_def nth_append hd_conv_nth)

lemma rune_start_near:
  "list_all utf8_char cs \<Longrightarrow> i + 3 < length (concat cs) \<Longrightarrow> \<exists>j. i \<le> j \<and> j \<le> i + 3 \<and> rune_start (concat cs ! j)"
proof (induction cs arbitrary: i)
  case (Cons c cs)
  have c: "utf8_char c" "list_all utf8_char cs" using Cons.prems(1) by simp_all
  then have "0 < length c" "length c \<le> 4" by (simp_all add: utf8_char_def)
  note c = c this
  consider "i = 0" | "0 < i" "i < length c" | "length c \<le> i" by linarith
  then show ?case
  proof cases
    case 1
    have "rune_start (concat (c # cs) ! 0)" by (rule first_rune_start [OF Cons.prems(1)]) (use Cons.prems(2) in linarith)
    then show ?thesis using 1 by (intro exI [of _ 0]) simp
  next
    case 2
    moreover have "i + 3 < length c + length (concat cs)" using Cons.prems(2) by simp
    ultimately have "length c \<le> i + 3" "0 < length (concat cs)" using c(4) by linarith+
    then show ?thesis using first_rune_start [OF c(2)] 2 by (intro exI [of _ "length c"]) (simp add: nth_append)
  next
    case 3
    then have "i - length c + 3 < length (concat cs)" using Cons.prems(2) by auto
    then obtain j where "i - length c \<le> j" "j \<le> i - length c + 3" "rune_start (concat cs ! j)"
      using Cons.IH c(2) by blast
    then show ?thesis using 3 by (intro exI [of _ "j + length c"]) (auto simp: nth_append)
  qed
qed simp

lemma truncated_characters:
  assumes "list_all utf8_char cs" and "max_attribute_bytes < length (concat cs)"
  shows "\<exists>k. truncate_value (concat cs) = concat (take k cs) @ ''...'' \<and> 250 \<le> length (concat (take k cs))"
proof -
  let ?v = "concat cs" and ?p = "cut_at (concat cs) 253"
  have l: "253 < length ?v" using assms(2) by (simp add: max_attribute_bytes_def)
  have p: "?p < length ?v" using cut_at_le [of ?v 253] l by simp
  have "?p = 0 \<or> rune_start (?v ! ?p)" by (rule cut_at_rune)
  then obtain k where k: "take ?p ?v = concat (take k cs)"
    using starts_at_character [OF assms(1) p] by (metis concat.simps(1) take0)
  have "250 \<le> ?p"
  proof (rule ccontr)
    assume n: "\<not> 250 \<le> ?p"
    obtain j where j: "250 \<le> j" "j \<le> 253" "rune_start (?v ! j)"
      using rune_start_near [OF assms(1), of 250] l by auto
    have "\<not> rune_start (?v ! j)" by (rule cut_at_between [of _ 253]) (use n j in auto)
    then show False using j(3) by simp
  qed
  then show ?thesis using k p assms(2)
    by (intro exI [of _ k]) (auto simp: truncate_value_def max_attribute_bytes_def simp flip: k)
qed

section \<open>Properties\<close>

text \<open>Logs are bounded and hold only approved fields: an attribute is written only when it is a field of the record itself
  or on the list, it keeps its key, free text is cut to 256 bytes, and values of arbitrary types are never written.\<close>

theorem log_attributes_bounded:
  "case replace_attr text_of in_group (key, value) of
     None \<Rightarrow> \<not> is_allowed_attribute key
   | Some (k, v) \<Rightarrow> k = key \<and>
       (if \<not> in_group \<and> key \<in> {''time'', ''level'', ''source''} then v = value
        else (is_allowed_attribute key \<or> \<not> in_group \<and> key = ''msg'')
           \<and> (case v of Text t \<Rightarrow> length t \<le> 256 | Plain x \<Rightarrow> value = Plain x | _ \<Rightarrow> False))"
  using length_truncate
  by (auto simp: replace_attr_def sanitize_attribute_def max_attribute_bytes_def is_allowed_attribute_def split: log_value.splits)

text \<open>Text in UTF-8 that is cut keeps whole characters, of which at most three bytes more than needed are dropped.\<close>

theorem truncated_text_valid:
  assumes "list_all utf8_char cs" and "256 < length (concat cs)"
  shows "\<exists>k. truncate_value (concat cs) = concat (take k cs) @ ''...'' \<and> 250 \<le> length (concat (take k cs))"
  using truncated_characters [OF assms(1)] assms(2) by (simp add: max_attribute_bytes_def)

text \<open>The processes stop against one deadline: whichever phases follow, each gets a deadline that is at most the first
  start of the budget plus its limit, as long as the clock does not advance between the two readings of a shorter phase; a
  later start never moves it.\<close>

theorem shutdown_deadline_fixed:
  assumes "sh_deadline b = None" and "b1 = budget_start t0 b" and "budget_context t1 t2 t3 maximum b1 = (d, b2)"
  shows "sh_deadline b2 = Some (t0 + sh_limit b) \<and> d \<le> max (t0 + sh_limit b) (t0 + sh_limit b + (t3 - t2))
    \<and> (maximum > 0 \<longrightarrow> d \<le> max (t2 + maximum) (t3 + maximum))"
  using assms by (auto simp: budget_start_def budget_context_def Let_def split: if_splits)

end
