(* ===== verification/Admin_Cli.thy ===== *)
theory Admin_Cli
  imports Platform Config_Safety Retention_Safety
begin

text \<open>
  \<open>cmd/api\<close>: the commands of the API's binary (\<open>main.go\<close>), the first credential and its file (\<open>credentials.go\<close>), restores
  and the purge of workspaces (\<open>maintenance.go\<close>). Flags are parsed by \<open>Config.parse_flags\<close>; the files are a map from
  paths, and what the system calls answer is a parameter.
\<close>

datatype cli_error = Refused string | Bad_config config_error | Bad_database db_error | Bad_materials crypto_error
  | Auth_failed auth_error | Db_failed string

datatype api_command = Healthcheck | Credentials "string list" | Restore "string list" | Workspace "string list"
  | Serve "string list"

definition api_command_of :: "string list \<Rightarrow> api_command" where
  "api_command_of args =
     (if args = [''healthcheck''] then Healthcheck
      else case args of
        [] \<Rightarrow> Serve []
      | cmd # rest \<Rightarrow>
          if cmd = ''credentials'' then Credentials rest
          else if cmd = ''restore'' then Restore rest
          else if cmd = ''workspace'' then Workspace rest
          else Serve args)"

definition environment_address :: "environment \<Rightarrow> string \<Rightarrow> string \<Rightarrow> string" where
  "environment_address env name fallback =
     (case env name of None \<Rightarrow> fallback | Some value \<Rightarrow> if value \<noteq> [] then value else fallback)"

section \<open>The options of the credential commands\<close>




text \<open>The administrator's URL takes the place of the service's when it is set.\<close>

definition admin_environment :: "environment \<Rightarrow> environment" where
  "admin_environment env = (\<lambda>key.
     if key = ''WDE_DATABASE_URL''
     then (case env ''WDE_ADMIN_DATABASE_URL'' of Some value \<Rightarrow> Some value | None \<Rightarrow> env key)
     else env key)"


section \<open>The file of the first credential\<close>








section \<open>The commands on credentials\<close>

text \<open>\<open>AdminStore.Bootstrap\<close> with a sink that acts on the world; \<open>Auth.bootstrap\<close> sees what its sink answers only.\<close>

definition bootstrap_with ::
    "bootstrap_env \<Rightarrow> (bootstrap_result \<Rightarrow> 'w \<Rightarrow> ('w \<Rightarrow> 'w) option option \<times> 'w) \<Rightarrow> string \<Rightarrow> auth_db \<Rightarrow> 'w
      \<Rightarrow> (auth_error + bootstrap_result) \<times> auth_db \<times> 'w" where
  "bootstrap_with e sink name s w =
     (if length name < 1 \<or> length name > 120 then (Inl Err_credential_sink, s, w)
      else if \<not> be_exec e then (Inl Err_auth_other, s, w)
      else if ad_workspaces s \<noteq> [] then (Inl Err_already_bootstrapped, s, w)
      else case (be_workspace_id e, be_key_id e,
                 generate_token (be_test e) (be_pepper e) (be_prefix_raw e) (be_secret e), be_audit_id e) of
        (Some ws, Some key, Inr (token, pfx, ver), Some audit) \<Rightarrow>
          if \<not> be_insert e then (Inl Err_auth_other, s, w)
          else
            let result = \<lparr>bt_workspace = ws, bt_api_key = key, bt_token = token\<rparr>
            in (case sink result w of
                  (None, w') \<Rightarrow> (Inl Err_auth_other, s, w')
                | (Some cleanup, w') \<Rightarrow>
                    if be_commit e then (Inr result, bootstrap_insert ws key audit name pfx ver s, w')
                    else (Inl Err_auth_other, s, case cleanup of None \<Rightarrow> w' | Some f \<Rightarrow> f w'))
      | _ \<Rightarrow> (Inl Err_auth_other, s, w))"






section \<open>Restores and purges\<close>

definition open_raw_admin_pool :: "config_lib \<Rightarrow> db_env \<Rightarrow> environment \<Rightarrow> cli_error + unit" where
  "open_raw_admin_pool L e env = (case load_config L API [] (admin_environment env) of
       Inl err \<Rightarrow> Inl (Bad_config err)
     | Inr cfg \<Rightarrow>
         if \<not> de_parse e (cg_database_url cfg) then Inl (Bad_database Err_configuration)
         else if \<not> de_pool e then Inl (Bad_database Err_unavailable)
         else case de_role e of
           None \<Rightarrow> Inl (Bad_database Err_configuration)
         | Some (role, version) \<Rightarrow>
             if role \<noteq> role_admin \<or> version \<noteq> schema_version then Inl (Bad_database Err_configuration) else Inr ())"

definition report_statement :: "(string + 'a) \<times> 's \<Rightarrow> cli_error option \<times> 's" where
  "report_statement = (\<lambda>(res, s). (case res of Inl m \<Rightarrow> Some (Db_failed m) | Inr x \<Rightarrow> None, s))"

definition run_restore ::
    "config_lib \<Rightarrow> db_env \<Rightarrow> environment \<Rightarrow> outcome \<Rightarrow> uuid \<Rightarrow> instant \<Rightarrow> string list \<Rightarrow> maintenance_db \<Rightarrow> cli_error option \<times> maintenance_db" where
  "run_restore L e env out audit st args s = (case args of
       [] \<Rightarrow> (Some (Refused ''restore: quarantine or reconcile command required''), s)
     | cmd # rest \<Rightarrow>
         if cmd \<noteq> ''quarantine'' \<and> cmd \<noteq> ''reconcile''
         then (Some (Refused ''restore: quarantine or reconcile command required''), s)
         else
           (case parse_flags [(''generation'', False, \<lambda>v g. cl_flag_int L v)] rest (0 :: int) of
              Inl err \<Rightarrow> (Some (Refused ''restore: --generation must be positive''), s)
            | Inr (generation, positional) \<Rightarrow>
                if positional \<noteq> [] \<or> generation \<le> 0 then (Some (Refused ''restore: --generation must be positive''), s)
                else case open_raw_admin_pool L e env of
                  Inl err \<Rightarrow> (Some err, s)
                | Inr u \<Rightarrow>
                    if cmd = ''reconcile''
                    then report_statement (statement out (complete_restore_reconciliation generation audit) s)
                    else report_statement (statement out (enter_restore_quarantine generation audit st) s)))"

definition run_workspace ::
    "config_lib \<Rightarrow> (string \<Rightarrow> uuid option) \<Rightarrow> db_env \<Rightarrow> environment \<Rightarrow> outcome \<Rightarrow> uuid \<Rightarrow> uuid \<Rightarrow> instant \<Rightarrow> instant \<Rightarrow> string list
      \<Rightarrow> maintenance_db \<Rightarrow> cli_error option \<times> maintenance_db" where
  "run_workspace L parse_uuid e env out job audit st clk args s = (case args of
       [] \<Rightarrow> (Some (Refused ''workspace: purge command required''), s)
     | cmd # rest \<Rightarrow>
         if cmd \<noteq> ''purge'' then (Some (Refused ''workspace: purge command required''), s)
         else
           (case parse_flags [(''id'', False, \<lambda>v x. Some v)] rest [] of
              Inl err \<Rightarrow> (Some (Refused ''workspace: invalid arguments''), s)
            | Inr (idValue, positional) \<Rightarrow>
                if positional \<noteq> [] then (Some (Refused ''workspace: invalid arguments''), s)
                else case parse_uuid idValue of
                  None \<Rightarrow> (Some (Refused ''workspace: --id must be a UUID''), s)
                | Some ws \<Rightarrow> (case open_raw_admin_pool L e env of
                    Inl err \<Rightarrow> (Some err, s)
                  | Inr u \<Rightarrow> report_statement (statement out (request_workspace_purge ws ''admin-cli'' job audit st clk) s))))"


section \<open>The two models of a bootstrap\<close>

text \<open>What the sink of \<open>Auth.bootstrap\<close> leaves is the world of a sink that remembers the result it was handed.\<close>

lemma bootstrap_with_agrees:
  "bootstrap (e\<lparr>be_sink := Some f\<rparr>) name s =
     bootstrap_with e (\<lambda>b w. case f b of None \<Rightarrow> (None, w) | Some cleanup \<Rightarrow> (Some (if cleanup then Some (\<lambda>_. None) else None), Some b))
       name s None"
  by (simp add: bootstrap_def bootstrap_with_def generate_token_def Let_def split: option.split sum.split prod.split)


section \<open>What a sink does to the files\<close>








lemma on_mx_auth_id [simp]: "on_mx_auth (\<lambda>_. mx_auth s) s = s"
  by (simp add: on_mx_auth_def)


















section \<open>Properties\<close>



end
