(* ===== verification/Spec2Isabelle.thy ===== *)
theory Spec2Isabelle
  imports Signing Retry Cursors Cryptobox Queue_Fencing Delivery_Store Scheduler Outbound Deliver Problem Auth Paging Delivery_Views Publication Signing_Keys Endpoint_List Console_Session Quota Edge_Limit Config_Safety Api_Server Insights Console Retention_Safety Queue_System Chaos_Lab Platform Admin_Cli
begin

text \<open>
  \<^bold>\<open>A model of the webhook delivery engine\<close>

  The program accepts events over an HTTP API, stores them encrypted in PostgreSQL, fans each one out to the webhook endpoints
  that subscribed to its type, and delivers it by signed HTTP requests with leases, fencing tokens and retries. Its processes
  are \<open>cmd/api\<close>, \<open>cmd/worker\<close> and \<open>cmd/console\<close>, and \<open>cmd/chaoslab\<close> is a receiver for experiments; the first three share the database, whose functions (\<open>db/migrations\<close>) carry the
  concurrency control, and the packages of \<open>internal/\<close>. The development follows these packages: one theory, or a few, for
  each, with the definitions in the order of the code and under its names where HOL allows. A comment or a map entry names the
  file and the function behind each definition.

  \<^bold>\<open>How the code is represented.\<close> Structs and table rows are records, tables are lists of rows, an SQL function is a function from
  the tables to an error message or a result with the new tables, and one call of it is one step: the database runs each in
  a transaction that holds the locks on the rows it changes. Rows that \<open>SKIP LOCKED\<close> skips because another transaction holds them are a
  predicate the function takes. Times are integers of nanoseconds; \<open>st\<close> is \<open>transaction_timestamp()\<close> and \<open>clk i\<close> the i-th
  reading of \<open>clock_timestamp()\<close>. Strings and byte slices are lists of characters; Go's fixed-width integers are words or
  integers with the wrap-around written out (\<open>wrap64\<close>). Errors are values of a sum or an option, a panic is a branch of its
  own. Loops that need not end on every input take fuel; each has a theorem that some stated fuel is enough.

  \<^bold>\<open>Foundations.\<close>
  \<^item> \<open>Prelude\<close>: integers, instants, big-endian bytes, tables as lists, the collections \<open>byte_simps\<close> and \<open>range_simps\<close>.
  \<^item> \<open>Go_Strings\<close>, \<open>Go_Base64\<close>, \<open>Go_Crypto\<close>: what the program uses of the standard library, executable: string functions,
    unpadded base64, SHA-256, HMAC and AES-256-GCM. The locales \<open>mac\<close> and \<open>aead\<close> state what the clients use, and the
    functions interpret them; nothing is assumed about the strength of the ciphers, so every theorem on signatures and
    envelopes says what was computed, not what an attacker cannot do.

  \<^bold>\<open>Cryptographic components.\<close>
  \<^item> \<open>Signing\<close> (\<open>internal/signing\<close>): the canonical text, the header and \<open>Verify\<close>. A receiver accepts what \<open>Sign\<close> produced,
    and what it accepts carries the HMAC of exactly its arguments inside the permitted skew.
  \<^item> \<open>Cryptobox\<close> (\<open>internal/platform/cryptobox\<close>): envelopes, associated data, keyring documents. Sealing round trips
    across a rotation of the primary key; what opens was sealed under a key of the ring for the same data.
  \<^item> \<open>Cursors\<close>: the authenticated list cursors of both lists.

  \<^bold>\<open>The delivery queue.\<close>
  \<^item> \<open>Queue_Db\<close>: the tables and the functions that claim, recover, finalise, replay, purge and quarantine deliveries.
  \<^item> \<open>Queue_Inv\<close>: the step relation \<open>qstep\<close> of these transactions and the invariant \<open>db_inv\<close> they keep. The functions that
    delete rows are not steps of \<open>qstep\<close>; \<open>Queue_System\<close> (below) adds them.
  \<^item> \<open>Queue_Fencing\<close>: tokens only grow, a batch is fair and disjoint, a delivery is finalised at most once under a token.
  \<^item> \<open>Delivery_Store\<close> (\<open>postgres.go\<close>, \<open>types.go\<close>): the Go side of claim and finalisation; the locale \<open>claim_source\<close> is the
    interface the scheduler and the runner rely on.
  \<^item> \<open>Retry\<close>, \<open>Scheduler\<close>, \<open>Deliver\<close>: back-off and \<open>Retry-After\<close>, the loop of the worker as a step function over its channels,
    and one delivery attempt from the claim to its finalisation. The worker never exceeds its concurrency and loses no
    completion; a drain returns; every result it computes is one the database accepts.
  \<^item> \<open>Outbound\<close> (\<open>internal/outboundhttp\<close>): the egress policy. In production exactly the public IPv4 addresses are dialled.
  \<^item> \<open>Delivery_Views\<close>, \<open>Paging\<close>: what the API shows of deliveries; the locale \<open>paged_list\<close> is the contract of a keyset list, with
    the interpretations \<open>deliveries\<close> and (in \<open>Endpoint_List\<close>) \<open>endpoints\<close>: following the cursors returns each row once.

  \<^bold>\<open>The API.\<close>
  \<^item> \<open>Event\<close>, \<open>Publication\<close> (\<open>internal/event\<close>): validation, idempotent publication and fan-out, and what they promise over the
    steps \<open>api_step\<close>: publications, transactions of the queue and changes of other tables, the purges of metadata and of
    workspaces aside.
  \<^item> \<open>Endpoint\<close>, \<open>Signing_Keys\<close>, \<open>Endpoint_List\<close> (\<open>internal/endpoint\<close>): creation, rotation and listing; which secrets a claim
    carries after a rotation. The step relation \<open>key_step\<close> has every transaction on secrets and rotation commands, the
    purges of metadata and of workspaces included, as long as the commands in question are kept.
  \<^item> \<open>Auth\<close>, \<open>Quota\<close>, \<open>Edge_Limit\<close>, \<open>Problem\<close>, \<open>Tenant_Tx\<close>: API keys, the cluster-wide quotas, the limiter in front of every
    handler, problem responses, transactions with row-level security.
  \<^item> \<open>Api_Server\<close> (\<open>cmd/api/server.go\<close>): the routes and the chain of guards, composed of all of these: no request reaches
    a handler unguarded, and none sees or changes domain rows of another workspace. \<open>ax_data\<close> holds the domain tables, \<open>ax_auth\<close> the
    credentials, \<open>ax_buckets\<close> the quota rows and \<open>ax_edge\<close> the counters of the process.
  \<^item> \<open>Config\<close>, \<open>Config_Safety\<close> (\<open>internal/platform/config\<close>): the configuration from defaults, environment and flags, and what a
    configuration that loads guarantees to the other parts.

  \<^bold>\<open>The console.\<close>
  \<^item> \<open>Console_Session\<close> (\<open>internal/consolesession\<close>, migration 000021): login, resumption, logout and purge of browser sessions, with
    the step relation \<open>session_step\<close> and the limit of five sessions for a key.
  \<^item> \<open>Insights\<close>, \<open>Console\<close> (\<open>internal/insights\<close>, \<open>internal/console\<close>): the dashboard and every page, the protection against forged
    requests and the quota of a session.

  \<^bold>\<open>Maintenance.\<close>
  \<^item> \<open>Retention_Db\<close> (migrations 000013 to 000017): the maintenance functions over all tables.
  \<^item> \<open>Retention\<close> (\<open>internal/retention\<close>): the store and the runner; the locale \<open>maintenance_store\<close> is the contract of a store, with a
    weight that every pass with progress lowers.
  \<^item> \<open>Retention_Drain\<close>, \<open>Retention_Safety\<close>: the store keeps the contract, so that a run ends and drains what is due; what is in use
    is never touched, the purge of a workspace stays in it, and a restored backup lets nobody in. That runs end and drain is
    shown for runs that no other transaction disturbs; \<open>held_rows_spin\<close> shows why that is needed.
  \<^item> \<open>Queue_System\<close>: the step relation \<open>system_step\<close> over all tables with every transaction that reaches deliveries and attempts,
    the deletions included, and the invariant of the queue in every state it reaches.

  \<^bold>\<open>Processes and tools.\<close>
  \<^item> \<open>Platform\<close> (\<open>internal/platform/database\<close>, \<open>operational\<close>, \<open>logging\<close>, \<open>runtime\<close>): the checks of a database, the probes, the fields
    a log record may hold and their length, the shutdown budget.
  \<^item> \<open>Admin_Cli\<close> (\<open>cmd/api/main.go\<close>, \<open>credentials.go\<close>, \<open>maintenance.go\<close>): the administrator's commands over files and tables; the
    first credential is written completely or not at all.
  \<^item> \<open>Chaos_Lab\<close> (\<open>internal/chaoslab\<close>): the receiver with its slots, counters, secrets and scenarios as a step relation over the
    requests in flight; it keeps its limits and accepts what the worker signs.

  \<^bold>\<open>Fuel.\<close> \<open>decode_unique\<close> takes the number of tokens of its input, of which each call uses one; \<open>walk_pages\<close> is proved to end with one
  unit more than the pages of the list; \<open>run_loop\<close> with more than the weight of the tables. Other recursions are structural or
  have a termination proof.

  \<^bold>\<open>Parameters.\<close> Code the repository only calls stays an argument: the parsers of URLs, addresses, durations, floating-point
  numbers, JSON documents, forms and cookies, the text of identifiers, IDNA, the resolver, the HTTP client, the clock, randomness,
  which statements and commits fail, the collation of \<open>ORDER BY\<close> on text.

  \<^bold>\<open>Not modelled.\<close> Metrics and traces (\<open>internal/platform/telemetry\<close>) and the queue statistics that feed them, because they only
  observe; listeners, TLS, signals and the loops that start and stop processes, because they are glue over the standard library
  and the driver; templates, static files and the documentation server; the show case, the benchmark and the end-to-end tools;
  grants, policies, indexes and the order of migrations in \<open>db/migrations\<close>. Row-level security is represented by the workspace
  argument of the functions that read tables. Clock readings within one statement are one value where nothing depends on
  their difference, and the process limiter reads its clock in the step that takes its lock.
\<close>

end
